(* ===== verification/Drone_Prelude.thy ===== *)
theory Drone_Prelude
  imports Complex_Main "HOL-Library.Monad_Syntax"
begin

section \<open>Prelude: results, generic lemmas, collections\<close>

text \<open>
  What every theory of the development shares: the result type of code that may raise,
  its sequencing, the collections the component proofs draw on, and generic lemmas on
  lists and folds. Nothing here is specific to the drone.
\<close>

subsection \<open>Collections of facts\<close>

named_theorems pyfloat_simps \<open>rewriting of Python float comparisons and arithmetic\<close>
named_theorems frame_simps \<open>fields that an operation leaves alone\<close>
named_theorems inv_intros \<open>operations that keep an invariant\<close>

subsection \<open>Results of code that may raise\<close>

text \<open>
  A call either raises, \<open>Inl e\<close>, or returns a value, \<open>Inr v\<close>. \<open>rbind\<close> is the
  sequencing of Python statements: the first raise ends the block.
\<close>

definition rbind :: "'e + 'a \<Rightarrow> ('a \<Rightarrow> 'e + 'b) \<Rightarrow> 'e + 'b" where
  "rbind m f = (case m of Inl e \<Rightarrow> Inl e | Inr v \<Rightarrow> f v)"

definition guard_raise :: "bool \<Rightarrow> 'e \<Rightarrow> 'e + unit" where
  "guard_raise ok e = (if ok then Inr () else Inl e)"

definition returns :: "'e + 'a \<Rightarrow> bool" where
  "returns m = (case m of Inl _ \<Rightarrow> False | Inr _ \<Rightarrow> True)"

lemma rbind_simps [simp]:
  "rbind (Inl e) f = Inl e"
  "rbind (Inr v) f = f v"
  by (simp_all add: rbind_def)

lemma rbind_Inr_iff:
  "rbind m f = Inr r \<longleftrightarrow> (\<exists>v. m = Inr v \<and> f v = Inr r)"
  by (cases m) simp_all

lemma rbind_Inl_iff:
  "rbind m f = Inl e \<longleftrightarrow> m = Inl e \<or> (\<exists>v. m = Inr v \<and> f v = Inl e)"
  by (cases m) simp_all

lemma rbind_InrE [elim!]:
  assumes "rbind m f = Inr r"
  obtains v where "m = Inr v" "f v = Inr r"
  using assms by (auto simp: rbind_Inr_iff)

lemma guard_raise_Inr [simp]: "guard_raise ok e = Inr u \<longleftrightarrow> ok"
  by (simp add: guard_raise_def)

lemma guard_raise_Inl [simp]: "guard_raise ok e = Inl e' \<longleftrightarrow> \<not> ok \<and> e' = e"
  by (auto simp: guard_raise_def)

lemma guard_raise_True [simp]: "guard_raise True e = Inr ()"
  by (simp add: guard_raise_def)

lemma guard_raise_False [simp]: "guard_raise False e = Inl e"
  by (simp add: guard_raise_def)

lemma returns_simps [simp]:
  "\<not> returns (Inl e)"
  "returns (Inr v)"
  by (simp_all add: returns_def)

lemma returns_iff: "returns m \<longleftrightarrow> (\<exists>v. m = Inr v)"
  by (cases m) simp_all

subsection \<open>Methods that may raise half-way\<close>

text \<open>
  A method that mutates its object and may raise returns its result together with the
  state it leaves: what was assigned before the raise stays assigned.
\<close>

type_synonym ('e, 's, 'a) eff = "'s \<Rightarrow> ('e + 'a) \<times> 's"

definition ebind :: "('e, 's, 'a) eff \<Rightarrow> ('a \<Rightarrow> ('e, 's, 'b) eff) \<Rightarrow> ('e, 's, 'b) eff" where
  "ebind m f s = (case m s of (Inl e, s') \<Rightarrow> (Inl e, s') | (Inr v, s') \<Rightarrow> f v s')"

definition ereturn :: "'a \<Rightarrow> ('e, 's, 'a) eff" where
  "ereturn v s = (Inr v, s)"

definition emodify :: "('s \<Rightarrow> 's) \<Rightarrow> ('e, 's, unit) eff" where
  "emodify f s = (Inr (), f s)"

definition elift :: "('s \<Rightarrow> 'e + 'a) \<Rightarrow> ('e, 's, 'a) eff" where
  \<comment> \<open>an expression that reads the state and may raise\<close>
  "elift f s = (f s, s)"

lemma ebind_simps [simp]:
  "m s = (Inl e, s') \<Longrightarrow> ebind m f s = (Inl e, s')"
  "m s = (Inr v, s') \<Longrightarrow> ebind m f s = f v s'"
  by (simp_all add: ebind_def)

lemma eff_simps [simp]:
  "ereturn v s = (Inr v, s)"
  "emodify g s = (Inr (), g s)"
  "elift h s = (h s, s)"
  by (simp_all add: ereturn_def emodify_def elift_def)

subsection \<open>Runs: an operation folded over a list of events\<close>

fun run :: "('s \<Rightarrow> 'e \<Rightarrow> 's) \<Rightarrow> 's \<Rightarrow> 'e list \<Rightarrow> 's" where
  "run step s [] = s"
| "run step s (e # es) = run step (step s e) es"

lemma run_append: "run step s (xs @ ys) = run step (run step s xs) ys"
  by (induction xs arbitrary: s) simp_all

text \<open>The one induction every "holds after any sequence of operations" statement uses.\<close>

lemma run_invariant:
  assumes "\<And>s e. I s \<Longrightarrow> I (step s e)" and "I s"
  shows "I (run step s es)"
  using assms(2) by (induction es arbitrary: s) (simp_all add: assms(1))

lemma run_invariant_on:
  assumes "\<And>s e. I s \<Longrightarrow> e \<in> set es \<Longrightarrow> I (step s e)" and "I s"
  shows "I (run step s es)"
  using assms by (induction es arbitrary: s) simp_all

subsection \<open>Python slices and bounded suffixes\<close>

definition last_n :: "nat \<Rightarrow> 'a list \<Rightarrow> 'a list" where
  "last_n n xs = drop (length xs - n) xs"

lemma length_last_n [simp]: "length (last_n n xs) = min n (length xs)"
  by (simp add: last_n_def)

lemma last_n_short: "length xs \<le> n \<Longrightarrow> last_n n xs = xs"
  by (simp add: last_n_def)

lemma last_n_snoc_short:
  "length xs < n \<Longrightarrow> last_n n (xs @ [x]) = last_n n xs @ [x]"
  by (simp add: last_n_def)

lemma last_n_snoc_full:
  assumes "0 < n" "n \<le> length xs"
  shows "last_n n (xs @ [x]) = tl (last_n n xs) @ [x]"
  using assms by (simp add: last_n_def tl_drop drop_Suc[symmetric] Suc_diff_le)

end
