(* ===== verification/Py_Float.thy ===== *)
theory Py_Float
  imports Drone_Prelude
begin

section \<open>Python floats: IEEE-754 binary64\<close>

text \<open>
  Python's \<open>float\<close> is a binary64 number. A value is a finite real, an infinity or NaN.
  Every arithmetic operation is the exact real operation followed by rounding to the
  nearest representable number, ties to even (\<open>rnd\<close>), with overflow to infinity
  (\<open>f64\<close>), exactly as the standard prescribes; comparisons with NaN are false; division
  by zero raises, as in Python. The sign of zero is not kept: Python compares the two
  zeros equal and the modelled code never prints, divides by or takes the sign of one.
\<close>

datatype pyfloat = Fin real | PInf | NInf | NaN

subsection \<open>Rounding to 53 significant bits\<close>

definition rne :: "real \<Rightarrow> int" where
  \<comment> \<open>round to the nearest integer, ties to even\<close>
  "rne x = (let f = \<lfloor>x\<rfloor>; d = x - of_int f
            in if d < 1 / 2 \<or> (d = 1 / 2 \<and> even f) then f else f + 1)"

definition fexp :: "real \<Rightarrow> int" where
  \<comment> \<open>exponent of the last bit: 52 below the leading bit, never below the subnormals\<close>
  "fexp x = max (\<lfloor>log 2 \<bar>x\<bar>\<rfloor> - 52) (- 1074)"

definition rnd :: "real \<Rightarrow> real" where
  "rnd x = (if x = 0 then 0
            else of_int (rne (x / 2 powr of_int (fexp x))) * 2 powr of_int (fexp x))"

definition f64_limit :: real where
  \<comment> \<open>the first magnitude above the largest binary64 number\<close>
  "f64_limit = 2 ^ 1024"

definition f64 :: "real \<Rightarrow> pyfloat" where
  "f64 x = (if f64_limit \<le> rnd x then PInf
            else if rnd x \<le> - f64_limit then NInf else Fin (rnd x))"

lemma rne_of_int [simp]: "rne (of_int k) = k"
  by (simp add: rne_def)

lemma rne_ge_floor: "\<lfloor>x\<rfloor> \<le> rne x"
  by (simp add: rne_def Let_def)

lemma rne_le_Suc_floor: "rne x \<le> \<lfloor>x\<rfloor> + 1"
  by (simp add: rne_def Let_def)

lemma rne_mono:
  assumes "x \<le> y"
  shows "rne x \<le> rne y"
proof (cases "\<lfloor>x\<rfloor> < \<lfloor>y\<rfloor>")
  case True
  have "rne x \<le> \<lfloor>x\<rfloor> + 1" by (rule rne_le_Suc_floor)
  also have "\<dots> \<le> \<lfloor>y\<rfloor>" using True by simp
  also have "\<dots> \<le> rne y" by (rule rne_ge_floor)
  finally show ?thesis .
next
  case False
  with floor_mono[OF assms] have "\<lfloor>x\<rfloor> = \<lfloor>y\<rfloor>" by simp
  with assms show ?thesis by (auto simp: rne_def Let_def)
qed

lemma rne_minus: "rne (- x) = - rne x"
proof (cases "x = of_int \<lfloor>x\<rfloor>")
  case True
  then obtain k where "x = of_int k" by blast
  then show ?thesis using rne_of_int[of "- k"] by simp
next
  case False
  then have lo: "of_int \<lfloor>x\<rfloor> < x" using of_int_floor_le[of x] by linarith
  have hi: "x < of_int \<lfloor>x\<rfloor> + 1" by linarith
  have f: "\<lfloor>- x\<rfloor> = - \<lfloor>x\<rfloor> - 1"
    unfolding floor_eq_iff of_int_diff of_int_minus of_int_1 using lo hi by linarith
  let ?d = "x - of_int \<lfloor>x\<rfloor>"
  have d: "- x - of_int \<lfloor>- x\<rfloor> = 1 - ?d" by (simp add: f)
  show ?thesis
  proof (cases "?d = 1 / 2")
    case True
    then have "1 - ?d = 1 / 2" by simp
    with True d f show ?thesis by (simp add: rne_def Let_def)
  next
    case False
    with d f show ?thesis by (auto simp: rne_def Let_def)
  qed
qed

lemma fexp_minus [simp]: "fexp (- x) = fexp x"
  by (simp add: fexp_def)

lemma fexp_mono:
  assumes "0 < x" "x \<le> y"
  shows "fexp x \<le> fexp y"
proof -
  have "log 2 x \<le> log 2 y" using assms by simp
  then have "\<lfloor>log 2 x\<rfloor> \<le> \<lfloor>log 2 y\<rfloor>" by (rule floor_mono)
  then show ?thesis using assms by (simp add: fexp_def le_max_iff_disj) linarith
qed

lemma rnd_0 [simp]: "rnd 0 = 0"
  by (simp add: rnd_def)

lemma rnd_minus: "rnd (- x) = - rnd x"
  by (simp add: rnd_def rne_minus)

lemma rnd_nonneg:
  assumes "0 \<le> x"
  shows "0 \<le> rnd x"
proof (cases "x = 0")
  case False
  have "0 \<le> x / 2 powr of_int (fexp x)" using assms by simp
  then have "rne 0 \<le> rne (x / 2 powr of_int (fexp x))" by (rule rne_mono)
  then have "0 \<le> rne (x / 2 powr of_int (fexp x))" using rne_of_int[of 0] by simp
  then show ?thesis using False by (simp add: rnd_def)
qed simp

text \<open>A multiple of the unit in the last place is not moved.\<close>

lemma rnd_multiple:
  assumes "x = of_int m * 2 powr of_int (fexp x)"
  shows "rnd x = x"
proof (cases "x = 0")
  case False
  have "x / 2 powr of_int (fexp x) = of_int m" using assms by (simp add: field_simps)
  then show ?thesis using False assms by (simp add: rnd_def)
qed simp

lemma powr_int_diff_int:
  assumes "e \<le> (k::int)"
  shows "\<exists>n::int. (2::real) powr of_int k = of_int n * 2 powr of_int e"
proof -
  have "(2::real) powr of_int k = 2 powr of_int (k - e) * 2 powr of_int e"
    by (simp add: powr_diff)
  also have "(2::real) powr of_int (k - e) = of_int (2 ^ nat (k - e))"
    using assms by (simp add: powr_realpow[symmetric])
  finally show ?thesis by blast
qed

text \<open>Integers below \<open>2 ^ 53\<close> scaled by a power of two are representable.\<close>

lemma fexp_scaled_le:
  assumes "m \<noteq> 0" "\<bar>m\<bar> < 2 ^ 53" "- 1074 \<le> e"
  shows "fexp (of_int m * 2 powr of_int e) \<le> e"
proof -
  let ?x = "of_int m * 2 powr of_int e :: real"
  have pos: "0 < \<bar>?x\<bar>" using assms by simp
  have "real_of_int \<bar>m\<bar> < real_of_int (2 ^ 53)" using assms(2) by (simp only: of_int_less_iff)
  then have "real_of_int \<bar>m\<bar> < 2 ^ 53" by simp
  then have "\<bar>?x\<bar> < 2 ^ 53 * 2 powr of_int e" by (simp add: abs_mult)
  also have "\<dots> = 2 powr of_int (53 + e)" by (simp add: powr_add powr_realpow[symmetric])
  finally have "\<bar>?x\<bar> < 2 powr of_int (53 + e)" .
  then have "log 2 \<bar>?x\<bar> < of_int (53 + e)" using pos by (subst log_less_iff) auto
  then have "\<lfloor>log 2 \<bar>?x\<bar>\<rfloor> < 53 + e" by (simp only: floor_less_iff)
  then show ?thesis using assms(3) by (simp add: fexp_def)
qed

lemma rnd_scaled:
  assumes "\<bar>m\<bar> < 2 ^ 53" "- 1074 \<le> e"
  shows "rnd (of_int m * 2 powr of_int e) = of_int m * 2 powr of_int e"
proof (cases "m = 0")
  case False
  let ?x = "of_int m * 2 powr of_int e :: real"
  from fexp_scaled_le[OF False assms]
  obtain n :: int where "(2::real) powr of_int e = of_int n * 2 powr of_int (fexp ?x)"
    using powr_int_diff_int by blast
  then have "?x = of_int (m * n) * 2 powr of_int (fexp ?x)" by simp
  then show ?thesis by (rule rnd_multiple)
qed simp

lemma rnd_power2: "- 1074 \<le> e \<Longrightarrow> rnd (2 powr of_int e) = 2 powr of_int e"
  using rnd_scaled[of 1 e] by simp

subsection \<open>Rounding is monotone\<close>

lemma rnd_bounds_binade:
  assumes "0 < x" "x \<le> 2 powr of_int k" "fexp x \<le> k"
  shows "rnd x \<le> 2 powr of_int k"
proof -
  let ?u = "2 powr of_int (fexp x) :: real"
  obtain n :: int where n: "(2::real) powr of_int k = of_int n * ?u"
    using powr_int_diff_int[OF assms(3)] by blast
  have "x / ?u \<le> of_int n" using assms(2) by (simp add: n field_simps)
  then have "rne (x / ?u) \<le> n" using rne_mono[of "x / ?u" "of_int n"] by simp
  then show ?thesis using assms(1) by (simp add: rnd_def n)
qed

lemma rnd_ge_binade:
  assumes "0 < y" "2 powr of_int k \<le> y" "fexp y \<le> k"
  shows "2 powr of_int k \<le> rnd y"
proof -
  let ?u = "2 powr of_int (fexp y) :: real"
  obtain n :: int where n: "(2::real) powr of_int k = of_int n * ?u"
    using powr_int_diff_int[OF assms(3)] by blast
  have "of_int n \<le> y / ?u" using assms(2) by (simp add: n field_simps)
  then have "n \<le> rne (y / ?u)" using rne_mono[of "of_int n" "y / ?u"] by simp
  then show ?thesis using assms(1) by (simp add: rnd_def n)
qed

lemma rnd_mono_pos:
  assumes "0 < x" "x \<le> y"
  shows "rnd x \<le> rnd y"
proof (cases "fexp x = fexp y")
  case True
  have "x / 2 powr of_int (fexp x) \<le> y / 2 powr of_int (fexp y)"
    using assms True by (simp add: divide_right_mono)
  from rne_mono[OF this] show ?thesis using assms True by (simp add: rnd_def)
next
  case False
  with fexp_mono[OF assms] have less: "fexp x < fexp y" by simp
  have y: "0 < y" using assms by simp
  define k where "k = \<lfloor>log 2 y\<rfloor>"
  have "- 1074 < fexp y" using less by (simp add: fexp_def)
  then have fy: "fexp y = k - 52" using y by (simp add: fexp_def k_def max_def split: if_splits)
  have ky: "2 powr of_int k \<le> y"
    using y k_def floor_log_eq_powr_iff[of y 2 k] by simp
  have lx: "\<lfloor>log 2 x\<rfloor> < k" using less assms(1) fy by (simp add: fexp_def)
  then have "log 2 x < of_int k" by (simp add: floor_less_iff)
  then have xk: "x \<le> 2 powr of_int k" using assms(1) by (simp add: log_less_iff less_imp_le)
  have "rnd x \<le> 2 powr of_int k"
    using assms(1) xk less fy by (intro rnd_bounds_binade) auto
  also have "\<dots> \<le> rnd y" using y ky fy by (intro rnd_ge_binade) auto
  finally show ?thesis .
qed

lemma rnd_mono: "x \<le> y \<Longrightarrow> rnd x \<le> rnd y"
proof -
  assume le: "x \<le> y"
  consider "0 < x" | "x \<le> 0" "0 \<le> y" | "y < 0" by linarith
  then show ?thesis
  proof cases
    case 1
    then show ?thesis using le by (rule rnd_mono_pos)
  next
    case 2
    have "0 \<le> rnd (- x)" using 2 by (intro rnd_nonneg) simp
    moreover have "0 \<le> rnd y" using 2 by (intro rnd_nonneg) simp
    ultimately show ?thesis by (simp add: rnd_minus)
  next
    case 3
    have "rnd (- y) \<le> rnd (- x)" using 3 le by (intro rnd_mono_pos) auto
    then show ?thesis by (simp add: rnd_minus)
  qed
qed

subsection \<open>Representable numbers are the fixed points\<close>

lemma fexp_upper: "x \<noteq> 0 \<Longrightarrow> \<bar>x\<bar> < 2 ^ 53 * 2 powr of_int (fexp x)"
proof -
  assume x: "x \<noteq> 0"
  have "\<bar>x\<bar> < 2 powr (of_int \<lfloor>log 2 \<bar>x\<bar>\<rfloor> + 1)"
    using x floor_log_eq_powr_iff[of "\<bar>x\<bar>" 2 "\<lfloor>log 2 \<bar>x\<bar>\<rfloor>"] by simp
  also have "\<dots> \<le> 2 powr of_int (53 + fexp x)"
    by (intro powr_mono) (auto simp: fexp_def)
  also have "\<dots> = 2 ^ 53 * 2 powr of_int (fexp x)"
    by (simp add: powr_add powr_realpow[symmetric])
  finally show ?thesis .
qed

lemma rnd_idem [simp]: "rnd (rnd x) = rnd x"
proof (cases "x = 0")
  case False
  let ?u = "2 powr of_int (fexp x) :: real"
  let ?n = "rne (x / ?u)"
  have e: "- 1074 \<le> fexp x" by (simp add: fexp_def)
  have r: "rnd x = of_int ?n * ?u" using False by (simp add: rnd_def)
  have ub: "\<bar>x / ?u\<bar> < 2 ^ 53" using fexp_upper[OF False] by (simp add: field_simps)
  then have "x / ?u < 2 ^ 53" "- (2 ^ 53) < x / ?u" by (simp_all only: abs_less_iff) linarith+
  then have "x / ?u \<le> of_int (2 ^ 53)" "of_int (- (2 ^ 53)) \<le> x / ?u" by simp_all
  from this[THEN rne_mono] have n: "?n \<le> 2 ^ 53" "- (2 ^ 53) \<le> ?n"
    unfolding rne_of_int by simp_all
  show ?thesis
  proof (cases "\<bar>?n\<bar> = 2 ^ 53")
    case True
    have p: "(2::real) ^ 53 * ?u = 2 powr of_int (fexp x + 53)"
      by (simp add: powr_add powr_realpow[symmetric])
    from True have "?n = 2 ^ 53 \<or> ?n = - (2 ^ 53)" by linarith
    then have "rnd x = 2 powr of_int (fexp x + 53) \<or> rnd x = - (2 powr of_int (fexp x + 53))"
    proof
      assume "?n = 2 ^ 53"
      then show ?thesis unfolding r p[symmetric] by simp
    next
      assume "?n = - (2 ^ 53)"
      then have "real_of_int ?n = - (2 ^ 53)" by simp
      then show ?thesis unfolding r p[symmetric] by simp
    qed
    moreover have "rnd (2 powr of_int (fexp x + 53)) = 2 powr of_int (fexp x + 53)"
      using e by (intro rnd_power2) simp
    ultimately show ?thesis by (auto simp: rnd_minus)
  next
    case False
    then have "\<bar>?n\<bar> < 2 ^ 53" using n by linarith
    then show ?thesis unfolding r using e by (rule rnd_scaled)
  qed
qed simp

lemma rnd_dyadic:
  assumes "\<bar>m\<bar> < 2 ^ 53" "k \<le> 1074"
  shows "rnd (of_int m / 2 ^ k) = of_int m / 2 ^ k"
proof -
  have "of_int m / 2 ^ k = of_int m * (2::real) powr of_int (- int k)"
    by (simp add: powr_minus powr_realpow divide_inverse)
  then show ?thesis using rnd_scaled[OF assms(1), of "- int k"] assms(2) by simp
qed

text \<open>Rewriting of closed terms: small integers and dyadic fractions are exact.\<close>

lemma rnd_1 [simp]: "rnd 1 = 1"
  using rnd_dyadic[of 1 0] by simp

lemma rnd_numeral [simp]:
  "(numeral n :: int) < 2 ^ 53 \<Longrightarrow> rnd (numeral n) = numeral n"
  using rnd_dyadic[of "numeral n" 0] by simp

lemma rnd_neg_numeral [simp]:
  "(numeral n :: int) < 2 ^ 53 \<Longrightarrow> rnd (- numeral n) = - numeral n"
  by (simp add: rnd_minus)

lemma rnd_neg_1 [simp]: "rnd (- 1) = - 1"
  by (simp add: rnd_minus)

lemma rnd_of_int: "\<bar>m\<bar> < 2 ^ 53 \<Longrightarrow> rnd (of_int m) = of_int m"
  using rnd_dyadic[of m 0] by simp

lemma rnd_fraction:
  assumes "\<bar>m\<bar> < 2 ^ 53" "k \<le> 1074" "x * 2 ^ k = of_int m"
  shows "rnd x = x"
proof -
  have "x = of_int m / 2 ^ k" using assms(3) by (simp add: field_simps)
  then show ?thesis using rnd_dyadic[OF assms(1,2)] by simp
qed

lemma rnd_half [simp]: "rnd (1 / 2) = 1 / 2"
  by (rule rnd_fraction[of 1 1]) simp_all

lemma rnd_quarter [simp]: "rnd (1 / 4) = 1 / 4"
  by (rule rnd_fraction[of 1 2]) simp_all

lemma rnd_three_quarters [simp]: "rnd (3 / 4) = 3 / 4"
  by (rule rnd_fraction[of 3 2]) simp_all

lemma rnd_in_unit: "0 \<le> x \<Longrightarrow> x \<le> 1 \<Longrightarrow> 0 \<le> rnd x \<and> rnd x \<le> 1"
  using rnd_mono[of 0 x] rnd_mono[of x 1] by simp

lemma rnd_le_fix: "x \<le> y \<Longrightarrow> rnd y = y \<Longrightarrow> rnd x \<le> y"
  using rnd_mono[of x y] by simp

lemma rnd_ge_fix: "y \<le> x \<Longrightarrow> rnd y = y \<Longrightarrow> y \<le> rnd x"
  using rnd_mono[of y x] by simp

subsection \<open>Comparisons\<close>

text \<open>Comparisons with NaN are false, as in Python.\<close>

fun flt :: "pyfloat \<Rightarrow> pyfloat \<Rightarrow> bool" where
  "flt NaN _ = False"
| "flt _ NaN = False"
| "flt (Fin a) (Fin b) = (a < b)"
| "flt NInf NInf = False"
| "flt NInf _ = True"
| "flt _ NInf = False"
| "flt PInf _ = False"
| "flt _ PInf = True"

definition feq :: "pyfloat \<Rightarrow> pyfloat \<Rightarrow> bool" where
  "feq a b = (a \<noteq> NaN \<and> a = b)"

definition fle :: "pyfloat \<Rightarrow> pyfloat \<Rightarrow> bool" where
  "fle a b = (flt a b \<or> feq a b)"

text \<open>
  Python's builtins return the first argument unless the second is strictly better:
  with NaN the comparison is false, so \<open>min(1.0, nan)\<close> is \<open>1.0\<close> and \<open>max(nan, 0.0)\<close>
  is NaN.
\<close>

definition fmax :: "pyfloat \<Rightarrow> pyfloat \<Rightarrow> pyfloat" where
  "fmax a b = (if flt a b then b else a)"

definition fmin :: "pyfloat \<Rightarrow> pyfloat \<Rightarrow> pyfloat" where
  "fmin a b = (if flt b a then b else a)"

fun isfinite :: "pyfloat \<Rightarrow> bool" where
  "isfinite (Fin _) = True"
| "isfinite _ = False"

fun is_f64 :: "pyfloat \<Rightarrow> bool" where
  \<comment> \<open>a value the hardware can hold\<close>
  "is_f64 (Fin r) = (rnd r = r \<and> \<bar>r\<bar> < f64_limit)"
| "is_f64 _ = True"

lemma fle_Fin [simp]: "fle (Fin a) (Fin b) = (a \<le> b)"
  by (auto simp: fle_def feq_def)

lemma feq_Fin [simp]: "feq (Fin a) (Fin b) = (a = b)"
  by (simp add: feq_def)

lemma fle_NaN [simp]: "\<not> fle NaN a" "\<not> fle a NaN"
  by (cases a; simp add: fle_def feq_def)+

lemma flt_NaN [simp]: "\<not> flt a NaN"
  by (cases a) simp_all

lemma feq_NaN [simp]: "\<not> feq NaN a" "\<not> feq a NaN"
  by (auto simp: feq_def)

lemma fle_infinities [simp]:
  "fle (Fin a) PInf" "fle NInf (Fin a)" "fle NInf PInf" "fle PInf PInf" "fle NInf NInf"
  "\<not> fle PInf (Fin a)" "\<not> fle (Fin a) NInf" "\<not> fle PInf NInf"
  by (simp_all add: fle_def feq_def)

lemma fle_refl: "a \<noteq> NaN \<Longrightarrow> fle a a"
  by (simp add: fle_def feq_def)

lemma fle_trans: "fle a b \<Longrightarrow> fle b c \<Longrightarrow> fle a c"
  by (cases a; cases b; cases c) simp_all

lemma fle_flt_trans: "fle a b \<Longrightarrow> flt b c \<Longrightarrow> flt a c"
  by (cases a; cases b; cases c) simp_all

lemma flt_fle_trans: "flt a b \<Longrightarrow> fle b c \<Longrightarrow> flt a c"
  by (cases a; cases b; cases c) simp_all

lemma fle_antisym: "fle a b \<Longrightarrow> fle b a \<Longrightarrow> a = b"
  by (cases a; cases b) simp_all

lemma not_flt: "a \<noteq> NaN \<Longrightarrow> b \<noteq> NaN \<Longrightarrow> \<not> flt a b \<longleftrightarrow> fle b a"
  by (cases a; cases b) auto

lemma not_fle: "a \<noteq> NaN \<Longrightarrow> b \<noteq> NaN \<Longrightarrow> \<not> fle a b \<longleftrightarrow> flt b a"
  by (cases a; cases b) auto

lemma flt_imp_fle: "flt a b \<Longrightarrow> fle a b"
  by (simp add: fle_def)

lemma flt_irrefl [simp]: "\<not> flt a a"
  by (cases a) simp_all

lemma fle_not_NaN: "fle a b \<Longrightarrow> a \<noteq> NaN \<and> b \<noteq> NaN"
  by auto

lemma fle_between_Fin:
  assumes "fle (Fin l) x" "fle x (Fin h)"
  obtains r where "x = Fin r" "l \<le> r" "r \<le> h"
  using assms by (cases x) simp_all

subsection \<open>Arithmetic\<close>

fun fneg :: "pyfloat \<Rightarrow> pyfloat" where
  "fneg (Fin a) = Fin (- a)"
| "fneg PInf = NInf"
| "fneg NInf = PInf"
| "fneg NaN = NaN"

fun fabs :: "pyfloat \<Rightarrow> pyfloat" where
  "fabs (Fin a) = Fin \<bar>a\<bar>"
| "fabs NaN = NaN"
| "fabs _ = PInf"

fun fadd :: "pyfloat \<Rightarrow> pyfloat \<Rightarrow> pyfloat" where
  "fadd (Fin a) (Fin b) = f64 (a + b)"
| "fadd NaN _ = NaN"
| "fadd _ NaN = NaN"
| "fadd PInf NInf = NaN"
| "fadd NInf PInf = NaN"
| "fadd PInf _ = PInf"
| "fadd NInf _ = NInf"
| "fadd _ PInf = PInf"
| "fadd _ NInf = NInf"

definition fsub :: "pyfloat \<Rightarrow> pyfloat \<Rightarrow> pyfloat" where
  "fsub a b = fadd a (fneg b)"

fun finf_sign :: "real \<Rightarrow> pyfloat \<Rightarrow> pyfloat" where
  \<comment> \<open>an infinity times a finite number\<close>
  "finf_sign a w = (if a = 0 then NaN else if 0 < a then w else fneg w)"

fun fmul :: "pyfloat \<Rightarrow> pyfloat \<Rightarrow> pyfloat" where
  "fmul (Fin a) (Fin b) = f64 (a * b)"
| "fmul NaN _ = NaN"
| "fmul _ NaN = NaN"
| "fmul (Fin a) w = finf_sign a w"
| "fmul w (Fin b) = finf_sign b w"
| "fmul PInf PInf = PInf"
| "fmul NInf NInf = PInf"
| "fmul _ _ = NInf"

fun fdiv :: "pyfloat \<Rightarrow> pyfloat \<Rightarrow> pyfloat option" where
  \<comment> \<open>\<open>None\<close> is Python's ZeroDivisionError\<close>
  "fdiv a (Fin b) =
     (if b = 0 then None
      else Some (case a of Fin x \<Rightarrow> f64 (x / b) | NaN \<Rightarrow> NaN
                 | _ \<Rightarrow> if 0 < b then a else fneg a))"
| "fdiv NaN _ = Some NaN"
| "fdiv _ NaN = Some NaN"
| "fdiv (Fin _) _ = Some (Fin 0)"
| "fdiv _ _ = Some NaN"

definition float_of_int :: "int \<Rightarrow> pyfloat option" where
  \<comment> \<open>\<open>float(i)\<close>: \<open>None\<close> is the OverflowError "int too large to convert to float"\<close>
  "float_of_int i = (case f64 (of_int i) of Fin r \<Rightarrow> Some (Fin r) | _ \<Rightarrow> None)"

fun round_int :: "pyfloat \<Rightarrow> int option" where
  \<comment> \<open>\<open>int(round(x))\<close>, ties to even; raises on infinities and NaN\<close>
  "round_int (Fin r) = Some (rne r)"
| "round_int _ = None"

lemma big_bound:
  assumes "y \<le> 2 ^ 60"
  shows "y < f64_limit"
proof -
  have "(2::real) ^ 60 < 2 ^ 1024" by (rule power_strict_increasing) simp_all
  then show ?thesis using assms unfolding f64_limit_def by linarith
qed

lemma f64_limit_pos [simp]: "0 < f64_limit"
  by (rule big_bound) simp

lemma f64_cases:
  obtains "f64 x = PInf" "f64_limit \<le> rnd x"
  | "f64 x = NInf" "rnd x \<le> - f64_limit"
  | "f64 x = Fin (rnd x)" "\<bar>rnd x\<bar> < f64_limit"
  by (cases "f64_limit \<le> rnd x"; cases "rnd x \<le> - f64_limit") (auto simp: f64_def)

lemma f64_not_NaN [simp]: "f64 x \<noteq> NaN"
  by (simp add: f64_def)

lemma is_f64_f64 [simp]: "is_f64 (f64 x)"
  by (cases x rule: f64_cases) simp_all

lemma f64_small: "\<bar>rnd x\<bar> < f64_limit \<Longrightarrow> f64 x = Fin (rnd x)"
  by (cases x rule: f64_cases) auto

lemma f64_exact: "rnd x = x \<Longrightarrow> \<bar>x\<bar> \<le> 2 ^ 60 \<Longrightarrow> f64 x = Fin x"
  using f64_small[of x] big_bound[of "\<bar>x\<bar>"] by simp

lemma f64_is_f64: "is_f64 (Fin x) \<Longrightarrow> f64 x = Fin x"
  using f64_small[of x] by simp

lemma f64_mono:
  assumes "x \<le> y"
  shows "fle (f64 x) (f64 y)"
  using rnd_mono[OF assms] f64_limit_pos
  by (cases x rule: f64_cases; cases y rule: f64_cases) auto

lemma f64_bounded:
  assumes "\<bar>x\<bar> \<le> 2 ^ n" "n \<le> 60"
  shows "\<exists>r. f64 x = Fin r \<and> \<bar>r\<bar> \<le> 2 ^ n"
proof -
  have p: "rnd (2 ^ n) = 2 ^ n" using rnd_power2[of "int n"] by (simp add: powr_realpow)
  then have m: "rnd (- (2 ^ n)) = - (2 ^ n)" by (simp add: rnd_minus)
  have "rnd x \<le> 2 ^ n" using assms(1) by (intro rnd_le_fix[OF _ p]) linarith
  moreover have "- (2 ^ n) \<le> rnd x" using assms(1) by (intro rnd_ge_fix[OF _ m]) linarith
  moreover have "(2::real) ^ n \<le> 2 ^ 60" using assms(2) by (intro power_increasing) simp_all
  ultimately show ?thesis using f64_small[of x] big_bound[of "\<bar>rnd x\<bar>"] by auto
qed

lemma f64_0 [simp]: "f64 0 = Fin 0"
  by (rule f64_exact) simp_all

lemma f64_1 [simp]: "f64 1 = Fin 1"
  by (rule f64_exact) simp_all

lemma f64_nonneg: "0 \<le> x \<Longrightarrow> fle (Fin 0) (f64 x)"
  using f64_mono[of 0 x] by simp

lemma f64_numeral [simp]:
  "(numeral n :: int) < 2 ^ 53 \<Longrightarrow> f64 (numeral n) = Fin (numeral n)"
proof -
  assume n: "(numeral n :: int) < 2 ^ 53"
  then have "real_of_int (numeral n) < real_of_int (2 ^ 53)" by (simp only: of_int_less_iff)
  then have "(numeral n :: real) < 2 ^ 53" by (simp only: of_int_numeral of_int_power)
  moreover have "(2 :: real) ^ 53 \<le> 2 ^ 60" by simp
  ultimately have "\<bar>numeral n :: real\<bar> \<le> 2 ^ 60" unfolding abs_numeral by linarith
  then show ?thesis using rnd_numeral[OF n] by (intro f64_exact)
qed

lemma is_f64_zero_one [simp]: "is_f64 (Fin 0)" "is_f64 (Fin 1)"
  using is_f64_f64[of 0] is_f64_f64[of 1] by simp_all

lemma is_f64_fneg [simp]: "is_f64 (fneg a) = is_f64 a"
  by (cases a) (simp_all add: rnd_minus)

lemma is_f64_fadd [simp]: "is_f64 (fadd a b)"
  by (cases a; cases b) simp_all

lemma is_f64_fsub [simp]: "is_f64 (fsub a b)"
  by (simp add: fsub_def)

lemma is_f64_fmul [simp]: "is_f64 (fmul a b)"
  by (cases a; cases b) simp_all

lemma is_f64_fmax [simp]: "is_f64 a \<Longrightarrow> is_f64 b \<Longrightarrow> is_f64 (fmax a b)"
  by (simp add: fmax_def)

lemma is_f64_fmin [simp]: "is_f64 a \<Longrightarrow> is_f64 b \<Longrightarrow> is_f64 (fmin a b)"
  by (simp add: fmin_def)

lemma fadd_nonneg: "fle (Fin 0) a \<Longrightarrow> fle (Fin 0) b \<Longrightarrow> fle (Fin 0) (fadd a b)"
  by (cases a; cases b) (simp_all add: f64_nonneg)

lemma fsub_self: "isfinite a \<Longrightarrow> fsub a a = Fin 0"
  by (cases a) (simp_all add: fsub_def)

text \<open>
  \<open>max(0.0, x)\<close> is never NaN and never negative, whatever \<open>x\<close> is: a NaN loses the
  comparison and the zero stays.
\<close>

lemma fmax_0_nonneg [simp]: "fle (Fin 0) (fmax (Fin 0) x)"
  by (cases x) (simp_all add: fmax_def)

lemma fmax_0_not_NaN [simp]: "fmax (Fin 0) x \<noteq> NaN"
  by (cases x) (simp_all add: fmax_def)

end
