(* ===== verification/Py_Value.thy ===== *)
theory Py_Value
  imports Py_Float "HOL-Library.AList" "HOL-Library.Char_ord"
begin

section \<open>Python values, dictionaries, strings and exceptions\<close>

text \<open>
  The dynamically typed values that cross the program's interfaces (JSON objects, intents,
  snapshots) and the builtins the code applies to them. Integers are unbounded; a
  dictionary is an association list in insertion order, as Python's is; a string is a list
  of code points below 256, which covers ASCII JSON keys and latin-1 HTTP headers.
\<close>

datatype pyval =
  PNone | PBool bool | PInt int | PFloat pyfloat | PStr string
| PList "pyval list" | PDict "(string \<times> pyval) list"

type_synonym pydict = "(string \<times> pyval) list"

subsection \<open>Exceptions\<close>

text \<open>
  The text of an error is kept as the data it is formatted from, not as the rendered
  string: the field names, the offending value, the bounds.
\<close>

datatype detail =
  Msg string
| NotAnObject
| MissingFields "string list"
| WrongType pyval
| MustBeInt string
| MustBeFloat string
| NotInSet string
| OutOfRange string pyfloat pyfloat
| NonZeroFields "string list" int
| DatagramLength int int
| DecodeError

datatype pyexc =
  ValueError detail
| TypeError
| KeyError string
| OverflowError
| ZeroDivisionError
| RuntimeError detail
| OSError
| StructError
| AssertionError
| AttributeError
| SystemExit int \<comment> \<open>not an \<open>Exception\<close>: \<open>except Exception\<close> lets it through\<close>
| HTTPException int string
| ValidationError string detail \<comment> \<open>the schema modules' reason and detail\<close>

subsection \<open>Dictionaries\<close>

definition dget :: "pydict \<Rightarrow> string \<Rightarrow> pyval option" where
  "dget d k = map_of d k"

definition dset :: "string \<Rightarrow> pyval \<Rightarrow> pydict \<Rightarrow> pydict" where
  "dset k v d = AList.update k v d"

definition dhas :: "pydict \<Rightarrow> string \<Rightarrow> bool" where
  "dhas d k = (k \<in> set (map fst d))"

definition dindex :: "pydict \<Rightarrow> string \<Rightarrow> pyexc + pyval" where
  \<comment> \<open>\<open>d[k]\<close>\<close>
  "dindex d k = (case dget d k of None \<Rightarrow> Inl (KeyError k) | Some v \<Rightarrow> Inr v)"

definition dupdate :: "pydict \<Rightarrow> pydict \<Rightarrow> pydict" where
  \<comment> \<open>\<open>d.update(e)\<close>\<close>
  "dupdate d e = foldl (\<lambda>acc (k, v). dset k v acc) d e"

lemma dget_Nil [simp]: "dget [] k = None"
  by (simp add: dget_def)

lemma dget_Cons [simp]: "dget ((k, v) # d) k' = (if k' = k then Some v else dget d k')"
  by (simp add: dget_def)

lemma dget_dset: "dget (dset k v d) k' = (if k' = k then Some v else dget d k')"
  by (simp add: dget_def dset_def update_conv')

lemma dget_append:
  "dget (d @ e) k = (case dget d k of None \<Rightarrow> dget e k | Some v \<Rightarrow> Some v)"
  by (simp add: dget_def map_add_def split: option.splits)

lemma dhas_dget: "dhas d k \<longleftrightarrow> dget d k \<noteq> None"
  by (simp add: dhas_def dget_def map_of_eq_None_iff)

lemma dhas_Nil [simp]: "\<not> dhas [] k"
  by (simp add: dhas_def)

lemma dhas_Cons [simp]: "dhas ((k, v) # d) k' \<longleftrightarrow> k' = k \<or> dhas d k'"
  by (simp add: dhas_def)

lemma dindex_dget: "dget d k = Some v \<Longrightarrow> dindex d k = Inr v"
  by (simp add: dindex_def)

subsection \<open>Characters and strings\<close>

definition is_space :: "char \<Rightarrow> bool" where
  \<comment> \<open>\<open>str.isspace\<close> below 256\<close>
  "is_space c = (let n = of_char c :: nat
     in (9 \<le> n \<and> n \<le> 13) \<or> (28 \<le> n \<and> n \<le> 32) \<or> n = 133 \<or> n = 160)"

definition strip :: "string \<Rightarrow> string" where
  "strip s = rev (dropWhile is_space (rev (dropWhile is_space s)))"

definition lower_char :: "char \<Rightarrow> char" where
  "lower_char c = (let n = of_char c :: nat
     in if (65 \<le> n \<and> n \<le> 90) \<or> (192 \<le> n \<and> n \<le> 222 \<and> n \<noteq> 215)
        then char_of (n + 32) else c)"

definition lower :: "string \<Rightarrow> string" where
  "lower s = map lower_char s"

definition is_ascii :: "string \<Rightarrow> bool" where
  "is_ascii s = list_all (\<lambda>c. (of_char c :: nat) < 128) s"

fun startswith :: "string \<Rightarrow> string \<Rightarrow> bool" where
  "startswith s [] = True"
| "startswith [] (p # ps) = False"
| "startswith (c # cs) (p # ps) = (c = p \<and> startswith cs ps)"

lemma startswith_iff: "startswith s p \<longleftrightarrow> (\<exists>t. s = p @ t)"
  by (induction s p rule: startswith.induct) auto

fun contains_sub :: "string \<Rightarrow> string \<Rightarrow> bool" where
  \<comment> \<open>\<open>p in s\<close> for strings\<close>
  "contains_sub p [] = (p = [])"
| "contains_sub p (c # cs) = (startswith (c # cs) p \<or> contains_sub p cs)"

lemma contains_sub_iff: "contains_sub p s \<longleftrightarrow> (\<exists>a b. s = a @ p @ b)"
proof (induction s)
  case (Cons c cs)
  show ?case
  proof
    assume "contains_sub p (c # cs)"
    then show "\<exists>a b. c # cs = a @ p @ b"
      using Cons by (auto simp: startswith_iff) (metis append_Cons append_Nil)+
  next
    assume "\<exists>a b. c # cs = a @ p @ b"
    then obtain a b where ab: "c # cs = a @ p @ b" by blast
    show "contains_sub p (c # cs)"
    proof (cases a)
      case Nil
      with ab have "c # cs = p @ b" by simp
      then have "startswith (c # cs) p" unfolding startswith_iff by blast
      then show ?thesis by simp
    next
      case (Cons x xs)
      with ab have "cs = xs @ p @ b" by simp
      then show ?thesis using \<open>contains_sub p cs \<longleftrightarrow> _\<close> by auto
    qed
  qed
qed auto

fun partition_char :: "char \<Rightarrow> string \<Rightarrow> string \<times> string" where
  \<comment> \<open>\<open>s.partition(c)\<close> without the separator\<close>
  "partition_char c [] = ([], [])"
| "partition_char c (x # xs) =
     (if x = c then ([], xs) else (let (a, b) = partition_char c xs in (x # a, b)))"

fun split_char :: "char \<Rightarrow> string \<Rightarrow> string list" where
  \<comment> \<open>\<open>s.split(c)\<close>\<close>
  "split_char c [] = [[]]"
| "split_char c (x # xs) =
     (if x = c then [] # split_char c xs
      else (case split_char c xs of [] \<Rightarrow> [[x]] | t # ts \<Rightarrow> (x # t) # ts))"

lemma partition_char_found:
  "c \<notin> set a \<Longrightarrow> partition_char c (a @ c # b) = (a, b)"
  by (induction a) auto

subsection \<open>Parsing decimal integers\<close>

definition digit_val :: "char \<Rightarrow> nat option" where
  "digit_val c = (let n = of_char c :: nat in if 48 \<le> n \<and> n \<le> 57 then Some (n - 48) else None)"

fun parse_digits :: "bool \<Rightarrow> nat \<Rightarrow> string \<Rightarrow> nat option" where
  \<comment> \<open>digits with single underscores between them; the flag says a digit was just read\<close>
  "parse_digits prev acc [] = (if prev then Some acc else None)"
| "parse_digits prev acc (c # cs) =
     (case digit_val c of
        Some d \<Rightarrow> parse_digits True (10 * acc + d) cs
      | None \<Rightarrow> if c = CHR ''_'' \<and> prev then parse_digits False acc cs else None)"

definition parse_int :: "string \<Rightarrow> int option" where
  \<comment> \<open>\<open>int(text)\<close>: \<open>None\<close> is the ValueError\<close>
  "parse_int s = (case strip s of
      [] \<Rightarrow> None
    | c # cs \<Rightarrow>
        if c = CHR ''-'' then map_option (\<lambda>n. - int n) (parse_digits False 0 cs)
        else if c = CHR ''+'' then map_option int (parse_digits False 0 cs)
        else map_option int (parse_digits False 0 (c # cs)))"

lemma parse_int_42: "parse_int '' 42 '' = Some 42"
  by code_simp

lemma parse_int_bad: "parse_int ''4 2'' = None" "parse_int ''1__0'' = None" "parse_int '''' = None"
  by code_simp+

subsection \<open>Builtin conversions\<close>

definition trunc_real :: "real \<Rightarrow> int" where
  "trunc_real r = (if 0 \<le> r then \<lfloor>r\<rfloor> else - \<lfloor>- r\<rfloor>)"

fun py_int :: "pyval \<Rightarrow> pyexc + int" where
  \<comment> \<open>\<open>int(v)\<close>\<close>
  "py_int (PInt i) = Inr i"
| "py_int (PBool b) = Inr (if b then 1 else 0)"
| "py_int (PFloat (Fin r)) = Inr (trunc_real r)"
| "py_int (PFloat NaN) = Inl (ValueError (Msg ''cannot convert float NaN to integer''))"
| "py_int (PFloat _) = Inl OverflowError"
| "py_int (PStr s) = (case parse_int s of Some i \<Rightarrow> Inr i
                      | None \<Rightarrow> Inl (ValueError (Msg ''invalid literal for int()'')))"
| "py_int _ = Inl TypeError"

definition float_result :: "int \<Rightarrow> pyexc + pyfloat" where
  "float_result i = (case float_of_int i of None \<Rightarrow> Inl OverflowError | Some f \<Rightarrow> Inr f)"

text \<open>
  \<open>float(v)\<close> on the values that reach it. No call of the modelled code passes a string
  (every field has been checked to be a number first), so strings, like lists and
  objects, count as a type error.
\<close>

fun py_float :: "pyval \<Rightarrow> pyexc + pyfloat" where
  "py_float (PFloat f) = Inr f"
| "py_float (PInt i) = float_result i"
| "py_float (PBool b) = Inr (if b then Fin 1 else Fin 0)"
| "py_float _ = Inl TypeError"

definition fdiv_exc :: "pyfloat \<Rightarrow> pyfloat \<Rightarrow> pyexc + pyfloat" where
  "fdiv_exc a b = (case fdiv a b of None \<Rightarrow> Inl ZeroDivisionError | Some q \<Rightarrow> Inr q)"

definition int_truediv :: "int \<Rightarrow> int \<Rightarrow> pyexc + pyfloat" where
  \<comment> \<open>\<open>a / b\<close> on ints is rounded once\<close>
  "int_truediv a b = (if b = 0 then Inl ZeroDivisionError
     else case f64 (of_int a / of_int b) of Fin q \<Rightarrow> Inr (Fin q) | _ \<Rightarrow> Inl OverflowError)"

definition round_exc :: "pyfloat \<Rightarrow> pyexc + int" where
  \<comment> \<open>\<open>int(round(v))\<close>\<close>
  "round_exc v = (case round_int v of Some i \<Rightarrow> Inr i
     | None \<Rightarrow> Inl (if v = NaN then ValueError (Msg ''cannot convert float NaN to integer'')
                     else OverflowError))"

fun py_bool :: "pyval \<Rightarrow> bool" where
  \<comment> \<open>\<open>bool(v)\<close>\<close>
  "py_bool PNone = False"
| "py_bool (PBool b) = b"
| "py_bool (PInt i) = (i \<noteq> 0)"
| "py_bool (PFloat f) = (f \<noteq> Fin 0)"
| "py_bool (PStr s) = (s \<noteq> [])"
| "py_bool (PList l) = (l \<noteq> [])"
| "py_bool (PDict d) = (d \<noteq> [])"

fun is_int :: "pyval \<Rightarrow> bool" where
  \<comment> \<open>\<open>isinstance(v, int)\<close>: a bool is an int\<close>
  "is_int (PInt _) = True"
| "is_int (PBool _) = True"
| "is_int _ = False"

fun is_bool :: "pyval \<Rightarrow> bool" where
  "is_bool (PBool _) = True"
| "is_bool _ = False"

fun is_number :: "pyval \<Rightarrow> bool" where
  \<comment> \<open>\<open>isinstance(v, (int | float))\<close>\<close>
  "is_number (PFloat _) = True"
| "is_number v = is_int v"

lemma float_result_small:
  assumes "\<bar>i\<bar> < 2 ^ 53"
  shows "float_result i = Inr (Fin (of_int i))"
proof -
  have "\<bar>real_of_int i\<bar> < 2 ^ 53"
    using assms of_int_less_iff[of "\<bar>i\<bar>" "2 ^ 53", where 'a = real] by simp
  moreover have "(2 :: real) ^ 53 \<le> 2 ^ 60" by simp
  ultimately have "f64 (of_int i) = Fin (of_int i)"
    by (intro f64_exact rnd_of_int assms) linarith
  then show ?thesis by (simp add: float_result_def float_of_int_def)
qed

lemma float_result_Inr:
  "float_result i = Inr f \<Longrightarrow> isfinite f \<and> is_f64 f"
  using is_f64_f64[of "of_int i"]
  by (cases "f64 (of_int i)") (auto simp: float_result_def float_of_int_def)

lemma float_result_Inl: "float_result i = Inl e \<Longrightarrow> e = OverflowError"
  by (auto simp: float_result_def split: option.splits)

text \<open>The overflow is real: a 310-digit integer has no float.\<close>

lemma float_result_overflow:
  assumes "(2::int) ^ 1024 \<le> i"
  shows "float_result i = Inl OverflowError"
proof -
  have "real_of_int (2 ^ 1024) \<le> of_int i" using assms by (simp only: of_int_le_iff)
  then have le: "(2::real) ^ 1024 \<le> of_int i" by (simp only: of_int_power of_int_numeral)
  have "rnd (2 powr of_int 1024) = (2::real) powr of_int 1024" by (rule rnd_power2) simp
  moreover have "(2::real) powr of_int 1024 = f64_limit"
    unfolding f64_limit_def by (subst powr_realpow[symmetric]) simp_all
  ultimately have "rnd f64_limit = f64_limit" by simp
  with rnd_mono[OF le] have "f64_limit \<le> rnd (of_int i)" by (simp only: f64_limit_def)
  then have "f64 (of_int i) = PInf" by (simp add: f64_def)
  then show ?thesis by (simp add: float_result_def float_of_int_def)
qed

end
