(* ===== verification/Cmd_Seq.thy ===== *)
theory Cmd_Seq
  imports Py_Value "HOL-Library.Word"
begin

unbundle bit_operations_syntax

section \<open>The wrapping command sequence number\<close>

text \<open>
  \<open>cmd_seq\<close> lives in \<open>[0, 2^31 - 1]\<close> and wraps to 0. \<open>seq_advances\<close> is
  \<open>_seq_advances\<close> of \<open>src/src/backend/state.py\<close>; \<open>fc_seq_advances\<close> is its C++ mirror
  in \<open>src/src/fc/header/CmdSeq.h\<close>, on 32-bit words. The theory proves that the two
  agree and what the comparison means modulo \<open>2^31\<close>, and holds the interface
  \<open>seq_source\<close> of anything that hands out consecutive numbers.
\<close>

definition CMD_SEQ_MAX :: int where
  "CMD_SEQ_MAX = 2147483647"

definition CMD_SEQ_MOD :: int where
  "CMD_SEQ_MOD = CMD_SEQ_MAX + 1"

definition CMD_SEQ_HALF :: int where
  "CMD_SEQ_HALF = CMD_SEQ_MOD div 2"

lemmas seq_consts = CMD_SEQ_MAX_def CMD_SEQ_MOD_def CMD_SEQ_HALF_def

definition seq_advances :: "int \<Rightarrow> int \<Rightarrow> bool" where
  "seq_advances prev candidate =
     (let diff = (candidate - prev) mod CMD_SEQ_MOD in 0 < diff \<and> diff \<le> CMD_SEQ_HALF)"

definition seq_range :: "int \<Rightarrow> bool" where
  "seq_range q = (0 \<le> q \<and> q \<le> CMD_SEQ_MAX)"

definition initial_cmd_seq :: "pyfloat \<Rightarrow> pyexc + int" where
  \<comment> \<open>the argument is \<open>time.monotonic()\<close>\<close>
  "initial_cmd_seq clk =
     rbind (py_int (PFloat (fmul clk (Fin 1000)))) (\<lambda>i. Inr (i mod CMD_SEQ_MOD))"

definition clamp_seq :: "int \<Rightarrow> int" where
  \<comment> \<open>\<open>max(0, min(int(minimum), CMD_SEQ_MAX))\<close>\<close>
  "clamp_seq m = max 0 (min m CMD_SEQ_MAX)"

definition next_seq :: "int \<Rightarrow> int" where
  \<comment> \<open>\<open>0 if seq >= CMD_SEQ_MAX else seq + 1\<close>\<close>
  "next_seq q = (if CMD_SEQ_MAX \<le> q then 0 else q + 1)"

lemma seq_range_clamp [simp]: "seq_range (clamp_seq m)"
  by (simp add: seq_range_def clamp_seq_def seq_consts)

lemma clamp_seq_id: "seq_range m \<Longrightarrow> clamp_seq m = m"
  by (simp add: seq_range_def clamp_seq_def)

lemma seq_range_next [simp]: "seq_range q \<Longrightarrow> seq_range (next_seq q)"
  by (simp add: seq_range_def next_seq_def seq_consts)

lemma next_seq_mod: "seq_range q \<Longrightarrow> next_seq q = (q + 1) mod CMD_SEQ_MOD"
  by (auto simp: seq_range_def next_seq_def seq_consts)

lemma seq_range_mod: "seq_range (q mod CMD_SEQ_MOD)"
  by (simp add: seq_range_def seq_consts)

lemma initial_cmd_seq_range: "initial_cmd_seq clk = Inr q \<Longrightarrow> seq_range q"
  by (auto simp: initial_cmd_seq_def seq_range_mod)

lemma initial_cmd_seq_finite: "isfinite (fmul clk (Fin 1000)) \<Longrightarrow> \<exists>q. initial_cmd_seq clk = Inr q"
  by (cases "fmul clk (Fin 1000)") (simp_all add: initial_cmd_seq_def)

subsection \<open>What the comparison means\<close>

lemma seq_advances_iff_step:
  "seq_advances p c \<longleftrightarrow> (\<exists>k. 1 \<le> k \<and> k \<le> CMD_SEQ_HALF \<and> (p + k) mod CMD_SEQ_MOD = c mod CMD_SEQ_MOD)"
proof
  assume a: "seq_advances p c"
  let ?k = "(c - p) mod CMD_SEQ_MOD"
  have "(p + ?k) mod CMD_SEQ_MOD = c mod CMD_SEQ_MOD" by (simp add: mod_simps)
  then show "\<exists>k. 1 \<le> k \<and> k \<le> CMD_SEQ_HALF \<and> (p + k) mod CMD_SEQ_MOD = c mod CMD_SEQ_MOD"
    using a by (intro exI[of _ ?k]) (simp add: seq_advances_def Let_def)
next
  assume "\<exists>k. 1 \<le> k \<and> k \<le> CMD_SEQ_HALF \<and> (p + k) mod CMD_SEQ_MOD = c mod CMD_SEQ_MOD"
  then obtain k where k: "1 \<le> k" "k \<le> CMD_SEQ_HALF"
    and e: "(p + k) mod CMD_SEQ_MOD = c mod CMD_SEQ_MOD" by blast
  have "(c - p) mod CMD_SEQ_MOD = (c mod CMD_SEQ_MOD - p) mod CMD_SEQ_MOD" by (simp add: mod_simps)
  also have "\<dots> = k mod CMD_SEQ_MOD" unfolding e[symmetric] by (simp add: mod_simps)
  also have "\<dots> = k" using k by (simp add: seq_consts)
  finally show "seq_advances p c" using k by (simp add: seq_advances_def)
qed

lemma seq_advances_irrefl [simp]: "\<not> seq_advances q q"
  by (simp add: seq_advances_def)

lemma seq_advances_next: "seq_range q \<Longrightarrow> seq_advances q (next_seq q)"
  unfolding seq_advances_iff_step
  by (intro exI[of _ 1]) (simp add: next_seq_mod seq_consts)

text \<open>Of two different numbers exactly one is ahead, except at exactly half the space.\<close>

lemma seq_advances_total:
  assumes "(c - p) mod CMD_SEQ_MOD \<noteq> 0"
  shows "seq_advances p c \<or> seq_advances c p"
proof -
  have "(p - c) mod CMD_SEQ_MOD = CMD_SEQ_MOD - (c - p) mod CMD_SEQ_MOD"
    using assms zmod_zminus1_eq_if[of "c - p" CMD_SEQ_MOD] by simp
  moreover have "0 \<le> (c - p) mod CMD_SEQ_MOD" "(c - p) mod CMD_SEQ_MOD < CMD_SEQ_MOD"
    by (simp_all add: seq_consts)
  moreover have "CMD_SEQ_MOD = 2 * CMD_SEQ_HALF" by (simp add: seq_consts)
  ultimately show ?thesis using assms by (auto simp: seq_advances_def Let_def)
qed

lemma seq_advances_asym:
  assumes "seq_advances p c" "(c - p) mod CMD_SEQ_MOD \<noteq> CMD_SEQ_HALF"
  shows "\<not> seq_advances c p"
proof -
  have "(p - c) mod CMD_SEQ_MOD = CMD_SEQ_MOD - (c - p) mod CMD_SEQ_MOD"
    using assms(1) zmod_zminus1_eq_if[of "c - p" CMD_SEQ_MOD]
    by (simp add: seq_advances_def Let_def split: if_splits)
  moreover have "CMD_SEQ_MOD = 2 * CMD_SEQ_HALF" by (simp add: seq_consts)
  ultimately show ?thesis using assms by (auto simp: seq_advances_def Let_def)
qed

subsection \<open>The flight controller's comparator\<close>

definition fc_seq_advances :: "32 word \<Rightarrow> 32 word \<Rightarrow> bool" where
  "fc_seq_advances prev candidate =
     (let diff = (candidate - prev) AND (0x80000000 - 1)
      in 0 < diff \<and> diff \<le> 0x40000000)"

lemma word_mask31: "uint ((w :: 32 word) AND 0x7FFFFFFF) = uint w mod 2 ^ 31"
proof -
  have "(0x7FFFFFFF :: 32 word) = mask 31" by (simp add: mask_eq_exp_minus_1)
  then have "w AND 0x7FFFFFFF = word_of_int (take_bit 31 (uint w))"
    using and_mask_bintr[of w 31] by simp
  then have "w AND 0x7FFFFFFF = word_of_int (uint w mod 2 ^ 31)"
    by (simp only: take_bit_eq_mod)
  moreover have "0 \<le> uint w mod 2 ^ 31 \<and> uint w mod 2 ^ 31 < (2::int) ^ 31" by simp
  ultimately show ?thesis by (simp add: uint_word_of_int)
qed

lemma fc_diff:
  "uint (((word_of_int c - word_of_int p) :: 32 word) AND 0x7FFFFFFF) = (c - p) mod 2 ^ 31"
proof -
  have "(word_of_int c - word_of_int p :: 32 word) = word_of_int (c - p)" by (rule wi_hom_sub)
  then have "uint ((word_of_int c - word_of_int p) :: 32 word) = (c - p) mod 2 ^ 32"
    by (simp only: uint_word_of_int len_num1 len_bit0) simp
  then show ?thesis unfolding word_mask31 by (simp add: mod_mod_cancel)
qed

lemma fc_seq_advances_word:
  assumes "seq_range p" "seq_range c"
  shows "fc_seq_advances (word_of_int p) (word_of_int c) = seq_advances p c"
proof -
  let ?d = "((word_of_int c - word_of_int p) :: 32 word) AND 0x7FFFFFFF"
  have u: "uint ?d = (c - p) mod CMD_SEQ_MOD" by (simp add: fc_diff seq_consts)
  have "0 < ?d \<longleftrightarrow> 0 < uint ?d" by (simp add: word_less_alt)
  moreover have "?d \<le> 0x40000000 \<longleftrightarrow> uint ?d \<le> CMD_SEQ_HALF"
    by (simp add: word_le_def seq_consts)
  ultimately show ?thesis using u by (simp add: fc_seq_advances_def seq_advances_def Let_def)
qed

text \<open>
  The backend's comparator and the flight controller's 32-bit one give the same answer on
  every pair of sequence numbers either side can hold.
\<close>

theorem fc_seq_advances_eq:
  assumes "seq_range p" "seq_range c"
  shows "fc_seq_advances (word_of_int p) (word_of_int c) = seq_advances p c"
  using assms by (rule fc_seq_advances_word)

theorem fc_seq_advances_eq_witness:
  "fc_seq_advances (word_of_int CMD_SEQ_MAX) (word_of_int 0) = seq_advances CMD_SEQ_MAX 0"
  by (rule fc_seq_advances_eq) (simp_all add: seq_range_def seq_consts)

subsection \<open>Interface: a shared source of consecutive numbers\<close>

text \<open>
  What the command bridge relies on: \<open>reserve\<close> hands out the current number and moves
  one forward modulo \<open>2^31\<close>, and what other threads do to the same object in between
  leaves the counter alone.
\<close>

datatype 'o seq_event = Take | Other 'o

locale seq_source =
  fixes reserve :: "'s \<Rightarrow> int \<times> 's"
    and cur :: "'s \<Rightarrow> int"
    and other :: "'s \<Rightarrow> 'o \<Rightarrow> 's"
  assumes reserve_cur: "fst (reserve s) = cur s"
    and reserve_moves: "seq_range (cur s) \<Longrightarrow> cur (snd (reserve s)) = (cur s + 1) mod CMD_SEQ_MOD"
    and other_cur: "cur (other s x) = cur s"
begin

fun taken :: "'o seq_event list \<Rightarrow> 's \<Rightarrow> int list" where
  "taken [] s = []"
| "taken (Take # es) s = (let (q, s1) = reserve s in q # taken es s1)"
| "taken (Other x # es) s = taken es (other s x)"

fun takes :: "'o seq_event list \<Rightarrow> nat" where
  "takes [] = 0"
| "takes (Take # es) = Suc (takes es)"
| "takes (Other x # es) = takes es"

lemma taken_eq:
  "seq_range (cur s) \<Longrightarrow>
   taken es s = map (\<lambda>i. (cur s + int i) mod CMD_SEQ_MOD) [0..<takes es]"
proof (induction es s rule: taken.induct)
  case (2 es s)
  obtain q s1 where r: "reserve s = (q, s1)" by fastforce
  have q: "q = cur s" and m: "cur s1 = (cur s + 1) mod CMD_SEQ_MOD"
    using reserve_cur[of s] reserve_moves[OF "2.prems"] r by simp_all
  have c: "cur s mod CMD_SEQ_MOD = cur s"
    using "2.prems" by (simp add: seq_range_def seq_consts)
  have "taken es s1 = map (\<lambda>i. (cur s1 + int i) mod CMD_SEQ_MOD) [0..<takes es]"
    using "2.IH"[OF r[symmetric] refl] by (simp add: m seq_range_mod)
  also have "\<dots> = map (\<lambda>i. (cur s + int (Suc i)) mod CMD_SEQ_MOD) [0..<takes es]"
    unfolding m by (simp add: mod_simps algebra_simps)
  finally have "taken (Take # es) s
      = cur s # map (\<lambda>i. (cur s + int (Suc i)) mod CMD_SEQ_MOD) [0..<takes es]"
    by (simp add: r q)
  then show ?case unfolding takes.simps map_upt_Suc by (simp add: c)
qed (simp_all add: other_cur)

lemma taken_distinct:
  assumes "seq_range (cur s)" "int (takes es) \<le> CMD_SEQ_MOD"
  shows "distinct (taken es s)"
  unfolding taken_eq[OF assms(1)]
proof (rule distinct_map[THEN iffD2], intro conjI inj_onI)
  fix i j assume ij: "i \<in> set [0..<takes es]" "j \<in> set [0..<takes es]"
    and e: "(cur s + int i) mod CMD_SEQ_MOD = (cur s + int j) mod CMD_SEQ_MOD"
  from e have "CMD_SEQ_MOD dvd int i - int j"
    by (simp add: mod_eq_dvd_iff)
  moreover have "\<bar>int i - int j\<bar> < CMD_SEQ_MOD" using ij assms(2) by auto
  ultimately show "i = j" using zdvd_imp_le[of CMD_SEQ_MOD "\<bar>int i - int j\<bar>"]
    by (cases "i = j") auto
qed simp

end

end
