(* ===== verification/Shared_State.thy ===== *)
theory Shared_State
  imports Cmd_Seq
begin

section \<open>The shared state of the backend\<close>

text \<open>
  \<open>SharedState\<close> of \<open>src/src/backend/state.py\<close>: the latest telemetry, vision and intent
  dictionaries, the receive counters with one counter per drop reason, the command
  link's counters and the sequence number. Every method takes the object's lock for its
  whole body, so a method is one atomic step and any interleaving of the backend's
  threads is a sequence of the steps below (\<open>state_op\<close>, \<open>state_step\<close>). Clock readings
  are arguments. A method that can raise returns what it leaves behind as well.
\<close>

record shared_state =
  latest_tel :: "pydict option"
  latest_vis :: "pydict option"
  latest_intent :: "pydict option"
  tel_seq :: int
  vis_seq :: int
  intent_last_update_monotonic_s :: "pyfloat option"
  tel_rx_total :: nat
  tel_rx_ok :: nat
  tel_rx_bad :: nat
  tel_drop_reason_oversize :: nat
  tel_drop_reason_json :: nat
  tel_drop_reason_schema :: nat
  tel_drop_reason_range :: nat
  tel_last_seq :: int
  tel_last_timestamp_s :: "pyfloat option"
  tel_last_rx_monotonic_s :: "pyfloat option"
  vis_rx_total :: nat
  vis_rx_ok :: nat
  vis_rx_bad :: nat
  vis_drop_reason_oversize :: nat
  vis_drop_reason_json :: nat
  vis_drop_reason_schema :: nat
  vis_drop_reason_range :: nat
  vis_drop_reason_semantics :: nat
  vis_last_seq :: int
  vis_last_timestamp_s :: "pyfloat option"
  vis_last_rx_monotonic_s :: "pyfloat option"
  fc_connected :: bool
  fc_last_connect_attempt_s :: "pyfloat option"
  cmd_tx_total :: nat
  cmd_tx_ok :: nat
  cmd_tx_fail :: nat
  cmd_last_sent_monotonic_s :: "pyfloat option"
  cmd_hz_est :: pyfloat
  tracking_blocked_reason :: "string option"
  cmd_next_seq :: int
  last_cmd_seq :: "int option"
  last_cmd_desired_mode :: "int option"
  last_cmd_had_tracking :: bool
  last_cmd_bytes :: "int option"

definition fresh_state :: "int \<Rightarrow> shared_state" where
  \<comment> \<open>the field defaults; the argument is \<open>_initial_cmd_seq()\<close>\<close>
  "fresh_state seq0 = \<lparr>
     latest_tel = None, latest_vis = None, latest_intent = None,
     tel_seq = - 1, vis_seq = - 1, intent_last_update_monotonic_s = None,
     tel_rx_total = 0, tel_rx_ok = 0, tel_rx_bad = 0,
     tel_drop_reason_oversize = 0, tel_drop_reason_json = 0,
     tel_drop_reason_schema = 0, tel_drop_reason_range = 0,
     tel_last_seq = - 1, tel_last_timestamp_s = None, tel_last_rx_monotonic_s = None,
     vis_rx_total = 0, vis_rx_ok = 0, vis_rx_bad = 0,
     vis_drop_reason_oversize = 0, vis_drop_reason_json = 0, vis_drop_reason_schema = 0,
     vis_drop_reason_range = 0, vis_drop_reason_semantics = 0,
     vis_last_seq = - 1, vis_last_timestamp_s = None, vis_last_rx_monotonic_s = None,
     fc_connected = False, fc_last_connect_attempt_s = None,
     cmd_tx_total = 0, cmd_tx_ok = 0, cmd_tx_fail = 0,
     cmd_last_sent_monotonic_s = None, cmd_hz_est = Fin 0, tracking_blocked_reason = None,
     cmd_next_seq = seq0,
     last_cmd_seq = None, last_cmd_desired_mode = None,
     last_cmd_had_tracking = False, last_cmd_bytes = None \<rparr>"

definition state_reset :: "pyfloat \<Rightarrow> (pyexc, shared_state, unit) eff" where
  \<comment> \<open>the argument is the clock that \<open>_initial_cmd_seq\<close> reads; the fields after it keep
     their values when it raises\<close>
  "state_reset clk =
     ebind (emodify (\<lambda>s. (fresh_state (cmd_next_seq s))
        \<lparr> last_cmd_seq := last_cmd_seq s, last_cmd_desired_mode := last_cmd_desired_mode s,
          last_cmd_had_tracking := last_cmd_had_tracking s, last_cmd_bytes := last_cmd_bytes s \<rparr>))
     (\<lambda>_. ebind (elift (\<lambda>_. initial_cmd_seq clk))
     (\<lambda>q. emodify (\<lambda>s. s\<lparr> cmd_next_seq := q, last_cmd_seq := None,
        last_cmd_desired_mode := None, last_cmd_had_tracking := False,
        last_cmd_bytes := None \<rparr>)))"

definition update_intent :: "pydict \<Rightarrow> pyfloat \<Rightarrow> shared_state \<Rightarrow> shared_state" where
  "update_intent intent now_s s =
     s\<lparr> latest_intent := Some intent, intent_last_update_monotonic_s := Some now_s \<rparr>"

definition get_latest_intent :: "shared_state \<Rightarrow> pydict option" where
  "get_latest_intent s = latest_intent s"

subsection \<open>Telemetry counters\<close>

definition record_tel_rx_total :: "shared_state \<Rightarrow> shared_state" where
  "record_tel_rx_total s = s\<lparr> tel_rx_total := tel_rx_total s + 1 \<rparr>"

definition dget_or :: "pydict \<Rightarrow> string \<Rightarrow> pyval \<Rightarrow> pyval" where
  \<comment> \<open>\<open>d.get(k, default)\<close>\<close>
  "dget_or d k v = (case dget d k of None \<Rightarrow> v | Some w \<Rightarrow> w)"

definition record_tel_ok :: "pydict \<Rightarrow> pyfloat \<Rightarrow> (pyexc, shared_state, unit) eff" where
  "record_tel_ok msg rx =
     ebind (emodify (\<lambda>s. s\<lparr> latest_tel := Some msg \<rparr>))
     (\<lambda>_. ebind (elift (\<lambda>s. py_int (dget_or msg ''seq'' (PInt (tel_seq s)))))
     (\<lambda>q. ebind (emodify (\<lambda>s. s\<lparr> tel_seq := q, tel_rx_ok := tel_rx_ok s + 1 \<rparr>))
     (\<lambda>_. ebind (elift (\<lambda>s. py_int (dget_or msg ''seq'' (PInt (tel_last_seq s)))))
     (\<lambda>l. ebind (emodify (\<lambda>s. s\<lparr> tel_last_seq := l \<rparr>))
     (\<lambda>_. ebind (elift (\<lambda>s. py_float (dget_or msg ''timestamp_s'' (PFloat (Fin 0)))))
     (\<lambda>t. emodify (\<lambda>s. s\<lparr> tel_last_timestamp_s := Some t,
                          tel_last_rx_monotonic_s := Some rx \<rparr>)))))))"

definition TEL_DROP_REASONS :: "string list" where
  "TEL_DROP_REASONS = [''oversize'', ''json'', ''schema'', ''range'']"

definition bump_tel_reason :: "string \<Rightarrow> shared_state \<Rightarrow> shared_state" where
  \<comment> \<open>\<open>setattr(self, attr, getattr(self, attr) + 1)\<close>\<close>
  "bump_tel_reason r s =
     (if r = ''oversize'' then s\<lparr> tel_drop_reason_oversize := tel_drop_reason_oversize s + 1 \<rparr>
      else if r = ''json'' then s\<lparr> tel_drop_reason_json := tel_drop_reason_json s + 1 \<rparr>
      else if r = ''schema'' then s\<lparr> tel_drop_reason_schema := tel_drop_reason_schema s + 1 \<rparr>
      else s\<lparr> tel_drop_reason_range := tel_drop_reason_range s + 1 \<rparr>)"

definition record_tel_drop :: "string \<Rightarrow> (pyexc, shared_state, unit) eff" where
  "record_tel_drop r s =
     (if r \<notin> set TEL_DROP_REASONS
      then (Inl (ValueError (Msg ''unsupported TEL drop reason'')), s)
      else (Inr (), bump_tel_reason r (s\<lparr> tel_rx_bad := tel_rx_bad s + 1 \<rparr>)))"

subsection \<open>Vision counters\<close>

definition record_vis_rx_total :: "shared_state \<Rightarrow> shared_state" where
  "record_vis_rx_total s = s\<lparr> vis_rx_total := vis_rx_total s + 1 \<rparr>"

definition record_vis_ok :: "pydict \<Rightarrow> pyfloat \<Rightarrow> (pyexc, shared_state, unit) eff" where
  "record_vis_ok msg rx =
     ebind (emodify (\<lambda>s. s\<lparr> latest_vis := Some msg \<rparr>))
     (\<lambda>_. ebind (elift (\<lambda>s. py_int (dget_or msg ''seq'' (PInt (vis_seq s)))))
     (\<lambda>q. ebind (emodify (\<lambda>s. s\<lparr> vis_seq := q, vis_rx_ok := vis_rx_ok s + 1 \<rparr>))
     (\<lambda>_. ebind (elift (\<lambda>s. py_int (dget_or msg ''seq'' (PInt (vis_last_seq s)))))
     (\<lambda>l. ebind (emodify (\<lambda>s. s\<lparr> vis_last_seq := l \<rparr>))
     (\<lambda>_. ebind (elift (\<lambda>s. py_float (dget_or msg ''timestamp_s'' (PFloat (Fin 0)))))
     (\<lambda>t. emodify (\<lambda>s. s\<lparr> vis_last_timestamp_s := Some t,
                          vis_last_rx_monotonic_s := Some rx \<rparr>)))))))"

definition VIS_DROP_REASONS :: "string list" where
  "VIS_DROP_REASONS = [''oversize'', ''json'', ''schema'', ''range'', ''semantics'']"

definition bump_vis_reason :: "string \<Rightarrow> shared_state \<Rightarrow> shared_state" where
  "bump_vis_reason r s =
     (if r = ''oversize'' then s\<lparr> vis_drop_reason_oversize := vis_drop_reason_oversize s + 1 \<rparr>
      else if r = ''json'' then s\<lparr> vis_drop_reason_json := vis_drop_reason_json s + 1 \<rparr>
      else if r = ''schema'' then s\<lparr> vis_drop_reason_schema := vis_drop_reason_schema s + 1 \<rparr>
      else if r = ''range'' then s\<lparr> vis_drop_reason_range := vis_drop_reason_range s + 1 \<rparr>
      else s\<lparr> vis_drop_reason_semantics := vis_drop_reason_semantics s + 1 \<rparr>)"

definition record_vis_drop :: "string \<Rightarrow> (pyexc, shared_state, unit) eff" where
  "record_vis_drop r s =
     (if r \<notin> set VIS_DROP_REASONS
      then (Inl (ValueError (Msg ''unsupported VIS drop reason'')), s)
      else (Inr (), bump_vis_reason r (s\<lparr> vis_rx_bad := vis_rx_bad s + 1 \<rparr>)))"

subsection \<open>The command link\<close>

definition record_fc_connect_attempt :: "pyfloat \<Rightarrow> shared_state \<Rightarrow> shared_state" where
  "record_fc_connect_attempt now_s s = s\<lparr> fc_last_connect_attempt_s := Some now_s \<rparr>"

definition set_fc_connected :: "bool \<Rightarrow> shared_state \<Rightarrow> shared_state" where
  "set_fc_connected c s = s\<lparr> fc_connected := c \<rparr>"

definition set_tracking_blocked_reason :: "string option \<Rightarrow> shared_state \<Rightarrow> shared_state" where
  "set_tracking_blocked_reason r s = s\<lparr> tracking_blocked_reason := r \<rparr>"

definition record_cmd_tx_attempt :: "shared_state \<Rightarrow> shared_state" where
  "record_cmd_tx_attempt s = s\<lparr> cmd_tx_total := cmd_tx_total s + 1 \<rparr>"

definition hz_update :: "pyfloat \<Rightarrow> pyfloat \<Rightarrow> pyfloat" where
  \<comment> \<open>the moving average of \<open>record_cmd_tx_ok\<close>, for a new rate\<close>
  "hz_update est inst =
     (if fle est (Fin 0) then inst
      else fadd (fmul (f64 (8 / 10)) est) (fmul (f64 (2 / 10)) inst))"

definition record_cmd_tx_ok :: "pyfloat \<Rightarrow> (pyexc, shared_state, unit) eff" where
  "record_cmd_tx_ok now_s s =
     (let prev = cmd_last_sent_monotonic_s s;
          s1 = s\<lparr> cmd_tx_ok := cmd_tx_ok s + 1, cmd_last_sent_monotonic_s := Some now_s \<rparr>
      in case prev of
           None \<Rightarrow> (Inr (), s1)
         | Some prev_s \<Rightarrow>
             (let delta_s = fsub now_s prev_s
              in if flt (Fin 0) delta_s
                 then (case fdiv (Fin 1) delta_s of
                         None \<Rightarrow> (Inl ZeroDivisionError, s1)
                       | Some inst \<Rightarrow> (Inr (), s1\<lparr> cmd_hz_est := hz_update (cmd_hz_est s1) inst \<rparr>))
                 else (Inr (), s1)))"

definition record_cmd_tx_fail :: "shared_state \<Rightarrow> shared_state" where
  "record_cmd_tx_fail s = s\<lparr> cmd_tx_fail := cmd_tx_fail s + 1 \<rparr>"

definition ensure_cmd_seq_minimum :: "int \<Rightarrow> shared_state \<Rightarrow> shared_state" where
  "ensure_cmd_seq_minimum minimum s =
     (let m = clamp_seq minimum
      in if seq_advances (cmd_next_seq s) m then s\<lparr> cmd_next_seq := m \<rparr> else s)"

definition reserve_cmd_seq :: "int option \<Rightarrow> shared_state \<Rightarrow> int \<times> shared_state" where
  "reserve_cmd_seq minimum s =
     (let s1 = (case minimum of None \<Rightarrow> s
                | Some m \<Rightarrow> (let c = clamp_seq m
                             in if seq_advances (cmd_next_seq s) c
                                then s\<lparr> cmd_next_seq := c \<rparr> else s));
          seq = cmd_next_seq s1
      in (seq, s1\<lparr> cmd_next_seq := next_seq seq \<rparr>))"

definition int_or_None :: "pyval option \<Rightarrow> int option" where
  \<comment> \<open>\<open>int(v) if isinstance(v, int) else None\<close>\<close>
  "int_or_None v = (case v of Some (PInt i) \<Rightarrow> Some i
                    | Some (PBool b) \<Rightarrow> Some (if b then 1 else 0) | _ \<Rightarrow> None)"

definition record_last_cmd_payload :: "pydict \<Rightarrow> int \<Rightarrow> shared_state \<Rightarrow> shared_state" where
  "record_last_cmd_payload payload n s =
     s\<lparr> last_cmd_seq := int_or_None (dget payload ''seq''),
        last_cmd_desired_mode := int_or_None (dget payload ''desired_mode''),
        last_cmd_had_tracking := dhas payload ''tracking'',
        last_cmd_bytes := Some n \<rparr>"

subsection \<open>Atomic steps\<close>

text \<open>
  One constructor per mutating method. A run of them is one interleaving of the ingest
  threads, the command bridge, the HTTP handlers and start-up.
\<close>

datatype state_op =
  OpReset pyfloat
| OpIntent pydict pyfloat
| OpTelTotal
| OpTelOk pydict pyfloat
| OpTelDrop string
| OpVisTotal
| OpVisOk pydict pyfloat
| OpVisDrop string
| OpConnectAttempt pyfloat
| OpFcConnected bool
| OpBlocked "string option"
| OpTxAttempt
| OpTxOk pyfloat
| OpTxFail
| OpReserve "int option"
| OpEnsure int
| OpLastCmd pydict int

fun state_step :: "shared_state \<Rightarrow> state_op \<Rightarrow> shared_state" where
  "state_step s (OpReset clk) = snd (state_reset clk s)"
| "state_step s (OpIntent d t) = update_intent d t s"
| "state_step s OpTelTotal = record_tel_rx_total s"
| "state_step s (OpTelOk d t) = snd (record_tel_ok d t s)"
| "state_step s (OpTelDrop r) = snd (record_tel_drop r s)"
| "state_step s OpVisTotal = record_vis_rx_total s"
| "state_step s (OpVisOk d t) = snd (record_vis_ok d t s)"
| "state_step s (OpVisDrop r) = snd (record_vis_drop r s)"
| "state_step s (OpConnectAttempt t) = record_fc_connect_attempt t s"
| "state_step s (OpFcConnected c) = set_fc_connected c s"
| "state_step s (OpBlocked r) = set_tracking_blocked_reason r s"
| "state_step s OpTxAttempt = record_cmd_tx_attempt s"
| "state_step s (OpTxOk t) = snd (record_cmd_tx_ok t s)"
| "state_step s OpTxFail = record_cmd_tx_fail s"
| "state_step s (OpReserve m) = snd (reserve_cmd_seq m s)"
| "state_step s (OpEnsure m) = ensure_cmd_seq_minimum m s"
| "state_step s (OpLastCmd d n) = record_last_cmd_payload d n s"

lemmas state_op_defs =
  state_reset_def update_intent_def record_tel_rx_total_def record_tel_ok_def record_tel_drop_def
  record_vis_rx_total_def record_vis_ok_def record_vis_drop_def record_fc_connect_attempt_def
  set_fc_connected_def set_tracking_blocked_reason_def record_cmd_tx_attempt_def
  record_cmd_tx_ok_def record_cmd_tx_fail_def reserve_cmd_seq_def ensure_cmd_seq_minimum_def
  record_last_cmd_payload_def fresh_state_def bump_tel_reason_def bump_vis_reason_def Let_def

subsection \<open>Invariants\<close>

definition tel_counts_ok :: "shared_state \<Rightarrow> bool" where
  "tel_counts_ok s = (tel_rx_bad s = tel_drop_reason_oversize s + tel_drop_reason_json s
      + tel_drop_reason_schema s + tel_drop_reason_range s)"

definition vis_counts_ok :: "shared_state \<Rightarrow> bool" where
  "vis_counts_ok s = (vis_rx_bad s = vis_drop_reason_oversize s + vis_drop_reason_json s
      + vis_drop_reason_schema s + vis_drop_reason_range s + vis_drop_reason_semantics s)"

definition hz_ok :: "shared_state \<Rightarrow> bool" where
  "hz_ok s = fle (Fin 0) (cmd_hz_est s)"

definition state_inv :: "shared_state \<Rightarrow> bool" where
  "state_inv s = (tel_counts_ok s \<and> vis_counts_ok s \<and> seq_range (cmd_next_seq s) \<and> hz_ok s)"

lemmas count_defs = tel_counts_ok_def vis_counts_ok_def

text \<open>The parts an operation reads and writes through \<open>ebind\<close>.\<close>

lemma ebind_snd_cases:
  "snd (ebind m f s) = (case m s of (Inl e, s') \<Rightarrow> s' | (Inr v, s') \<Rightarrow> snd (f v s'))"
  by (auto simp: ebind_def split: prod.splits sum.splits)

lemma ebind_elift: "ebind (elift h) f s = (case h s of Inl e \<Rightarrow> (Inl e, s) | Inr v \<Rightarrow> f v s)"
  by (simp add: ebind_def split: sum.splits)

lemma ebind_emodify: "ebind (emodify g) f s = f () (g s)"
  by (simp add: ebind_def)

lemmas eff_unfold = ebind_elift ebind_emodify

lemma state_step_tel_counts: "tel_counts_ok s \<Longrightarrow> tel_counts_ok (state_step s p)"
  by (cases p) (auto simp: count_defs state_op_defs eff_unfold TEL_DROP_REASONS_def
      split: sum.splits option.splits)

lemma state_step_vis_counts: "vis_counts_ok s \<Longrightarrow> vis_counts_ok (state_step s p)"
  by (cases p) (auto simp: count_defs state_op_defs eff_unfold VIS_DROP_REASONS_def
      split: sum.splits option.splits)

lemma state_step_seq: "seq_range (cmd_next_seq s) \<Longrightarrow> seq_range (cmd_next_seq (state_step s p))"
  by (cases p) (auto simp: state_op_defs eff_unfold
      dest: initial_cmd_seq_range split: sum.splits option.splits)

lemma fdiv_pos:
  assumes "flt (Fin 0) d"
  obtains q where "fdiv (Fin 1) d = Some q" "fle (Fin 0) q"
  using assms by (cases d) (auto simp: f64_nonneg)

lemma fmul_nonneg:
  "fle (Fin 0) a \<Longrightarrow> fle (Fin 0) b \<Longrightarrow> isfinite a \<Longrightarrow> a \<noteq> Fin 0 \<Longrightarrow> fle (Fin 0) (fmul a b)"
  by (cases a; cases b) (auto simp: f64_nonneg)

lemma f64_unit_pos:
  assumes "1 / 16 \<le> x" "x \<le> 1"
  shows "\<exists>r. f64 x = Fin r \<and> 0 < r \<and> r \<le> 1"
proof -
  have "rnd (1 / 16) = 1 / 16" by (rule rnd_fraction[of 1 4]) simp_all
  with assms have b: "1 / 16 \<le> rnd x" "rnd x \<le> 1"
    using rnd_ge_fix[of "1 / 16" x] rnd_le_fix[of x 1] by simp_all
  have "f64 x = Fin (rnd x)" using b by (intro f64_small big_bound) simp
  with b show ?thesis by simp
qed

lemma hz_update_nonneg:
  assumes "fle (Fin 0) e" "fle (Fin 0) q"
  shows "fle (Fin 0) (hz_update e q)"
proof -
  obtain a where a: "f64 (8 / 10) = Fin a" "0 < a" using f64_unit_pos[of "8 / 10"] by auto
  obtain b where b: "f64 (2 / 10) = Fin b" "0 < b" using f64_unit_pos[of "2 / 10"] by auto
  have "fle (Fin 0) (fmul (Fin a) e)" using assms(1) a(2) by (intro fmul_nonneg) auto
  moreover have "fle (Fin 0) (fmul (Fin b) q)" using assms(2) b(2) by (intro fmul_nonneg) auto
  ultimately show ?thesis using assms unfolding hz_update_def a b by (simp add: fadd_nonneg)
qed

lemma record_cmd_tx_ok_returns: "fst (record_cmd_tx_ok t s) = Inr ()"
  by (auto simp: record_cmd_tx_ok_def Let_def split: option.splits elim: fdiv_pos)

lemma record_cmd_tx_ok_hz: "hz_ok s \<Longrightarrow> hz_ok (snd (record_cmd_tx_ok t s))"
proof (cases "cmd_last_sent_monotonic_s s")
  case (Some prev)
  assume hz: "hz_ok s"
  show ?thesis
  proof (cases "flt (Fin 0) (fsub t prev)")
    case True
    then obtain q where "fdiv (Fin 1) (fsub t prev) = Some q" "fle (Fin 0) q" by (rule fdiv_pos)
    then show ?thesis using hz Some True
      by (simp add: record_cmd_tx_ok_def hz_ok_def hz_update_nonneg)
  next
    case False
    then show ?thesis using hz Some by (simp add: record_cmd_tx_ok_def hz_ok_def)
  qed
qed (simp add: record_cmd_tx_ok_def hz_ok_def)

lemma state_step_hz: "hz_ok s \<Longrightarrow> hz_ok (state_step s p)"
proof (cases "\<exists>t. p = OpTxOk t")
  case True
  then show "hz_ok s \<Longrightarrow> ?thesis" by (auto simp: record_cmd_tx_ok_hz)
next
  case False
  then show "hz_ok s \<Longrightarrow> ?thesis"
    by (cases p) (auto simp: hz_ok_def state_op_defs eff_unfold split: sum.splits option.splits)
qed

lemma state_step_inv [inv_intros]: "state_inv s \<Longrightarrow> state_inv (state_step s p)"
  by (simp add: state_inv_def state_step_tel_counts state_step_vis_counts state_step_seq
      state_step_hz)

lemma fresh_state_inv: "seq_range q \<Longrightarrow> state_inv (fresh_state q)"
  by (simp add: state_inv_def count_defs hz_ok_def fresh_state_def)

text \<open>
  C32: After any interleaving of the backend's threads on a freshly built shared state, the
  count of rejected telemetry (vision) datagrams is the sum of the per-reason counters, the
  next command sequence number lies in \<open>[0, 2^31 - 1]\<close>, and the estimated command rate is a
  number that is not negative.
\<close>

theorem shared_state_run_inv:
  assumes "seq_range q"
  shows "state_inv (run state_step (fresh_state q) ops)"
  by (rule run_invariant[of state_inv]) (simp_all add: state_step_inv fresh_state_inv assms)

theorem shared_state_run_inv_witness:
  "state_inv (run state_step (fresh_state 0)
     [OpVisTotal, OpVisDrop ''json'', OpTxOk (Fin 0), OpTxOk (Fin 1), OpReserve None])"
  by (rule shared_state_run_inv) (simp add: seq_range_def seq_consts)

subsection \<open>The shared state as a source of sequence numbers\<close>

fun touches_seq :: "state_op \<Rightarrow> bool" where
  "touches_seq (OpReset _) = True"
| "touches_seq (OpReserve _) = True"
| "touches_seq (OpEnsure _) = True"
| "touches_seq _ = False"

definition other_step :: "shared_state \<Rightarrow> state_op \<Rightarrow> shared_state" where
  \<comment> \<open>any step of another thread that is not about the sequence number\<close>
  "other_step s p = (if touches_seq p then s else state_step s p)"

lemma state_step_keeps_seq [frame_simps]:
  "\<not> touches_seq p \<Longrightarrow> cmd_next_seq (state_step s p) = cmd_next_seq s"
  by (cases p) (auto simp: state_op_defs eff_unfold split: sum.splits option.splits)

interpretation cmdseq: seq_source "reserve_cmd_seq None" cmd_next_seq other_step
  by unfold_locales
    (auto simp: reserve_cmd_seq_def Let_def next_seq_mod other_step_def state_step_keeps_seq)

text \<open>
  However the bridge's reservations interleave with the other threads' updates, the
  sequence numbers handed out are consecutive modulo \<open>2^31\<close>, so no number is issued twice
  within a whole turn of the space.
\<close>

theorem reserved_seqs_distinct:
  assumes "seq_range (cmd_next_seq s)" "int (cmdseq.takes es) \<le> CMD_SEQ_MOD"
  shows "distinct (cmdseq.taken es s) \<and>
    cmdseq.taken es s = map (\<lambda>i. (cmd_next_seq s + int i) mod CMD_SEQ_MOD) [0..<cmdseq.takes es]"
  using cmdseq.taken_distinct[OF assms] cmdseq.taken_eq[OF assms(1)] by simp

theorem reserved_seqs_distinct_witness:
  "distinct (cmdseq.taken [Take, Other OpVisTotal, Take] (fresh_state CMD_SEQ_MAX)) \<and>
   cmdseq.taken [Take, Other OpVisTotal, Take] (fresh_state CMD_SEQ_MAX) = [CMD_SEQ_MAX, 0]"
  using reserved_seqs_distinct[of "fresh_state CMD_SEQ_MAX" "[Take, Other OpVisTotal, Take]"]
  by (simp add: fresh_state_def seq_range_def seq_consts)

text \<open>
  \<open>reserve_cmd_seq(minimum)\<close> never issues a number behind the requested minimum: the
  result is the current number or the clamped minimum, the minimum is not ahead of it, and
  the stored number has moved to the one after it, wrapping at the top.
\<close>

theorem reserve_cmd_seq_minimum:
  assumes "reserve_cmd_seq (Some m) s = (q, s')"
  shows "(q = cmd_next_seq s \<or> q = clamp_seq m) \<and> \<not> seq_advances q (clamp_seq m)
    \<and> cmd_next_seq s' = next_seq q"
  using assms by (auto simp: reserve_cmd_seq_def Let_def split: if_splits)

theorem reserve_cmd_seq_minimum_witness:
  "fst (reserve_cmd_seq (Some 5) (fresh_state CMD_SEQ_MAX)) = 5 \<and>
   \<not> seq_advances 5 (clamp_seq 5)"
proof -
  obtain q s' where r: "reserve_cmd_seq (Some 5) (fresh_state CMD_SEQ_MAX) = (q, s')"
    by fastforce
  have "q = 5" using r
    by (simp add: reserve_cmd_seq_def fresh_state_def seq_advances_def clamp_seq_def seq_consts Let_def)
  then show ?thesis using reserve_cmd_seq_minimum[OF r] r by (simp add: clamp_seq_def seq_consts)
qed

end
