(* ===== verification/State_Views.thy ===== *)
theory State_Views
  imports Shared_State
begin

section \<open>What the shared state reports\<close>

text \<open>
  The read-only methods of \<open>SharedState\<close>: the ages of the last telemetry and vision
  messages, and the dictionaries served by the HTTP and WebSocket endpoints. \<open>now_s\<close> is the
  caller's time or the clock's, whichever the code uses.
\<close>

definition opt_val :: "('a \<Rightarrow> pyval) \<Rightarrow> 'a option \<Rightarrow> pyval" where
  \<comment> \<open>\<open>None\<close> stays \<open>None\<close>\<close>
  "opt_val f x = (case x of None \<Rightarrow> PNone | Some v \<Rightarrow> f v)"

abbreviation count :: "nat \<Rightarrow> pyval" where
  "count n \<equiv> PInt (int n)"

definition age_since :: "pyfloat \<Rightarrow> pyfloat option \<Rightarrow> pyfloat option" where
  \<comment> \<open>\<open>max(0.0, now_s - last_rx)\<close>, if anything was received\<close>
  "age_since now_s last_rx = map_option (\<lambda>t. fmax (Fin 0) (fsub now_s t)) last_rx"

definition get_tel_age_s :: "pyfloat \<Rightarrow> shared_state \<Rightarrow> pyfloat option" where
  "get_tel_age_s now_s s = age_since now_s (tel_last_rx_monotonic_s s)"

definition get_vis_age_s :: "pyfloat \<Rightarrow> shared_state \<Rightarrow> pyfloat option" where
  "get_vis_age_s now_s s = age_since now_s (vis_last_rx_monotonic_s s)"

definition get_latest_tel :: "shared_state \<Rightarrow> pydict option" where
  "get_latest_tel s = latest_tel s"

definition get_latest_vis :: "shared_state \<Rightarrow> pydict option" where
  "get_latest_vis s = latest_vis s"

definition get_latest_tel_with_meta :: "shared_state \<Rightarrow> pydict option \<times> pyfloat option" where
  "get_latest_tel_with_meta s =
     (case latest_tel s of None \<Rightarrow> (None, None) | Some d \<Rightarrow> (Some d, tel_last_rx_monotonic_s s))"

definition get_latest_vis_with_meta :: "shared_state \<Rightarrow> pydict option \<times> pyfloat option" where
  "get_latest_vis_with_meta s =
     (case latest_vis s of None \<Rightarrow> (None, None) | Some d \<Rightarrow> (Some d, vis_last_rx_monotonic_s s))"

definition get_cmd_bridge_status :: "shared_state \<Rightarrow> pydict" where
  "get_cmd_bridge_status s =
    [(''fc_connected'', PBool (fc_connected s)),
     (''fc_last_connect_attempt_s'', opt_val PFloat (fc_last_connect_attempt_s s)),
     (''cmd_tx_total'', count (cmd_tx_total s)),
     (''cmd_tx_ok'', count (cmd_tx_ok s)),
     (''cmd_tx_fail'', count (cmd_tx_fail s)),
     (''cmd_last_sent_monotonic_s'', opt_val PFloat (cmd_last_sent_monotonic_s s)),
     (''cmd_hz_est'', PFloat (cmd_hz_est s)),
     (''tracking_blocked_reason'', opt_val PStr (tracking_blocked_reason s)),
     (''last_cmd_seq'', opt_val PInt (last_cmd_seq s)),
     (''last_cmd_desired_mode'', opt_val PInt (last_cmd_desired_mode s)),
     (''last_cmd_had_tracking'', PBool (last_cmd_had_tracking s)),
     (''last_cmd_bytes'', opt_val PInt (last_cmd_bytes s))]"

definition tel_stats_core :: "shared_state \<Rightarrow> pydict" where
  "tel_stats_core s =
    [(''tel_rx_total'', count (tel_rx_total s)),
     (''tel_rx_ok'', count (tel_rx_ok s)),
     (''tel_rx_bad'', count (tel_rx_bad s)),
     (''tel_drop_reason_oversize'', count (tel_drop_reason_oversize s)),
     (''tel_drop_reason_json'', count (tel_drop_reason_json s)),
     (''tel_drop_reason_schema'', count (tel_drop_reason_schema s)),
     (''tel_drop_reason_range'', count (tel_drop_reason_range s)),
     (''tel_last_seq'', PInt (tel_last_seq s)),
     (''tel_last_timestamp_s'', opt_val PFloat (tel_last_timestamp_s s)),
     (''tel_last_rx_monotonic_s'', opt_val PFloat (tel_last_rx_monotonic_s s))]"

definition get_tel_stats :: "pyfloat \<Rightarrow> shared_state \<Rightarrow> pydict" where
  "get_tel_stats now_s s =
     tel_stats_core s @ [(''tel_age_s'', opt_val PFloat (age_since now_s (tel_last_rx_monotonic_s s)))]"

definition vis_stats_core :: "shared_state \<Rightarrow> pydict" where
  "vis_stats_core s =
    [(''vis_rx_total'', count (vis_rx_total s)),
     (''vis_rx_ok'', count (vis_rx_ok s)),
     (''vis_rx_bad'', count (vis_rx_bad s)),
     (''vis_drop_reason_oversize'', count (vis_drop_reason_oversize s)),
     (''vis_drop_reason_json'', count (vis_drop_reason_json s)),
     (''vis_drop_reason_schema'', count (vis_drop_reason_schema s)),
     (''vis_drop_reason_range'', count (vis_drop_reason_range s)),
     (''vis_drop_reason_semantics'', count (vis_drop_reason_semantics s)),
     (''vis_last_seq'', PInt (vis_last_seq s)),
     (''vis_last_timestamp_s'', opt_val PFloat (vis_last_timestamp_s s)),
     (''vis_last_rx_monotonic_s'', opt_val PFloat (vis_last_rx_monotonic_s s))]"

definition get_vis_stats :: "pyfloat \<Rightarrow> shared_state \<Rightarrow> pydict" where
  "get_vis_stats now_s s =
     vis_stats_core s @ [(''vis_age_s'', opt_val PFloat (age_since now_s (vis_last_rx_monotonic_s s)))]"

definition get_vis_status :: "pyfloat \<Rightarrow> pyfloat \<Rightarrow> shared_state \<Rightarrow> pyexc + pydict" where
  "get_vis_status connected_threshold_s now_s s =
     (if flt connected_threshold_s (Fin 0)
      then Inl (ValueError (Msg ''connected_threshold_s must be >= 0''))
      else
        (let vis_age_s = age_since now_s (vis_last_rx_monotonic_s s);
             vis_connected = (case vis_age_s of None \<Rightarrow> False
                              | Some a \<Rightarrow> fle a connected_threshold_s)
         in Inr
           [(''vis_connected'', PBool vis_connected),
            (''vis_age_s'', opt_val PFloat vis_age_s),
            (''vis_rx_ok'', count (vis_rx_ok s)),
            (''vis_rx_bad'', count (vis_rx_bad s)),
            (''vis_last_seq'', PInt (vis_last_seq s)),
            (''vis_last_timestamp_s'', opt_val PFloat (vis_last_timestamp_s s))]))"

definition get_link_status ::
  "pyfloat \<Rightarrow> pyfloat \<Rightarrow> pyfloat \<Rightarrow> pyfloat \<Rightarrow> pyfloat \<Rightarrow> pyfloat \<Rightarrow> shared_state \<Rightarrow> pydict" where
  "get_link_status vis_fresh_s tel_fresh_s cmd_timeout_s cmd_hz tel_hz now_s s =
    [(''fc_connected'', PBool (fc_connected s)),
     (''fc_last_connect_attempt_s'', opt_val PFloat (fc_last_connect_attempt_s s)),
     (''cmd_tx_total'', count (cmd_tx_total s)),
     (''cmd_tx_ok'', count (cmd_tx_ok s)),
     (''cmd_tx_fail'', count (cmd_tx_fail s)),
     (''cmd_last_sent_monotonic_s'', opt_val PFloat (cmd_last_sent_monotonic_s s)),
     (''cmd_hz_est'', PFloat (cmd_hz_est s)),
     (''tracking_blocked_reason'', opt_val PStr (tracking_blocked_reason s)),
     (''vis_age_s'', opt_val PFloat (age_since now_s (vis_last_rx_monotonic_s s))),
     (''vis_rx_ok'', count (vis_rx_ok s)),
     (''vis_rx_bad'', count (vis_rx_bad s)),
     (''vis_drop_reason_oversize'', count (vis_drop_reason_oversize s)),
     (''vis_drop_reason_json'', count (vis_drop_reason_json s)),
     (''vis_drop_reason_schema'', count (vis_drop_reason_schema s)),
     (''vis_drop_reason_range'', count (vis_drop_reason_range s)),
     (''vis_drop_reason_semantics'', count (vis_drop_reason_semantics s)),
     (''tel_age_s'', opt_val PFloat (age_since now_s (tel_last_rx_monotonic_s s))),
     (''tel_rx_ok'', count (tel_rx_ok s)),
     (''tel_rx_bad'', count (tel_rx_bad s)),
     (''vis_fresh_s'', PFloat vis_fresh_s),
     (''tel_fresh_s'', PFloat tel_fresh_s),
     (''cmd_timeout_s'', PFloat cmd_timeout_s),
     (''cmd_hz'', PFloat cmd_hz),
     (''tel_hz'', PFloat tel_hz)]"

definition snapshot :: "shared_state \<Rightarrow> pydict" where
  "snapshot s =
    [(''tel'', opt_val PDict (latest_tel s)),
     (''vis'', opt_val PDict (latest_vis s)),
     (''intent'', opt_val PDict (latest_intent s)),
     (''tel_seq'', PInt (tel_seq s)),
     (''vis_seq'', PInt (vis_seq s)),
     (''tel_stats'', PDict (tel_stats_core s)),
     (''vis_stats'', PDict (vis_stats_core s)),
     (''cmd_status'', PDict (get_cmd_bridge_status s))]"

subsection \<open>Ages\<close>

lemma age_since_None [simp]: "age_since now_s None = None"
  by (simp add: age_since_def)

lemma age_since_Some_iff: "(\<exists>a. age_since now_s r = Some a) \<longleftrightarrow> r \<noteq> None"
  by (cases r) (simp_all add: age_since_def)

lemma age_since_nonneg: "age_since now_s r = Some a \<Longrightarrow> fle (Fin 0) a"
  by (auto simp: age_since_def)

lemma fsub_nonpos: "t \<le> u \<Longrightarrow> fle (fsub (Fin t) (Fin u)) (Fin 0)"
  using f64_mono[of "t - u" 0] by (simp add: fsub_def)

text \<open>A message that arrived after the reading of the clock has age 0.\<close>

lemma age_since_future: "now \<le> t \<Longrightarrow> age_since (Fin now) (Some (Fin t)) = Some (Fin 0)"
  using fsub_nonpos[of now t]
  by (cases "fsub (Fin now) (Fin t)") (auto simp: age_since_def fmax_def)

lemma age_since_past: "t \<le> now \<Longrightarrow> age_since (Fin now) (Some (Fin t)) = Some (f64 (now - t))"
  using f64_nonneg[of "now - t"]
  by (cases "f64 (now - t)") (auto simp: age_since_def fmax_def fsub_def)

text \<open>
  \<open>get_vis_status\<close> reports a connection exactly when a vision message has been received
  and its age is within the threshold; it raises exactly on a negative threshold.
\<close>

lemma get_vis_status_returns: "returns (get_vis_status thr now_s s) = (\<not> flt thr (Fin 0))"
  by (simp add: get_vis_status_def Let_def)

lemma get_vis_status_connected:
  "get_vis_status thr now_s s = Inr d \<Longrightarrow>
   dget d ''vis_connected'' = Some (PBool True) \<longleftrightarrow>
      (\<exists>a. get_vis_age_s now_s s = Some a \<and> fle a thr)"
  by (auto simp: get_vis_status_def get_vis_age_s_def Let_def split: option.splits if_splits)

end
