(* ===== verification/Tel_Schema.thy ===== *)
theory Tel_Schema
  imports State_Views "HOL-Library.List_Lexorder"
begin

section \<open>Validation of telemetry messages\<close>

text \<open>
  \<open>src/src/backend/tel_schema.py\<close>: \<open>validate_tel_message\<close> turns a decoded JSON value into
  the normalised telemetry dictionary or raises \<open>TelValidationError\<close> with a reason and a
  detail. The checks run in the order of the source; the first that fails decides.
\<close>

definition CONTROL_MODES :: "int list" where
  "CONTROL_MODES = [0, 1, 2, 3]"

definition TRACKING_STATES :: "int list" where
  "TRACKING_STATES = [1, 2, 3, 4]"

definition TEL_REQUIRED_FIELDS :: "string list" where
  "TEL_REQUIRED_FIELDS =
    [''type'', ''seq'', ''timestamp_s'', ''control_mode'', ''tracking_state'', ''distFront_m'',
     ''distBack_m'', ''distBottom_m'', ''target_x'', ''target_y'', ''bound_w'', ''bound_h'',
     ''confidence'']"

definition require_int :: "pydict \<Rightarrow> string \<Rightarrow> pyexc + int" where
  "require_int payload f =
     (case dget payload f of
        Some v \<Rightarrow> if is_bool v \<or> \<not> is_int v then Inl (ValidationError ''schema'' (MustBeInt f))
                  else py_int v
      | None \<Rightarrow> Inl (ValidationError ''schema'' (MustBeInt f)))"

definition require_float :: "pydict \<Rightarrow> string \<Rightarrow> pyexc + pyfloat" where
  "require_float payload f =
     (case dget payload f of
        Some v \<Rightarrow> if is_bool v \<or> \<not> is_number v
                  then Inl (ValidationError ''schema'' (MustBeFloat f))
                  else py_float v
      | None \<Rightarrow> Inl (ValidationError ''schema'' (MustBeFloat f)))"

definition ensure_in_range :: "string \<Rightarrow> pyfloat \<Rightarrow> pyfloat \<Rightarrow> pyfloat \<Rightarrow> pyexc + unit" where
  "ensure_in_range f v lo hi =
     guard_raise (fle lo v \<and> fle v hi) (ValidationError ''range'' (OutOfRange f lo hi))"

definition missing_fields :: "string list \<Rightarrow> pydict \<Rightarrow> string list" where
  "missing_fields required payload = sort (filter (\<lambda>f. \<not> dhas payload f) required)"

definition tel_message ::
  "int \<Rightarrow> pyfloat \<Rightarrow> int \<Rightarrow> int \<Rightarrow> pyfloat \<Rightarrow> pyfloat \<Rightarrow> pyfloat \<Rightarrow> pyfloat \<Rightarrow> pyfloat \<Rightarrow>
   pyfloat \<Rightarrow> pyfloat \<Rightarrow> pyfloat \<Rightarrow> pydict" where
  \<comment> \<open>the dictionary the validator returns\<close>
  "tel_message seq timestamp_s control_mode tracking_state dist_front_m dist_back_m
     dist_bottom_m target_x target_y bound_w bound_h confidence =
    [(''type'', PStr ''TEL''), (''seq'', PInt seq), (''timestamp_s'', PFloat timestamp_s),
     (''control_mode'', PInt control_mode), (''tracking_state'', PInt tracking_state),
     (''distFront_m'', PFloat dist_front_m), (''distBack_m'', PFloat dist_back_m),
     (''distBottom_m'', PFloat dist_bottom_m), (''target_x'', PFloat target_x),
     (''target_y'', PFloat target_y), (''bound_w'', PFloat bound_w),
     (''bound_h'', PFloat bound_h), (''confidence'', PFloat confidence)]"

definition validate_tel_fields :: "pydict \<Rightarrow> pyexc + pydict" where
  \<comment> \<open>the body after the object, presence and type checks\<close>
  "validate_tel_fields p =
     rbind (require_int p ''seq'') (\<lambda>seq.
     rbind (require_float p ''timestamp_s'') (\<lambda>timestamp_s.
     rbind (require_int p ''control_mode'') (\<lambda>control_mode.
     rbind (require_int p ''tracking_state'') (\<lambda>tracking_state.
     rbind (guard_raise (control_mode \<in> set CONTROL_MODES)
              (ValidationError ''range'' (NotInSet ''control_mode''))) (\<lambda>_.
     rbind (guard_raise (tracking_state \<in> set TRACKING_STATES)
              (ValidationError ''range'' (NotInSet ''tracking_state''))) (\<lambda>_.
     rbind (require_float p ''distFront_m'') (\<lambda>dist_front_m.
     rbind (require_float p ''distBack_m'') (\<lambda>dist_back_m.
     rbind (require_float p ''distBottom_m'') (\<lambda>dist_bottom_m.
     rbind (require_float p ''target_x'') (\<lambda>target_x.
     rbind (require_float p ''target_y'') (\<lambda>target_y.
     rbind (require_float p ''bound_w'') (\<lambda>bound_w.
     rbind (require_float p ''bound_h'') (\<lambda>bound_h.
     rbind (require_float p ''confidence'') (\<lambda>confidence.
     rbind (ensure_in_range ''target_x'' target_x (Fin (- 1)) (Fin 1)) (\<lambda>_.
     rbind (ensure_in_range ''target_y'' target_y (Fin (- 1)) (Fin 1)) (\<lambda>_.
     rbind (ensure_in_range ''bound_w'' bound_w (Fin 0) (Fin 1)) (\<lambda>_.
     rbind (ensure_in_range ''bound_h'' bound_h (Fin 0) (Fin 1)) (\<lambda>_.
     rbind (ensure_in_range ''confidence'' confidence (Fin 0) (Fin 1)) (\<lambda>_.
     Inr (tel_message seq timestamp_s control_mode tracking_state dist_front_m dist_back_m
            dist_bottom_m target_x target_y bound_w bound_h confidence))))))))))))))))))))"

definition validate_tel_message :: "pyval \<Rightarrow> pyexc + pydict" where
  "validate_tel_message payload =
     (case payload of
        PDict p \<Rightarrow>
          rbind (guard_raise (missing_fields TEL_REQUIRED_FIELDS p = [])
             (ValidationError ''schema'' (MissingFields (missing_fields TEL_REQUIRED_FIELDS p))))
          (\<lambda>_. rbind (guard_raise (dget p ''type'' = Some (PStr ''TEL''))
             (ValidationError ''schema''
                (WrongType (case dget p ''type'' of Some v \<Rightarrow> v | None \<Rightarrow> PNone))))
          (\<lambda>_. validate_tel_fields p))
      | _ \<Rightarrow> Inl (ValidationError ''schema'' NotAnObject))"

subsection \<open>Field access\<close>

text \<open>What a field must hold to be read as an integer or as a float.\<close>

lemma require_int_Inr:
  "require_int p f = Inr i \<longleftrightarrow> dget p f = Some (PInt i)"
  by (auto simp: require_int_def split: option.splits pyval.splits elim: is_int.elims)

lemma require_float_Inr:
  "require_float p f = Inr x \<longleftrightarrow>
     dget p f = Some (PFloat x) \<or> (\<exists>i. dget p f = Some (PInt i) \<and> float_result i = Inr x)"
  by (auto simp: require_float_def split: option.splits pyval.splits elim: is_number.elims)

lemma require_int_Inl:
  "require_int p f = Inl e \<Longrightarrow> e = ValidationError ''schema'' (MustBeInt f)"
  by (auto simp: require_int_def split: option.splits if_splits elim: is_int.elims)

lemma require_float_Inl:
  "require_float p f = Inl e \<Longrightarrow>
     e = ValidationError ''schema'' (MustBeFloat f) \<or>
     e = OverflowError \<and> (\<exists>i. dget p f = Some (PInt i) \<and> float_result i = Inl OverflowError)"
  by (auto simp: require_float_def dest: float_result_Inl split: option.splits if_splits
      elim!: is_number.elims is_int.elims)

lemma ensure_in_range_Inr [simp]:
  "ensure_in_range f v lo hi = Inr u \<longleftrightarrow> fle lo v \<and> fle v hi"
  by (simp add: ensure_in_range_def)

lemma ensure_in_range_Inl:
  "ensure_in_range f v lo hi = Inl e \<Longrightarrow> e = ValidationError ''range'' (OutOfRange f lo hi)"
  by (simp add: ensure_in_range_def)

lemma missing_fields_Nil: "missing_fields req p = [] \<longleftrightarrow> (\<forall>f \<in> set req. dhas p f)"
proof -
  have "missing_fields req p = [] \<longleftrightarrow> set (missing_fields req p) = {}" by simp
  also have "\<dots> \<longleftrightarrow> (\<forall>f \<in> set req. dhas p f)" by (auto simp: missing_fields_def)
  finally show ?thesis .
qed

subsection \<open>Well-formed messages\<close>

text \<open>What consumers of a validated message rely on, field by field.\<close>

definition int_field :: "pydict \<Rightarrow> string \<Rightarrow> (int \<Rightarrow> bool) \<Rightarrow> bool" where
  "int_field d f P = (case dget d f of Some (PInt i) \<Rightarrow> P i | _ \<Rightarrow> False)"

definition float_field :: "pydict \<Rightarrow> string \<Rightarrow> (pyfloat \<Rightarrow> bool) \<Rightarrow> bool" where
  "float_field d f P = (case dget d f of Some (PFloat x) \<Rightarrow> P x | _ \<Rightarrow> False)"

definition between :: "pyfloat \<Rightarrow> pyfloat \<Rightarrow> pyfloat \<Rightarrow> bool" where
  "between lo hi x = (fle lo x \<and> fle x hi)"

definition tel_wf :: "pydict \<Rightarrow> bool" where
  "tel_wf d = (map fst d = TEL_REQUIRED_FIELDS \<and> dget d ''type'' = Some (PStr ''TEL'') \<and>
     int_field d ''seq'' (\<lambda>_. True) \<and> float_field d ''timestamp_s'' (\<lambda>_. True) \<and>
     int_field d ''control_mode'' (\<lambda>m. m \<in> set CONTROL_MODES) \<and>
     int_field d ''tracking_state'' (\<lambda>t. t \<in> set TRACKING_STATES) \<and>
     float_field d ''distFront_m'' (\<lambda>_. True) \<and> float_field d ''distBack_m'' (\<lambda>_. True) \<and>
     float_field d ''distBottom_m'' (\<lambda>_. True) \<and>
     float_field d ''target_x'' (between (Fin (- 1)) (Fin 1)) \<and>
     float_field d ''target_y'' (between (Fin (- 1)) (Fin 1)) \<and>
     float_field d ''bound_w'' (between (Fin 0) (Fin 1)) \<and>
     float_field d ''bound_h'' (between (Fin 0) (Fin 1)) \<and>
     float_field d ''confidence'' (between (Fin 0) (Fin 1)))"

lemma int_fieldE:
  assumes "int_field d f P"
  obtains i where "dget d f = Some (PInt i)" "P i"
  using assms by (auto simp: int_field_def split: option.splits pyval.splits)

lemma float_fieldE:
  assumes "float_field d f P"
  obtains x where "dget d f = Some (PFloat x)" "P x"
  using assms by (auto simp: float_field_def split: option.splits pyval.splits)

lemma tel_message_wf:
  assumes "cm \<in> set CONTROL_MODES" "st \<in> set TRACKING_STATES"
    "between (Fin (- 1)) (Fin 1) tx" "between (Fin (- 1)) (Fin 1) ty"
    "between (Fin 0) (Fin 1) bw" "between (Fin 0) (Fin 1) bh" "between (Fin 0) (Fin 1) c"
  shows "tel_wf (tel_message q t cm st df db dn tx ty bw bh c)"
  using assms
  by (simp add: tel_wf_def tel_message_def TEL_REQUIRED_FIELDS_def int_field_def float_field_def)

text \<open>A dictionary is determined by its keys, when they differ, and what they map to.\<close>

lemma dict_by_keys:
  assumes "distinct (map fst d)" "map fst d = map fst e" "\<forall>k \<in> set (map fst d). dget d k = dget e k"
  shows "d = e"
proof -
  have "map (\<lambda>k. (k, the (dget d k))) (map fst d) = d" if "distinct (map fst d)" for d
    using that by (auto simp: dget_def map_of_is_SomeI comp_def intro!: map_idI)
  then have "d = map (\<lambda>k. (k, the (dget d k))) (map fst d)"
    and "e = map (\<lambda>k. (k, the (dget e k))) (map fst e)" using assms by metis+
  then show ?thesis using assms(2,3) by (metis (no_types, lifting) map_eq_conv)
qed

lemma tel_wf_message:
  assumes "tel_wf d"
  shows "\<exists>q t cm st df db dn tx ty bw bh c.
    d = tel_message q t cm st df db dn tx ty bw bh c \<and>
    cm \<in> set CONTROL_MODES \<and> st \<in> set TRACKING_STATES \<and>
    between (Fin (- 1)) (Fin 1) tx \<and> between (Fin (- 1)) (Fin 1) ty \<and>
    between (Fin 0) (Fin 1) bw \<and> between (Fin 0) (Fin 1) bh \<and> between (Fin 0) (Fin 1) c"
proof -
  have ty: "dget d ''type'' = Some (PStr ''TEL'')" using assms by (simp add: tel_wf_def)
  obtain q where q: "dget d ''seq'' = Some (PInt q)"
    using assms by (auto simp: tel_wf_def elim: int_fieldE)
  obtain t where t: "dget d ''timestamp_s'' = Some (PFloat t)"
    using assms by (auto simp: tel_wf_def elim: float_fieldE)
  obtain cm where cm: "dget d ''control_mode'' = Some (PInt cm)" "cm \<in> set CONTROL_MODES"
    using assms by (auto simp: tel_wf_def elim: int_fieldE)
  obtain st where st: "dget d ''tracking_state'' = Some (PInt st)" "st \<in> set TRACKING_STATES"
    using assms by (auto simp: tel_wf_def elim: int_fieldE)
  obtain df where df: "dget d ''distFront_m'' = Some (PFloat df)"
    using assms by (auto simp: tel_wf_def elim: float_fieldE)
  obtain db where db: "dget d ''distBack_m'' = Some (PFloat db)"
    using assms by (auto simp: tel_wf_def elim: float_fieldE)
  obtain dn where dn: "dget d ''distBottom_m'' = Some (PFloat dn)"
    using assms by (auto simp: tel_wf_def elim: float_fieldE)
  obtain tx where tx: "dget d ''target_x'' = Some (PFloat tx)" "between (Fin (- 1)) (Fin 1) tx"
    using assms by (auto simp: tel_wf_def elim: float_fieldE)
  obtain t2 where t2: "dget d ''target_y'' = Some (PFloat t2)" "between (Fin (- 1)) (Fin 1) t2"
    using assms by (auto simp: tel_wf_def elim: float_fieldE)
  obtain bw where bw: "dget d ''bound_w'' = Some (PFloat bw)" "between (Fin 0) (Fin 1) bw"
    using assms by (auto simp: tel_wf_def elim: float_fieldE)
  obtain bh where bh: "dget d ''bound_h'' = Some (PFloat bh)" "between (Fin 0) (Fin 1) bh"
    using assms by (auto simp: tel_wf_def elim: float_fieldE)
  obtain c where c: "dget d ''confidence'' = Some (PFloat c)" "between (Fin 0) (Fin 1) c"
    using assms by (auto simp: tel_wf_def elim: float_fieldE)
  have k: "map fst d = TEL_REQUIRED_FIELDS" using assms by (simp add: tel_wf_def)
  have "d = tel_message q t cm st df db dn tx t2 bw bh c"
    by (rule dict_by_keys)
      (simp_all add: k TEL_REQUIRED_FIELDS_def tel_message_def
        ty q t cm st df db dn tx t2 bw bh c)
  then show ?thesis using cm st tx t2 bw bh c by blast
qed

lemmas schema_Inr = require_int_Inr require_float_Inr ensure_in_range_Inr guard_raise_Inr

lemma validate_tel_fields_wf:
  "validate_tel_fields p = Inr r \<Longrightarrow> tel_wf r"
  by (auto simp: validate_tel_fields_def schema_Inr between_def intro!: tel_message_wf)

lemma validate_tel_wf: "validate_tel_message v = Inr r \<Longrightarrow> tel_wf r"
  by (auto simp: validate_tel_message_def validate_tel_fields_wf split: pyval.splits)

lemma validate_tel_fixpoint: "tel_wf r \<Longrightarrow> validate_tel_message (PDict r) = Inr r"
  by (drule tel_wf_message)
    (auto simp: validate_tel_message_def validate_tel_fields_def missing_fields_Nil
      TEL_REQUIRED_FIELDS_def require_int_def require_float_def ensure_in_range_def
      tel_message_def between_def)

text \<open>
  The validator's results are exactly the well-formed telemetry messages: every accepted
  input is normalised to one, and a well-formed message passes unchanged, so validating
  twice is validating once.
\<close>

theorem validate_tel_image: "(\<exists>v. validate_tel_message v = Inr r) = (tel_wf r \<and>
    validate_tel_message (PDict r) = Inr r)"
  using validate_tel_wf validate_tel_fixpoint by blast

subsection \<open>Rejections\<close>

definition has_huge_int :: "pydict \<Rightarrow> bool" where
  \<comment> \<open>some field holds an integer beyond the range of a float\<close>
  "has_huge_int p = list_ex (\<lambda>(k, v). case v of PInt i \<Rightarrow> \<not> returns (float_result i) | _ \<Rightarrow> False) p"

lemma has_huge_intI:
  assumes "dget p f = Some (PInt i)" "float_result i = Inl OverflowError"
  shows "has_huge_int p"
proof -
  have "(f, PInt i) \<in> set p" using assms(1) by (simp add: dget_def map_of_SomeD)
  then show ?thesis using assms(2) unfolding has_huge_int_def list_ex_iff by force
qed

definition rejection :: "string list \<Rightarrow> pydict \<Rightarrow> pyexc \<Rightarrow> bool" where
  \<comment> \<open>what a schema module can raise on an object: a listed reason, or an overflow\<close>
  "rejection reasons p e = (case e of ValidationError r _ \<Rightarrow> r \<in> set reasons
     | OverflowError \<Rightarrow> has_huge_int p | _ \<Rightarrow> False)"

lemma rejection_int: "''schema'' \<in> set rs \<Longrightarrow> require_int p f = Inl e \<Longrightarrow> rejection rs p e"
  by (auto simp: rejection_def dest: require_int_Inl)

lemma rejection_float: "''schema'' \<in> set rs \<Longrightarrow> require_float p f = Inl e \<Longrightarrow> rejection rs p e"
  by (auto simp: rejection_def dest!: require_float_Inl intro: has_huge_intI)

lemma rejection_range: "''range'' \<in> set rs \<Longrightarrow> ensure_in_range f v l h = Inl e \<Longrightarrow> rejection rs p e"
  by (auto simp: rejection_def dest: ensure_in_range_Inl)

lemma rejection_guard: "rejection rs p e' \<Longrightarrow> guard_raise ok e' = Inl e \<Longrightarrow> rejection rs p e"
  by simp

lemma rejection_rbind:
  "rbind m f = Inl e \<Longrightarrow> (m = Inl e \<Longrightarrow> rejection rs p e) \<Longrightarrow>
   (\<And>v. m = Inr v \<Longrightarrow> f v = Inl e \<Longrightarrow> rejection rs p e) \<Longrightarrow> rejection rs p e"
  by (auto simp: rbind_Inl_iff)

lemmas rejections = rejection_int rejection_float rejection_range

lemma validate_tel_fields_Inl:
  "validate_tel_fields p = Inl e \<Longrightarrow> rejection [''schema'', ''range''] p e"
  unfolding validate_tel_fields_def
  by (auto simp: rbind_Inl_iff intro: rejections) (simp_all add: rejection_def)

text \<open>
  Validation of telemetry raises nothing but a validation error with reason
  "schema" or "range", except for one case: an object with an integer too large for a
  float raises \<open>OverflowError\<close>.
\<close>

theorem validate_tel_errors:
  assumes "validate_tel_message v = Inl e"
  shows "(\<exists>r d. e = ValidationError r d \<and> r \<in> {''schema'', ''range''}) \<or>
    (e = OverflowError \<and> (\<exists>p. v = PDict p \<and> has_huge_int p))"
proof -
  have "rejection [''schema'', ''range''] p e" if "v = PDict p" for p
    using assms that
    by (auto simp: validate_tel_message_def rbind_Inl_iff rejection_def[of _ _ "ValidationError _ _"]
        intro: validate_tel_fields_Inl)
  then show ?thesis using assms
    by (cases v) (auto simp: validate_tel_message_def rejection_def split: pyexc.splits)
qed

theorem validate_tel_errors_witness:
  "\<exists>r d. (ValidationError ''schema'' NotAnObject :: pyexc) = ValidationError r d \<and>
     r \<in> {''schema'', ''range''}"
proof -
  have "validate_tel_message PNone = Inl (ValidationError ''schema'' NotAnObject)"
    by (simp add: validate_tel_message_def)
  from validate_tel_errors[OF this] show ?thesis by simp
qed

text \<open>
  Distances and the timestamp are not range-checked, so a NaN or infinite value in them is
  accepted and kept.
\<close>

lemma tel_nonfinite_accepted:
  "validate_tel_message (PDict (tel_message 1 NaN 0 1 NaN PInf NInf (Fin 0) (Fin 0)
      (Fin 0) (Fin 0) (Fin 0)))
   = Inr (tel_message 1 NaN 0 1 NaN PInf NInf (Fin 0) (Fin 0) (Fin 0) (Fin 0) (Fin 0))"
  by (intro validate_tel_fixpoint tel_message_wf)
    (simp_all add: CONTROL_MODES_def TRACKING_STATES_def between_def)

end
