(* ===== verification/Vis_Schema.thy ===== *)
theory Vis_Schema
  imports Tel_Schema
begin

section \<open>Validation of vision messages\<close>

text \<open>
  \<open>src/src/backend/vis_schema.py\<close>. Beside the checks it shares with the telemetry module,
  \<open>validate_vis_message\<close> demands that a message in any state but Tracking carries a
  near-zero target, and stores exact zeros for it. The field readers and the range check
  of this module are the same code as the telemetry module's and are modelled once, as
  \<open>require_int\<close>, \<open>require_float\<close> and \<open>ensure_in_range\<close>. The theory ends with the exact set of accepted
  payloads and what is stored for each.
\<close>

definition TRACKING_STATE_TRACKING :: int where
  "TRACKING_STATE_TRACKING = 3"

definition NON_TRACKING_ZERO_EPS :: pyfloat where
  "NON_TRACKING_ZERO_EPS = f64 (1 / 1000000)"

definition VIS_REQUIRED_FIELDS :: "string list" where
  "VIS_REQUIRED_FIELDS =
    [''type'', ''seq'', ''timestamp_s'', ''tracking_state'', ''loc_x'', ''loc_y'',
     ''bound_w'', ''bound_h'', ''confidence'']"

definition nonzero_fields ::
  "pyfloat \<Rightarrow> pyfloat \<Rightarrow> pyfloat \<Rightarrow> pyfloat \<Rightarrow> pyfloat \<Rightarrow> string list" where
  \<comment> \<open>the names whose absolute value exceeds the tolerance\<close>
  "nonzero_fields loc_x loc_y bound_w bound_h confidence =
     map fst (filter (\<lambda>(n, v). flt NON_TRACKING_ZERO_EPS (fabs v))
       [(''loc_x'', loc_x), (''loc_y'', loc_y), (''bound_w'', bound_w), (''bound_h'', bound_h),
        (''confidence'', confidence)])"

definition vis_message ::
  "int \<Rightarrow> pyfloat \<Rightarrow> int \<Rightarrow> pyfloat \<Rightarrow> pyfloat \<Rightarrow> pyfloat \<Rightarrow> pyfloat \<Rightarrow> pyfloat \<Rightarrow> pydict" where
  "vis_message seq timestamp_s tracking_state loc_x loc_y bound_w bound_h confidence =
    [(''type'', PStr ''VIS''), (''seq'', PInt seq), (''timestamp_s'', PFloat timestamp_s),
     (''tracking_state'', PInt tracking_state), (''loc_x'', PFloat loc_x),
     (''loc_y'', PFloat loc_y), (''bound_w'', PFloat bound_w), (''bound_h'', PFloat bound_h),
     (''confidence'', PFloat confidence)]"

definition validate_vis_fields :: "pydict \<Rightarrow> pyexc + pydict" where
  "validate_vis_fields p =
     rbind (require_int p ''seq'') (\<lambda>seq.
     rbind (require_float p ''timestamp_s'') (\<lambda>timestamp_s.
     rbind (require_int p ''tracking_state'') (\<lambda>tracking_state.
     rbind (guard_raise (tracking_state \<in> set TRACKING_STATES)
              (ValidationError ''range'' (NotInSet ''tracking_state''))) (\<lambda>_.
     rbind (require_float p ''loc_x'') (\<lambda>loc_x.
     rbind (require_float p ''loc_y'') (\<lambda>loc_y.
     rbind (require_float p ''bound_w'') (\<lambda>bound_w.
     rbind (require_float p ''bound_h'') (\<lambda>bound_h.
     rbind (require_float p ''confidence'') (\<lambda>confidence.
     rbind (ensure_in_range ''loc_x'' loc_x (Fin (- 1)) (Fin 1)) (\<lambda>_.
     rbind (ensure_in_range ''loc_y'' loc_y (Fin (- 1)) (Fin 1)) (\<lambda>_.
     rbind (ensure_in_range ''bound_w'' bound_w (Fin 0) (Fin 1)) (\<lambda>_.
     rbind (ensure_in_range ''bound_h'' bound_h (Fin 0) (Fin 1)) (\<lambda>_.
     rbind (ensure_in_range ''confidence'' confidence (Fin 0) (Fin 1)) (\<lambda>_.
     if tracking_state \<noteq> TRACKING_STATE_TRACKING
     then (let nonzero = nonzero_fields loc_x loc_y bound_w bound_h confidence
           in if nonzero \<noteq> []
              then Inl (ValidationError ''semantics'' (NonZeroFields nonzero tracking_state))
              else Inr (vis_message seq timestamp_s tracking_state
                          (Fin 0) (Fin 0) (Fin 0) (Fin 0) (Fin 0)))
     else Inr (vis_message seq timestamp_s tracking_state
                 loc_x loc_y bound_w bound_h confidence)))))))))))))))"

definition validate_vis_message :: "pyval \<Rightarrow> pyexc + pydict" where
  "validate_vis_message payload =
     (case payload of
        PDict p \<Rightarrow>
          rbind (guard_raise (missing_fields VIS_REQUIRED_FIELDS p = [])
             (ValidationError ''schema'' (MissingFields (missing_fields VIS_REQUIRED_FIELDS p))))
          (\<lambda>_. rbind (guard_raise (dget p ''type'' = Some (PStr ''VIS''))
             (ValidationError ''schema''
                (WrongType (case dget p ''type'' of Some v \<Rightarrow> v | None \<Rightarrow> PNone))))
          (\<lambda>_. validate_vis_fields p))
      | _ \<Rightarrow> Inl (ValidationError ''schema'' NotAnObject))"

subsection \<open>Well-formed messages\<close>

definition zero_target :: "pydict \<Rightarrow> bool" where
  "zero_target d = list_all (\<lambda>f. dget d f = Some (PFloat (Fin 0)))
     [''loc_x'', ''loc_y'', ''bound_w'', ''bound_h'', ''confidence'']"

definition vis_wf :: "pydict \<Rightarrow> bool" where
  "vis_wf d = (map fst d = VIS_REQUIRED_FIELDS \<and> dget d ''type'' = Some (PStr ''VIS'') \<and>
     int_field d ''seq'' (\<lambda>_. True) \<and> float_field d ''timestamp_s'' (\<lambda>_. True) \<and>
     int_field d ''tracking_state'' (\<lambda>t. t \<in> set TRACKING_STATES \<and>
        (t = TRACKING_STATE_TRACKING \<or> zero_target d)) \<and>
     float_field d ''loc_x'' (between (Fin (- 1)) (Fin 1)) \<and>
     float_field d ''loc_y'' (between (Fin (- 1)) (Fin 1)) \<and>
     float_field d ''bound_w'' (between (Fin 0) (Fin 1)) \<and>
     float_field d ''bound_h'' (between (Fin 0) (Fin 1)) \<and>
     float_field d ''confidence'' (between (Fin 0) (Fin 1)))"

lemma vis_message_wf:
  assumes "st \<in> set TRACKING_STATES"
    "st = TRACKING_STATE_TRACKING \<or> (x = Fin 0 \<and> y = Fin 0 \<and> w = Fin 0 \<and> h = Fin 0 \<and> c = Fin 0)"
    "between (Fin (- 1)) (Fin 1) x" "between (Fin (- 1)) (Fin 1) y"
    "between (Fin 0) (Fin 1) w" "between (Fin 0) (Fin 1) h" "between (Fin 0) (Fin 1) c"
  shows "vis_wf (vis_message q t st x y w h c)"
  using assms
  by (auto simp: vis_wf_def vis_message_def VIS_REQUIRED_FIELDS_def int_field_def float_field_def
      zero_target_def)

lemma vis_wf_message:
  assumes "vis_wf d"
  obtains q t st x y w h c where "d = vis_message q t st x y w h c"
    "st \<in> set TRACKING_STATES"
    "st = TRACKING_STATE_TRACKING \<or> (x = Fin 0 \<and> y = Fin 0 \<and> w = Fin 0 \<and> h = Fin 0 \<and> c = Fin 0)"
    "between (Fin (- 1)) (Fin 1) x" "between (Fin (- 1)) (Fin 1) y"
    "between (Fin 0) (Fin 1) w" "between (Fin 0) (Fin 1) h" "between (Fin 0) (Fin 1) c"
proof -
  have ty: "dget d ''type'' = Some (PStr ''VIS'')" using assms by (simp add: vis_wf_def)
  obtain q where q: "dget d ''seq'' = Some (PInt q)"
    using assms by (auto simp: vis_wf_def elim: int_fieldE)
  obtain t where t: "dget d ''timestamp_s'' = Some (PFloat t)"
    using assms by (auto simp: vis_wf_def elim: float_fieldE)
  obtain st where st: "dget d ''tracking_state'' = Some (PInt st)" "st \<in> set TRACKING_STATES"
      "st = TRACKING_STATE_TRACKING \<or> zero_target d"
    using assms by (auto simp: vis_wf_def elim: int_fieldE)
  obtain x where x: "dget d ''loc_x'' = Some (PFloat x)" "between (Fin (- 1)) (Fin 1) x"
    using assms by (auto simp: vis_wf_def elim: float_fieldE)
  obtain y where y: "dget d ''loc_y'' = Some (PFloat y)" "between (Fin (- 1)) (Fin 1) y"
    using assms by (auto simp: vis_wf_def elim: float_fieldE)
  obtain w where w: "dget d ''bound_w'' = Some (PFloat w)" "between (Fin 0) (Fin 1) w"
    using assms by (auto simp: vis_wf_def elim: float_fieldE)
  obtain h where h: "dget d ''bound_h'' = Some (PFloat h)" "between (Fin 0) (Fin 1) h"
    using assms by (auto simp: vis_wf_def elim: float_fieldE)
  obtain c where c: "dget d ''confidence'' = Some (PFloat c)" "between (Fin 0) (Fin 1) c"
    using assms by (auto simp: vis_wf_def elim: float_fieldE)
  have k: "map fst d = VIS_REQUIRED_FIELDS" using assms by (simp add: vis_wf_def)
  have "d = vis_message q t st x y w h c"
    by (rule dict_by_keys)
      (simp_all add: k VIS_REQUIRED_FIELDS_def vis_message_def ty q t st x y w h c)
  then show ?thesis using that st x y w h c by (auto simp: zero_target_def)
qed

lemma eps_pos: "\<exists>e. NON_TRACKING_ZERO_EPS = Fin e \<and> 0 \<le> e"
proof -
  have "0 \<le> rnd (1 / 1000000)" "rnd (1 / 1000000) \<le> 1"
    using rnd_in_unit[of "1 / 1000000"] by simp_all
  moreover from this have "NON_TRACKING_ZERO_EPS = Fin (rnd (1 / 1000000))"
    unfolding NON_TRACKING_ZERO_EPS_def by (intro f64_small big_bound) simp
  ultimately show ?thesis by blast
qed

lemma nonzero_fields_zeros [simp]:
  "nonzero_fields (Fin 0) (Fin 0) (Fin 0) (Fin 0) (Fin 0) = []"
proof -
  obtain e where e: "NON_TRACKING_ZERO_EPS = Fin e" "0 \<le> e" using eps_pos by blast
  then show ?thesis unfolding nonzero_fields_def e by simp
qed

lemma validate_vis_fields_wf: "validate_vis_fields p = Inr r \<Longrightarrow> vis_wf r"
  by (auto simp: validate_vis_fields_def schema_Inr between_def Let_def split: if_splits
      intro!: vis_message_wf)

lemma validate_vis_wf: "validate_vis_message v = Inr r \<Longrightarrow> vis_wf r"
  by (auto simp: validate_vis_message_def validate_vis_fields_wf split: pyval.splits)

lemma validate_vis_fixpoint: "vis_wf r \<Longrightarrow> validate_vis_message (PDict r) = Inr r"
  by (erule vis_wf_message)
    (auto simp: validate_vis_message_def validate_vis_fields_def missing_fields_Nil
      VIS_REQUIRED_FIELDS_def require_int_def require_float_def ensure_in_range_def
      vis_message_def between_def)

subsection \<open>What is accepted\<close>

definition has_int :: "pydict \<Rightarrow> string \<Rightarrow> int \<Rightarrow> bool" where
  \<comment> \<open>a JSON integer, and no boolean\<close>
  "has_int p k n = (dget p k = Some (PInt n))"

definition has_number :: "pydict \<Rightarrow> string \<Rightarrow> pyfloat \<Rightarrow> bool" where
  \<comment> \<open>a JSON number, and no boolean; an integer stands for the nearest float, if it has one\<close>
  "has_number p k f = (case dget p k of Some (PFloat g) \<Rightarrow> g = f | Some (PInt n) \<Rightarrow> float_of_int n = Some f | _ \<Rightarrow> False)"

definition near_zero :: "pyfloat \<Rightarrow> bool" where
  \<comment> \<open>at most one millionth, as a float, off zero\<close>
  "near_zero x = fle (fabs x) (f64 (1 / 1000000))"

lemma read_int_member: "require_int p k = Inr n \<longleftrightarrow> has_int p k n"
proof (cases "dget p k")
  case (Some v)
  then show ?thesis by (cases v) (auto simp: require_int_def has_int_def)
qed (simp add: require_int_def has_int_def)

lemma read_number_member: "require_float p k = Inr f \<longleftrightarrow> has_number p k f"
proof (cases "dget p k")
  case (Some v)
  then show ?thesis by (cases v) (auto simp: require_float_def has_number_def float_result_def split: option.splits)
qed (simp add: require_float_def has_number_def)

lemma member_present: "has_int p k n \<Longrightarrow> dhas p k" "has_number p k f \<Longrightarrow> dhas p k"
  by (auto simp: has_int_def has_number_def dhas_dget split: option.splits)

lemma between_near:
  assumes "between lo hi x"
  shows "flt NON_TRACKING_ZERO_EPS (fabs x) \<longleftrightarrow> \<not> near_zero x"
proof -
  obtain e where "NON_TRACKING_ZERO_EPS = Fin e" using eps_pos by blast
  then show ?thesis using assms unfolding near_zero_def NON_TRACKING_ZERO_EPS_def
    by (cases x; cases lo; cases hi) (auto simp: between_def)
qed

lemma near_fields:
  assumes "between (Fin (- 1)) (Fin 1) x" "between (Fin (- 1)) (Fin 1) y" "between (Fin 0) (Fin 1) w"
    "between (Fin 0) (Fin 1) h" "between (Fin 0) (Fin 1) c"
  shows "nonzero_fields x y w h c = [] \<longleftrightarrow> list_all near_zero [x, y, w, h, c]"
  by (simp add: nonzero_fields_def between_near[OF assms(1)] between_near[OF assms(2)] between_near[OF assms(3)]
      between_near[OF assms(4)] between_near[OF assms(5)])

definition vis_members ::
  "pydict \<Rightarrow> int \<Rightarrow> pyfloat \<Rightarrow> int \<Rightarrow> pyfloat \<Rightarrow> pyfloat \<Rightarrow> pyfloat \<Rightarrow> pyfloat \<Rightarrow> pyfloat \<Rightarrow> bool" where
  \<comment> \<open>specification: an object with these numbers for its members, each in its range\<close>
  "vis_members p q t st x y w h c = (dget p ''type'' = Some (PStr ''VIS'') \<and> has_int p ''seq'' q \<and>
     has_number p ''timestamp_s'' t \<and> has_int p ''tracking_state'' st \<and> 1 \<le> st \<and> st \<le> 4 \<and>
     has_number p ''loc_x'' x \<and> between (Fin (- 1)) (Fin 1) x \<and> has_number p ''loc_y'' y \<and> between (Fin (- 1)) (Fin 1) y \<and>
     has_number p ''bound_w'' w \<and> between (Fin 0) (Fin 1) w \<and> has_number p ''bound_h'' h \<and> between (Fin 0) (Fin 1) h \<and>
     has_number p ''confidence'' c \<and> between (Fin 0) (Fin 1) c)"

lemma fields_accepted:
  assumes "dget p ''type'' = Some (PStr ''VIS'')"
  shows "validate_vis_fields p = Inr r \<longleftrightarrow> (\<exists>q t st x y w h c. vis_members p q t st x y w h c \<and>
    (if st = 3 then r = vis_message q t st x y w h c
     else list_all near_zero [x, y, w, h, c] \<and> r = vis_message q t st (Fin 0) (Fin 0) (Fin 0) (Fin 0) (Fin 0)))"
proof -
  have st: "st \<in> set TRACKING_STATES \<longleftrightarrow> 1 \<le> st \<and> st \<le> 4" for st by (auto simp: TRACKING_STATES_def)
  have e: "validate_vis_fields p = Inr r \<longleftrightarrow> (\<exists>q t st x y w h c. vis_members p q t st x y w h c \<and>
    (if st \<noteq> 3 then nonzero_fields x y w h c = [] \<and> r = vis_message q t st (Fin 0) (Fin 0) (Fin 0) (Fin 0) (Fin 0)
     else r = vis_message q t st x y w h c))"
  proof -
    have tail: "((if k \<noteq> 3 then if nz \<noteq> [] then Inl err else Inr m else Inr m') = Inr r) =
        (if k \<noteq> 3 then nz = [] \<and> r = m else r = m')" for k :: int and nz :: "string list" and err m m'
      by auto
    show ?thesis unfolding validate_vis_fields_def vis_members_def rbind_Inr_iff read_int_member read_number_member
      ensure_in_range_def guard_raise_Inr between_def[symmetric] TRACKING_STATE_TRACKING_def st Let_def tail using assms by blast
  qed
  have n: "vis_members p q t st x y w h c \<Longrightarrow> nonzero_fields x y w h c = [] \<longleftrightarrow> list_all near_zero [x, y, w, h, c]"
    for q t st x y w h c by (rule near_fields) (simp_all add: vis_members_def)
  have "vis_members p q t st x y w h c \<and>
      (if st \<noteq> 3 then nonzero_fields x y w h c = [] \<and> r = vis_message q t st (Fin 0) (Fin 0) (Fin 0) (Fin 0) (Fin 0)
       else r = vis_message q t st x y w h c) \<longleftrightarrow>
    vis_members p q t st x y w h c \<and>
      (if st = 3 then r = vis_message q t st x y w h c
       else list_all near_zero [x, y, w, h, c] \<and> r = vis_message q t st (Fin 0) (Fin 0) (Fin 0) (Fin 0) (Fin 0))"
    for q t st x y w h c using n[of q t st x y w h c] by (cases "st = 3") (simp_all only: simp_thms if_True if_False, blast)
  then show ?thesis unfolding e by (simp only:)
qed

lemma members_complete:
  assumes "vis_members p q t st x y w h c"
  shows "validate_vis_message (PDict p) = validate_vis_fields p"
proof -
  have "dget p ''type'' = Some (PStr ''VIS'')" using assms by (simp add: vis_members_def)
  moreover from this have "dhas p ''type''" by (simp add: dhas_dget)
  then have "missing_fields VIS_REQUIRED_FIELDS p = []"
    using assms by (auto simp: vis_members_def VIS_REQUIRED_FIELDS_def missing_fields_Nil intro: member_present)
  ultimately show ?thesis by (simp add: validate_vis_message_def)
qed

text \<open>
  C37: Exactly which vision messages the backend takes, and as what. A payload is accepted if and
  only if it is an object of type "VIS" with an integer sequence number, a numeric timestamp (the
  code asks for a number and lets NaN and the infinities pass, which the message specification
  forbids), an integer tracking state in 1 to 4, coordinates in \<open>[-1, 1]\<close> and box sides and confidence
  in \<open>[0, 1]\<close>, bounds included, and, in any state but Tracking, a target within \<open>1e-6\<close> of zero. What is
  stored are these numbers, with an exactly zero target outside Tracking; and the messages that can
  be stored are those of the stored form, each of them its own image.
\<close>

theorem validate_vis_image:
  "(validate_vis_message v = Inr r) = (\<exists>p q t st x y w h c. v = PDict p \<and> vis_members p q t st x y w h c \<and>
     (if st = 3 then r = vis_message q t st x y w h c
      else list_all near_zero [x, y, w, h, c] \<and> r = vis_message q t st (Fin 0) (Fin 0) (Fin 0) (Fin 0) (Fin 0))) \<and>
   ((\<exists>u. validate_vis_message u = Inr r) = vis_wf r) \<and> (vis_wf r = (validate_vis_message (PDict r) = Inr r))"
proof (intro conjI)
  show "(validate_vis_message v = Inr r) = (\<exists>p q t st x y w h c. v = PDict p \<and> vis_members p q t st x y w h c \<and>
     (if st = 3 then r = vis_message q t st x y w h c
      else list_all near_zero [x, y, w, h, c] \<and> r = vis_message q t st (Fin 0) (Fin 0) (Fin 0) (Fin 0) (Fin 0)))"
    (is "_ = ?accepted")
  proof
    assume r: "validate_vis_message v = Inr r"
    then obtain p where "v = PDict p" "dget p ''type'' = Some (PStr ''VIS'')" "validate_vis_fields p = Inr r"
      by (cases v) (auto simp: validate_vis_message_def rbind_Inr_iff guard_raise_Inr)
    then show ?accepted by (simp only: fields_accepted) blast
  next
    assume ?accepted
    then obtain p q t st x y w h c where p: "v = PDict p" "vis_members p q t st x y w h c"
      "if st = 3 then r = vis_message q t st x y w h c
       else list_all near_zero [x, y, w, h, c] \<and> r = vis_message q t st (Fin 0) (Fin 0) (Fin 0) (Fin 0) (Fin 0)" by blast
    have ty: "dget p ''type'' = Some (PStr ''VIS'')" using p(2) by (simp add: vis_members_def)
    show "validate_vis_message v = Inr r"
      unfolding p(1) members_complete[OF p(2)] fields_accepted[OF ty] using p(2,3) by (intro exI conjI)
  qed
qed (use validate_vis_wf validate_vis_fixpoint in blast)+

lemma validate_vis_fields_Inl:
  "validate_vis_fields p = Inl e \<Longrightarrow> rejection [''schema'', ''range'', ''semantics''] p e"
  unfolding validate_vis_fields_def
  by (elim rejection_rbind; (auto simp: Let_def split: if_splits intro: rejections);
      (simp add: rejection_def)?)

text \<open>
  Validation of vision messages raises nothing but a validation error with reason
  "schema", "range" or "semantics", except that an object with an integer too large for a
  float raises \<open>OverflowError\<close>.
\<close>

theorem validate_vis_errors:
  assumes "validate_vis_message v = Inl e"
  shows "(\<exists>r d. e = ValidationError r d \<and> r \<in> {''schema'', ''range'', ''semantics''}) \<or>
    (e = OverflowError \<and> (\<exists>p. v = PDict p \<and> has_huge_int p))"
proof -
  have "rejection [''schema'', ''range'', ''semantics''] p e" if "v = PDict p" for p
    using assms that
    by (auto simp: validate_vis_message_def rbind_Inl_iff rejection_def[of _ _ "ValidationError _ _"]
        intro: validate_vis_fields_Inl)
  then show ?thesis using assms
    by (cases v) (auto simp: validate_vis_message_def rejection_def split: pyexc.splits)
qed

theorem validate_vis_errors_witness:
  "\<exists>r d. ValidationError ''semantics'' (NonZeroFields [''loc_x''] 1) = ValidationError r d \<and>
     r \<in> {''schema'', ''range'', ''semantics''}"
proof -
  have e: "flt NON_TRACKING_ZERO_EPS (Fin 1)"
    using f64_mono[of "1 / 1000000" "1 / 16"] f64_exact[of "1 / 16"] rnd_fraction[of 1 4 "1 / 16"]
    by (auto simp: NON_TRACKING_ZERO_EPS_def elim!: fle_flt_trans)
  have n: "nonzero_fields (Fin 1) (Fin 0) (Fin 0) (Fin 0) (Fin 0) = [''loc_x'']"
  proof -
    obtain d where d: "NON_TRACKING_ZERO_EPS = Fin d" "0 \<le> d" using eps_pos by blast
    then show ?thesis using e unfolding nonzero_fields_def d by simp
  qed
  have "validate_vis_message (PDict (vis_message 1 (Fin 0) 1 (Fin 1) (Fin 0) (Fin 0) (Fin 0) (Fin 0)))
      = Inl (ValidationError ''semantics'' (NonZeroFields [''loc_x''] 1))"
    by (simp add: validate_vis_message_def validate_vis_fields_def missing_fields_Nil
        VIS_REQUIRED_FIELDS_def require_int_def require_float_def ensure_in_range_def
        vis_message_def TRACKING_STATES_def TRACKING_STATE_TRACKING_def n)
  from validate_vis_errors[OF this] show ?thesis by simp
qed

text \<open>
  A vision datagram is at most 512 bytes, room enough for an integer of 309 digits: such a
  timestamp raises \<open>OverflowError\<close>, which is not the exception the callers catch.
\<close>

lemma vis_huge_timestamp_overflows:
  assumes "2 ^ 1024 \<le> i"
  shows "validate_vis_message (PDict [(''type'', PStr ''VIS''), (''seq'', PInt 1),
     (''timestamp_s'', PInt i), (''tracking_state'', PInt 1), (''loc_x'', PInt 0),
     (''loc_y'', PInt 0), (''bound_w'', PInt 0), (''bound_h'', PInt 0),
     (''confidence'', PInt 0)]) = Inl OverflowError"
  using float_result_overflow[OF assms]
  by (simp add: validate_vis_message_def validate_vis_fields_def missing_fields_Nil
      VIS_REQUIRED_FIELDS_def require_int_def require_float_def del: float_result_overflow)

end
