(* ===== verification/Json_Text.thy ===== *)
theory Json_Text
  imports Py_Value
begin

section \<open>Compact JSON text\<close>

text \<open>
  \<open>json.dumps(value, separators=(",", ":"))\<close> with the standard \<open>ensure_ascii=True\<close>, which
  \<open>cmd_schema.py\<close> and \<open>udp_vis_sender.py\<close> call before they encode to bytes. The shortest
  decimal representation of a finite float, \<open>float.__repr__\<close>, is the argument \<open>fr\<close>. The
  theory proves that the text is printable ASCII, so that its UTF-8 encoding has one byte
  per character and a frame's length field counts characters.
\<close>

definition digit_char :: "nat \<Rightarrow> char" where
  "digit_char n = char_of (48 + n)"

fun dec_nat :: "nat \<Rightarrow> string" where
  "dec_nat n = (if n < 10 then [digit_char n] else dec_nat (n div 10) @ [digit_char (n mod 10)])"

declare dec_nat.simps [simp del]

definition dec_int :: "int \<Rightarrow> string" where
  "dec_int i = (if i < 0 then CHR ''-'' # dec_nat (nat (- i)) else dec_nat (nat i))"

definition hex_char :: "nat \<Rightarrow> char" where
  "hex_char n = (if n < 10 then char_of (48 + n) else char_of (87 + n))"

definition escape_char :: "char \<Rightarrow> string" where
  "escape_char c = (let n = of_char c :: nat in
     if n = 34 then [CHR 0x5C, CHR 0x22]
     else if n = 92 then [CHR 0x5C, CHR 0x5C]
     else if n = 10 then CHR 0x5C # ''n''
     else if n = 13 then CHR 0x5C # ''r''
     else if n = 9 then CHR 0x5C # ''t''
     else if n = 12 then CHR 0x5C # ''f''
     else if n = 8 then CHR 0x5C # ''b''
     else if 32 \<le> n \<and> n \<le> 126 then [c]
     else CHR 0x5C # ''u00'' @ [hex_char (n div 16), hex_char (n mod 16)])"

definition quote :: "string \<Rightarrow> string" where
  "quote s = CHR 0x22 # concat (map escape_char s) @ [CHR 0x22]"

fun dump_float :: "(real \<Rightarrow> string) \<Rightarrow> pyfloat \<Rightarrow> string" where
  "dump_float fr (Fin r) = fr r"
| "dump_float fr PInf = ''Infinity''"
| "dump_float fr NInf = ''-Infinity''"
| "dump_float fr NaN = ''NaN''"

fun dumps :: "(real \<Rightarrow> string) \<Rightarrow> pyval \<Rightarrow> string"
  and dump_elems :: "(real \<Rightarrow> string) \<Rightarrow> pyval list \<Rightarrow> string"
  and dump_items :: "(real \<Rightarrow> string) \<Rightarrow> (string \<times> pyval) list \<Rightarrow> string" where
  "dumps fr PNone = ''null''"
| "dumps fr (PBool b) = (if b then ''true'' else ''false'')"
| "dumps fr (PInt i) = dec_int i"
| "dumps fr (PFloat f) = dump_float fr f"
| "dumps fr (PStr s) = quote s"
| "dumps fr (PList l) = CHR ''['' # dump_elems fr l @ '']''"
| "dumps fr (PDict d) = CHR 0x7B # dump_items fr d @ [CHR 0x7D]"
| "dump_elems fr [] = []"
| "dump_elems fr (v # vs) = dumps fr v @ (if vs = [] then [] else CHR '','' # dump_elems fr vs)"
| "dump_items fr [] = []"
| "dump_items fr ((k, v) # kvs) =
     quote k @ CHR '':'' # dumps fr v @ (if kvs = [] then [] else CHR '','' # dump_items fr kvs)"

definition utf8_ascii :: "string \<Rightarrow> nat list" where
  \<comment> \<open>\<open>text.encode("utf-8")\<close> for ASCII text\<close>
  "utf8_ascii s = map of_char s"

definition json_bytes :: "(real \<Rightarrow> string) \<Rightarrow> pydict \<Rightarrow> nat list" where
  "json_bytes fr payload = utf8_ascii (dumps fr (PDict payload))"

subsection \<open>The text is printable ASCII\<close>

definition printable :: "string \<Rightarrow> bool" where
  "printable s = list_all (\<lambda>c. 32 \<le> (of_char c :: nat) \<and> (of_char c :: nat) \<le> 126) s"

lemma printable_simps [simp]:
  "printable []"
  "printable (c # s) \<longleftrightarrow> (32 \<le> (of_char c :: nat) \<and> (of_char c :: nat) \<le> 126) \<and> printable s"
  "printable (s @ t) \<longleftrightarrow> printable s \<and> printable t"
  by (auto simp: printable_def)

lemma printable_concat [simp]: "printable (concat ss) \<longleftrightarrow> (\<forall>s\<in>set ss. printable s)"
  by (induction ss) auto

lemma of_char_char_of: "n < 256 \<Longrightarrow> (of_char (char_of n :: char) :: nat) = n"
  by simp

lemma printable_dec_nat: "printable (dec_nat n)"
proof (induction n rule: dec_nat.induct)
  case (1 n)
  then show ?case by (subst dec_nat.simps) (auto simp: digit_char_def of_char_char_of)
qed

lemma printable_dec_int: "printable (dec_int i)"
  by (simp add: dec_int_def printable_dec_nat)

lemma printable_hex: "n < 16 \<Longrightarrow> printable [hex_char n]"
  by (simp add: hex_char_def of_char_char_of)

lemma printable_escape: "printable (escape_char c)"
proof -
  have "(of_char c :: nat) < 256" by (rule nat_of_char_less_256)
  then have "(of_char c :: nat) div 16 < 16" by (simp only: div_less_iff_less_mult)
  then show ?thesis
    using printable_hex[of "of_char c div 16"] printable_hex[of "of_char c mod 16"]
    by (simp add: escape_char_def Let_def)
qed

lemma printable_quote: "printable (quote s)"
  by (auto simp: quote_def printable_escape)

lemma printable_dumps:
  assumes "\<And>r. printable (fr r)"
  shows "printable (dumps fr v)" "printable (dump_elems fr vs)" "printable (dump_items fr kvs)"
  using assms
proof (induction fr v and fr vs and fr kvs rule: dumps_dump_elems_dump_items.induct)
  case (4 fr f)
  then show ?case by (cases f) auto
qed (simp_all add: printable_dec_int printable_quote)

subsection \<open>Printed integers read back\<close>

lemma digit_val_char: "n < 10 \<Longrightarrow> digit_val (digit_char n) = Some n"
  by (simp add: digit_val_def digit_char_def of_char_char_of)

lemma parse_digits_dec:
  "parse_digits p acc (dec_nat n @ ds) = parse_digits True (acc * 10 ^ length (dec_nat n) + n) ds"
proof (induction n arbitrary: p acc ds rule: dec_nat.induct)
  case (1 n)
  show ?case
  proof (cases "n < 10")
    case True
    then show ?thesis by (simp add: dec_nat.simps[of n] digit_val_char mult.commute)
  next
    case False
    then show ?thesis using 1[OF False, of p acc "digit_char (n mod 10) # ds"]
      by (simp add: dec_nat.simps[of n] digit_val_char algebra_simps)
  qed
qed

lemma dec_nat_digits: "list_all (\<lambda>c. digit_val c \<noteq> None) (dec_nat n)"
  by (induction n rule: dec_nat.induct) (subst dec_nat.simps, simp add: digit_val_char)

lemma dec_nat_Cons: "\<exists>c cs. dec_nat n = c # cs \<and> digit_val c \<noteq> None"
  using dec_nat_digits[of n] by (cases "dec_nat n") (simp_all add: dec_nat.simps[of n] split: if_splits)

lemma digit_no_sign: "digit_val c \<noteq> None \<Longrightarrow> c \<noteq> CHR ''-'' \<and> c \<noteq> CHR ''+''"
  by (auto simp: digit_val_def)

lemma digit_no_space: "digit_val c \<noteq> None \<Longrightarrow> \<not> is_space c"
  by (auto simp: digit_val_def is_space_def Let_def split: if_splits)

lemma strip_no_space: "list_all (\<lambda>c. \<not> is_space c) s \<Longrightarrow> strip s = s"
proof -
  assume "list_all (\<lambda>c. \<not> is_space c) s"
  then have "dropWhile is_space s = s" "dropWhile is_space (rev s) = rev s"
    by (auto simp: dropWhile_eq_self_iff list_all_iff hd_rev)
  then show ?thesis by (simp add: strip_def)
qed

text \<open>\<open>int(str(i))\<close> is \<open>i\<close>.\<close>

lemma parse_dec_int: "parse_int (dec_int i) = Some i" "strip (dec_int i) = dec_int i"
proof -
  have d: "parse_digits False 0 (dec_nat n) = Some n" for n
    using parse_digits_dec[of False 0 n "[]"] by simp
  have sp: "list_all (\<lambda>c. \<not> is_space c) (dec_nat n)" for n
    using dec_nat_digits[of n] digit_no_space by (auto simp: list_all_iff)
  have m: "\<not> is_space (CHR ''-'')" by code_simp
  show s: "strip (dec_int i) = dec_int i" using sp m by (auto simp: dec_int_def intro!: strip_no_space)
  obtain c cs where "dec_nat (nat i) = c # cs" "digit_val c \<noteq> None" using dec_nat_Cons by blast
  then show "parse_int (dec_int i) = Some i"
    using d[of "nat (- i)"] d[of "nat i"] digit_no_sign[of c] s
    by (auto simp: parse_int_def dec_int_def split: if_splits)
qed

end
