(* ===== verification/Cmd_Schema.thy ===== *)
theory Cmd_Schema
  imports Vis_Schema Json_Text
begin

section \<open>The command message and its safety gate\<close>

text \<open>
  \<open>src/src/backend/cmd_schema.py\<close>: \<open>build_cmd_payload\<close> turns the operator's intent and the
  vision snapshot into the command sent to the flight controller. Tracking may be commanded
  only with a fresh snapshot; otherwise the command falls back to landing safely.
  \<open>frame_cmd_payload\<close> puts the length-prefixed frame on the wire; \<open>recv_exact\<close> and
  \<open>read_frame\<close> are the flight controller's reader in \<open>src/src/fc/implementation/FrameCodec.cpp\<close>.
\<close>

definition CMD_CONTROL_MODES :: "int list" where
  "CMD_CONTROL_MODES = [0, 1, 2, 3]"

definition MODE_TRACKING :: int where
  "MODE_TRACKING = 1"

definition MODE_LAND_SAFELY :: int where
  "MODE_LAND_SAFELY = 2"

definition DEFAULT_DESIRED_MODE :: int where
  "DEFAULT_DESIRED_MODE = MODE_LAND_SAFELY"

lemmas mode_defs = CMD_CONTROL_MODES_def MODE_TRACKING_def MODE_LAND_SAFELY_def
  DEFAULT_DESIRED_MODE_def

definition TRACKING_REQUIRED :: "string list" where
  "TRACKING_REQUIRED = [''tracking_state'', ''loc_x'', ''loc_y'', ''bound_w'', ''bound_h'',
     ''confidence'', ''seq'', ''timestamp_s'']"

definition int_at :: "pydict \<Rightarrow> string \<Rightarrow> pyexc + int" where
  \<comment> \<open>\<open>int(d[k])\<close>\<close>
  "int_at d k = rbind (dindex d k) py_int"

definition float_at :: "pydict \<Rightarrow> string \<Rightarrow> pyexc + pyfloat" where
  "float_at d k = rbind (dindex d k) py_float"

definition build_tracking_object :: "pydict \<Rightarrow> pyexc + pydict" where
  "build_tracking_object vis_snapshot =
     (let missing = missing_fields TRACKING_REQUIRED vis_snapshot in
      rbind (guard_raise (missing = []) (ValueError (MissingFields missing))) (\<lambda>_.
      rbind (int_at vis_snapshot ''tracking_state'') (\<lambda>tracking_state.
      rbind (float_at vis_snapshot ''loc_x'') (\<lambda>loc_x.
      rbind (float_at vis_snapshot ''loc_y'') (\<lambda>loc_y.
      rbind (float_at vis_snapshot ''bound_w'') (\<lambda>bound_w.
      rbind (float_at vis_snapshot ''bound_h'') (\<lambda>bound_h.
      rbind (float_at vis_snapshot ''confidence'') (\<lambda>confidence.
      rbind (int_at vis_snapshot ''seq'') (\<lambda>vis_seq.
      rbind (float_at vis_snapshot ''timestamp_s'') (\<lambda>vis_timestamp_s.
      Inr [(''tracking_state'', PInt tracking_state), (''loc_x'', PFloat loc_x),
           (''loc_y'', PFloat loc_y), (''bound_w'', PFloat bound_w),
           (''bound_h'', PFloat bound_h), (''confidence'', PFloat confidence),
           (''vis_seq'', PInt vis_seq), (''vis_timestamp_s'', PFloat vis_timestamp_s)]))))))))))"

definition read_intent ::
  "pydict option \<Rightarrow> pyexc + int \<times> bool option \<times> pydict option" where
  \<comment> \<open>the desired mode, the arm flag and the setpoints of the stored intent\<close>
  "read_intent intent =
     (case intent of
        None \<Rightarrow> Inr (DEFAULT_DESIRED_MODE, None, None)
      | Some d \<Rightarrow>
          rbind (int_at d ''desired_mode'') (\<lambda>desired_mode.
          rbind (guard_raise (desired_mode \<in> set CMD_CONTROL_MODES)
            (ValueError (Msg ''desired_mode is outside ControlMode enum''))) (\<lambda>_.
          let arm = (case dget d ''arm'' of
                None \<Rightarrow> None | Some PNone \<Rightarrow> None | Some v \<Rightarrow> Some (py_bool v)) in
          case dget d ''setpoints'' of
            None \<Rightarrow> Inr (desired_mode, arm, None)
          | Some PNone \<Rightarrow> Inr (desired_mode, arm, None)
          | Some (PDict sp) \<Rightarrow> Inr (desired_mode, arm, Some sp)
          | Some _ \<Rightarrow> Inl (ValueError (Msg ''setpoints must be an object'')))))"

definition is_vis_fresh :: "pydict option \<Rightarrow> pyfloat option \<Rightarrow> pyfloat \<Rightarrow> bool" where
  "is_vis_fresh vis_snapshot vis_age_s vis_fresh_s =
     (vis_snapshot \<noteq> None \<and> (case vis_age_s of None \<Rightarrow> False | Some a \<Rightarrow> fle a vis_fresh_s))"

definition build_cmd_payload ::
  "int \<Rightarrow> pyfloat \<Rightarrow> pydict option \<Rightarrow> pydict option \<Rightarrow> pyfloat option \<Rightarrow> pyfloat
   \<Rightarrow> pyexc + pydict \<times> string option" where
  "build_cmd_payload seq timestamp_s intent vis_snapshot vis_age_s vis_fresh_s =
     rbind (guard_raise (\<not> seq < 0) (ValueError (Msg ''seq must be >= 0''))) (\<lambda>_.
     rbind (guard_raise (\<not> flt vis_fresh_s (Fin 0))
       (ValueError (Msg ''vis_fresh_s must be >= 0''))) (\<lambda>_.
     rbind (read_intent intent) (\<lambda>(requested, arm, setpoints).
     let fresh = is_vis_fresh vis_snapshot vis_age_s vis_fresh_s;
         blocked = (requested = MODE_TRACKING \<and> \<not> fresh);
         desired_mode = (if blocked then MODE_LAND_SAFELY else requested);
         blocked_reason = (if blocked
           then Some (if vis_snapshot = None then ''no_vis'' else ''stale_vis'') else None);
         payload = [(''type'', PStr ''CMD''), (''seq'', PInt seq),
             (''timestamp_s'', PFloat timestamp_s), (''desired_mode'', PInt desired_mode)]
           @ (case arm of None \<Rightarrow> [] | Some b \<Rightarrow> [(''arm'', PBool b)])
           @ (case setpoints of None \<Rightarrow> [] | Some sp \<Rightarrow> [(''setpoints'', PDict sp)])
     in case (fresh, vis_snapshot) of
          (True, Some v) \<Rightarrow> rbind (build_tracking_object v)
             (\<lambda>t. Inr (payload @ [(''tracking'', PDict t)], blocked_reason))
        | _ \<Rightarrow> Inr (payload, blocked_reason))))"

subsection \<open>Framing\<close>

definition be32 :: "nat \<Rightarrow> nat list" where
  "be32 n = [n div 2 ^ 24 mod 256, n div 2 ^ 16 mod 256, n div 2 ^ 8 mod 256, n mod 256]"

definition pack_be32 :: "nat \<Rightarrow> pyexc + nat list" where
  \<comment> \<open>\<open>struct.pack(">I", n)\<close>\<close>
  "pack_be32 n = (if n < 2 ^ 32 then Inr (be32 n) else Inl StructError)"

definition frame_cmd_payload :: "(real \<Rightarrow> string) \<Rightarrow> pydict \<Rightarrow> int \<Rightarrow> pyexc + nat list" where
  "frame_cmd_payload fr payload max_payload_bytes =
     (let raw = json_bytes fr payload in
      rbind (guard_raise (1 \<le> length raw \<and> int (length raw) \<le> max_payload_bytes)
        (ValueError (Msg ''CMD payload length out of range''))) (\<lambda>_.
      rbind (pack_be32 (length raw)) (\<lambda>header. Inr (header @ raw))))"

text \<open>
  The reader. A TCP stream is the list of the byte strings that successive \<open>recv\<close> calls could
  return in full; a call that asks for less takes a prefix. An empty one is the peer's close.
\<close>

fun recv_exact :: "nat \<Rightarrow> nat list list \<Rightarrow> (nat list \<times> nat list list) option" where
  "recv_exact n chunks =
     (if n = 0 then Some ([], chunks)
      else case chunks of
        [] \<Rightarrow> None
      | c # cs \<Rightarrow>
          if c = [] then None
          else if length c \<le> n
          then (case recv_exact (n - length c) cs of
                  None \<Rightarrow> None | Some (d, rest) \<Rightarrow> Some (c @ d, rest))
          else Some (take n c, drop n c # cs))"

declare recv_exact.simps [simp del]

definition ntohl :: "nat list \<Rightarrow> nat" where
  "ntohl bs = foldl (\<lambda>acc b. acc * 256 + b) 0 bs"

definition read_frame :: "nat \<Rightarrow> nat list list \<Rightarrow> (nat list \<times> nat list list) option" where
  "read_frame max_len chunks =
     (case recv_exact 4 chunks of
        None \<Rightarrow> None
      | Some (be_len, rest) \<Rightarrow>
          (let len = ntohl be_len in
           if len = 0 \<or> max_len < len then None else recv_exact len rest))"

fun read_frames :: "nat \<Rightarrow> nat \<Rightarrow> nat list list \<Rightarrow> (nat list list \<times> nat list list) option" where
  \<comment> \<open>\<open>n\<close> successive calls of the reader\<close>
  "read_frames max_len 0 chunks = Some ([], chunks)"
| "read_frames max_len (Suc n) chunks =
     (case read_frame max_len chunks of
        None \<Rightarrow> None
      | Some (j, rest) \<Rightarrow> (case read_frames max_len n rest of
            None \<Rightarrow> None | Some (js, rest') \<Rightarrow> Some (j # js, rest')))"

subsection \<open>The safety gate\<close>

lemma read_intent_mode: "read_intent it = Inr (m, a, sp) \<Longrightarrow> m \<in> set CMD_CONTROL_MODES"
  by (auto simp: read_intent_def mode_defs Let_def split: option.splits pyval.splits)

lemma read_intent_None [simp]: "read_intent None = Inr (MODE_LAND_SAFELY, None, None)"
  by (simp add: read_intent_def DEFAULT_DESIRED_MODE_def)

lemma int_at_Inr: "int_at d k = Inr i \<Longrightarrow> \<exists>v. dget d k = Some v \<and> py_int v = Inr i"
  by (auto simp: int_at_def dindex_def split: option.splits)

lemma tracking_object_vis_seq:
  "build_tracking_object v = Inr trk \<Longrightarrow>
   \<exists>x q. dget v ''seq'' = Some x \<and> py_int x = Inr q \<and> dget trk ''vis_seq'' = Some (PInt q)"
  by (auto simp: build_tracking_object_def Let_def dest!: int_at_Inr)

text \<open>The shape of every payload, from which the properties are read off.\<close>

lemma build_cmd_payloadE:
  assumes "build_cmd_payload q t it vis age fresh_s = Inr (p, b)"
  obtains r a sp tail where "read_intent it = Inr (r, a, sp)" "0 \<le> q" "\<not> flt fresh_s (Fin 0)"
    "p = [(''type'', PStr ''CMD''), (''seq'', PInt q), (''timestamp_s'', PFloat t),
       (''desired_mode'', PInt (if r = MODE_TRACKING \<and> \<not> is_vis_fresh vis age fresh_s
          then MODE_LAND_SAFELY else r))]
     @ (case a of None \<Rightarrow> [] | Some b \<Rightarrow> [(''arm'', PBool b)])
     @ (case sp of None \<Rightarrow> [] | Some s \<Rightarrow> [(''setpoints'', PDict s)]) @ tail"
    "if is_vis_fresh vis age fresh_s
     then \<exists>v trk. vis = Some v \<and> build_tracking_object v = Inr trk \<and> tail = [(''tracking'', PDict trk)]
     else tail = []"
    "b = (if r = MODE_TRACKING \<and> \<not> is_vis_fresh vis age fresh_s
        then Some (if vis = None then ''no_vis'' else ''stale_vis'') else None)"
proof -
  from assms obtain r a sp where r: "read_intent it = Inr (r, a, sp)"
    by (auto simp: build_cmd_payload_def)
  have ok: "0 \<le> q" "\<not> flt fresh_s (Fin 0)"
    using assms by (auto simp: build_cmd_payload_def)
  show thesis
  proof (cases "is_vis_fresh vis age fresh_s")
    case True
    then obtain v where v: "vis = Some v" by (auto simp: is_vis_fresh_def)
    with assms r ok True obtain trk where trk: "build_tracking_object v = Inr trk"
      by (auto simp: build_cmd_payload_def Let_def)
    show thesis
      by (rule that[OF r ok, of "[(''tracking'', PDict trk)]"])
        (use assms r ok True v trk in \<open>simp_all add: build_cmd_payload_def Let_def\<close>)
  next
    case False
    show thesis
      by (rule that[OF r ok, of "[]"])
        (use assms r ok False in \<open>simp_all add: build_cmd_payload_def Let_def\<close>)
  qed
qed

lemma build_cmd_desired_mode:
  assumes "build_cmd_payload q t it vis age fresh_s = Inr (p, b)" "read_intent it = Inr (r, a, sp)"
  shows "dget p ''desired_mode'' = Some (PInt (if r = MODE_TRACKING \<and> \<not> is_vis_fresh vis age fresh_s
          then MODE_LAND_SAFELY else r))"
  using assms(1)
proof (cases rule: build_cmd_payloadE)
  case (1 r' a' sp' tail)
  then show ?thesis using assms(2) by simp
qed

lemma build_cmd_tracking:
  assumes "build_cmd_payload q t it vis age fresh_s = Inr (p, b)"
  shows "if is_vis_fresh vis age fresh_s
    then \<exists>v trk. vis = Some v \<and> build_tracking_object v = Inr trk \<and> dget p ''tracking'' = Some (PDict trk)
    else \<not> dhas p ''tracking''"
  using assms
proof (cases rule: build_cmd_payloadE)
  case (1 r a sp tail)
  then show ?thesis
    by (auto simp: dget_append dhas_dget split: option.splits if_splits)
qed

lemma build_cmd_fresh:
  assumes "build_cmd_payload q t it vis age fresh_s = Inr (p, b)"
    and "dget p ''desired_mode'' = Some (PInt MODE_TRACKING)"
  shows "\<exists>v ag trk x n. vis = Some v \<and> age = Some ag \<and> fle ag fresh_s \<and>
      dget p ''tracking'' = Some (PDict trk) \<and> dget v ''seq'' = Some x \<and> py_int x = Inr n \<and>
      dget trk ''vis_seq'' = Some (PInt n)"
  using assms(1)
proof (cases rule: build_cmd_payloadE)
  case (1 r a sp tail)
  have "is_vis_fresh vis age fresh_s"
    using build_cmd_desired_mode[OF assms(1) 1(1)] assms(2) by (auto simp: mode_defs split: if_splits)
  then show ?thesis
    using build_cmd_tracking[OF assms(1)] tracking_object_vis_seq
    by (fastforce simp: is_vis_fresh_def split: option.splits)
qed

definition tracks_snapshot :: "pydict \<Rightarrow> pydict \<Rightarrow> bool" where
  \<comment> \<open>specification: the target has the members of the protocol, each the snapshot's value of the
    same name, the sequence number and the time under their own names\<close>
  "tracks_snapshot v trk = (map fst trk = [''tracking_state'', ''loc_x'', ''loc_y'', ''bound_w'', ''bound_h'',
       ''confidence'', ''vis_seq'', ''vis_timestamp_s''] \<and>
     list_all (\<lambda>(k, k'). case int_at v k of Inr n \<Rightarrow> dget trk k' = Some (PInt n) | Inl _ \<Rightarrow> False)
       [(''tracking_state'', ''tracking_state''), (''seq'', ''vis_seq'')] \<and>
     list_all (\<lambda>(k, k'). case float_at v k of Inr f \<Rightarrow> dget trk k' = Some (PFloat f) | Inl _ \<Rightarrow> False)
       [(''loc_x'', ''loc_x''), (''loc_y'', ''loc_y''), (''bound_w'', ''bound_w''), (''bound_h'', ''bound_h''),
        (''confidence'', ''confidence''), (''timestamp_s'', ''vis_timestamp_s'')])"

lemma tracking_object_tracks: "build_tracking_object v = Inr trk \<Longrightarrow> tracks_snapshot v trk"
  by (auto simp: build_tracking_object_def tracks_snapshot_def Let_def)

lemma build_cmd_head:
  assumes "build_cmd_payload q t it vis age fresh_s = Inr (p, b)" "read_intent it = Inr (r, a, sp)"
  shows "dget p ''type'' = Some (PStr ''CMD'')" "dget p ''seq'' = Some (PInt q)" "dget p ''timestamp_s'' = Some (PFloat t)"
    "dget p ''arm'' = map_option PBool a" "dget p ''setpoints'' = map_option PDict sp"
proof -
  have "dget p ''type'' = Some (PStr ''CMD'') \<and> dget p ''seq'' = Some (PInt q) \<and>
      dget p ''timestamp_s'' = Some (PFloat t) \<and> dget p ''arm'' = map_option PBool a \<and>
      dget p ''setpoints'' = map_option PDict sp"
    using assms(1)
  proof (cases rule: build_cmd_payloadE)
    case (1 r' a' sp' tail)
    have e: "a' = a" "sp' = sp" using 1(1) assms(2) by simp_all
    have "dget tail ''arm'' = None" "dget tail ''setpoints'' = None" using 1(5) by (auto split: if_splits)
    then show ?thesis unfolding 1(4) e by (cases a; cases sp) (simp_all add: dget_append)
  qed
  then show "dget p ''type'' = Some (PStr ''CMD'')" "dget p ''seq'' = Some (PInt q)" "dget p ''timestamp_s'' = Some (PFloat t)"
    "dget p ''arm'' = map_option PBool a" "dget p ''setpoints'' = map_option PDict sp" by simp_all
qed

text \<open>
  C11: The safety gate. The command carries the mode, the arming and the setpoints of the intent
  (to land when there is none), except that tracking is commanded only if a vision snapshot
  exists whose age is within the freshness limit: a tracking request without one becomes a
  landing command, and the reason of the block is returned; nothing else is ever overridden.
  With a fresh snapshot the command carries its target, every member the snapshot's value of
  its name, and without one it carries no target.
\<close>

theorem cmd_safety_gate:
  assumes "build_cmd_payload q t it vis age fresh_s = Inr (p, b)"
  shows "\<exists>r a sp m. read_intent it = Inr (r, a, sp) \<and> m \<in> set CMD_CONTROL_MODES \<and>
    dget p ''type'' = Some (PStr ''CMD'') \<and> dget p ''seq'' = Some (PInt q) \<and> dget p ''timestamp_s'' = Some (PFloat t) \<and>
    dget p ''desired_mode'' = Some (PInt m) \<and> dget p ''arm'' = map_option PBool a \<and>
    dget p ''setpoints'' = map_option PDict sp \<and> (it = None \<longrightarrow> m = MODE_LAND_SAFELY) \<and>
    (case (vis, age) of
       (Some v, Some ag) \<Rightarrow>
         if fle ag fresh_s
         then m = r \<and> b = None \<and> (\<exists>trk. dget p ''tracking'' = Some (PDict trk) \<and> tracks_snapshot v trk)
         else \<not> dhas p ''tracking'' \<and>
           (if r = MODE_TRACKING then m = MODE_LAND_SAFELY \<and> b = Some ''stale_vis'' else m = r \<and> b = None)
     | _ \<Rightarrow> \<not> dhas p ''tracking'' \<and>
         (if r = MODE_TRACKING then m = MODE_LAND_SAFELY \<and> b = Some (if vis = None then ''no_vis'' else ''stale_vis'')
          else m = r \<and> b = None))"
  using assms
proof (cases rule: build_cmd_payloadE)
  case (1 r a sp tail)
  let ?f = "is_vis_fresh vis age fresh_s"
  let ?m = "if r = MODE_TRACKING \<and> \<not> ?f then MODE_LAND_SAFELY else r"
  have mode: "dget p ''desired_mode'' = Some (PInt ?m)" by (rule build_cmd_desired_mode[OF assms 1(1)])
  have set: "?m \<in> set CMD_CONTROL_MODES" using read_intent_mode[OF 1(1)] by (simp add: mode_defs)
  have "it = None \<longrightarrow> ?m = MODE_LAND_SAFELY" using 1(1) by auto
  moreover have "if ?f then \<exists>v trk. vis = Some v \<and> dget p ''tracking'' = Some (PDict trk) \<and> tracks_snapshot v trk
      else \<not> dhas p ''tracking''"
    using build_cmd_tracking[OF assms] tracking_object_tracks by (auto split: if_splits)
  ultimately show ?thesis using 1(1) mode set build_cmd_head[OF assms 1(1)] 1(6)
    by (intro exI[of _ r] exI[of _ a] exI[of _ sp] exI[of _ ?m])
      (cases vis; cases age; auto simp: is_vis_fresh_def)
qed

text \<open>A snapshot of a target, used by the witnesses.\<close>

definition sample_vis :: pydict where
  "sample_vis = vis_message 3 (Fin 9) 3 (Fin (1/2)) (Fin 0) (Fin (1/4)) (Fin (1/4)) (Fin 1)"

definition sample_tracking :: pydict where
  "sample_tracking = [(''tracking_state'', PInt 3), (''loc_x'', PFloat (Fin (1/2))),
     (''loc_y'', PFloat (Fin 0)), (''bound_w'', PFloat (Fin (1/4))), (''bound_h'', PFloat (Fin (1/4))),
     (''confidence'', PFloat (Fin 1)), (''vis_seq'', PInt 3), (''vis_timestamp_s'', PFloat (Fin 9))]"

definition sample_cmd :: "int \<Rightarrow> pydict" where
  "sample_cmd m = [(''type'', PStr ''CMD''), (''seq'', PInt 7), (''timestamp_s'', PFloat (Fin 9)),
     (''desired_mode'', PInt m)]"

lemma sample_tracking_built: "build_tracking_object sample_vis = Inr sample_tracking"
  by (simp add: build_tracking_object_def sample_vis_def sample_tracking_def vis_message_def
      missing_fields_def TRACKING_REQUIRED_def int_at_def float_at_def dindex_def)

lemma sample_cmd_built:
  "build_cmd_payload 7 (Fin 9) (Some [(''desired_mode'', PInt 1)]) (Some sample_vis)
     (Some (Fin (1/8))) (Fin (1/4)) = Inr (sample_cmd 1 @ [(''tracking'', PDict sample_tracking)], None)"
  "build_cmd_payload 7 (Fin 9) (Some [(''desired_mode'', PInt 1)]) (Some sample_vis)
     (Some (Fin 1)) (Fin (1/4)) = Inr (sample_cmd 2, Some ''stale_vis'')"
  by (simp_all add: build_cmd_payload_def read_intent_def int_at_def dindex_def mode_defs is_vis_fresh_def
      Let_def sample_tracking_built sample_cmd_def)

theorem cmd_safety_gate_witness:
  "build_cmd_payload 7 (Fin 9) (Some [(''desired_mode'', PInt 1)]) (Some sample_vis)
     (Some (Fin (1/8))) (Fin (1/4)) = Inr (sample_cmd 1 @ [(''tracking'', PDict sample_tracking)], None) \<and>
   (\<exists>trk. dget (sample_cmd 1 @ [(''tracking'', PDict sample_tracking)]) ''tracking'' = Some (PDict trk) \<and>
      tracks_snapshot sample_vis trk)"
  using cmd_safety_gate[OF sample_cmd_built(1)] sample_cmd_built(1) by auto

subsection \<open>Valid inputs never raise\<close>

definition intent_wf :: "pydict \<Rightarrow> bool" where
  \<comment> \<open>the intents that \<open>app.py\<close> stores\<close>
  "intent_wf d = ((case dget d ''desired_mode'' of Some (PInt m) \<Rightarrow> m \<in> set CMD_CONTROL_MODES | _ \<Rightarrow> False) \<and>
     (case dget d ''setpoints'' of None \<Rightarrow> True | Some PNone \<Rightarrow> True | Some (PDict _) \<Rightarrow> True | _ \<Rightarrow> False))"

lemma read_intent_wf: "intent_wf d \<Longrightarrow> \<exists>r a sp. read_intent (Some d) = Inr (r, a, sp)"
  by (auto simp: intent_wf_def read_intent_def int_at_def dindex_def Let_def
      split: option.splits pyval.splits)

lemma vis_wf_tracking_object: "vis_wf v \<Longrightarrow> \<exists>trk. build_tracking_object v = Inr trk"
  by (erule vis_wf_message)
    (simp add: build_tracking_object_def vis_message_def missing_fields_def TRACKING_REQUIRED_def
      int_at_def float_at_def dindex_def)

text \<open>
  On a stored intent, a stored vision message, a non-negative sequence number and a
  non-negative freshness limit the builder returns: a tick of the command bridge cannot be
  ended by the data the other threads store.
\<close>

theorem build_cmd_returns:
  assumes "0 \<le> q" "\<not> flt fresh_s (Fin 0)"
    and "\<forall>d. it = Some d \<longrightarrow> intent_wf d" "\<forall>v. vis = Some v \<longrightarrow> vis_wf v"
  shows "\<exists>p b. build_cmd_payload q t it vis age fresh_s = Inr (p, b)"
proof -
  obtain r a sp where r: "read_intent it = Inr (r, a, sp)"
    using assms(3) read_intent_wf by (cases it) (simp, blast)
  show ?thesis
  proof (cases vis)
    case None
    then show ?thesis using assms r by (simp add: build_cmd_payload_def Let_def is_vis_fresh_def)
  next
    case (Some v)
    then obtain trk where "build_tracking_object v = Inr trk"
      using assms(4) vis_wf_tracking_object by blast
    then show ?thesis using assms(1,2) r Some
      by (cases "is_vis_fresh vis age fresh_s") (simp_all add: build_cmd_payload_def Let_def)
  qed
qed

theorem build_cmd_returns_witness:
  "\<exists>p b. build_cmd_payload 0 (Fin 1) (Some [(''desired_mode'', PInt 3)]) None None (Fin 0) = Inr (p, b)"
  using build_cmd_returns[of 0 "Fin 0" "Some [(''desired_mode'', PInt 3)]" None "Fin 1" None]
  by (simp add: intent_wf_def mode_defs)

subsection \<open>Frames on the wire\<close>

lemma recv_exact_0 [simp]: "recv_exact 0 cs = Some ([], cs)"
  by (simp add: recv_exact.simps)

text \<open>What the reader gets depends on the bytes, not on how they were split.\<close>

lemma recv_exact_concat:
  assumes "[] \<notin> set cs" "n \<le> length (concat cs)"
  shows "\<exists>rest. recv_exact n cs = Some (take n (concat cs), rest) \<and>
    concat rest = drop n (concat cs) \<and> [] \<notin> set rest"
  using assms
proof (induction cs arbitrary: n)
  case (Cons c cs)
  show ?case
  proof (cases "n = 0 \<or> n < length c")
    case True
    then show ?thesis using Cons.prems by (auto simp: recv_exact.simps[of n])
  next
    case False
    then have "n - length c \<le> length (concat cs)" using Cons.prems by auto
    then obtain rest where "recv_exact (n - length c) cs = Some (take (n - length c) (concat cs), rest)"
      "concat rest = drop (n - length c) (concat cs)" "[] \<notin> set rest"
      using Cons.IH[of "n - length c"] Cons.prems by auto
    moreover have "c \<noteq> []" using Cons.prems by auto
    ultimately show ?thesis using False Cons.prems by (simp add: recv_exact.simps[of n])
  qed
qed simp

lemma ntohl_be32:
  assumes "n < 2 ^ 32"
  shows "ntohl (be32 n) = n"
proof -
  have "n div 2 ^ 24 mod 256 = n div 2 ^ 24"
    using assms by (simp add: div_less_iff_less_mult)
  moreover have "n div 2 ^ 16 = n div 2 ^ 24 * 256 + n div 2 ^ 16 mod 256"
    using div_mult_mod_eq[of "n div 2 ^ 16" 256] by (simp add: div_mult2_eq[symmetric])
  moreover have "n div 2 ^ 8 = n div 2 ^ 16 * 256 + n div 2 ^ 8 mod 256"
    using div_mult_mod_eq[of "n div 2 ^ 8" 256] by (simp add: div_mult2_eq[symmetric])
  moreover have "n = n div 2 ^ 8 * 256 + n mod 256" using div_mult_mod_eq[of n 256] by simp
  ultimately show ?thesis unfolding ntohl_def be32_def by simp
qed

lemma frame_cmd_payloadE:
  assumes "frame_cmd_payload fr p mx = Inr f"
  obtains "f = be32 (length (json_bytes fr p)) @ json_bytes fr p" "0 < length (json_bytes fr p)"
    "int (length (json_bytes fr p)) \<le> mx" "length (json_bytes fr p) < 2 ^ 32"
  using assms by (fastforce simp: frame_cmd_payload_def pack_be32_def Let_def split: if_splits)

lemma read_frame_frame:
  assumes f: "frame_cmd_payload fr p mx = Inr f" and mx: "mx \<le> int max_len"
    and cs: "[] \<notin> set cs" "concat cs = f @ tail_bytes"
  shows "\<exists>rest. read_frame max_len cs = Some (json_bytes fr p, rest) \<and> concat rest = tail_bytes \<and> [] \<notin> set rest"
  using f
proof (cases rule: frame_cmd_payloadE)
  case 1
  let ?raw = "json_bytes fr p"
  have h: "length (be32 (length ?raw)) = 4" by (simp add: be32_def)
  obtain r1 where r1: "recv_exact 4 cs = Some (be32 (length ?raw), r1)" "concat r1 = ?raw @ tail_bytes"
    "[] \<notin> set r1"
    using recv_exact_concat[OF cs(1), of 4] cs(2) 1(1) h by auto
  obtain r2 where r2: "recv_exact (length ?raw) r1 = Some (?raw, r2)" "concat r2 = tail_bytes" "[] \<notin> set r2"
    using recv_exact_concat[OF r1(3), of "length ?raw"] r1(2) by auto
  have "\<not> max_len < length ?raw" using 1(3) mx by linarith
  then show ?thesis using r1(1) r2 1(2) ntohl_be32[OF 1(4)]
    by (simp add: read_frame_def)
qed

text \<open>
  Framing is a round trip. However TCP splits the bytes of any sequence of command frames,
  the flight controller's reader returns exactly the JSON texts that were framed, in order,
  and leaves the stream at the end of the last frame, as long as its limit is no smaller
  than the backend's.
\<close>

theorem frames_roundtrip:
  assumes "list_all2 (\<lambda>p f. frame_cmd_payload fr p mx = Inr f) ps fs" "mx \<le> int max_len"
    and "[] \<notin> set chunks" "concat chunks = concat fs @ tail_bytes"
  shows "\<exists>rest. read_frames max_len (length ps) chunks = Some (map (json_bytes fr) ps, rest) \<and>
    concat rest = tail_bytes"
  using assms
proof (induction arbitrary: chunks rule: list_all2_induct)
  case (Cons p ps f fs)
  obtain r1 where r1: "read_frame max_len chunks = Some (json_bytes fr p, r1)"
    "concat r1 = concat fs @ tail_bytes" "[] \<notin> set r1"
    using read_frame_frame[OF Cons.hyps(1) Cons.prems(1,2), of "concat fs @ tail_bytes"] Cons.prems(3) by auto
  from Cons.IH[OF Cons.prems(1) r1(3,2)] r1(1) show ?case by auto
qed simp

text \<open>The witness: two frames, the first cut after three bytes.\<close>

definition ping :: "int \<Rightarrow> pydict" where
  "ping q = [(''seq'', PInt q)]"

definition ping_frame :: "int \<Rightarrow> nat list" where
  "ping_frame q = [0, 0, 0, 9, 123, 34, 115, 101, 113, 34, 58, 48 + nat q, 125]"

lemma ping_framed: "q \<in> {1, 2} \<Longrightarrow> frame_cmd_payload fr (ping q) 4096 = Inr (ping_frame q)"
proof -
  have "json_bytes fr (ping 1) = drop 4 (ping_frame 1)" "json_bytes fr (ping 2) = drop 4 (ping_frame 2)"
    by (simp_all add: json_bytes_def ping_def quote_def escape_char_def dec_int_def dec_nat.simps
        digit_char_def utf8_ascii_def ping_frame_def Let_def of_char_char_of)
  then show "q \<in> {1, 2} \<Longrightarrow> ?thesis"
    by (auto simp: frame_cmd_payload_def pack_be32_def be32_def ping_frame_def)
qed

theorem frames_roundtrip_witness:
  "\<exists>rest. read_frames 4096 2 [take 3 (ping_frame 1), drop 3 (ping_frame 1) @ ping_frame 2] =
     Some ([json_bytes (\<lambda>_. ''0'') (ping 1), json_bytes (\<lambda>_. ''0'') (ping 2)], rest) \<and> concat rest = []"
  using frames_roundtrip[of "\<lambda>_. ''0''" 4096 "[ping 1, ping 2]" "[ping_frame 1, ping_frame 2]" 4096
      "[take 3 (ping_frame 1), drop 3 (ping_frame 1) @ ping_frame 2]" "[]"]
  by (simp add: ping_framed) (simp add: ping_frame_def numeral_2_eq_2)

text \<open>
  Every frame obeys the wire format: a four-byte header with the length of the body, at
  most the configured number of body bytes, each a printable ASCII character, and a payload
  whose text is longer is refused with a \<open>ValueError\<close>.
\<close>

lemma frame_bounds:
  assumes "\<And>r. printable (fr r)"
  shows "case frame_cmd_payload fr p mx of
      Inr f \<Rightarrow> 4 < length f \<and> int (length f) \<le> mx + 4 \<and> ntohl (take 4 f) = length f - 4 \<and>
        list_all (\<lambda>b. b < 256) f \<and> list_all (\<lambda>b. 32 \<le> b \<and> b \<le> 126) (drop 4 f)
    | Inl e \<Rightarrow> int (length (json_bytes fr p)) > mx \<or> length (json_bytes fr p) \<ge> 2 ^ 32"
proof (cases "frame_cmd_payload fr p mx")
  case (Inl e)
  have "json_bytes fr p \<noteq> []" by (simp add: json_bytes_def utf8_ascii_def)
  then have "Suc 0 \<le> length (json_bytes fr p)" by (cases "json_bytes fr p") auto
  with Inl show ?thesis
    by (auto simp: frame_cmd_payload_def pack_be32_def Let_def rbind_Inl_iff split: if_splits)
next
  case (Inr f)
  have "printable (dumps fr (PDict p))" by (rule printable_dumps(1)) (rule assms)
  then have body: "list_all (\<lambda>b. 32 \<le> b \<and> b \<le> 126) (json_bytes fr p)"
    by (simp add: json_bytes_def utf8_ascii_def printable_def list_all_iff)
  then have "list_all (\<lambda>b. b < 256) (json_bytes fr p)" by (auto simp: list_all_iff)
  moreover have "list_all (\<lambda>b. b < 256) (be32 n)" "length (be32 n) = 4" for n by (simp_all add: be32_def)
  ultimately show ?thesis
    using Inr body by (auto elim!: frame_cmd_payloadE simp: ntohl_be32)
qed

lemma frame_bounds_witness:
  "case frame_cmd_payload (\<lambda>_. ''0.5'') (ping 1) 4096 of
      Inr f \<Rightarrow> 4 < length f \<and> ntohl (take 4 f) = length f - 4 | Inl e \<Rightarrow> False"
  using frame_bounds[of "\<lambda>_. ''0.5''" 4096 "ping 1"] by (simp add: ping_framed)

end
