(* ===== verification/Reason_Log.thy ===== *)
theory Reason_Log
  imports Py_Value
begin

section \<open>Rate-limited logging\<close>

text \<open>
  Two throttled loggers. \<open>log_reason\<close> is \<open>_DropReasonLogger.log\<close> of
  \<open>src/src/backend/tel_ingest.py\<close>, which \<open>vis_ingest.py\<close> and, with an injected clock,
  \<open>_BridgeReasonLogger\<close> of \<open>cmd_bridge.py\<close> repeat. \<open>log_rate_limited\<close> is the method of
  \<open>src/src/vision/udp_vis_sender.py\<close> and \<open>frame_pusher.py\<close>, which recognises a fresh bucket
  by a last-log time of zero instead of a counter. What a call writes is an \<open>emission\<close>:
  nothing, or a line that reports how many calls were suppressed since the last line. The
  interface \<open>throttled_log\<close> states that no call is lost.
\<close>

datatype emission = Quiet | Line nat

subsection \<open>The backend's logger\<close>

record log_bucket =
  seen :: nat
  suppressed :: nat
  last_log_monotonic_s :: pyfloat

definition new_bucket :: log_bucket where
  "new_bucket = \<lparr> seen = 0, suppressed = 0, last_log_monotonic_s = Fin 0 \<rparr>"

type_synonym reason_log = "string \<Rightarrow> log_bucket option"

definition bucket_of :: "reason_log \<Rightarrow> string \<Rightarrow> log_bucket" where
  \<comment> \<open>\<open>self._buckets.setdefault(reason, _DropLogBucket())\<close>\<close>
  "bucket_of l reason = (case l reason of None \<Rightarrow> new_bucket | Some b \<Rightarrow> b)"

definition log_reason ::
  "pyfloat \<Rightarrow> reason_log \<Rightarrow> string \<times> pyfloat \<Rightarrow> emission \<times> reason_log" where
  "log_reason min_interval_s l call =
     (let (reason, now_s) = call;
          b0 = bucket_of l reason;
          b = b0\<lparr> seen := seen b0 + 1 \<rparr>;
          should_log = (seen b = 1 \<or> fle min_interval_s (Fin 0)
             \<or> fle min_interval_s (fsub now_s (last_log_monotonic_s b)))
      in if should_log
         then (Line (suppressed b),
               l(reason \<mapsto> b\<lparr> suppressed := 0, last_log_monotonic_s := now_s \<rparr>))
         else (Quiet, l(reason \<mapsto> b\<lparr> suppressed := suppressed b + 1 \<rparr>)))"

subsection \<open>The vision process's logger\<close>

record vlog_bucket =
  last_log_s :: pyfloat
  vsuppressed :: nat

definition new_vbucket :: vlog_bucket where
  "new_vbucket = \<lparr> last_log_s = Fin 0, vsuppressed = 0 \<rparr>"

type_synonym vlog = "string \<Rightarrow> vlog_bucket option"

definition vbucket_of :: "vlog \<Rightarrow> string \<Rightarrow> vlog_bucket" where
  "vbucket_of l key = (case l key of None \<Rightarrow> new_vbucket | Some b \<Rightarrow> b)"

definition log_rate_limited ::
  "pyfloat \<Rightarrow> vlog \<Rightarrow> string \<times> pyfloat \<Rightarrow> emission \<times> vlog" where
  "log_rate_limited log_interval_s l call =
     (let (key, now_s) = call;
          b = vbucket_of l key;
          should_log = (feq (last_log_s b) (Fin 0) \<or> fle log_interval_s (Fin 0)
             \<or> fle log_interval_s (fsub now_s (last_log_s b)))
      in if should_log
         then (Line (vsuppressed b), l(key \<mapsto> b\<lparr> vsuppressed := 0, last_log_s := now_s \<rparr>))
         else (Quiet, l(key \<mapsto> b\<lparr> vsuppressed := vsuppressed b + 1 \<rparr>)))"

subsection \<open>Interface: a throttled log\<close>

fun line_weight :: "emission \<Rightarrow> nat" where
  \<comment> \<open>the calls a line accounts for: itself and the suppressed ones it reports\<close>
  "line_weight Quiet = 0"
| "line_weight (Line n) = n + 1"

locale throttled_log =
  fixes log :: "'s \<Rightarrow> string \<times> pyfloat \<Rightarrow> emission \<times> 's"
    and pending :: "'s \<Rightarrow> string \<Rightarrow> nat"
  assumes log_line: "log s (k, t) = (Line n, s') \<Longrightarrow> n = pending s k \<and> pending s' k = 0"
    and log_quiet: "log s (k, t) = (Quiet, s') \<Longrightarrow> pending s' k = pending s k + 1"
    and log_other: "k' \<noteq> k \<Longrightarrow> pending (snd (log s (k, t))) k' = pending s k'"
begin

fun log_all :: "'s \<Rightarrow> (string \<times> pyfloat) list \<Rightarrow> (string \<times> emission) list \<times> 's" where
  "log_all s [] = ([], s)"
| "log_all s (c # cs) =
     (let (e, s1) = log s c; (es, s2) = log_all s1 cs in ((fst c, e) # es, s2))"

definition accounted :: "string \<Rightarrow> (string \<times> emission) list \<Rightarrow> nat" where
  "accounted k es = sum_list (map (\<lambda>(k', e). if k' = k then line_weight e else 0) es)"

lemma log_step:
  assumes "log s c = (e, s1)"
  shows "pending s k + (if fst c = k then 1 else 0)
     = (if fst c = k then line_weight e else 0) + pending s1 k"
proof (cases c)
  case (Pair j t)
  show ?thesis
  proof (cases "j = k")
    case True
    then show ?thesis using assms Pair by (cases e) (auto dest: log_line log_quiet)
  next
    case False
    then show ?thesis using assms Pair log_other[of k j s t] by simp
  qed
qed

lemma no_call_lost:
  "log_all s cs = (es, s') \<Longrightarrow>
   pending s k + length (filter (\<lambda>c. fst c = k) cs) = accounted k es + pending s' k"
proof (induction cs arbitrary: s es s')
  case (Cons c cs)
  obtain e s1 where 1: "log s c = (e, s1)" by fastforce
  obtain es2 s2 where 2: "log_all s1 cs = (es2, s2)" by fastforce
  have e: "es = (fst c, e) # es2" "s' = s2" using Cons.prems 1 2 by simp_all
  show ?case unfolding e using Cons.IH[OF 2] log_step[OF 1, of k] by (auto simp: accounted_def)
qed (simp add: accounted_def)

end

definition pending_reason :: "reason_log \<Rightarrow> string \<Rightarrow> nat" where
  "pending_reason l k = suppressed (bucket_of l k)"

definition pending_key :: "vlog \<Rightarrow> string \<Rightarrow> nat" where
  "pending_key l k = vsuppressed (vbucket_of l k)"

interpretation rlog: throttled_log "log_reason i" pending_reason for i
  by unfold_locales
    (auto simp: log_reason_def pending_reason_def bucket_of_def Let_def split: if_splits)

interpretation vlogi: throttled_log "log_rate_limited i" pending_key for i
  by unfold_locales
    (auto simp: log_rate_limited_def pending_key_def vbucket_of_def Let_def split: if_splits)

text \<open>
  Neither throttled logger loses a call: over any sequence of calls, those for a key are
  exactly the lines written for it, the suppressed calls these lines report, and the calls
  still pending.
\<close>

theorem loggers_lose_no_call:
  "length (filter (\<lambda>c. fst c = k) cs)
     = rlog.accounted k (fst (rlog.log_all i Map.empty cs))
       + pending_reason (snd (rlog.log_all i Map.empty cs)) k
   \<and> length (filter (\<lambda>c. fst c = k) cs)
     = vlogi.accounted k (fst (vlogi.log_all i Map.empty cs))
       + pending_key (snd (vlogi.log_all i Map.empty cs)) k"
  using rlog.no_call_lost[of i Map.empty cs _ _ k] vlogi.no_call_lost[of i Map.empty cs _ _ k]
  by (simp add: pending_reason_def pending_key_def bucket_of_def vbucket_of_def new_bucket_def
      new_vbucket_def prod_eq_iff)

text \<open>A line is written at once for a new reason, and afterwards only when the interval has passed.\<close>

lemma log_reason_line:
  "fst (log_reason i l (r, t)) \<noteq> Quiet \<longleftrightarrow>
     seen (bucket_of l r) = 0 \<or> fle i (Fin 0) \<or> fle i (fsub t (last_log_monotonic_s (bucket_of l r)))"
  by (simp add: log_reason_def Let_def)

end
