(* ===== verification/Ingest.thy ===== *)
theory Ingest
  imports Vis_Schema Reason_Log
begin

section \<open>Datagram ingestion\<close>

text \<open>
  \<open>process_datagram\<close> and the receive loop of \<open>src/src/backend/tel_ingest.py\<close> and
  \<open>vis_ingest.py\<close>. The two classes are the same code over different counters and schemas;
  the handler is written once over a record of the channel's operations and instantiated
  twice. \<open>loads\<close> stands for \<open>json.loads(data.decode("utf-8"))\<close>: \<open>None\<close> is the two decoding
  errors that the handler catches. The callbacks \<open>on_valid\<close> and \<open>on_drop\<close> are the last
  thing a call does, so they are recorded as events for their owner, the broadcaster.
\<close>

datatype ingest_event =
  ValidMsg pydict pyfloat
| DropMsg string detail

record ingestor =
  ist :: shared_state
  drop_log :: reason_log
  ievents :: "ingest_event list"

record channel =
  ch_validate :: "pyval \<Rightarrow> pyexc + pydict"
  ch_rx_total :: "shared_state \<Rightarrow> shared_state"
  ch_drop :: "string \<Rightarrow> (pyexc, shared_state, unit) eff"
  ch_ok :: "pydict \<Rightarrow> pyfloat \<Rightarrow> (pyexc, shared_state, unit) eff"

definition on_state :: "(pyexc, shared_state, 'a) eff \<Rightarrow> (pyexc, ingestor, 'a) eff" where
  "on_state m s = (let (r, t) = m (ist s) in (r, s\<lparr> ist := t \<rparr>))"

definition emit :: "ingest_event \<Rightarrow> (pyexc, ingestor, unit) eff" where
  "emit ev = emodify (\<lambda>s. s\<lparr> ievents := ievents s @ [ev] \<rparr>)"

definition drop_datagram ::
  "channel \<Rightarrow> pyfloat \<Rightarrow> pyfloat \<Rightarrow> string \<Rightarrow> detail \<Rightarrow> (pyexc, ingestor, bool) eff" where
  \<comment> \<open>count, log, call back, return False\<close>
  "drop_datagram ch log_interval clk reason d =
     ebind (on_state (ch_drop ch reason))
     (\<lambda>_. ebind (emodify (\<lambda>s. s\<lparr> drop_log := snd (log_reason log_interval (drop_log s) (reason, clk)) \<rparr>))
     (\<lambda>_. ebind (emit (DropMsg reason d))
     (\<lambda>_. ereturn False)))"

definition ingest_datagram ::
  "channel \<Rightarrow> (nat list \<Rightarrow> pyval option) \<Rightarrow> int \<Rightarrow> pyfloat \<Rightarrow> pyfloat \<Rightarrow> nat list \<Rightarrow> pyfloat
   \<Rightarrow> (pyexc, ingestor, bool) eff" where
  "ingest_datagram ch loads max_bytes log_interval clk data rx_s =
     ebind (on_state (emodify (ch_rx_total ch)))
     (\<lambda>_. if max_bytes < int (length data)
          then drop_datagram ch log_interval clk ''oversize''
                 (DatagramLength (int (length data)) max_bytes)
          else case loads data of
            None \<Rightarrow> drop_datagram ch log_interval clk ''json'' DecodeError
          | Some payload \<Rightarrow>
              (case ch_validate ch payload of
                 Inl (ValidationError reason d) \<Rightarrow> drop_datagram ch log_interval clk reason d
               | Inl e \<Rightarrow> (\<lambda>s. (Inl e, s))
               | Inr validated \<Rightarrow>
                   ebind (on_state (ch_ok ch validated rx_s))
                   (\<lambda>_. ebind (emit (ValidMsg validated rx_s))
                   (\<lambda>_. ereturn True))))"

definition tel_channel :: channel where
  "tel_channel = \<lparr> ch_validate = validate_tel_message, ch_rx_total = record_tel_rx_total,
     ch_drop = record_tel_drop, ch_ok = record_tel_ok \<rparr>"

definition vis_channel :: channel where
  "vis_channel = \<lparr> ch_validate = validate_vis_message, ch_rx_total = record_vis_rx_total,
     ch_drop = record_vis_drop, ch_ok = record_vis_ok \<rparr>"

definition tel_process_datagram where
  "tel_process_datagram = ingest_datagram tel_channel"

definition vis_process_datagram where
  "vis_process_datagram = ingest_datagram vis_channel"

subsection \<open>The receive loop\<close>

datatype recv =
  Datagram "nat list" pyfloat \<comment> \<open>bytes and the clock after \<open>recvfrom\<close>\<close>
| RecvTimeout
| RecvError bool \<comment> \<open>an \<open>OSError\<close>, and whether the stop event is set then\<close>

fun serve ::
  "(nat list \<Rightarrow> pyfloat \<Rightarrow> (pyexc, ingestor, bool) eff) \<Rightarrow> recv list \<Rightarrow> (pyexc, ingestor, unit) eff" where
  \<comment> \<open>\<open>serve_forever\<close> on the socket's outcomes until the stop event ends the list\<close>
  "serve handle [] s = (Inr (), s)"
| "serve handle (RecvTimeout # rs) s = serve handle rs s"
| "serve handle (RecvError stopped # rs) s = (if stopped then (Inr (), s) else serve handle rs s)"
| "serve handle (Datagram data t # rs) s =
     (case handle data t s of
        (Inl e, s') \<Rightarrow> (Inl e, s')
      | (Inr _, s') \<Rightarrow> serve handle rs s')"

definition cut_datagram :: "int \<Rightarrow> recv \<Rightarrow> recv" where
  \<comment> \<open>\<open>recvfrom(max_bytes + 1)\<close> returns no more than that\<close>
  "cut_datagram max_bytes r = (case r of Datagram data t \<Rightarrow> Datagram (take (nat (max_bytes + 1)) data) t | _ \<Rightarrow> r)"

definition serve_forever ::
  "channel \<Rightarrow> bool \<Rightarrow> (nat list \<Rightarrow> pyval option) \<Rightarrow> int \<Rightarrow> pyfloat \<Rightarrow> pyfloat \<Rightarrow> recv list
   \<Rightarrow> (pyexc, ingestor, unit) eff" where
  \<comment> \<open>\<open>binds\<close>: the port is free; a negative buffer size is refused by the first \<open>recvfrom\<close>\<close>
  "serve_forever ch binds loads max_bytes log_interval clk rs s =
     (if \<not> binds then (Inl OSError, s)
      else if max_bytes + 1 < 0 \<and> rs \<noteq> [] then (Inl (ValueError (Msg ''negative buffersize in recvfrom'')), s)
      else serve (ingest_datagram ch loads max_bytes log_interval clk) (map (cut_datagram max_bytes) rs) s)"

definition tel_serve_forever where
  "tel_serve_forever = serve_forever tel_channel"

definition vis_serve_forever where
  "vis_serve_forever = serve_forever vis_channel"

lemma cut_fits: "int (length data) \<le> mx \<Longrightarrow> cut_datagram mx (Datagram data t) = Datagram data t"
  by (simp add: cut_datagram_def)

lemma cut_oversize:
  \<comment> \<open>the cut never makes an oversize datagram fit\<close>
  "0 \<le> mx + 1 \<Longrightarrow> mx < int (length (take (nat (mx + 1)) data)) \<longleftrightarrow> mx < int (length data)"
  by (auto simp: min_def)

subsection \<open>Interface: an ingestion channel\<close>

text \<open>
  What the handler needs of a channel: the validator's reasons are ones the drop counter
  knows, counting a drop and storing a validated message never raise, and each call moves
  exactly its own counters. \<open>total\<close>, \<open>good\<close> and \<open>bad\<close> read the three counters.
\<close>

locale ingest_channel =
  fixes ch :: channel
    and reasons :: "string list"
    and total :: "shared_state \<Rightarrow> nat"
    and good :: "shared_state \<Rightarrow> nat"
    and bad :: "shared_state \<Rightarrow> nat"
  assumes validate_errors: "ch_validate ch v = Inl e \<Longrightarrow>
      (\<exists>r d. e = ValidationError r d \<and> r \<in> set reasons) \<or> e = OverflowError"
    and builtin_reasons: "''oversize'' \<in> set reasons" "''json'' \<in> set reasons"
    and drop_ok: "r \<in> set reasons \<Longrightarrow> fst (ch_drop ch r s) = Inr ()"
    and drop_counts: "r \<in> set reasons \<Longrightarrow> bad (snd (ch_drop ch r s)) = bad s + 1
      \<and> good (snd (ch_drop ch r s)) = good s \<and> total (snd (ch_drop ch r s)) = total s"
    and ok_ok: "ch_validate ch v = Inr m \<Longrightarrow> fst (ch_ok ch m t s) = Inr ()"
    and ok_counts: "ch_validate ch v = Inr m \<Longrightarrow> good (snd (ch_ok ch m t s)) = good s + 1
      \<and> bad (snd (ch_ok ch m t s)) = bad s \<and> total (snd (ch_ok ch m t s)) = total s"
    and total_counts: "total (ch_rx_total ch s) = total s + 1
      \<and> good (ch_rx_total ch s) = good s \<and> bad (ch_rx_total ch s) = bad s"
begin

definition balanced :: "ingestor \<Rightarrow> bool" where
  \<comment> \<open>every received datagram is counted as good or bad\<close>
  "balanced s = (total (ist s) = good (ist s) + bad (ist s))"

lemma drop_datagram_eq:
  assumes "r \<in> set reasons"
  shows "\<exists>s'. drop_datagram ch i clk r d s = (Inr False, s') \<and> ist s' = snd (ch_drop ch r (ist s))
    \<and> ievents s' = ievents s @ [DropMsg r d]"
proof -
  obtain s1 where "ch_drop ch r (ist s) = (Inr (), s1)"
    using drop_ok[OF assms, of "ist s"] by (cases "ch_drop ch r (ist s)") simp
  then show ?thesis by (simp add: drop_datagram_def on_state_def emit_def ebind_def)
qed

lemma ok_eq:
  assumes "ch_validate ch v = Inr m"
  shows "\<exists>s'. ebind (on_state (ch_ok ch m t)) (\<lambda>_. ebind (emit (ValidMsg m t)) (\<lambda>_. ereturn True)) s
      = (Inr True, s') \<and> ist s' = snd (ch_ok ch m t (ist s))
    \<and> ievents s' = ievents s @ [ValidMsg m t]"
proof -
  obtain s1 where "ch_ok ch m t (ist s) = (Inr (), s1)"
    using ok_ok[OF assms, of t "ist s"] by (cases "ch_ok ch m t (ist s)") simp
  then show ?thesis by (simp add: on_state_def emit_def ebind_def)
qed

text \<open>The three ways a datagram can go.\<close>

lemma ingest_cases:
  fixes loads mx i clk data t s
  defines "s1 \<equiv> s\<lparr> ist := ch_rx_total ch (ist s) \<rparr>"
  obtains (dropped) r d s' where "ingest_datagram ch loads mx i clk data t s = (Inr False, s')"
      "r \<in> set reasons" "ist s' = snd (ch_drop ch r (ist s1))"
      "ievents s' = ievents s @ [DropMsg r d]"
  | (raised) "ingest_datagram ch loads mx i clk data t s = (Inl OverflowError, s1)"
  | (stored) v m s' where "ingest_datagram ch loads mx i clk data t s = (Inr True, s')"
      "int (length data) \<le> mx \<and> loads data = Some v" "ch_validate ch v = Inr m"
      "ist s' = snd (ch_ok ch m t (ist s1))" "ievents s' = ievents s @ [ValidMsg m t]"
proof -
  have pre: "ingest_datagram ch loads mx i clk data t s =
      (if mx < int (length data)
       then drop_datagram ch i clk ''oversize'' (DatagramLength (int (length data)) mx)
       else case loads data of None \<Rightarrow> drop_datagram ch i clk ''json'' DecodeError
          | Some payload \<Rightarrow> (case ch_validate ch payload of
                 Inl (ValidationError r d) \<Rightarrow> drop_datagram ch i clk r d
               | Inl e \<Rightarrow> (\<lambda>s. (Inl e, s))
               | Inr m \<Rightarrow> ebind (on_state (ch_ok ch m t))
                   (\<lambda>_. ebind (emit (ValidMsg m t)) (\<lambda>_. ereturn True)))) s1"
    by (simp add: ingest_datagram_def ebind_def on_state_def s1_def)
  have drop: thesis if "ingest_datagram ch loads mx i clk data t s = drop_datagram ch i clk r d s1"
      "r \<in> set reasons" for r d
    using drop_datagram_eq[OF that(2), of i clk d s1] that dropped by (auto simp: s1_def)
  consider (big) "mx < int (length data)" | (bad) "\<not> mx < int (length data)" "loads data = None"
    | (val) v where "\<not> mx < int (length data)" "loads data = Some v" by blast
  then show thesis
  proof cases
    case big
    then show ?thesis using drop builtin_reasons(1) unfolding pre by simp
  next
    case bad
    then show ?thesis using drop builtin_reasons(2) unfolding pre by simp
  next
    case val
    show ?thesis
    proof (cases "ch_validate ch v")
      case (Inr m)
      then show ?thesis using ok_eq[OF Inr, of t s1] val stored unfolding pre
        by (fastforce simp: s1_def)
    next
      case (Inl e)
      from validate_errors[OF Inl] show ?thesis
        using Inl val drop raised unfolding pre by auto
    qed
  qed
qed

lemma ingest_balanced:
  assumes "balanced s" "ingest_datagram ch loads mx i clk data t s = (Inr b, s')"
  shows "balanced s'"
proof -
  let ?u = "ch_rx_total ch (ist s)"
  have one: "total ?u = good ?u + bad ?u + 1"
    using assms(1) total_counts[of "ist s"] by (simp add: balanced_def)
  show ?thesis
  proof (cases rule: ingest_cases[of loads mx i clk data t s])
    case (dropped r d s'')
    then show ?thesis using assms(2) one drop_counts[of r ?u] by (simp add: balanced_def)
  next
    case raised
    then show ?thesis using assms(2) by simp
  next
    case (stored v m s'')
    then show ?thesis using assms(2) one ok_counts[OF stored(3), of t ?u] by (simp add: balanced_def)
  qed
qed

lemma ingest_raises:
  assumes "balanced s" "ingest_datagram ch loads mx i clk data t s = (Inl e, s')"
  shows "e = OverflowError \<and> total (ist s') = good (ist s') + bad (ist s') + 1"
  by (cases rule: ingest_cases[of loads mx i clk data t s])
    (use assms total_counts[of "ist s"] in \<open>auto simp: balanced_def\<close>)

lemma serve_outcome:
  assumes "balanced s"
  shows "case serve (ingest_datagram ch loads mx i clk) rs s of
      (Inr _, s') \<Rightarrow> balanced s'
    | (Inl e, s') \<Rightarrow> e = OverflowError \<and> total (ist s') = good (ist s') + bad (ist s') + 1"
  using assms
proof (induction rs arbitrary: s)
  case (Cons r rs)
  show ?case
  proof (cases r)
    case (Datagram data t)
    obtain q s1 where h: "ingest_datagram ch loads mx i clk data t s = (q, s1)" by fastforce
    show ?thesis
    proof (cases q)
      case (Inl e)
      then show ?thesis using ingest_raises[OF Cons.prems, of loads mx i clk data t] Datagram h by simp
    next
      case (Inr x)
      then show ?thesis using ingest_balanced[OF Cons.prems, of loads mx i clk data t] Cons.IH[of s1] Datagram h by simp
    qed
  qed (use Cons in simp_all)
qed simp

end

subsection \<open>The two channels\<close>

lemma tel_wf_seq_ts:
  assumes "tel_wf m"
  obtains q t where "dget m ''seq'' = Some (PInt q)" "dget m ''timestamp_s'' = Some (PFloat t)"
  using assms by (auto simp: tel_wf_def elim!: int_fieldE float_fieldE)

lemma vis_wf_seq_ts:
  assumes "vis_wf m"
  obtains q t where "dget m ''seq'' = Some (PInt q)" "dget m ''timestamp_s'' = Some (PFloat t)"
  using assms by (auto simp: vis_wf_def elim!: int_fieldE float_fieldE)

lemma record_tel_ok_eq:
  assumes "dget m ''seq'' = Some (PInt q)" "dget m ''timestamp_s'' = Some (PFloat ts)"
  shows "record_tel_ok m t s = (Inr (), s\<lparr> latest_tel := Some m, tel_seq := q,
     tel_rx_ok := tel_rx_ok s + 1, tel_last_seq := q, tel_last_timestamp_s := Some ts,
     tel_last_rx_monotonic_s := Some t \<rparr>)"
  by (simp add: record_tel_ok_def eff_unfold dget_or_def assms)

lemma record_vis_ok_eq:
  assumes "dget m ''seq'' = Some (PInt q)" "dget m ''timestamp_s'' = Some (PFloat ts)"
  shows "record_vis_ok m t s = (Inr (), s\<lparr> latest_vis := Some m, vis_seq := q,
     vis_rx_ok := vis_rx_ok s + 1, vis_last_seq := q, vis_last_timestamp_s := Some ts,
     vis_last_rx_monotonic_s := Some t \<rparr>)"
  by (simp add: record_vis_ok_def eff_unfold dget_or_def assms)

interpretation teli: ingest_channel tel_channel "[''oversize'', ''json'', ''schema'', ''range'']"
  tel_rx_total tel_rx_ok tel_rx_bad
proof unfold_locales
  fix v :: pyval and e :: pyexc
  assume "ch_validate tel_channel v = Inl e"
  then have "validate_tel_message v = Inl e" by (simp add: tel_channel_def)
  then show "(\<exists>r d. e = ValidationError r d \<and> r \<in> set [''oversize'', ''json'', ''schema'', ''range''])
      \<or> e = OverflowError"
    by (cases v) (auto simp: validate_tel_message_def rbind_Inl_iff rejection_def
        dest!: validate_tel_fields_Inl split: pyexc.splits)
next
  fix v :: pyval and m t s
  assume "ch_validate tel_channel v = Inr m"
  then have "tel_wf m" by (auto simp: tel_channel_def dest: validate_tel_wf)
  then obtain q ts where "dget m ''seq'' = Some (PInt q)" "dget m ''timestamp_s'' = Some (PFloat ts)"
    by (rule tel_wf_seq_ts)
  from record_tel_ok_eq[OF this]
  show "fst (ch_ok tel_channel m t s) = Inr ()"
    and "tel_rx_ok (snd (ch_ok tel_channel m t s)) = tel_rx_ok s + 1
      \<and> tel_rx_bad (snd (ch_ok tel_channel m t s)) = tel_rx_bad s
      \<and> tel_rx_total (snd (ch_ok tel_channel m t s)) = tel_rx_total s"
    by (simp_all add: tel_channel_def)
qed (auto simp: tel_channel_def record_tel_drop_def TEL_DROP_REASONS_def bump_tel_reason_def
      record_tel_rx_total_def)

interpretation visi: ingest_channel vis_channel
  "[''oversize'', ''json'', ''schema'', ''range'', ''semantics'']"
  vis_rx_total vis_rx_ok vis_rx_bad
proof unfold_locales
  fix v :: pyval and e :: pyexc
  assume "ch_validate vis_channel v = Inl e"
  then have "validate_vis_message v = Inl e" by (simp add: vis_channel_def)
  then show "(\<exists>r d. e = ValidationError r d \<and>
      r \<in> set [''oversize'', ''json'', ''schema'', ''range'', ''semantics'']) \<or> e = OverflowError"
    by (cases v) (auto simp: validate_vis_message_def rbind_Inl_iff rejection_def
        dest!: validate_vis_fields_Inl split: pyexc.splits)
next
  fix v :: pyval and m t s
  assume "ch_validate vis_channel v = Inr m"
  then have "vis_wf m" by (auto simp: vis_channel_def dest: validate_vis_wf)
  then obtain q ts where "dget m ''seq'' = Some (PInt q)" "dget m ''timestamp_s'' = Some (PFloat ts)"
    by (rule vis_wf_seq_ts)
  from record_vis_ok_eq[OF this]
  show "fst (ch_ok vis_channel m t s) = Inr ()"
    and "vis_rx_ok (snd (ch_ok vis_channel m t s)) = vis_rx_ok s + 1
      \<and> vis_rx_bad (snd (ch_ok vis_channel m t s)) = vis_rx_bad s
      \<and> vis_rx_total (snd (ch_ok vis_channel m t s)) = vis_rx_total s"
    by (simp_all add: vis_channel_def)
qed (auto simp: vis_channel_def record_vis_drop_def VIS_DROP_REASONS_def bump_vis_reason_def
      record_vis_rx_total_def)

definition fresh_ingestor :: "shared_state \<Rightarrow> ingestor" where
  "fresh_ingestor s = \<lparr> ist = s, drop_log = Map.empty, ievents = [] \<rparr>"

text \<open>
  Every datagram is counted exactly once. Whatever the sockets deliver, in what order, and
  whatever the size limit is set to: while the receive loop runs, and when it is stopped, the
  datagrams received are those accepted plus those rejected. If it ends with an exception before
  it is stopped, either nothing was received at all (the port was taken, the limit negative) or
  the one datagram that raised the \<open>OverflowError\<close> is the only one in neither count.
\<close>

theorem serve_counts_balanced:
  "(case vis_serve_forever binds loads mx i clk rs (fresh_ingestor (fresh_state q)) of
      (Inr _, s) \<Rightarrow> vis_rx_total (ist s) = vis_rx_ok (ist s) + vis_rx_bad (ist s)
    | (Inl e, s) \<Rightarrow> if e = OverflowError then vis_rx_total (ist s) = vis_rx_ok (ist s) + vis_rx_bad (ist s) + 1
        else s = fresh_ingestor (fresh_state q)) \<and>
   (case tel_serve_forever binds loads mx i clk rs (fresh_ingestor (fresh_state q)) of
      (Inr _, s) \<Rightarrow> tel_rx_total (ist s) = tel_rx_ok (ist s) + tel_rx_bad (ist s)
    | (Inl e, s) \<Rightarrow> if e = OverflowError then tel_rx_total (ist s) = tel_rx_ok (ist s) + tel_rx_bad (ist s) + 1
        else s = fresh_ingestor (fresh_state q))"
proof -
  have b: "visi.balanced (fresh_ingestor (fresh_state q))" "teli.balanced (fresh_ingestor (fresh_state q))"
    by (simp_all add: visi.balanced_def teli.balanced_def fresh_ingestor_def fresh_state_def)
  show ?thesis
    using visi.serve_outcome[OF b(1), of loads mx i clk "map (cut_datagram mx) rs"]
      teli.serve_outcome[OF b(2), of loads mx i clk "map (cut_datagram mx) rs"]
    by (auto simp: vis_serve_forever_def tel_serve_forever_def serve_forever_def visi.balanced_def teli.balanced_def
        split: prod.splits sum.splits)
qed

text \<open>
  A vision datagram that is accepted is one that fits the size limit, decodes and
  validates; it replaces the stored snapshot and its receive time and is announced once. One
  that is rejected, or that makes the handler raise, leaves the stored snapshot alone.
\<close>

theorem vis_process_datagram_outcomes:
  "case vis_process_datagram loads mx i clk data t s of
     (Inr True, s') \<Rightarrow> \<exists>v m. int (length data) \<le> mx \<and> loads data = Some v \<and>
        validate_vis_message v = Inr m \<and> latest_vis (ist s') = Some m \<and>
        vis_last_rx_monotonic_s (ist s') = Some t \<and> ievents s' = ievents s @ [ValidMsg m t] \<and>
        vis_rx_ok (ist s') = vis_rx_ok (ist s) + 1 \<and> vis_rx_bad (ist s') = vis_rx_bad (ist s)
   | (Inr False, s') \<Rightarrow> \<exists>r d. latest_vis (ist s') = latest_vis (ist s) \<and>
        vis_last_rx_monotonic_s (ist s') = vis_last_rx_monotonic_s (ist s) \<and>
        ievents s' = ievents s @ [DropMsg r d] \<and>
        vis_rx_ok (ist s') = vis_rx_ok (ist s) \<and> vis_rx_bad (ist s') = vis_rx_bad (ist s) + 1
   | (Inl e, s') \<Rightarrow> e = OverflowError \<and>
        s' = s\<lparr> ist := record_vis_rx_total (ist s) \<rparr>"
proof -
  let ?s1 = "s\<lparr> ist := record_vis_rx_total (ist s) \<rparr>"
  have drop: "latest_vis (snd (record_vis_drop r z)) = latest_vis z"
    "vis_last_rx_monotonic_s (snd (record_vis_drop r z)) = vis_last_rx_monotonic_s z" for r z
    by (simp_all add: record_vis_drop_def bump_vis_reason_def)
  show ?thesis
  proof (cases rule: visi.ingest_cases[of loads mx i clk data t s])
    case (dropped r d s')
    then show ?thesis using visi.drop_counts[of r "ist ?s1"]
      by (simp add: vis_process_datagram_def vis_channel_def drop record_vis_rx_total_def)
  next
    case raised
    then show ?thesis by (simp add: vis_process_datagram_def vis_channel_def)
  next
    case (stored v m s')
    have "vis_wf m" using stored(3) by (auto simp: vis_channel_def dest: validate_vis_wf)
    then obtain q ts where "dget m ''seq'' = Some (PInt q)"
      "dget m ''timestamp_s'' = Some (PFloat ts)" by (rule vis_wf_seq_ts)
    from record_vis_ok_eq[OF this] stored show ?thesis
      by (simp add: vis_process_datagram_def vis_channel_def record_vis_rx_total_def)
  qed
qed

text \<open>
  A single vision datagram with an over-large integer ends the receive loop: the
  \<open>OverflowError\<close> is not caught, and nothing that arrives afterwards is ever read.
\<close>

theorem vis_overflow_ends_loop:
  assumes "int (length data) \<le> mx" "loads data = Some v"
    and "validate_vis_message v = Inl OverflowError"
  shows "vis_serve_forever True loads mx i clk (Datagram data t # rs) s =
    (Inl OverflowError, s\<lparr> ist := record_vis_rx_total (ist s) \<rparr>)"
  using assms
  by (simp add: vis_serve_forever_def serve_forever_def cut_fits ingest_datagram_def vis_channel_def ebind_def on_state_def)

text \<open>The witness: a timestamp of \<open>2 ^ 1024\<close>, a 309-digit number in a datagram of 420 bytes.\<close>

definition huge_vis :: pyval where
  "huge_vis = PDict [(''type'', PStr ''VIS''), (''seq'', PInt 1),
     (''timestamp_s'', PInt (2 ^ 1024)), (''tracking_state'', PInt 1), (''loc_x'', PInt 0),
     (''loc_y'', PInt 0), (''bound_w'', PInt 0), (''bound_h'', PInt 0), (''confidence'', PInt 0)]"

theorem vis_overflow_ends_loop_witness:
  "vis_serve_forever True (\<lambda>_. Some huge_vis) 512 (Fin 5) (Fin 0)
     [Datagram (replicate 420 48) (Fin 0), Datagram [] (Fin 1)] (fresh_ingestor (fresh_state 0))
   = (Inl OverflowError, (fresh_ingestor (fresh_state 0))
        \<lparr> ist := record_vis_rx_total (fresh_state 0) \<rparr>)"
proof -
  have "validate_vis_message huge_vis = Inl OverflowError"
    unfolding huge_vis_def by (rule vis_huge_timestamp_overflows) simp
  from vis_overflow_ends_loop[OF _ _ this, of "replicate 420 48" 512 "\<lambda>_. Some huge_vis"]
  show ?thesis by (simp add: fresh_ingestor_def)
qed

end
