(* ===== verification/Cmd_Bridge.thy ===== *)
theory Cmd_Bridge
  imports Cmd_Schema Ingest
begin

section \<open>The command bridge\<close>

text \<open>
  \<open>src/src/backend/cmd_bridge.py\<close>: the thread that connects to the flight controller and
  sends it one command per tick. The bridge's fields are a record; the socket is the flag
  \<open>sock_open\<close> with the frames it took in \<open>wire\<close>, and what the world decides during an
  iteration (the clock, whether \<open>connect\<close> and \<open>sendall\<close> succeed, what the other threads do to
  the shared state between two reads, whether \<open>stop\<close> closed the socket) is the record
  \<open>tick_env\<close>. The two callbacks, whose exceptions are caught, are events in \<open>bevents\<close>.
\<close>

subsection \<open>Configuration and state\<close>

record bridge_config =
  tick_hz :: pyfloat
  vis_fresh_s :: pyfloat
  max_payload_bytes :: int
  connect_timeout_s :: pyfloat
  connect_backoff_initial_s :: pyfloat
  connect_backoff_max_s :: pyfloat
  log_interval_s :: pyfloat

datatype bridge_event =
  ConnectionChange bool
| TrackingBlocked string
| Waited pyfloat

record cmd_bridge =
  bst :: shared_state
  sock_open :: bool
  wire :: "nat list list"
  next_connect_attempt_s :: pyfloat
  connect_backoff_s :: pyfloat
  last_fc_connected :: bool
  last_tracking_blocked_reason :: "string option"
  blog :: reason_log
  bevents :: "bridge_event list"

definition check_bridge_config :: "bridge_config \<Rightarrow> pyexc + unit" where
  "check_bridge_config cfg =
     rbind (guard_raise (\<not> fle (tick_hz cfg) (Fin 0))
       (ValueError (Msg ''tick_hz must be > 0''))) (\<lambda>_.
     rbind (guard_raise (\<not> flt (vis_fresh_s cfg) (Fin 0))
       (ValueError (Msg ''vis_fresh_s must be >= 0''))) (\<lambda>_.
     rbind (guard_raise (\<not> max_payload_bytes cfg \<le> 0)
       (ValueError (Msg ''max_payload_bytes must be > 0''))) (\<lambda>_.
     rbind (guard_raise (\<not> fle (connect_timeout_s cfg) (Fin 0))
       (ValueError (Msg ''connect_timeout_s must be > 0''))) (\<lambda>_.
     rbind (guard_raise (\<not> fle (connect_backoff_initial_s cfg) (Fin 0))
       (ValueError (Msg ''connect_backoff_initial_s must be > 0''))) (\<lambda>_.
     rbind (guard_raise (\<not> flt (connect_backoff_max_s cfg) (connect_backoff_initial_s cfg))
       (ValueError (Msg ''connect_backoff_max_s must be >= connect_backoff_initial_s''))) (\<lambda>_.
     guard_raise (\<not> flt (log_interval_s cfg) (Fin 0))
       (ValueError (Msg ''log_interval_s must be >= 0''))))))))"

definition new_cmd_bridge ::
  "bridge_config \<Rightarrow> int option \<Rightarrow> shared_state \<Rightarrow> pyexc + cmd_bridge" where
  "new_cmd_bridge cfg seq_start s =
     rbind (check_bridge_config cfg) (\<lambda>_. Inr
       \<lparr> bst = (case seq_start of None \<Rightarrow> s | Some q \<Rightarrow> ensure_cmd_seq_minimum q s),
         sock_open = False, wire = [], next_connect_attempt_s = Fin 0,
         connect_backoff_s = connect_backoff_initial_s cfg, last_fc_connected = False,
         last_tracking_blocked_reason = None, blog = Map.empty, bevents = [] \<rparr>)"

subsection \<open>Steps\<close>

abbreviation on_bst :: "(shared_state \<Rightarrow> shared_state) \<Rightarrow> cmd_bridge \<Rightarrow> cmd_bridge" where
  "on_bst f b \<equiv> b\<lparr> bst := f (bst b) \<rparr>"

definition bridge_set_fc_connected :: "bool \<Rightarrow> cmd_bridge \<Rightarrow> cmd_bridge" where
  "bridge_set_fc_connected c b =
     (let b1 = on_bst (set_fc_connected c) b
      in if c = last_fc_connected b1 then b1
         else b1\<lparr> last_fc_connected := c,
                  bevents := bevents b1 @ [ConnectionChange c] \<rparr>)"

definition emit_tracking_blocked :: "string option \<Rightarrow> cmd_bridge \<Rightarrow> cmd_bridge" where
  "emit_tracking_blocked blocked_reason b =
     (case blocked_reason of
        None \<Rightarrow> b\<lparr> last_tracking_blocked_reason := None \<rparr>
      | Some r \<Rightarrow>
          if blocked_reason = last_tracking_blocked_reason b then b
          else b\<lparr> last_tracking_blocked_reason := blocked_reason,
                  bevents := bevents b @ [TrackingBlocked r] \<rparr>)"

definition bridge_log :: "bridge_config \<Rightarrow> string \<Rightarrow> pyfloat \<Rightarrow> cmd_bridge \<Rightarrow> cmd_bridge" where
  "bridge_log cfg reason clk b =
     b\<lparr> blog := snd (log_reason (log_interval_s cfg) (blog b) (reason, clk)) \<rparr>"

definition close_socket :: "cmd_bridge \<Rightarrow> cmd_bridge" where
  "close_socket b = b\<lparr> sock_open := False \<rparr>"

definition back_off :: "bridge_config \<Rightarrow> pyfloat \<Rightarrow> cmd_bridge \<Rightarrow> cmd_bridge" where
  \<comment> \<open>the next attempt after the current delay, which doubles up to the maximum\<close>
  "back_off cfg now_s b =
     b\<lparr> next_connect_attempt_s := fadd now_s (connect_backoff_s b),
        connect_backoff_s := fmin (fmul (connect_backoff_s b) (Fin 2)) (connect_backoff_max_s cfg) \<rparr>"

definition attempt_connect ::
  "bridge_config \<Rightarrow> bool \<Rightarrow> pyfloat \<Rightarrow> pyfloat \<Rightarrow> cmd_bridge \<Rightarrow> cmd_bridge" where
  \<comment> \<open>\<open>connects\<close>: whether \<open>sock.connect\<close> succeeds; \<open>clk\<close>: the logger's clock\<close>
  "attempt_connect cfg connects clk now_s b =
     (if flt now_s (next_connect_attempt_s b) then b
      else (let b1 = on_bst (record_fc_connect_attempt now_s) b in
        if \<not> connects
        then bridge_log cfg ''connect_fail'' clk
               (back_off cfg now_s (bridge_set_fc_connected False b1))
        else (bridge_set_fc_connected True (b1\<lparr> sock_open := True \<rparr>))
               \<lparr> connect_backoff_s := connect_backoff_initial_s cfg,
                 next_connect_attempt_s := now_s \<rparr>))"

record tick_env =
  before_vis :: "state_op list" \<comment> \<open>other threads, between the reads of intent and vision\<close>
  before_age :: "state_op list" \<comment> \<open>other threads, between the reads of vision and its age\<close>
  stopped :: bool               \<comment> \<open>\<open>stop\<close> closed the socket before it is fetched\<close>
  sends :: bool                 \<comment> \<open>\<open>sendall\<close> succeeds\<close>
  log_clk :: pyfloat

definition send_frame :: "bridge_config \<Rightarrow> tick_env \<Rightarrow> pyfloat \<Rightarrow> nat list \<Rightarrow> (pyexc, cmd_bridge, unit) eff" where
  "send_frame cfg env now_s frame b0 =
     (let b = (if stopped env then close_socket b0 else b0) in
      if \<not> sock_open b
      then (Inr (), (bridge_set_fc_connected False (on_bst record_cmd_tx_fail b))
              \<lparr> next_connect_attempt_s := now_s \<rparr>)
      else if \<not> sends env
      then (Inr (), bridge_log cfg ''send_fail'' (log_clk env) (back_off cfg now_s
              (close_socket (bridge_set_fc_connected False (on_bst record_cmd_tx_fail b)))))
      else (let b1 = b\<lparr> wire := wire b @ [frame] \<rparr>; (r, s) = record_cmd_tx_ok now_s (bst b1)
            in (r, b1\<lparr> bst := s \<rparr>)))"

definition send_tick ::
  "bridge_config \<Rightarrow> (real \<Rightarrow> string) \<Rightarrow> tick_env \<Rightarrow> pyfloat \<Rightarrow> (pyexc, cmd_bridge, unit) eff" where
  "send_tick cfg fr env now_s b0 =
     (let intent = get_latest_intent (bst b0);
          s1 = run state_step (bst b0) (before_vis env);
          vis_snapshot = get_latest_vis s1;
          s2 = run state_step s1 (before_age env);
          vis_age_s = get_vis_age_s now_s s2;
          (seq, s3) = reserve_cmd_seq None s2;
          b3 = b0\<lparr> bst := s3 \<rparr>
      in case build_cmd_payload seq now_s intent vis_snapshot vis_age_s (vis_fresh_s cfg) of
           Inl e \<Rightarrow> (Inl e, b3)
         | Inr (payload, blocked_reason) \<Rightarrow>
             (let b4 = on_bst record_cmd_tx_attempt (emit_tracking_blocked blocked_reason
                         (on_bst (set_tracking_blocked_reason blocked_reason) b3))
              in case frame_cmd_payload fr payload (max_payload_bytes cfg) of
                   Inl (ValueError _) \<Rightarrow> (Inr (), on_bst record_cmd_tx_fail b4)
                 | Inl e \<Rightarrow> (Inl e, b4)
                 | Inr frame \<Rightarrow>
                     send_frame cfg env now_s frame
                       (on_bst (record_last_cmd_payload payload (max 0 (int (length frame) - 4))) b4)))"

subsection \<open>The loop\<close>

record bridge_iter =
  loop_start_s :: pyfloat
  loop_end_s :: pyfloat
  connects :: bool
  tick :: tick_env

definition bridge_iteration ::
  "bridge_config \<Rightarrow> (real \<Rightarrow> string) \<Rightarrow> pyfloat \<Rightarrow> bridge_iter \<Rightarrow> (pyexc, cmd_bridge, unit) eff" where
  \<comment> \<open>the body of the loop of \<open>run_forever\<close>\<close>
  "bridge_iteration cfg fr period_s it =
     ebind (\<lambda>b. if \<not> sock_open b
                then (Inr (), attempt_connect cfg (connects it) (log_clk (tick it)) (loop_start_s it) b)
                else send_tick cfg fr (tick it) (loop_start_s it) b)
     (\<lambda>_. emodify (\<lambda>b. b\<lparr> bevents := bevents b @
        [Waited (fmax (Fin 0) (fsub period_s (fsub (loop_end_s it) (loop_start_s it))))] \<rparr>))"

fun bridge_loop ::
  "bridge_config \<Rightarrow> (real \<Rightarrow> string) \<Rightarrow> pyfloat \<Rightarrow> bridge_iter list \<Rightarrow> (pyexc, cmd_bridge, unit) eff" where
  "bridge_loop cfg fr period_s [] b = (Inr (), b)"
| "bridge_loop cfg fr period_s (it # its) b =
     ebind (bridge_iteration cfg fr period_s it) (\<lambda>_. bridge_loop cfg fr period_s its) b"

definition run_forever ::
  "bridge_config \<Rightarrow> (real \<Rightarrow> string) \<Rightarrow> bridge_iter list \<Rightarrow> (pyexc, cmd_bridge, unit) eff" where
  \<comment> \<open>the iterations until the stop event is set\<close>
  "run_forever cfg fr its b =
     (case fdiv (Fin 1) (tick_hz cfg) of
        None \<Rightarrow> (Inl ZeroDivisionError, b)
      | Some period_s \<Rightarrow>
          ebind (emodify (bridge_set_fc_connected False)) (\<lambda>_.
          ebind (bridge_loop cfg fr period_s its) (\<lambda>_.
          emodify (bridge_set_fc_connected False \<circ> close_socket))) b)"

definition bridge_stop :: "cmd_bridge \<Rightarrow> cmd_bridge" where
  \<comment> \<open>after the thread has been joined\<close>
  "bridge_stop b = bridge_set_fc_connected False (close_socket b)"

subsection \<open>What the other threads do\<close>

text \<open>
  The ingestion threads store validated messages and count; the HTTP handlers store checked
  intents. None of them touches the command counters or the sequence number.
\<close>

fun feed_op :: "state_op \<Rightarrow> bool" where
  "feed_op (OpIntent d _) = intent_wf d"
| "feed_op OpTelTotal = True"
| "feed_op (OpTelOk d _) = tel_wf d"
| "feed_op (OpTelDrop _) = True"
| "feed_op OpVisTotal = True"
| "feed_op (OpVisOk d _) = vis_wf d"
| "feed_op (OpVisDrop _) = True"
| "feed_op _ = False"

definition feed_wf :: "shared_state \<Rightarrow> bool" where
  "feed_wf s = ((\<forall>d. latest_intent s = Some d \<longrightarrow> intent_wf d) \<and>
     (\<forall>v. latest_vis s = Some v \<longrightarrow> vis_wf v) \<and> seq_range (cmd_next_seq s))"

definition cmd_part :: "shared_state \<Rightarrow> nat \<times> nat \<times> nat \<times> int \<times> bool" where
  "cmd_part s = (cmd_tx_total s, cmd_tx_ok s, cmd_tx_fail s, cmd_next_seq s, fc_connected s)"

lemma feed_step:
  "feed_op p \<Longrightarrow> feed_wf s \<Longrightarrow> feed_wf (state_step s p)"
  "feed_op p \<Longrightarrow> cmd_part (state_step s p) = cmd_part s"
  by (cases p; auto simp: feed_wf_def cmd_part_def state_op_defs eff_unfold split: sum.splits)+

definition env_ok :: "tick_env \<Rightarrow> bool" where
  "env_ok env = (list_all feed_op (before_vis env) \<and> list_all feed_op (before_age env))"

lemma feed_run:
  assumes "list_all feed_op ps" "feed_wf s"
  shows "feed_wf (run state_step s ps) \<and> cmd_part (run state_step s ps) = cmd_part s"
  using assms by (induction ps arbitrary: s) (auto simp: feed_step)

subsection \<open>The link and its reports\<close>

definition conn_changes :: "bridge_event list \<Rightarrow> bool list" where
  "conn_changes evs = concat (map (\<lambda>e. case e of ConnectionChange c \<Rightarrow> [c] | _ \<Rightarrow> []) evs)"

lemma conn_changes_simps [simp]:
  "conn_changes [] = []"
  "conn_changes (evs @ [ConnectionChange c]) = conn_changes evs @ [c]"
  "conn_changes (evs @ [TrackingBlocked r]) = conn_changes evs"
  "conn_changes (evs @ [Waited w]) = conn_changes evs"
  by (simp_all add: conn_changes_def)

fun alternating :: "bool \<Rightarrow> bool list \<Rightarrow> bool" where
  "alternating x [] = True"
| "alternating x (y # ys) = (y = x \<and> alternating (\<not> x) ys)"

lemma alternating_snoc:
  "alternating x (ys @ [y]) \<longleftrightarrow> alternating x ys \<and> y = (x = even (length ys))"
  by (induction ys arbitrary: x) auto

definition reports_ok :: "cmd_bridge \<Rightarrow> bool" where
  "reports_ok b = (alternating True (conn_changes (bevents b)) \<and>
     last_fc_connected b = odd (length (conn_changes (bevents b))))"

definition link_ok :: "cmd_bridge \<Rightarrow> bool" where
  "link_ok b = (reports_ok b \<and> fc_connected (bst b) = sock_open b \<and> last_fc_connected b = sock_open b)"

definition balanced_tx :: "nat \<Rightarrow> cmd_bridge \<Rightarrow> bool" where
  "balanced_tx base b = (cmd_tx_total (bst b) = cmd_tx_ok (bst b) + cmd_tx_fail (bst b) \<and>
     cmd_tx_ok (bst b) = base + length (wire b))"

lemma set_fc_fields [simp]:
  "bst (bridge_set_fc_connected c b) = set_fc_connected c (bst b)"
  "sock_open (bridge_set_fc_connected c b) = sock_open b"
  "wire (bridge_set_fc_connected c b) = wire b"
  "connect_backoff_s (bridge_set_fc_connected c b) = connect_backoff_s b"
  "next_connect_attempt_s (bridge_set_fc_connected c b) = next_connect_attempt_s b"
  "last_fc_connected (bridge_set_fc_connected c b) = c"
  by (simp_all add: bridge_set_fc_connected_def Let_def)

lemma set_fc_reports: "reports_ok b \<Longrightarrow> reports_ok (bridge_set_fc_connected c b)"
  by (auto simp: reports_ok_def bridge_set_fc_connected_def Let_def alternating_snoc)

lemma emit_fields [simp]:
  "bst (emit_tracking_blocked r b) = bst b"
  "sock_open (emit_tracking_blocked r b) = sock_open b"
  "wire (emit_tracking_blocked r b) = wire b"
  "last_fc_connected (emit_tracking_blocked r b) = last_fc_connected b"
  "connect_backoff_s (emit_tracking_blocked r b) = connect_backoff_s b"
  "conn_changes (bevents (emit_tracking_blocked r b)) = conn_changes (bevents b)"
  by (simp_all add: emit_tracking_blocked_def split: option.splits)

lemma log_fields [simp]:
  "bst (bridge_log cfg r c b) = bst b" "sock_open (bridge_log cfg r c b) = sock_open b"
  "wire (bridge_log cfg r c b) = wire b" "bevents (bridge_log cfg r c b) = bevents b"
  "last_fc_connected (bridge_log cfg r c b) = last_fc_connected b"
  "connect_backoff_s (bridge_log cfg r c b) = connect_backoff_s b"
  by (simp_all add: bridge_log_def)

lemma back_off_fields [simp]:
  "bst (back_off cfg t b) = bst b" "sock_open (back_off cfg t b) = sock_open b"
  "wire (back_off cfg t b) = wire b" "bevents (back_off cfg t b) = bevents b"
  "last_fc_connected (back_off cfg t b) = last_fc_connected b"
  by (simp_all add: back_off_def)

lemma close_fields [simp]:
  "bst (close_socket b) = bst b" "\<not> sock_open (close_socket b)" "wire (close_socket b) = wire b"
  "bevents (close_socket b) = bevents b" "last_fc_connected (close_socket b) = last_fc_connected b"
  "connect_backoff_s (close_socket b) = connect_backoff_s b"
  by (simp_all add: close_socket_def)

lemma reports_cong:
  "conn_changes (bevents b) = conn_changes (bevents b') \<Longrightarrow> last_fc_connected b = last_fc_connected b'
   \<Longrightarrow> reports_ok b = reports_ok b'"
  by (simp add: reports_ok_def)

lemma bst_step_fields [simp]:
  "fc_connected (set_fc_connected c s) = c" "cmd_tx_total (set_fc_connected c s) = cmd_tx_total s"
  "cmd_tx_ok (set_fc_connected c s) = cmd_tx_ok s" "cmd_tx_fail (set_fc_connected c s) = cmd_tx_fail s"
  "feed_wf (set_fc_connected c s) = feed_wf s"
  "feed_wf (record_fc_connect_attempt t s) = feed_wf s"
  "cmd_tx_total (record_fc_connect_attempt t s) = cmd_tx_total s"
  "cmd_tx_ok (record_fc_connect_attempt t s) = cmd_tx_ok s"
  "cmd_tx_fail (record_fc_connect_attempt t s) = cmd_tx_fail s"
  "fc_connected (record_fc_connect_attempt t s) = fc_connected s"
  "feed_wf (record_cmd_tx_fail s) = feed_wf s"
  "feed_wf (record_cmd_tx_attempt s) = feed_wf s"
  "feed_wf (set_tracking_blocked_reason r s) = feed_wf s"
  "feed_wf (record_last_cmd_payload p n s) = feed_wf s"
  by (simp_all add: feed_wf_def set_fc_connected_def record_fc_connect_attempt_def
      record_cmd_tx_fail_def record_cmd_tx_attempt_def set_tracking_blocked_reason_def
      record_last_cmd_payload_def)

lemma tx_ok_state:
  "record_cmd_tx_ok t s = (Inr (), snd (record_cmd_tx_ok t s))"
  "feed_wf (snd (record_cmd_tx_ok t s)) = feed_wf s"
  "cmd_part (snd (record_cmd_tx_ok t s)) =
     (cmd_tx_total s, cmd_tx_ok s + 1, cmd_tx_fail s, cmd_next_seq s, fc_connected s)"
  using record_cmd_tx_ok_returns[of t s]
  by (auto simp: prod_eq_iff feed_wf_def cmd_part_def record_cmd_tx_ok_def Let_def split: option.splits)

subsection \<open>The invariant of the bridge thread\<close>

definition backoff_ok :: "bridge_config \<Rightarrow> cmd_bridge \<Rightarrow> bool" where
  "backoff_ok cfg b = (is_f64 (connect_backoff_s b) \<and>
     fle (connect_backoff_initial_s cfg) (connect_backoff_s b) \<and>
     fle (connect_backoff_s b) (connect_backoff_max_s cfg))"

definition bridge_inv :: "bridge_config \<Rightarrow> nat \<Rightarrow> cmd_bridge \<Rightarrow> bool" where
  "bridge_inv cfg base b =
     (feed_wf (bst b) \<and> link_ok b \<and> balanced_tx base b \<and> backoff_ok cfg b)"

definition config_ok :: "bridge_config \<Rightarrow> bool" where
  \<comment> \<open>the constructor's checks, on numbers, and a limit that fits the length field\<close>
  "config_ok cfg = (check_bridge_config cfg = Inr () \<and> max_payload_bytes cfg < 2 ^ 32 \<and>
     tick_hz cfg \<noteq> NaN \<and> is_f64 (connect_backoff_initial_s cfg) \<and> is_f64 (connect_backoff_max_s cfg) \<and>
     connect_backoff_initial_s cfg \<noteq> NaN \<and> connect_backoff_max_s cfg \<noteq> NaN)"

lemma check_bridge_config_Inr:
  "check_bridge_config cfg = Inr () \<longleftrightarrow>
     \<not> fle (tick_hz cfg) (Fin 0) \<and> \<not> flt (vis_fresh_s cfg) (Fin 0) \<and> 0 < max_payload_bytes cfg \<and>
     \<not> fle (connect_timeout_s cfg) (Fin 0) \<and> \<not> fle (connect_backoff_initial_s cfg) (Fin 0) \<and>
     \<not> flt (connect_backoff_max_s cfg) (connect_backoff_initial_s cfg) \<and> \<not> flt (log_interval_s cfg) (Fin 0)"
  by (auto simp: check_bridge_config_def rbind_Inr_iff)

lemma double_ge: "is_f64 x \<Longrightarrow> fle (Fin 0) x \<Longrightarrow> fle x (fmul x (Fin 2)) \<and> is_f64 (fmul x (Fin 2))"
proof (cases x)
  case (Fin r)
  assume "is_f64 x" "fle (Fin 0) x"
  then have "f64 r = Fin r" "0 \<le> r" using Fin f64_is_f64 by auto
  then have "fle (Fin r) (f64 (r * 2))" using f64_mono[of r "r * 2"] by simp
  then show ?thesis using Fin is_f64_f64 by simp
qed simp_all

lemma fmin_cases: "fmin a b = a \<or> fmin a b = b"
  by (simp add: fmin_def)

lemma backoff_doubles:
  assumes "config_ok cfg" "backoff_ok cfg b"
  shows "backoff_ok cfg (back_off cfg t b)"
proof -
  let ?i = "connect_backoff_initial_s cfg" and ?x = "connect_backoff_s b" and ?m = "connect_backoff_max_s cfg"
  have "fle (Fin 0) ?i" using assms(1)
    by (auto simp: config_ok_def check_bridge_config_Inr not_fle flt_imp_fle)
  then have "fle (Fin 0) ?x" using assms(2) fle_trans by (auto simp: backoff_ok_def)
  then have d: "fle ?x (fmul ?x (Fin 2))" "is_f64 (fmul ?x (Fin 2))"
    using double_ge assms(2) by (auto simp: backoff_ok_def)
  have im: "fle ?i ?m" using assms(2) fle_trans by (auto simp: backoff_ok_def)
  have "is_f64 (fmin (fmul ?x (Fin 2)) ?m)"
    using fmin_cases[of "fmul ?x (Fin 2)" ?m] d(2) assms(1) by (auto simp: config_ok_def)
  moreover have "fle ?i (fmin (fmul ?x (Fin 2)) ?m)"
    using fmin_cases[of "fmul ?x (Fin 2)" ?m] im fle_trans[OF _ d(1), of ?i] assms(2)
    by (auto simp: backoff_ok_def)
  moreover have "fle (fmin (fmul ?x (Fin 2)) ?m) ?m"
  proof (cases "flt ?m (fmul ?x (Fin 2))")
    case True
    then show ?thesis using assms(1) by (simp add: fmin_def fle_refl config_ok_def)
  next
    case False
    then have "fle (fmul ?x (Fin 2)) ?m"
      using assms(1) fle_not_NaN[OF d(1)] by (simp add: config_ok_def not_flt)
    with False show ?thesis by (simp add: fmin_def)
  qed
  ultimately show ?thesis by (simp add: backoff_ok_def back_off_def)
qed

lemma backoff_cong: "connect_backoff_s b = connect_backoff_s b' \<Longrightarrow> backoff_ok cfg b = backoff_ok cfg b'"
  by (simp add: backoff_ok_def)

lemma attempt_connect_inv:
  assumes "config_ok cfg" "bridge_inv cfg base b" "\<not> sock_open b"
  shows "bridge_inv cfg base (attempt_connect cfg c clk t b)"
proof (cases "flt t (next_connect_attempt_s b) \<or> \<not> c")
  case True
  let ?b1 = "bridge_set_fc_connected False (on_bst (record_fc_connect_attempt t) b)"
  have r: "reports_ok ?b1"
    using assms(2) by (intro set_fc_reports) (simp add: bridge_inv_def link_ok_def reports_ok_def)
  have "backoff_ok cfg (back_off cfg t ?b1)"
    using assms(1,2) by (intro backoff_doubles) (simp_all add: bridge_inv_def backoff_ok_def)
  then have "backoff_ok cfg (bridge_log cfg ''connect_fail'' clk (back_off cfg t ?b1))"
    by (simp add: backoff_ok_def)
  moreover have "reports_ok (bridge_log cfg ''connect_fail'' clk (back_off cfg t ?b1))"
    using r by (simp add: reports_ok_def)
  ultimately show ?thesis
    using assms(2,3) True
    by (auto simp: attempt_connect_def bridge_inv_def link_ok_def balanced_tx_def
        Let_def)
next
  case False
  let ?b1 = "bridge_set_fc_connected True ((on_bst (record_fc_connect_attempt t) b)\<lparr> sock_open := True \<rparr>)"
  have "reports_ok ?b1"
    using assms(2) by (intro set_fc_reports) (simp add: bridge_inv_def link_ok_def reports_ok_def)
  moreover have "fle (connect_backoff_initial_s cfg) (connect_backoff_max_s cfg)"
    using assms(1) by (auto simp: config_ok_def check_bridge_config_Inr not_flt)
  ultimately show ?thesis
    using assms False
    by (auto simp: attempt_connect_def bridge_inv_def link_ok_def balanced_tx_def reports_ok_def
        backoff_ok_def config_ok_def fle_refl Let_def)
qed

definition in_tick :: "bridge_config \<Rightarrow> nat \<Rightarrow> cmd_bridge \<Rightarrow> bool" where
  \<comment> \<open>the invariant between the attempt and its outcome\<close>
  "in_tick cfg base b = (feed_wf (bst b) \<and> link_ok b \<and> backoff_ok cfg b \<and>
     cmd_tx_total (bst b) = cmd_tx_ok (bst b) + cmd_tx_fail (bst b) + 1 \<and>
     cmd_tx_ok (bst b) = base + length (wire b))"

lemma in_tick_fail: "in_tick cfg base b \<Longrightarrow> bridge_inv cfg base (on_bst record_cmd_tx_fail b)"
  unfolding in_tick_def bridge_inv_def link_ok_def reports_ok_def balanced_tx_def backoff_ok_def
  by (auto simp: record_cmd_tx_fail_def feed_wf_def)

lemma send_frame_inv:
  assumes "config_ok cfg" "in_tick cfg base b0" "sock_open b0"
  shows "fst (send_frame cfg env t f b0) = Inr () \<and> bridge_inv cfg base (snd (send_frame cfg env t f b0))"
proof (cases "stopped env \<or> \<not> sends env")
  case False
  then show ?thesis using assms(2,3) tx_ok_state(2,3)[of t "bst b0"]
    by (auto simp: send_frame_def Let_def split_beta cmd_part_def in_tick_def bridge_inv_def link_ok_def
        reports_ok_def balanced_tx_def backoff_ok_def record_cmd_tx_ok_returns)
next
  case True
  let ?b = "if stopped env then close_socket b0 else b0"
  let ?b1 = "bridge_set_fc_connected False (on_bst record_cmd_tx_fail ?b)"
  have r: "reports_ok ?b1"
    using assms(2) by (intro set_fc_reports) (simp add: in_tick_def link_ok_def reports_ok_def)
  have k: "backoff_ok cfg (close_socket ?b1)" using assms(2) by (simp add: in_tick_def backoff_ok_def)
  have t: "balanced_tx base ?b1" "feed_wf (bst ?b1)"
    using assms(2) by (simp_all add: in_tick_def balanced_tx_def) (simp_all add: record_cmd_tx_fail_def)
  show ?thesis
  proof (cases "stopped env")
    case True
    then show ?thesis using r k t assms(3)
      by (simp add: send_frame_def bridge_inv_def link_ok_def balanced_tx_def reports_ok_def backoff_ok_def)
  next
    case False
    then have "\<not> sends env" using True by simp
    moreover have "backoff_ok cfg (back_off cfg t (close_socket ?b1))"
      by (rule backoff_doubles[OF assms(1) k])
    ultimately show ?thesis using r t assms(3) False
      by (simp add: send_frame_def bridge_inv_def link_ok_def balanced_tx_def reports_ok_def backoff_ok_def)
  qed
qed

lemma frame_errors:
  "frame_cmd_payload fr p mx = Inl e \<Longrightarrow> mx < 2 ^ 32 \<Longrightarrow> \<exists>d. e = ValueError d"
  by (auto simp: frame_cmd_payload_def pack_be32_def Let_def rbind_Inl_iff split: if_splits)

text \<open>What a tick reads: the vision snapshot, the age read after it, and the state it leaves.\<close>

definition tick_vis :: "tick_env \<Rightarrow> cmd_bridge \<Rightarrow> pydict option" where
  "tick_vis env b = get_latest_vis (run state_step (bst b) (before_vis env))"

definition tick_state :: "tick_env \<Rightarrow> cmd_bridge \<Rightarrow> shared_state" where
  "tick_state env b = run state_step (run state_step (bst b) (before_vis env)) (before_age env)"

definition tick_built ::
  "bridge_config \<Rightarrow> tick_env \<Rightarrow> pyfloat \<Rightarrow> cmd_bridge \<Rightarrow> pyexc + pydict \<times> string option" where
  "tick_built cfg env now_s b =
     build_cmd_payload (cmd_next_seq (tick_state env b)) now_s (get_latest_intent (bst b))
       (tick_vis env b) (get_vis_age_s now_s (tick_state env b)) (vis_fresh_s cfg)"

lemma tick_state_ok:
  assumes "env_ok env" "feed_wf (bst b)"
  shows "feed_wf (tick_state env b)" "cmd_part (tick_state env b) = cmd_part (bst b)"
    "\<forall>v. tick_vis env b = Some v \<longrightarrow> vis_wf v"
proof -
  have 1: "feed_wf (run state_step (bst b) (before_vis env)) \<and>
      cmd_part (run state_step (bst b) (before_vis env)) = cmd_part (bst b)"
    using feed_run assms by (simp add: env_ok_def)
  then show "feed_wf (tick_state env b)" "cmd_part (tick_state env b) = cmd_part (bst b)"
    using feed_run assms(1) by (auto simp: env_ok_def tick_state_def)
  show "\<forall>v. tick_vis env b = Some v \<longrightarrow> vis_wf v"
    using 1 by (simp add: tick_vis_def get_latest_vis_def feed_wf_def)
qed

lemma tick_built_returns:
  assumes "config_ok cfg" "env_ok env" "feed_wf (bst b)"
  obtains p r where "tick_built cfg env t b = Inr (p, r)"
proof -
  note ok = tick_state_ok[OF assms(2,3)]
  have "0 \<le> cmd_next_seq (tick_state env b)" using ok(1) by (simp add: feed_wf_def seq_range_def)
  moreover have "\<not> flt (vis_fresh_s cfg) (Fin 0)"
    using assms(1) by (simp add: config_ok_def check_bridge_config_Inr)
  moreover have "\<forall>d. get_latest_intent (bst b) = Some d \<longrightarrow> intent_wf d"
    using assms(3) by (simp add: get_latest_intent_def feed_wf_def)
  ultimately obtain p r where "tick_built cfg env t b = Inr (p, r)"
    using build_cmd_returns ok(3) unfolding tick_built_def by blast
  then show thesis by (rule that)
qed

text \<open>The tick after a successful build, as one equation.\<close>

lemma send_tick_eq:
  assumes "tick_built cfg env t b = Inr (p, r)" "max_payload_bytes cfg < 2 ^ 32"
  defines "b4 \<equiv> on_bst record_cmd_tx_attempt (emit_tracking_blocked r
    (on_bst (set_tracking_blocked_reason r)
      (b\<lparr> bst := snd (reserve_cmd_seq None (tick_state env b)) \<rparr>)))"
  shows "send_tick cfg fr env t b =
    (case frame_cmd_payload fr p (max_payload_bytes cfg) of
       Inl e \<Rightarrow> (Inr (), on_bst record_cmd_tx_fail b4)
     | Inr f \<Rightarrow> send_frame cfg env t f
         (on_bst (record_last_cmd_payload p (max 0 (int (length f) - 4))) b4))"
proof -
  have "fst (reserve_cmd_seq None (tick_state env b)) = cmd_next_seq (tick_state env b)"
    by (simp add: reserve_cmd_seq_def Let_def)
  moreover have "frame_cmd_payload fr p (max_payload_bytes cfg) = Inl e \<Longrightarrow> \<exists>d. e = ValueError d" for e
    using frame_errors assms(2) by blast
  ultimately show ?thesis
    using assms(1)
    by (auto simp: send_tick_def tick_built_def tick_state_def tick_vis_def b4_def Let_def split_beta
        split: sum.splits)
qed

lemma reserve_part:
  "feed_wf s \<Longrightarrow> feed_wf (snd (reserve_cmd_seq None s)) \<and>
   cmd_part (snd (reserve_cmd_seq None s)) =
     (cmd_tx_total s, cmd_tx_ok s, cmd_tx_fail s, next_seq (cmd_next_seq s), fc_connected s)"
  by (simp add: reserve_cmd_seq_def Let_def feed_wf_def cmd_part_def)

lemma in_tick_attempt:
  assumes "config_ok cfg" "env_ok env" "bridge_inv cfg base b"
  shows "in_tick cfg base (on_bst record_cmd_tx_attempt (emit_tracking_blocked r
    (on_bst (set_tracking_blocked_reason r)
      (b\<lparr> bst := snd (reserve_cmd_seq None (tick_state env b)) \<rparr>))))"
proof -
  let ?s = "snd (reserve_cmd_seq None (tick_state env b))"
  have wf: "feed_wf (bst b)" using assms(3) by (simp add: bridge_inv_def)
  note ok = tick_state_ok[OF assms(2) wf]
  have "feed_wf ?s" using reserve_part[OF ok(1)] by simp
  moreover have "cmd_tx_total ?s = cmd_tx_total (bst b)" "cmd_tx_ok ?s = cmd_tx_ok (bst b)"
    "cmd_tx_fail ?s = cmd_tx_fail (bst b)" "fc_connected ?s = fc_connected (bst b)"
    using reserve_part[OF ok(1)] ok(2) by (simp_all add: cmd_part_def)
  ultimately show ?thesis
    using assms(3) unfolding in_tick_def bridge_inv_def link_ok_def reports_ok_def balanced_tx_def
      backoff_ok_def
    by (simp add: feed_wf_def record_cmd_tx_attempt_def set_tracking_blocked_reason_def) blast
qed

lemma in_tick_last_cmd:
  "in_tick cfg base b \<Longrightarrow> in_tick cfg base (on_bst (record_last_cmd_payload p n) b)"
  unfolding in_tick_def link_ok_def reports_ok_def backoff_ok_def
  by (simp add: feed_wf_def record_last_cmd_payload_def) blast

lemma send_tick_inv:
  assumes "config_ok cfg" "env_ok env" "bridge_inv cfg base b" "sock_open b"
  shows "fst (send_tick cfg fr env t b) = Inr () \<and> bridge_inv cfg base (snd (send_tick cfg fr env t b))"
proof -
  have "feed_wf (bst b)" using assms(3) by (simp add: bridge_inv_def)
  then obtain p r where built: "tick_built cfg env t b = Inr (p, r)"
    using tick_built_returns assms(1,2) by metis
  let ?b4 = "on_bst record_cmd_tx_attempt (emit_tracking_blocked r
    (on_bst (set_tracking_blocked_reason r)
      (b\<lparr> bst := snd (reserve_cmd_seq None (tick_state env b)) \<rparr>)))"
  have 4: "in_tick cfg base ?b4" by (rule in_tick_attempt[OF assms(1-3)])
  have mx: "max_payload_bytes cfg < 2 ^ 32" using assms(1) by (simp add: config_ok_def)
  show ?thesis
  proof (cases "frame_cmd_payload fr p (max_payload_bytes cfg)")
    case (Inl e)
    then show ?thesis using in_tick_fail[OF 4] send_tick_eq[OF built mx] by simp
  next
    case (Inr f)
    have "sock_open ?b4" using assms(4) by simp
    then show ?thesis
      using send_frame_inv[OF assms(1) in_tick_last_cmd[OF 4], of p "max 0 (int (length f) - 4)"]
        send_tick_eq[OF built mx] Inr by simp
  qed
qed

lemma iteration_inv:
  assumes "config_ok cfg" "env_ok (tick it)" "bridge_inv cfg base b"
  shows "fst (bridge_iteration cfg fr period it b) = Inr () \<and>
    bridge_inv cfg base (snd (bridge_iteration cfg fr period it b))"
proof -
  let ?m = "if \<not> sock_open b
     then (Inr (), attempt_connect cfg (connects it) (log_clk (tick it)) (loop_start_s it) b)
     else send_tick cfg fr (tick it) (loop_start_s it) b"
  have "fst ?m = Inr () \<and> bridge_inv cfg base (snd ?m)"
    using attempt_connect_inv send_tick_inv assms by simp
  then show ?thesis
    by (cases ?m) (auto simp: bridge_iteration_def ebind_def bridge_inv_def link_ok_def reports_ok_def
        balanced_tx_def backoff_ok_def)
qed

lemma loop_inv:
  assumes "config_ok cfg" "list_all (\<lambda>it. env_ok (tick it)) its" "bridge_inv cfg base b"
  shows "fst (bridge_loop cfg fr period its b) = Inr () \<and>
    bridge_inv cfg base (snd (bridge_loop cfg fr period its b))"
  using assms(2,3)
proof (induction its arbitrary: b)
  case (Cons it its)
  have "env_ok (tick it)" using Cons.prems(1) by simp
  note iteration_inv[OF assms(1) this Cons.prems(2), of fr period]
  then show ?case using Cons.IH Cons.prems(1)
    by (cases "bridge_iteration cfg fr period it b") auto
qed simp

subsection \<open>Properties of the thread\<close>

lemma new_bridge_fields:
  assumes "new_cmd_bridge cfg start s = Inr b"
  shows "sock_open b = False" "wire b = []" "last_fc_connected b = False" "bevents b = []"
    "connect_backoff_s b = connect_backoff_initial_s cfg" "check_bridge_config cfg = Inr ()"
    "bst b = (case start of None \<Rightarrow> s | Some q \<Rightarrow> ensure_cmd_seq_minimum q s)"
  using assms by (auto simp: new_cmd_bridge_def)

lemma ensure_part:
  "feed_wf s \<Longrightarrow> feed_wf (ensure_cmd_seq_minimum q s)"
  "cmd_tx_total (ensure_cmd_seq_minimum q s) = cmd_tx_total s"
  "cmd_tx_ok (ensure_cmd_seq_minimum q s) = cmd_tx_ok s"
  "cmd_tx_fail (ensure_cmd_seq_minimum q s) = cmd_tx_fail s"
  by (simp_all add: ensure_cmd_seq_minimum_def Let_def feed_wf_def)

definition tx_balanced :: "shared_state \<Rightarrow> bool" where
  "tx_balanced s = (cmd_tx_total s = cmd_tx_ok s + cmd_tx_fail s)"

lemma started_inv:
  assumes "config_ok cfg" "feed_wf s" "tx_balanced s" "new_cmd_bridge cfg start s = Inr b0"
  shows "bridge_inv cfg (cmd_tx_ok s) (bridge_set_fc_connected False b0)"
proof -
  note f = new_bridge_fields[OF assms(4)]
  have "fle (connect_backoff_initial_s cfg) (connect_backoff_max_s cfg)"
    using assms(1) by (auto simp: config_ok_def check_bridge_config_Inr not_flt)
  moreover have "reports_ok (bridge_set_fc_connected False b0)"
    using f by (intro set_fc_reports) (simp add: reports_ok_def)
  ultimately show ?thesis
    using assms(1-3) f by (cases start) (simp_all add: bridge_inv_def link_ok_def balanced_tx_def
        backoff_ok_def config_ok_def fle_refl tx_balanced_def ensure_part)
qed

lemma period_exists: "config_ok cfg \<Longrightarrow> \<exists>p. fdiv (Fin 1) (tick_hz cfg) = Some p"
  by (cases "tick_hz cfg") (auto simp: config_ok_def check_bridge_config_Inr)

lemma run_forever_eq:
  assumes "fdiv (Fin 1) (tick_hz cfg) = Some period"
    and "bridge_loop cfg fr period its (bridge_set_fc_connected False b0) = (Inr (), b1)"
  shows "run_forever cfg fr its b0 = (Inr (), bridge_set_fc_connected False (close_socket b1))"
  using assms by (simp add: run_forever_def)

lemma run_forever_loop:
  assumes "config_ok cfg" "feed_wf s" "tx_balanced s" "new_cmd_bridge cfg start s = Inr b0"
    and "list_all (\<lambda>it. env_ok (tick it)) its"
  obtains period b1 where
    "bridge_loop cfg fr period its (bridge_set_fc_connected False b0) = (Inr (), b1)"
    "bridge_inv cfg (cmd_tx_ok s) b1"
    "run_forever cfg fr its b0 = (Inr (), bridge_set_fc_connected False (close_socket b1))"
proof -
  obtain period where per: "fdiv (Fin 1) (tick_hz cfg) = Some period" using period_exists[OF assms(1)] by blast
  obtain x b1 where l: "bridge_loop cfg fr period its (bridge_set_fc_connected False b0) = (x, b1)"
    by fastforce
  with loop_inv[OF assms(1,5) started_inv[OF assms(1-4)], of fr period]
  have "x = Inr ()" "bridge_inv cfg (cmd_tx_ok s) b1" by simp_all
  with l run_forever_eq[OF per] that show thesis by blast
qed

text \<open>
  The bridge thread never dies of what it reads. Whatever validated messages and checked
  intents the other threads store between its reads, and whatever the network does, every
  iteration returns; in the end every attempt is counted as sent or failed, the number of
  commands sent is the number of frames the socket took, the link is closed and reported as
  such, the connection callback has been called with alternating values from \<open>True\<close>, and the
  reconnection delay is within its bounds.
\<close>

theorem bridge_thread_survives:
  assumes "config_ok cfg" "feed_wf s" "tx_balanced s" "new_cmd_bridge cfg start s = Inr b0"
    and "list_all (\<lambda>it. env_ok (tick it)) its"
  shows "\<exists>b. run_forever cfg fr its b0 = (Inr (), b) \<and> tx_balanced (bst b) \<and>
    cmd_tx_ok (bst b) = cmd_tx_ok s + length (wire b) \<and> \<not> sock_open b \<and> \<not> fc_connected (bst b) \<and>
    alternating True (conn_changes (bevents b)) \<and>
    fle (connect_backoff_initial_s cfg) (connect_backoff_s b) \<and>
    fle (connect_backoff_s b) (connect_backoff_max_s cfg)"
proof -
  obtain period b1 where 1: "bridge_inv cfg (cmd_tx_ok s) b1"
    "run_forever cfg fr its b0 = (Inr (), bridge_set_fc_connected False (close_socket b1))"
    using run_forever_loop[OF assms, of fr] by metis
  have "reports_ok (bridge_set_fc_connected False (close_socket b1))"
    using 1(1) by (intro set_fc_reports) (simp add: bridge_inv_def link_ok_def reports_ok_def)
  then show ?thesis using 1
    by (simp add: bridge_inv_def balanced_tx_def tx_balanced_def reports_ok_def backoff_ok_def)
qed

definition sample_config :: bridge_config where
  "sample_config = \<lparr> tick_hz = Fin 50, vis_fresh_s = Fin (1/4), max_payload_bytes = 4096,
     connect_timeout_s = Fin 1, connect_backoff_initial_s = Fin 1, connect_backoff_max_s = Fin 5,
     log_interval_s = Fin 5 \<rparr>"

lemma sample_config_ok: "config_ok sample_config"
  using big_bound[of 1] big_bound[of 5]
  by (simp add: config_ok_def sample_config_def check_bridge_config_Inr)

definition quiet_env :: tick_env where
  "quiet_env = \<lparr> before_vis = [], before_age = [], stopped = False, sends = True, log_clk = Fin 0 \<rparr>"

definition sample_iter :: "bool \<Rightarrow> bridge_iter" where
  "sample_iter c = \<lparr> loop_start_s = Fin 1, loop_end_s = Fin 1, connects = c, tick = quiet_env \<rparr>"

definition sample_bridge :: "shared_state \<Rightarrow> cmd_bridge" where
  "sample_bridge s = \<lparr> bst = s, sock_open = False, wire = [], next_connect_attempt_s = Fin 0,
     connect_backoff_s = Fin 1, last_fc_connected = False, last_tracking_blocked_reason = None,
     blog = Map.empty, bevents = [] \<rparr>"

lemma sample_bridge_new: "new_cmd_bridge sample_config None s = Inr (sample_bridge s)"
  using sample_config_ok
  by (simp add: new_cmd_bridge_def config_ok_def sample_bridge_def) (simp add: sample_config_def)

lemma fresh_feed_wf: "feed_wf (fresh_state 0)" "tx_balanced (fresh_state 0)"
  by (simp_all add: feed_wf_def fresh_state_def seq_range_def seq_consts tx_balanced_def)

theorem bridge_thread_survives_witness:
  "\<exists>b. run_forever sample_config (\<lambda>_. ''0.0'') [sample_iter False, sample_iter True, sample_iter True]
     (sample_bridge (fresh_state 0)) = (Inr (), b) \<and> tx_balanced (bst b) \<and> \<not> fc_connected (bst b)"
  using bridge_thread_survives[OF sample_config_ok fresh_feed_wf sample_bridge_new,
      of "[sample_iter False, sample_iter True, sample_iter True]" "\<lambda>_. ''0.0''"]
  by (auto simp: sample_iter_def env_ok_def quiet_env_def)

text \<open>
  When no vision message arrives between a tick's two reads of the shared state, a frame
  that asks the flight controller to track was built from the snapshot stored at that moment,
  and its receive time is at most \<open>vis_fresh_s\<close> before the tick.
\<close>

theorem tick_tracking_fresh:
  assumes "send_tick cfg fr env t b = (r, b')" "wire b' = wire b @ [f]"
    and "before_age env = []" "max_payload_bytes cfg < 2 ^ 32"
  shows "\<exists>p. frame_cmd_payload fr p (max_payload_bytes cfg) = Inr f \<and>
    (dget p ''desired_mode'' = Some (PInt MODE_TRACKING) \<longrightarrow>
      (\<exists>v rx trk x n. latest_vis (tick_state env b) = Some v \<and>
         vis_last_rx_monotonic_s (tick_state env b) = Some rx \<and>
         fle (fmax (Fin 0) (fsub t rx)) (vis_fresh_s cfg) \<and> dget p ''tracking'' = Some (PDict trk) \<and>
         dget v ''seq'' = Some x \<and> py_int x = Inr n \<and> dget trk ''vis_seq'' = Some (PInt n)))"
proof -
  have "\<exists>p bl. tick_built cfg env t b = Inr (p, bl)"
    using assms(1,2)
    by (cases "tick_built cfg env t b")
      (auto simp: send_tick_def tick_built_def tick_vis_def tick_state_def reserve_cmd_seq_def Let_def
        split_beta)
  then obtain p bl where built: "tick_built cfg env t b = Inr (p, bl)" by blast
  have f: "frame_cmd_payload fr p (max_payload_bytes cfg) = Inr f"
    using assms(1,2) unfolding send_tick_eq[OF built assms(4)]
    by (auto simp: send_frame_def Let_def split_beta split: sum.splits if_splits)
  have same: "tick_vis env b = latest_vis (tick_state env b)"
    using assms(3) by (simp add: tick_vis_def tick_state_def get_latest_vis_def)
  have gate: "\<exists>v ag trk x n. latest_vis (tick_state env b) = Some v \<and>
      get_vis_age_s t (tick_state env b) = Some ag \<and> fle ag (vis_fresh_s cfg) \<and>
      dget p ''tracking'' = Some (PDict trk) \<and> dget v ''seq'' = Some x \<and> py_int x = Inr n \<and>
      dget trk ''vis_seq'' = Some (PInt n)"
    if "dget p ''desired_mode'' = Some (PInt MODE_TRACKING)"
    using build_cmd_fresh[OF built[unfolded tick_built_def same] that] by blast
  show ?thesis
    using f gate by (fastforce simp: get_vis_age_s_def age_since_def)
qed

definition cmd_seq_of :: "pydict \<Rightarrow> int" where
  "cmd_seq_of p = (case dget p ''seq'' of Some (PInt q) \<Rightarrow> q | _ \<Rightarrow> -1)"

definition gated :: "pydict \<Rightarrow> bool" where
  "gated p = (dget p ''desired_mode'' = Some (PInt MODE_TRACKING) \<longrightarrow> dhas p ''tracking'')"

lemma built_gated:
  "build_cmd_payload q t it vis age fresh_s = Inr (p, b) \<Longrightarrow> cmd_seq_of p = q \<and> gated p"
  using build_cmd_fresh[of q t it vis age fresh_s p b]
  by (auto simp: gated_def dhas_dget cmd_seq_of_def elim!: build_cmd_payloadE)

lemma send_frame_wire:
  assumes "send_frame cfg env t f b = (r, b')"
  shows "(wire b' = wire b \<or> wire b' = wire b @ [f]) \<and> cmd_next_seq (bst b') = cmd_next_seq (bst b)"
  using assms tx_ok_state(3)[of t "bst b"]
  by (auto simp: send_frame_def Let_def split_beta cmd_part_def record_cmd_tx_fail_def set_fc_connected_def
      split: if_splits)

lemma send_tick_wire:
  assumes "config_ok cfg" "env_ok env" "feed_wf (bst b)" "send_tick cfg fr env t b = (r, b')"
  shows "(wire b' = wire b \<or> (\<exists>p f. wire b' = wire b @ [f] \<and> gated p \<and>
      frame_cmd_payload fr p (max_payload_bytes cfg) = Inr f \<and> cmd_seq_of p = cmd_next_seq (bst b))) \<and>
    cmd_next_seq (bst b') = next_seq (cmd_next_seq (bst b))"
proof -
  obtain p bl where built: "tick_built cfg env t b = Inr (p, bl)"
    using tick_built_returns[OF assms(1-3)] by metis
  have q: "cmd_next_seq (tick_state env b) = cmd_next_seq (bst b)"
    using tick_state_ok(2)[OF assms(2,3)] by (simp add: cmd_part_def)
  have p: "cmd_seq_of p = cmd_next_seq (bst b)" "gated p"
    using built_gated[OF built[unfolded tick_built_def]] q by simp_all
  have mx: "max_payload_bytes cfg < 2 ^ 32" using assms(1) by (simp add: config_ok_def)
  show ?thesis
  proof (cases "frame_cmd_payload fr p (max_payload_bytes cfg)")
    case (Inl e)
    then show ?thesis using assms(4) q unfolding send_tick_eq[OF built mx]
      by (auto simp: record_cmd_tx_fail_def record_cmd_tx_attempt_def set_tracking_blocked_reason_def
          reserve_cmd_seq_def Let_def)
  next
    case (Inr f)
    then show ?thesis using assms(4) q p unfolding send_tick_eq[OF built mx]
      by (auto simp: record_last_cmd_payload_def record_cmd_tx_attempt_def set_tracking_blocked_reason_def
          reserve_cmd_seq_def Let_def dest!: send_frame_wire)
  qed
qed

definition wire_inv :: "bridge_config \<Rightarrow> (real \<Rightarrow> string) \<Rightarrow> int \<Rightarrow> nat \<Rightarrow> cmd_bridge \<Rightarrow> bool" where
  \<comment> \<open>the frames so far carry the numbers of some of the first \<open>n\<close> reservations, in order\<close>
  "wire_inv cfg fr q0 n b = (\<exists>ps ks.
     list_all2 (\<lambda>p f. frame_cmd_payload fr p (max_payload_bytes cfg) = Inr f) ps (wire b) \<and>
     map cmd_seq_of ps = map (\<lambda>k. (q0 + int k) mod CMD_SEQ_MOD) ks \<and> sorted_wrt (<) ks \<and>
     list_all (\<lambda>k. k < n) ks \<and> list_all gated ps \<and>
     cmd_next_seq (bst b) = (q0 + int n) mod CMD_SEQ_MOD)"

lemma wire_inv_cong:
  "wire b' = wire b \<Longrightarrow> bst b' = bst b \<Longrightarrow> wire_inv cfg fr q0 n b \<Longrightarrow> wire_inv cfg fr q0 n b'"
  by (simp add: wire_inv_def)

lemma wire_inv_same:
  assumes "wire_inv cfg fr q0 n b" "wire b' = wire b" "cmd_next_seq (bst b') = next_seq (cmd_next_seq (bst b))"
    "seq_range (cmd_next_seq (bst b))"
  shows "wire_inv cfg fr q0 (Suc n) b'"
proof -
  obtain ps ks where i: "list_all2 (\<lambda>p f. frame_cmd_payload fr p (max_payload_bytes cfg) = Inr f) ps (wire b)"
    "map cmd_seq_of ps = map (\<lambda>k. (q0 + int k) mod CMD_SEQ_MOD) ks" "sorted_wrt (<) ks"
    "list_all (\<lambda>k. k < n) ks" "list_all gated ps" "cmd_next_seq (bst b) = (q0 + int n) mod CMD_SEQ_MOD"
    using assms(1) unfolding wire_inv_def by blast
  have "list_all (\<lambda>k. k < Suc n) ks" using i(4) by (auto simp: list_all_iff)
  moreover have "cmd_next_seq (bst b') = (q0 + int (Suc n)) mod CMD_SEQ_MOD"
    using next_seq_mod[OF assms(4)] assms(3) i(6) by (simp add: mod_simps ac_simps)
  ultimately show ?thesis using i(1-3,5) assms(2) unfolding wire_inv_def by metis
qed

lemma wire_inv_sent:
  assumes "wire_inv cfg fr q0 n b" "wire b' = wire b @ [f]" "gated p"
    "frame_cmd_payload fr p (max_payload_bytes cfg) = Inr f" "cmd_seq_of p = cmd_next_seq (bst b)"
    "cmd_next_seq (bst b') = next_seq (cmd_next_seq (bst b))" "seq_range (cmd_next_seq (bst b))"
  shows "wire_inv cfg fr q0 (Suc n) b'"
proof -
  obtain ps ks where i: "list_all2 (\<lambda>p f. frame_cmd_payload fr p (max_payload_bytes cfg) = Inr f) ps (wire b)"
    "map cmd_seq_of ps = map (\<lambda>k. (q0 + int k) mod CMD_SEQ_MOD) ks" "sorted_wrt (<) ks"
    "list_all (\<lambda>k. k < n) ks" "list_all gated ps" "cmd_next_seq (bst b) = (q0 + int n) mod CMD_SEQ_MOD"
    using assms(1) unfolding wire_inv_def by blast
  have "list_all2 (\<lambda>p f. frame_cmd_payload fr p (max_payload_bytes cfg) = Inr f) (ps @ [p]) (wire b')"
    using i(1) assms(2,4) by (simp add: list_all2_appendI)
  moreover have "map cmd_seq_of (ps @ [p]) = map (\<lambda>k. (q0 + int k) mod CMD_SEQ_MOD) (ks @ [n])"
    using i(2,6) assms(5) by simp
  moreover have "sorted_wrt (<) (ks @ [n])" "list_all (\<lambda>k. k < Suc n) (ks @ [n])"
    using i(3,4) by (auto simp: sorted_wrt_append list_all_iff)
  moreover have "cmd_next_seq (bst b') = (q0 + int (Suc n)) mod CMD_SEQ_MOD"
    using next_seq_mod[OF assms(7)] assms(6) i(6) by (simp add: mod_simps ac_simps)
  moreover have "list_all gated (ps @ [p])" using i(5) assms(3) by simp
  ultimately show ?thesis unfolding wire_inv_def by blast
qed

lemma iteration_wire:
  assumes "config_ok cfg" "env_ok (tick it)" "feed_wf (bst b)" "wire_inv cfg fr q0 n b"
  shows "\<exists>m \<le> Suc n. wire_inv cfg fr q0 m (snd (bridge_iteration cfg fr period it b))"
proof (cases "sock_open b")
  case False
  have "wire (attempt_connect cfg c l t b) = wire b \<and>
      cmd_next_seq (bst (attempt_connect cfg c l t b)) = cmd_next_seq (bst b)" for c l t
    by (auto simp: attempt_connect_def Let_def record_fc_connect_attempt_def set_fc_connected_def)
  then show ?thesis using False assms(4)
    by (auto simp: bridge_iteration_def wire_inv_def intro!: exI[of _ n])
next
  case True
  obtain r b' where t: "send_tick cfg fr (tick it) (loop_start_s it) b = (r, b')" by fastforce
  have q: "seq_range (cmd_next_seq (bst b))" using assms(3) by (simp add: feed_wf_def)
  from send_tick_wire[OF assms(1-3) t] have "wire_inv cfg fr q0 (Suc n) b'"
    using wire_inv_same[OF assms(4) _ _ q] wire_inv_sent[OF assms(4) _ _ _ _ _ q] by blast
  then have "wire_inv cfg fr q0 (Suc n) (snd (bridge_iteration cfg fr period it b))"
    using True t by (cases r) (auto simp: bridge_iteration_def elim!: wire_inv_cong[rotated 2])
  then show ?thesis by blast
qed

lemma loop_wire:
  assumes "config_ok cfg" "list_all (\<lambda>it. env_ok (tick it)) its" "bridge_inv cfg base b"
    "wire_inv cfg fr q0 n b"
  shows "\<exists>m \<le> n + length its. wire_inv cfg fr q0 m (snd (bridge_loop cfg fr period its b))"
  using assms(2-4)
proof (induction its arbitrary: b n)
  case (Cons it its)
  obtain x b1 where 1: "bridge_iteration cfg fr period it b = (x, b1)" by fastforce
  have e: "env_ok (tick it)" "list_all (\<lambda>it. env_ok (tick it)) its" using Cons.prems(1) by simp_all
  have i: "x = Inr ()" "bridge_inv cfg base b1"
    using iteration_inv[OF assms(1) e(1) Cons.prems(2), of fr period] 1 by simp_all
  have "feed_wf (bst b)" using Cons.prems(2) by (simp add: bridge_inv_def)
  then obtain m where m: "m \<le> Suc n" "wire_inv cfg fr q0 m b1"
    using iteration_wire[OF assms(1) e(1) _ Cons.prems(3), of period] 1 by auto
  from Cons.IH[OF e(2) i(2) m(2)] obtain k where "k \<le> m + length its"
    "wire_inv cfg fr q0 k (snd (bridge_loop cfg fr period its b1))" by blast
  then show ?case using 1 i(1) m(1) by (intro exI[of _ k]) simp
qed (auto)

lemma advances_between:
  assumes "i < j" "j - i \<le> nat CMD_SEQ_HALF"
  shows "seq_advances ((q + int i) mod CMD_SEQ_MOD) ((q + int j) mod CMD_SEQ_MOD)"
  unfolding seq_advances_iff_step using assms
  by (intro exI[of _ "int (j - i)"]) (auto simp: mod_simps of_nat_diff seq_consts)

text \<open>
  C23: What the flight controller gets. In a run of up to half the sequence space, the frames on
  the wire are command messages whose sequence numbers each advance past all the earlier ones,
  also across the wrap, so that the controller's duplicate filter accepts every one of them;
  and a message that commands tracking carries a target.
\<close>

theorem wire_seqs_advance:
  assumes "config_ok cfg" "feed_wf s" "tx_balanced s" "new_cmd_bridge cfg start s = Inr b0"
    and "list_all (\<lambda>it. env_ok (tick it)) its" "length its \<le> nat CMD_SEQ_HALF"
    and "run_forever cfg fr its b0 = (r, b)"
  shows "\<exists>ps. list_all2 (\<lambda>p f. frame_cmd_payload fr p (max_payload_bytes cfg) = Inr f) ps (wire b) \<and>
    sorted_wrt seq_advances (map cmd_seq_of ps) \<and> list_all gated ps"
proof -
  obtain period b1 where 1: "bridge_loop cfg fr period its (bridge_set_fc_connected False b0) = (Inr (), b1)"
    "run_forever cfg fr its b0 = (Inr (), bridge_set_fc_connected False (close_socket b1))"
    using run_forever_loop[OF assms(1-5), of fr] by metis
  let ?b0 = "bridge_set_fc_connected False b0" and ?q = "cmd_next_seq (bst b0)"
  have inv: "bridge_inv cfg (cmd_tx_ok s) ?b0" by (rule started_inv[OF assms(1-4)])
  then have "seq_range ?q" by (simp add: bridge_inv_def feed_wf_def set_fc_connected_def)
  then have "?q mod CMD_SEQ_MOD = ?q" by (simp add: seq_range_def seq_consts)
  then have "wire_inv cfg fr ?q 0 ?b0"
    using new_bridge_fields(2)[OF assms(4)] by (auto simp: wire_inv_def set_fc_connected_def)
  from loop_wire[OF assms(1,5) inv this, of period] 1(1)
  obtain m where m: "m \<le> length its" "wire_inv cfg fr ?q m b1" by auto
  obtain ps ks where i: "list_all2 (\<lambda>p f. frame_cmd_payload fr p (max_payload_bytes cfg) = Inr f) ps (wire b1)"
    "map cmd_seq_of ps = map (\<lambda>k. (?q + int k) mod CMD_SEQ_MOD) ks" "sorted_wrt (<) ks"
    "list_all (\<lambda>k. k < m) ks" "list_all gated ps"
    using m(2) unfolding wire_inv_def by blast
  have "sorted_wrt (\<lambda>i j. seq_advances ((?q + int i) mod CMD_SEQ_MOD) ((?q + int j) mod CMD_SEQ_MOD)) ks"
    using i(3)
  proof (rule sorted_wrt_mono_rel[rotated])
    fix x y assume "x \<in> set ks" "y \<in> set ks" "x < y"
    moreover have "y < m" using i(4) \<open>y \<in> set ks\<close> by (auto simp: list_all_iff)
    ultimately show "seq_advances ((?q + int x) mod CMD_SEQ_MOD) ((?q + int y) mod CMD_SEQ_MOD)"
      using m(1) assms(6) by (intro advances_between) auto
  qed
  then have "sorted_wrt seq_advances (map cmd_seq_of ps)" unfolding i(2) by (simp add: sorted_wrt_map)
  moreover have "wire b = wire b1" using 1(2) assms(7) by auto
  ultimately show ?thesis using i(1,5) by auto
qed

theorem wire_seqs_advance_witness:
  "\<exists>ps. list_all2 (\<lambda>p f. frame_cmd_payload (\<lambda>_. ''0.0'') p 4096 = Inr f) ps
      (wire (snd (run_forever sample_config (\<lambda>_. ''0.0'') [sample_iter True, sample_iter True]
         (sample_bridge (fresh_state 0))))) \<and>
    sorted_wrt seq_advances (map cmd_seq_of ps) \<and> list_all gated ps"
  using wire_seqs_advance[OF sample_config_ok fresh_feed_wf sample_bridge_new,
      of "[sample_iter True, sample_iter True]" "\<lambda>_. ''0.0''", OF _ _ surjective_pairing]
  by (simp add: sample_iter_def env_ok_def quiet_env_def seq_consts) (simp add: sample_config_def)

subsection \<open>The window between the two reads\<close>

text \<open>
  A bridge whose operator asks for tracking, with a snapshot received at time 0, ticking at
  time 10. In \<open>late_env\<close> a new vision message arrives after the snapshot was read and before
  its age is.
\<close>

definition tracking_state_at :: "pyfloat \<Rightarrow> shared_state" where
  "tracking_state_at rx = (fresh_state 7)\<lparr> latest_intent := Some [(''desired_mode'', PInt 1)],
     latest_vis := Some sample_vis, vis_last_rx_monotonic_s := Some rx \<rparr>"

definition linked_bridge :: "pyfloat \<Rightarrow> cmd_bridge" where
  "linked_bridge rx = (sample_bridge (tracking_state_at rx))\<lparr> sock_open := True \<rparr>"

definition late_env :: tick_env where
  "late_env = quiet_env\<lparr> before_age := [OpVisOk (vis_message 4 (Fin 10) 1 (Fin 0) (Fin 0) (Fin 0)
     (Fin 0) (Fin 0)) (Fin 10)] \<rparr>"

definition tracking_cmd :: pydict where
  "tracking_cmd = [(''type'', PStr ''CMD''), (''seq'', PInt 7), (''timestamp_s'', PFloat (Fin 10)),
     (''desired_mode'', PInt 1), (''tracking'', PDict sample_tracking)]"

lemma tracking_cmd_framed: "\<exists>f. frame_cmd_payload (\<lambda>_. ''0.5'') tracking_cmd 4096 = Inr f"
proof -
  have "length (json_bytes (\<lambda>_. ''0.5'') tracking_cmd) \<le> 4096 \<and> 1 \<le> length (json_bytes (\<lambda>_. ''0.5'') tracking_cmd)"
    by (simp add: json_bytes_def tracking_cmd_def sample_tracking_def quote_def escape_char_def
        dec_int_def dec_nat.simps digit_char_def utf8_ascii_def)
  then show ?thesis by (simp add: frame_cmd_payload_def pack_be32_def Let_def)
qed

lemma tracking_built:
  assumes "get_latest_intent (bst b) = Some [(''desired_mode'', PInt 1)]"
    "tick_vis env b = Some sample_vis" "get_vis_age_s (Fin 10) (tick_state env b) = Some (Fin 0)"
    "cmd_next_seq (tick_state env b) = 7"
  shows "tick_built sample_config env (Fin 10) b = Inr (tracking_cmd, None)"
  using assms by (simp add: tick_built_def build_cmd_payload_def read_intent_def int_at_def dindex_def
      mode_defs is_vis_fresh_def Let_def sample_tracking_built sample_config_def tracking_cmd_def)

lemma tracking_sent:
  assumes "tick_built sample_config env (Fin 10) b = Inr (tracking_cmd, None)"
    "sock_open b" "\<not> stopped env" "sends env"
    "frame_cmd_payload (\<lambda>_. ''0.5'') tracking_cmd 4096 = Inr f"
  shows "\<exists>b'. send_tick sample_config (\<lambda>_. ''0.5'') env (Fin 10) b = (Inr (), b') \<and> wire b' = wire b @ [f]"
proof -
  have mx: "max_payload_bytes sample_config = 4096" by (simp add: sample_config_def)
  then have "max_payload_bytes sample_config < 2 ^ 32" by simp
  from send_tick_eq[OF assms(1) this, of "\<lambda>_. ''0.5''"] assms(2-5) mx show ?thesis
    by (simp add: send_frame_def Let_def split_beta record_cmd_tx_ok_returns)
qed

theorem tick_tracking_fresh_witness:
  "\<exists>f p b'. send_tick sample_config (\<lambda>_. ''0.5'') quiet_env (Fin 10) (linked_bridge (Fin 10)) = (Inr (), b') \<and>
     wire b' = [f] \<and> frame_cmd_payload (\<lambda>_. ''0.5'') p 4096 = Inr f"
proof -
  have "tick_built sample_config quiet_env (Fin 10) (linked_bridge (Fin 10)) = Inr (tracking_cmd, None)"
    by (rule tracking_built)
      (simp_all add: linked_bridge_def sample_bridge_def tracking_state_at_def fresh_state_def tick_vis_def
        tick_state_def quiet_env_def get_latest_intent_def get_latest_vis_def get_vis_age_s_def
        age_since_def fsub_def fmax_def)
  with tracking_cmd_framed tracking_sent obtain f b' where
    1: "send_tick sample_config (\<lambda>_. ''0.5'') quiet_env (Fin 10) (linked_bridge (Fin 10)) = (Inr (), b')"
    "wire b' = wire (linked_bridge (Fin 10)) @ [f]"
    by (fastforce simp: linked_bridge_def quiet_env_def)
  from tick_tracking_fresh[OF 1] 1 show ?thesis
    by (auto simp: quiet_env_def sample_config_def linked_bridge_def sample_bridge_def)
qed

text \<open>
  C36: The window is real. With a vision message arriving between the two reads, the tick pairs
  the old snapshot with the age of the new one: a target received ten seconds ago is sent with
  the command to track it, although the freshness limit is a quarter of a second and the new
  message says that the target is lost.
\<close>

theorem tick_race_sends_stale_target:
  "\<exists>f b'. send_tick sample_config (\<lambda>_. ''0.5'') late_env (Fin 10) (linked_bridge (Fin 0)) = (Inr (), b') \<and>
     wire b' = [f] \<and> frame_cmd_payload (\<lambda>_. ''0.5'') tracking_cmd 4096 = Inr f \<and>
     dget tracking_cmd ''desired_mode'' = Some (PInt MODE_TRACKING) \<and>
     dget tracking_cmd ''tracking'' = Some (PDict sample_tracking) \<and>
     vis_last_rx_monotonic_s (bst (linked_bridge (Fin 0))) = Some (Fin 0)"
proof -
  have "tick_built sample_config late_env (Fin 10) (linked_bridge (Fin 0)) = Inr (tracking_cmd, None)"
    by (rule tracking_built)
      (simp_all add: linked_bridge_def sample_bridge_def tracking_state_at_def fresh_state_def tick_vis_def
        tick_state_def late_env_def quiet_env_def get_latest_intent_def get_latest_vis_def get_vis_age_s_def
        age_since_def fsub_def fmax_def record_vis_ok_eq vis_message_def)
  with tracking_cmd_framed tracking_sent show ?thesis
    by (fastforce simp: linked_bridge_def late_env_def quiet_env_def sample_bridge_def tracking_state_at_def
        tracking_cmd_def MODE_TRACKING_def)
qed

end
