(* ===== verification/Ws_Manager.thy ===== *)
theory Ws_Manager
  imports Py_Value Drone_Prelude "HOL-Library.Sublist"
begin

section \<open>The WebSocket manager\<close>

text \<open>
  \<open>src/src/backend/ws_manager.py\<close>: numbered envelopes, pushed to one bounded queue per
  client. A client that reads too slowly loses its oldest envelopes. The interface
  \<open>drop_oldest_queue\<close> states what such a queue promises to the reader; the properties of the
  manager follow from it for every client at once.
\<close>

definition WS_ENVELOPE_VERSION :: int where
  "WS_ENVELOPE_VERSION = 1"

record client_queue =
  websocket :: nat
  cq_items :: "pydict list"

record ws_manager =
  queue_max :: nat
  clients :: "(int \<times> client_queue) list"
  next_client_id :: int
  next_event_seq :: int

definition new_ws_manager :: "int \<Rightarrow> pyexc + ws_manager" where
  "new_ws_manager qmax =
     rbind (guard_raise (\<not> qmax \<le> 0) (ValueError (Msg ''queue_max must be > 0'')))
       (\<lambda>_. Inr \<lparr> queue_max = nat qmax, clients = [], next_client_id = 1, next_event_seq = 1 \<rparr>)"

definition register :: "nat \<Rightarrow> ws_manager \<Rightarrow> int \<times> ws_manager" where
  "register ws m = (let client_id = next_client_id m in
     (client_id, m\<lparr> next_client_id := client_id + 1,
        clients := AList.update client_id \<lparr> websocket = ws, cq_items = [] \<rparr> (clients m) \<rparr>))"

definition unregister :: "int \<Rightarrow> ws_manager \<Rightarrow> ws_manager" where
  "unregister client_id m = m\<lparr> clients := AList.delete client_id (clients m) \<rparr>"

definition build_envelope :: "string \<Rightarrow> pydict \<Rightarrow> pyfloat \<Rightarrow> ws_manager \<Rightarrow> pydict \<times> ws_manager" where
  \<comment> \<open>\<open>now_s\<close> is the given timestamp or the clock\<close>
  "build_envelope event data now_s m =
     ([(''ws_ver'', PInt WS_ENVELOPE_VERSION), (''event'', PStr event), (''data'', PDict data),
       (''timestamp_s'', PFloat now_s), (''seq'', PInt (next_event_seq m))],
      m\<lparr> next_event_seq := next_event_seq m + 1 \<rparr>)"

definition enqueue :: "nat \<Rightarrow> pydict \<Rightarrow> client_queue \<Rightarrow> client_queue" where
  "enqueue qmax envelope c =
     (let q = (if qmax \<le> length (cq_items c) then tl (cq_items c) else cq_items c)
      in c\<lparr> cq_items := q @ [envelope] \<rparr>)"

definition dequeue :: "client_queue \<Rightarrow> (pydict \<times> client_queue) option" where
  "dequeue c = (case cq_items c of [] \<Rightarrow> None | x # xs \<Rightarrow> Some (x, c\<lparr> cq_items := xs \<rparr>))"

definition broadcast_envelope :: "pydict \<Rightarrow> ws_manager \<Rightarrow> ws_manager" where
  "broadcast_envelope envelope m =
     m\<lparr> clients := map (\<lambda>(i, c). (i, enqueue (queue_max m) envelope c)) (clients m) \<rparr>"

definition ws_broadcast :: "string \<Rightarrow> pydict \<Rightarrow> pyfloat \<Rightarrow> ws_manager \<Rightarrow> pydict \<times> ws_manager" where
  "ws_broadcast event data now_s m =
     (let (envelope, m') = build_envelope event data now_s m
      in (envelope, broadcast_envelope envelope m'))"

definition pop_next :: "int \<Rightarrow> ws_manager \<Rightarrow> pydict option \<times> ws_manager" where
  "pop_next client_id m =
     (case map_of (clients m) client_id of
        None \<Rightarrow> (None, m)
      | Some c \<Rightarrow> (case dequeue c of
            None \<Rightarrow> (None, m)
          | Some (x, c') \<Rightarrow> (Some x, m\<lparr> clients := AList.update client_id c' (clients m) \<rparr>)))"

definition client_count :: "ws_manager \<Rightarrow> nat" where
  "client_count m = length (clients m)"

subsection \<open>Interface: a bounded queue that drops its oldest item\<close>

locale drop_oldest_queue =
  fixes enq :: "'a \<Rightarrow> 'q \<Rightarrow> 'q"
    and deq :: "'q \<Rightarrow> ('a \<times> 'q) option"
    and items :: "'q \<Rightarrow> 'a list"
    and cap :: nat
  assumes cap_pos: "0 < cap"
    and items_enq: "items (enq x q) = (if cap \<le> length (items q) then tl (items q) else items q) @ [x]"
    and deq_None: "deq q = None \<longleftrightarrow> items q = []"
    and deq_Some: "deq q = Some (x, q') \<Longrightarrow> items q = x # items q'"
begin

definition stream :: "'a list \<Rightarrow> 'q \<Rightarrow> 'a list \<Rightarrow> bool" where
  \<comment> \<open>\<open>out\<close> was read from a queue into which \<open>sent\<close> was put\<close>
  "stream out q sent = (subseq (out @ items q) sent \<and> suffix (items q) sent \<and> length (items q) \<le> cap)"

lemma stream_init: "items q = [] \<Longrightarrow> stream [] q []"
  by (simp add: stream_def)

lemma stream_enq:
  assumes "stream out q sent"
  shows "stream out (enq x q) (sent @ [x])"
proof -
  have tl: "subseq (out @ tl (items q)) (out @ items q)"
    by (cases "items q") (simp_all add: list_emb_append_mono subseq_Cons')
  have q: "subseq (out @ items q) sent" "suffix (items q) sent" using assms by (simp_all add: stream_def)
  have "subseq (out @ tl (items q)) sent" by (rule subseq_order.trans[OF tl q(1)])
  moreover have "suffix (tl (items q)) sent" by (rule suffix_order.trans[OF _ q(2)]) simp
  ultimately have "subseq (out @ tl (items q)) sent" "suffix (tl (items q)) sent" by simp_all
  then show ?thesis
    using assms cap_pos
    by (auto simp: stream_def items_enq suffix_def simp flip: append_assoc
        intro!: list_emb_append_mono)
qed

lemma stream_deq:
  assumes "stream out q sent" "deq q = Some (x, q')"
  shows "stream (out @ [x]) q' sent"
  using assms deq_Some[OF assms(2)] by (auto simp: stream_def suffix_def)

lemma enq_bounded: "length (items q) \<le> cap \<Longrightarrow> length (items (enq x q)) \<le> cap"
  using cap_pos by (auto simp: items_enq)

end

interpretation cq: drop_oldest_queue "enqueue (Suc n)" dequeue cq_items "Suc n" for n
  by unfold_locales (auto simp: enqueue_def dequeue_def Let_def split: list.splits)

subsection \<open>Runs of the manager\<close>

text \<open>
  \<open>broadcast\<close> takes the lock twice, to number the envelope and to list the clients, so two
  threads can deliver in another order than they numbered: \<open>Number\<close> and \<open>Deliver\<close> are the two
  halves as separate steps, \<open>Broadcast\<close> is a call that no other broadcast interrupts.
\<close>

datatype ws_op =
  Register nat | Unregister int | Broadcast string pydict pyfloat
| Number string pydict pyfloat | Deliver pydict | Pop int

datatype ws_result =
  Registered int | Unregistered | Numbered pydict | Sent pydict | Popped int "pydict option"

fun ws_step :: "ws_op \<Rightarrow> ws_manager \<Rightarrow> ws_result \<times> ws_manager" where
  "ws_step (Register w) m = (let (i, m') = register w m in (Registered i, m'))"
| "ws_step (Unregister i) m = (Unregistered, unregister i m)"
| "ws_step (Broadcast ev d t) m = (let (e, m') = ws_broadcast ev d t m in (Sent e, m'))"
| "ws_step (Number ev d t) m = (let (e, m') = build_envelope ev d t m in (Numbered e, m'))"
| "ws_step (Deliver e) m = (Sent e, broadcast_envelope e m)"
| "ws_step (Pop i) m = (let (r, m') = pop_next i m in (Popped i r, m'))"

fun ws_run :: "ws_op list \<Rightarrow> ws_manager \<Rightarrow> ws_result list \<times> ws_manager" where
  "ws_run [] m = ([], m)"
| "ws_run (p # ps) m =
     (let (r, m') = ws_step p m; (rs, m'') = ws_run ps m' in (r # rs, m''))"

fun sent :: "ws_result list \<Rightarrow> pydict list" where
  "sent [] = []"
| "sent (Sent e # rs) = e # sent rs"
| "sent (_ # rs) = sent rs"

fun popped :: "int \<Rightarrow> ws_result list \<Rightarrow> pydict list" where
  "popped i [] = []"
| "popped i (Popped j (Some e) # rs) = (if j = i then e # popped i rs else popped i rs)"
| "popped i (_ # rs) = popped i rs"

definition ids_ok :: "ws_manager \<Rightarrow> bool" where
  "ids_ok m = (0 < queue_max m \<and> distinct (map fst (clients m)) \<and>
     list_all (\<lambda>i. i < next_client_id m) (map fst (clients m)))"

lemma update_keys: "set (map fst (AList.update k v d)) = insert k (set (map fst d))"
  using dom_update[of k v d] by (simp add: dom_map_of_conv_image_fst)

lemma map_of_update_keys:
  "map_of d k = Some c \<Longrightarrow> map fst (AList.update k v d) = map fst d"
  by (induction d) (auto split: if_splits)

lemma map_fst_map_snd: "map fst (map (\<lambda>(i, c). (i, f c)) xs) = map fst xs"
  by (induction xs) auto

lemma ids_ok_step: "ids_ok m \<Longrightarrow> ids_ok (snd (ws_step p m))"
proof (cases p)
  case (Register w)
  moreover assume "ids_ok m"
  ultimately show ?thesis
    using update_keys[of "next_client_id m" _ "clients m"]
    by (auto simp: ids_ok_def register_def list_all_iff distinct_update Let_def)
next
  case (Unregister i)
  moreover assume "ids_ok m"
  ultimately show ?thesis
    by (auto simp: ids_ok_def unregister_def list_all_iff delete_keys distinct_removeAll)
next
  case (Broadcast ev d t)
  moreover assume "ids_ok m"
  ultimately show ?thesis
    by (simp add: ids_ok_def ws_broadcast_def build_envelope_def broadcast_envelope_def
        map_fst_map_snd del: map_map)
next
  case (Number ev d t)
  moreover assume "ids_ok m"
  ultimately show ?thesis by (simp add: ids_ok_def build_envelope_def)
next
  case (Deliver e)
  moreover assume "ids_ok m"
  ultimately show ?thesis by (simp add: ids_ok_def broadcast_envelope_def map_fst_map_snd del: map_map)
next
  case (Pop i)
  moreover assume "ids_ok m"
  ultimately show ?thesis
    by (simp add: ids_ok_def pop_next_def distinct_update map_of_update_keys split: option.splits)
qed

lemma popped_Cons: "popped i (r # rs) = popped i [r] @ popped i rs"
proof (cases r)
  case (Popped j v)
  then show ?thesis by (cases v) simp_all
qed simp_all

lemma sent_Cons: "sent (r # rs) = sent [r] @ sent rs"
  by (cases r) auto

lemma map_of_map_snd: "map_of (map (\<lambda>(i, c). (i, f c)) xs) k = map_option f (map_of xs k)"
  by (induction xs) auto

lemma fresh_id_absent: "ids_ok m \<Longrightarrow> map_of (clients m) (next_client_id m) = None"
  by (auto simp: ids_ok_def list_all_iff map_of_eq_None_iff)

lemma stream_step:
  assumes n: "queue_max m = Suc n" and c: "map_of (clients m) cid = Some c"
    and st: "cq.stream n out c snt" and p: "p \<noteq> Unregister cid" and ok: "ids_ok m"
    and step: "ws_step p m = (r, m')"
  shows "\<exists>c'. map_of (clients m') cid = Some c' \<and> queue_max m' = Suc n \<and>
    cq.stream n (out @ popped cid [r]) c' (snt @ sent [r])"
proof (cases p)
  case (Register w)
  have "cid \<noteq> next_client_id m" using fresh_id_absent[OF ok] c by auto
  then show ?thesis using Register step n c st by (auto simp: register_def Let_def update_conv')
next
  case (Unregister i)
  then show ?thesis using p step n c st
    by (auto simp: unregister_def delete_conv')
next
  case (Broadcast ev d t)
  then show ?thesis using step n c cq.stream_enq[OF st]
    by (auto simp: ws_broadcast_def build_envelope_def broadcast_envelope_def map_of_map_snd)
next
  case (Number ev d t)
  then show ?thesis using step n c st by (auto simp: build_envelope_def)
next
  case (Deliver e)
  then show ?thesis using step n c cq.stream_enq[OF st]
    by (auto simp: broadcast_envelope_def map_of_map_snd)
next
  case (Pop i)
  show ?thesis
  proof (cases "i = cid")
    case True
    then show ?thesis using Pop step n c st cq.stream_deq[OF st]
      by (auto simp: pop_next_def update_conv' split: option.splits)
  next
    case False
    then show ?thesis using Pop step n c st
      by (auto simp: pop_next_def update_conv' split: option.splits)
  qed
qed

lemma stream_run:
  assumes "queue_max m = Suc n" "map_of (clients m) cid = Some c" "cq.stream n out c snt"
    "Unregister cid \<notin> set ps" "ids_ok m" "ws_run ps m = (rs, m')"
  shows "\<exists>c'. map_of (clients m') cid = Some c' \<and> queue_max m' = Suc n \<and>
    cq.stream n (out @ popped cid rs) c' (snt @ sent rs)"
  using assms
proof (induction ps arbitrary: m c out snt rs)
  case (Cons p ps)
  obtain r m1 where 1: "ws_step p m = (r, m1)" by fastforce
  then obtain rs' where rs: "ws_run ps m1 = (rs', m')" "rs = r # rs'"
    using Cons.prems(6) by (auto simp: Let_def split: prod.splits)
  obtain c1 where c1: "map_of (clients m1) cid = Some c1" "queue_max m1 = Suc n"
    "cq.stream n (out @ popped cid [r]) c1 (snt @ sent [r])"
    using stream_step[OF Cons.prems(1-3) _ Cons.prems(5) 1] Cons.prems(4) by auto
  have "ids_ok m1" using ids_ok_step[OF Cons.prems(5), of p] 1 by simp
  from Cons.IH[OF c1(2,1,3) _ this rs(1)] Cons.prems(4) rs(2) show ?case
    by (simp add: popped_Cons[of cid r rs'] sent_Cons[of r rs'])
qed simp

text \<open>
  C30: What a client sees. From its registration on, whatever the other clients and threads
  do, the envelopes it has popped followed by those still queued are a subsequence, in order
  and without repetition, of those broadcast; what is queued is the newest part of the
  broadcasts, and never more than \<open>queue_max\<close>.
\<close>

theorem ws_client_stream:
  assumes "ids_ok m" "register w m = (cid, m0)" "Unregister cid \<notin> set ps" "ws_run ps m0 = (rs, m')"
  shows "\<exists>c. map_of (clients m') cid = Some c \<and> subseq (popped cid rs @ cq_items c) (sent rs) \<and>
    suffix (cq_items c) (sent rs) \<and> length (cq_items c) \<le> queue_max m"
proof -
  obtain n where n: "queue_max m = Suc n" using assms(1) by (auto simp: ids_ok_def gr0_conv_Suc)
  let ?c = "\<lparr> websocket = w, cq_items = [] \<rparr>"
  have m0: "queue_max m0 = Suc n" "map_of (clients m0) cid = Some ?c"
    using assms(2) n by (auto simp: register_def Let_def update_conv')
  have "ids_ok m0" using ids_ok_step[OF assms(1), of "Register w"] assms(2) by simp
  from stream_run[OF m0 cq.stream_init assms(3) this assms(4)] n show ?thesis
    by (auto simp: cq.stream_def)
qed

theorem ws_client_stream_witness:
  "\<exists>c. map_of (clients (snd (ws_run [Broadcast ''A'' [] (Fin 0), Register 8, Pop 1]
       (snd (register 7 \<lparr> queue_max = 1, clients = [], next_client_id = 1, next_event_seq = 1 \<rparr>))))) 1 = Some c
     \<and> length (cq_items c) \<le> 1"
  using ws_client_stream[of "\<lparr> queue_max = 1, clients = [], next_client_id = 1, next_event_seq = 1 \<rparr>" 7 1
      _ "[Broadcast ''A'' [] (Fin 0), Register 8, Pop 1]", OF _ _ _ surjective_pairing]
  by (auto simp: ids_ok_def register_def)

definition env_seq :: "pydict \<Rightarrow> int" where
  "env_seq e = (case dget e ''seq'' of Some (PInt q) \<Rightarrow> q | _ \<Rightarrow> 0)"

lemma env_seq_envelope [simp]:
  "env_seq [(''ws_ver'', a), (''event'', b), (''data'', c), (''timestamp_s'', d), (''seq'', PInt q)] = q"
  by (simp add: env_seq_def)

definition whole_broadcasts :: "ws_op list \<Rightarrow> bool" where
  "whole_broadcasts ps = list_all (\<lambda>p. case p of Deliver _ \<Rightarrow> False | _ \<Rightarrow> True) ps"

lemma sent_seqs:
  "ws_run ps m = (rs, m') \<Longrightarrow> whole_broadcasts ps \<Longrightarrow>
   sorted_wrt (<) (map env_seq (sent rs)) \<and> (\<forall>e\<in>set (sent rs). next_event_seq m \<le> env_seq e) \<and>
   next_event_seq m \<le> next_event_seq m'"
proof (induction ps arbitrary: m rs)
  case (Cons p ps)
  obtain r m1 where 1: "ws_step p m = (r, m1)" by fastforce
  then obtain rs' where rs: "ws_run ps m1 = (rs', m')" "rs = r # rs'"
    using Cons.prems(1) by (auto simp: Let_def split: prod.splits)
  have p: "whole_broadcasts [p]" "whole_broadcasts ps"
    using Cons.prems(2) by (auto simp: whole_broadcasts_def)
  have "(\<exists>e. r = Sent e \<and> env_seq e = next_event_seq m \<and> next_event_seq m1 = next_event_seq m + 1) \<or>
      (sent [r] = [] \<and> next_event_seq m \<le> next_event_seq m1)"
    using 1 p(1) by (cases p) (auto simp: whole_broadcasts_def register_def unregister_def ws_broadcast_def build_envelope_def
        broadcast_envelope_def pop_next_def Let_def split: prod.splits option.splits)
  then show ?case using Cons.IH[OF rs(1) p(2)] rs(2) by (cases r) fastforce+
qed simp

lemma subseq_prefix_trans: "subseq (xs @ ys) zs \<Longrightarrow> subseq xs zs"
  by (rule subseq_order.trans[of _ "xs @ ys"]) (simp_all add: prefix_imp_subseq)

lemma sorted_wrt_subseq: "subseq xs ys \<Longrightarrow> sorted_wrt P ys \<Longrightarrow> sorted_wrt P xs"
  by (induction rule: list_emb.induct) (auto dest: list_emb_set)

text \<open>
  As long as no two broadcasts overlap, the envelopes a client pops carry strictly
  increasing sequence numbers, so it can detect every gap by looking at them.
\<close>

theorem ws_pop_increasing:
  assumes "ids_ok m" "register w m = (cid, m0)" "Unregister cid \<notin> set ps" "ws_run ps m0 = (rs, m')"
    and "whole_broadcasts ps"
  shows "sorted_wrt (<) (map env_seq (popped cid rs))"
proof -
  obtain n where n: "queue_max m = Suc n" using assms(1) by (auto simp: ids_ok_def gr0_conv_Suc)
  have m0: "queue_max m0 = Suc n" "map_of (clients m0) cid = Some \<lparr> websocket = w, cq_items = [] \<rparr>"
    using assms(2) n by (auto simp: register_def Let_def update_conv')
  have "ids_ok m0" using ids_ok_step[OF assms(1), of "Register w"] assms(2) by simp
  from stream_run[OF m0 cq.stream_init assms(3) this assms(4)]
  have "subseq (popped cid rs) (sent rs)" by (auto simp: cq.stream_def intro: subseq_prefix_trans)
  then show ?thesis using sent_seqs[OF assms(4,5)] sorted_wrt_subseq subseq_map by blast
qed

theorem ws_pop_increasing_witness:
  "sorted_wrt (<) (map env_seq (popped 1 (fst (ws_run
      [Broadcast ''A'' [] (Fin 0), Broadcast ''B'' [] (Fin 0), Pop 1, Pop 1]
       (snd (register 7 \<lparr> queue_max = 1, clients = [], next_client_id = 1, next_event_seq = 1 \<rparr>))))))"
  using ws_pop_increasing[of "\<lparr> queue_max = 1, clients = [], next_client_id = 1, next_event_seq = 1 \<rparr>" 7 1
      _ "[Broadcast ''A'' [] (Fin 0), Broadcast ''B'' [] (Fin 0), Pop 1, Pop 1]", OF _ _ _ surjective_pairing]
  by (auto simp: ids_ok_def register_def whole_broadcasts_def)

text \<open>Overlapping broadcasts of two threads reach a client out of order.\<close>

lemma overlapping_broadcasts_disorder:
  assumes "fst (build_envelope ''A'' [] t m) = a"
    and "fst (build_envelope ''B'' [] t (snd (build_envelope ''A'' [] t m))) = b"
  shows "map env_seq (sent (fst (ws_run [Number ''A'' [] t, Number ''B'' [] t, Deliver b, Deliver a] m)))
    = [next_event_seq m + 1, next_event_seq m]"
  using assms by (auto simp: build_envelope_def broadcast_envelope_def)

end
