(* ===== verification/Broadcast.thy ===== *)
theory Broadcast
  imports Ws_Manager State_Views Json_Text
begin

section \<open>Broadcasting of updates, link status and warnings\<close>

text \<open>
  \<open>src/src/backend/broadcast.py\<close>: what is pushed to the WebSocket clients, and how often. An
  event kind is sent at most at its configured rate and a kind of warning at most once per
  interval; the interface \<open>emission_gate\<close> states that promise once and is interpreted on the
  two gates of the code. The clock and the optional provider of extra link-status fields are
  arguments.
\<close>

definition EVENT_TEL_UPDATE :: string where "EVENT_TEL_UPDATE = ''TEL_UPDATE''"
definition EVENT_VIS_UPDATE :: string where "EVENT_VIS_UPDATE = ''VIS_UPDATE''"
definition EVENT_LINK_STATUS :: string where "EVENT_LINK_STATUS = ''LINK_STATUS''"
definition EVENT_WARNING :: string where "EVENT_WARNING = ''WARNING''"

lemmas event_defs = EVENT_TEL_UPDATE_def EVENT_VIS_UPDATE_def EVENT_LINK_STATUS_def EVENT_WARNING_def

record broadcast_config =
  tel_hz :: pyfloat
  vis_hz :: pyfloat
  link_hz :: pyfloat
  bc_vis_fresh_s :: pyfloat
  tel_fresh_s :: pyfloat
  cmd_timeout_s :: pyfloat
  cmd_hz_nominal :: pyfloat
  tel_hz_nominal :: pyfloat
  warning_min_interval_s :: pyfloat

record broadcaster =
  ws :: ws_manager
  last_emit_s :: "string \<Rightarrow> pyfloat option"
  warning_last_emit_s :: "string \<Rightarrow> pyfloat option"

definition check_broadcast_config :: "broadcast_config \<Rightarrow> pyexc + unit" where
  "check_broadcast_config cfg =
     rbind (guard_raise (\<not> fle (tel_hz cfg) (Fin 0)) (ValueError (Msg ''tel_hz must be > 0''))) (\<lambda>_.
     rbind (guard_raise (\<not> fle (vis_hz cfg) (Fin 0)) (ValueError (Msg ''vis_hz must be > 0''))) (\<lambda>_.
     rbind (guard_raise (\<not> fle (link_hz cfg) (Fin 0)) (ValueError (Msg ''link_hz must be > 0''))) (\<lambda>_.
     rbind (guard_raise (\<not> flt (bc_vis_fresh_s cfg) (Fin 0)) (ValueError (Msg ''vis_fresh_s must be >= 0''))) (\<lambda>_.
     rbind (guard_raise (\<not> fle (tel_fresh_s cfg) (Fin 0)) (ValueError (Msg ''tel_fresh_s must be > 0''))) (\<lambda>_.
     rbind (guard_raise (\<not> fle (cmd_timeout_s cfg) (Fin 0)) (ValueError (Msg ''cmd_timeout_s must be > 0''))) (\<lambda>_.
     guard_raise (\<not> flt (warning_min_interval_s cfg) (Fin 0))
       (ValueError (Msg ''warning_min_interval_s must be >= 0''))))))))"

definition new_broadcaster :: "broadcast_config \<Rightarrow> ws_manager \<Rightarrow> pyexc + broadcaster" where
  "new_broadcaster cfg m = rbind (check_broadcast_config cfg) (\<lambda>_. Inr
     \<lparr> ws = m, last_emit_s = Map.empty, warning_last_emit_s = Map.empty \<rparr>)"

subsection \<open>Payloads\<close>

definition build_link_status ::
  "broadcast_config \<Rightarrow> (pyfloat \<Rightarrow> pydict) option \<Rightarrow> pyfloat \<Rightarrow> shared_state \<Rightarrow> pydict" where
  "build_link_status cfg extra now_s s =
     (let payload = get_link_status (bc_vis_fresh_s cfg) (tel_fresh_s cfg) (cmd_timeout_s cfg)
            (cmd_hz_nominal cfg) (tel_hz_nominal cfg) now_s s
      in case extra of None \<Rightarrow> payload | Some f \<Rightarrow> dupdate payload (f now_s))"

definition build_tel_update_data :: "pyfloat \<Rightarrow> shared_state \<Rightarrow> pydict option" where
  "build_tel_update_data now_s s =
     (case get_latest_tel_with_meta s of
        (None, _) \<Rightarrow> None
      | (Some tel_snapshot, tel_rx_s) \<Rightarrow>
          Some (dset ''tel_age_s'' (opt_val PFloat (get_tel_age_s now_s s))
                 (dset ''rx_monotonic_s'' (opt_val PFloat tel_rx_s) tel_snapshot)))"

definition build_vis_update_data :: "pyfloat \<Rightarrow> shared_state \<Rightarrow> pydict option" where
  "build_vis_update_data now_s s =
     (case get_latest_vis_with_meta s of
        (None, _) \<Rightarrow> None
      | (Some vis_snapshot, vis_rx_s) \<Rightarrow>
          Some (dset ''vis_age_s'' (opt_val PFloat (get_vis_age_s now_s s))
                 (dset ''rx_monotonic_s'' (opt_val PFloat vis_rx_s) vis_snapshot)))"

subsection \<open>The gates\<close>

definition period_s :: "broadcast_config \<Rightarrow> string \<Rightarrow> pyexc + pyfloat" where
  "period_s cfg event =
     (let inverse_of = (\<lambda>hz. case fdiv (Fin 1) hz of None \<Rightarrow> Inl ZeroDivisionError | Some p \<Rightarrow> Inr p) in
      if event = EVENT_TEL_UPDATE then inverse_of (tel_hz cfg)
      else if event = EVENT_VIS_UPDATE then inverse_of (vis_hz cfg)
      else if event = EVENT_LINK_STATUS then inverse_of (link_hz cfg)
      else Inr (Fin 0))"

definition can_emit :: "broadcast_config \<Rightarrow> string \<Rightarrow> pyfloat \<Rightarrow> bool \<Rightarrow> broadcaster \<Rightarrow> pyexc + bool" where
  "can_emit cfg event now_s force b =
     (if force then Inr True
      else rbind (period_s cfg event) (\<lambda>p.
        case last_emit_s b event of None \<Rightarrow> Inr True
        | Some l \<Rightarrow> Inr (fle p (fsub now_s l))))"

definition send_event :: "string \<Rightarrow> pydict \<Rightarrow> pyfloat \<Rightarrow> broadcaster \<Rightarrow> broadcaster" where
  "send_event event payload now_s b =
     b\<lparr> ws := snd (ws_broadcast event payload now_s (ws b)),
        last_emit_s := (last_emit_s b)(event \<mapsto> now_s) \<rparr>"

definition broadcast_update ::
  "broadcast_config \<Rightarrow> string \<Rightarrow> pydict option \<Rightarrow> pyfloat \<Rightarrow> bool \<Rightarrow> (pyexc, broadcaster, bool) eff" where
  \<comment> \<open>the body the three methods share; \<open>None\<close> is a snapshot not yet received\<close>
  "broadcast_update cfg event payload now_s force b =
     (case can_emit cfg event now_s force b of
        Inl e \<Rightarrow> (Inl e, b)
      | Inr ok \<Rightarrow>
          if \<not> ok then (Inr False, b)
          else (case payload of None \<Rightarrow> (Inr False, b)
                | Some p \<Rightarrow> (Inr True, send_event event p now_s b)))"

definition broadcast_tel_update where
  "broadcast_tel_update cfg s now_s force =
     broadcast_update cfg EVENT_TEL_UPDATE (build_tel_update_data now_s s) now_s force"

definition broadcast_vis_update where
  "broadcast_vis_update cfg s now_s force =
     broadcast_update cfg EVENT_VIS_UPDATE (build_vis_update_data now_s s) now_s force"

definition broadcast_link_status where
  "broadcast_link_status cfg extra s now_s force =
     broadcast_update cfg EVENT_LINK_STATUS (Some (build_link_status cfg extra now_s s)) now_s force"

definition emit_warning ::
  "broadcast_config \<Rightarrow> string \<Rightarrow> string \<Rightarrow> string \<Rightarrow> pyfloat \<Rightarrow> broadcaster \<Rightarrow> bool \<times> broadcaster" where
  "emit_warning cfg kind text severity now_s b =
     (if (case warning_last_emit_s b kind of None \<Rightarrow> False
          | Some l \<Rightarrow> flt (Fin 0) (warning_min_interval_s cfg)
                     \<and> flt (fsub now_s l) (warning_min_interval_s cfg))
      then (False, b)
      else (True, b\<lparr> ws := snd (ws_broadcast EVENT_WARNING
                [(''kind'', PStr kind), (''detail'', PStr text), (''severity'', PStr severity)] now_s (ws b)),
              warning_last_emit_s := (warning_last_emit_s b)(kind \<mapsto> now_s) \<rparr>))"

subsection \<open>Callbacks of the other components\<close>

definition on_tel_update where
  \<comment> \<open>called by the ingestor with the receive time\<close>
  "on_tel_update cfg s rx = broadcast_tel_update cfg s rx False"

definition on_vis_update where
  "on_vis_update cfg s rx = broadcast_vis_update cfg s rx False"

definition on_tel_drop ::
  "broadcast_config \<Rightarrow> shared_state \<Rightarrow> string \<Rightarrow> string \<Rightarrow> pyfloat \<Rightarrow> broadcaster \<Rightarrow> broadcaster" where
  "on_tel_drop cfg s reason text clk b =
     (if reason = ''oversize''
      then snd (emit_warning cfg ''tel_oversize_drop''
        (''Oversize TEL datagram dropped: '' @ text @ '' (count='' @
           dec_int (int (tel_drop_reason_oversize s)) @ '')'') ''warn'' clk b)
      else b)"

definition on_vis_drop ::
  "broadcast_config \<Rightarrow> shared_state \<Rightarrow> string \<Rightarrow> string \<Rightarrow> pyfloat \<Rightarrow> broadcaster \<Rightarrow> broadcaster" where
  "on_vis_drop cfg s reason text clk b =
     (if reason = ''oversize''
      then snd (emit_warning cfg ''vis_oversize_drop''
        (''Oversize VIS datagram dropped: '' @ text @ '' (count='' @
           dec_int (int (vis_drop_reason_oversize s)) @ '')'') ''warn'' clk b)
      else b)"

definition on_fc_connection_changed ::
  "broadcast_config \<Rightarrow> (pyfloat \<Rightarrow> pydict) option \<Rightarrow> shared_state \<Rightarrow> bool \<Rightarrow> pyfloat \<Rightarrow> pyfloat
   \<Rightarrow> (pyexc, broadcaster, bool) eff" where
  \<comment> \<open>the clock is read for the warning and again for the status\<close>
  "on_fc_connection_changed cfg extra s c clk1 clk2 b =
     (let b1 = (if c
        then snd (emit_warning cfg ''fc_reconnected''
               ''Backend command bridge connected to FC TCP server'' ''info'' clk1 b)
        else snd (emit_warning cfg ''fc_disconnected''
               ''Backend command bridge disconnected from FC TCP server'' ''warn'' clk1 b))
      in broadcast_link_status cfg extra s clk2 True b1)"

definition on_tracking_blocked ::
  "broadcast_config \<Rightarrow> (pyfloat \<Rightarrow> pydict) option \<Rightarrow> shared_state \<Rightarrow> string \<Rightarrow> pyfloat \<Rightarrow> pyfloat
   \<Rightarrow> (pyexc, broadcaster, bool) eff" where
  "on_tracking_blocked cfg extra s reason clk1 clk2 b =
     broadcast_link_status cfg extra s clk2 True
       (snd (emit_warning cfg (''tracking_blocked_'' @ reason)
          (''Tracking mode request blocked by backend safety gate ('' @ reason @ '')'') ''warn'' clk1 b))"

fun run_heartbeat ::
  "broadcast_config \<Rightarrow> (pyfloat \<Rightarrow> pydict) option \<Rightarrow> (pyfloat \<times> shared_state) list \<Rightarrow> (pyexc, broadcaster, unit) eff" where
  \<comment> \<open>one element per turn of the loop until the stop event: the clock and the shared state then\<close>
  "run_heartbeat cfg extra [] b = (Inr (), b)"
| "run_heartbeat cfg extra ((t, s) # xs) b =
     ebind (broadcast_link_status cfg extra s t True) (\<lambda>_. run_heartbeat cfg extra xs) b"

subsection \<open>The heartbeat thread\<close>

record worker =
  is_alive :: bool
  stop_event :: bool
  threads_started :: nat

definition heartbeat_start :: "worker \<Rightarrow> worker" where
  "heartbeat_start w =
     (if is_alive w then w
      else w\<lparr> stop_event := False, is_alive := True, threads_started := threads_started w + 1 \<rparr>)"

definition heartbeat_stop :: "bool \<Rightarrow> worker \<Rightarrow> worker" where
  \<comment> \<open>whether the thread ends within the timeout of \<open>join\<close>\<close>
  "heartbeat_stop ends w = w\<lparr> stop_event := True, is_alive := is_alive w \<and> \<not> ends \<rparr>"

text \<open>
  Starting is idempotent, and a stopped worker can be started again, unless the thread outlived
  the timeout: then the start does nothing and the thread still ends.
\<close>

lemma heartbeat_start_idem: "heartbeat_start (heartbeat_start w) = heartbeat_start w"
  by (simp add: heartbeat_start_def)

lemma heartbeat_restart:
  "\<not> stop_event (heartbeat_start (heartbeat_stop ends w)) \<longleftrightarrow> ends \<or> \<not> is_alive w"
  by (auto simp: heartbeat_start_def heartbeat_stop_def)

subsection \<open>Interface: a gate on emissions by key\<close>

text \<open>
  \<open>call k t x s\<close> offers \<open>x\<close> under key \<open>k\<close> at time \<open>t\<close>; \<open>last s k\<close> is the time of the key's last
  emission and \<open>early k t l\<close> says that \<open>t\<close> is too soon after \<open>l\<close>. A gate never emits early and
  remembers exactly its emissions.
\<close>

locale emission_gate =
  fixes call :: "'k \<Rightarrow> pyfloat \<Rightarrow> 'x \<Rightarrow> 's \<Rightarrow> bool \<times> 's"
    and last_at :: "'s \<Rightarrow> 'k \<Rightarrow> pyfloat option"
    and early :: "'k \<Rightarrow> pyfloat \<Rightarrow> pyfloat \<Rightarrow> bool"
  assumes emit_ready: "call k t x s = (True, s') \<Longrightarrow> last_at s k = Some l \<Longrightarrow> \<not> early k t l"
    and emit_last: "call k t x s = (True, s') \<Longrightarrow> last_at s' = (last_at s)(k \<mapsto> t)"
    and quiet_last: "call k t x s = (False, s') \<Longrightarrow> last_at s' = last_at s"
begin

fun emissions :: "('k \<times> pyfloat \<times> 'x) list \<Rightarrow> 's \<Rightarrow> ('k \<times> pyfloat) list" where
  "emissions [] s = []"
| "emissions ((k, t, x) # cs) s =
     (case call k t x s of (True, s') \<Rightarrow> (k, t) # emissions cs s' | (False, s') \<Rightarrow> emissions cs s')"

definition times :: "'k \<Rightarrow> ('k \<times> pyfloat) list \<Rightarrow> pyfloat list" where
  "times k es = map snd (filter (\<lambda>(j, _). j = k) es)"

lemma times_simps [simp]:
  "times k [] = []"
  "times k ((j, t) # es) = (if j = k then t # times k es else times k es)"
  by (simp_all add: times_def)

lemma emissions_spaced:
  "successively (\<lambda>l t. \<not> early k t l)
     ((case last_at s k of None \<Rightarrow> [] | Some l \<Rightarrow> [l]) @ times k (emissions cs s))"
proof (induction cs arbitrary: s)
  case Nil
  show ?case by (simp split: option.splits)
next
  case (Cons c cs)
  obtain j t x where c: "c = (j, t, x)" by (cases c)
  obtain ok s' where s': "call j t x s = (ok, s')" by fastforce
  show ?case
  proof (cases ok)
    case True
    then have e: "call j t x s = (True, s')" using s' by simp
    show ?thesis
    proof (cases "j = k")
      case True
      then show ?thesis
        using Cons.IH[of s'] emit_last[OF e] emit_ready[OF e] e c
        by (auto split: option.splits)
    next
      case False
      then have "last_at s' k = last_at s k" using emit_last[OF e] by simp
      then show ?thesis using Cons.IH[of s'] False e c by simp
    qed
  next
    case False
    then have e: "call j t x s = (False, s')" using s' by simp
    then show ?thesis using Cons.IH[of s'] quiet_last[OF e] c by simp
  qed
qed

end

definition warning_early :: "broadcast_config \<Rightarrow> string \<Rightarrow> pyfloat \<Rightarrow> pyfloat \<Rightarrow> bool" where
  "warning_early cfg kind t l =
     (flt (Fin 0) (warning_min_interval_s cfg) \<and> flt (fsub t l) (warning_min_interval_s cfg))"

definition update_early :: "broadcast_config \<Rightarrow> string \<Rightarrow> pyfloat \<Rightarrow> pyfloat \<Rightarrow> bool" where
  "update_early cfg event t l =
     (case period_s cfg event of Inl _ \<Rightarrow> True | Inr p \<Rightarrow> \<not> fle p (fsub t l))"

definition offer_warning ::
  "broadcast_config \<Rightarrow> string \<Rightarrow> pyfloat \<Rightarrow> string \<times> string \<Rightarrow> broadcaster \<Rightarrow> bool \<times> broadcaster" where
  "offer_warning cfg kind t x b = emit_warning cfg kind (fst x) (snd x) t b"

definition offer_update ::
  "broadcast_config \<Rightarrow> string \<Rightarrow> pyfloat \<Rightarrow> pydict option \<Rightarrow> broadcaster \<Rightarrow> bool \<times> broadcaster" where
  \<comment> \<open>a call without \<open>force\<close>, as the ingestion threads make it\<close>
  "offer_update cfg event t x b =
     (case broadcast_update cfg event x t False b of (r, b') \<Rightarrow> (r = Inr True, b'))"

interpretation warn: emission_gate "offer_warning cfg" warning_last_emit_s "warning_early cfg" for cfg
  by unfold_locales
    (auto simp: offer_warning_def emit_warning_def warning_early_def split: if_splits option.splits)

interpretation upd: emission_gate "offer_update cfg" last_emit_s "update_early cfg" for cfg
  by unfold_locales
    (auto simp: offer_update_def broadcast_update_def can_emit_def send_event_def update_early_def
      rbind_def split: if_splits option.splits sum.splits)

text \<open>
  Rates are limited. Whatever is offered and whenever, two consecutive warnings of one kind
  are at least \<open>warning_min_interval_s\<close> apart, and two consecutive unforced updates of one
  event kind at least the period of its rate; kinds do not disturb one another.
\<close>

theorem emissions_rate_limited:
  "successively (\<lambda>l t. \<not> warning_early cfg kind t l) (warn.times kind (warn.emissions cfg ws_calls b)) \<and>
   successively (\<lambda>l t. \<exists>p. period_s cfg event = Inr p \<and> fle p (fsub t l))
     (upd.times event (upd.emissions cfg up_calls b))"
proof
  show "successively (\<lambda>l t. \<not> warning_early cfg kind t l) (warn.times kind (warn.emissions cfg ws_calls b))"
    using warn.emissions_spaced[of cfg kind b ws_calls] by (simp add: successively_append_iff)
  have "successively (\<lambda>l t. \<not> update_early cfg event t l) (upd.times event (upd.emissions cfg up_calls b))"
    using upd.emissions_spaced[of cfg event b up_calls] by (simp add: successively_append_iff)
  then show "successively (\<lambda>l t. \<exists>p. period_s cfg event = Inr p \<and> fle p (fsub t l))
     (upd.times event (upd.emissions cfg up_calls b))"
    by (rule successively_mono) (auto simp: update_early_def split: sum.splits)
qed

subsection \<open>What a vision update carries\<close>

lemma ws_broadcast_clients:
  "clients (snd (ws_broadcast ev d t m)) =
     map (\<lambda>(i, c). (i, enqueue (queue_max m) (fst (ws_broadcast ev d t m)) c)) (clients m)"
  by (simp add: ws_broadcast_def build_envelope_def broadcast_envelope_def)

lemma last_enqueue: "last (cq_items (enqueue n e c)) = e"
  by (simp add: enqueue_def Let_def)

text \<open>
  A vision update that is sent ends the queue of every connected client with an envelope
  whose data is the stored snapshot with its receive time and its age; a call that sends
  nothing leaves every queue and every rate record alone, and without a snapshot nothing is
  ever sent.
\<close>

theorem vis_update_reaches_clients:
  "case broadcast_vis_update cfg s t force b of
     (Inr True, b') \<Rightarrow> (\<exists>v e. latest_vis s = Some v \<and> dget e ''event'' = Some (PStr ''VIS_UPDATE'') \<and>
        dget e ''timestamp_s'' = Some (PFloat t) \<and>
        dget e ''data'' = Some (PDict (dset ''vis_age_s'' (opt_val PFloat (get_vis_age_s t s))
           (dset ''rx_monotonic_s'' (opt_val PFloat (vis_last_rx_monotonic_s s)) v))) \<and>
        list_all (\<lambda>(i, c). last (cq_items c) = e) (clients (ws b')) \<and>
        map fst (clients (ws b')) = map fst (clients (ws b)))
   | (_, b') \<Rightarrow> b' = b \<and> (if force then latest_vis s = None else True)"
proof -
  let ?p = "build_vis_update_data t s"
  have p: "?p = (case latest_vis s of None \<Rightarrow> None
      | Some v \<Rightarrow> Some (dset ''vis_age_s'' (opt_val PFloat (get_vis_age_s t s))
           (dset ''rx_monotonic_s'' (opt_val PFloat (vis_last_rx_monotonic_s s)) v)))"
    by (simp add: build_vis_update_data_def get_latest_vis_with_meta_def split: option.splits)
  have ids: "map fst (map (\<lambda>(i, c). (i, f c)) xs) = map fst xs" for f :: "client_queue \<Rightarrow> client_queue"
    and xs :: "(int \<times> client_queue) list" by (rule map_fst_map_snd)
  show ?thesis
  proof (cases "can_emit cfg EVENT_VIS_UPDATE t force b")
    case (Inl e)
    then show ?thesis by (auto simp: broadcast_vis_update_def broadcast_update_def can_emit_def)
  next
    case (Inr ok)
    show ?thesis
    proof (cases "ok \<and> ?p \<noteq> None")
      case True
      then obtain v where v: "latest_vis s = Some v" using p by (auto split: option.splits)
      let ?d = "dset ''vis_age_s'' (opt_val PFloat (get_vis_age_s t s))
           (dset ''rx_monotonic_s'' (opt_val PFloat (vis_last_rx_monotonic_s s)) v)"
      have sent: "broadcast_vis_update cfg s t force b = (Inr True, send_event EVENT_VIS_UPDATE ?d t b)"
        using True Inr p v by (simp add: broadcast_vis_update_def broadcast_update_def)
      let ?e = "fst (ws_broadcast EVENT_VIS_UPDATE ?d t (ws b))"
      have "dget ?e ''event'' = Some (PStr ''VIS_UPDATE'')" "dget ?e ''timestamp_s'' = Some (PFloat t)"
        "dget ?e ''data'' = Some (PDict ?d)"
        by (simp_all add: ws_broadcast_def build_envelope_def event_defs)
      moreover have "list_all (\<lambda>(i, c). last (cq_items c) = ?e)
          (clients (ws (send_event EVENT_VIS_UPDATE ?d t b)))"
        using last_enqueue by (auto simp: send_event_def ws_broadcast_clients list_all_iff)
      moreover have "map fst (clients (ws (send_event EVENT_VIS_UPDATE ?d t b))) = map fst (clients (ws b))"
        by (simp add: send_event_def ws_broadcast_clients ids del: map_map)
      ultimately show ?thesis unfolding sent using v by auto
    next
      case False
      then show ?thesis using Inr p
        by (auto simp: broadcast_vis_update_def broadcast_update_def can_emit_def split: option.splits)
    qed
  qed
qed

end
