(* ===== verification/Rate_Limit.thy ===== *)
theory Rate_Limit
  imports Reason_Log
begin

section \<open>Per-client token buckets\<close>

text \<open>
  \<open>src/src/backend/rate_limit.py\<close>. The clock readings of a call are its arguments; the
  lock makes a call one step. Tokens are binary64 floats, so that the burst property is
  proved for the arithmetic the program really does. The interface \<open>keyed_objects\<close> states
  what it means for a family of objects made on demand to be independent of one another.
\<close>

record token_bucket =
  tb_capacity :: pyfloat
  tb_refill_per_s :: pyfloat
  tb_tokens :: pyfloat
  tb_last_refill_s :: pyfloat

definition new_token_bucket :: "pyfloat \<Rightarrow> pyfloat \<Rightarrow> pyfloat \<Rightarrow> token_bucket" where
  "new_token_bucket capacity refill_per_s clk =
     \<lparr> tb_capacity = capacity, tb_refill_per_s = refill_per_s, tb_tokens = capacity,
       tb_last_refill_s = clk \<rparr>"

definition bucket_refill :: "pyfloat \<Rightarrow> token_bucket \<Rightarrow> pyfloat" where
  \<comment> \<open>the tokens after the refill for the elapsed time\<close>
  "bucket_refill now_s b =
     (let elapsed = fmax (Fin 0) (fsub now_s (tb_last_refill_s b))
      in fmin (tb_capacity b) (fadd (tb_tokens b) (fmul elapsed (tb_refill_per_s b))))"

definition bucket_allow :: "pyfloat \<Rightarrow> token_bucket \<Rightarrow> bool \<times> token_bucket" where
  "bucket_allow now_s b =
     (let tokens = bucket_refill now_s b;
          b' = b\<lparr> tb_tokens := tokens, tb_last_refill_s := now_s \<rparr>
      in if fle (Fin 1) tokens then (True, b'\<lparr> tb_tokens := fsub tokens (Fin 1) \<rparr>)
         else (False, b'))"

type_synonym ip_limiter = "string \<Rightarrow> token_bucket option"

definition ip_allow ::
  "pyfloat \<Rightarrow> pyfloat \<Rightarrow> ip_limiter \<Rightarrow> string \<Rightarrow> pyfloat \<times> pyfloat \<Rightarrow> bool \<times> ip_limiter" where
  \<comment> \<open>the two clock readings are the bucket's, if it is made, and the call's\<close>
  "ip_allow capacity refill_per_s buckets ip = (\<lambda>(t_new, t_call).
     let bucket = (case buckets ip of Some b \<Rightarrow> b | None \<Rightarrow> new_token_bucket capacity refill_per_s t_new);
         (ok, bucket') = bucket_allow t_call bucket
     in (ok, buckets(ip \<mapsto> bucket')))"

fun bucket_calls :: "token_bucket \<Rightarrow> pyfloat list \<Rightarrow> bool list" where
  \<comment> \<open>the answers to successive calls\<close>
  "bucket_calls b [] = []"
| "bucket_calls b (t # ts) = (let (ok, b') = bucket_allow t b in ok # bucket_calls b' ts)"

subsection \<open>Interface: objects kept by key\<close>

fun answers ::
  "(('k \<Rightarrow> 'o option) \<Rightarrow> 'k \<Rightarrow> 'i \<Rightarrow> 'r \<times> ('k \<Rightarrow> 'o option)) \<Rightarrow>
   ('k \<Rightarrow> 'o option) \<Rightarrow> ('k \<times> 'i) list \<Rightarrow> ('k \<times> 'r) list" where
  \<comment> \<open>the requests of many keys in the order in which they arrive, each with its key\<close>
  "answers step m [] = []"
| "answers step m ((k, i) # es) = (k, fst (step m k i)) # answers step (snd (step m k i)) es"

text \<open>
  \<open>step m k i\<close> calls the object of key \<open>k\<close> with input \<open>i\<close>, making it if it is not there. The
  laws: the answer and the new object depend only on the key's own object, and no other
  key's object is touched. The conclusion is isolation: the answers one key gets are those
  it would get if it were alone.
\<close>

locale keyed_objects =
  fixes step :: "('k \<Rightarrow> 'o option) \<Rightarrow> 'k \<Rightarrow> 'i \<Rightarrow> 'r \<times> ('k \<Rightarrow> 'o option)"
  assumes own_answer: "m k = m' k \<Longrightarrow> fst (step m k i) = fst (step m' k i)"
    and own_object: "m k = m' k \<Longrightarrow> snd (step m k i) k = snd (step m' k i) k"
    and others_kept: "k' \<noteq> k \<Longrightarrow> snd (step m k i) k' = m k'"
begin

lemma answers_alone:
  assumes "m k = m' k"
  shows "filter (\<lambda>(j, _). j = k) (answers step m es) = answers step m' (filter (\<lambda>(j, _). j = k) es)"
  using assms
proof (induction es arbitrary: m m')
  case (Cons e es)
  obtain j i where e: "e = (j, i)" by fastforce
  show ?case
  proof (cases "j = k")
    case True
    have "snd (step m k i) k = snd (step m' k i) k" using Cons.prems by (rule own_object)
    then have "filter (\<lambda>(j, _). j = k) (answers step (snd (step m k i)) es) =
        answers step (snd (step m' k i)) (filter (\<lambda>(j, _). j = k) es)" by (rule Cons.IH)
    then show ?thesis unfolding e True using own_answer[where m = m and m' = m' and k = k, OF Cons.prems] by simp
  next
    case False
    then have "snd (step m j i) k = m' k" using others_kept Cons.prems by metis
    then have "filter (\<lambda>(j, _). j = k) (answers step (snd (step m j i)) es) =
        answers step m' (filter (\<lambda>(j, _). j = k) es)" by (rule Cons.IH)
    then show ?thesis using False unfolding e by simp
  qed
qed simp

end

interpretation ipl: keyed_objects "ip_allow capacity refill_per_s" for capacity refill_per_s
  by unfold_locales (auto simp: ip_allow_def Let_def split: prod.splits option.splits)

interpretation logl: keyed_objects "\<lambda>m reason t. log_reason i m (reason, t)" for i
  by unfold_locales (auto simp: log_reason_def bucket_of_def Let_def split: option.splits)

subsection \<open>Tokens\<close>

lemma fmin_le_left: "a \<noteq> NaN \<Longrightarrow> fle (fmin a b) a"
  by (cases "flt b a") (auto simp: fmin_def flt_imp_fle fle_refl)

lemma allow_fields [simp]:
  "tb_capacity (snd (bucket_allow t b)) = tb_capacity b"
  "tb_refill_per_s (snd (bucket_allow t b)) = tb_refill_per_s b"
  by (simp_all add: bucket_allow_def Let_def)

lemma small_capacity_refuses:
  assumes "flt (tb_capacity b) (Fin 1)"
  shows "\<not> fst (bucket_allow t b)"
proof -
  have "tb_capacity b \<noteq> NaN" using assms by (cases "tb_capacity b") auto
  then have "fle (bucket_refill t b) (tb_capacity b)"
    by (simp add: bucket_refill_def Let_def fmin_le_left)
  then have "\<not> fle (Fin 1) (bucket_refill t b)"
    using assms fle_flt_trans fle_trans by (metis flt_irrefl)
  then show ?thesis by (simp add: bucket_allow_def Let_def)
qed

text \<open>Taking one token from a float is exact below \<open>2 ^ 53\<close>.\<close>

lemma rnd_minus_one:
  assumes "rnd x = x" "1 \<le> x" "x < 2 ^ 53"
  shows "rnd (x - 1) = x - 1"
proof -
  let ?e = "fexp x" and ?u = "2 powr of_int (fexp x) :: real"
  have e: "- 1074 \<le> ?e" by (simp add: fexp_def)
  have "log 2 x < 53" using assms by (simp add: log_less_iff powr_realpow)
  then have "\<lfloor>log 2 \<bar>x\<bar>\<rfloor> \<le> 52" using assms(2) by (simp add: floor_le_iff)
  then have "?e \<le> 0" by (simp add: fexp_def)
  then obtain n :: int where n: "1 = of_int n * ?u" using powr_int_diff_int[of ?e 0] by auto
  let ?m = "rne (x / ?u)"
  have m: "x = of_int ?m * ?u" using assms(1,2) by (simp add: rnd_def)
  have eq: "x - 1 = of_int (?m - n) * ?u" using m n by (simp add: left_diff_distrib)
  have "of_int \<bar>?m - n\<bar> * ?u = \<bar>x - 1\<bar>" unfolding eq by (simp add: abs_mult)
  also have "\<dots> < 2 ^ 53 * ?u" using fexp_upper[of x] assms(2) by simp
  finally have "real_of_int \<bar>?m - n\<bar> < of_int (2 ^ 53)" by simp
  then have "\<bar>?m - n\<bar> < 2 ^ 53" by (simp only: of_int_less_iff)
  then show ?thesis unfolding eq by (rule rnd_scaled) (rule e)
qed

lemma frozen_refill:
  assumes "tb_tokens b = Fin x" "is_f64 (Fin x)" "tb_capacity b = Fin c" "x \<le> c"
    "tb_last_refill_s b = Fin t" "tb_refill_per_s b = Fin r"
  shows "bucket_refill (Fin t) b = Fin x"
proof -
  have "fsub (Fin t) (Fin t) = Fin 0" by (simp add: fsub_def f64_exact)
  then show ?thesis using assms f64_is_f64[OF assms(2)]
    by (auto simp: bucket_refill_def fmax_def fmin_def Let_def f64_exact)
qed

lemma frozen_allow:
  assumes "tb_tokens b = Fin x" "is_f64 (Fin x)" "tb_capacity b = Fin c" "x \<le> c" "x < 2 ^ 53"
    "tb_last_refill_s b = Fin t" "tb_refill_per_s b = Fin r"
  shows "bucket_allow (Fin t) b =
    (if 1 \<le> x then (True, b\<lparr> tb_tokens := Fin (x - 1) \<rparr>) else (False, b))"
proof -
  have "f64 (x - 1) = Fin (x - 1)" if "1 \<le> x"
    using rnd_minus_one that assms(2,5) by (intro f64_is_f64) auto
  then have "fsub (Fin x) (Fin 1) = Fin (x - 1)" if "1 \<le> x" using that by (simp add: fsub_def)
  then show ?thesis
    using frozen_refill[OF assms(1-4,6,7)] assms(1,6)
    by (simp add: bucket_allow_def Let_def)
qed

subsection \<open>Bursts\<close>

lemma frozen_calls:
  assumes "tb_tokens b = Fin x" "is_f64 (Fin x)" "tb_capacity b = Fin c" "0 \<le> x" "x \<le> c" "x < 2 ^ 53"
    "tb_last_refill_s b = Fin t" "tb_refill_per_s b = Fin r"
  shows "bucket_calls b (replicate n (Fin t)) =
    replicate (min n (nat \<lfloor>x\<rfloor>)) True @ replicate (n - nat \<lfloor>x\<rfloor>) False"
  using assms
proof (induction n arbitrary: b x)
  case (Suc n)
  note step = frozen_allow[OF Suc.prems(1,2,3,5,6,7,8)]
  show ?case
  proof (cases "1 \<le> x")
    case True
    have "rnd (x - 1) = x - 1" using rnd_minus_one Suc.prems(2,6) True by simp
    moreover have "\<bar>x - 1\<bar> < f64_limit" using Suc.prems(2) True by auto
    ultimately have "bucket_calls (b\<lparr> tb_tokens := Fin (x - 1) \<rparr>) (replicate n (Fin t)) =
        replicate (min n (nat \<lfloor>x - 1\<rfloor>)) True @ replicate (n - nat \<lfloor>x - 1\<rfloor>) False"
      using Suc.prems True by (intro Suc.IH) auto
    moreover have "nat \<lfloor>x\<rfloor> = Suc (nat \<lfloor>x - 1\<rfloor>)" using True by linarith
    ultimately show ?thesis using step True by simp
  next
    case False
    then have "nat \<lfloor>x\<rfloor> = 0" using Suc.prems(4) by linarith
    then show ?thesis using step False Suc.IH[OF Suc.prems] by simp
  qed
qed simp

text \<open>
  A client that sends any number of requests in one instant has exactly the first
  \<open>floor capacity\<close> of them accepted and every later one refused, in the floating-point
  arithmetic of the program: no rounding gives away or loses a request.
\<close>

theorem burst_exact:
  assumes "is_f64 (Fin c)" "0 \<le> c" "c < 2 ^ 53"
  shows "bucket_calls (new_token_bucket (Fin c) (Fin r) (Fin t)) (replicate n (Fin t)) =
    replicate (min n (nat \<lfloor>c\<rfloor>)) True @ replicate (n - nat \<lfloor>c\<rfloor>) False"
  using assms
  by (intro frozen_calls[of _ _ c]) (simp_all add: new_token_bucket_def)

theorem burst_exact_witness:
  "bucket_calls (new_token_bucket (Fin (5/2)) (Fin 1) (Fin 7)) (replicate 4 (Fin 7)) =
     [True, True, False, False]"
proof -
  have "rnd (5/2) = 5/2" by (rule rnd_fraction[of 5 1]) simp_all
  then have "is_f64 (Fin (5/2))" using big_bound[of "5/2"] by simp
  moreover have "nat \<lfloor>5/2 :: real\<rfloor> = 2" by linarith
  ultimately show ?thesis
    using burst_exact[of "5/2" 1 7 4] by (simp add: numeral_eq_Suc)
qed

text \<open>
  A client's answers do not depend on the others: whatever requests other addresses send
  in between, the answers to one address are those of its own requests alone.
\<close>

theorem ip_isolation:
  "filter (\<lambda>(j, _). j = ip) (answers (ip_allow cap refill) Map.empty es) =
   answers (ip_allow cap refill) Map.empty (filter (\<lambda>(j, _). j = ip) es)"
  by (rule ipl.answers_alone) (rule refl)

text \<open>
  Refilling. A bucket never answers yes while its capacity is below one, whatever the
  clock shows; and a bucket of capacity at least one whose elapsed time earns a whole token
  answers yes, so a client that waits is always served again.
\<close>

theorem bucket_liveness:
  assumes "fle (Fin 0) (tb_tokens b)" "tb_capacity b \<noteq> NaN"
  shows "if fle (Fin 1) (tb_capacity b)
    then fle (Fin 1) (fmul (fsub now_s (tb_last_refill_s b)) (tb_refill_per_s b)) \<longrightarrow>
         fle (Fin 0) (fsub now_s (tb_last_refill_s b)) \<longrightarrow> fst (bucket_allow now_s b)
    else \<not> fst (bucket_allow now_s b)"
proof (cases "fle (Fin 1) (tb_capacity b)")
  case True
  let ?d = "fsub now_s (tb_last_refill_s b)"
  have "fst (bucket_allow now_s b)"
    if earn: "fle (Fin 1) (fmul ?d (tb_refill_per_s b))" and d: "fle (Fin 0) ?d"
  proof -
    have "fmax (Fin 0) ?d = ?d" using d by (auto simp: fmax_def fle_def feq_def)
    moreover have "fle (Fin 1) (fadd (tb_tokens b) (fmul ?d (tb_refill_per_s b)))"
    proof (cases "tb_tokens b"; cases "fmul ?d (tb_refill_per_s b)")
      fix x y assume xy: "tb_tokens b = Fin x" "fmul ?d (tb_refill_per_s b) = Fin y"
      then have "1 \<le> x + y" using assms(1) earn by simp
      from f64_mono[OF this] show ?thesis using xy by simp
    qed (use assms(1) earn in auto)
    ultimately have "fle (Fin 1) (bucket_refill now_s b)"
      using True by (simp add: bucket_refill_def fmin_def Let_def)
    then show ?thesis by (simp add: bucket_allow_def Let_def)
  qed
  then show ?thesis using True by simp
next
  case False
  then have "flt (tb_capacity b) (Fin 1)" using assms(2) by (simp add: not_fle)
  then show ?thesis using False small_capacity_refuses by simp
qed

theorem bucket_liveness_witness:
  "fst (bucket_allow (Fin 2) (new_token_bucket (Fin 1) (Fin 1) (Fin 1)\<lparr> tb_tokens := Fin 0 \<rparr>))"
  using bucket_liveness[of "new_token_bucket (Fin 1) (Fin 1) (Fin 1)\<lparr> tb_tokens := Fin 0 \<rparr>" "Fin 2"]
  by (simp add: new_token_bucket_def fsub_def f64_1)

end
