(* ===== verification/Video_Hub.thy ===== *)
theory Video_Hub
  imports State_Views Json_Text
begin

section \<open>The video frame hub\<close>

text \<open>
  \<open>src/src/backend/video_hub.py\<close>: the latest JPEG frame, the counters of the stream and the
  MJPEG framing. Frames are byte lists. The drawing of synthetic frames is Pillow's; what it
  answers to \<open>verify\<close> is an argument of \<open>can_decode_jpeg\<close>.
\<close>

record video_config =
  enabled :: bool
  fps :: pyfloat
  max_jpeg_bytes :: int
  frame_fresh_s :: pyfloat

record video_hub =
  latest_jpeg :: "nat list option"
  vh_last_rx_s :: "pyfloat option"
  frames_rx_ok :: nat
  frames_rx_bad :: nat
  video_clients :: int
  video_fps_est :: pyfloat
  last_served_s :: "pyfloat option"
  frames_served_total :: nat

definition new_video_hub :: video_hub where
  "new_video_hub = \<lparr> latest_jpeg = None, vh_last_rx_s = None, frames_rx_ok = 0, frames_rx_bad = 0,
     video_clients = 0, video_fps_est = Fin 0, last_served_s = None, frames_served_total = 0 \<rparr>"

definition set_jpeg :: "nat list \<Rightarrow> pyfloat \<Rightarrow> video_hub \<Rightarrow> video_hub" where
  "set_jpeg jpeg now_s h = h\<lparr> latest_jpeg := Some jpeg, vh_last_rx_s := Some now_s,
     frames_rx_ok := frames_rx_ok h + 1 \<rparr>"

definition record_bad_frame :: "video_hub \<Rightarrow> video_hub" where
  "record_bad_frame h = h\<lparr> frames_rx_bad := frames_rx_bad h + 1 \<rparr>"

definition get_jpeg :: "video_hub \<Rightarrow> nat list option" where
  "get_jpeg h = latest_jpeg h"

definition get_fresh_jpeg :: "pyfloat \<Rightarrow> pyfloat \<Rightarrow> video_hub \<Rightarrow> nat list option" where
  "get_fresh_jpeg max_age_s now_s h =
     (case (latest_jpeg h, vh_last_rx_s h) of
        (Some f, Some rx) \<Rightarrow>
          (let age_s = fmax (Fin 0) (fsub now_s rx) in if flt max_age_s age_s then None else Some f)
      | _ \<Rightarrow> None)"

definition get_age_s :: "pyfloat \<Rightarrow> video_hub \<Rightarrow> pyfloat option" where
  "get_age_s now_s h = age_since now_s (vh_last_rx_s h)"

definition register_client :: "video_hub \<Rightarrow> video_hub" where
  "register_client h = h\<lparr> video_clients := video_clients h + 1 \<rparr>"

definition unregister_client :: "video_hub \<Rightarrow> video_hub" where
  "unregister_client h = h\<lparr> video_clients := max 0 (video_clients h - 1) \<rparr>"

definition fps_update :: "pyfloat \<Rightarrow> pyfloat \<Rightarrow> pyfloat" where
  "fps_update est inst =
     (if fle est (Fin 0) then inst
      else fadd (fmul (f64 (85 / 100)) est) (fmul (f64 (15 / 100)) inst))"

definition record_frame_served :: "pyfloat \<Rightarrow> (pyexc, video_hub, unit) eff" where
  "record_frame_served now_s h =
     (let prev = last_served_s h;
          h1 = h\<lparr> last_served_s := Some now_s, frames_served_total := frames_served_total h + 1 \<rparr>
      in case prev of
           None \<Rightarrow> (Inr (), h1)
         | Some prev_s \<Rightarrow>
             (let delta_s = fsub now_s prev_s in
              if fle delta_s (Fin 0) then (Inr (), h1)
              else (case fdiv (Fin 1) delta_s of
                      None \<Rightarrow> (Inl ZeroDivisionError, h1)
                    | Some inst \<Rightarrow> (Inr (), h1\<lparr> video_fps_est := fps_update (video_fps_est h1) inst \<rparr>))))"

definition video_stats :: "pyfloat \<Rightarrow> video_hub \<Rightarrow> pydict" where
  "video_stats now_s h =
    [(''video_clients'', PInt (video_clients h)), (''video_fps_est'', PFloat (video_fps_est h)),
     (''last_frame_age_s'', opt_val PFloat (age_since now_s (vh_last_rx_s h))),
     (''frames_rx_ok'', count (frames_rx_ok h)), (''frames_rx_bad'', count (frames_rx_bad h))]"

definition CRLF :: string where
  "CRLF = [CHR 0x0D, CHR 0x0A]"

definition make_mjpeg_part :: "nat list \<Rightarrow> string \<Rightarrow> nat list" where
  "make_mjpeg_part frame_bytes boundary =
     utf8_ascii (''--'' @ boundary @ CRLF @ ''Content-Type: image/jpeg'' @ CRLF @
       ''Content-Length: '' @ dec_int (int (length frame_bytes)) @ CRLF @ CRLF)
     @ frame_bytes @ utf8_ascii CRLF"

definition can_decode_jpeg :: "(nat list \<Rightarrow> bool) option \<Rightarrow> nat list \<Rightarrow> bool" where
  \<comment> \<open>\<open>None\<close>: Pillow is not installed\<close>
  "can_decode_jpeg verify frame_bytes = (case verify of None \<Rightarrow> False | Some v \<Rightarrow> v frame_bytes)"

subsection \<open>The hub as a state machine\<close>

datatype hub_op =
  HubSet "nat list" pyfloat | HubBad | HubRegister | HubUnregister | HubServed pyfloat

fun hub_step :: "video_hub \<Rightarrow> hub_op \<Rightarrow> video_hub" where
  "hub_step h (HubSet f t) = set_jpeg f t h"
| "hub_step h HubBad = record_bad_frame h"
| "hub_step h HubRegister = register_client h"
| "hub_step h HubUnregister = unregister_client h"
| "hub_step h (HubServed t) = snd (record_frame_served t h)"

lemmas hub_defs = set_jpeg_def record_bad_frame_def register_client_def unregister_client_def
  record_frame_served_def new_video_hub_def Let_def

fun frames_set :: "hub_op list \<Rightarrow> (nat list \<times> pyfloat) list" where
  "frames_set [] = []"
| "frames_set (HubSet f t # ps) = (f, t) # frames_set ps"
| "frames_set (_ # ps) = frames_set ps"

definition hub_latest :: "video_hub \<Rightarrow> (nat list \<times> pyfloat) list \<Rightarrow> bool" where
  "hub_latest h fs = (frames_rx_ok h = length fs \<and> 0 \<le> video_clients h \<and>
     (if fs = [] then latest_jpeg h = None \<and> vh_last_rx_s h = None
      else latest_jpeg h = Some (fst (last fs)) \<and> vh_last_rx_s h = Some (snd (last fs))))"

lemma frames_set_append: "frames_set (xs @ ys) = frames_set xs @ frames_set ys"
  by (induction xs rule: frames_set.induct) auto

lemma hub_latest_run: "hub_latest (run hub_step new_video_hub ps) (frames_set ps)"
proof (induction ps rule: rev_induct)
  case Nil
  show ?case by (simp add: hub_latest_def new_video_hub_def)
next
  case (snoc p ps)
  then show ?case
    by (cases p) (auto simp: run_append frames_set_append hub_latest_def hub_defs split: option.splits)
qed

text \<open>
  The stream shows the newest frame or none. After any sequence of operations the hub
  serves the frame pushed last, exactly while its age does not exceed the limit, counts every
  pushed frame once, and its number of viewers is never negative.
\<close>

theorem hub_serves_newest:
  "let h = run hub_step new_video_hub ps; fs = frames_set ps in
   frames_rx_ok h = length fs \<and> 0 \<le> video_clients h \<and>
   get_fresh_jpeg max_age now_s h =
     (if fs = [] then None
      else if flt max_age (fmax (Fin 0) (fsub now_s (snd (last fs)))) then None
      else Some (fst (last fs)))"
  using hub_latest_run[of ps]
  by (auto simp: hub_latest_def get_fresh_jpeg_def Let_def split: if_splits option.splits)

subsection \<open>The frame-rate estimate\<close>

definition hub_fps_ok :: "video_hub \<Rightarrow> bool" where
  "hub_fps_ok h = fle (Fin 0) (video_fps_est h)"

lemma fps_update_nonneg:
  assumes "fle (Fin 0) est" "fle (Fin 0) inst"
  shows "fle (Fin 0) (fps_update est inst)"
proof -
  obtain a where a: "f64 (85 / 100) = Fin a" "0 < a" using f64_unit_pos[of "85 / 100"] by auto
  obtain b where b: "f64 (15 / 100) = Fin b" "0 < b" using f64_unit_pos[of "15 / 100"] by auto
  have "fle (Fin 0) (fmul (Fin a) est)" using assms(1) a(2) by (intro fmul_nonneg) auto
  moreover have "fle (Fin 0) (fmul (Fin b) inst)" using assms(2) b(2) by (intro fmul_nonneg) auto
  ultimately show ?thesis using assms unfolding fps_update_def a b by (simp add: fadd_nonneg)
qed

lemma record_frame_served_returns: "fst (record_frame_served t h) = Inr ()"
proof (cases "last_served_s h")
  case (Some prev)
  then show ?thesis
    by (cases "fsub t prev") (auto simp: record_frame_served_def Let_def)
qed (simp add: record_frame_served_def)

lemma fsub_finite_not_NaN: "isfinite a \<Longrightarrow> isfinite b \<Longrightarrow> fsub a b \<noteq> NaN"
  by (cases a; cases b) (auto simp: fsub_def f64_def)

lemma record_frame_served_fps:
  assumes "hub_fps_ok h" "isfinite t" "\<forall>p. last_served_s h = Some p \<longrightarrow> isfinite p"
  shows "hub_fps_ok (snd (record_frame_served t h))"
proof (cases "last_served_s h")
  case (Some p)
  show ?thesis
  proof (cases "fle (fsub t p) (Fin 0)")
    case False
    then have "flt (Fin 0) (fsub t p)"
      using assms(2,3) Some fsub_finite_not_NaN by (simp add: not_fle)
    then obtain q where "fdiv (Fin 1) (fsub t p) = Some q" "fle (Fin 0) q" by (rule fdiv_pos)
    then show ?thesis using assms(1) Some False
      by (simp add: record_frame_served_def hub_fps_ok_def fps_update_nonneg)
  next
    case True
    then show ?thesis using assms(1) Some by (simp add: record_frame_served_def hub_fps_ok_def)
  qed
qed (use assms(1) in \<open>simp add: record_frame_served_def hub_fps_ok_def\<close>)

end
