(* ===== verification/Vis_Types.thy ===== *)
theory Vis_Types
  imports Py_Value Json_Text
begin

section \<open>Data of the vision process\<close>

text \<open>
  \<open>src/src/vision/types.py\<close> and \<open>box_select.py\<close>: boxes in pixels and in units of the image,
  detections, the published message, and the choice of the best detection. \<open>clamp01\<close> is proved
  to land in the unit interval for every float, NaN included; that is what makes every box
  and confidence the process publishes valid.
\<close>

definition clamp01 :: "pyfloat \<Rightarrow> pyfloat" where
  "clamp01 v = fmax (Fin 0) (fmin (Fin 1) v)"

datatype vis_state = NO_TARGET | TARGET_DETECTED | TRACKING | SEARCHING

instantiation vis_state :: enum
begin

definition enum_vis_state :: "vis_state list" where
  "enum_vis_state = [NO_TARGET, TARGET_DETECTED, TRACKING, SEARCHING]"

definition enum_all_vis_state :: "(vis_state \<Rightarrow> bool) \<Rightarrow> bool" where
  "enum_all_vis_state P = (P NO_TARGET \<and> P TARGET_DETECTED \<and> P TRACKING \<and> P SEARCHING)"

definition enum_ex_vis_state :: "(vis_state \<Rightarrow> bool) \<Rightarrow> bool" where
  "enum_ex_vis_state P = (P NO_TARGET \<or> P TARGET_DETECTED \<or> P TRACKING \<or> P SEARCHING)"

instance
proof
  fix P :: "vis_state \<Rightarrow> bool"
  show u: "UNIV = set (enum_class.enum :: vis_state list)"
    unfolding enum_vis_state_def by (auto intro: vis_state.exhaust)
  show "distinct (enum_class.enum :: vis_state list)" by (simp add: enum_vis_state_def)
  show "enum_class.enum_all P \<longleftrightarrow> Ball UNIV P" "enum_class.enum_ex P \<longleftrightarrow> Bex UNIV P"
    unfolding u by (simp_all add: enum_vis_state_def enum_all_vis_state_def enum_ex_vis_state_def)
qed

end

fun state_value :: "vis_state \<Rightarrow> string" where
  "state_value NO_TARGET = ''NoTarget''"
| "state_value TARGET_DETECTED = ''TargetDetected''"
| "state_value TRACKING = ''Tracking''"
| "state_value SEARCHING = ''Searching''"

record pixel_bbox =
  px :: pyfloat
  py :: pyfloat
  pw :: pyfloat
  ph :: pyfloat

record norm_bbox =
  cx :: pyfloat
  cy :: pyfloat
  nw :: pyfloat
  nh :: pyfloat

definition zero_bbox :: norm_bbox where
  "zero_bbox = \<lparr> cx = Fin 0, cy = Fin 0, nw = Fin 0, nh = Fin 0 \<rparr>"

definition bbox_dict :: "norm_bbox \<Rightarrow> pydict" where
  "bbox_dict b = [(''cx'', PFloat (clamp01 (cx b))), (''cy'', PFloat (clamp01 (cy b))),
     (''w'', PFloat (clamp01 (nw b))), (''h'', PFloat (clamp01 (nh b)))]"

definition to_norm_center :: "pixel_bbox \<Rightarrow> int \<Rightarrow> int \<Rightarrow> pyexc + pyfloat \<times> pyfloat" where
  \<comment> \<open>\<open>box_select.to_norm_center\<close>\<close>
  "to_norm_center b img_w img_h =
     rbind (guard_raise (\<not> (img_w \<le> 0 \<or> img_h \<le> 0))
       (ValueError (Msg ''image dimensions must be positive''))) (\<lambda>_.
     rbind (fdiv_exc (pw b) (Fin 2)) (\<lambda>half_w.
     rbind (float_result img_w) (\<lambda>img_w_f.
     rbind (fdiv_exc (fadd (px b) half_w) img_w_f) (\<lambda>x.
     rbind (fdiv_exc (ph b) (Fin 2)) (\<lambda>half_h.
     rbind (float_result img_h) (\<lambda>img_h_f.
     rbind (fdiv_exc (fadd (py b) half_h) img_h_f) (\<lambda>y.
     Inr (clamp01 x, clamp01 y))))))))"

definition normalize_bbox_xywh ::
  "pyfloat \<Rightarrow> pyfloat \<Rightarrow> pyfloat \<Rightarrow> pyfloat \<Rightarrow> int \<Rightarrow> int \<Rightarrow> pyexc + norm_bbox" where
  "normalize_bbox_xywh x y w h img_w img_h =
     rbind (guard_raise (\<not> (img_w \<le> 0 \<or> img_h \<le> 0))
       (ValueError (Msg ''image dimensions must be positive''))) (\<lambda>_.
     rbind (float_result img_w) (\<lambda>img_w_f.
     rbind (float_result img_h) (\<lambda>img_h_f.
     rbind (fdiv_exc w (Fin 2)) (\<lambda>half_w.
     rbind (fdiv_exc (fadd x half_w) img_w_f) (\<lambda>c1.
     rbind (fdiv_exc h (Fin 2)) (\<lambda>half_h.
     rbind (fdiv_exc (fadd y half_h) img_h_f) (\<lambda>c2.
     rbind (fdiv_exc w img_w_f) (\<lambda>w'.
     rbind (fdiv_exc h img_h_f) (\<lambda>h'.
     Inr \<lparr> cx = clamp01 c1, cy = clamp01 c2, nw = clamp01 w', nh = clamp01 h' \<rparr>)))))))))"

record detection =
  bbox :: pixel_bbox
  confidence :: pyfloat
  track_id :: int

record tracker_result =
  tr_state :: vis_state
  tr_bbox :: norm_bbox
  tr_conf :: pyfloat
  tr_track_id :: int

definition zero_result :: "vis_state \<Rightarrow> tracker_result" where
  "zero_result st = \<lparr> tr_state = st, tr_bbox = zero_bbox, tr_conf = Fin 0, tr_track_id = 0 \<rparr>"

record vis_msg =
  vm_ts :: pyfloat
  vm_state :: vis_state
  vm_bbox :: norm_bbox
  vm_conf :: pyfloat
  vm_track_id :: int
  vm_frame_id :: "int option"
  vm_src :: "string option"
  vm_img_wh :: "(int \<times> int) option"

definition vis_msg_dict :: "vis_msg \<Rightarrow> pydict" where
  \<comment> \<open>\<open>VisMessage.to_dict\<close>\<close>
  "vis_msg_dict m =
    [(''type'', PStr ''VIS''), (''proto_ver'', PInt 1), (''ts'', PFloat (vm_ts m)),
     (''state'', PStr (state_value (vm_state m))), (''bbox'', PDict (bbox_dict (vm_bbox m))),
     (''conf'', PFloat (clamp01 (vm_conf m))), (''track_id'', PInt (max 0 (vm_track_id m)))]
    @ (case vm_frame_id m of None \<Rightarrow> [] | Some i \<Rightarrow> [(''frame_id'', PInt i)])
    @ (case vm_src m of None \<Rightarrow> [] | Some s \<Rightarrow> [(''src'', PStr s)])
    @ (case vm_img_wh m of None \<Rightarrow> [] | Some (w, h) \<Rightarrow> [(''img_wh'', PList [PInt w, PInt h])])"

definition vis_msg_json :: "(real \<Rightarrow> string) \<Rightarrow> vis_msg \<Rightarrow> string" where
  "vis_msg_json fr m = dumps fr (PDict (vis_msg_dict m))"

subsection \<open>Choosing a detection\<close>

text \<open>\<open>math.hypot\<close> is the rounding of the exact length on finite arguments, the only ones that occur.\<close>

fun hypot :: "pyfloat \<Rightarrow> pyfloat \<Rightarrow> pyfloat" where
  "hypot (Fin a) (Fin b) = f64 (sqrt (a * a + b * b))"
| "hypot a b = (if a \<in> {PInf, NInf} \<or> b \<in> {PInf, NInf} then PInf else NaN)"

definition score_box ::
  "int \<Rightarrow> int \<Rightarrow> pyfloat \<Rightarrow> pyfloat \<Rightarrow> pixel_bbox \<Rightarrow> pyexc + pyfloat" where
  "score_box img_w img_h desired_cx desired_cy b =
     rbind (to_norm_center b img_w img_h) (\<lambda>(x, y).
     rbind (float_result (img_w * img_h)) (\<lambda>area.
     rbind (fdiv_exc (fmul (pw b) (ph b)) area) (\<lambda>a.
     Inr (fsub (hypot (fsub x desired_cx) (fsub y desired_cy)) (fmul (Fin (1/4)) (clamp01 a))))))"

fun py_min_from :: "('a \<Rightarrow> pyexc + pyfloat) \<Rightarrow> 'a \<Rightarrow> pyfloat \<Rightarrow> 'a list \<Rightarrow> pyexc + 'a" where
  "py_min_from key best best_key [] = Inr best"
| "py_min_from key best best_key (x # xs) =
     rbind (key x) (\<lambda>k. if flt k best_key then py_min_from key x k xs
                         else py_min_from key best best_key xs)"

definition pick_best_box ::
  "detection list \<Rightarrow> int \<Rightarrow> int \<Rightarrow> pyfloat \<Rightarrow> pyfloat \<Rightarrow> pyexc + detection option" where
  "pick_best_box detections img_w img_h desired_cx desired_cy =
     (let key = (\<lambda>d. score_box img_w img_h desired_cx desired_cy (bbox d)) in
      case detections of
        [] \<Rightarrow> Inr None
      | d # ds \<Rightarrow> rbind (key d) (\<lambda>k. rbind (py_min_from key d k ds) (\<lambda>b. Inr (Some b))))"

subsection \<open>The unit interval\<close>

definition in_unit :: "pyfloat \<Rightarrow> bool" where
  "in_unit v = (fle (Fin 0) v \<and> fle v (Fin 1))"

lemma in_unit_Fin [simp]: "in_unit (Fin r) = (0 \<le> r \<and> r \<le> 1)"
  by (simp add: in_unit_def)

lemma in_unitE:
  assumes "in_unit v"
  obtains r where "v = Fin r" "0 \<le> r" "r \<le> 1"
  using assms unfolding in_unit_def by (auto elim: fle_between_Fin)

lemma clamp01_in_unit [simp]: "in_unit (clamp01 v)"
  by (cases v) (auto simp: clamp01_def fmax_def fmin_def in_unit_def)

lemma clamp01_id: "in_unit v \<Longrightarrow> clamp01 v = v"
  by (elim in_unitE) (auto simp: clamp01_def fmax_def fmin_def)

lemma clamp01_NaN: "clamp01 NaN = Fin 1"
  by (simp add: clamp01_def fmax_def fmin_def)

definition bbox_ok :: "norm_bbox \<Rightarrow> bool" where
  "bbox_ok b = (in_unit (cx b) \<and> in_unit (cy b) \<and> in_unit (nw b) \<and> in_unit (nh b))"

lemma zero_bbox_ok [simp]: "bbox_ok zero_bbox"
  by (simp add: bbox_ok_def zero_bbox_def)

lemma normalize_bbox_ok: "normalize_bbox_xywh x y w h iw ih = Inr b \<Longrightarrow> bbox_ok b"
  by (auto simp: normalize_bbox_xywh_def bbox_ok_def)

subsection \<open>The chosen detection is the first of the best\<close>

lemma fsub_small_not_NaN:
  assumes "a \<noteq> NaN" "isfinite b"
  shows "fsub a b \<noteq> NaN"
  using assms by (cases a; cases b) (auto simp: fsub_def)

lemma hypot_not_NaN: "a \<noteq> NaN \<Longrightarrow> b \<noteq> NaN \<Longrightarrow> hypot a b \<noteq> NaN"
  by (cases a; cases b) auto

lemma score_not_NaN:
  assumes "score_box w h dx dy b = Inr k" "in_unit dx" "in_unit dy"
  shows "k \<noteq> NaN"
proof -
  obtain x y where xy: "to_norm_center b w h = Inr (x, y)"
    using assms(1) by (auto simp: score_box_def)
  have "in_unit x" "in_unit y" using xy by (auto simp: to_norm_center_def)
  then have "isfinite x" "isfinite y" "isfinite dx" "isfinite dy"
    using assms(2,3) by (auto elim!: in_unitE)
  moreover have not_NaN: "isfinite z \<Longrightarrow> z \<noteq> NaN" for z by auto
  ultimately have d: "fsub x dx \<noteq> NaN" "fsub y dy \<noteq> NaN"
    by (simp_all add: fsub_small_not_NaN not_NaN)
  obtain a where k: "k = fsub (hypot (fsub x dx) (fsub y dy)) (fmul (Fin (1/4)) (clamp01 a))"
    using assms(1) xy by (auto simp: score_box_def)
  obtain c where c: "clamp01 a = Fin c" "0 \<le> c" "c \<le> 1" using clamp01_in_unit by (rule in_unitE)
  have "\<bar>rnd (c / 4)\<bar> < f64_limit"
  proof (rule big_bound)
    have "rnd (c / 4) \<le> 1" "0 \<le> rnd (c / 4)" using rnd_in_unit[of "c / 4"] c by auto
    then show "\<bar>rnd (c / 4)\<bar> \<le> 2 ^ 60" by simp
  qed
  then have "f64 (c / 4) = Fin (rnd (c / 4))" by (rule f64_small)
  then have "isfinite (fmul (Fin (1/4)) (clamp01 a))" using c by simp
  then show ?thesis unfolding k using hypot_not_NaN[OF d] by (intro fsub_small_not_NaN)
qed

lemma py_min_from_first:
  assumes "py_min_from key b k xs = Inr d" "key b = Inr k"
    and nn: "\<And>x q. key x = Inr q \<Longrightarrow> q \<noteq> NaN"
  shows "\<exists>ys zs q. b # xs = ys @ d # zs \<and> key d = Inr q \<and> fle q k \<and>
    (\<forall>e\<in>set ys. \<exists>p. key e = Inr p \<and> flt q p) \<and> (\<forall>e\<in>set zs. \<exists>p. key e = Inr p \<and> fle q p)"
  using assms(1,2)
proof (induction xs arbitrary: b k)
  case Nil
  then show ?case using nn[of b k] by (intro exI[of _ "[]"]) (auto intro: fle_refl)
next
  case (Cons x xs)
  from Cons.prems(1) obtain p where p: "key x = Inr p"
    and rest: "if flt p k then py_min_from key x p xs = Inr d else py_min_from key b k xs = Inr d"
    by (auto split: if_splits)
  show ?case
  proof (cases "flt p k")
    case True
    with rest Cons.IH[OF _ p] obtain ys zs q where q: "x # xs = ys @ d # zs" "key d = Inr q" "fle q p"
      "\<forall>e\<in>set ys. \<exists>p. key e = Inr p \<and> flt q p" "\<forall>e\<in>set zs. \<exists>p. key e = Inr p \<and> fle q p" by auto
    have "flt q k" by (rule fle_flt_trans[OF q(3) True])
    then show ?thesis using q Cons.prems(2)
      by (intro exI[of _ "b # ys"] exI[of _ zs] exI[of _ q]) (auto simp: flt_imp_fle)
  next
    case False
    with rest Cons.IH[OF _ Cons.prems(2)] obtain ys zs q where q: "b # xs = ys @ d # zs"
      "key d = Inr q" "fle q k"
      "\<forall>e\<in>set ys. \<exists>p. key e = Inr p \<and> flt q p" "\<forall>e\<in>set zs. \<exists>p. key e = Inr p \<and> fle q p" by auto
    have kp: "fle k p" using False not_flt nn p Cons.prems(2) by blast
    show ?thesis
    proof (cases ys)
      case Nil
      then show ?thesis using q p kp fle_trans
        by (intro exI[of _ "[]"] exI[of _ "x # zs"] exI[of _ q]) auto
    next
      case (Cons b' ys')
      then have "flt q k" using q(1,4) Cons.prems(2) by auto
      then have "flt q p" using kp by (rule flt_fle_trans)
      then show ?thesis using q Cons p
        by (intro exI[of _ "b # x # ys'"] exI[of _ zs] exI[of _ q]) auto
    qed
  qed
qed

text \<open>
  Among the detections of a frame the pipeline follows the one with the least score, the
  first of them when several are equal; the scores are never NaN, whatever the detector
  returned, so that the comparison is a total order.
\<close>

theorem pick_best_box_first_minimum:
  assumes "pick_best_box ds w h dx dy = Inr (Some d)" "in_unit dx" "in_unit dy"
  shows "\<exists>ys zs q. ds = ys @ d # zs \<and> score_box w h dx dy (bbox d) = Inr q \<and> q \<noteq> NaN \<and>
    (\<forall>e\<in>set ys. \<exists>p. score_box w h dx dy (bbox e) = Inr p \<and> flt q p) \<and>
    (\<forall>e\<in>set zs. \<exists>p. score_box w h dx dy (bbox e) = Inr p \<and> fle q p)"
proof -
  let ?key = "\<lambda>d. score_box w h dx dy (bbox d)"
  have nn: "?key x = Inr q \<Longrightarrow> q \<noteq> NaN" for x q using score_not_NaN assms(2,3) by blast
  obtain x xs where ds: "ds = x # xs"
    using assms(1) by (cases ds) (auto simp: pick_best_box_def)
  with assms(1) obtain k where "?key x = Inr k" "py_min_from ?key x k xs = Inr d"
    by (auto simp: pick_best_box_def Let_def)
  then have "\<exists>ys zs q. x # xs = ys @ d # zs \<and> ?key d = Inr q \<and> fle q k \<and>
    (\<forall>e\<in>set ys. \<exists>p. ?key e = Inr p \<and> flt q p) \<and> (\<forall>e\<in>set zs. \<exists>p. ?key e = Inr p \<and> fle q p)"
    using nn by (intro py_min_from_first) auto
  then show ?thesis unfolding ds using nn by blast
qed

definition sample_detection :: "real \<Rightarrow> detection" where
  "sample_detection x = \<lparr> bbox = \<lparr> px = Fin x, py = Fin 0, pw = Fin 0, ph = Fin 0 \<rparr>,
     confidence = Fin 1, track_id = 1 \<rparr>"

theorem pick_best_box_first_minimum_witness:
  "\<exists>q p. score_box 2 2 (Fin 0) (Fin 0) (bbox (sample_detection 0)) = Inr q \<and>
     score_box 2 2 (Fin 0) (Fin 0) (bbox (sample_detection 2)) = Inr p \<and> flt q p"
proof -
  let ?ds = "[sample_detection 2, sample_detection 0]"
  have "pick_best_box ?ds 2 2 (Fin 0) (Fin 0) = Inr (Some (sample_detection 0))"
    by (simp add: pick_best_box_def score_box_def to_norm_center_def fdiv_exc_def float_result_small
        sample_detection_def clamp01_def fmax_def fmin_def fsub_def)
  from pick_best_box_first_minimum[OF this] obtain ys zs q where
    q: "?ds = ys @ sample_detection 0 # zs" "score_box 2 2 (Fin 0) (Fin 0) (bbox (sample_detection 0)) = Inr q"
    "\<forall>e\<in>set ys. \<exists>p. score_box 2 2 (Fin 0) (Fin 0) (bbox e) = Inr p \<and> flt q p" by auto
  have "sample_detection 2 \<noteq> sample_detection 0" by (simp add: sample_detection_def)
  then have "sample_detection 2 \<in> set ys" using q(1) by (cases ys) auto
  then show ?thesis using q(2,3) by auto
qed

end
