(* ===== verification/Simple_Tracker.thy ===== *)
theory Simple_Tracker
  imports Vis_Types Drone_Prelude
begin

section \<open>The reference tracker\<close>

text \<open>
  \<open>SimpleTracker\<close> of \<open>src/src/vision/tracker.py\<close>, a small state machine over the frames'
  detections, and its specification as a closed formula of the history of frames.
\<close>

record simple_tracker =
  detect_hold_n :: int
  search_n :: int
  st_state :: vis_state
  detect_streak :: int
  missing_streak :: int
  last_bbox :: norm_bbox
  last_conf :: pyfloat
  last_track_id :: int

definition new_simple_tracker :: "int \<Rightarrow> int \<Rightarrow> pyexc + simple_tracker" where
  "new_simple_tracker hold search =
     rbind (guard_raise (\<not> hold < 0) (ValueError (Msg ''detect_hold_n must be >= 0''))) (\<lambda>_.
     rbind (guard_raise (\<not> search < 0) (ValueError (Msg ''search_n must be >= 0''))) (\<lambda>_.
     Inr \<lparr> detect_hold_n = hold, search_n = search, st_state = NO_TARGET, detect_streak = 0,
       missing_streak = 0, last_bbox = zero_bbox, last_conf = Fin 0, last_track_id = 0 \<rparr>))"

definition simple_reset :: "simple_tracker \<Rightarrow> simple_tracker" where
  "simple_reset t = t\<lparr> st_state := NO_TARGET, detect_streak := 0, missing_streak := 0,
     last_bbox := zero_bbox, last_conf := Fin 0, last_track_id := 0 \<rparr>"

definition simple_result :: "simple_tracker \<Rightarrow> tracker_result" where
  "simple_result t = \<lparr> tr_state = st_state t, tr_bbox = last_bbox t, tr_conf = last_conf t,
     tr_track_id = last_track_id t \<rparr>"

definition update_with_detection ::
  "detection \<Rightarrow> int \<Rightarrow> int \<Rightarrow> (pyexc, simple_tracker, tracker_result) eff" where
  "update_with_detection d img_w img_h =
     ebind (emodify (\<lambda>t. let t = t\<lparr> missing_streak := 0 \<rparr> in
       if st_state t \<noteq> TRACKING
       then (let n = detect_streak t + 1 in
             t\<lparr> detect_streak := n,
                st_state := (if n \<le> detect_hold_n t then TARGET_DETECTED else TRACKING) \<rparr>)
       else t)) (\<lambda>_.
     ebind (elift (\<lambda>_. normalize_bbox_xywh (px (bbox d)) (py (bbox d)) (pw (bbox d)) (ph (bbox d))
              img_w img_h)) (\<lambda>b.
     ebind (emodify (\<lambda>t. t\<lparr> last_bbox := b, last_conf := clamp01 (confidence d),
              last_track_id := max 0 (track_id d) \<rparr>)) (\<lambda>_.
     elift (\<lambda>t. Inr (simple_result t)))))"

definition update_without_detection :: "simple_tracker \<Rightarrow> tracker_result \<times> simple_tracker" where
  "update_without_detection t0 =
     (let t = t0\<lparr> detect_streak := 0 \<rparr>;
          searching = (st_state t = TRACKING \<or> st_state t = SEARCHING) \<and> 0 < search_n t;
          t1 = (if searching then t\<lparr> missing_streak := missing_streak t + 1 \<rparr> else t)
      in if searching \<and> missing_streak t1 \<le> search_n t1
         then (zero_result SEARCHING, t1\<lparr> st_state := SEARCHING \<rparr>)
         else (let t2 = t1\<lparr> st_state := NO_TARGET, missing_streak := 0, last_bbox := zero_bbox,
                           last_conf := Fin 0, last_track_id := 0 \<rparr>
               in (simple_result t2, t2)))"

definition simple_update ::
  "detection list \<Rightarrow> int \<Rightarrow> int \<Rightarrow> (pyexc, simple_tracker, tracker_result) eff" where
  "simple_update detections img_w img_h =
     (case detections of
        d # _ \<Rightarrow> update_with_detection d img_w img_h
      | [] \<Rightarrow> (\<lambda>t. let (r, t') = update_without_detection t in (Inr r, t')))"

subsection \<open>The state as a function of the history\<close>

text \<open>
  The history lists the frames, newest first, as whether they had a detection. While targets
  are seen the streak decides; once they are not, a target that was tracked is searched for
  during \<open>search_n\<close> frames and anything else is dropped at once.
\<close>

definition history_state :: "int \<Rightarrow> int \<Rightarrow> bool list \<Rightarrow> vis_state" where
  "history_state hold search h =
     (let seen = int (length (takeWhile (\<lambda>b. b) h));
          missed = int (length (takeWhile Not h));
          seen_before = int (length (takeWhile (\<lambda>b. b) (dropWhile Not h)))
      in if 0 < seen then (if seen \<le> hold then TARGET_DETECTED else TRACKING)
         else if missed \<le> search \<and> hold < seen_before then SEARCHING else NO_TARGET)"

definition streaks_ok :: "bool list \<Rightarrow> simple_tracker \<Rightarrow> bool" where
  "streaks_ok h t =
     (st_state t = history_state (detect_hold_n t) (search_n t) h \<and>
      0 \<le> detect_hold_n t \<and> 0 \<le> search_n t \<and>
      (st_state t \<noteq> TRACKING \<longrightarrow> detect_streak t = int (length (takeWhile (\<lambda>b. b) h))) \<and>
      (st_state t \<in> {TRACKING, SEARCHING} \<longrightarrow> missing_streak t = int (length (takeWhile Not h))))"

definition dims_ok :: "int \<Rightarrow> int \<Rightarrow> bool" where
  "dims_ok w h = (0 < w \<and> w < 2 ^ 53 \<and> 0 < h \<and> h < 2 ^ 53)"

lemma fdiv_exc_pos: "0 < r \<Longrightarrow> \<exists>q. fdiv_exc a (Fin r) = Inr q"
  by (simp add: fdiv_exc_def)

lemma normalize_returns:
  assumes "dims_ok w h"
  shows "\<exists>b. normalize_bbox_xywh x y bw bh w h = Inr b"
proof -
  have f: "float_result w = Inr (Fin (of_int w))" "float_result h = Inr (Fin (of_int h))"
    using assms by (auto simp: dims_ok_def intro!: float_result_small)
  have d: "\<exists>q. fdiv_exc a (Fin (of_int w)) = Inr q" "\<exists>q. fdiv_exc a (Fin (of_int h)) = Inr q"
    "\<exists>q. fdiv_exc a (Fin 2) = Inr q" for a
    using assms by (auto simp: dims_ok_def intro!: fdiv_exc_pos)
  from d(3)[of bw] obtain a1 where 1: "fdiv_exc bw (Fin 2) = Inr a1" by blast
  from d(3)[of bh] obtain a2 where 2: "fdiv_exc bh (Fin 2) = Inr a2" by blast
  from d(1)[of "fadd x a1"] obtain a3 where 3: "fdiv_exc (fadd x a1) (Fin (of_int w)) = Inr a3" by blast
  from d(2)[of "fadd y a2"] obtain a4 where 4: "fdiv_exc (fadd y a2) (Fin (of_int h)) = Inr a4" by blast
  from d(1)[of bw] obtain a5 where 5: "fdiv_exc bw (Fin (of_int w)) = Inr a5" by blast
  from d(2)[of bh] obtain a6 where 6: "fdiv_exc bh (Fin (of_int h)) = Inr a6" by blast
  show ?thesis using assms by (simp add: normalize_bbox_xywh_def f dims_ok_def 1 2 3 4 5 6)
qed

lemma detection_step:
  assumes "streaks_ok h t" "dims_ok iw ih"
  shows "\<exists>r t'. update_with_detection d iw ih t = (Inr r, t') \<and> streaks_ok (True # h) t' \<and>
    detect_hold_n t' = detect_hold_n t \<and> search_n t' = search_n t"
proof -
  obtain b where "normalize_bbox_xywh (px (bbox d)) (py (bbox d)) (pw (bbox d)) (ph (bbox d)) iw ih = Inr b"
    using normalize_returns[OF assms(2)] by metis
  moreover have "history_state (detect_hold_n t) (search_n t) (True # h) =
      (if int (length (takeWhile (\<lambda>b. b) h)) + 1 \<le> detect_hold_n t then TARGET_DETECTED else TRACKING)"
    by (simp add: history_state_def)
  moreover have "history_state (detect_hold_n t) (search_n t) h = TRACKING \<Longrightarrow>
      \<not> int (length (takeWhile (\<lambda>b. b) h)) + 1 \<le> detect_hold_n t"
    by (auto simp: history_state_def Let_def split: if_splits)
  ultimately show ?thesis using assms(1)
    by (auto simp: update_with_detection_def streaks_ok_def Let_def)
qed

lemma miss_step:
  assumes "streaks_ok h t"
  shows "\<exists>r t'. update_without_detection t = (r, t') \<and> streaks_ok (False # h) t' \<and>
    detect_hold_n t' = detect_hold_n t \<and> search_n t' = search_n t"
proof -
  let ?m = "int (length (takeWhile Not h))" and ?s = "history_state (detect_hold_n t) (search_n t) h"
  have "history_state (detect_hold_n t) (search_n t) (False # h) =
      (if ?m + 1 \<le> search_n t \<and> (?s = TRACKING \<or> ?s = SEARCHING) then SEARCHING else NO_TARGET)"
    using assms by (cases h) (auto simp: history_state_def Let_def streaks_ok_def)
  then show ?thesis using assms
    by (auto simp: update_without_detection_def streaks_ok_def Let_def)
qed

lemma update_step:
  assumes "streaks_ok h t" "dims_ok iw ih"
  shows "\<exists>r t'. simple_update ds iw ih t = (Inr r, t') \<and> streaks_ok ((ds \<noteq> []) # h) t' \<and>
    detect_hold_n t' = detect_hold_n t \<and> search_n t' = search_n t"
proof (cases ds)
  case Nil
  then show ?thesis using miss_step[OF assms(1)] by (auto simp: simple_update_def)
next
  case (Cons d ds')
  then show ?thesis using detection_step[OF assms] by (auto simp: simple_update_def)
qed

fun simple_run :: "int \<Rightarrow> int \<Rightarrow> detection list list \<Rightarrow> simple_tracker \<Rightarrow> simple_tracker" where
  "simple_run iw ih [] t = t"
| "simple_run iw ih (ds # frames) t = simple_run iw ih frames (snd (simple_update ds iw ih t))"

lemma run_streaks:
  assumes "streaks_ok h t" "dims_ok iw ih"
  shows "streaks_ok (rev (map (\<lambda>ds. ds \<noteq> []) frames) @ h) (simple_run iw ih frames t) \<and>
    detect_hold_n (simple_run iw ih frames t) = detect_hold_n t \<and>
    search_n (simple_run iw ih frames t) = search_n t"
  using assms(1)
proof (induction frames arbitrary: h t)
  case (Cons ds frames)
  from update_step[OF Cons.prems assms(2), of ds] obtain r t' where
    t': "simple_update ds iw ih t = (Inr r, t')" "streaks_ok ((ds \<noteq> []) # h) t'"
    "detect_hold_n t' = detect_hold_n t" "search_n t' = search_n t" by auto
  from Cons.IH[OF t'(2)] t' show ?case by simp
qed simp

text \<open>
  The incremental machine implements the closed formula: after any frames its state is the
  one the history determines. In particular a target is tracked exactly when it has been
  seen in more than \<open>detect_hold_n\<close> successive frames up to the last, and is searched for
  during at most \<open>search_n\<close> frames after that.
\<close>

theorem simple_tracker_refines_history:
  assumes "new_simple_tracker hold search = Inr t" "dims_ok iw ih"
  shows "st_state (simple_run iw ih frames t) =
    history_state hold search (rev (map (\<lambda>ds. ds \<noteq> []) frames))"
proof -
  have "streaks_ok [] t" "detect_hold_n t = hold" "search_n t = search"
    using assms(1) by (auto simp: new_simple_tracker_def streaks_ok_def history_state_def Let_def)
  from run_streaks[OF this(1) assms(2), of frames] this(2,3) show ?thesis
    by (auto simp: streaks_ok_def)
qed

theorem simple_tracker_refines_history_witness:
  "\<exists>t. new_simple_tracker 1 1 = Inr t \<and>
     st_state (simple_run 640 480 [[sample_detection 0], [sample_detection 0], []] t) = SEARCHING"
proof -
  obtain t where t: "new_simple_tracker 1 1 = Inr t" by (simp add: new_simple_tracker_def)
  from simple_tracker_refines_history[OF t, of 640 480
      "[[sample_detection 0], [sample_detection 0], []]"] t
  show ?thesis by (simp add: dims_ok_def history_state_def Let_def)
qed

end
