(* ===== verification/Vision_Pipeline.thy ===== *)
theory Vision_Pipeline
  imports Simple_Tracker "HOL-Library.Sublist"
begin

section \<open>The vision pipeline\<close>

text \<open>
  \<open>src/src/vision/vision_pipeline.py\<close>: the state machine that turns detections and tracker
  answers into the published target. The detector and the tracker behind the \<open>DetectorLike\<close>
  and \<open>TrackerLike\<close> protocols are arguments: a function of the frame and its number, and a
  record of stateful operations that may raise. \<open>img_w\<close> and \<open>img_h\<close> come from the frame's shape.
\<close>

subsection \<open>Configuration\<close>

record pipeline_config =
  hold_n :: int              \<comment> \<open>\<open>detect_hold_n\<close>\<close>
  search_frames :: int       \<comment> \<open>\<open>search_n\<close>\<close>
  detect_every_n :: int
  desired_cx :: pyfloat
  desired_cy :: pyfloat
  grace_frames :: int        \<comment> \<open>\<open>target_detected_grace_frames\<close>\<close>
  reinit_iou :: pyfloat      \<comment> \<open>\<open>tracker_reinit_iou\<close>\<close>
  conf_decay :: pyfloat      \<comment> \<open>\<open>tracker_only_conf_decay\<close>\<close>
  conf_floor :: pyfloat      \<comment> \<open>\<open>tracker_only_conf_floor\<close>\<close>

definition check_pipeline_config :: "pipeline_config \<Rightarrow> pyexc + unit" where
  "check_pipeline_config c =
     rbind (guard_raise (\<not> hold_n c < 0) (ValueError (Msg ''detect_hold_n must be >= 0''))) (\<lambda>_.
     rbind (guard_raise (\<not> search_frames c < 0) (ValueError (Msg ''search_n must be >= 0''))) (\<lambda>_.
     rbind (guard_raise (\<not> detect_every_n c \<le> 0) (ValueError (Msg ''detect_every_n must be >= 1''))) (\<lambda>_.
     rbind (guard_raise (in_unit (desired_cx c)) (ValueError (Msg ''desired_cx must be in [0, 1]''))) (\<lambda>_.
     rbind (guard_raise (in_unit (desired_cy c)) (ValueError (Msg ''desired_cy must be in [0, 1]''))) (\<lambda>_.
     rbind (guard_raise (\<not> grace_frames c < 0)
       (ValueError (Msg ''target_detected_grace_frames must be >= 0''))) (\<lambda>_.
     rbind (guard_raise (in_unit (reinit_iou c)) (ValueError (Msg ''tracker_reinit_iou must be in [0, 1]''))) (\<lambda>_.
     rbind (guard_raise (flt (Fin 0) (conf_decay c) \<and> fle (conf_decay c) (Fin 1))
       (ValueError (Msg ''tracker_only_conf_decay must be in (0, 1]''))) (\<lambda>_.
     guard_raise (in_unit (conf_floor c))
       (ValueError (Msg ''tracker_only_conf_floor must be in [0, 1]''))))))))))"

subsection \<open>The tracker interface and the pipeline's fields\<close>

record ('f, 't) tracker_like =
  tl_initialize :: "'f \<Rightarrow> pixel_bbox \<Rightarrow> (pyexc, 't, bool) eff"
  tl_update :: "'f \<Rightarrow> (pyexc, 't, bool \<times> pixel_bbox option) eff"
  tl_reset :: "'t \<Rightarrow> 't"

record 't pipeline =
  pl_state :: vis_state
  hold_counter :: int
  search_counter :: int
  detected_box :: "detection option"
  last_detection :: "detection option"
  last_detection_frame :: "int option"
  tracker_active :: bool
  last_tracker_bbox :: "pixel_bbox option"
  last_tracking_conf :: pyfloat
  miss_streak :: int
  trk :: 't

definition new_pipeline :: "'t \<Rightarrow> 't pipeline" where
  "new_pipeline t = \<lparr> pl_state = NO_TARGET, hold_counter = 0, search_counter = 0,
     detected_box = None, last_detection = None, last_detection_frame = None,
     tracker_active = False, last_tracker_bbox = None, last_tracking_conf = Fin 0,
     miss_streak = 0, trk = t \<rparr>"

definition pipeline_reset :: "('f, 't) tracker_like \<Rightarrow> 't pipeline \<Rightarrow> 't pipeline" where
  "pipeline_reset tk p = new_pipeline (tl_reset tk (trk p))"

definition on_trk :: "(pyexc, 't, 'a) eff \<Rightarrow> (pyexc, 't pipeline, 'a) eff" where
  "on_trk m p = (let (r, t) = m (trk p) in (r, p\<lparr> trk := t \<rparr>))"

definition iou :: "pixel_bbox \<Rightarrow> pixel_bbox \<Rightarrow> pyexc + pyfloat" where
  "iou a b =
     (if \<not> list_all isfinite [px a, py a, pw a, ph a, px b, py b, pw b, ph b] then Inr (Fin 0)
      else if fle (pw a) (Fin 0) \<or> fle (ph a) (Fin 0) \<or> fle (pw b) (Fin 0) \<or> fle (ph b) (Fin 0)
      then Inr (Fin 0)
      else (let a_x2 = fadd (px a) (pw a); a_y2 = fadd (py a) (ph a);
                b_x2 = fadd (px b) (pw b); b_y2 = fadd (py b) (ph b);
                inter_x1 = fmax (px a) (px b); inter_y1 = fmax (py a) (py b);
                inter_x2 = fmin a_x2 b_x2; inter_y2 = fmin a_y2 b_y2;
                inter_w = fsub inter_x2 inter_x1; inter_h = fsub inter_y2 inter_y1
            in if fle inter_w (Fin 0) \<or> fle inter_h (Fin 0) then Inr (Fin 0)
               else (let inter_area = fmul inter_w inter_h;
                         union_area = fsub (fadd (fmul (pw a) (ph a)) (fmul (pw b) (ph b))) inter_area
                     in if fle union_area (Fin 0) then Inr (Fin 0)
                        else fdiv_exc inter_area union_area)))"

definition tracking_result :: "pixel_bbox \<Rightarrow> int \<Rightarrow> int \<Rightarrow> pyfloat \<Rightarrow> pyexc + tracker_result" where
  "tracking_result b img_w img_h conf =
     rbind (normalize_bbox_xywh (px b) (py b) (pw b) (ph b) img_w img_h)
       (\<lambda>nb. Inr \<lparr> tr_state = TRACKING, tr_bbox = nb, tr_conf = conf, tr_track_id = 1 \<rparr>)"

subsection \<open>Detection\<close>

definition should_detect :: "pipeline_config \<Rightarrow> int \<Rightarrow> bool" where
  "should_detect c frame_id = ((max 1 frame_id - 1) mod detect_every_n c = 0)"

definition detect_best ::
  "pipeline_config \<Rightarrow> ('f \<Rightarrow> int \<Rightarrow> pyexc + detection list) \<Rightarrow> 'f \<Rightarrow> int \<Rightarrow> int \<Rightarrow> int
   \<Rightarrow> (pyexc, 't pipeline, detection option) eff" where
  "detect_best c detect frame frame_id img_w img_h =
     (if \<not> should_detect c frame_id then ereturn None
      else ebind (elift (\<lambda>_. rbind (detect frame frame_id) (\<lambda>ds.
             pick_best_box ds img_w img_h (desired_cx c) (desired_cy c)))) (\<lambda>best.
           ebind (emodify (\<lambda>p. p\<lparr> last_detection := best,
             last_detection_frame := (if best = None then None else Some frame_id) \<rparr>)) (\<lambda>_.
           ereturn best)))"

definition reuse_last_detection :: "pipeline_config \<Rightarrow> int \<Rightarrow> 't pipeline \<Rightarrow> detection option" where
  "reuse_last_detection c frame_id p =
     (case (last_detection p, last_detection_frame p) of
        (Some d, Some f) \<Rightarrow> if frame_id - f < detect_every_n c then Some d else None
      | _ \<Rightarrow> None)"

subsection \<open>The four states\<close>

definition transition_no_target :: "('f, 't) tracker_like \<Rightarrow> 't pipeline \<Rightarrow> 't pipeline" where
  "transition_no_target tk p = p\<lparr> pl_state := NO_TARGET, hold_counter := 0, search_counter := 0,
     detected_box := None, miss_streak := 0, trk := tl_reset tk (trk p), tracker_active := False,
     last_tracker_bbox := None, last_tracking_conf := Fin 0 \<rparr>"

definition enter_detected :: "detection \<Rightarrow> 't pipeline \<Rightarrow> 't pipeline" where
  \<comment> \<open>the assignments that \<open>_update_no_target\<close> and \<open>_update_searching\<close> share\<close>
  "enter_detected d p = p\<lparr> pl_state := TARGET_DETECTED, detected_box := Some d, hold_counter := 0,
     search_counter := 0, miss_streak := 0 \<rparr>"

definition update_no_target :: "detection option \<Rightarrow> (pyexc, 't pipeline, tracker_result) eff" where
  "update_no_target detected =
     (case detected of
        None \<Rightarrow> ereturn (zero_result NO_TARGET)
      | Some d \<Rightarrow> ebind (emodify (enter_detected d)) (\<lambda>_. ereturn (zero_result TARGET_DETECTED)))"

definition start_tracking ::
  "('f, 't) tracker_like \<Rightarrow> 'f \<Rightarrow> int \<Rightarrow> int \<Rightarrow> detection \<Rightarrow> (pyexc, 't pipeline, tracker_result) eff" where
  \<comment> \<open>the hold is complete\<close>
  "start_tracking tk frame img_w img_h d =
     ebind (emodify (\<lambda>p. p\<lparr> pl_state := TRACKING, search_counter := 0 \<rparr>)) (\<lambda>_.
     ebind (on_trk (tl_initialize tk frame (bbox d))) (\<lambda>ok.
     ebind (emodify (\<lambda>p. p\<lparr> tracker_active := ok, last_tracking_conf := clamp01 (confidence d) \<rparr>)) (\<lambda>_.
     elift (\<lambda>p. tracking_result (bbox d) img_w img_h (last_tracking_conf p)))))"

definition update_target_detected ::
  "pipeline_config \<Rightarrow> ('f, 't) tracker_like \<Rightarrow> 'f \<Rightarrow> int \<Rightarrow> int \<Rightarrow> int \<Rightarrow> detection option \<Rightarrow> bool
   \<Rightarrow> (pyexc, 't pipeline, tracker_result) eff" where
  "update_target_detected c tk frame frame_id img_w img_h detected detects p =
     (case (if detected = None \<and> \<not> detects then reuse_last_detection c frame_id p else detected) of
        None \<Rightarrow>
          (let p1 = p\<lparr> miss_streak := miss_streak p + 1 \<rparr> in
           if miss_streak p1 \<le> grace_frames c then (Inr (zero_result TARGET_DETECTED), p1)
           else (Inr (zero_result NO_TARGET), transition_no_target tk p1))
      | Some d \<Rightarrow>
          (let p1 = p\<lparr> miss_streak := 0, detected_box := Some d, hold_counter := hold_counter p + 1 \<rparr> in
           if hold_n c \<le> hold_counter p1 then start_tracking tk frame img_w img_h d p1
           else (Inr (zero_result TARGET_DETECTED), p1)))"

definition tracking_with_detection ::
  "pipeline_config \<Rightarrow> ('f, 't) tracker_like \<Rightarrow> 'f \<Rightarrow> int \<Rightarrow> int \<Rightarrow> detection
   \<Rightarrow> (pyexc, 't pipeline, tracker_result) eff" where
  "tracking_with_detection c tk frame img_w img_h d =
     ebind (elift (\<lambda>p. if \<not> tracker_active p then Inr True
         else case last_tracker_bbox p of None \<Rightarrow> Inr True
              | Some b \<Rightarrow> rbind (iou b (bbox d)) (\<lambda>v. Inr (flt v (reinit_iou c))))) (\<lambda>should_reinit.
     ebind (if should_reinit
            then ebind (on_trk (tl_initialize tk frame (bbox d))) (\<lambda>ok. emodify (\<lambda>p. p\<lparr> tracker_active := ok \<rparr>))
            else ereturn ()) (\<lambda>_.
     ebind (emodify (\<lambda>p. p\<lparr> last_tracker_bbox := (if tracker_active p then Some (bbox d) else None),
              last_tracking_conf := clamp01 (confidence d) \<rparr>)) (\<lambda>_.
     elift (\<lambda>p. tracking_result (bbox d) img_w img_h (last_tracking_conf p)))))"

definition decay_conf :: "pipeline_config \<Rightarrow> pyfloat \<Rightarrow> pyfloat" where
  "decay_conf c conf =
     (let decayed = fmul conf (conf_decay c)
      in if fle (conf_floor c) conf then fmax decayed (conf_floor c) else decayed)"

definition lose_track :: "('f, 't) tracker_like \<Rightarrow> 't pipeline \<Rightarrow> 't pipeline" where
  "lose_track tk p = p\<lparr> pl_state := SEARCHING, search_counter := 0, hold_counter := 0,
     detected_box := None, last_tracker_bbox := None, last_tracking_conf := Fin 0,
     trk := tl_reset tk (trk p), tracker_active := False \<rparr>"

definition tracking_without_detection ::
  "pipeline_config \<Rightarrow> ('f, 't) tracker_like \<Rightarrow> 'f \<Rightarrow> int \<Rightarrow> int \<Rightarrow> (pyexc, 't pipeline, tracker_result) eff" where
  "tracking_without_detection c tk frame img_w img_h =
     ebind (\<lambda>p. if tracker_active p then on_trk (tl_update tk frame) p else (Inr (False, None), p)) (\<lambda>answer.
     case answer of
       (True, Some b) \<Rightarrow>
         ebind (emodify (\<lambda>p. p\<lparr> last_tracker_bbox := Some b,
                  last_tracking_conf := decay_conf c (last_tracking_conf p) \<rparr>)) (\<lambda>_.
         elift (\<lambda>p. tracking_result b img_w img_h (last_tracking_conf p)))
     | _ \<Rightarrow> ebind (emodify (lose_track tk)) (\<lambda>_. ereturn (zero_result SEARCHING)))"

definition update_tracking ::
  "pipeline_config \<Rightarrow> ('f, 't) tracker_like \<Rightarrow> 'f \<Rightarrow> int \<Rightarrow> int \<Rightarrow> detection option
   \<Rightarrow> (pyexc, 't pipeline, tracker_result) eff" where
  "update_tracking c tk frame img_w img_h detected =
     (case detected of
        Some d \<Rightarrow> tracking_with_detection c tk frame img_w img_h d
      | None \<Rightarrow> tracking_without_detection c tk frame img_w img_h)"

definition update_searching ::
  "pipeline_config \<Rightarrow> ('f, 't) tracker_like \<Rightarrow> detection option \<Rightarrow> (pyexc, 't pipeline, tracker_result) eff" where
  "update_searching c tk detected p =
     (case detected of
        Some d \<Rightarrow> (Inr (zero_result TARGET_DETECTED), enter_detected d p)
      | None \<Rightarrow>
          (let p1 = p\<lparr> search_counter := search_counter p + 1 \<rparr> in
           if search_frames c \<le> search_counter p1
           then (Inr (zero_result NO_TARGET), transition_no_target tk p1)
           else (Inr (zero_result SEARCHING), p1)))"

definition process_frame ::
  "pipeline_config \<Rightarrow> ('f \<Rightarrow> int \<Rightarrow> pyexc + detection list) \<Rightarrow> ('f, 't) tracker_like \<Rightarrow> ('f \<Rightarrow> int \<times> int)
   \<Rightarrow> 'f \<Rightarrow> int \<Rightarrow> (pyexc, 't pipeline, tracker_result) eff" where
  \<comment> \<open>\<open>shape\<close> gives the height and the width of a frame\<close>
  "process_frame c detect tk shape frame frame_id =
     (let (img_h, img_w) = shape frame in
      ebind (detect_best c detect frame frame_id img_w img_h) (\<lambda>detected p.
        case pl_state p of
          NO_TARGET \<Rightarrow> update_no_target detected p
        | TARGET_DETECTED \<Rightarrow> update_target_detected c tk frame frame_id img_w img_h detected
                                (should_detect c frame_id) p
        | TRACKING \<Rightarrow> update_tracking c tk frame img_w img_h detected p
        | SEARCHING \<Rightarrow> update_searching c tk detected p))"

subsection \<open>The specification automaton\<close>

text \<open>Which states may follow which, whatever the detector and the tracker say.\<close>

inductive vis_step :: "vis_state \<Rightarrow> vis_state \<Rightarrow> bool" where
  stay: "vis_step s s"
| acquire: "vis_step NO_TARGET TARGET_DETECTED"
| hold: "vis_step TARGET_DETECTED TRACKING"
| drop_target: "vis_step TARGET_DETECTED NO_TARGET"
| lose: "vis_step TRACKING SEARCHING"
| reacquire: "vis_step SEARCHING TARGET_DETECTED"
| give_up: "vis_step SEARCHING NO_TARGET"

code_pred vis_step .

inductive_simps vis_step_simps [simp]:
  "vis_step NO_TARGET s" "vis_step TARGET_DETECTED s" "vis_step TRACKING s" "vis_step SEARCHING s"

inductive_cases into_tracking: "vis_step s TRACKING"

lemma tracking_entered:
  \<comment> \<open>a target is tracked only after it was detected, and every state can be left and come back to\<close>
  "vis_step s TRACKING \<Longrightarrow> s \<noteq> TRACKING \<Longrightarrow> s = TARGET_DETECTED" "vis_step\<^sup>*\<^sup>* s t"
proof -
  show "s = TARGET_DETECTED" if "vis_step s TRACKING" "s \<noteq> TRACKING" using that by (auto elim: into_tracking)
  have d: "vis_step\<^sup>*\<^sup>* NO_TARGET TARGET_DETECTED" "vis_step\<^sup>*\<^sup>* TARGET_DETECTED TRACKING"
    "vis_step\<^sup>*\<^sup>* TRACKING SEARCHING" "vis_step\<^sup>*\<^sup>* SEARCHING NO_TARGET" by (rule r_into_rtranclp; simp)+
  note e = rtranclp_trans[OF d(1,2)] rtranclp_trans[OF d(3,4)]
  have cycle: "vis_step\<^sup>*\<^sup>* NO_TARGET u" "vis_step\<^sup>*\<^sup>* u NO_TARGET" for u
    using d e rtranclp_trans[OF e(1) d(3)] rtranclp_trans[OF d(2) e(2)] by (cases u; simp)+
  show "vis_step\<^sup>*\<^sup>* s t" using cycle by (rule rtranclp_trans[rotated])
qed

definition result_ok :: "tracker_result \<Rightarrow> bool" where
  \<comment> \<open>a target is published with a valid box and confidence, and nothing at all without one\<close>
  "result_ok r = (if tr_state r = TRACKING
     then bbox_ok (tr_bbox r) \<and> in_unit (tr_conf r) \<and> tr_track_id r = 1
     else r = zero_result (tr_state r))"

definition pl_inv :: "pipeline_config \<Rightarrow> 't pipeline \<Rightarrow> bool" where
  "pl_inv c p =
     (in_unit (last_tracking_conf p) \<and> 0 \<le> hold_counter p \<and> 0 \<le> search_counter p \<and> 0 \<le> miss_streak p \<and>
      (pl_state p = TARGET_DETECTED \<longrightarrow> hold_counter p < max 1 (hold_n c) \<and> miss_streak p \<le> grace_frames c) \<and>
      (pl_state p = SEARCHING \<longrightarrow> search_counter p < max 1 (search_frames c)) \<and>
      (tracker_active p \<longrightarrow> pl_state p = TRACKING) \<and>
      (last_tracker_bbox p \<noteq> None \<longrightarrow> tracker_active p) \<and>
      (last_detection p = None \<longleftrightarrow> last_detection_frame p = None))"

lemma check_pipeline_config_Inr:
  "check_pipeline_config c = Inr () \<longleftrightarrow>
     0 \<le> hold_n c \<and> 0 \<le> search_frames c \<and> 0 < detect_every_n c \<and> in_unit (desired_cx c) \<and>
     in_unit (desired_cy c) \<and> 0 \<le> grace_frames c \<and> in_unit (reinit_iou c) \<and>
     flt (Fin 0) (conf_decay c) \<and> fle (conf_decay c) (Fin 1) \<and> in_unit (conf_floor c)"
  by (auto simp: check_pipeline_config_def rbind_Inr_iff)

text \<open>Decay keeps the confidence in the unit interval, never raises it and respects the floor.\<close>

lemma decay_product:
  assumes "in_unit x" "flt (Fin 0) d" "fle d (Fin 1)" "is_f64 x"
  shows "in_unit (fmul x d) \<and> fle (fmul x d) x"
proof -
  obtain a where a: "x = Fin a" "0 \<le> a" "a \<le> 1" using assms(1) by (rule in_unitE)
  obtain b where b: "d = Fin b" "0 < b" "b \<le> 1" using assms(2,3) by (cases d) auto
  have "a * b \<le> a" using a b by (simp add: mult_left_le)
  then have le: "fle (f64 (a * b)) (Fin a)" using f64_mono[of "a * b" a] f64_is_f64 assms(4) a by auto
  have nn: "fle (Fin 0) (f64 (a * b))" using a b by (intro f64_nonneg) simp
  have "fle (f64 (a * b)) (Fin 1)" using fle_trans[OF le] a by simp
  then show ?thesis using a b le nn by (simp add: in_unit_def)
qed

lemma in_unit_mul: "in_unit x \<Longrightarrow> flt (Fin 0) d \<Longrightarrow> fle d (Fin 1) \<Longrightarrow> in_unit (fmul x d)"
proof -
  assume as: "in_unit x" "flt (Fin 0) d" "fle d (Fin 1)"
  obtain a where a: "x = Fin a" "0 \<le> a" "a \<le> 1" using as(1) by (rule in_unitE)
  obtain b where b: "d = Fin b" "0 < b" "b \<le> 1" using as(2,3) by (cases d) auto
  have "a * b \<le> 1" using a b by (simp add: mult_le_one)
  then have "fle (f64 (a * b)) (Fin 1)" using f64_mono[of "a * b" 1] by simp
  moreover have "fle (Fin 0) (f64 (a * b))" using a b by (intro f64_nonneg) simp
  ultimately show ?thesis using a b by (simp add: in_unit_def)
qed

lemma decay_conf_in_unit:
  assumes "check_pipeline_config c = Inr ()" "in_unit x"
  shows "in_unit (decay_conf c x)"
proof -
  have d: "in_unit (fmul x (conf_decay c))" and f: "in_unit (conf_floor c)"
    using assms in_unit_mul by (auto simp: check_pipeline_config_Inr)
  from d f show ?thesis by (auto simp: decay_conf_def fmax_def Let_def)
qed

text \<open>
  On frames that only the tracker answers, the published confidence never rises, and a
  stretch that starts at or above the floor never falls below it: the flight controller, whose
  own threshold is no higher than the floor, keeps following.
\<close>

theorem decay_conf_bounds:
  assumes "check_pipeline_config c = Inr ()" "in_unit x" "is_f64 x"
  shows "fle (decay_conf c x) x \<and> in_unit (decay_conf c x) \<and>
    (fle (conf_floor c) x \<longrightarrow> fle (conf_floor c) (decay_conf c x))"
proof -
  have c: "flt (Fin 0) (conf_decay c)" "fle (conf_decay c) (Fin 1)" "in_unit (conf_floor c)"
    using assms(1) by (auto simp: check_pipeline_config_Inr)
  have d: "fle (fmul x (conf_decay c)) x" "in_unit (fmul x (conf_decay c))"
    using decay_product[OF assms(2) c(1,2) assms(3)] by simp_all
  have "fle (conf_floor c) (fmax (fmul x (conf_decay c)) (conf_floor c))"
    using d(2) c(3) by (elim in_unitE) (auto simp: fmax_def)
  then show ?thesis using d decay_conf_in_unit[OF assms(1,2)]
    by (auto simp: decay_conf_def fmax_def Let_def)
qed

definition default_config :: pipeline_config where
  "default_config = \<lparr> hold_n = 30, search_frames = 30, detect_every_n = 1, desired_cx = Fin (1/2),
     desired_cy = Fin (1/2), grace_frames = 1, reinit_iou = Fin (1/2), conf_decay = f64 (95/100),
     conf_floor = Fin (1/2) \<rparr>"

lemma default_config_ok: "check_pipeline_config default_config = Inr ()"
proof -
  have "\<bar>rnd (95/100)\<bar> < f64_limit"
  proof (rule big_bound)
    show "\<bar>rnd (95/100)\<bar> \<le> 2 ^ 60" using rnd_in_unit[of "95/100"] by simp
  qed
  then have "f64 (95/100) = Fin (rnd (95/100))" by (rule f64_small)
  moreover have "1 / 2 \<le> rnd (95/100)" "rnd (95/100) \<le> 1"
    using rnd_ge_fix[of "1/2" "95/100"] rnd_in_unit[of "95/100"] by simp_all
  ultimately show ?thesis by (simp add: check_pipeline_config_Inr default_config_def)
qed

theorem decay_conf_bounds_witness:
  "fle (decay_conf default_config (Fin 1)) (Fin 1) \<and> fle (Fin (1/2)) (decay_conf default_config (Fin 1))"
  using decay_conf_bounds[OF default_config_ok, of "Fin 1"] big_bound[of 1] by (simp add: default_config_def)

subsection \<open>Every frame takes a step of the automaton\<close>

definition step_ok :: "pipeline_config \<Rightarrow> vis_state \<Rightarrow> (pyexc + tracker_result) \<times> 't pipeline \<Rightarrow> bool" where
  "step_ok c s o1 = (case o1 of (r, p') \<Rightarrow> pl_inv c p' \<and> vis_step s (pl_state p') \<and>
     (case r of Inl _ \<Rightarrow> True | Inr res \<Rightarrow> tr_state res = pl_state p' \<and> result_ok res))"

lemma zero_result_ok [simp]: "tr_state (zero_result s) = s" "s \<noteq> TRACKING \<Longrightarrow> result_ok (zero_result s)"
  by (simp_all add: zero_result_def result_ok_def)

lemma tracking_result_ok:
  "tracking_result b w h cf = Inr r \<Longrightarrow> in_unit cf \<Longrightarrow> tr_state r = TRACKING \<and> result_ok r"
  by (auto simp: tracking_result_def result_ok_def normalize_bbox_ok)

lemma on_trk_eq: "on_trk m p = (fst (m (trk p)), p\<lparr> trk := snd (m (trk p)) \<rparr>)"
  by (simp add: on_trk_def split_beta)

lemma no_target_step:
  "check_pipeline_config c = Inr () \<Longrightarrow> pl_inv c p \<Longrightarrow> pl_state p = NO_TARGET \<Longrightarrow>
   step_ok c NO_TARGET (update_no_target d p)"
  by (auto simp: step_ok_def update_no_target_def enter_detected_def pl_inv_def
      check_pipeline_config_Inr split: option.splits)

lemma searching_step:
  "check_pipeline_config c = Inr () \<Longrightarrow> pl_inv c p \<Longrightarrow> pl_state p = SEARCHING \<Longrightarrow>
   step_ok c SEARCHING (update_searching c tk d p)"
  by (auto simp: step_ok_def update_searching_def enter_detected_def transition_no_target_def pl_inv_def
      check_pipeline_config_Inr Let_def split: option.splits)

lemma start_tracking_step:
  assumes "pl_inv c p" "pl_state p = TARGET_DETECTED"
  shows "step_ok c TARGET_DETECTED
    (start_tracking tk f w h d (p\<lparr> miss_streak := 0, detected_box := b, hold_counter := hold_counter p + 1 \<rparr>))"
  using assms
  by (cases "fst (tl_initialize tk f (bbox d) (trk p))";
      cases "tracking_result (bbox d) w h (clamp01 (confidence d))")
    (auto simp: start_tracking_def step_ok_def pl_inv_def on_trk_eq ebind_def split: sum.splits
      dest!: tracking_result_ok)

lemma target_detected_step:
  assumes "check_pipeline_config c = Inr ()" "pl_inv c p" "pl_state p = TARGET_DETECTED"
  shows "step_ok c TARGET_DETECTED (update_target_detected c tk f i w h d s p)"
proof (cases "if d = None \<and> \<not> s then reuse_last_detection c i p else d")
  case None
  then show ?thesis using assms
    by (auto simp: update_target_detected_def step_ok_def transition_no_target_def pl_inv_def Let_def)
next
  case (Some d')
  show ?thesis
  proof (cases "hold_n c \<le> hold_counter p + 1")
    case True
    then show ?thesis using start_tracking_step[OF assms(2,3), of tk f w h d' "Some d'"] Some
      by (simp add: update_target_detected_def)
  next
    case False
    then show ?thesis using assms Some
      by (auto simp: update_target_detected_def step_ok_def pl_inv_def check_pipeline_config_Inr Let_def)
  qed
qed

lemma with_detection_step:
  assumes "pl_inv c p" "pl_state p = TRACKING"
  shows "step_ok c TRACKING (tracking_with_detection c tk f w h d p)"
proof -
  let ?t = "tl_initialize tk f (bbox d) (trk p)" and ?r = "tracking_result (bbox d) w h (clamp01 (confidence d))"
  have r: "?r = Inr res \<Longrightarrow> tr_state res = TRACKING \<and> result_ok res" for res
    using tracking_result_ok clamp01_in_unit by blast
  show ?thesis using assms
    by (cases "fst ?t"; cases ?r)
      (auto simp: tracking_with_detection_def step_ok_def pl_inv_def on_trk_eq ebind_def rbind_def
        split: sum.splits option.splits dest!: r)
qed

lemma without_detection_step:
  assumes "check_pipeline_config c = Inr ()" "pl_inv c p" "pl_state p = TRACKING"
  shows "step_ok c TRACKING (tracking_without_detection c tk f w h p)"
proof -
  have u: "in_unit (decay_conf c (last_tracking_conf p))"
    using decay_conf_in_unit assms(1,2) by (simp add: pl_inv_def)
  have r: "tracking_result b w h (decay_conf c (last_tracking_conf p)) = Inr res \<Longrightarrow>
      tr_state res = TRACKING \<and> result_ok res" for b res
    using tracking_result_ok u by blast
  show ?thesis using assms u
    by (auto simp: tracking_without_detection_def step_ok_def pl_inv_def on_trk_eq ebind_def lose_track_def
        check_pipeline_config_Inr split: sum.splits option.splits bool.splits prod.splits dest!: r)
qed

lemma tracking_step:
  "check_pipeline_config c = Inr () \<Longrightarrow> pl_inv c p \<Longrightarrow> pl_state p = TRACKING \<Longrightarrow>
   step_ok c TRACKING (update_tracking c tk f w h d p)"
  by (cases d) (simp_all add: update_tracking_def with_detection_step without_detection_step)

lemma detect_best_cases:
  obtains (raised) e where "detect_best c det f i w h p = (Inl e, p)"
  | (silent) "\<not> should_detect c i" "detect_best c det f i w h p = (Inr None, p)"
  | (found) best where "detect_best c det f i w h p = (Inr best, p\<lparr> last_detection := best,
      last_detection_frame := (if best = None then None else Some i) \<rparr>)" "should_detect c i"
proof (cases "should_detect c i")
  case False
  then show thesis by (intro silent) (simp_all add: detect_best_def)
next
  case True
  show thesis
  proof (cases "rbind (det f i) (\<lambda>ds. pick_best_box ds w h (desired_cx c) (desired_cy c))")
    case (Inl e)
    then show thesis using True by (intro raised[of e]) (simp add: detect_best_def)
  next
    case (Inr best)
    then show thesis using True by (intro found[of best]) (simp_all add: detect_best_def)
  qed
qed

lemma pl_inv_last_detection:
  "pl_inv c p \<Longrightarrow> pl_inv c (p\<lparr> last_detection := best,
     last_detection_frame := (if best = None then None else Some i) \<rparr>)"
  by (simp add: pl_inv_def)

lemma dispatch_step:
  assumes "check_pipeline_config c = Inr ()" "pl_inv c p"
  shows "step_ok c (pl_state p) ((case pl_state p of
          NO_TARGET \<Rightarrow> update_no_target detected p
        | TARGET_DETECTED \<Rightarrow> update_target_detected c tk frame frame_id img_w img_h detected
                                (should_detect c frame_id) p
        | TRACKING \<Rightarrow> update_tracking c tk frame img_w img_h detected p
        | SEARCHING \<Rightarrow> update_searching c tk detected p))"
proof (cases "pl_state p")
  case NO_TARGET
  then show ?thesis using no_target_step[OF assms] by simp
next
  case TARGET_DETECTED
  then show ?thesis using target_detected_step[OF assms] by simp
next
  case TRACKING
  then show ?thesis using tracking_step[OF assms] by simp
next
  case SEARCHING
  then show ?thesis using searching_step[OF assms] by simp
qed

lemma frame_step:
  assumes "check_pipeline_config c = Inr ()" "pl_inv c p"
  shows "step_ok c (pl_state p) (process_frame c det tk shape f i p)"
proof -
  obtain h w where s: "shape f = (h, w)" by fastforce
  show ?thesis
  proof (cases rule: detect_best_cases[of c det f i w h p])
    case (raised e)
    then show ?thesis using assms(2) s
      by (simp add: process_frame_def step_ok_def vis_step.stay)
  next
    case silent
    then show ?thesis using dispatch_step[OF assms] s by (simp add: process_frame_def)
  next
    case (found best)
    define q where "q = p\<lparr> last_detection := best,
      last_detection_frame := (if best = None then None else Some i) \<rparr>"
    have "pl_inv c q" unfolding q_def by (rule pl_inv_last_detection[OF assms(2)])
    moreover have "pl_state q = pl_state p" by (simp add: q_def)
    ultimately show ?thesis using dispatch_step[OF assms(1), of q best tk f i w h] found(1) s
      by (simp add: process_frame_def flip: q_def)
  qed
qed

subsection \<open>Runs\<close>

fun pipeline_run ::
  "pipeline_config \<Rightarrow> ('f \<Rightarrow> int \<Rightarrow> pyexc + detection list) \<Rightarrow> ('f, 't) tracker_like \<Rightarrow> ('f \<Rightarrow> int \<times> int)
   \<Rightarrow> ('f \<times> int) list \<Rightarrow> 't pipeline \<Rightarrow> tracker_result list \<times> 't pipeline" where
  \<comment> \<open>the results until the frames end or one of them raises\<close>
  "pipeline_run c det tk shape [] p = ([], p)"
| "pipeline_run c det tk shape ((f, i) # fs) p =
     (case process_frame c det tk shape f i p of
        (Inl e, p') \<Rightarrow> ([], p')
      | (Inr r, p') \<Rightarrow> (let (rs, p'') = pipeline_run c det tk shape fs p' in (r # rs, p'')))"

lemma run_Cons:
  assumes "process_frame c det tk shape f i p = (Inr r, p')"
  shows "pipeline_run c det tk shape ((f, i) # fs) p =
    (r # fst (pipeline_run c det tk shape fs p'), snd (pipeline_run c det tk shape fs p'))"
  using assms by (simp add: split_beta)

lemma frame_step_Inr:
  assumes "check_pipeline_config c = Inr ()" "pl_inv c p"
    and "process_frame c det tk shape f i p = (Inr r, p')"
  shows "pl_inv c p'" "vis_step (pl_state p) (pl_state p')" "tr_state r = pl_state p'" "result_ok r"
  using frame_step[OF assms(1,2), of det tk shape f i] assms(3) by (simp_all add: step_ok_def)

lemma new_pipeline_inv: "pl_inv c (new_pipeline t)"
  by (simp add: pl_inv_def new_pipeline_def)

lemma run_results:
  assumes "check_pipeline_config c = Inr ()" "pl_inv c p"
  shows "list_all result_ok (fst (pipeline_run c det tk shape fs p)) \<and>
    successively vis_step (pl_state p # map tr_state (fst (pipeline_run c det tk shape fs p)))"
  using assms(2)
proof (induction fs arbitrary: p)
  case (Cons x fs)
  obtain f i where x: "x = (f, i)" by fastforce
  obtain o1 p' where o: "process_frame c det tk shape f i p = (o1, p')" by fastforce
  show ?case
  proof (cases o1)
    case (Inr r)
    with o have e: "process_frame c det tk shape f i p = (Inr r, p')" by simp
    note s = frame_step_Inr[OF assms(1) Cons.prems e]
    show ?thesis using Cons.IH[OF s(1)] s unfolding x run_Cons[OF e] by simp
  qed (simp add: x o)
qed simp

text \<open>
  C26: Whatever the detector and the tracker answer, the published states follow the automaton
  from \<open>NO_TARGET\<close>, a target is only ever published in state \<open>TRACKING\<close>, with a box and a
  confidence in the unit interval, and every other result is all zeros, as the backend's
  validator demands of it.
\<close>

theorem pipeline_follows_automaton:
  assumes "check_pipeline_config c = Inr ()" "pipeline_run c det tk shape fs (new_pipeline t) = (rs, p')"
  shows "list_all result_ok rs \<and> successively vis_step (NO_TARGET # map tr_state rs)"
  using run_results[OF assms(1) new_pipeline_inv, of det tk shape fs t] assms(2)
  by (simp add: new_pipeline_def)

text \<open>A tracker that always answers, for the witnesses; a frame is its detections.\<close>

definition steady_tracker :: "(detection list, unit) tracker_like" where
  "steady_tracker = \<lparr> tl_initialize = (\<lambda>f b. ereturn True),
     tl_update = (\<lambda>f. ereturn (True, Some \<lparr> px = Fin 0, py = Fin 0, pw = Fin 1, ph = Fin 1 \<rparr>)),
     tl_reset = (\<lambda>t. t) \<rparr>"

definition steady_run :: "detection list list \<Rightarrow> unit pipeline \<Rightarrow> tracker_result list \<times> unit pipeline" where
  "steady_run frames = pipeline_run default_config (\<lambda>ds i. Inr ds) steady_tracker (\<lambda>_. (480, 640))
     (zip frames [1..int (length frames)])"

theorem pipeline_follows_automaton_witness:
  "successively vis_step (NO_TARGET # map tr_state (fst (steady_run [[], [sample_detection 0], []] (new_pipeline ()))))"
  unfolding steady_run_def
  by (rule pipeline_follows_automaton[OF default_config_ok surjective_pairing, THEN conjunct2])

subsection \<open>The hold\<close>

definition spotted :: "pipeline_config \<Rightarrow> int \<Rightarrow> detection option \<Rightarrow> 't pipeline \<Rightarrow> bool" where
  \<comment> \<open>specification: a frame counts as a sighting if the detector gave a box or, in a frame in which it does not
    run, a hold is under way and the last box is not older than the detection interval\<close>
  "spotted c i detected p = (if pl_state p = TARGET_DETECTED \<and> detected = None \<and> \<not> should_detect c i
     then reuse_last_detection c i p \<noteq> None else detected \<noteq> None)"

fun sightings ::
  "pipeline_config \<Rightarrow> ('f \<Rightarrow> int \<Rightarrow> pyexc + detection list) \<Rightarrow> ('f, 't) tracker_like \<Rightarrow> ('f \<Rightarrow> int \<times> int)
   \<Rightarrow> ('f \<times> int) list \<Rightarrow> 't pipeline \<Rightarrow> bool list" where
  \<comment> \<open>specification: which frames of a run count as sightings\<close>
  "sightings c det tk shape [] p = []"
| "sightings c det tk shape ((f, i) # fs) p =
     (case detect_best c det f i (snd (shape f)) (fst (shape f)) p of
        (Inl e, q) \<Rightarrow> []
      | (Inr d, q) \<Rightarrow> spotted c i d q # sightings c det tk shape fs (snd (process_frame c det tk shape f i p)))"

definition trailing_misses :: "bool list \<Rightarrow> nat" where
  "trailing_misses bs = length (takeWhile Not (rev bs))"

definition held_target :: "nat \<Rightarrow> nat \<Rightarrow> bool list \<Rightarrow> bool" where
  \<comment> \<open>specification: the frames end with a sighting and after it at least \<open>n\<close> more, never with more than
    \<open>grace\<close> frames in a row without one\<close>
  "held_target grace n bs = (\<exists>before after. bs = before @ True # after \<and> n \<le> length (filter id after) \<and>
     (\<forall>ps. prefix ps after \<longrightarrow> trailing_misses ps \<le> grace))"

lemma trailing_misses_simps [simp]:
  "trailing_misses [] = 0" "trailing_misses (bs @ [True]) = 0" "trailing_misses (bs @ [False]) = Suc (trailing_misses bs)"
  by (simp_all add: trailing_misses_def)

definition holding :: "pipeline_config \<Rightarrow> bool list \<Rightarrow> 't pipeline \<Rightarrow> bool" where
  \<comment> \<open>the counters of a hold count the sightings since it began\<close>
  "holding c bs p = (pl_state p = TARGET_DETECTED \<longrightarrow> (\<exists>before after. bs = before @ True # after \<and>
     length (filter id after) = nat (hold_counter p) \<and> trailing_misses after = nat (miss_streak p) \<and>
     (\<forall>ps. prefix ps after \<longrightarrow> trailing_misses ps \<le> nat (grace_frames c))))"

lemma start_tracking_state:
  "pl_state (snd (start_tracking tk f w h d p)) = TRACKING"
  by (cases "fst (tl_initialize tk f (bbox d) (trk p))")
    (auto simp: start_tracking_def on_trk_eq ebind_def)

lemma holding_detected:
  fixes p :: "'t pipeline" and tk :: "('f, 't) tracker_like" and f :: 'f and i w hh :: int and d :: "detection option"
  assumes inv: "pl_inv c p" and st: "pl_state p = TARGET_DETECTED" and h: "holding c bs p"
  defines "p' \<equiv> snd (update_target_detected c tk f i w hh d (should_detect c i) p)"
    and "b \<equiv> spotted c i d p"
  shows "if pl_state p' = TRACKING then held_target (nat (grace_frames c)) (nat (max 1 (hold_n c))) (bs @ [b])
    else holding c (bs @ [b]) p'"
proof -
  let ?d = "if d = None \<and> \<not> should_detect c i then reuse_last_detection c i p else d"
  obtain before after where ba: "bs = before @ True # after" "length (filter id after) = nat (hold_counter p)"
    "trailing_misses after = nat (miss_streak p)" "\<And>ps. prefix ps after \<Longrightarrow> trailing_misses ps \<le> nat (grace_frames c)"
    using h st by (auto simp: holding_def)
  have n0: "0 \<le> hold_counter p" "0 \<le> miss_streak p" using inv by (simp_all add: pl_inv_def)
  have b: "b = (?d \<noteq> None)" using st by (simp add: b_def spotted_def)
  show ?thesis
  proof (cases ?d)
    case None
    have e: "p' = (if miss_streak p + 1 \<le> grace_frames c then p\<lparr> miss_streak := miss_streak p + 1 \<rparr>
        else transition_no_target tk (p\<lparr> miss_streak := miss_streak p + 1 \<rparr>))"
      using None by (simp add: p'_def update_target_detected_def Let_def)
    show ?thesis
    proof (cases "miss_streak p + 1 \<le> grace_frames c")
      case True
      have "\<exists>before after'. bs @ [b] = before @ True # after' \<and> length (filter id after') = nat (hold_counter p) \<and>
          trailing_misses after' = nat (miss_streak p + 1) \<and>
          (\<forall>ps. prefix ps after' \<longrightarrow> trailing_misses ps \<le> nat (grace_frames c))"
      proof (intro exI conjI allI impI)
        show "bs @ [b] = before @ True # (after @ [False])" using ba(1) None b by simp
        show "length (filter id (after @ [False])) = nat (hold_counter p)" using ba(2) by simp
        show "trailing_misses (after @ [False]) = nat (miss_streak p + 1)" using ba(3) n0 by (simp add: nat_add_distrib)
        show "trailing_misses ps \<le> nat (grace_frames c)" if "prefix ps (after @ [False])" for ps
          using that ba(3,4) n0 True by auto
      qed
      then show ?thesis using True st by (simp add: e holding_def)
    next
      case False
      then show ?thesis by (simp add: e holding_def transition_no_target_def)
    qed
  next
    case (Some dd)
    have pre: "prefix ps (after @ [True]) \<Longrightarrow> trailing_misses ps \<le> nat (grace_frames c)" for ps using ba(4) by auto
    let ?p1 = "p\<lparr> miss_streak := 0, detected_box := Some dd, hold_counter := hold_counter p + 1 \<rparr>"
    have e: "p' = (if hold_n c \<le> hold_counter p + 1 then snd (start_tracking tk f w hh dd ?p1) else ?p1)"
      using Some by (simp add: p'_def update_target_detected_def Let_def)
    have l: "length (filter id (after @ [True])) = nat (hold_counter p + 1)" using ba(2) n0 by (simp add: nat_add_distrib)
    have s: "bs @ [b] = before @ True # (after @ [True])" using ba(1) Some b by simp
    show ?thesis
    proof (cases "hold_n c \<le> hold_counter p + 1")
      case True
      then have "nat (max 1 (hold_n c)) \<le> length (filter id (after @ [True]))" unfolding l using n0 by simp
      then have "held_target (nat (grace_frames c)) (nat (max 1 (hold_n c))) (bs @ [b])"
        unfolding held_target_def s using pre by blast
      then show ?thesis using True by (simp add: e start_tracking_state)
    next
      case False
      then have "p' = ?p1" by (simp add: e)
      then have "holding c (bs @ [b]) p'" unfolding holding_def s using l pre
        by (intro impI exI[of _ before] exI[of _ "after @ [True]"]) simp
      then show ?thesis using False st by (simp add: e)
    qed
  qed
qed

lemma holding_frame:
  assumes "check_pipeline_config c = Inr ()" "pl_inv c p" "holding c bs p" "pl_state p \<noteq> TRACKING"
    and "process_frame c det tk shape f i p = (Inr r, p')"
  obtains d q where "detect_best c det f i (snd (shape f)) (fst (shape f)) p = (Inr d, q)"
    "if pl_state p' = TRACKING then held_target (nat (grace_frames c)) (nat (max 1 (hold_n c))) (bs @ [spotted c i d q])
     else holding c (bs @ [spotted c i d q]) p'"
proof -
  obtain h w where s: "shape f = (h, w)" by fastforce
  have main: "if pl_state p' = TRACKING then held_target (nat (grace_frames c)) (nat (max 1 (hold_n c))) (bs @ [spotted c i d q])
     else holding c (bs @ [spotted c i d q]) p'"
    if b: "detect_best c det f i w h p = (Inr d, q)" and q: "pl_inv c q" "pl_state q = pl_state p" "holding c bs q" for d q
  proof -
    have e: "p' = snd (case pl_state q of
          NO_TARGET \<Rightarrow> update_no_target d q
        | TARGET_DETECTED \<Rightarrow> update_target_detected c tk f i w h d (should_detect c i) q
        | TRACKING \<Rightarrow> update_tracking c tk f w h d q
        | SEARCHING \<Rightarrow> update_searching c tk d q)"
      using assms(5) s b by (simp add: process_frame_def ebind_def)
    have enter: "holding c (bs @ [True]) (enter_detected x q)" for x
      unfolding holding_def by (intro impI exI[of _ bs] exI[of _ "[]"]) (simp add: enter_detected_def)
    show ?thesis
    proof (cases "pl_state q")
      case NO_TARGET
      then show ?thesis using enter
        by (cases d) (simp_all add: e update_no_target_def spotted_def enter_detected_def holding_def)
    next
      case TARGET_DETECTED
      then show ?thesis using holding_detected[OF q(1) TARGET_DETECTED q(3), of tk f i w h d] by (simp add: e)
    next
      case TRACKING
      then show ?thesis using q(2) assms(4) by simp
    next
      case SEARCHING
      then show ?thesis using enter
        by (cases d) (simp_all add: e update_searching_def spotted_def enter_detected_def holding_def transition_no_target_def Let_def)
    qed
  qed
  show thesis
  proof (cases rule: detect_best_cases[of c det f i w h p])
    case (raised e)
    then show ?thesis using s assms(5) by (simp add: process_frame_def)
  next
    case silent
    then show ?thesis using that[of None p] main[of None p] assms(2,3) s by simp
  next
    case (found best)
    define q where "q = p\<lparr> last_detection := best,
      last_detection_frame := (if best = None then None else Some i) \<rparr>"
    have "pl_inv c q" unfolding q_def by (rule pl_inv_last_detection[OF assms(2)])
    moreover have "pl_state q = pl_state p" "holding c bs q" using assms(3) by (simp_all add: q_def holding_def)
    ultimately show ?thesis using that[of best q] main[of best q] found(1) s by (simp add: q_def)
  qed
qed

lemma run_held:
  assumes "check_pipeline_config c = Inr ()" "pl_inv c p" "holding c bs p" "pl_state p \<noteq> TRACKING"
    and "k < length (fst (pipeline_run c det tk shape fs p))" "tr_state (fst (pipeline_run c det tk shape fs p) ! k) = TRACKING"
    and "\<And>j. j < k \<Longrightarrow> tr_state (fst (pipeline_run c det tk shape fs p) ! j) \<noteq> TRACKING"
  shows "held_target (nat (grace_frames c)) (nat (max 1 (hold_n c))) (bs @ take (Suc k) (sightings c det tk shape fs p))"
  using assms(2-7)
proof (induction fs arbitrary: p k bs)
  case (Cons x fs)
  obtain f i where x: "x = (f, i)" by fastforce
  obtain o1 p' where o: "process_frame c det tk shape f i p = (o1, p')" by fastforce
  obtain r where "o1 = Inr r" using Cons.prems(4) o x by (cases o1) simp_all
  with o have e: "process_frame c det tk shape f i p = (Inr r, p')" by simp
  note s = frame_step_Inr[OF assms(1) Cons.prems(1) e]
  obtain d q where b: "detect_best c det f i (snd (shape f)) (fst (shape f)) p = (Inr d, q)"
    "if pl_state p' = TRACKING then held_target (nat (grace_frames c)) (nat (max 1 (hold_n c))) (bs @ [spotted c i d q])
     else holding c (bs @ [spotted c i d q]) p'"
    using holding_frame[OF assms(1) Cons.prems(1-3) e] by blast
  have g: "sightings c det tk shape (x # fs) p = spotted c i d q # sightings c det tk shape fs p'"
    by (simp add: x b(1) e)
  show ?case
  proof (cases k)
    case 0
    then have "pl_state p' = TRACKING" using Cons.prems(5) s(3) unfolding x run_Cons[OF e] by simp
    then show ?thesis using b(2) 0 unfolding g by simp
  next
    case (Suc j)
    have n: "pl_state p' \<noteq> TRACKING" using Cons.prems(6)[of 0] Suc s(3) unfolding x run_Cons[OF e] by simp
    have "held_target (nat (grace_frames c)) (nat (max 1 (hold_n c)))
        ((bs @ [spotted c i d q]) @ take (Suc j) (sightings c det tk shape fs p'))"
    proof (rule Cons.IH[OF s(1) _ n])
      show "holding c (bs @ [spotted c i d q]) p'" using b(2) n by simp
      show "j < length (fst (pipeline_run c det tk shape fs p'))"
        "tr_state (fst (pipeline_run c det tk shape fs p') ! j) = TRACKING"
        using Cons.prems(4,5) Suc unfolding x run_Cons[OF e] by simp_all
      show "tr_state (fst (pipeline_run c det tk shape fs p') ! m) \<noteq> TRACKING" if "m < j" for m
        using Cons.prems(6)[of "Suc m"] that Suc unfolding x run_Cons[OF e] by simp
    qed
    then show ?thesis using Suc unfolding g by simp
  qed
qed simp

text \<open>
  C39: A target has to be held. When a pipeline without a target first publishes one, the frames up
  to that one end with a sighting and, after it, at least \<open>detect_hold_n\<close> more (at least one), and at no point in
  between more than the grace frames passed in a row without one: a loss beyond the grace starts the
  count anew, and the frames missed within it do not count. A sighting is a frame for which the
  detector gave a box or, when the detector runs on every n-th frame only, one of the frames up to its
  next run, for which the last box is taken again; so with an interval above the hold a single
  detection can complete it.
\<close>

theorem tracking_needs_hold:
  assumes "check_pipeline_config c = Inr ()" "pl_inv c p" "pl_state p = NO_TARGET \<or> pl_state p = SEARCHING"
    and "fst (pipeline_run c det tk shape fs p) = untracked @ r # rs" "list_all (\<lambda>u. tr_state u \<noteq> TRACKING) untracked"
    and "tr_state r = TRACKING"
  shows "held_target (nat (grace_frames c)) (nat (max 1 (hold_n c)))
    (take (Suc (length untracked)) (sightings c det tk shape fs p))"
proof -
  have "holding c [] p" "pl_state p \<noteq> TRACKING" using assms(3) by (auto simp: holding_def)
  moreover have "tr_state ((untracked @ r # rs) ! j) \<noteq> TRACKING" if "j < length untracked" for j
    using assms(5) that by (simp add: nth_append list_all_length)
  ultimately show ?thesis using run_held[OF assms(1,2), of "[]" "length untracked" det tk shape fs] assms(3,4,6) by simp
qed

theorem tracking_needs_hold_witness:
  "held_target 1 1 (take 2 (sightings (default_config\<lparr> hold_n := 1 \<rparr>) (\<lambda>ds i. Inr ds) steady_tracker (\<lambda>_. (480, 640))
     [([sample_detection 0], 1), ([sample_detection 0], 2)] (new_pipeline ())))"
proof -
  let ?c = "default_config\<lparr> hold_n := 1 \<rparr>" and ?d = "sample_detection 0"
  obtain b where b: "normalize_bbox_xywh (Fin 0) (Fin 0) (Fin 0) (Fin 0) 640 480 = Inr b"
    using normalize_returns[of 640 480 "Fin 0" "Fin 0" "Fin 0" "Fin 0"] by (auto simp: dims_ok_def)
  have k: "\<exists>k. score_box 640 480 (Fin (1/2)) (Fin (1/2)) (bbox ?d) = Inr k"
    by (simp add: score_box_def to_norm_center_def fdiv_exc_def float_result_small sample_detection_def)
  have d: "should_detect ?c 1" "should_detect ?c 2" by (simp_all add: should_detect_def default_config_def)
  have ok: "check_pipeline_config ?c = Inr ()" using default_config_ok by (simp add: check_pipeline_config_Inr)
  have best: "pick_best_box [?d] 640 480 (desired_cx ?c) (desired_cy ?c) = Inr (Some ?d)"
    using k by (auto simp: pick_best_box_def default_config_def)
  let ?run = "pipeline_run ?c (\<lambda>ds i. Inr ds) steady_tracker (\<lambda>_. (480, 640))"
    and ?frame = "process_frame ?c (\<lambda>ds i. Inr ds) steady_tracker (\<lambda>_. (480, 640)) [?d]"
  define p1 where "p1 = enter_detected ?d ((new_pipeline ())\<lparr> last_detection := Some ?d, last_detection_frame := Some 1 \<rparr>)"
  have 1: "?frame 1 (new_pipeline ()) = (Inr (zero_result TARGET_DETECTED), p1)"
    using d(1) best by (simp add: process_frame_def detect_best_def p1_def)
      (simp add: new_pipeline_def update_no_target_def)
  obtain r p2 where 2: "?frame 2 p1 = (Inr r, p2)" "tr_state r = TRACKING"
    using d(2) best b
    by (simp add: process_frame_def detect_best_def p1_def enter_detected_def update_target_detected_def Let_def new_pipeline_def
        start_tracking_def on_trk_def steady_tracker_def tracking_result_def)
      (auto simp: sample_detection_def default_config_def)
  have "fst (?run [([?d], 1), ([?d], 2)] (new_pipeline ())) = [zero_result TARGET_DETECTED] @ r # []" "tr_state r = TRACKING"
    using 1 2 by simp_all
  moreover have "pl_state (new_pipeline ()) = NO_TARGET" by (simp add: new_pipeline_def)
  moreover have "list_all (\<lambda>u. tr_state u \<noteq> TRACKING) [zero_result TARGET_DETECTED]" by (simp add: zero_result_def)
  moreover have "nat (grace_frames ?c) = 1" "nat (max 1 (hold_n ?c)) = 1" "Suc (length [zero_result TARGET_DETECTED]) = 2"
    by (simp_all add: default_config_def)
  ultimately show ?thesis using tracking_needs_hold[OF ok new_pipeline_inv] by metis
qed

subsection \<open>Giving up\<close>

definition blind :: "'f \<Rightarrow> int \<Rightarrow> pyexc + detection list" where
  \<comment> \<open>a detector that sees nothing, as \<open>DummyDetector\<close> of \<open>detector.py\<close>\<close>
  "blind frame frame_id = Inr []"

lemma blind_detect:
  "\<exists>p'. detect_best c blind f i w h p = (Inr None, p') \<and> pl_state p' = pl_state p \<and>
     search_counter p' = search_counter p"
  by (cases "should_detect c i") (simp_all add: detect_best_def blind_def pick_best_box_def)

lemma blind_frame:
  assumes "pl_state p \<in> {SEARCHING, NO_TARGET}"
  shows "\<exists>r p'. process_frame c blind tk shape f i p = (Inr r, p') \<and>
    (if pl_state p = SEARCHING \<and> search_counter p + 1 < search_frames c
     then pl_state p' = SEARCHING \<and> search_counter p' = search_counter p + 1
     else pl_state p' = NO_TARGET)"
proof -
  obtain h w where s: "shape f = (h, w)" by fastforce
  obtain q where q: "detect_best c blind f i w h p = (Inr None, q)" "pl_state q = pl_state p"
    "search_counter q = search_counter p" using blind_detect[of c f i w h p] by blast
  have e: "process_frame c blind tk shape f i p = (case pl_state q of
          NO_TARGET \<Rightarrow> update_no_target None q
        | TARGET_DETECTED \<Rightarrow> update_target_detected c tk f i w h None (should_detect c i) q
        | TRACKING \<Rightarrow> update_tracking c tk f w h None q
        | SEARCHING \<Rightarrow> update_searching c tk None q)"
    using s q(1) by (simp add: process_frame_def)
  from assms consider "pl_state p = NO_TARGET" | "pl_state p = SEARCHING" by blast
  then show ?thesis
  proof cases
    case 1
    then show ?thesis unfolding e using q(2) by (simp add: update_no_target_def)
  next
    case 2
    then show ?thesis unfolding e using q(2,3)
      by (simp add: update_searching_def transition_no_target_def Let_def)
  qed
qed

text \<open>
  A lost target is given up in time. Once the pipeline searches, \<open>search_n\<close> frames (at
  least one) without a detection bring it to \<open>NO_TARGET\<close>, none of them raises, and it stays
  there as long as nothing is detected.
\<close>

theorem searching_gives_up:
  assumes "pl_state p = SEARCHING" "0 \<le> search_counter p" "max 1 (search_frames c) \<le> int (length fs)"
  shows "pl_state (snd (pipeline_run c blind tk shape fs p)) = NO_TARGET \<and>
    length (fst (pipeline_run c blind tk shape fs p)) = length fs"
proof -
  have "(pl_state p = SEARCHING \<and> max 1 (search_frames c) \<le> search_counter p + int (length fs) \<and> fs \<noteq> []) \<or>
      pl_state p = NO_TARGET \<Longrightarrow>
    pl_state (snd (pipeline_run c blind tk shape fs p)) = NO_TARGET \<and>
    length (fst (pipeline_run c blind tk shape fs p)) = length fs"
  proof (induction fs arbitrary: p)
    case (Cons x fs)
    obtain f i where x: "x = (f, i)" by fastforce
    have "pl_state p \<in> {SEARCHING, NO_TARGET}" using Cons.prems by auto
    from blind_frame[OF this, of c tk shape f i] obtain r p' where
      e: "process_frame c blind tk shape f i p = (Inr r, p')"
      and n: "if pl_state p = SEARCHING \<and> search_counter p + 1 < search_frames c
        then pl_state p' = SEARCHING \<and> search_counter p' = search_counter p + 1
        else pl_state p' = NO_TARGET" by blast
    have "(pl_state p' = SEARCHING \<and> max 1 (search_frames c) \<le> search_counter p' + int (length fs) \<and> fs \<noteq> []) \<or>
        pl_state p' = NO_TARGET"
      using n Cons.prems by (cases fs) (auto split: if_splits)
    from Cons.IH[OF this] show ?case unfolding x run_Cons[OF e] by simp
  qed simp
  moreover have "fs \<noteq> []" using assms(3) by auto
  ultimately show ?thesis using assms by simp
qed

theorem searching_gives_up_witness:
  "pl_state (snd (pipeline_run default_config blind steady_tracker (\<lambda>_. (480, 640))
     (zip (replicate 30 []) [1..30]) ((new_pipeline ())\<lparr> pl_state := SEARCHING \<rparr>))) = NO_TARGET"
  by (rule searching_gives_up[THEN conjunct1])
    (simp_all add: new_pipeline_def default_config_def)

subsection \<open>A confidence that is not a number\<close>

text \<open>
  A detection whose confidence is NaN is published as certain: \<open>clamp01\<close>, which is there
  to guard against such a value, turns it into 1.
\<close>

theorem nan_confidence_published_as_certain:
  assumes "pl_state p = TRACKING" "should_detect c i" "det f i = Inr [d]" "confidence d = NaN"
    and "process_frame c det tk shape f i p = (Inr r, p')"
  shows "tr_conf r = Fin 1 \<and> tr_state r = TRACKING"
proof -
  obtain h w where s: "shape f = (h, w)" by fastforce
  show ?thesis
  proof (cases rule: detect_best_cases[of c det f i w h p])
    case (raised e)
    then show ?thesis using assms(5) s by (simp add: process_frame_def)
  next
    case silent
    then show ?thesis using assms(2) by simp
  next
    case (found best)
    then have "best = Some d"
      using assms(2,3) by (auto simp: detect_best_def pick_best_box_def rbind_def split: sum.splits)
    then show ?thesis
      using assms found(1) s
      by (auto simp: process_frame_def update_tracking_def tracking_with_detection_def ebind_def
          tracking_result_def clamp01_NaN on_trk_eq split: sum.splits prod.splits if_splits)
  qed
qed

definition nan_detection :: detection where
  "nan_detection = (sample_detection 0)\<lparr> confidence := NaN \<rparr>"

theorem nan_confidence_published_as_certain_witness:
  "\<exists>r p'. process_frame default_config (\<lambda>ds i. Inr ds) steady_tracker (\<lambda>_. (480, 640)) [nan_detection] 1
     ((new_pipeline ())\<lparr> pl_state := TRACKING \<rparr>) = (Inr r, p') \<and> tr_conf r = Fin 1"
proof -
  let ?p = "(new_pipeline ())\<lparr> pl_state := TRACKING \<rparr>"
  obtain b where b: "normalize_bbox_xywh (Fin 0) (Fin 0) (Fin 0) (Fin 0) 640 480 = Inr b"
    using normalize_returns[of 640 480 "Fin 0" "Fin 0" "Fin 0" "Fin 0"] by (auto simp: dims_ok_def)
  have k: "\<exists>k. score_box 640 480 (Fin (1/2)) (Fin (1/2)) (bbox nan_detection) = Inr k"
    by (simp add: score_box_def to_norm_center_def fdiv_exc_def float_result_small nan_detection_def
        sample_detection_def)
  have d: "should_detect default_config 1" by (simp add: should_detect_def default_config_def)
  obtain r p' where "process_frame default_config (\<lambda>ds i. Inr ds) steady_tracker (\<lambda>_. (480, 640))
      [nan_detection] 1 ?p = (Inr r, p')"
    using b k d
    by (auto simp: process_frame_def detect_best_def pick_best_box_def default_config_def Let_def
        update_tracking_def tracking_with_detection_def new_pipeline_def on_trk_def steady_tracker_def
        tracking_result_def nan_detection_def sample_detection_def)
  with nan_confidence_published_as_certain[OF _ d _ _ this, of nan_detection] show ?thesis
    by (auto simp: nan_detection_def)
qed

subsection \<open>Interface: a tracker that knows whether it is active\<close>

text \<open>
  What the pipeline relies on when it caches \<open>_tracker_active\<close>: a reset tracker is inactive,
  \<open>initialize\<close> answers whether it is active now, an update that finds nothing leaves it
  inactive, one that finds the target leaves it active, and a call that raises changes
  nothing of this. \<open>active\<close> reads the tracker's own state.
\<close>

locale tracker_contract =
  fixes tk :: "('f, 't) tracker_like"
    and active :: "'t \<Rightarrow> bool"
  assumes reset_inactive: "\<not> active (tl_reset tk t)"
    and initialize_answer: "tl_initialize tk f b t = (Inr ok, t') \<Longrightarrow> active t' = ok"
    and initialize_raise: "tl_initialize tk f b t = (Inl e, t') \<Longrightarrow> active t' = active t"
    and update_lost: "tl_update tk f t = (Inr (False, x), t') \<Longrightarrow> \<not> active t'"
    and update_empty: "tl_update tk f t = (Inr (ok, None), t') \<Longrightarrow> \<not> active t'"
    and update_found: "active t \<Longrightarrow> tl_update tk f t = (Inr (True, Some b), t') \<Longrightarrow> active t'"
    and update_raise: "tl_update tk f t = (Inl e, t') \<Longrightarrow> active t' = active t"
begin

definition in_sync :: "'t pipeline \<Rightarrow> bool" where
  "in_sync p = (tracker_active p = active (trk p))"

lemma start_in_sync: "in_sync p \<Longrightarrow> in_sync (snd (start_tracking tk f w h d p))"
  by (cases "tl_initialize tk f (bbox d) (trk p)"; cases "fst (tl_initialize tk f (bbox d) (trk p))")
    (auto simp: start_tracking_def in_sync_def on_trk_def dest: initialize_answer initialize_raise)

lemma with_detection_in_sync: "in_sync p \<Longrightarrow> in_sync (snd (tracking_with_detection c tk f w h d p))"
  by (cases "tl_initialize tk f (bbox d) (trk p)"; cases "fst (tl_initialize tk f (bbox d) (trk p))")
    (auto simp: tracking_with_detection_def in_sync_def on_trk_def ebind_def
      dest: initialize_answer initialize_raise split: sum.splits)

lemma without_detection_in_sync: "in_sync p \<Longrightarrow> in_sync (snd (tracking_without_detection c tk f w h p))"
  by (cases "tl_update tk f (trk p)")
    (auto simp: tracking_without_detection_def in_sync_def on_trk_def ebind_def lose_track_def reset_inactive
      dest: update_found update_raise split: sum.splits option.splits bool.splits prod.splits)

lemma frame_in_sync:
  assumes "in_sync p"
  shows "in_sync (snd (process_frame c det tk shape f i p))"
proof -
  obtain h w where s: "shape f = (h, w)" by fastforce
  have run: "in_sync (snd ((case pl_state q of
          NO_TARGET \<Rightarrow> update_no_target d q
        | TARGET_DETECTED \<Rightarrow> update_target_detected c tk f i w h d (should_detect c i) q
        | TRACKING \<Rightarrow> update_tracking c tk f w h d q
        | SEARCHING \<Rightarrow> update_searching c tk d q)))" if q: "in_sync q" for q d
  proof (cases "pl_state q")
    case NO_TARGET
    then show ?thesis using q
      by (auto simp: update_no_target_def enter_detected_def in_sync_def split: option.splits)
  next
    case TARGET_DETECTED
    have "in_sync (snd (start_tracking tk f w h e (q\<lparr> miss_streak := 0, detected_box := b, hold_counter := n \<rparr>)))" for e b n
      using q by (intro start_in_sync) (simp add: in_sync_def)
    then show ?thesis using q TARGET_DETECTED
      by (auto simp: update_target_detected_def transition_no_target_def reset_inactive in_sync_def Let_def
          split: option.splits)
  next
    case TRACKING
    then show ?thesis using with_detection_in_sync[OF q] without_detection_in_sync[OF q]
      by (simp add: update_tracking_def split: option.splits)
  next
    case SEARCHING
    then show ?thesis using q
      by (auto simp: update_searching_def enter_detected_def transition_no_target_def reset_inactive
          in_sync_def Let_def split: option.splits)
  qed
  show ?thesis
  proof (cases rule: detect_best_cases[of c det f i w h p])
    case (raised e)
    then show ?thesis using s assms by (simp add: process_frame_def)
  next
    case silent
    then show ?thesis using run[OF assms] s by (simp add: process_frame_def)
  next
    case (found best)
    define q where "q = p\<lparr> last_detection := best,
      last_detection_frame := (if best = None then None else Some i) \<rparr>"
    have "in_sync q" using assms by (simp add: q_def in_sync_def)
    then show ?thesis using run[of q best] found(1) s by (simp add: process_frame_def flip: q_def)
  qed
qed

lemma run_in_sync: "in_sync p \<Longrightarrow> in_sync (snd (pipeline_run c det tk shape fs p))"
proof (induction fs arbitrary: p)
  case (Cons x fs)
  obtain f i where x: "x = (f, i)" by fastforce
  obtain o1 p' where o: "process_frame c det tk shape f i p = (o1, p')" by fastforce
  then have "in_sync p'" using frame_in_sync[OF Cons.prems, of c det shape f i] by simp
  then show ?case using Cons.IH x o by (cases o1) (simp_all add: split_beta)
qed simp

end

end
