(* ===== verification/Opencv_Tracker.thy ===== *)
theory Opencv_Tracker
  imports Vision_Pipeline
begin

section \<open>The OpenCV tracker adapter\<close>

text \<open>
  \<open>src/src/vision/opencv_tracker.py\<close>: the \<open>TrackerLike\<close> the pipeline runs with. OpenCV itself
  is an argument: its module as a tree of attributes, and a factory whose trackers are
  initialised with a frame and an integer box and updated with a frame. The theory proves that
  the box handed to OpenCV lies in the frame and interprets \<open>tracker_contract\<close> on the adapter.
\<close>

definition TRACKER_CHOICES :: "string list" where
  "TRACKER_CHOICES = [''none'', ''kcf'', ''csrt'']"

datatype module_obj = ModuleObj (is_callable: bool) (attrs: "(string \<times> module_obj) list")

fun resolve_path :: "module_obj \<Rightarrow> string list \<Rightarrow> module_obj option" where
  "resolve_path m [] = Some m"
| "resolve_path m (a # path) =
     (case map_of (attrs m) a of None \<Rightarrow> None | Some m' \<Rightarrow> resolve_path m' path)"

definition factory_candidates :: "string \<Rightarrow> string list" where
  "factory_candidates tracker_type =
     (if tracker_type = ''kcf'' then [''TrackerKCF_create'', ''legacy.TrackerKCF_create'']
      else [''TrackerCSRT_create'', ''legacy.TrackerCSRT_create''])"

fun first_callable :: "module_obj \<Rightarrow> string list \<Rightarrow> string option" where
  "first_callable m [] = None"
| "first_callable m (p # ps) =
     (case resolve_path m (split_char (CHR ''.'') p) of
        Some f \<Rightarrow> if is_callable f then Some p else first_callable m ps
      | None \<Rightarrow> first_callable m ps)"

definition resolve_tracker_factory :: "module_obj \<Rightarrow> string \<Rightarrow> string option" where
  \<comment> \<open>the attribute path of the factory\<close>
  "resolve_tracker_factory m tracker_type = first_callable m (factory_candidates tracker_type)"

text \<open>The factory's trackers: \<open>'c\<close> is the state of one.\<close>

record ('f, 'c) cv_factory =
  cv_create :: "pyexc + 'c"
  cv_init :: "'f \<Rightarrow> int \<times> int \<times> int \<times> int \<Rightarrow> 'c \<Rightarrow> pyexc + bool \<times> 'c"
  cv_update :: "'f \<Rightarrow> 'c \<Rightarrow> pyexc + (bool \<times> pixel_bbox) \<times> 'c"

record ('f, 'c) cv_tracker =
  tracker_type :: string
  factory :: "('f, 'c) cv_factory option"
  inner :: "'c option"       \<comment> \<open>\<open>_tracker\<close>\<close>

definition new_cv_tracker ::
  "module_obj option \<Rightarrow> (string \<Rightarrow> ('f, 'c) cv_factory) \<Rightarrow> string \<Rightarrow> pyexc + ('f, 'c) cv_tracker" where
  \<comment> \<open>the module is \<open>None\<close> when \<open>import cv2\<close> fails\<close>
  "new_cv_tracker cv2 factories type0 =
     (let ty = lower (strip type0) in
      if ty \<notin> set TRACKER_CHOICES then Inl (ValueError (Msg ''unsupported tracker type''))
      else if ty = ''none'' then Inr \<lparr> tracker_type = ty, factory = None, inner = None \<rparr>
      else case cv2 of
          None \<Rightarrow> Inl (RuntimeError (Msg ''tracker mode requires OpenCV''))
        | Some m \<Rightarrow> (case resolve_tracker_factory m ty of
              None \<Rightarrow> Inl (RuntimeError (Msg ''tracker is unavailable in this OpenCV build''))
            | Some path \<Rightarrow> Inr \<lparr> tracker_type = ty, factory = Some (factories path), inner = None \<rparr>))"

definition to_cv_bbox :: "pixel_bbox \<Rightarrow> int list option \<Rightarrow> pyexc + (int \<times> int \<times> int \<times> int) option" where
  \<comment> \<open>the shape is \<open>None\<close> for an object without one or with one that is not a tuple\<close>
  "to_cv_bbox b shape =
     (case shape of
        Some (img_h # img_w # _) \<Rightarrow>
          (if img_w \<le> 0 \<or> img_h \<le> 0 then Inr None
           else rbind (round_exc (px b)) (\<lambda>x0. rbind (round_exc (py b)) (\<lambda>y0.
                rbind (round_exc (pw b)) (\<lambda>w0. rbind (round_exc (ph b)) (\<lambda>h0.
                if w0 \<le> 0 \<or> h0 \<le> 0 then Inr None
                else (let x = max 0 (min x0 (img_w - 1)); y = max 0 (min y0 (img_h - 1));
                          w = min w0 (img_w - x); h = min h0 (img_h - y)
                      in if w \<le> 0 \<or> h \<le> 0 then Inr None else Inr (Some (x, y, w, h))))))))
      | _ \<Rightarrow> Inr None)"

definition cv_initialize ::
  "('f \<Rightarrow> int list option) \<Rightarrow> 'f \<Rightarrow> pixel_bbox \<Rightarrow> (pyexc, ('f, 'c) cv_tracker, bool) eff" where
  "cv_initialize shape frame b t =
     (if tracker_type t = ''none'' then (Inr False, t\<lparr> inner := None \<rparr>)
      else case factory t of
        None \<Rightarrow> (Inr False, t)
      | Some fac \<Rightarrow>
          (case to_cv_bbox b (shape frame) of
             Inl e \<Rightarrow> (Inl e, t)
           | Inr None \<Rightarrow> (Inr False, t\<lparr> inner := None \<rparr>)
           | Inr (Some r) \<Rightarrow>
               (case rbind (cv_create fac) (cv_init fac frame r) of
                  Inl e \<Rightarrow> (Inl e, t)
                | Inr (ok, tr) \<Rightarrow> if \<not> ok then (Inr False, t\<lparr> inner := None \<rparr>)
                                 else (Inr True, t\<lparr> inner := Some tr \<rparr>))))"

definition cv_step ::
  "'f \<Rightarrow> (pyexc, ('f, 'c) cv_tracker, bool \<times> pixel_bbox option) eff" where
  \<comment> \<open>\<open>OpenCvTracker.update\<close>\<close>
  "cv_step frame t =
     (case (inner t, factory t) of
        (Some tr, Some fac) \<Rightarrow>
          (case cv_update fac frame tr of
             Inl e \<Rightarrow> (Inl e, t)
           | Inr ((ok, b), tr') \<Rightarrow>
               if \<not> ok then (Inr (False, None), t\<lparr> inner := None \<rparr>)
               else if fle (pw b) (Fin 0) \<or> fle (ph b) (Fin 0)
               then (Inr (False, None), t\<lparr> inner := None \<rparr>)
               else (Inr (True, Some b), t\<lparr> inner := Some tr' \<rparr>))
      | _ \<Rightarrow> (Inr (False, None), t))"

definition cv_reset :: "('f, 'c) cv_tracker \<Rightarrow> ('f, 'c) cv_tracker" where
  "cv_reset t = t\<lparr> inner := None \<rparr>"

definition cv_active :: "('f, 'c) cv_tracker \<Rightarrow> bool" where
  \<comment> \<open>a tracker without a factory never has an inner tracker\<close>
  "cv_active t = (inner t \<noteq> None \<and> factory t \<noteq> None)"

definition cv_tracker_like :: "('f \<Rightarrow> int list option) \<Rightarrow> ('f, ('f, 'c) cv_tracker) tracker_like" where
  "cv_tracker_like shape = \<lparr> tl_initialize = cv_initialize shape, tl_update = cv_step, tl_reset = cv_reset \<rparr>"

subsection \<open>The adapter keeps the contract\<close>

interpretation cvt: tracker_contract "cv_tracker_like shape" cv_active for shape
proof unfold_locales
  fix t t' f b ok e x
  show "\<not> cv_active (tl_reset (cv_tracker_like shape) t)"
    by (simp add: cv_tracker_like_def cv_reset_def cv_active_def)
  show "tl_initialize (cv_tracker_like shape) f b t = (Inr ok, t') \<Longrightarrow> cv_active t' = ok"
    by (auto simp: cv_tracker_like_def cv_initialize_def cv_active_def
        split: if_splits option.splits sum.splits prod.splits)
  show "tl_initialize (cv_tracker_like shape) f b t = (Inl e, t') \<Longrightarrow> cv_active t' = cv_active t"
    by (auto simp: cv_tracker_like_def cv_initialize_def
        split: if_splits option.splits sum.splits prod.splits)
  show "tl_update (cv_tracker_like shape) f t = (Inr (False, x), t') \<Longrightarrow> \<not> cv_active t'"
    by (auto simp: cv_tracker_like_def cv_step_def cv_active_def
        split: if_splits option.splits sum.splits prod.splits)
  show "tl_update (cv_tracker_like shape) f t = (Inr (ok, None), t') \<Longrightarrow> \<not> cv_active t'"
    by (auto simp: cv_tracker_like_def cv_step_def cv_active_def
        split: if_splits option.splits sum.splits prod.splits)
  show "cv_active t \<Longrightarrow> tl_update (cv_tracker_like shape) f t = (Inr (True, Some b), t') \<Longrightarrow> cv_active t'"
    by (auto simp: cv_tracker_like_def cv_step_def cv_active_def
        split: if_splits option.splits sum.splits prod.splits)
  show "tl_update (cv_tracker_like shape) f t = (Inl e, t') \<Longrightarrow> cv_active t' = cv_active t"
    by (auto simp: cv_tracker_like_def cv_step_def cv_active_def
        split: if_splits option.splits sum.splits prod.splits)
qed

text \<open>
  The pipeline's cached flag is right. After any frames, whatever OpenCV answers or raises,
  \<open>_tracker_active\<close> holds exactly when the adapter has a live OpenCV tracker, so the pipeline
  never asks a dead tracker for a target and never forgets a live one.
\<close>

theorem pipeline_tracker_in_sync:
  assumes "new_cv_tracker cv2 factories ty = Inr t"
    and "pipeline_run c det (cv_tracker_like shape) dims fs (new_pipeline t) = (rs, p)"
  shows "tracker_active p = cv_active (trk p)"
proof -
  have "inner t = None" using assms(1)
    by (auto simp: new_cv_tracker_def Let_def split: if_splits option.splits)
  then have "cvt.in_sync (new_pipeline t)" by (simp add: cvt.in_sync_def new_pipeline_def cv_active_def)
  from cvt.run_in_sync[OF this, of c det shape dims fs] assms(2) show ?thesis by (simp add: cvt.in_sync_def)
qed

definition sample_cv :: "(detection list, unit) cv_factory" where
  "sample_cv = \<lparr> cv_create = Inr (), cv_init = (\<lambda>f r c. Inr (True, c)),
     cv_update = (\<lambda>f c. Inr ((True, \<lparr> px = Fin 0, py = Fin 0, pw = Fin 1, ph = Fin 1 \<rparr>), c)) \<rparr>"

theorem pipeline_tracker_in_sync_witness:
  "\<exists>t. new_cv_tracker (Some (ModuleObj False [(''TrackerKCF_create'', ModuleObj True [])])) (\<lambda>_. sample_cv)
       '' KCF '' = Inr t \<and>
     (let p = snd (pipeline_run default_config (\<lambda>ds i. Inr ds) (cv_tracker_like (\<lambda>_. Some [480, 640]))
        (\<lambda>_. (480, 640)) [([sample_detection 0], 1), ([], 2)] (new_pipeline t))
      in tracker_active p = cv_active (trk p))"
proof -
  have s: "strip '' KCF '' = ''KCF''" "lower ''KCF'' = ''kcf''" by code_simp+
  have r: "resolve_tracker_factory (ModuleObj False [(''TrackerKCF_create'', ModuleObj True [])]) ''kcf''
      = Some ''TrackerKCF_create''"
    by (simp add: resolve_tracker_factory_def factory_candidates_def)
  obtain t where t: "new_cv_tracker (Some (ModuleObj False [(''TrackerKCF_create'', ModuleObj True [])]))
      (\<lambda>_. sample_cv) '' KCF '' = Inr t"
    by (simp add: new_cv_tracker_def s r TRACKER_CHOICES_def)
  from pipeline_tracker_in_sync[OF t surjective_pairing] t show ?thesis unfolding Let_def by blast
qed

text \<open>
  The box given to OpenCV is never empty and lies inside the frame, whatever box the
  detector produced; the conversion raises exactly on coordinates that are not finite.
\<close>

theorem to_cv_bbox_inside:
  "case to_cv_bbox b shape of
     Inr (Some (x, y, w, h)) \<Rightarrow> (\<exists>img_h img_w rest. shape = Some (img_h # img_w # rest) \<and>
        0 \<le> x \<and> 0 \<le> y \<and> 1 \<le> w \<and> 1 \<le> h \<and> x + w \<le> img_w \<and> y + h \<le> img_h)
   | Inr None \<Rightarrow> True
   | Inl e \<Rightarrow> \<not> list_all isfinite [px b, py b, pw b, ph b]"
proof -
  have fin: "isfinite v = (\<exists>i. round_exc v = Inr i)" for v
    by (cases v) (auto simp: round_exc_def)
  show ?thesis
  proof (cases "to_cv_bbox b shape")
    case (Inl e)
    then show ?thesis
      by (auto simp: to_cv_bbox_def fin rbind_Inl_iff Let_def split: option.splits list.splits if_splits)
  next
    case (Inr r)
    then show ?thesis
      by (cases r) (auto simp: to_cv_bbox_def Let_def split: option.splits list.splits if_splits)
  qed
qed

end
