(* ===== verification/Patterns.thy ===== *)
theory Patterns
  imports Vision_Pipeline
begin

section \<open>Synthetic targets\<close>

text \<open>
  \<open>src/src/vision/patterns.py\<close>: the scripted targets of the pattern mode. \<open>math.sin\<close>, whose
  last bit depends on the C library, is the argument \<open>msin\<close>; \<open>two_pi\<close> is \<open>2.0 * math.pi\<close>.
\<close>

definition PATTERN_CHOICES :: "string list" where
  "PATTERN_CHOICES = [''none'', ''sweep'', ''lose'', ''reacquire'']"

definition new_pattern :: "string \<Rightarrow> pyexc + string" where
  "new_pattern mode = rbind (guard_raise (mode \<in> set PATTERN_CHOICES)
     (ValueError (Msg ''unsupported pattern''))) (\<lambda>_. Inr mode)"

definition two_pi :: pyfloat where
  "two_pi = f64 (2 * rnd pi)"

definition sweep_bbox :: "(pyfloat \<Rightarrow> pyfloat) \<Rightarrow> int \<Rightarrow> norm_bbox" where
  "sweep_bbox msin frame_id =
     (let idx = (max 1 frame_id - 1) mod 120;
          phase = f64 (of_int idx / 119);
          x = fadd (f64 (15/100)) (fmul (f64 (70/100)) phase);
          y = fadd (Fin (1/2)) (fmul (f64 (18/100)) (msin (fmul two_pi phase)))
      in \<lparr> cx = clamp01 x, cy = clamp01 y, nw = f64 (24/100), nh = f64 (3/10) \<rparr>)"

definition pattern_target :: "(pyfloat \<Rightarrow> pyfloat) \<Rightarrow> vis_state \<Rightarrow> int \<Rightarrow> pyfloat \<Rightarrow> tracker_result" where
  \<comment> \<open>\<open>_tracking\<close> and \<open>_detected\<close>\<close>
  "pattern_target msin st frame_id conf =
     \<lparr> tr_state = st, tr_bbox = sweep_bbox msin frame_id, tr_conf = clamp01 conf, tr_track_id = 1 \<rparr>"

definition pattern_lose :: "(pyfloat \<Rightarrow> pyfloat) \<Rightarrow> int \<Rightarrow> tracker_result" where
  "pattern_lose msin frame_id =
     (let idx = (max 1 frame_id - 1) mod 160 in
      if idx < 70 then pattern_target msin TRACKING frame_id (f64 (9/10))
      else if idx < 100 then zero_result SEARCHING
      else if idx < 130 then zero_result NO_TARGET
      else pattern_target msin TARGET_DETECTED frame_id (f64 (7/10)))"

definition pattern_reacquire :: "(pyfloat \<Rightarrow> pyfloat) \<Rightarrow> int \<Rightarrow> tracker_result" where
  "pattern_reacquire msin frame_id =
     (let idx = (max 1 frame_id - 1) mod 180 in
      if idx < 50 then zero_result NO_TARGET
      else if idx < 80 then pattern_target msin TARGET_DETECTED frame_id (f64 (65/100))
      else if idx < 140 then pattern_target msin TRACKING frame_id (f64 (93/100))
      else if idx < 165 then zero_result SEARCHING
      else pattern_target msin TARGET_DETECTED frame_id (f64 (72/100)))"

definition pattern_update :: "(pyfloat \<Rightarrow> pyfloat) \<Rightarrow> string \<Rightarrow> int \<Rightarrow> tracker_result" where
  "pattern_update msin mode frame_id =
     (if mode = ''sweep'' then pattern_target msin TRACKING frame_id (f64 (92/100))
      else if mode = ''lose'' then pattern_lose msin frame_id
      else if mode = ''reacquire'' then pattern_reacquire msin frame_id
      else zero_result NO_TARGET)"

subsection \<open>Every pattern is a valid target\<close>

lemma f64_in_unit: "0 \<le> x \<Longrightarrow> x \<le> 1 \<Longrightarrow> in_unit (f64 x)"
  using f64_mono[of x 1] f64_nonneg[of x] by (simp add: in_unit_def)

lemma sweep_bbox_ok: "bbox_ok (sweep_bbox msin i)"
  by (simp add: sweep_bbox_def bbox_ok_def Let_def f64_in_unit)

lemma pattern_valid: "bbox_ok (tr_bbox (pattern_update msin mode i)) \<and> in_unit (tr_conf (pattern_update msin mode i))"
  by (simp add: pattern_update_def pattern_lose_def pattern_reacquire_def pattern_target_def
      sweep_bbox_ok zero_result_def Let_def)

end
