(* ===== verification/Senders.thy ===== *)
theory Senders
  imports Json_Text Reason_Log
begin

section \<open>The vision process's two senders\<close>

text \<open>
  \<open>VisUdpSender\<close> of \<open>src/src/vision/udp_vis_sender.py\<close> and \<open>FramePusher\<close> of
  \<open>frame_pusher.py\<close>, with \<open>clamp_quality\<close> of \<open>jpeg.py\<close>. Whether the socket takes a datagram,
  what the HTTP client answers and what the JPEG encoder returns are arguments; each call
  moves exactly one counter, and nothing above the size limit ever leaves the process.
\<close>

subsection \<open>VIS over UDP\<close>

record vis_sender =
  vs_max_bytes :: int
  vs_log_interval :: pyfloat
  vs_sent_ok :: nat
  vs_sent_fail :: nat
  vs_dropped :: nat
  vs_log :: vlog
  vs_wire :: "nat list list" \<comment> \<open>the datagrams the socket took\<close>

definition new_vis_sender :: "int \<Rightarrow> pyfloat \<Rightarrow> vis_sender" where
  "new_vis_sender max_payload_bytes log_interval_s =
     \<lparr> vs_max_bytes = max 1 max_payload_bytes, vs_log_interval = fmax (Fin 0) log_interval_s,
       vs_sent_ok = 0, vs_sent_fail = 0, vs_dropped = 0, vs_log = Map.empty, vs_wire = [] \<rparr>"

definition vis_send ::
  "(real \<Rightarrow> string) \<Rightarrow> bool \<Rightarrow> pyfloat \<Rightarrow> pydict \<Rightarrow> vis_sender \<Rightarrow> vis_sender" where
  \<comment> \<open>\<open>accepts\<close>: \<open>sendto\<close> does not raise \<open>OSError\<close>\<close>
  "vis_send fr accepts clk vis_dict s =
     (let payload = json_bytes fr vis_dict;
          log = (\<lambda>key s. s\<lparr> vs_log := snd (log_rate_limited (vs_log_interval s) (vs_log s) (key, clk)) \<rparr>)
      in if vs_max_bytes s < int (length payload)
         then log ''oversize'' (s\<lparr> vs_dropped := vs_dropped s + 1 \<rparr>)
         else if accepts
         then s\<lparr> vs_wire := vs_wire s @ [payload], vs_sent_ok := vs_sent_ok s + 1 \<rparr>
         else log ''send'' (s\<lparr> vs_sent_fail := vs_sent_fail s + 1 \<rparr>))"

subsection \<open>Frames over HTTP\<close>

definition clamp_quality :: "int \<Rightarrow> int" where
  "clamp_quality q = max 1 (min 100 q)"

record frame_pusher =
  fp_url :: string
  fp_max_bytes :: int
  fp_retry_step :: int
  fp_log_interval :: pyfloat
  fp_token :: "string option"
  fp_ok :: nat
  fp_fail :: nat
  fp_dropped :: nat
  fp_log :: vlog
  fp_posts :: "(nat list \<times> (string \<times> string) list) list" \<comment> \<open>bodies and headers posted\<close>

fun rstrip_slash :: "string \<Rightarrow> string" where
  "rstrip_slash s = rev (dropWhile (\<lambda>c. c = CHR ''/'') (rev s))"

definition join_url :: "string \<Rightarrow> string \<Rightarrow> string" where
  "join_url base endpoint =
     (let e0 = strip endpoint;
          e1 = (if e0 = [] then ''/api/frame'' else e0);
          e2 = (if startswith e1 ''/'' then e1 else CHR ''/'' # e1)
      in rstrip_slash (strip base) @ e2)"

definition new_frame_pusher ::
  "string \<Rightarrow> string \<Rightarrow> int \<Rightarrow> int \<Rightarrow> pyfloat \<Rightarrow> string option \<Rightarrow> frame_pusher" where
  "new_frame_pusher backend_http endpoint max_jpeg retry_step log_interval api_token =
     \<lparr> fp_url = join_url backend_http endpoint, fp_max_bytes = max 1 max_jpeg,
       fp_retry_step = max 1 retry_step, fp_log_interval = fmax (Fin 0) log_interval,
       fp_token = (case api_token of None \<Rightarrow> None | Some t \<Rightarrow> if t = [] then None else Some (strip t)),
       fp_ok = 0, fp_fail = 0, fp_dropped = 0, fp_log = Map.empty, fp_posts = [] \<rparr>"

definition fp_logged :: "pyfloat \<Rightarrow> string \<Rightarrow> frame_pusher \<Rightarrow> frame_pusher" where
  "fp_logged clk key p =
     p\<lparr> fp_log := snd (log_rate_limited (fp_log_interval p) (fp_log p) (key, clk)) \<rparr>"

definition push_headers :: "frame_pusher \<Rightarrow> (string \<times> string) list" where
  "push_headers p = [(''Content-Type'', ''image/jpeg'')] @
     (case fp_token p of None \<Rightarrow> []
      | Some t \<Rightarrow> if t = [] then [] else [(''Authorization'', ''Bearer '' @ t)])"

definition push :: "int option \<Rightarrow> pyfloat \<Rightarrow> nat list \<Rightarrow> frame_pusher \<Rightarrow> bool \<times> frame_pusher" where
  \<comment> \<open>the answer's status code, or \<open>None\<close> when the client raises\<close>
  "push status clk jpeg p =
     (if fp_max_bytes p < int (length jpeg)
      then (False, fp_logged clk ''oversize'' (p\<lparr> fp_dropped := fp_dropped p + 1 \<rparr>))
      else (let p1 = p\<lparr> fp_posts := fp_posts p @ [(jpeg, push_headers p)] \<rparr> in
        case status of
          None \<Rightarrow> (False, fp_logged clk ''push_exception'' (p1\<lparr> fp_fail := fp_fail p1 + 1 \<rparr>))
        | Some code \<Rightarrow>
            if 200 \<le> code \<and> code < 300 then (True, p1\<lparr> fp_ok := fp_ok p1 + 1 \<rparr>)
            else (False, fp_logged clk ''push_non_2xx'' (p1\<lparr> fp_fail := fp_fail p1 + 1 \<rparr>))))"

definition encode_jpeg :: "('f \<Rightarrow> int \<Rightarrow> bool \<times> nat list option) \<Rightarrow> 'f \<Rightarrow> int \<Rightarrow> pyexc + nat list" where
  \<comment> \<open>\<open>cv2.imencode\<close> gives a success flag and a buffer, which has \<open>tobytes\<close> or not\<close>
  "encode_jpeg imencode frame quality =
     (case imencode frame (clamp_quality quality) of
        (ok, buffer) \<Rightarrow>
          rbind (guard_raise ok (RuntimeError (Msg ''OpenCV failed to encode JPEG frame''))) (\<lambda>_.
          case buffer of
            None \<Rightarrow> Inl (RuntimeError (Msg ''OpenCV returned an unexpected JPEG buffer type''))
          | Some bytes \<Rightarrow> Inr bytes))"

definition push_frame ::
  "('f \<Rightarrow> int \<Rightarrow> nat list option) \<Rightarrow> int option \<Rightarrow> pyfloat \<Rightarrow> 'f \<Rightarrow> int \<Rightarrow> frame_pusher \<Rightarrow> bool \<times> frame_pusher" where
  \<comment> \<open>\<open>encode\<close> answers \<open>None\<close> when it raises\<close>
  "push_frame encode status clk frame quality p =
     (let primary = clamp_quality quality in
      case encode frame primary of
        None \<Rightarrow> (False, fp_logged clk ''encode_primary'' (p\<lparr> fp_fail := fp_fail p + 1 \<rparr>))
      | Some encoded \<Rightarrow>
          if int (length encoded) \<le> fp_max_bytes p then push status clk encoded p
          else (let retry = clamp_quality (primary - fp_retry_step p) in
            if retry = primary then push status clk encoded p
            else case encode frame retry of
                None \<Rightarrow> (False, fp_logged clk ''encode_retry'' (p\<lparr> fp_fail := fp_fail p + 1 \<rparr>))
              | Some again \<Rightarrow> push status clk again p))"

subsection \<open>Accounting\<close>

lemma clamp_quality_range [simp]: "1 \<le> clamp_quality q" "clamp_quality q \<le> 100"
  by (simp_all add: clamp_quality_def)

lemma clamp_quality_id: "1 \<le> q \<Longrightarrow> q \<le> 100 \<Longrightarrow> clamp_quality q = q"
  by (simp add: clamp_quality_def)

definition vis_sender_ok :: "nat \<Rightarrow> vis_sender \<Rightarrow> bool" where
  "vis_sender_ok n s = (n = vs_sent_ok s + vs_sent_fail s + vs_dropped s \<and>
     length (vs_wire s) = vs_sent_ok s \<and> list_all (\<lambda>d. int (length d) \<le> vs_max_bytes s) (vs_wire s))"

lemma vis_send_ok: "vis_sender_ok n s \<Longrightarrow> vis_sender_ok (Suc n) (vis_send fr a clk d s)"
  by (simp add: vis_sender_ok_def vis_send_def Let_def)

lemma vis_send_max [simp]: "vs_max_bytes (vis_send fr a clk d s) = vs_max_bytes s"
  by (simp add: vis_send_def Let_def)

lemma vis_run_ok:
  "vis_sender_ok n s \<Longrightarrow> vis_sender_ok (n + length es) (run (\<lambda>s (a, t, d). vis_send fr a t d s) s es) \<and>
     vs_max_bytes (run (\<lambda>s (a, t, d). vis_send fr a t d s) s es) = vs_max_bytes s"
proof (induction es arbitrary: n s)
  case (Cons e es)
  obtain a t d where e: "e = (a, t, d)" by (cases e)
  from Cons.IH[OF vis_send_ok[OF Cons.prems, of fr a t d]] show ?case by (simp add: e)
qed simp

definition pusher_ok :: "nat \<Rightarrow> frame_pusher \<Rightarrow> bool" where
  "pusher_ok n p = (n = fp_ok p + fp_fail p + fp_dropped p \<and>
     list_all (\<lambda>(body, _). int (length body) \<le> fp_max_bytes p) (fp_posts p))"

lemma push_ok: "pusher_ok n p \<Longrightarrow> pusher_ok (Suc n) (snd (push st clk j p))"
  by (auto simp: pusher_ok_def push_def fp_logged_def Let_def split: option.splits)

lemma push_max [simp]: "fp_max_bytes (snd (push st clk j p)) = fp_max_bytes p"
  by (auto simp: push_def fp_logged_def Let_def split: option.splits)

lemma push_frame_ok: "pusher_ok n p \<Longrightarrow> pusher_ok (Suc n) (snd (push_frame enc st clk f q p))"
  using push_ok[of n p]
  by (auto simp: push_frame_def Let_def split: option.splits) (auto simp: pusher_ok_def fp_logged_def)

lemma push_frame_max: "fp_max_bytes (snd (push_frame enc st clk f q p)) = fp_max_bytes p"
  by (auto simp: push_frame_def fp_logged_def Let_def split: option.splits)

lemma push_run_ok:
  "pusher_ok n p \<Longrightarrow> pusher_ok (n + length es) (run (\<lambda>p (st, t, f, q). snd (push_frame enc st t f q p)) p es) \<and>
     fp_max_bytes (run (\<lambda>p (st, t, f, q). snd (push_frame enc st t f q p)) p es) = fp_max_bytes p"
proof (induction es arbitrary: n p)
  case (Cons e es)
  obtain st t f q where e: "e = (st, t, f, q)" by (cases e)
  from Cons.IH[OF push_frame_ok[OF Cons.prems, of enc st t f q]] show ?case by (simp add: e push_frame_max)
qed simp

text \<open>
  Both senders account for every call and respect the receiver's limit: after any calls,
  the calls are those that succeeded, failed or were dropped as oversize, no datagram or
  request body above the configured maximum (at least one byte) was ever handed to the
  network, and a datagram is on the wire exactly for each success.
\<close>

theorem senders_account:
  "let s = run (\<lambda>s (a, t, d). vis_send fr a t d s) (new_vis_sender max_vis i) vis_calls;
       p = run (\<lambda>p (st, t, f, q). snd (push_frame encode st t f q p))
             (new_frame_pusher base endpoint max_jpeg step j token) push_calls
   in length vis_calls = vs_sent_ok s + vs_sent_fail s + vs_dropped s \<and>
      length (vs_wire s) = vs_sent_ok s \<and>
      list_all (\<lambda>d. int (length d) \<le> max 1 max_vis) (vs_wire s) \<and>
      length push_calls = fp_ok p + fp_fail p + fp_dropped p \<and>
      list_all (\<lambda>(body, _). int (length body) \<le> max 1 max_jpeg) (fp_posts p)"
proof -
  define s where "s = run (\<lambda>s (a, t, d). vis_send fr a t d s) (new_vis_sender max_vis i) vis_calls"
  define p where "p = run (\<lambda>p (st, t, f, q). snd (push_frame encode st t f q p))
             (new_frame_pusher base endpoint max_jpeg step j token) push_calls"
  have "vis_sender_ok 0 (new_vis_sender max_vis i)" by (simp add: vis_sender_ok_def new_vis_sender_def)
  note 1 = vis_run_ok[OF this, of vis_calls fr, folded s_def]
  have "pusher_ok 0 (new_frame_pusher base endpoint max_jpeg step j token)"
    by (simp add: pusher_ok_def new_frame_pusher_def)
  note 2 = push_run_ok[OF this, of push_calls encode, folded p_def]
  have vm: "vs_max_bytes s = max 1 max_vis" and pm: "fp_max_bytes p = max 1 max_jpeg"
    using 1 2 by (simp_all add: new_vis_sender_def new_frame_pusher_def)
  have "length vis_calls = vs_sent_ok s + vs_sent_fail s + vs_dropped s" "length (vs_wire s) = vs_sent_ok s"
    "list_all (\<lambda>d. int (length d) \<le> vs_max_bytes s) (vs_wire s)"
    "length push_calls = fp_ok p + fp_fail p + fp_dropped p"
    "list_all (\<lambda>(body, _). int (length body) \<le> fp_max_bytes p) (fp_posts p)"
    using 1 2 unfolding vis_sender_ok_def pusher_ok_def add_0 by blast+
  then show ?thesis unfolding Let_def vm pm s_def[symmetric] p_def[symmetric] by blast
qed

end
