(* ===== verification/Camera.thy ===== *)
theory Camera
  imports Py_Value Drone_Prelude Json_Text
begin

section \<open>The camera source\<close>

text \<open>
  \<open>src/src/vision/camera.py\<close>: parsing of the source specification and the reconnecting reader.
  What OpenCV's capture delivers on each read, and whether a reopen succeeds, are the fields
  of \<open>cam_env\<close>; a frame that was delivered is a value of \<open>'f\<close>.
\<close>

record source_spec =
  kind :: string
  spec_value :: string

definition spec_label :: "source_spec \<Rightarrow> string" where
  "spec_label s = kind s @ '':'' @ spec_value s"

definition parse_source :: "string \<Rightarrow> pyexc + source_spec" where
  "parse_source source =
     (let raw = strip source in
      if raw = [] then Inl (ValueError (Msg ''source must not be empty''))
      else if CHR '':'' \<notin> set raw then Inr \<lparr> kind = ''file'', spec_value = raw \<rparr>
      else (let (k0, v0) = partition_char (CHR '':'') raw;
                k = lower (strip k0); v = strip v0
            in if k = ''webcam'' then
                 (if v = [] then Inl (ValueError (Msg ''webcam source must include an integer index''))
                  else rbind (py_int (PStr v)) (\<lambda>n. Inr \<lparr> kind = ''webcam'', spec_value = dec_int n \<rparr>))
               else if k = ''file'' then
                 (if v = [] then Inl (ValueError (Msg ''file source must include a path''))
                  else Inr \<lparr> kind = ''file'', spec_value = v \<rparr>)
               else Inl (ValueError (Msg ''unsupported source kind''))))"

record cam_config =
  reconnect_initial_s :: pyfloat
  reconnect_max_s :: pyfloat
  black_frames_after_open :: int

definition cam_config_of :: "pyfloat \<Rightarrow> pyfloat \<Rightarrow> int \<Rightarrow> cam_config" where
  \<comment> \<open>the clamping of the constructor\<close>
  "cam_config_of initial maximum black =
     (let i = fmax (Fin 0) initial
      in \<lparr> reconnect_initial_s = i, reconnect_max_s = fmax i maximum, black_frames_after_open = max 0 black \<rparr>)"

datatype capture = LiveCapture | DeadCapture

record camera =
  cam_spec :: source_spec
  cam_capture :: capture
  grace_remaining :: int
  next_backoff_s :: pyfloat
  slept :: "pyfloat list"    \<comment> \<open>the arguments \<open>sleep\<close> was called with\<close>

definition new_camera :: "cam_config \<Rightarrow> source_spec \<Rightarrow> bool \<Rightarrow> pyexc + camera" where
  \<comment> \<open>the flag says that the capture opens\<close>
  "new_camera c spec opens =
     (if \<not> opens then Inl (RuntimeError (Msg ''unable to open source''))
      else Inr \<lparr> cam_spec = spec, cam_capture = LiveCapture,
        grace_remaining = black_frames_after_open c, next_backoff_s = reconnect_initial_s c, slept = [] \<rparr>)"

definition is_live :: "camera \<Rightarrow> bool" where
  "is_live cam = (kind (cam_spec cam) = ''webcam'')"

record 'f cam_env =
  first_read :: "'f option"   \<comment> \<open>a frame, or \<open>None\<close> for \<open>False\<close> or an empty frame\<close>
  reopens :: bool
  second_read :: "'f option"  \<comment> \<open>the read after a reopen\<close>

definition capture_read :: "capture \<Rightarrow> 'f option \<Rightarrow> 'f option" where
  \<comment> \<open>the dead sentinel never delivers\<close>
  "capture_read cap answer = (case cap of LiveCapture \<Rightarrow> answer | DeadCapture \<Rightarrow> None)"

definition next_backoff :: "cam_config \<Rightarrow> pyfloat \<Rightarrow> pyfloat" where
  "next_backoff c backoff = fmin (reconnect_max_s c) (fmax (fmul backoff (Fin 2)) (f64 (5 / 100)))"

definition attempt_one_reconnect :: "cam_config \<Rightarrow> 'f cam_env \<Rightarrow> camera \<Rightarrow> 'f option \<times> camera" where
  "attempt_one_reconnect c env cam0 =
     (let backoff = next_backoff_s cam0;
          cam1 = cam0\<lparr> cam_capture := DeadCapture \<rparr>;
          cam = (if flt (Fin 0) backoff then cam1\<lparr> slept := slept cam1 @ [backoff] \<rparr> else cam1)
      in if \<not> reopens env then (None, cam\<lparr> next_backoff_s := next_backoff c backoff \<rparr>)
         else (let cam2 = cam\<lparr> cam_capture := LiveCapture, grace_remaining := black_frames_after_open c \<rparr>
               in case second_read env of
                    Some f \<Rightarrow> (Some f, cam2\<lparr> next_backoff_s := reconnect_initial_s c \<rparr>)
                  | None \<Rightarrow> (None, cam2\<lparr>
                      grace_remaining := (if 0 < grace_remaining cam2 then grace_remaining cam2 - 1
                                          else grace_remaining cam2),
                      next_backoff_s := next_backoff c backoff \<rparr>)))"

definition camera_read :: "cam_config \<Rightarrow> 'f cam_env \<Rightarrow> camera \<Rightarrow> 'f option \<times> camera" where
  "camera_read c env cam =
     (case capture_read (cam_capture cam) (first_read env) of
        Some f \<Rightarrow> (Some f, cam\<lparr> grace_remaining := black_frames_after_open c,
                    next_backoff_s := reconnect_initial_s c \<rparr>)
      | None \<Rightarrow>
          if kind (cam_spec cam) \<noteq> ''webcam'' then (None, cam)
          else if 0 < grace_remaining cam
          then (None, cam\<lparr> grace_remaining := grace_remaining cam - 1 \<rparr>)
          else attempt_one_reconnect c env cam)"

subsection \<open>Bounded waiting\<close>

definition cam_config_ok :: "cam_config \<Rightarrow> bool" where
  "cam_config_ok c = (fle (Fin 0) (reconnect_initial_s c) \<and>
     fle (reconnect_initial_s c) (reconnect_max_s c) \<and> 0 \<le> black_frames_after_open c)"

definition camera_ok :: "cam_config \<Rightarrow> camera \<Rightarrow> bool" where
  "camera_ok c cam = (fle (Fin 0) (next_backoff_s cam) \<and> fle (next_backoff_s cam) (reconnect_max_s c) \<and>
     0 \<le> grace_remaining cam \<and> grace_remaining cam \<le> black_frames_after_open c \<and>
     list_all (\<lambda>w. flt (Fin 0) w \<and> fle w (reconnect_max_s c)) (slept cam) \<and>
     (cam_capture cam = DeadCapture \<longrightarrow> grace_remaining cam = 0 \<and> is_live cam))"

lemma cam_config_of_ok: "maximum \<noteq> NaN \<Longrightarrow> cam_config_ok (cam_config_of initial maximum black)"
proof -
  assume m: "maximum \<noteq> NaN"
  have "fle (Fin 0) (fmax (Fin 0) initial)" "fmax (Fin 0) initial \<noteq> NaN" by simp_all
  then have "fle (fmax (Fin 0) initial) (fmax (fmax (Fin 0) initial) maximum)"
    using m by (cases "flt (fmax (Fin 0) initial) maximum") (auto simp: fmax_def flt_imp_fle fle_refl)
  then show ?thesis by (simp add: cam_config_ok_def cam_config_of_def Let_def)
qed

lemma next_backoff_ok:
  assumes "cam_config_ok c" "fle (Fin 0) b"
  shows "fle (Fin 0) (next_backoff c b)" "fle (next_backoff c b) (reconnect_max_s c)"
proof -
  have "fle (Fin 0) (f64 (5/100))" by (rule f64_nonneg) simp
  moreover have "fle (Fin 0) (fmul b (Fin 2))" using assms(2) by (cases b) (auto simp: f64_nonneg)
  ultimately have p: "fle (Fin 0) (fmax (fmul b (Fin 2)) (f64 (5/100)))" by (simp add: fmax_def)
  have m: "fle (Fin 0) (reconnect_max_s c)" using assms(1) fle_trans by (auto simp: cam_config_ok_def)
  from p m show "fle (Fin 0) (next_backoff c b)" by (simp add: next_backoff_def fmin_def)
  from p m show "fle (next_backoff c b) (reconnect_max_s c)"
    using fle_not_NaN[OF p] fle_not_NaN[OF m]
    by (cases "flt (fmax (fmul b (Fin 2)) (f64 (5/100))) (reconnect_max_s c)")
      (auto simp: next_backoff_def fmin_def flt_imp_fle fle_refl)
qed

lemma camera_read_ok:
  assumes "cam_config_ok c" "camera_ok c cam"
  shows "camera_ok c (snd (camera_read c env cam)) \<and> cam_spec (snd (camera_read c env cam)) = cam_spec cam"
proof -
  have i: "fle (Fin 0) (reconnect_initial_s c)" "fle (reconnect_initial_s c) (reconnect_max_s c)"
    "0 \<le> black_frames_after_open c" using assms(1) by (simp_all add: cam_config_ok_def)
  have b: "fle (Fin 0) (next_backoff c (next_backoff_s cam))"
    "fle (next_backoff c (next_backoff_s cam)) (reconnect_max_s c)"
    using next_backoff_ok[OF assms(1)] assms(2) by (simp_all add: camera_ok_def)
  show ?thesis
    using assms(2) i b
    by (cases "cam_capture cam"; cases "first_read env"; cases "second_read env")
      (auto simp: camera_read_def capture_read_def attempt_one_reconnect_def camera_ok_def is_live_def Let_def)
qed

text \<open>
  The reader never waits longer than \<open>reconnect_max_s\<close> in one call, sleeps only for a
  positive time and only for live sources, tolerates at most the configured number of empty
  frames before it reopens, and after a failed reopen keeps the dead sentinel, never a
  released capture, until a reopen succeeds.
\<close>

theorem camera_waits_bounded:
  assumes "maximum \<noteq> NaN" "new_camera (cam_config_of initial maximum black) spec True = Inr cam0"
  shows "let c = cam_config_of initial maximum black;
       cam = run (\<lambda>cam env. snd (camera_read c env cam)) cam0 envs
     in list_all (\<lambda>w. flt (Fin 0) w \<and> fle w (reconnect_max_s c)) (slept cam) \<and>
        0 \<le> grace_remaining cam \<and> grace_remaining cam \<le> black_frames_after_open c \<and>
        fle (next_backoff_s cam) (reconnect_max_s c) \<and>
        (cam_capture cam = DeadCapture \<longrightarrow> kind spec = ''webcam'' \<and> grace_remaining cam = 0)"
proof -
  let ?c = "cam_config_of initial maximum black"
  have c: "cam_config_ok ?c" by (rule cam_config_of_ok[OF assms(1)])
  have "camera_ok ?c cam0 \<and> cam_spec cam0 = spec"
    using assms(2) c by (auto simp: new_camera_def camera_ok_def cam_config_ok_def)
  then have "camera_ok ?c (run (\<lambda>cam env. snd (camera_read ?c env cam)) cam0 envs) \<and>
      cam_spec (run (\<lambda>cam env. snd (camera_read ?c env cam)) cam0 envs) = spec"
    by (rule run_invariant[rotated]) (use camera_read_ok[OF c] in auto)
  then show ?thesis by (auto simp: camera_ok_def is_live_def Let_def)
qed

theorem camera_waits_bounded_witness:
  "\<exists>cam0. new_camera (cam_config_of (Fin (1/4)) (Fin 5) 0) \<lparr> kind = ''webcam'', spec_value = ''0'' \<rparr> True = Inr cam0 \<and>
     list_all (\<lambda>w. fle w (Fin 5)) (slept (run (\<lambda>cam env. snd (camera_read (cam_config_of (Fin (1/4)) (Fin 5) 0)
        (env :: nat cam_env) cam)) cam0 [\<lparr> first_read = None, reopens = False, second_read = None \<rparr>]))"
proof -
  obtain cam0 where n: "new_camera (cam_config_of (Fin (1/4)) (Fin 5) 0)
      \<lparr> kind = ''webcam'', spec_value = ''0'' \<rparr> True = Inr cam0" by (simp add: new_camera_def)
  have m: "reconnect_max_s (cam_config_of (Fin (1/4)) (Fin 5) 0) = Fin 5"
    by (simp add: cam_config_of_def fmax_def)
  from camera_waits_bounded[OF _ n, of "[\<lparr> first_read = None :: nat option, reopens = False, second_read = None \<rparr>]"]
  show ?thesis using n m by (auto simp: Let_def list_all_iff)
qed

subsection \<open>Specifications\<close>

text \<open>
  How some specifications are read.\<close>

lemma parse_source_label:
  "parse_source ''webcam:0'' = Inr \<lparr> kind = ''webcam'', spec_value = ''0'' \<rparr> \<and>
   parse_source '' WebCam : 02 '' = Inr \<lparr> kind = ''webcam'', spec_value = ''2'' \<rparr> \<and>
   parse_source ''clip.mp4'' = Inr \<lparr> kind = ''file'', spec_value = ''clip.mp4'' \<rparr> \<and>
   returns (parse_source ''file: '') = False \<and> returns (parse_source ''rtsp://x'') = False"
  by code_simp

end
