(* ===== verification/Protocol_Constants.thy ===== *)
theory Protocol_Constants
  imports Py_Float
begin

section \<open>Constants both programs share\<close>

text \<open>\<open>src/src/backend/protocol_constants.py\<close>: ports, size limits and the command timeout.\<close>

definition UDP_TEL_PORT :: int where "UDP_TEL_PORT = 9001"
definition UDP_VIS_PORT :: int where "UDP_VIS_PORT = 9003"
definition TCP_CMD_PORT :: int where "TCP_CMD_PORT = 9002"
definition UDP_MAX_TEL_BYTES :: int where "UDP_MAX_TEL_BYTES = 1024"
definition UDP_MAX_VIS_BYTES :: int where "UDP_MAX_VIS_BYTES = 512"
definition TCP_MAX_FRAME_BYTES :: int where "TCP_MAX_FRAME_BYTES = 4096"
definition CMD_TIMEOUT_S :: pyfloat where "CMD_TIMEOUT_S = Fin (1 / 2)"
definition VIDEO_MAX_JPEG_BYTES_DEFAULT :: int where "VIDEO_MAX_JPEG_BYTES_DEFAULT = 200000"

lemmas protocol_constants = UDP_TEL_PORT_def UDP_VIS_PORT_def TCP_CMD_PORT_def UDP_MAX_TEL_BYTES_def
  UDP_MAX_VIS_BYTES_def TCP_MAX_FRAME_BYTES_def CMD_TIMEOUT_S_def VIDEO_MAX_JPEG_BYTES_DEFAULT_def

end
