(* ===== verification/Py_Text.thy ===== *)
theory Py_Text
  imports Py_Value
begin

section \<open>Numbers and flags read from text\<close>

text \<open>
  What \<open>float(text)\<close> and \<open>int(text)\<close> accept, for the settings that both programs read from
  environment variables and the command line. \<open>None\<close> is the \<open>ValueError\<close>. An environment is
  a map from variable names to their text; the text is a list of code points below 256.
\<close>

definition is_digit :: "char \<Rightarrow> bool" where
  "is_digit c = (digit_val c \<noteq> None)"

fun drop_underscores :: "bool \<Rightarrow> string \<Rightarrow> string option" where
  \<comment> \<open>an underscore is allowed between two digits; the flag says the previous character is one\<close>
  "drop_underscores prev [] = Some []"
| "drop_underscores prev (c # cs) =
     (if c = CHR ''_''
      then (if prev \<and> (case cs of [] \<Rightarrow> False | d # _ \<Rightarrow> is_digit d) then drop_underscores False cs else None)
      else map_option (Cons c) (drop_underscores (is_digit c) cs))"

definition split_sign :: "string \<Rightarrow> bool \<times> string" where
  \<comment> \<open>whether there is a minus sign, and what follows the sign\<close>
  "split_sign s = (case s of
      [] \<Rightarrow> (False, [])
    | c # cs \<Rightarrow> if c = CHR ''-'' then (True, cs) else if c = CHR ''+'' then (False, cs) else (False, s))"

definition digits_val :: "string \<Rightarrow> nat" where
  "digits_val ds = foldl (\<lambda>acc c. 10 * acc + (case digit_val c of None \<Rightarrow> 0 | Some d \<Rightarrow> d)) 0 ds"

definition scale10 :: "nat \<Rightarrow> int \<Rightarrow> real" where
  "scale10 n e = (if 0 \<le> e then of_nat n * 10 ^ nat e else of_nat n / 10 ^ nat (- e))"

definition parse_exponent :: "string \<Rightarrow> int option" where
  \<comment> \<open>the rest of a number after its digits: nothing, or an exponent\<close>
  "parse_exponent s = (case s of
      [] \<Rightarrow> Some 0
    | c # cs \<Rightarrow>
        if c \<noteq> CHR ''e'' \<and> c \<noteq> CHR ''E'' then None
        else (let (neg, ds) = split_sign cs
              in if ds = [] \<or> \<not> list_all is_digit ds then None
                 else Some (if neg then - int (digits_val ds) else int (digits_val ds))))"

definition parse_decimal :: "string \<Rightarrow> real option" where
  "parse_decimal s =
     (let ip = takeWhile is_digit s; r = dropWhile is_digit s;
          (fp, r') = (case r of
             c # cs \<Rightarrow> if c = CHR ''.'' then (takeWhile is_digit cs, dropWhile is_digit cs) else ([], r)
           | [] \<Rightarrow> ([], []))
      in if ip = [] \<and> fp = [] then None
         else map_option (\<lambda>e. scale10 (digits_val (ip @ fp)) (e - int (length fp))) (parse_exponent r'))"

definition parse_float :: "string \<Rightarrow> pyfloat option" where
  \<comment> \<open>\<open>float(text)\<close>\<close>
  "parse_float s =
     (case drop_underscores False (strip s) of
        None \<Rightarrow> None
      | Some t \<Rightarrow>
          (let (neg, u) = split_sign t; w = lower u
           in if w = ''inf'' \<or> w = ''infinity'' then Some (if neg then NInf else PInf)
              else if w = ''nan'' then Some NaN
              else map_option (\<lambda>x. f64 (if neg then - x else x)) (parse_decimal u)))"

definition float_of_text :: "string \<Rightarrow> pyexc + pyfloat" where
  "float_of_text s = (case parse_float s of Some f \<Rightarrow> Inr f
     | None \<Rightarrow> Inl (ValueError (Msg ''could not convert string to float'')))"

definition int_of_text :: "string \<Rightarrow> pyexc + int" where
  "int_of_text s = (case parse_int s of Some i \<Rightarrow> Inr i
     | None \<Rightarrow> Inl (ValueError (Msg ''invalid literal for int()'')))"

type_synonym environ = "string \<Rightarrow> string option"

text \<open>Some readings.\<close>

lemma parse_decimal_examples:
  "parse_decimal ''12.5'' = Some (25 / 2)" "parse_decimal ''.5'' = Some (1 / 2)"
  "parse_decimal ''2e3'' = Some 2000" "parse_decimal ''1e-1'' = Some (1 / 10)"
  "parse_decimal ''.'' = None" "parse_decimal ''1e'' = None" "parse_decimal ''1 2'' = None"
  by (simp_all add: parse_decimal_def parse_exponent_def split_sign_def digits_val_def scale10_def
      is_digit_def digit_val_def)

lemma parse_float_half: "parse_float '' 0.5 '' = Some (Fin (1 / 2))"
proof -
  have "drop_underscores False (strip '' 0.5 '') = Some ''0.5''" by code_simp
  moreover have "split_sign ''0.5'' = (False, ''0.5'')" by (simp add: split_sign_def)
  moreover have "lower ''0.5'' = ''0.5''" by code_simp
  moreover have "parse_decimal ''0.5'' = Some (1 / 2)"
    by (simp add: parse_decimal_def parse_exponent_def digits_val_def scale10_def is_digit_def digit_val_def)
  moreover have "f64 (1 / 2) = Fin (1 / 2)" by (rule f64_exact) simp_all
  ultimately show ?thesis by (simp add: parse_float_def)
qed

lemma parse_float_words:
  "parse_float ''nan'' = Some NaN" "parse_float ''-Infinity'' = Some NInf" "parse_float ''fast'' = None"
proof -
  have d: "drop_underscores False (strip ''nan'') = Some ''nan''"
    "drop_underscores False (strip ''-Infinity'') = Some ''-Infinity''"
    "drop_underscores False (strip ''fast'') = Some ''fast''" by code_simp+
  have l: "lower ''nan'' = ''nan''" "lower ''Infinity'' = ''infinity''" "lower ''fast'' = ''fast''" by code_simp+
  show "parse_float ''nan'' = Some NaN" by (simp add: parse_float_def d l split_sign_def)
  show "parse_float ''-Infinity'' = Some NInf" by (simp add: parse_float_def d l split_sign_def)
  have "parse_decimal ''fast'' = None" by (simp add: parse_decimal_def is_digit_def digit_val_def)
  then show "parse_float ''fast'' = None" by (simp add: parse_float_def d l split_sign_def)
qed

text \<open>What is read is a binary64 number, an infinity or NaN, never an unrounded real.\<close>

lemma parse_float_f64: "parse_float s = Some f \<Longrightarrow> is_f64 f"
  by (auto simp: parse_float_def Let_def split: option.splits if_splits prod.splits)

end
