(* ===== verification/App_Api.thy ===== *)
theory App_Api
  imports Py_Text Rate_Limit Cmd_Schema State_Views
begin

section \<open>Authentication, rate limits and intents\<close>

text \<open>
  The guards of \<open>src/src/backend/app.py\<close> in front of its routes, and the two routes that only
  touch the shared state. A request carries its headers by lower-case name and the address of
  its client; FastAPI's routing and pydantic's parsing of the intent body come before the
  handlers, so a handler's argument is the parsed model. A raised \<open>HTTPException\<close> is the
  response's status and detail; any other exception is a 500.
\<close>

subsection \<open>Tokens\<close>

definition HTTP_TOKEN_TCHARS :: string where
  "HTTP_TOKEN_TCHARS = ''abcdefghijklmnopqrstuvwxyz'' @ ''ABCDEFGHIJKLMNOPQRSTUVWXYZ'' @
     ''0123456789'' @ ''!#$%&'' @ [CHR 0x27] @ ''*+-.^_'' @ [CHR 0x60] @ ''|~''"

definition is_http_token :: "string \<Rightarrow> bool" where
  "is_http_token v = (v \<noteq> [] \<and> list_all (\<lambda>c. c \<in> set HTTP_TOKEN_TCHARS) v)"

definition read_env_token :: "environ \<Rightarrow> string \<Rightarrow> pyexc + string option" where
  "read_env_token env name =
     (case env name of
        None \<Rightarrow> Inr None
      | Some raw \<Rightarrow>
          (let stripped = strip raw in
           if stripped = [] then Inr None
           else if \<not> is_http_token stripped
           then Inl (ValueError (Msg ''contains characters that are not HTTP-token-safe''))
           else Inr (Some stripped)))"

definition compare_digest :: "string \<Rightarrow> string \<Rightarrow> pyexc + bool" where
  \<comment> \<open>\<open>hmac.compare_digest\<close> on two strings, which must be ASCII\<close>
  "compare_digest a b = (if is_ascii a \<and> is_ascii b then Inr (a = b) else Inl TypeError)"

record request =
  client_host :: "string option"
  headers :: "(string \<times> string) list"

definition header_get :: "request \<Rightarrow> string \<Rightarrow> string option" where
  "header_get r k = map_of (headers r) k"

definition require_api_token :: "string option \<Rightarrow> request \<Rightarrow> pyexc + unit" where
  "require_api_token api_token r =
     (case api_token of
        None \<Rightarrow> Inr ()
      | Some expected \<Rightarrow>
          (let authorization = (case header_get r ''authorization'' of None \<Rightarrow> '''' | Some v \<Rightarrow> v);
               (scheme, presented) = partition_char (CHR '' '') authorization
           in if lower scheme \<noteq> ''bearer'' \<or> presented = []
              then Inl (HTTPException 401 ''missing bearer token'')
              else rbind (compare_digest (strip presented) expected) (\<lambda>same.
                   guard_raise same (HTTPException 401 ''invalid bearer token''))))"

definition WS_BEARER_PREFIX :: string where
  "WS_BEARER_PREFIX = ''aot.bearer.''"

fun first_bearer :: "string \<Rightarrow> string list \<Rightarrow> pyexc + bool \<times> string option" where
  \<comment> \<open>the loop over the offered protocols\<close>
  "first_bearer expected [] = Inr (False, None)"
| "first_bearer expected (proto # ps) =
     (if startswith proto WS_BEARER_PREFIX
      then rbind (compare_digest (drop (length WS_BEARER_PREFIX) proto) expected) (\<lambda>same.
             if same then Inr (True, Some proto) else first_bearer expected ps)
      else first_bearer expected ps)"

definition select_ws_subprotocol :: "string option \<Rightarrow> string list \<Rightarrow> pyexc + bool \<times> string option" where
  "select_ws_subprotocol api_token offered =
     (case api_token of
        None \<Rightarrow> Inr (True, case offered of [] \<Rightarrow> None | p # _ \<Rightarrow> Some p)
      | Some expected \<Rightarrow> first_bearer expected offered)"

subsection \<open>Rate limits\<close>

definition client_ip :: "request \<Rightarrow> string" where
  "client_ip r = (case client_host r of Some h \<Rightarrow> h | None \<Rightarrow> ''unknown'')"

record limiter_config =
  lim_capacity :: pyfloat
  lim_refill :: pyfloat

definition rate_limited ::
  "string \<Rightarrow> limiter_config option \<Rightarrow> request \<Rightarrow> pyfloat \<times> pyfloat \<Rightarrow> (pyexc, ip_limiter, unit) eff" where
  "rate_limited detail limiter r clks buckets =
     (case limiter of
        None \<Rightarrow> (Inr (), buckets)
      | Some l \<Rightarrow>
          (case ip_allow (lim_capacity l) (lim_refill l) buckets (client_ip r) clks of
             (ok, buckets') \<Rightarrow> (guard_raise ok (HTTPException 429 detail), buckets')))"

definition rate_limit_frame where
  "rate_limit_frame = rate_limited ''frame rate limit exceeded''"

definition rate_limit_intent where
  "rate_limit_intent = rate_limited ''intent rate limit exceeded''"

subsection \<open>Intents\<close>

record intent_request =
  desired_mode :: int
  arm :: "bool option"
  setpoints :: "(string \<times> pyfloat) list option"

definition intent_payload :: "intent_request \<Rightarrow> pydict" where
  "intent_payload q =
     [(''desired_mode'', PInt (desired_mode q))]
     @ (case arm q of None \<Rightarrow> [] | Some a \<Rightarrow> [(''arm'', PBool a)])
     @ (case setpoints q of None \<Rightarrow> [] | Some sp \<Rightarrow> [(''setpoints'', PDict (map (apsnd PFloat) sp))])"

definition post_intent :: "intent_request \<Rightarrow> pyfloat \<Rightarrow> (pyexc, shared_state, pydict) eff" where
  "post_intent q now_s s =
     (if desired_mode q \<notin> set CMD_CONTROL_MODES
      then (Inl (HTTPException 422 ''desired_mode must be one of 0,1,2,3''), s)
      else (Inr [(''ok'', PBool True), (''intent'', PDict (intent_payload q))],
            update_intent (intent_payload q) now_s s))"

definition intent_route ::
  "string option \<Rightarrow> limiter_config option \<Rightarrow> request \<Rightarrow> pyfloat \<times> pyfloat \<Rightarrow> intent_request \<Rightarrow> pyfloat
   \<Rightarrow> (pyexc, ip_limiter \<times> shared_state, pydict) eff" where
  \<comment> \<open>the route with its two dependencies, in their order\<close>
  "intent_route token limiter r clks q now_s = (\<lambda>(buckets, s).
     case require_api_token token r of
       Inl e \<Rightarrow> (Inl e, (buckets, s))
     | Inr _ \<Rightarrow>
         (case rate_limit_intent limiter r clks buckets of
            (Inl e, buckets') \<Rightarrow> (Inl e, (buckets', s))
          | (Inr _, buckets') \<Rightarrow>
              (case post_intent q now_s s of (x, s') \<Rightarrow> (x, (buckets', s')))))"

subsection \<open>The guards\<close>

lemma tchars_ascii: "list_all (\<lambda>c. (of_char c :: nat) < 128) HTTP_TOKEN_TCHARS"
  by code_simp

lemma http_token_ascii: "is_http_token v \<Longrightarrow> is_ascii v"
  using tchars_ascii by (auto simp: is_http_token_def is_ascii_def list_all_iff)

lemma read_env_token_Inr: "read_env_token env name = Inr (Some t) \<Longrightarrow> is_http_token t \<and> is_ascii t"
  by (auto simp: read_env_token_def Let_def http_token_ascii split: option.splits if_splits)

definition bearer_of :: "request \<Rightarrow> string option" where
  \<comment> \<open>specification: the credential of a well-formed \<open>Bearer\<close> header\<close>
  "bearer_of r = (case header_get r ''authorization'' of
      None \<Rightarrow> None
    | Some a \<Rightarrow> (let (scheme, presented) = partition_char (CHR '' '') a
                in if lower scheme = ''bearer'' \<and> presented \<noteq> [] then Some (strip presented) else None))"

lemma require_api_token_cases:
  assumes "is_ascii t"
  shows "require_api_token (Some t) r =
    (case bearer_of r of
       None \<Rightarrow> Inl (HTTPException 401 ''missing bearer token'')
     | Some p \<Rightarrow> if \<not> is_ascii p then Inl TypeError
                 else if p = t then Inr () else Inl (HTTPException 401 ''invalid bearer token''))"
proof -
  have l: "lower '''' \<noteq> ''bearer''" by (simp add: lower_def)
  show ?thesis
    using assms l
    by (cases "header_get r ''authorization''")
      (auto simp: require_api_token_def bearer_of_def compare_digest_def Let_def split: prod.splits)
qed

lemma first_bearer_Inr:
  "first_bearer t ps = Inr (acc, echo) \<Longrightarrow>
   acc = (WS_BEARER_PREFIX @ t \<in> set ps) \<and> echo = (if acc then Some (WS_BEARER_PREFIX @ t) else None)"
proof (induction ps)
  case (Cons p ps)
  show ?case
  proof (cases "startswith p WS_BEARER_PREFIX")
    case True
    then obtain x where p: "p = WS_BEARER_PREFIX @ x" by (auto simp: startswith_iff)
    show ?thesis using Cons True unfolding p
      by (auto simp: compare_digest_def split: if_splits)
  next
    case False
    then have "p \<noteq> WS_BEARER_PREFIX @ t" by (auto simp: startswith_iff)
    then show ?thesis using Cons False by auto
  qed
qed auto

lemma first_bearer_returns:
  assumes "is_ascii t"
  shows "list_all is_ascii ps \<Longrightarrow> returns (first_bearer t ps)"
proof (induction ps)
  case (Cons p ps)
  then have "is_ascii (drop (length WS_BEARER_PREFIX) p)"
    by (auto simp: is_ascii_def list_all_iff dest: in_set_dropD)
  then show ?case using Cons assms by (simp add: compare_digest_def)
qed simp

definition presents :: "request \<Rightarrow> string \<Rightarrow> bool" where
  \<comment> \<open>the same without the algorithm: the header is the scheme, one space and the credential\<close>
  "presents r p = (\<exists>scheme rest. header_get r ''authorization'' = Some (scheme @ CHR '' '' # rest) \<and>
     CHR '' '' \<notin> set scheme \<and> lower scheme = ''bearer'' \<and> rest \<noteq> [] \<and> strip rest = p)"

lemma partition_char_cases:
  "partition_char c s = (a, b) \<Longrightarrow> c \<notin> set a \<and> (s = a @ c # b \<or> s = a \<and> b = [])"
  by (induction s arbitrary: a b) (auto split: if_splits prod.splits)

lemma bearer_of_presents: "bearer_of r = Some p \<longleftrightarrow> presents r p"
proof (cases "header_get r ''authorization''")
  case (Some h)
  obtain a b where ab: "partition_char (CHR '' '') h = (a, b)" by fastforce
  have u: "a' = a \<and> b' = b" if "h = a' @ CHR '' '' # b'" "CHR '' '' \<notin> set a'" for a' b'
    using partition_char_found[OF that(2)] ab that(1) by simp
  have "bearer_of r = (if lower a = ''bearer'' \<and> b \<noteq> [] then Some (strip b) else None)"
    by (simp add: bearer_of_def Some ab)
  moreover have "presents r p \<longleftrightarrow> lower a = ''bearer'' \<and> b \<noteq> [] \<and> strip b = p"
    using partition_char_cases[OF ab] u unfolding presents_def Some by auto
  ultimately show ?thesis by auto
qed (simp add: bearer_of_def presents_def)

text \<open>
  C24: Only the token opens the door. With a token from the environment, a REST request passes
  exactly if it presents the token as its bearer credential, is answered 401 if it presents
  another one or none, and ends in an uncaught \<open>TypeError\<close> exactly if it presents one with a
  character outside ASCII; a WebSocket upgrade that is accepted offered the token's protocol,
  which is the one echoed, and on ASCII offers it is accepted exactly then.
\<close>

theorem auth_decides:
  assumes "read_env_token env name = Inr (Some t)"
  shows "(require_api_token (Some t) r = Inr ()) = presents r t \<and>
    (require_api_token (Some t) r = Inl TypeError) = (\<exists>p. presents r p \<and> \<not> is_ascii p) \<and>
    (case require_api_token (Some t) r of Inl e \<Rightarrow> e = TypeError \<or> (\<exists>d. e = HTTPException 401 d) | Inr _ \<Rightarrow> True) \<and>
    (\<forall>echo. select_ws_subprotocol (Some t) offered = Inr (True, echo) \<longrightarrow>
       WS_BEARER_PREFIX @ t \<in> set offered \<and> echo = Some (WS_BEARER_PREFIX @ t)) \<and>
    (list_all is_ascii offered \<longrightarrow> select_ws_subprotocol (Some t) offered =
       Inr (if WS_BEARER_PREFIX @ t \<in> set offered then (True, Some (WS_BEARER_PREFIX @ t)) else (False, None)))"
proof -
  have t: "is_ascii t" using read_env_token_Inr[OF assms] by simp
  note rest = require_api_token_cases[OF t, of r]
  have ws: "WS_BEARER_PREFIX @ t \<in> set offered \<and> echo = Some (WS_BEARER_PREFIX @ t)"
    if "select_ws_subprotocol (Some t) offered = Inr (True, echo)" for echo
    using first_bearer_Inr[of t offered True echo] that by (simp add: select_ws_subprotocol_def)
  have all: "select_ws_subprotocol (Some t) offered =
      Inr (if WS_BEARER_PREFIX @ t \<in> set offered then (True, Some (WS_BEARER_PREFIX @ t)) else (False, None))"
    if o: "list_all is_ascii offered"
  proof -
    obtain ae where "first_bearer t offered = Inr ae"
      using first_bearer_returns[OF t o] by (auto simp only: returns_iff)
    then show ?thesis using first_bearer_Inr[of t offered "fst ae" "snd ae"]
      by (cases ae) (auto simp: select_ws_subprotocol_def)
  qed
  have "(require_api_token (Some t) r = Inr ()) = presents r t"
    "(require_api_token (Some t) r = Inl TypeError) = (\<exists>p. presents r p \<and> \<not> is_ascii p)"
    "case require_api_token (Some t) r of Inl e \<Rightarrow> e = TypeError \<or> (\<exists>d. e = HTTPException 401 d) | Inr _ \<Rightarrow> True"
    unfolding bearer_of_presents[symmetric] rest using t by (cases "bearer_of r"; simp)+
  with ws all show ?thesis by blast
qed

theorem auth_decides_witness:
  "require_api_token (Some ''s3cret'') \<lparr> client_host = None, headers = [(''authorization'', ''BEARER s3cret '')] \<rparr> = Inr () \<and>
   select_ws_subprotocol (Some ''s3cret'') [''chat'', ''aot.bearer.s3cret''] = Inr (True, Some ''aot.bearer.s3cret'')"
proof -
  let ?r = "\<lparr> client_host = None, headers = [(''authorization'', ''BEARER s3cret '')] \<rparr>"
  have e: "read_env_token (\<lambda>_. Some '' s3cret '') name = Inr (Some ''s3cret'')" for name
  proof -
    have "strip '' s3cret '' = ''s3cret''" "is_http_token ''s3cret''" by code_simp+
    then show ?thesis by (simp add: read_env_token_def)
  qed
  have "bearer_of ?r = Some ''s3cret''" by code_simp
  then have b: "presents ?r ''s3cret''" by (simp only: bearer_of_presents)
  have o: "list_all is_ascii [''chat'', ''aot.bearer.s3cret'']"
    "WS_BEARER_PREFIX @ ''s3cret'' \<in> set [''chat'', ''aot.bearer.s3cret'']"
    "WS_BEARER_PREFIX @ ''s3cret'' = ''aot.bearer.s3cret''" by code_simp+
  note d = auth_decides[OF e[of "''BACKEND_API_TOKEN''"], of ?r "[''chat'', ''aot.bearer.s3cret'']"]
  show ?thesis
  proof
    show "require_api_token (Some ''s3cret'') ?r = Inr ()" by (rule d[THEN conjunct1, THEN iffD2, OF b])
    show "select_ws_subprotocol (Some ''s3cret'') [''chat'', ''aot.bearer.s3cret''] = Inr (True, Some ''aot.bearer.s3cret'')"
      using d[THEN conjunct2, THEN conjunct2, THEN conjunct2, THEN conjunct2, THEN mp, OF o(1)]
      by (simp only: o(3) if_P[OF o(2)[unfolded o(3)]])
  qed
qed

text \<open>The uncaught exception, on a credential in Latin-1.\<close>

lemma non_ascii_credential_raises:
  "require_api_token (Some ''s3cret'') \<lparr> client_host = None, headers = [(''authorization'', ''Bearer '' @ [CHR 0xE9])] \<rparr>
     = Inl TypeError"
  by code_simp

lemma intent_payload_wf: "desired_mode q \<in> set CMD_CONTROL_MODES \<Longrightarrow> intent_wf (intent_payload q)"
  by (auto simp: intent_payload_def intent_wf_def dget_append split: option.splits)

text \<open>
  An intent is stored only behind the guards. The route changes the shared state exactly
  when it answers normally, and then the token was right, the mode is one of the four and what
  is stored is a well-formed intent carrying that mode; a request that fails authentication
  does not use up its client's rate tokens either.
\<close>

theorem intent_route_guarded:
  "let (x, (buckets', s')) = intent_route token limiter r clks q now_s (buckets, s)
   in if returns x
      then require_api_token token r = Inr () \<and> fst (rate_limit_intent limiter r clks buckets) = Inr () \<and>
        s' = update_intent (intent_payload q) now_s s \<and> intent_wf (intent_payload q) \<and>
        dget (intent_payload q) ''desired_mode'' = Some (PInt (desired_mode q))
      else s' = s \<and> (if require_api_token token r = Inr () then True else buckets' = buckets)"
proof -
  have mode: "dget (intent_payload q) ''desired_mode'' = Some (PInt (desired_mode q))"
    by (simp add: intent_payload_def)
  obtain x b where l: "rate_limit_intent limiter r clks buckets = (x, b)" by fastforce
  show ?thesis
    using intent_payload_wf[of q] mode l
    by (cases "require_api_token token r"; cases x; cases "desired_mode q \<in> set CMD_CONTROL_MODES")
      (simp_all add: intent_route_def post_intent_def)
qed

end
