(* ===== verification/App_Video.thy ===== *)
theory App_Video
  imports App_Api Video_Hub
begin

section \<open>Frames in, video out\<close>

text \<open>
  The video routes of \<open>src/src/backend/app.py\<close>: \<open>POST /api/frame\<close> with its checks, and the
  MJPEG stream. The chunks of a request body and the times of a stream's iterations are
  arguments; \<open>None\<close> for the hub means the subsystem has not been started. Another client's
  operations on the hub happen between two iterations of a stream.
\<close>

record video_runtime = video_config +
  validate_decode :: bool

subsection \<open>Receiving a frame\<close>

definition looks_like_jpeg :: "nat list \<Rightarrow> bool" where
  "looks_like_jpeg p = (4 \<le> length p \<and> take 2 p = [0xFF, 0xD8] \<and> drop (length p - 2) p = [0xFF, 0xD9])"

definition encodings :: "string \<Rightarrow> string list" where
  \<comment> \<open>the tokens of a \<open>Transfer-Encoding\<close> header\<close>
  "encodings te = map (\<lambda>t. lower (strip t)) (filter (\<lambda>t. strip t \<noteq> []) (split_char (CHR '','') te))"

definition bad_length :: pyexc where
  "bad_length = HTTPException 400 ''invalid content-length header''"

definition check_content_length :: "int \<Rightarrow> request \<Rightarrow> pyexc + int" where
  "check_content_length max_bytes r =
     (case header_get r ''content-length'' of
        None \<Rightarrow> Inl (HTTPException 411 ''content-length header is required'')
      | Some h \<Rightarrow>
          (let text = strip h in
           if text = [] then Inl bad_length
           else case parse_int text of
             None \<Rightarrow> Inl bad_length
           | Some n \<Rightarrow>
               if n < 0 then Inl bad_length
               else if max_bytes < n
               then Inl (HTTPException 400 (''content-length exceeds max size ('' @ dec_int max_bytes @ '' bytes)''))
               else Inr n))"

fun read_body :: "int \<Rightarrow> nat list \<Rightarrow> nat list list \<Rightarrow> pyexc + nat list" where
  \<comment> \<open>the loop over the stream, stopping before the buffer would exceed the limit\<close>
  "read_body max_bytes payload [] = Inr payload"
| "read_body max_bytes payload (chunk # cs) =
     (if chunk = [] then read_body max_bytes payload cs
      else if max_bytes < int (length payload) + int (length chunk)
      then Inl (HTTPException 400 (''jpeg payload exceeds max size ('' @ dec_int max_bytes @ '' bytes)''))
      else read_body max_bytes (payload @ chunk) cs)"

definition check_frame ::
  "'a video_runtime_scheme \<Rightarrow> (nat list \<Rightarrow> bool) option \<Rightarrow> request \<Rightarrow> nat list list \<Rightarrow> pyexc + nat list" where
  \<comment> \<open>the checks in their order; each failure is counted as a bad frame by the handler\<close>
  "check_frame cfg verify r chunks =
     (let content_type = lower (case header_get r ''content-type'' of None \<Rightarrow> '''' | Some v \<Rightarrow> v);
          transfer_encoding = (case header_get r ''transfer-encoding'' of None \<Rightarrow> '''' | Some v \<Rightarrow> v)
      in rbind (guard_raise (contains_sub ''image/jpeg'' content_type)
           (HTTPException 400 ''content-type must be image/jpeg'')) (\<lambda>_.
         rbind (guard_raise (''chunked'' \<notin> set (encodings transfer_encoding))
           (HTTPException 400 ''transfer-encoding: chunked is not supported on /api/frame'')) (\<lambda>_.
         rbind (check_content_length (max_jpeg_bytes cfg) r) (\<lambda>_.
         rbind (read_body (max_jpeg_bytes cfg) [] chunks) (\<lambda>payload.
         rbind (guard_raise (payload \<noteq> []) (HTTPException 400 ''empty request body'')) (\<lambda>_.
         rbind (guard_raise (looks_like_jpeg payload) (HTTPException 400 ''invalid jpeg payload'')) (\<lambda>_.
         rbind (guard_raise (validate_decode cfg \<longrightarrow> can_decode_jpeg verify payload)
           (HTTPException 400 ''jpeg decode validation failed'')) (\<lambda>_.
         Inr payload))))))))"

definition post_frame ::
  "'a video_runtime_scheme \<Rightarrow> (nat list \<Rightarrow> bool) option \<Rightarrow> request \<Rightarrow> nat list list \<Rightarrow> pyfloat
   \<Rightarrow> (pyexc, video_hub option, pydict) eff" where
  "post_frame cfg verify r chunks now_s hub =
     (if \<not> enabled cfg then (Inl (HTTPException 503 ''video streaming is disabled''), hub)
      else case hub of
        None \<Rightarrow> (Inl (HTTPException 503 ''video subsystem not ready''), None)
      | Some h \<Rightarrow>
          (case check_frame cfg verify r chunks of
             Inl e \<Rightarrow> (Inl e, Some (record_bad_frame h))
           | Inr payload \<Rightarrow>
               (Inr [(''ok'', PBool True), (''size_bytes'', PInt (int (length payload)))],
                Some (set_jpeg payload now_s h))))"

definition frame_route ::
  "'a video_runtime_scheme \<Rightarrow> string option \<Rightarrow> limiter_config option \<Rightarrow> (nat list \<Rightarrow> bool) option
   \<Rightarrow> request \<Rightarrow> pyfloat \<times> pyfloat \<Rightarrow> nat list list \<Rightarrow> pyfloat
   \<Rightarrow> (pyexc, ip_limiter \<times> video_hub option, pydict) eff" where
  "frame_route cfg token limiter verify r clks chunks now_s = (\<lambda>(buckets, hub).
     case require_api_token token r of
       Inl e \<Rightarrow> (Inl e, (buckets, hub))
     | Inr _ \<Rightarrow>
         (case rate_limit_frame limiter r clks buckets of
            (Inl e, buckets') \<Rightarrow> (Inl e, (buckets', hub))
          | (Inr _, buckets') \<Rightarrow>
              (case post_frame cfg verify r chunks now_s hub of (x, hub') \<Rightarrow> (x, (buckets', hub')))))"

subsection \<open>The stream\<close>

fun stream_parts ::
  "'a video_runtime_scheme \<Rightarrow> (pyfloat \<Rightarrow> nat list) \<Rightarrow> int option \<Rightarrow> int \<Rightarrow> (hub_op list \<times> pyfloat) list
   \<Rightarrow> (pyexc, video_hub, nat list list) eff" where
  \<comment> \<open>\<open>synthetic\<close> renders a frame when there is no fresh one; the list ends when the client goes\<close>
  "stream_parts cfg synthetic max_parts emitted [] h = (Inr [], h)"
| "stream_parts cfg synthetic max_parts emitted ((ops, now_s) # its) h0 =
     (let h = run hub_step h0 ops;
          frame = (case get_fresh_jpeg (frame_fresh_s cfg) now_s h of
                     None \<Rightarrow> synthetic now_s | Some f \<Rightarrow> f)
      in ebind (record_frame_served now_s) (\<lambda>_ h1.
           let part = make_mjpeg_part frame ''frame''; emitted' = emitted + 1
           in if (case max_parts of None \<Rightarrow> False | Some m \<Rightarrow> m \<le> emitted') then (Inr [part], h1)
              else ebind (stream_parts cfg synthetic max_parts emitted' its)
                     (\<lambda>ps. ereturn (part # ps)) h1) h)"

definition video_stream ::
  "'a video_runtime_scheme \<Rightarrow> (pyfloat \<Rightarrow> nat list) \<Rightarrow> int option \<Rightarrow> (hub_op list \<times> pyfloat) list
   \<Rightarrow> (pyexc, video_hub option, nat list list) eff" where
  "video_stream cfg synthetic max_parts its hub =
     (if \<not> enabled cfg then (Inl (HTTPException 503 ''video streaming is disabled''), hub)
      else case hub of
        None \<Rightarrow> (Inl (HTTPException 503 ''video subsystem not ready''), None)
      | Some h \<Rightarrow>
          (case fdiv (Fin 1) (fps cfg) of
             None \<Rightarrow> (Inl ZeroDivisionError, hub)
           | Some _ \<Rightarrow>
               (case stream_parts cfg synthetic max_parts 0 its (register_client h) of
                  (x, h') \<Rightarrow> (x, Some (unregister_client h')))))"

subsection \<open>Status\<close>

definition build_video_status :: "'a video_runtime_scheme \<Rightarrow> pyfloat \<Rightarrow> video_hub option \<Rightarrow> pydict" where
  "build_video_status cfg now_s hub =
     (case hub of
        None \<Rightarrow>
          [(''video_enabled'', PBool (enabled cfg)), (''video_clients'', PInt 0),
           (''video_fps_est'', PFloat (Fin 0)), (''last_frame_age_s'', PNone),
           (''frames_rx_ok'', PInt 0), (''frames_rx_bad'', PInt 0)]
      | Some h \<Rightarrow>
          [(''video_enabled'', PBool (enabled cfg)), (''video_clients'', PInt (video_clients h)),
           (''video_fps_est'', PFloat (video_fps_est h)),
           (''last_frame_age_s'', opt_val PFloat (get_age_s now_s h)),
           (''frames_rx_ok'', count (frames_rx_ok h)), (''frames_rx_bad'', count (frames_rx_bad h))])"

subsection \<open>Which frames are accepted\<close>

definition frame_acceptable ::
  "'a video_runtime_scheme \<Rightarrow> (nat list \<Rightarrow> bool) option \<Rightarrow> request \<Rightarrow> nat list list \<Rightarrow> bool" where
  \<comment> \<open>specification: no order of checks, no buffer\<close>
  "frame_acceptable cfg verify r chunks =
     ((\<exists>ct. header_get r ''content-type'' = Some ct \<and> contains_sub ''image/jpeg'' (lower ct)) \<and>
      (\<forall>te. header_get r ''transfer-encoding'' = Some te \<longrightarrow> ''chunked'' \<notin> set (encodings te)) \<and>
      (\<exists>cl n. header_get r ''content-length'' = Some cl \<and> parse_int (strip cl) = Some n \<and>
         0 \<le> n \<and> n \<le> max_jpeg_bytes cfg) \<and>
      int (length (concat chunks)) \<le> max_jpeg_bytes cfg \<and> looks_like_jpeg (concat chunks) \<and>
      (validate_decode cfg \<longrightarrow> can_decode_jpeg verify (concat chunks)))"

lemma check_content_length_Inr:
  "check_content_length m r = Inr n \<longleftrightarrow>
     (\<exists>cl. header_get r ''content-length'' = Some cl \<and> parse_int (strip cl) = Some n \<and> 0 \<le> n \<and> n \<le> m)"
proof -
  have "parse_int [] = None" by code_simp
  then show ?thesis
    by (auto simp: check_content_length_def Let_def split: option.splits if_splits)
qed

lemma check_content_length_Inl: "check_content_length m r = Inl e \<Longrightarrow> \<exists>st d. e = HTTPException st d"
  by (auto simp: check_content_length_def bad_length_def Let_def split: option.splits if_splits)

lemma read_body_Inr:
  "read_body m p cs = Inr q \<longleftrightarrow> q = p @ concat cs \<and> (concat cs = [] \<or> int (length q) \<le> m)"
  by (induction m p cs rule: read_body.induct) (auto simp: not_less simp del: concat_eq_Nil_conv)

lemma read_body_Inl: "read_body m p cs = Inl e \<Longrightarrow> \<exists>st d. e = HTTPException st d"
  by (induction m p cs rule: read_body.induct) (auto split: if_splits)

lemma no_type_no_jpeg: "contains_sub ''image/jpeg'' (lower []) = False"
  by code_simp

lemma no_encodings: "encodings [] = []"
  by code_simp

lemma check_frame_Inr:
  "check_frame cfg verify r chunks = Inr q \<longleftrightarrow> frame_acceptable cfg verify r chunks \<and> q = concat chunks"
proof -
  have j: "looks_like_jpeg q \<Longrightarrow> q \<noteq> []" for q by (auto simp: looks_like_jpeg_def)
  show ?thesis
    unfolding check_frame_def frame_acceptable_def rbind_Inr_iff check_content_length_Inr read_body_Inr Let_def
    using no_type_no_jpeg j by (cases "header_get r ''content-type''"; cases "header_get r ''transfer-encoding''")
      (auto simp: no_encodings simp del: concat_eq_Nil_conv)
qed

lemma check_frame_Inl: "check_frame cfg verify r chunks = Inl e \<Longrightarrow> \<exists>st d. e = HTTPException st d"
  by (auto simp: check_frame_def rbind_Inl_iff Let_def dest: check_content_length_Inl read_body_Inl)

text \<open>
  C29: What the hub shows has passed every check. With the stream enabled a request is accepted
  exactly if its type is JPEG, it is not chunked, its advertised length is a number within the
  limit, its body (which may differ from the advertised length) is within the limit, has the
  JPEG markers and decodes where that is asked for; then the body becomes the newest frame.
  Otherwise it is answered with an HTTP error and counted as one bad frame, and nothing else
  of the hub changes.
\<close>

theorem post_frame_decides:
  "case post_frame cfg verify r chunks now_s (Some h) of
     (Inr _, hub') \<Rightarrow> enabled cfg \<and> frame_acceptable cfg verify r chunks \<and>
        hub' = Some (set_jpeg (concat chunks) now_s h)
   | (Inl e, hub') \<Rightarrow> (\<exists>st d. e = HTTPException st d) \<and>
        (if enabled cfg then \<not> frame_acceptable cfg verify r chunks \<and> hub' = Some (record_bad_frame h)
         else hub' = Some h)"
proof (cases "check_frame cfg verify r chunks")
  case (Inl e)
  then show ?thesis
    using check_frame_Inl[OF Inl] check_frame_Inr[of cfg verify r chunks "concat chunks"]
    by (auto simp: post_frame_def)
next
  case (Inr q)
  then show ?thesis using check_frame_Inr[of cfg verify r chunks q] by (auto simp: post_frame_def)
qed

subsection \<open>The stream ends\<close>

fun keeps_clients :: "hub_op \<Rightarrow> bool" where
  "keeps_clients HubRegister = False"
| "keeps_clients HubUnregister = False"
| "keeps_clients _ = True"

lemma record_frame_served_clients: "video_clients (snd (record_frame_served t h)) = video_clients h"
  by (auto simp: record_frame_served_def Let_def split: option.splits)

lemma run_keeps_clients:
  "list_all keeps_clients ops \<Longrightarrow> video_clients (run hub_step h ops) = video_clients h"
proof (induction ops arbitrary: h)
  case (Cons p ops)
  then show ?case by (cases p) (simp_all add: record_frame_served_clients set_jpeg_def record_bad_frame_def)
qed simp

definition iteration_part ::
  "'a video_runtime_scheme \<Rightarrow> (pyfloat \<Rightarrow> nat list) \<Rightarrow> hub_op list \<times> pyfloat \<Rightarrow> video_hub \<Rightarrow> nat list" where
  "iteration_part cfg synthetic it h =
     make_mjpeg_part (case get_fresh_jpeg (frame_fresh_s cfg) (snd it) (run hub_step h (fst it)) of
        None \<Rightarrow> synthetic (snd it) | Some f \<Rightarrow> f) ''frame''"

definition iteration_hub :: "hub_op list \<times> pyfloat \<Rightarrow> video_hub \<Rightarrow> video_hub" where
  "iteration_hub it h = snd (record_frame_served (snd it) (run hub_step h (fst it)))"

lemma stream_parts_Cons:
  "stream_parts cfg synthetic mp k (it # its) h =
     (if (case mp of None \<Rightarrow> False | Some m \<Rightarrow> m \<le> k + 1)
      then (Inr [iteration_part cfg synthetic it h], iteration_hub it h)
      else ebind (stream_parts cfg synthetic mp (k + 1) its)
             (\<lambda>ps. ereturn (iteration_part cfg synthetic it h # ps)) (iteration_hub it h))"
proof -
  obtain ops t where it: "it = (ops, t)" by fastforce
  obtain h1 where "record_frame_served t (run hub_step h ops) = (Inr (), h1)"
    using record_frame_served_returns[of t "run hub_step h ops"]
    by (cases "record_frame_served t (run hub_step h ops)") auto
  then show ?thesis
    unfolding it by (simp add: iteration_part_def iteration_hub_def ebind_def Let_def cong: option.case_cong)
qed

lemma iteration_hub_clients:
  "list_all keeps_clients (fst it) \<Longrightarrow> video_clients (iteration_hub it h) = video_clients h"
  by (simp add: iteration_hub_def record_frame_served_clients run_keeps_clients)

lemma stream_parts_bounded:
  assumes "k < m"
  shows "\<exists>ps h'. stream_parts cfg synthetic (Some m) k its h = (Inr ps, h') \<and>
    length ps = min (nat (m - k)) (length its) \<and>
    stream_parts cfg synthetic (Some m) k (take (nat (m - k)) its) h = (Inr ps, h') \<and>
    (list_all (\<lambda>it. list_all keeps_clients (fst it)) its \<longrightarrow> video_clients h' = video_clients h)"
  using assms
proof (induction its arbitrary: k h)
  case (Cons it its)
  have n: "nat (m - k) = Suc (nat (m - (k + 1)))" using Cons.prems by linarith
  show ?case
  proof (cases "m \<le> k + 1")
    case True
    then have "nat (m - (k + 1)) = 0" by simp
    then show ?thesis
      unfolding n take_Suc_Cons stream_parts_Cons using True by (simp add: iteration_hub_clients)
  next
    case False
    then obtain ps h' where "stream_parts cfg synthetic (Some m) (k + 1) its (iteration_hub it h) = (Inr ps, h')"
      "length ps = min (nat (m - (k + 1))) (length its)"
      "stream_parts cfg synthetic (Some m) (k + 1) (take (nat (m - (k + 1))) its) (iteration_hub it h) = (Inr ps, h')"
      "list_all (\<lambda>it. list_all keeps_clients (fst it)) its \<longrightarrow> video_clients h' = video_clients (iteration_hub it h)"
      using Cons.IH[of "k + 1" "iteration_hub it h"] by auto
    then show ?thesis
      unfolding n take_Suc_Cons stream_parts_Cons using False
      by (simp add: ebind_def iteration_hub_clients)
  qed
qed simp

text \<open>
  A limited stream ends. With \<open>max_parts\<close> the generator returns after that many parts, or
  when its client goes away: it never raises, what it does depends on that many iterations
  only, however long the client stays, and when it is done the number of viewers is what it was
  before, if other viewers did not come or go meanwhile.
\<close>

theorem stream_terminates:
  assumes "1 \<le> m" "enabled cfg" "flt (Fin 0) (fps cfg)" "0 \<le> video_clients h"
  shows "\<exists>ps h'. video_stream cfg synthetic (Some m) its (Some h) = (Inr ps, Some h') \<and>
    length ps = min (nat m) (length its) \<and>
    video_stream cfg synthetic (Some m) (take (nat m) its) (Some h) = (Inr ps, Some h') \<and>
    (list_all (\<lambda>it. list_all keeps_clients (fst it)) its \<longrightarrow> video_clients h' = video_clients h)"
proof -
  obtain period where period: "fdiv (Fin 1) (fps cfg) = Some period" using assms(3) by (rule fdiv_pos)
  obtain ps h1 where "stream_parts cfg synthetic (Some m) 0 its (register_client h) = (Inr ps, h1)"
    "length ps = min (nat m) (length its)"
    "stream_parts cfg synthetic (Some m) 0 (take (nat m) its) (register_client h) = (Inr ps, h1)"
    "list_all (\<lambda>it. list_all keeps_clients (fst it)) its \<longrightarrow> video_clients h1 = video_clients (register_client h)"
    using stream_parts_bounded[of 0 m cfg synthetic its "register_client h"] assms(1) by auto
  then show ?thesis
    using assms(2,4) period
    by (simp add: video_stream_def register_client_def unregister_client_def)
qed

theorem stream_terminates_witness:
  "\<exists>ps h'. video_stream \<lparr> enabled = True, fps = Fin 10, max_jpeg_bytes = 9, frame_fresh_s = Fin 1, validate_decode = False \<rparr>
      (\<lambda>_. []) (Some 2) [([], Fin 1), ([HubSet [1] (Fin 2)], Fin 2), ([], Fin 3)] (Some new_video_hub) = (Inr ps, Some h') \<and>
     length ps = 2 \<and> video_clients h' = 0"
  using stream_terminates[of 2 "\<lparr> enabled = True, fps = Fin 10, max_jpeg_bytes = 9, frame_fresh_s = Fin 1, validate_decode = False \<rparr>"
      new_video_hub "\<lambda>_. []" "[([], Fin 1), ([HubSet [1] (Fin 2)], Fin 2), ([], Fin 3)]"]
  by (auto simp: new_video_hub_def)

end
