(* ===== verification/App_Startup.thy ===== *)
theory App_Startup
  imports Protocol_Constants App_Video Broadcast Cmd_Bridge
begin

section \<open>Starting and stopping the backend\<close>

text \<open>
  \<open>_startup\<close>, \<open>_shutdown\<close> and the environment readers of \<open>src/src/backend/app.py\<close>, with the
  limits of \<open>protocol_constants.py\<close>. Every setting is read from the text of an environment
  variable, in the order of the code, and the components are built from the settings by their
  own constructors; the first reader or constructor that raises ends the start. Threads are
  the loops of the other theories; what is kept of an ingestor here is its configuration.
\<close>


subsection \<open>Readers\<close>

definition read_env_int :: "environ \<Rightarrow> string \<Rightarrow> int \<Rightarrow> pyexc + int" where
  "read_env_int env name d = (case env name of None \<Rightarrow> Inr d | Some raw \<Rightarrow> int_of_text raw)"

definition read_env_float :: "environ \<Rightarrow> string \<Rightarrow> pyfloat \<Rightarrow> pyexc + pyfloat" where
  "read_env_float env name d = (case env name of None \<Rightarrow> Inr d | Some raw \<Rightarrow> float_of_text raw)"

definition read_env_bool :: "environ \<Rightarrow> string \<Rightarrow> bool \<Rightarrow> pyexc + bool" where
  "read_env_bool env name d =
     (case env name of
        None \<Rightarrow> Inr d
      | Some raw \<Rightarrow>
          (let normalized = lower (strip raw) in
           if normalized \<in> {''1'', ''true'', ''yes'', ''on''} then Inr True
           else if normalized \<in> {''0'', ''false'', ''no'', ''off''} then Inr False
           else Inl (ValueError (Msg ''invalid boolean env var''))))"

definition read_env_text :: "environ \<Rightarrow> string \<Rightarrow> string \<Rightarrow> string" where
  \<comment> \<open>\<open>os.environ.get(name, default)\<close>\<close>
  "read_env_text env name d = (case env name of None \<Rightarrow> d | Some raw \<Rightarrow> raw)"

definition build_cors_origins :: "environ \<Rightarrow> string list" where
  "build_cors_origins env =
     (let raw = strip (read_env_text env ''BACKEND_CORS_ALLOW_ORIGINS'' [])
      in if raw = [] then []
         else map strip (filter (\<lambda>o'. strip o' \<noteq> []) (split_char (CHR '','') raw)))"

subsection \<open>The settings of the process\<close>

record runtime = video_runtime +
  rt_cmd_hz :: pyfloat
  rt_tel_hz :: pyfloat
  rt_vis_fresh_s :: pyfloat
  rt_tel_fresh_s :: pyfloat
  frame_limiter :: "limiter_config option"
  intent_limiter :: "limiter_config option"
  api_token :: "string option"

definition make_limiter :: "pyfloat \<Rightarrow> limiter_config option" where
  \<comment> \<open>no limiter for rate 0; the capacity is at least one token\<close>
  "make_limiter rate_hz =
     (if flt (Fin 0) rate_hz
      then Some \<lparr> lim_capacity = fmax (Fin 1) rate_hz, lim_refill = rate_hz \<rparr> else None)"

definition read_runtime :: "environ \<Rightarrow> pyexc + runtime" where
  "read_runtime env =
     rbind (read_env_float env ''BACKEND_CMD_HZ'' (Fin 50)) (\<lambda>cmd_hz.
     rbind (read_env_float env ''BACKEND_TEL_HZ_NOMINAL'' (Fin 50)) (\<lambda>tel_hz_nominal.
     rbind (read_env_float env ''BACKEND_VIS_FRESH_S'' (Fin (1 / 4))) (\<lambda>vis_fresh.
     rbind (read_env_float env ''BACKEND_TEL_FRESH_S'' (Fin (1 / 2))) (\<lambda>tel_fresh.
     rbind (read_env_bool env ''BACKEND_VIDEO_ENABLED'' True) (\<lambda>video_enabled.
     rbind (read_env_float env ''BACKEND_VIDEO_FPS'' (Fin 10)) (\<lambda>video_fps.
     rbind (read_env_int env ''BACKEND_VIDEO_MAX_JPEG_BYTES'' VIDEO_MAX_JPEG_BYTES_DEFAULT) (\<lambda>max_jpeg.
     rbind (read_env_float env ''BACKEND_VIDEO_FRAME_FRESH_S'' (Fin 1)) (\<lambda>frame_fresh.
     rbind (read_env_bool env ''BACKEND_VIDEO_VALIDATE_DECODE'' False) (\<lambda>validate.
     rbind (read_env_float env ''BACKEND_FRAME_RATE_LIMIT_HZ'' (Fin 30)) (\<lambda>frame_rate.
     rbind (read_env_float env ''BACKEND_INTENT_RATE_LIMIT_HZ'' (Fin 5)) (\<lambda>intent_rate.
     rbind (read_env_token env ''BACKEND_API_TOKEN'') (\<lambda>token.
     Inr \<lparr> enabled = video_enabled, fps = fmax (Fin (1 / 2)) video_fps, max_jpeg_bytes = max 1 max_jpeg,
       frame_fresh_s = fmax (Fin 0) frame_fresh, validate_decode = validate,
       rt_cmd_hz = cmd_hz, rt_tel_hz = tel_hz_nominal, rt_vis_fresh_s = vis_fresh,
       rt_tel_fresh_s = fmax (f64 (1 / 1000)) tel_fresh,
       frame_limiter = make_limiter (fmax (Fin 0) frame_rate),
       intent_limiter = make_limiter (fmax (Fin 0) intent_rate),
       api_token = token \<rparr>))))))))))))"

subsection \<open>Building the components\<close>

definition build_broadcaster :: "environ \<Rightarrow> runtime \<Rightarrow> pyexc + broadcast_config \<times> broadcaster" where
  "build_broadcaster env rt =
     rbind (read_env_int env ''BACKEND_WS_CLIENT_QUEUE_MAX'' 10) (\<lambda>qmax.
     rbind (new_ws_manager qmax) (\<lambda>m.
     rbind (read_env_float env ''BACKEND_WS_TEL_HZ'' (Fin 20)) (\<lambda>th.
     rbind (read_env_float env ''BACKEND_WS_VIS_HZ'' (Fin 20)) (\<lambda>vh.
     rbind (read_env_float env ''BACKEND_WS_LINK_HZ'' (Fin 2)) (\<lambda>lh.
     rbind (read_env_float env ''BACKEND_WS_WARNING_INTERVAL_S'' (Fin 2)) (\<lambda>wi.
     let cfg = \<lparr> broadcast_config.tel_hz = th, vis_hz = vh, link_hz = lh,
           bc_vis_fresh_s = rt_vis_fresh_s rt, tel_fresh_s = rt_tel_fresh_s rt,
           cmd_timeout_s = CMD_TIMEOUT_S, cmd_hz_nominal = rt_cmd_hz rt,
           tel_hz_nominal = rt_tel_hz rt, warning_min_interval_s = wi \<rparr>
     in rbind (new_broadcaster cfg m) (\<lambda>b. Inr (cfg, b))))))))"

record ingest_config =
  bind_host :: string
  bind_port :: int
  max_bytes :: int
  recv_timeout_s :: pyfloat
  drop_log_interval_s :: pyfloat

definition build_tel_ingestor_from_env :: "environ \<Rightarrow> pyexc + ingest_config" where
  "build_tel_ingestor_from_env env =
     rbind (read_env_int env ''BACKEND_TEL_PORT'' UDP_TEL_PORT) (\<lambda>port.
     rbind (read_env_int env ''BACKEND_TEL_MAX_BYTES'' UDP_MAX_TEL_BYTES) (\<lambda>mx.
     rbind (read_env_float env ''BACKEND_TEL_RECV_TIMEOUT_S'' (f64 (1 / 10))) (\<lambda>tmo.
     rbind (read_env_float env ''BACKEND_TEL_LOG_INTERVAL_S'' (Fin 5)) (\<lambda>lg.
     Inr \<lparr> bind_host = read_env_text env ''BACKEND_TEL_HOST'' ''127.0.0.1'', bind_port = port,
       max_bytes = mx, recv_timeout_s = tmo, drop_log_interval_s = lg \<rparr>))))"

definition build_vis_ingestor_from_env :: "environ \<Rightarrow> pyexc + ingest_config" where
  "build_vis_ingestor_from_env env =
     rbind (read_env_int env ''BACKEND_VIS_PORT'' UDP_VIS_PORT) (\<lambda>port.
     rbind (read_env_int env ''BACKEND_VIS_MAX_BYTES'' UDP_MAX_VIS_BYTES) (\<lambda>mx.
     rbind (read_env_float env ''BACKEND_VIS_RECV_TIMEOUT_S'' (f64 (1 / 10))) (\<lambda>tmo.
     rbind (read_env_float env ''BACKEND_VIS_LOG_INTERVAL_S'' (Fin 5)) (\<lambda>lg.
     Inr \<lparr> bind_host = read_env_text env ''BACKEND_VIS_HOST'' ''127.0.0.1'', bind_port = port,
       max_bytes = mx, recv_timeout_s = tmo, drop_log_interval_s = lg \<rparr>))))"

definition build_cmd_bridge_from_env ::
  "environ \<Rightarrow> pyfloat \<Rightarrow> pyfloat \<Rightarrow> shared_state \<Rightarrow> pyexc + bridge_config \<times> cmd_bridge" where
  "build_cmd_bridge_from_env env cmd_hz fresh_s s =
     rbind (read_env_int env ''BACKEND_FC_PORT'' TCP_CMD_PORT) (\<lambda>_.
     rbind (read_env_int env ''BACKEND_CMD_MAX_PAYLOAD_BYTES'' TCP_MAX_FRAME_BYTES) (\<lambda>mx.
     rbind (read_env_float env ''BACKEND_CMD_CONNECT_TIMEOUT_S'' (Fin 1)) (\<lambda>ct.
     rbind (read_env_float env ''BACKEND_CMD_BACKOFF_INITIAL_S'' (Fin 1)) (\<lambda>bi.
     rbind (read_env_float env ''BACKEND_CMD_BACKOFF_MAX_S'' (Fin 5)) (\<lambda>bm.
     rbind (read_env_float env ''BACKEND_CMD_LOG_INTERVAL_S'' (Fin 5)) (\<lambda>lg.
     let cfg = \<lparr> tick_hz = cmd_hz, bridge_config.vis_fresh_s = fresh_s, max_payload_bytes = mx,
           connect_timeout_s = ct, connect_backoff_initial_s = bi, connect_backoff_max_s = bm,
           bridge_config.log_interval_s = lg \<rparr>
     in rbind (new_cmd_bridge cfg None s) (\<lambda>b. Inr (cfg, b))))))))"

definition when_enabled :: "environ \<Rightarrow> string \<Rightarrow> pyexc + 'a \<Rightarrow> pyexc + 'a option" where
  \<comment> \<open>a component that a variable can switch off\<close>
  "when_enabled env name build =
     rbind (read_env_bool env name True) (\<lambda>on. if on then rbind build (\<lambda>x. Inr (Some x)) else Inr None)"

record backend =
  be_state :: shared_state
  be_runtime :: runtime
  be_hub :: "video_hub option"
  be_broadcaster :: "(broadcast_config \<times> broadcaster) option"
  be_tel :: "ingest_config option"
  be_vis :: "ingest_config option"
  be_bridge :: "(bridge_config \<times> cmd_bridge) option"

definition startup :: "environ \<Rightarrow> pyfloat \<Rightarrow> shared_state \<Rightarrow> pyexc + backend" where
  "startup env clk s0 =
     (case state_reset clk s0 of
        (Inl e, _) \<Rightarrow> Inl e
      | (Inr _, s) \<Rightarrow>
          rbind (read_runtime env) (\<lambda>rt.
          rbind (build_broadcaster env rt) (\<lambda>br.
          rbind (when_enabled env ''BACKEND_TEL_INGEST_ENABLED'' (build_tel_ingestor_from_env env)) (\<lambda>ti.
          rbind (when_enabled env ''BACKEND_VIS_INGEST_ENABLED'' (build_vis_ingestor_from_env env)) (\<lambda>vi.
          rbind (when_enabled env ''BACKEND_CMD_BRIDGE_ENABLED''
            (build_cmd_bridge_from_env env (rt_cmd_hz rt) (rt_vis_fresh_s rt) s)) (\<lambda>cb.
          Inr \<lparr> be_state = s, be_runtime = rt, be_hub = Some new_video_hub, be_broadcaster = Some br,
            be_tel = ti, be_vis = vi, be_bridge = cb \<rparr>))))))"

definition shutdown :: "backend \<Rightarrow> backend" where
  \<comment> \<open>after the threads have been joined; \<open>stop\<close> closes the link and reports it to the state\<close>
  "shutdown be = be\<lparr> be_state := (case be_bridge be of None \<Rightarrow> be_state be
       | Some (_, b) \<Rightarrow> bst (bridge_stop (b\<lparr> bst := be_state be \<rparr>))),
     be_bridge := None, be_tel := None, be_vis := None, be_broadcaster := None, be_hub := None \<rparr>"

subsection \<open>Status routes\<close>

definition vis_status :: "pyfloat \<Rightarrow> pyfloat \<Rightarrow> backend \<Rightarrow> pyexc + pydict" where
  "vis_status connected_threshold_s now_s be = get_vis_status connected_threshold_s now_s (be_state be)"

definition api_status :: "pyfloat \<Rightarrow> backend \<Rightarrow> pydict" where
  "api_status now_s be =
     (let rt = be_runtime be; s = be_state be;
          status = dupdate (get_link_status (rt_vis_fresh_s rt) (rt_tel_fresh_s rt) CMD_TIMEOUT_S
            (rt_cmd_hz rt) (rt_tel_hz rt) now_s s) (build_video_status rt now_s (be_hub be))
      in dset ''last_cmd_payload'' (PDict
           [(''last_cmd_seq'', opt_val PInt (last_cmd_seq s)),
            (''last_cmd_desired_mode'', opt_val PInt (last_cmd_desired_mode s)),
            (''last_cmd_had_tracking'', PBool (last_cmd_had_tracking s)),
            (''last_cmd_bytes'', opt_val PInt (last_cmd_bytes s))]) status)"

subsection \<open>A start that succeeds leaves checked components\<close>

lemma fmax_fixed_lower: "a \<noteq> NaN \<Longrightarrow> fle a (fmax a x)"
  by (auto simp: fmax_def flt_imp_fle fle_refl)

definition limiter_ok :: "limiter_config option \<Rightarrow> bool" where
  "limiter_ok l = (case l of None \<Rightarrow> True
     | Some c \<Rightarrow> fle (Fin 1) (lim_capacity c) \<and> flt (Fin 0) (lim_refill c))"

lemma make_limiter_ok: "limiter_ok (make_limiter x)"
  by (simp add: limiter_ok_def make_limiter_def fmax_fixed_lower)

definition runtime_ok :: "runtime \<Rightarrow> bool" where
  "runtime_ok rt = (fle (Fin (1 / 2)) (fps rt) \<and> 1 \<le> max_jpeg_bytes rt \<and> fle (Fin 0) (frame_fresh_s rt) \<and>
     flt (Fin 0) (rt_tel_fresh_s rt) \<and> limiter_ok (frame_limiter rt) \<and> limiter_ok (intent_limiter rt) \<and>
     (case api_token rt of None \<Rightarrow> True | Some t \<Rightarrow> is_http_token t))"

lemma milli_pos: "flt (Fin 0) (f64 (1 / 1000))"
proof -
  have "rnd (1 / 1024) = 1 / 1024" by (rule rnd_fraction[of 1 10]) simp_all
  then have b: "1 / 1024 \<le> rnd (1 / 1000)" "rnd (1 / 1000) \<le> 1"
    using rnd_ge_fix[of "1 / 1024" "1 / 1000"] rnd_le_fix[of "1 / 1000" 1] by simp_all
  then have "f64 (1 / 1000) = Fin (rnd (1 / 1000))" by (intro f64_small big_bound) simp
  with b show ?thesis by simp
qed

lemma read_runtime_ok: "read_runtime env = Inr rt \<Longrightarrow> runtime_ok rt"
proof -
  assume "read_runtime env = Inr rt"
  then obtain cmd th vf tf ve vfps mj ff vd fr ir tok where
    tok: "read_env_token env ''BACKEND_API_TOKEN'' = Inr tok" and
    rt: "rt = \<lparr> enabled = ve, fps = fmax (Fin (1 / 2)) vfps, max_jpeg_bytes = max 1 mj,
       frame_fresh_s = fmax (Fin 0) ff, validate_decode = vd, rt_cmd_hz = cmd, rt_tel_hz = th,
       rt_vis_fresh_s = vf, rt_tel_fresh_s = fmax (f64 (1 / 1000)) tf,
       frame_limiter = make_limiter (fmax (Fin 0) fr), intent_limiter = make_limiter (fmax (Fin 0) ir),
       api_token = tok \<rparr>"
    unfolding read_runtime_def
    by (elim rbind_InrE) (rule that, assumption, rule sym, erule sum.inject(2)[THEN iffD1])
  have "flt (Fin 0) (fmax (f64 (1 / 1000)) tf)"
    using milli_pos fmax_fixed_lower[of "f64 (1 / 1000)" tf] by (auto intro: flt_fle_trans)
  then show ?thesis
    using read_env_token_Inr tok unfolding rt
    by (auto simp: runtime_ok_def fmax_fixed_lower make_limiter_ok split: option.splits)
qed

lemma build_broadcaster_ok:
  "build_broadcaster env rt = Inr (cfg, b) \<Longrightarrow>
   check_broadcast_config cfg = Inr () \<and> 1 \<le> queue_max (ws b) \<and> clients (ws b) = [] \<and>
   bc_vis_fresh_s cfg = rt_vis_fresh_s rt \<and> tel_fresh_s cfg = rt_tel_fresh_s rt"
  by (auto simp: build_broadcaster_def new_broadcaster_def new_ws_manager_def Let_def)

lemma build_bridge_ok:
  "build_cmd_bridge_from_env env hz fresh_s s = Inr (cfg, b) \<Longrightarrow>
   check_bridge_config cfg = Inr () \<and> new_cmd_bridge cfg None s = Inr b \<and>
   tick_hz cfg = hz \<and> bridge_config.vis_fresh_s cfg = fresh_s"
  by (auto simp: build_cmd_bridge_from_env_def new_cmd_bridge_def Let_def)

lemma when_enabled_Some: "when_enabled env name build = Inr (Some x) \<Longrightarrow> build = Inr x"
  by (auto simp: when_enabled_def split: if_splits)

definition blank_state :: "shared_state \<Rightarrow> bool" where
  "blank_state s = (\<exists>q. seq_range q \<and> s = fresh_state q)"

lemma state_reset_blank: "state_reset clk s0 = (Inr u, s) \<Longrightarrow> blank_state s"
  by (auto simp: state_reset_def ebind_def elift_def emodify_def fresh_state_def blank_state_def
      dest!: initial_cmd_seq_range split: sum.splits)

text \<open>
  C31: The backend starts fully checked or not at all. When the start succeeds, whatever the
  environment holds (NaN and infinities included) the settings are in the ranges the handlers
  rely on, every rate limiter has room for a whole token and refills, the token is
  transmissible, the components' own checks have passed, all of them share the same freshness
  limit, and the shared state is empty with a sequence number in range.
\<close>

theorem startup_checked:
  assumes "startup env clk s0 = Inr be"
  shows "runtime_ok (be_runtime be) \<and> blank_state (be_state be) \<and> be_hub be = Some new_video_hub \<and>
    (\<exists>bcfg b. be_broadcaster be = Some (bcfg, b) \<and> check_broadcast_config bcfg = Inr () \<and>
       clients (ws b) = [] \<and> 1 \<le> queue_max (ws b) \<and> bc_vis_fresh_s bcfg = rt_vis_fresh_s (be_runtime be)) \<and>
    (case be_bridge be of None \<Rightarrow> True
     | Some (cfg, b) \<Rightarrow> check_bridge_config cfg = Inr () \<and> new_cmd_bridge cfg None (be_state be) = Inr b \<and>
         bridge_config.vis_fresh_s cfg = rt_vis_fresh_s (be_runtime be))"
proof -
  obtain u s where r: "state_reset clk s0 = (Inr u, s)"
    using assms by (auto simp: startup_def split: prod.splits sum.splits)
  with assms obtain rt br ti vi cb where
    rt: "read_runtime env = Inr rt" and br: "build_broadcaster env rt = Inr br" and
    cb: "when_enabled env ''BACKEND_CMD_BRIDGE_ENABLED''
      (build_cmd_bridge_from_env env (rt_cmd_hz rt) (rt_vis_fresh_s rt) s) = Inr cb" and
    be: "be = \<lparr> be_state = s, be_runtime = rt, be_hub = Some new_video_hub, be_broadcaster = Some br,
            be_tel = ti, be_vis = vi, be_bridge = cb \<rparr>"
    by (auto simp: startup_def)
  have "case cb of None \<Rightarrow> True
     | Some (cfg, b) \<Rightarrow> check_bridge_config cfg = Inr () \<and> new_cmd_bridge cfg None s = Inr b \<and>
         bridge_config.vis_fresh_s cfg = rt_vis_fresh_s rt"
    using cb by (auto dest!: when_enabled_Some build_bridge_ok split: option.splits)
  then show ?thesis
    using read_runtime_ok[OF rt] state_reset_blank[OF r] build_broadcaster_ok[of env rt "fst br" "snd br"] br
    unfolding be by (cases br) (auto cong: option.case_cong)
qed

definition default_runtime :: runtime where
  "default_runtime = \<lparr> enabled = True, fps = Fin 10, max_jpeg_bytes = 200000, frame_fresh_s = Fin 1,
     validate_decode = False, rt_cmd_hz = Fin 50, rt_tel_hz = Fin 50, rt_vis_fresh_s = Fin (1 / 4),
     rt_tel_fresh_s = Fin (1 / 2), frame_limiter = Some \<lparr> lim_capacity = Fin 30, lim_refill = Fin 30 \<rparr>,
     intent_limiter = Some \<lparr> lim_capacity = Fin 5, lim_refill = Fin 5 \<rparr>, api_token = None \<rparr>"

lemma default_runtime_read: "read_runtime (\<lambda>_. None) = Inr default_runtime"
proof -
  have "f64 (1 / 1000) = Fin (rnd (1 / 1000))" "rnd (1 / 1000) \<le> 1 / 2"
    using rnd_mono[of "1 / 1000" "1 / 2"] rnd_in_unit[of "1 / 1000"] big_bound[of "rnd (1 / 1000)"]
    by (auto intro!: f64_small)
  then show ?thesis
    by (auto simp: read_runtime_def read_env_float_def read_env_bool_def read_env_int_def read_env_token_def
        default_runtime_def make_limiter_def fmax_def VIDEO_MAX_JPEG_BYTES_DEFAULT_def)
qed

lemma default_startup:
  "\<exists>be cfg b0. startup (\<lambda>_. None) (Fin 12) s0 = Inr be \<and> be_bridge be = Some (cfg, b0) \<and> config_ok cfg"
proof -
  have "f64 12000 = Fin 12000" by simp
  then have i: "initial_cmd_seq (Fin 12) = Inr (12000 mod CMD_SEQ_MOD)"
    by (simp add: initial_cmd_seq_def trunc_real_def)
  then obtain s where "state_reset (Fin 12) s0 = (Inr (), s)"
    by (simp add: state_reset_def ebind_def elift_def emodify_def)
  then show ?thesis
    using big_bound[of 1] big_bound[of 5]
    by (simp add: startup_def default_runtime_read build_broadcaster_def new_ws_manager_def read_env_int_def
        read_env_float_def new_broadcaster_def check_broadcast_config_def when_enabled_def read_env_bool_def
        build_tel_ingestor_from_env_def build_vis_ingestor_from_env_def build_cmd_bridge_from_env_def
        new_cmd_bridge_def check_bridge_config_def protocol_constants default_runtime_def Let_def
        config_ok_def check_bridge_config_Inr)
qed

theorem startup_checked_witness:
  "\<exists>be. startup (\<lambda>_. None) (Fin 12) (fresh_state 7) = Inr be \<and> runtime_ok (be_runtime be) \<and>
     latest_intent (be_state be) = None"
proof -
  obtain be where b: "startup (\<lambda>_. None) (Fin 12) (fresh_state 7) = Inr be" using default_startup by blast
  then show ?thesis using startup_checked[OF b] by (auto simp: blank_state_def fresh_state_def)
qed

end
