(* ===== verification/App_Ws.thy ===== *)
theory App_Ws
  imports App_Startup
begin

section \<open>A WebSocket session\<close>

text \<open>
  \<open>ws_endpoint\<close> of \<open>src/src/backend/app.py\<close>. The session registers with the manager, sends the
  current link status, telemetry and vision as numbered envelopes of its own and then what its
  queue delivers, until the client goes away, which the code notices when a send raises
  \<open>WebSocketDisconnect\<close>: then the message it had numbered or taken from the queue is lost.
  Between any two of its steps other threads may operate on the manager and change the shared
  state; what they do, and which sends the client still takes, is the record \<open>session_env\<close>. A
  list of polls that ends before a send failed is a session that is cancelled.
\<close>

record session_env =
  before_link :: "ws_op list"
  link_state :: shared_state
  link_taken :: bool
  before_tel :: "ws_op list"
  tel_state :: shared_state
  tel_taken :: bool
  before_visu :: "ws_op list"
  visu_state :: shared_state
  visu_taken :: bool
  polls :: "(ws_op list \<times> bool) list" \<comment> \<open>what happens before a look at the queue, and whether a send succeeds\<close>

definition others :: "ws_op list \<Rightarrow> ws_manager \<Rightarrow> ws_manager" where
  "others ps m = run (\<lambda>m p. snd (ws_step p m)) m ps"

definition send_own ::
  "string \<Rightarrow> pydict option \<Rightarrow> pyfloat \<Rightarrow> bool \<Rightarrow> ws_manager \<Rightarrow> (pydict list \<times> bool) \<times> ws_manager" where
  \<comment> \<open>one of the initial messages, if there is something to send; \<open>False\<close>: the send raised\<close>
  "send_own event payload now_s taken m =
     (case payload of None \<Rightarrow> (([], True), m)
      | Some d \<Rightarrow> (case build_envelope event d now_s m of (e, m') \<Rightarrow> (if taken then ([e], True) else ([], False), m')))"

definition ws_hello ::
  "broadcast_config \<Rightarrow> (pyfloat \<Rightarrow> pydict) option \<Rightarrow> pyfloat \<Rightarrow> session_env \<Rightarrow> ws_manager
   \<Rightarrow> (pydict list \<times> bool) \<times> ws_manager" where
  "ws_hello cfg extra now_s env m =
     (let ((es1, ok1), m1) = send_own EVENT_LINK_STATUS
            (Some (build_link_status cfg extra now_s (link_state env))) now_s (link_taken env) (others (before_link env) m)
      in if \<not> ok1 then ((es1, False), m1)
      else let ((es2, ok2), m2) = send_own EVENT_TEL_UPDATE
            (build_tel_update_data now_s (tel_state env)) now_s (tel_taken env) (others (before_tel env) m1)
      in if \<not> ok2 then ((es1 @ es2, False), m2)
      else let ((es3, ok3), m3) = send_own EVENT_VIS_UPDATE
            (build_vis_update_data now_s (visu_state env)) now_s (visu_taken env) (others (before_visu env) m2)
      in ((es1 @ es2 @ es3, ok3), m3))"

fun ws_drain :: "int \<Rightarrow> (ws_op list \<times> bool) list \<Rightarrow> ws_manager \<Rightarrow> pydict list \<times> ws_manager" where
  "ws_drain cid [] m = ([], m)"
| "ws_drain cid ((ops, taken) # rest) m =
     (case pop_next cid (others ops m) of
        (None, m') \<Rightarrow> ws_drain cid rest m'
      | (Some e, m') \<Rightarrow> if \<not> taken then ([], m')
          else (case ws_drain cid rest m' of (es, m'') \<Rightarrow> (e # es, m'')))"

datatype ws_outcome =
  ClosedWith int
| Session "string option" "pydict list" \<comment> \<open>the protocol echoed and the messages sent\<close>

definition ws_session ::
  "string option \<Rightarrow> string list \<Rightarrow> nat \<Rightarrow> broadcast_config \<Rightarrow> (pyfloat \<Rightarrow> pydict) option \<Rightarrow> pyfloat
   \<Rightarrow> session_env \<Rightarrow> ws_manager option \<Rightarrow> (pyexc + ws_outcome) \<times> ws_manager option" where
  "ws_session token offered w cfg extra now_s env mgr =
     (case select_ws_subprotocol token offered of
        Inl e \<Rightarrow> (Inl e, mgr)
      | Inr (accept, echo) \<Rightarrow>
          if \<not> accept then (Inr (ClosedWith 4401), mgr)
          else (case mgr of
            None \<Rightarrow> (Inr (ClosedWith 1011), None)
          | Some m \<Rightarrow>
              (let (cid, m1) = register w m;
                   ((hello, greeted), m2) = ws_hello cfg extra now_s env m1;
                   (es, m3) = (if greeted then ws_drain cid (polls env) m2 else ([], m2))
               in (Inr (Session echo (hello @ es)), Some (unregister cid m3)))))"

subsection \<open>What a session leaves behind\<close>

fun keeps_sessions :: "ws_op \<Rightarrow> bool" where
  \<comment> \<open>another thread that neither opens nor closes a session\<close>
  "keeps_sessions (Register _) = False"
| "keeps_sessions (Unregister _) = False"
| "keeps_sessions _ = True"

definition quiet :: "session_env \<Rightarrow> bool" where
  "quiet env = (list_all keeps_sessions (before_link env) \<and> list_all keeps_sessions (before_tel env) \<and>
     list_all keeps_sessions (before_visu env) \<and> list_all (\<lambda>(ops, taken). list_all keeps_sessions ops) (polls env))"

definition same_sessions :: "ws_manager \<Rightarrow> ws_manager \<Rightarrow> bool" where
  "same_sessions m m' = (map fst (clients m') = map fst (clients m) \<and>
     next_client_id m' = next_client_id m \<and> queue_max m' = queue_max m)"

lemma same_sessions_refl: "same_sessions m m"
  by (simp add: same_sessions_def)

lemma same_sessions_trans: "same_sessions a b \<Longrightarrow> same_sessions b c \<Longrightarrow> same_sessions a c"
  by (simp add: same_sessions_def)

lemma pop_next_sessions: "same_sessions m (snd (pop_next i m))"
  by (auto simp: pop_next_def same_sessions_def map_of_update_keys split: option.splits)

lemma step_sessions: "keeps_sessions p \<Longrightarrow> same_sessions m (snd (ws_step p m))"
proof (cases p)
  case (Pop i)
  then show ?thesis using pop_next_sessions[of m i] by (simp add: split_beta)
qed (auto simp: same_sessions_def ws_broadcast_def build_envelope_def broadcast_envelope_def
      map_fst_map_snd simp del: map_map)

lemma others_sessions: "list_all keeps_sessions ps \<Longrightarrow> same_sessions m (others ps m)"
  unfolding others_def
proof (induction ps arbitrary: m)
  case (Cons p ps)
  then show ?case using step_sessions[of p m] same_sessions_trans by simp
qed (simp add: same_sessions_refl)

lemma send_own_sessions: "same_sessions m (snd (send_own ev p t taken m))"
  by (auto simp: send_own_def same_sessions_def build_envelope_def split: option.splits)

lemma drain_sessions: "list_all (\<lambda>(ops, taken). list_all keeps_sessions ops) ps \<Longrightarrow> same_sessions m (snd (ws_drain cid ps m))"
proof (induction ps arbitrary: m)
  case (Cons q ps)
  obtain ops taken where q: "q = (ops, taken)" by fastforce
  obtain x m' where p: "pop_next cid (others ops m) = (x, m')" by fastforce
  have "same_sessions m m'"
    using Cons.prems others_sessions[of ops m] pop_next_sessions[of "others ops m" cid] p q
    by (auto intro: same_sessions_trans)
  then have "same_sessions m (snd (ws_drain cid ps m'))" "same_sessions m m'"
    using Cons same_sessions_trans by auto
  then show ?case using p q by (cases x) (auto split: prod.splits)
qed (simp add: same_sessions_refl)

lemma hello_sessions: "quiet env \<Longrightarrow> same_sessions m (snd (ws_hello cfg extra t env m))"
proof -
  assume q: "quiet env"
  have sent: "same_sessions m m'" if "send_own ev p t taken (others ops n) = (x, m')" "same_sessions m n"
      "list_all keeps_sessions ops" for ev p taken ops n x m'
    using send_own_sessions[of "others ops n" ev p t taken] others_sessions[OF that(3), of n] that(1,2)
    by (metis same_sessions_trans snd_conv)
  show ?thesis using q by (auto simp: ws_hello_def quiet_def Let_def split: prod.split) (blast intro: sent same_sessions_refl)+
qed

lemma register_unregister:
  assumes "ids_ok m" "register w m = (cid, m1)" "same_sessions m1 m3"
  shows "map fst (clients (unregister cid m3)) = map fst (clients m)"
proof -
  have cid: "cid = next_client_id m" "cid \<notin> set (map fst (clients m))"
    using assms(1,2) by (auto simp: register_def Let_def ids_ok_def list_all_iff)
  have "map fst (AList.update cid v d) = map fst d @ [cid]" if "cid \<notin> set (map fst d)" for v and d :: "(int \<times> client_queue) list"
    using that by (induction d) auto
  then have k: "map fst (clients m3) = map fst (clients m) @ [cid]"
    using assms(2,3) cid by (auto simp: register_def Let_def same_sessions_def)
  have "map fst (AList.delete cid d) = filter (\<lambda>i. i \<noteq> cid) (map fst d)" for d :: "(int \<times> client_queue) list"
    by (induction d) (auto simp: AList.delete_eq)
  moreover have "filter (\<lambda>i. i \<noteq> cid) (map fst (clients m)) = map fst (clients m)"
    using cid(2) by (intro filter_True) auto
  ultimately show ?thesis using k by (simp add: unregister_def)
qed

text \<open>
  Sessions are closed behind themselves. An upgrade without the token is closed with 4401
  and learns nothing. An authorised session first sends the link status, and once its client is
  gone, be it before the first message, the registered clients are those there were before it, whatever the broadcasting threads
  did meanwhile, so a client that reconnects for ever does not fill the manager.
\<close>

theorem ws_session_closed_behind:
  assumes "ids_ok m" "quiet env"
  shows "case ws_session token offered w cfg extra now_s env (Some m) of
      (Inl e, mgr) \<Rightarrow> e = TypeError \<and> mgr = Some m
    | (Inr (ClosedWith code), mgr) \<Rightarrow> code = 4401 \<and> mgr = Some m \<and> token \<noteq> None
    | (Inr (Session echo msgs), mgr) \<Rightarrow>
        (\<exists>m'. mgr = Some m' \<and>
           (case msgs of [] \<Rightarrow> \<not> link_taken env | e # es \<Rightarrow> dget e ''event'' = Some (PStr EVENT_LINK_STATUS)) \<and>
           map fst (clients m') = map fst (clients m) \<and> client_count m' = client_count m) \<and>
        (case token of None \<Rightarrow> True | Some t \<Rightarrow> WS_BEARER_PREFIX @ t \<in> set offered)"
proof (cases "select_ws_subprotocol token offered")
  case (Inl e)
  have "first_bearer t ps = Inl e \<Longrightarrow> e = TypeError" for t ps
    by (induction ps) (auto simp: compare_digest_def rbind_Inl_iff split: if_splits)
  then show ?thesis using Inl by (auto simp: ws_session_def select_ws_subprotocol_def split: option.splits)
next
  case (Inr r)
  obtain acc echo where r: "r = (acc, echo)" by fastforce
  have tok: "case token of None \<Rightarrow> acc | Some t \<Rightarrow> acc = (WS_BEARER_PREFIX @ t \<in> set offered)"
    using Inr first_bearer_Inr unfolding r
    by (auto simp: select_ws_subprotocol_def split: option.splits)
  show ?thesis
  proof (cases acc)
    case True
    obtain cid m1 where 1: "register w m = (cid, m1)" by fastforce
    obtain hello greeted m2 where 2: "ws_hello cfg extra now_s env m1 = ((hello, greeted), m2)" by (metis surj_pair)
    obtain es m3 where 3: "(if greeted then ws_drain cid (polls env) m2 else ([], m2)) = (es, m3)" by fastforce
    have "same_sessions m1 m3"
      using hello_sessions[OF assms(2), of m1 cfg extra now_s] drain_sessions[of "polls env" m2 cid] assms(2) 2 3
      by (auto simp: quiet_def intro: same_sessions_trans split: if_splits)
    note keys = register_unregister[OF assms(1) 1 this]
    have "case hello of [] \<Rightarrow> \<not> link_taken env \<and> \<not> greeted | e # es \<Rightarrow> dget e ''event'' = Some (PStr EVENT_LINK_STATUS)"
      using 2 by (auto simp: ws_hello_def send_own_def build_envelope_def Let_def split: prod.splits option.splits if_splits)
    then have "case hello @ es of [] \<Rightarrow> \<not> link_taken env | e # es \<Rightarrow> dget e ''event'' = Some (PStr EVENT_LINK_STATUS)"
      using 3 by (auto split: list.splits)
    moreover have "client_count (unregister cid m3) = client_count m"
      using keys unfolding client_count_def by (metis length_map)
    ultimately show ?thesis
      using Inr 1 2 3 True keys tok unfolding r by (auto simp: ws_session_def split: option.splits)
  next
    case False
    then have "token \<noteq> None" using tok by (cases token) simp_all
    then show ?thesis using Inr r False by (simp add: ws_session_def)
  qed
qed

definition idle_env :: session_env where
  "idle_env = \<lparr> before_link = [Broadcast ''WARNING'' [] (Fin 0)], link_state = fresh_state 0, link_taken = True,
     before_tel = [], tel_state = fresh_state 0, tel_taken = True, before_visu = [], visu_state = fresh_state 0,
     visu_taken = True, polls = [([], True), ([], True)] \<rparr>"

definition lone_manager :: ws_manager where
  "lone_manager = \<lparr> queue_max = 2, clients = [], next_client_id = 1, next_event_seq = 5 \<rparr>"

definition idle_config :: broadcast_config where
  "idle_config = \<lparr> broadcast_config.tel_hz = Fin 20, vis_hz = Fin 20, link_hz = Fin 2, bc_vis_fresh_s = Fin 1,
     tel_fresh_s = Fin 1, cmd_timeout_s = Fin 1, cmd_hz_nominal = Fin 50, tel_hz_nominal = Fin 50,
     warning_min_interval_s = Fin 2 \<rparr>"

theorem ws_session_closed_behind_witness:
  "\<exists>echo msgs m'. ws_session None [''chat''] 0 idle_config None (Fin 1) idle_env (Some lone_manager)
     = (Inr (Session echo msgs), Some m') \<and> client_count m' = 0"
proof -
  have "ids_ok lone_manager" "quiet idle_env"
    by (simp_all add: ids_ok_def lone_manager_def quiet_def idle_env_def)
  note s = ws_session_closed_behind[OF this, of None "[''chat'']" 0 idle_config None "Fin 1"]
  have "client_count lone_manager = 0" by (simp add: client_count_def lone_manager_def)
  moreover obtain x mgr where x: "ws_session None [''chat''] 0 idle_config None (Fin 1) idle_env (Some lone_manager)
      = (x, mgr)" by fastforce
  ultimately show ?thesis using s
    by (auto simp: ws_session_def select_ws_subprotocol_def split: prod.splits)
qed

text \<open>
  A new client sees the numbers go backwards. A broadcast after the registration takes a
  number, the session's own first message takes a later one, and the own message is sent first:
  the client receives 6 and then 5, although the numbers are meant to increase on a connection.
\<close>

theorem ws_session_starts_out_of_order:
  "\<exists>msgs mgr. ws_session None [] 0 idle_config None (Fin 1) idle_env (Some lone_manager)
      = (Inr (Session None msgs), mgr) \<and> map env_seq msgs = [6, 5]"
  by (simp add: ws_session_def select_ws_subprotocol_def ws_hello_def send_own_def others_def
      idle_env_def lone_manager_def register_def unregister_def ws_broadcast_def build_envelope_def
      broadcast_envelope_def enqueue_def pop_next_def dequeue_def build_tel_update_data_def
      build_vis_update_data_def get_latest_tel_with_meta_def get_latest_vis_with_meta_def fresh_state_def Let_def)

end
