(* ===== verification/Synthetic_Video.thy ===== *)
theory Synthetic_Video
  imports App_Video State_Views
begin

section \<open>The synthetic video\<close>

text \<open>
  \<open>SyntheticJpegGenerator\<close> of \<open>src/src/backend/video_hub.py\<close> and \<open>_render_synthetic_frame\<close> of
  \<open>app.py\<close>: what a viewer gets while there is no fresh frame. Pillow is the argument \<open>pillow\<close>: it
  turns the drawing calls and the quality into bytes, and \<open>None\<close> is its absence, for which the
  module carries a JPEG as base64 text. \<open>fmt\<close> is the formatting of a float with a number of
  decimals and \<open>date\<close> the text of the local time.
\<close>

subsection \<open>The frame without Pillow\<close>

definition B64_ALPHABET :: string where
  "B64_ALPHABET = ''ABCDEFGHIJKLMNOPQRSTUVWXYZabcdefghijklmnopqrstuvwxyz0123456789+/''"

definition b64_val :: "char \<Rightarrow> nat option" where
  "b64_val c = map_of (zip B64_ALPHABET [0..<64]) c"

fun b64_decode :: "string \<Rightarrow> nat list option" where
  \<comment> \<open>\<open>base64.b64decode\<close> on text without foreign characters, as here\<close>
  "b64_decode [] = Some []"
| "b64_decode [a, b, c, d] =
     (case (b64_val a, b64_val b, b64_val c, b64_val d) of
        (Some w, Some x, Some y, Some z) \<Rightarrow> Some [w * 4 + x div 16, (x mod 16) * 16 + y div 4, (y mod 4) * 64 + z]
      | (Some w, Some x, Some y, None) \<Rightarrow>
          if d = CHR ''='' then Some [w * 4 + x div 16, (x mod 16) * 16 + y div 4] else None
      | (Some w, Some x, None, None) \<Rightarrow>
          if c = CHR ''='' \<and> d = CHR ''='' then Some [w * 4 + x div 16] else None
      | _ \<Rightarrow> None)"
| "b64_decode (a # b # c # d # rest) =
     (case (b64_val a, b64_val b, b64_val c, b64_val d, b64_decode rest) of
        (Some w, Some x, Some y, Some z, Some bs) \<Rightarrow>
          Some ([w * 4 + x div 16, (x mod 16) * 16 + y div 4, (y mod 4) * 64 + z] @ bs)
      | _ \<Rightarrow> None)"
| "b64_decode _ = None"

definition STATIC_JPEG_TEXT :: string where
  "STATIC_JPEG_TEXT =
     ''/9j/4AAQSkZJRgABAQAAAQABAAD/2wBDAAoHBwgHBgoICAgLCgoLDhgQDg0NDh0VFhEYIx8lJCIf'' @
     ''IiEmKzcvJik0KSEiMEExNDk7Pj4+JS5ESUM8SDc9Pjv/2wBDAQoLCw4NDhwQEBw7KCIoOzs7Ozs7Ozs7'' @
     ''Ozs7Ozs7Ozs7Ozs7Ozs7Ozs7Ozs7Ozs7Ozs7Ozs7Ozs7Ozs7Ozs7Ozv/wAARCAABAAEDASIAAhEBAxEB'' @
     ''/8QAHwAAAQUBAQEBAQEAAAAAAAAAAAECAwQFBgcICQoL/8QAtRAAAgEDAwIEAwUFBAQAAAF9AQIDAAQR'' @
     ''BRIhMUEGE1FhByJxFDKBkaEII0KxwRVS0fAkM2JyggkKFhcYGRolJicoKSo0NTY3ODk6Q0RFRkdISUpT'' @
     ''VFVWV1hZWmNkZWZnaGlqc3R1dnd4eXqDhIWGh4iJipKTlJWWl5iZmqKjpKWmp6ipqrKztLW2t7i5usLD'' @
     ''xMXGx8jJytLT1NXW19jZ2uHi4+Tl5ufo6erx8vP09fb3+Pn6/8QAHwEAAwEBAQEBAQEBAQAAAAAAAAEC'' @
     ''AwQFBgcICQoL/8QAtREAAgECBAQDBAcFBAQAAQJ3AAECAxEEBSExBhJBUQdhcRMiMoEIFEKRobHBCSMz'' @
     ''UvAVYnLRChYkNOEl8RcYGRomJygpKjU2Nzg5OkNERUZHSElKU1RVVldYWVpjZGVmZ2hpanN0dXZ3eHl6'' @
     ''goOEhYaHiImKkpOUlZaXmJmaoqOkpaanqKmqsrO0tba3uLm6wsPExcbHyMnK0tPU1dbX2Nna4uPk5ebn'' @
     ''6Onq8vP09fb3+Pn6/9oADAMBAAIRAxEAPwD2aiiigD//2Q==''"

definition STATIC_JPEG_BYTES :: "nat list" where
  "STATIC_JPEG_BYTES = (case b64_decode STATIC_JPEG_TEXT of None \<Rightarrow> [] | Some bs \<Rightarrow> bs)"

subsection \<open>Drawing\<close>

record generator =
  gen_width :: int
  gen_height :: int
  gen_quality :: int

definition default_generator :: generator where
  "default_generator = \<lparr> gen_width = 640, gen_height = 360, gen_quality = 75 \<rparr>"

datatype paint =
  NewImage int int
| Outline int int int int int \<comment> \<open>corners and line width\<close>
| TextAt int int string

definition text_lines :: "(nat \<Rightarrow> pyfloat \<Rightarrow> string) \<Rightarrow> string \<Rightarrow> pyfloat \<Rightarrow> string list \<Rightarrow> string list" where
  "text_lines fmt date now_s lines =
     [''AOT_DRONE'', ''synthetic feed '' @ date, ''mono '' @ fmt 3 now_s] @ take 3 lines"

fun text_calls :: "int \<Rightarrow> string list \<Rightarrow> paint list" where
  "text_calls y [] = []"
| "text_calls y (line # rest) = TextAt 24 y line # text_calls (y + 24) rest"

definition render ::
  "(paint list \<Rightarrow> int \<Rightarrow> nat list) option \<Rightarrow> (nat \<Rightarrow> pyfloat \<Rightarrow> string) \<Rightarrow> string \<Rightarrow> generator
   \<Rightarrow> pyfloat \<Rightarrow> string list \<Rightarrow> nat list" where
  "render pillow fmt date g now_s lines =
     (case pillow of
        None \<Rightarrow> STATIC_JPEG_BYTES
      | Some paint_jpeg \<Rightarrow>
          paint_jpeg ([NewImage (gen_width g) (gen_height g),
            Outline 0 0 (gen_width g - 1) (gen_height g - 1) 3,
            Outline 10 10 (gen_width g - 10) (gen_height g - 10) 1] @
            text_calls 28 (text_lines fmt date now_s lines)) (gen_quality g))"

subsection \<open>The frame of the stream\<close>

definition synthetic_lines :: "(nat \<Rightarrow> pyfloat \<Rightarrow> string) \<Rightarrow> pydict \<Rightarrow> string list" where
  \<comment> \<open>the age of the link status is a float or \<open>None\<close>, so the ints \<open>isinstance\<close> accepts do not occur\<close>
  "synthetic_lines fmt link_status =
     (let fc = (case dget link_status ''fc_connected'' of None \<Rightarrow> False | Some v \<Rightarrow> py_bool v);
          label = (case dget link_status ''vis_age_s'' of Some (PFloat a) \<Rightarrow> fmt 2 a @ ''s'' | _ \<Rightarrow> ''n/a'')
      in [''fc_connected='' @ (if fc then ''True'' else ''False''), ''vis_age_s='' @ label])"

definition render_synthetic_frame ::
  "(paint list \<Rightarrow> int \<Rightarrow> nat list) option \<Rightarrow> (nat \<Rightarrow> pyfloat \<Rightarrow> string) \<Rightarrow> string \<Rightarrow> generator option
   \<Rightarrow> pyfloat \<times> pyfloat \<times> pyfloat \<times> pyfloat \<times> pyfloat \<Rightarrow> shared_state \<Rightarrow> pyfloat \<Rightarrow> nat list" where
  "render_synthetic_frame pillow fmt date g = (\<lambda>(vis_fresh, tel_fresh, cmd_timeout, cmd_hz, tel_hz) s now_s.
     render pillow fmt date (case g of None \<Rightarrow> default_generator | Some x \<Rightarrow> x) now_s
       (synthetic_lines fmt (get_link_status vis_fresh tel_fresh cmd_timeout cmd_hz tel_hz now_s s)))"

subsection \<open>What viewers get\<close>

lemma b64_vals:
  "b64_val (CHR ''A'') = Some 0" "b64_val (CHR ''B'') = Some 1" "b64_val (CHR ''C'') = Some 2"
  "b64_val (CHR ''D'') = Some 3" "b64_val (CHR ''E'') = Some 4" "b64_val (CHR ''F'') = Some 5"
  "b64_val (CHR ''G'') = Some 6" "b64_val (CHR ''H'') = Some 7" "b64_val (CHR ''I'') = Some 8"
  "b64_val (CHR ''J'') = Some 9" "b64_val (CHR ''K'') = Some 10" "b64_val (CHR ''L'') = Some 11"
  "b64_val (CHR ''M'') = Some 12" "b64_val (CHR ''N'') = Some 13" "b64_val (CHR ''O'') = Some 14"
  "b64_val (CHR ''P'') = Some 15" "b64_val (CHR ''Q'') = Some 16" "b64_val (CHR ''R'') = Some 17"
  "b64_val (CHR ''S'') = Some 18" "b64_val (CHR ''T'') = Some 19" "b64_val (CHR ''U'') = Some 20"
  "b64_val (CHR ''V'') = Some 21" "b64_val (CHR ''W'') = Some 22" "b64_val (CHR ''X'') = Some 23"
  "b64_val (CHR ''Y'') = Some 24" "b64_val (CHR ''Z'') = Some 25" "b64_val (CHR ''a'') = Some 26"
  "b64_val (CHR ''b'') = Some 27" "b64_val (CHR ''c'') = Some 28" "b64_val (CHR ''d'') = Some 29"
  "b64_val (CHR ''e'') = Some 30" "b64_val (CHR ''f'') = Some 31" "b64_val (CHR ''g'') = Some 32"
  "b64_val (CHR ''h'') = Some 33" "b64_val (CHR ''i'') = Some 34" "b64_val (CHR ''j'') = Some 35"
  "b64_val (CHR ''k'') = Some 36" "b64_val (CHR ''l'') = Some 37" "b64_val (CHR ''m'') = Some 38"
  "b64_val (CHR ''n'') = Some 39" "b64_val (CHR ''o'') = Some 40" "b64_val (CHR ''p'') = Some 41"
  "b64_val (CHR ''q'') = Some 42" "b64_val (CHR ''r'') = Some 43" "b64_val (CHR ''s'') = Some 44"
  "b64_val (CHR ''t'') = Some 45" "b64_val (CHR ''u'') = Some 46" "b64_val (CHR ''v'') = Some 47"
  "b64_val (CHR ''w'') = Some 48" "b64_val (CHR ''x'') = Some 49" "b64_val (CHR ''y'') = Some 50"
  "b64_val (CHR ''z'') = Some 51" "b64_val (CHR ''0'') = Some 52" "b64_val (CHR ''1'') = Some 53"
  "b64_val (CHR ''2'') = Some 54" "b64_val (CHR ''3'') = Some 55" "b64_val (CHR ''4'') = Some 56"
  "b64_val (CHR ''5'') = Some 57" "b64_val (CHR ''6'') = Some 58" "b64_val (CHR ''7'') = Some 59"
  "b64_val (CHR ''8'') = Some 60" "b64_val (CHR ''9'') = Some 61" "b64_val (CHR ''+'') = Some 62"
  "b64_val (CHR ''/'') = Some 63" "b64_val (CHR ''='') = None"
  by code_simp+

lemma static_is_jpeg: "looks_like_jpeg STATIC_JPEG_BYTES"
  unfolding STATIC_JPEG_BYTES_def STATIC_JPEG_TEXT_def append.simps
  by (simp add: b64_vals looks_like_jpeg_def)

lemma synthetic_age_text:
  "synthetic_lines fmt (get_link_status vf tf ct ch th now_s s) =
     [''fc_connected='' @ (if fc_connected s then ''True'' else ''False''),
      ''vis_age_s='' @ (case get_vis_age_s now_s s of None \<Rightarrow> ''n/a'' | Some a \<Rightarrow> fmt 2 a @ ''s'')]"
  by (simp add: synthetic_lines_def get_link_status_def get_vis_age_s_def opt_val_def Let_def split: option.split)

definition pillow_ok :: "(paint list \<Rightarrow> int \<Rightarrow> nat list) option \<Rightarrow> bool" where
  \<comment> \<open>Pillow, where it is installed, saves JPEG files\<close>
  "pillow_ok pillow = (case pillow of None \<Rightarrow> True | Some p \<Rightarrow> \<forall>calls q. looks_like_jpeg (p calls q))"

lemma synthetic_is_jpeg:
  "pillow_ok pillow \<Longrightarrow> looks_like_jpeg (render_synthetic_frame pillow fmt date g cfg s now_s)"
  by (cases cfg) (auto simp: render_synthetic_frame_def render_def pillow_ok_def static_is_jpeg split: option.splits)

definition hub_jpeg :: "video_hub \<Rightarrow> bool" where
  "hub_jpeg h = (case latest_jpeg h of None \<Rightarrow> True | Some f \<Rightarrow> looks_like_jpeg f)"

fun jpeg_op :: "hub_op \<Rightarrow> bool" where
  "jpeg_op (HubSet f _) = looks_like_jpeg f"
| "jpeg_op _ = True"

lemma served_jpeg: "hub_jpeg (snd (record_frame_served t h)) = hub_jpeg h"
  by (auto simp: hub_jpeg_def record_frame_served_def Let_def split: option.splits)

lemma run_jpeg: "list_all jpeg_op ops \<Longrightarrow> hub_jpeg h \<Longrightarrow> hub_jpeg (run hub_step h ops)"
proof (induction ops arbitrary: h)
  case (Cons p ops)
  have "hub_jpeg (hub_step h p)" using Cons.prems
    by (cases p) (simp_all add: served_jpeg, simp_all add: hub_jpeg_def set_jpeg_def record_bad_frame_def
        register_client_def unregister_client_def)
  then show ?case using Cons by simp
qed simp

lemma fresh_is_latest: "get_fresh_jpeg m t h = Some f \<Longrightarrow> hub_jpeg h \<Longrightarrow> looks_like_jpeg f"
  by (auto simp: get_fresh_jpeg_def hub_jpeg_def Let_def split: option.splits if_splits)

definition jpeg_part :: "nat list \<Rightarrow> bool" where
  "jpeg_part p = (\<exists>f. looks_like_jpeg f \<and> p = make_mjpeg_part f ''frame'')"

lemma stream_parts_jpeg:
  assumes "\<And>t. looks_like_jpeg (synthetic t)"
  shows "list_all (\<lambda>it. list_all jpeg_op (fst it)) its \<Longrightarrow> hub_jpeg h \<Longrightarrow>
    stream_parts cfg synthetic mp k its h = (Inr ps, h') \<Longrightarrow> list_all jpeg_part ps \<and> hub_jpeg h'"
proof (induction its arbitrary: k h ps)
  case (Cons it its)
  have r: "hub_jpeg (run hub_step h (fst it))" using Cons.prems by (simp add: run_jpeg)
  have i: "hub_jpeg (iteration_hub it h)" using r by (simp add: iteration_hub_def served_jpeg)
  have "looks_like_jpeg (case get_fresh_jpeg (frame_fresh_s cfg) (snd it) (run hub_step h (fst it)) of
      None \<Rightarrow> synthetic (snd it) | Some f \<Rightarrow> f)"
    using assms fresh_is_latest[OF _ r] by (simp split: option.split)
  then have p: "jpeg_part (iteration_part cfg synthetic it h)"
    unfolding jpeg_part_def iteration_part_def by blast
  show ?case using Cons.prems Cons.IH[OF _ i] i p
    by (auto simp: stream_parts_Cons ebind_def ereturn_def split: if_splits prod.splits sum.splits)
qed simp

text \<open>
  A viewer gets JPEG parts only. If the frames other threads store have passed the frame
  route's check, and Pillow, where it is installed, saves JPEG files, then every part a stream
  yields wraps a body with the JPEG markers: the stored frame while it is fresh, the drawn one
  otherwise, and the built-in one without Pillow.
\<close>

theorem viewers_get_jpegs:
  assumes "hub_jpeg h" "list_all (\<lambda>it. list_all jpeg_op (fst it)) its" "pillow_ok pillow"
    and "video_stream cfg (\<lambda>t. render_synthetic_frame pillow fmt (date t) g limits (st t) t) max_parts its (Some h) =
      (Inr ps, hub')"
  shows "list_all (\<lambda>p. \<exists>f. looks_like_jpeg f \<and> p = make_mjpeg_part f ''frame'') ps \<and>
    (case hub' of None \<Rightarrow> False | Some h' \<Rightarrow> hub_jpeg h')"
proof -
  have "hub_jpeg (register_client h)" using assms(1) by (simp add: hub_jpeg_def register_client_def)
  note parts = stream_parts_jpeg[of "\<lambda>t. render_synthetic_frame pillow fmt (date t) g limits (st t) t",
      OF synthetic_is_jpeg[OF assms(3)] assms(2) this]
  show ?thesis using assms(4) parts
    by (fastforce simp: video_stream_def jpeg_part_def[abs_def] hub_jpeg_def unregister_client_def
        split: if_splits option.splits prod.splits)
qed

theorem viewers_get_jpegs_witness:
  "\<exists>ps hub'. video_stream \<lparr> enabled = True, fps = Fin 10, max_jpeg_bytes = 9, frame_fresh_s = Fin 1, validate_decode = False \<rparr>
      (\<lambda>t. render_synthetic_frame None (\<lambda>_ _. ''0'') ''now'' None (Fin 1, Fin 1, Fin 1, Fin 1, Fin 1) (fresh_state 0) t)
      (Some 1) [([HubSet [0xFF, 0xD8, 0xFF, 0xD9] (Fin 1)], Fin 1)] (Some new_video_hub) = (Inr ps, hub') \<and>
     length ps = 1 \<and> list_all (\<lambda>p. \<exists>f. looks_like_jpeg f \<and> p = make_mjpeg_part f ''frame'') ps"
proof -
  let ?cfg = "\<lparr> enabled = True, fps = Fin 10, max_jpeg_bytes = 9, frame_fresh_s = Fin 1, validate_decode = False \<rparr>"
  let ?syn = "\<lambda>t. render_synthetic_frame None (\<lambda>_ _. ''0'') ''now'' None (Fin 1, Fin 1, Fin 1, Fin 1, Fin 1) (fresh_state 0) t"
  let ?its = "[([HubSet [0xFF, 0xD8, 0xFF, 0xD9] (Fin 1)], Fin 1)]"
  obtain period where "fdiv (Fin 1) (fps ?cfg) = Some period" by (rule fdiv_pos[of "fps ?cfg"]) simp
  then obtain ps hub' where r: "video_stream ?cfg ?syn (Some 1) ?its (Some new_video_hub) = (Inr ps, hub')" "length ps = 1"
    by (simp add: video_stream_def stream_parts_Cons)
  have "hub_jpeg new_video_hub" "list_all (\<lambda>it. list_all jpeg_op (fst it)) ?its" "pillow_ok None"
    by (simp_all add: hub_jpeg_def new_video_hub_def looks_like_jpeg_def pillow_ok_def)
  from viewers_get_jpegs[OF this r(1)] r show ?thesis by blast
qed

end
