(* ===== verification/Vision_Args.thy ===== *)
theory Vision_Args
  imports Protocol_Constants Py_Text Camera Patterns Opencv_Tracker
begin

section \<open>The vision process's options\<close>

text \<open>
  \<open>parse_args\<close> of \<open>src/src/vision/main.py\<close>: the defaults, which come partly from environment
  variables, the options, the checks, and the pipeline settings that \<open>run_loop\<close> derives.
  argparse's splitting of the command line into options and their texts comes before
  \<open>set_option\<close> (\<open>--a=b\<close>, abbreviations, \<open>--help\<close>); what it does with an option is modelled: the
  conversion by \<open>type\<close>, the check against \<open>choices\<close>, and the exit with status 2 when either
  fails, which is not an \<open>Exception\<close>.
\<close>

definition MODE_CHOICES :: "string list" where
  "MODE_CHOICES = [''pattern'', ''detect'']"

record vision_config =
  source_arg :: string           \<comment> \<open>\<open>source\<close>\<close>
  mode :: string
  vis_hz :: pyfloat
  frame_fps :: pyfloat
  jpeg_quality :: int
  backend_http :: string
  backend_frame_endpoint :: string
  backend_video_max_jpeg_bytes :: int
  vis_udp_host :: string
  vis_udp_port :: int
  pattern_mode :: string         \<comment> \<open>\<open>pattern\<close>\<close>
  no_frame_push :: bool
  no_vis_udp :: bool
  preview :: bool
  max_frames :: "int option"
  model_path :: string
  target_class :: int
  conf_threshold :: pyfloat
  tracker_arg :: string          \<comment> \<open>\<open>tracker\<close>\<close>
  infer_width :: int
  infer_size :: "int option"
  detect_every_n :: int
  detect_hold_n :: int
  search_n :: int
  desired_cx :: pyfloat
  desired_cy :: pyfloat
  no_output :: bool
  output_spec :: "string option" \<comment> \<open>\<open>output\<close>\<close>

subsection \<open>Environment variables\<close>

definition vision_env_str :: "environ \<Rightarrow> string \<Rightarrow> string \<Rightarrow> string" where
  "vision_env_str env name d =
     (case env name of None \<Rightarrow> d | Some v \<Rightarrow> if strip v = [] then d else strip v)"

definition vision_env_int :: "environ \<Rightarrow> string \<Rightarrow> int \<Rightarrow> pyexc + int" where
  \<comment> \<open>unlike the backend's reader, blank text counts as unset\<close>
  "vision_env_int env name d =
     (case env name of None \<Rightarrow> Inr d | Some v \<Rightarrow> if strip v = [] then Inr d else int_of_text (strip v))"

definition vision_env_float :: "environ \<Rightarrow> string \<Rightarrow> pyfloat \<Rightarrow> pyexc + pyfloat" where
  "vision_env_float env name d =
     (case env name of None \<Rightarrow> Inr d | Some v \<Rightarrow> if strip v = [] then Inr d else float_of_text (strip v))"

subsection \<open>The options\<close>

definition default_args :: "environ \<Rightarrow> pyexc + vision_config" where
  \<comment> \<open>the \<open>default=\<close> of every option, evaluated in the order of the \<open>add_argument\<close> calls\<close>
  "default_args env =
     (let http = vision_env_str env ''VISION_BACKEND_HTTP'' ''http://127.0.0.1:8000'';
          host = vision_env_str env ''VISION_VIS_UDP_HOST'' ''127.0.0.1''
      in rbind (vision_env_int env ''VISION_VIS_UDP_PORT'' 9003) (\<lambda>port.
         rbind (vision_env_float env ''VISION_VIS_HZ'' (Fin 20)) (\<lambda>hz.
         rbind (vision_env_float env ''VISION_FRAME_FPS'' (Fin 10)) (\<lambda>rate.
         rbind (vision_env_int env ''VISION_JPEG_QUALITY'' 80) (\<lambda>quality.
         Inr \<lparr> source_arg = ''webcam:0'', mode = ''detect'', vis_hz = hz, frame_fps = rate,
           jpeg_quality = quality, backend_http = http, backend_frame_endpoint = ''/api/frame'',
           backend_video_max_jpeg_bytes = VIDEO_MAX_JPEG_BYTES_DEFAULT, vis_udp_host = host, vis_udp_port = port,
           pattern_mode = ''none'', no_frame_push = False, no_vis_udp = False, preview = False,
           max_frames = None, model_path = ''yolov8n.pt'', target_class = 0, conf_threshold = Fin (1 / 2),
           tracker_arg = ''kcf'', infer_width = 640, infer_size = None, detect_every_n = 1,
           detect_hold_n = 30, search_n = 30, desired_cx = Fin (1 / 2), desired_cy = Fin (1 / 2),
           no_output = False, output_spec = None \<rparr>)))))"

definition usage_exit :: "pyexc + 'a \<Rightarrow> pyexc + 'a" where
  \<comment> \<open>argparse turns a failed conversion into an exit with status 2\<close>
  "usage_exit r = (case r of Inl _ \<Rightarrow> Inl (SystemExit 2) | Inr v \<Rightarrow> Inr v)"

definition chosen :: "string list \<Rightarrow> string \<Rightarrow> pyexc + string" where
  "chosen choices v = (if v \<in> set choices then Inr v else Inl (SystemExit 2))"

definition set_option :: "string \<times> string \<Rightarrow> vision_config \<Rightarrow> pyexc + vision_config" where
  \<comment> \<open>one option; a flag comes with an empty text\<close>
  "set_option = (\<lambda>(opt, v) a.
     let as_int = (\<lambda>upd. rbind (usage_exit (int_of_text v)) (\<lambda>n. Inr (upd n)));
         as_float = (\<lambda>upd. rbind (usage_exit (float_of_text v)) (\<lambda>x. Inr (upd x)));
         as_choice = (\<lambda>cs upd. rbind (chosen cs v) (\<lambda>x. Inr (upd x)))
     in if opt = ''--source'' then Inr (a\<lparr> source_arg := v \<rparr>)
     else if opt = ''--mode'' then as_choice MODE_CHOICES (\<lambda>x. a\<lparr> mode := x \<rparr>)
     else if opt = ''--backend-http'' then Inr (a\<lparr> backend_http := v \<rparr>)
     else if opt = ''--backend-frame-endpoint'' then Inr (a\<lparr> backend_frame_endpoint := v \<rparr>)
     else if opt = ''--vis-udp-host'' then Inr (a\<lparr> vis_udp_host := v \<rparr>)
     else if opt = ''--vis-udp-port'' then as_int (\<lambda>n. a\<lparr> vis_udp_port := n \<rparr>)
     else if opt = ''--vis-hz'' then as_float (\<lambda>x. a\<lparr> vis_hz := x \<rparr>)
     else if opt = ''--frame-fps'' then as_float (\<lambda>x. a\<lparr> frame_fps := x \<rparr>)
     else if opt = ''--jpeg-quality'' then as_int (\<lambda>n. a\<lparr> jpeg_quality := n \<rparr>)
     else if opt = ''--pattern'' then as_choice PATTERN_CHOICES (\<lambda>x. a\<lparr> pattern_mode := x \<rparr>)
     else if opt = ''--model-path'' then Inr (a\<lparr> model_path := v \<rparr>)
     else if opt = ''--target-class'' then as_int (\<lambda>n. a\<lparr> target_class := n \<rparr>)
     else if opt = ''--conf-threshold'' then as_float (\<lambda>x. a\<lparr> conf_threshold := x \<rparr>)
     else if opt = ''--tracker'' then as_choice TRACKER_CHOICES (\<lambda>x. a\<lparr> tracker_arg := x \<rparr>)
     else if opt = ''--infer-width'' then as_int (\<lambda>n. a\<lparr> infer_width := n \<rparr>)
     else if opt = ''--infer-size'' then as_int (\<lambda>n. a\<lparr> infer_size := Some n \<rparr>)
     else if opt = ''--detect-every-n'' then as_int (\<lambda>n. a\<lparr> detect_every_n := n \<rparr>)
     else if opt = ''--detect-hold-n'' then as_int (\<lambda>n. a\<lparr> detect_hold_n := n \<rparr>)
     else if opt = ''--search-n'' then as_int (\<lambda>n. a\<lparr> search_n := n \<rparr>)
     else if opt = ''--desired-cx'' then as_float (\<lambda>x. a\<lparr> desired_cx := x \<rparr>)
     else if opt = ''--desired-cy'' then as_float (\<lambda>x. a\<lparr> desired_cy := x \<rparr>)
     else if opt = ''--no-frame-push'' then Inr (a\<lparr> no_frame_push := True \<rparr>)
     else if opt = ''--no-vis-udp'' then Inr (a\<lparr> no_vis_udp := True \<rparr>)
     else if opt = ''--preview'' then Inr (a\<lparr> preview := True \<rparr>)
     else if opt = ''--max-frames'' then as_int (\<lambda>n. a\<lparr> max_frames := Some n \<rparr>)
     else if opt = ''--no-output'' then Inr (a\<lparr> no_output := True \<rparr>)
     else if opt = ''--output'' then Inr (a\<lparr> output_spec := Some v \<rparr>)
     else Inl (SystemExit 2))"

fun set_options :: "(string \<times> string) list \<Rightarrow> vision_config \<Rightarrow> pyexc + vision_config" where
  "set_options [] a = Inr a"
| "set_options (o1 # os) a = rbind (set_option o1 a) (set_options os)"

subsection \<open>The checks\<close>

definition arg_error :: "bool \<Rightarrow> string \<Rightarrow> pyexc + unit" where
  "arg_error bad text = guard_raise (\<not> bad) (ValueError (Msg text))"

definition check_args :: "vision_config \<Rightarrow> pyexc + unit" where
  \<comment> \<open>the second half of \<open>parse_args\<close>\<close>
  "check_args a =
     rbind (arg_error (flt (vis_hz a) (Fin 0)) ''--vis-hz must be >= 0'') (\<lambda>_.
     rbind (arg_error (flt (frame_fps a) (Fin 0)) ''--frame-fps must be >= 0'') (\<lambda>_.
     rbind (arg_error (jpeg_quality a < 1 \<or> 100 < jpeg_quality a) ''--jpeg-quality must be in [1, 100]'') (\<lambda>_.
     rbind (arg_error (vis_udp_port a \<le> 0 \<or> 65535 < vis_udp_port a) ''--vis-udp-port must be in [1, 65535]'') (\<lambda>_.
     rbind (arg_error (case max_frames a of None \<Rightarrow> False | Some n \<Rightarrow> n \<le> 0) ''--max-frames must be > 0'') (\<lambda>_.
     rbind (arg_error (target_class a < 0) ''--target-class must be >= 0'') (\<lambda>_.
     rbind (arg_error (\<not> (fle (Fin 0) (conf_threshold a) \<and> fle (conf_threshold a) (Fin 1)))
       ''--conf-threshold must be in [0, 1]'') (\<lambda>_.
     rbind (arg_error (infer_width a \<le> 0) ''--infer-width must be > 0'') (\<lambda>_.
     rbind (arg_error (case infer_size a of None \<Rightarrow> False | Some n \<Rightarrow> n \<le> 0)
       ''--infer-size must be > 0 when provided'') (\<lambda>_.
     rbind (arg_error (detect_every_n a \<le> 0) ''--detect-every-n must be >= 1'') (\<lambda>_.
     rbind (arg_error (detect_hold_n a < 0) ''--detect-hold-n must be >= 0'') (\<lambda>_.
     rbind (arg_error (search_n a < 0) ''--search-n must be >= 0'') (\<lambda>_.
     rbind (arg_error (\<not> (fle (Fin 0) (desired_cx a) \<and> fle (desired_cx a) (Fin 1)))
       ''--desired-cx must be in [0, 1]'') (\<lambda>_.
     arg_error (\<not> (fle (Fin 0) (desired_cy a) \<and> fle (desired_cy a) (Fin 1)))
       ''--desired-cy must be in [0, 1]'')))))))))))))"

definition parse_args :: "environ \<Rightarrow> (string \<times> string) list \<Rightarrow> pyexc + vision_config" where
  "parse_args env opts =
     rbind (default_args env) (\<lambda>d.
     rbind (set_options opts d) (\<lambda>a.
     rbind (check_args a) (\<lambda>_.
     rbind (vision_env_int env ''BACKEND_VIDEO_MAX_JPEG_BYTES'' VIDEO_MAX_JPEG_BYTES_DEFAULT) (\<lambda>n.
     Inr (a\<lparr> backend_video_max_jpeg_bytes := n \<rparr>)))))"

definition pipeline_config_of :: "environ \<Rightarrow> vision_config \<Rightarrow> pyexc + pipeline_config" where
  \<comment> \<open>the decay settings come from the environment, the grace window keeps its default\<close>
  "pipeline_config_of env a =
     rbind (float_of_text (case env ''VISION_TRACKER_ONLY_CONF_DECAY'' of None \<Rightarrow> ''0.95'' | Some v \<Rightarrow> v)) (\<lambda>decay.
     rbind (float_of_text (case env ''VISION_TRACKER_ONLY_CONF_FLOOR'' of None \<Rightarrow> ''0.5'' | Some v \<Rightarrow> v)) (\<lambda>flr.
     let c = default_config\<lparr> hold_n := detect_hold_n a, search_frames := search_n a,
           pipeline_config.detect_every_n := detect_every_n a,
           pipeline_config.desired_cx := desired_cx a, pipeline_config.desired_cy := desired_cy a,
           conf_decay := decay, conf_floor := flr \<rparr>
     in rbind (check_pipeline_config c) (\<lambda>_. Inr c)))"

subsection \<open>What the checks guarantee\<close>

definition args_ok :: "vision_config \<Rightarrow> bool" where
  \<comment> \<open>every option in its range; \<open>NaN\<close> passes the two rates, which then do not limit\<close>
  "args_ok a =
     (mode a \<in> set MODE_CHOICES \<and> pattern_mode a \<in> set PATTERN_CHOICES \<and> tracker_arg a \<in> set TRACKER_CHOICES \<and>
      \<not> flt (vis_hz a) (Fin 0) \<and> \<not> flt (frame_fps a) (Fin 0) \<and>
      1 \<le> jpeg_quality a \<and> jpeg_quality a \<le> 100 \<and> 0 < vis_udp_port a \<and> vis_udp_port a \<le> 65535 \<and>
      pred_option (\<lambda>n. 0 < n) (max_frames a) \<and> 0 \<le> target_class a \<and> in_unit (conf_threshold a) \<and>
      0 < infer_width a \<and> pred_option (\<lambda>n. 0 < n) (infer_size a) \<and> 1 \<le> detect_every_n a \<and>
      0 \<le> detect_hold_n a \<and> 0 \<le> search_n a \<and> in_unit (desired_cx a) \<and> in_unit (desired_cy a))"

definition choices_ok :: "vision_config \<Rightarrow> bool" where
  "choices_ok a = (mode a \<in> set MODE_CHOICES \<and> pattern_mode a \<in> set PATTERN_CHOICES \<and>
     tracker_arg a \<in> set TRACKER_CHOICES)"

lemma usage_exit_Inr [simp]: "usage_exit r = Inr v \<longleftrightarrow> r = Inr v"
  by (cases r) (simp_all add: usage_exit_def)

lemma set_option_choices: "choices_ok a \<Longrightarrow> set_option ov a = Inr b \<Longrightarrow> choices_ok b"
  by (cases ov) (auto simp: set_option_def choices_ok_def chosen_def Let_def split: if_splits)

lemma set_options_choices: "choices_ok a \<Longrightarrow> set_options os a = Inr b \<Longrightarrow> choices_ok b"
  by (induction os arbitrary: a) (auto dest: set_option_choices)

lemma default_args_choices: "default_args env = Inr a \<Longrightarrow> choices_ok a"
  by (auto simp: default_args_def choices_ok_def MODE_CHOICES_def PATTERN_CHOICES_def TRACKER_CHOICES_def Let_def)

lemma arg_error_Inr [simp]: "arg_error bad t = Inr u \<longleftrightarrow> \<not> bad"
  by (simp add: arg_error_def)

lemma check_args_ok: "choices_ok a \<Longrightarrow> check_args a = Inr () \<longleftrightarrow> args_ok a"
  by (cases "max_frames a"; cases "infer_size a")
    (auto simp: check_args_def rbind_Inr_iff args_ok_def choices_ok_def in_unit_def)

lemma parse_args_ok:
  assumes "parse_args env opts = Inr a"
  shows "args_ok a"
proof -
  obtain d b n where "default_args env = Inr d" "set_options opts d = Inr b" "check_args b = Inr ()"
    and a: "a = b\<lparr> backend_video_max_jpeg_bytes := n \<rparr>"
    using assms by (auto simp: parse_args_def)
  then have "args_ok b" using check_args_ok default_args_choices set_options_choices by blast
  then show ?thesis by (simp add: a args_ok_def)
qed

end
