(* ===== verification/Yolo_Detector.thy ===== *)
theory Yolo_Detector
  imports Vis_Types Opencv_Tracker
begin

section \<open>The YOLO detector\<close>

text \<open>
  \<open>src/src/vision/yolo_detector.py\<close>: the constructor's checks, the search for the model file,
  the image size asked of the model, and the filter over what it answers. The model is the
  argument \<open>predict\<close>: what \<open>YOLO.predict\<close> answers for a frame, a confidence, a class list and
  an image size, as the three lists that \<open>_to_list\<close> makes of its tensors (\<open>None\<close> for a missing
  tensor, an empty answer for no result); a row of \<open>xyxy\<close> has its four numbers. Paths are
  POSIX paths; the file system is two arguments, \<open>is_file\<close> and \<open>resolve\<close>.
\<close>

subsection \<open>Paths\<close>

record path =
  absolute :: bool
  parts :: "string list"

definition path_of :: "string \<Rightarrow> path" where
  \<comment> \<open>\<open>Path(text)\<close>: empty and \<open>.\<close> components vanish\<close>
  "path_of s = \<lparr> absolute = startswith s ''/'',
     parts = filter (\<lambda>p. p \<noteq> [] \<and> p \<noteq> ''.'') (split_char (CHR ''/'') s) \<rparr>"

definition path_join :: "path \<Rightarrow> path \<Rightarrow> path" where
  \<comment> \<open>\<open>a / b\<close>\<close>
  "path_join a b = (if absolute b then b else \<lparr> absolute = absolute a, parts = parts a @ parts b \<rparr>)"

definition path_parent :: "path \<Rightarrow> path" where
  "path_parent p = p\<lparr> parts := butlast (parts p) \<rparr>"

definition expanduser :: "(string \<Rightarrow> path option) \<Rightarrow> path \<Rightarrow> pyexc + path" where
  \<comment> \<open>\<open>home\<close> gives a user's directory, the empty name being the current user\<close>
  "expanduser home p =
     (case parts p of
        (CHR ''~'' # user) # rest \<Rightarrow>
          if absolute p then Inr p
          else (case home user of
            None \<Rightarrow> Inl (RuntimeError (Msg ''Could not determine home directory.''))
          | Some h \<Rightarrow> Inr (h\<lparr> parts := parts h @ rest \<rparr>))
      | _ \<Rightarrow> Inr p)"

definition model_candidates :: "path \<Rightarrow> path \<Rightarrow> path \<Rightarrow> path list" where
  "model_candidates cwd repo_root raw =
     (if absolute raw then [raw]
      else (let c = path_join cwd raw; r = path_join repo_root raw in if r = c then [c] else [c, r]))"

definition resolve_model_spec ::
  "(string \<Rightarrow> path option) \<Rightarrow> (path \<Rightarrow> bool) \<Rightarrow> (path \<Rightarrow> string) \<Rightarrow> path \<Rightarrow> path \<Rightarrow> string
   \<Rightarrow> pyexc + string \<times> string" where
  "resolve_model_spec home is_file resolve cwd repo_root model =
     rbind (expanduser home (path_of model)) (\<lambda>raw.
     case find is_file (model_candidates cwd repo_root raw) of
       Some c \<Rightarrow> Inr (resolve c, resolve c)
     | None \<Rightarrow>
         if absolute raw \<or> path_parent raw \<noteq> path_of ''.'' then Inl OSError
         else Inr (model, model @ '' (no local file in cwd/repo-root, delegating to ultralytics)''))"

subsection \<open>The constructor\<close>

record yolo_config =
  y_target_class :: int
  y_conf_threshold :: pyfloat
  y_infer_width :: int
  y_infer_size :: "int option"
  y_model_spec :: string

definition check_yolo_args :: "string \<Rightarrow> int \<Rightarrow> pyfloat \<Rightarrow> int \<Rightarrow> int option \<Rightarrow> pyexc + unit" where
  "check_yolo_args model cls thr width size0 =
     rbind (guard_raise (model \<noteq> []) (ValueError (Msg ''model_path must not be empty''))) (\<lambda>_.
     rbind (guard_raise (\<not> cls < 0) (ValueError (Msg ''target_class must be >= 0''))) (\<lambda>_.
     rbind (guard_raise (in_unit thr) (ValueError (Msg ''conf_threshold must be in [0, 1]''))) (\<lambda>_.
     rbind (guard_raise (\<not> width \<le> 0) (ValueError (Msg ''infer_width must be > 0''))) (\<lambda>_.
     guard_raise (\<not> (case size0 of None \<Rightarrow> False | Some n \<Rightarrow> n \<le> 0))
       (ValueError (Msg ''infer_size must be > 0 when provided''))))))"

datatype imgsz = Side int | HeightWidth int int

definition resolve_imgsz :: "yolo_config \<Rightarrow> int \<Rightarrow> int \<Rightarrow> pyexc + imgsz" where
  "resolve_imgsz y frame_h frame_w =
     (case y_infer_size y of
        Some n \<Rightarrow> Inr (Side n)
      | None \<Rightarrow>
          if frame_w \<le> 0 \<or> frame_h \<le> 0 then Inr (Side (y_infer_width y))
          else rbind (float_result frame_h) (\<lambda>hf. rbind (float_result (y_infer_width y)) (\<lambda>iw.
               rbind (float_result frame_w) (\<lambda>wf. rbind (fdiv_exc (fmul hf iw) wf) (\<lambda>q.
               rbind (round_exc q) (\<lambda>n. Inr (HeightWidth (max 1 n) (y_infer_width y))))))))"

definition warmup_imgsz :: "yolo_config \<Rightarrow> pyexc + imgsz" where
  \<comment> \<open>the image size asked for the black frame of the warm-up\<close>
  "warmup_imgsz y =
     rbind (int_truediv (y_infer_width y * 3) 4) (\<lambda>q. rbind (round_exc q) (\<lambda>n.
     resolve_imgsz y (max 1 n) (y_infer_width y)))"

definition new_yolo ::
  "bool \<Rightarrow> (string \<Rightarrow> bool) \<Rightarrow> (string \<Rightarrow> pyexc + string \<times> string)
   \<Rightarrow> string \<Rightarrow> int \<Rightarrow> pyfloat \<Rightarrow> int \<Rightarrow> int option \<Rightarrow> pyexc + yolo_config" where
  \<comment> \<open>\<open>installed\<close>: ultralytics can be imported; \<open>loads_model\<close>: \<open>YOLO(spec)\<close> does not raise; an inference that fails in the warm-up is only reported\<close>
  "new_yolo installed loads_model lookup model cls thr width size0 =
     rbind (check_yolo_args model cls thr width size0) (\<lambda>_.
     rbind (guard_raise installed (RuntimeError (Msg ''detect mode requires 'ultralytics''))) (\<lambda>_.
     rbind (lookup model) (\<lambda>(spec, _).
     rbind (guard_raise (loads_model spec) (RuntimeError (Msg ''failed to load YOLO model''))) (\<lambda>_.
     let y = \<lparr> y_target_class = cls, y_conf_threshold = thr, y_infer_width = width, y_infer_size = size0,
           y_model_spec = spec \<rparr>
     in rbind (warmup_imgsz y) (\<lambda>_. Inr y)))))"

subsection \<open>Detection\<close>

type_synonym yolo_row = "(pyfloat \<times> pyfloat \<times> pyfloat \<times> pyfloat) \<times> pyfloat \<times> pyfloat"
  \<comment> \<open>the corners, the confidence and the class\<close>

record yolo_boxes =
  yb_xyxy :: "(pyfloat \<times> pyfloat \<times> pyfloat \<times> pyfloat) list option"
  yb_conf :: "pyfloat list option"
  yb_cls :: "pyfloat list option"

fun yolo_filter :: "yolo_config \<Rightarrow> yolo_row list \<Rightarrow> pyexc + detection list" where
  "yolo_filter y [] = Inr []"
| "yolo_filter y (((x1, y1, x2, y2), conf, class_id) # rows) =
     rbind (py_int (PFloat class_id)) (\<lambda>k.
     if k \<noteq> y_target_class y then yolo_filter y rows
     else if flt conf (y_conf_threshold y) then yolo_filter y rows
     else (let width = fmax (Fin 0) (fsub x2 x1); height = fmax (Fin 0) (fsub y2 y1)
           in if fle width (Fin 0) \<or> fle height (Fin 0) then yolo_filter y rows
              else rbind (yolo_filter y rows) (\<lambda>ds.
                Inr (\<lparr> bbox = \<lparr> px = x1, py = y1, pw = width, ph = height \<rparr>,
                       confidence = conf, track_id = 1 \<rparr> # ds))))"

definition yolo_detect ::
  "('f \<Rightarrow> int \<times> int) \<Rightarrow> ('f \<Rightarrow> imgsz \<Rightarrow> pyexc + yolo_boxes option list) \<Rightarrow> yolo_config \<Rightarrow> 'f \<Rightarrow> int
   \<Rightarrow> pyexc + detection list" where
  \<comment> \<open>\<open>predict\<close> answers the results, each with its boxes if it has any\<close>
  "yolo_detect shape predict y frame frame_id =
     rbind (resolve_imgsz y (fst (shape frame)) (snd (shape frame))) (\<lambda>size1.
     rbind (predict frame size1) (\<lambda>results.
     case results of
       [] \<Rightarrow> Inr []
     | None # _ \<Rightarrow> Inr []
     | Some b # _ \<Rightarrow>
         (case (yb_xyxy b, yb_conf b, yb_cls b) of
            (Some xyxy, Some confs, Some classes) \<Rightarrow> yolo_filter y (zip xyxy (zip confs classes))
          | _ \<Rightarrow> Inr [])))"

subsection \<open>What the filter keeps\<close>

text \<open>The difference of two floats is positive exactly when they are ordered: underflow is gradual.\<close>

lemma rnd_fix_multiple:
  assumes "rnd x = x"
  obtains k where "x = of_int k * 2 powr of_int (- 1074)"
proof (cases "x = 0")
  case False
  have "- 1074 \<le> fexp x" by (simp add: fexp_def)
  then obtain n :: nat where n: "fexp x = int n - 1074" by (metis zle_iff_zadd diff_add_cancel add.commute uminus_add_conv_diff diff_minus_eq_add)
  let ?m = "rne (x / 2 powr of_int (fexp x))"
  have x: "x = of_int ?m * 2 powr of_int (fexp x)" using assms False by (simp add: rnd_def)
  have p: "(2::real) powr of_int (fexp x) = 2 ^ n * 2 powr of_int (- 1074)"
    by (simp add: n powr_diff powr_realpow field_simps powr_minus)
  have "x = of_int (?m * 2 ^ n) * 2 powr of_int (- 1074)" by (subst x, subst p) simp
  then show thesis by (rule that)
qed (use that[of 0] in simp)

lemma fsub_positive:
  assumes "is_f64 a" "is_f64 b"
  shows "flt (Fin 0) (fsub b a) \<longleftrightarrow> flt a b"
proof (cases "\<exists>x y. a = Fin x \<and> b = Fin y")
  case True
  then obtain x y where ab: "a = Fin x" "b = Fin y" by blast
  obtain k l where k: "x = of_int k * 2 powr of_int (- 1074)" "y = of_int l * 2 powr of_int (- 1074)"
    using assms rnd_fix_multiple[of x] rnd_fix_multiple[of y] unfolding ab by (metis is_f64.simps(1))
  have "flt (Fin 0) (f64 (y - x)) \<longleftrightarrow> x < y"
  proof
    assume "x < y"
    then have "k < l" unfolding k by simp
    then have "1 \<le> real_of_int (l - k)" by simp
    then have "2 powr of_int (- 1074) \<le> y - x" unfolding k
      by (simp add: left_diff_distrib[symmetric] mult_le_cancel_right1)
    from rnd_mono[OF this] have "2 powr of_int (- 1074) \<le> rnd (y - x)" by (simp only: rnd_power2 order_refl)
    moreover have "(0::real) < 2 powr of_int (- 1074)" by simp
    ultimately have "0 < rnd (y - x)" by linarith
    then show "flt (Fin 0) (f64 (y - x))" by (auto simp: f64_def)
  next
    assume f: "flt (Fin 0) (f64 (y - x))"
    show "x < y"
    proof (rule ccontr)
      assume "\<not> x < y"
      then have "rnd (y - x) \<le> 0" by (intro rnd_le_fix) simp_all
      then show False using f f64_limit_pos by (auto simp: f64_def split: if_splits)
    qed
  qed
  then show ?thesis by (simp add: ab fsub_def)
next
  case False
  then show ?thesis by (cases a; cases b; simp add: fsub_def)
qed

definition row_f64 :: "yolo_row \<Rightarrow> bool" where
  "row_f64 = (\<lambda>((x1, y1, x2, y2), conf, class_id).
     list_all is_f64 [x1, y1, x2, y2] \<and> isfinite class_id)"

definition row_wanted :: "yolo_config \<Rightarrow> yolo_row \<Rightarrow> bool" where
  \<comment> \<open>specification: the class, not below the threshold, corners in order\<close>
  "row_wanted y = (\<lambda>((x1, y1, x2, y2), conf, class_id).
     py_int (PFloat class_id) = Inr (y_target_class y) \<and> \<not> flt conf (y_conf_threshold y) \<and>
     flt x1 x2 \<and> flt y1 y2)"

definition row_detection :: "yolo_row \<Rightarrow> detection" where
  "row_detection = (\<lambda>((x1, y1, x2, y2), conf, class_id).
     \<lparr> bbox = \<lparr> px = x1, py = y1, pw = fsub x2 x1, ph = fsub y2 y1 \<rparr>, confidence = conf, track_id = 1 \<rparr>)"

lemma fmax_pos: "(fle (fmax (Fin 0) d) (Fin 0)) = (\<not> flt (Fin 0) d)" "flt (Fin 0) d \<Longrightarrow> fmax (Fin 0) d = d"
  by (cases d; auto simp: fmax_def)+

text \<open>
  The detector keeps exactly the boxes it should. Of the rows the model answers, those of
  the target class that are not below the threshold and whose corners are in order come out,
  in the model's order, with the corners' difference as size; the others are dropped. A NaN
  confidence is not below any threshold and passes.
\<close>

theorem yolo_filter_selects:
  assumes "list_all row_f64 rows"
  shows "yolo_filter y rows = Inr (map row_detection (filter (row_wanted y) rows))"
  using assms
proof (induction rows)
  case (Cons row rows)
  obtain x1 y1 x2 y2 c k where row: "row = ((x1, y1, x2, y2), c, Fin k)"
    using Cons.prems by (auto simp: row_f64_def elim: isfinite.elims split: prod.splits)
  have f: "is_f64 x1" "is_f64 y1" "is_f64 x2" "is_f64 y2" using Cons.prems by (simp_all add: row row_f64_def)
  show ?case using Cons fsub_positive[OF f(1,3)] fsub_positive[OF f(2,4)]
    by (auto simp: row row_wanted_def row_detection_def fmax_pos Let_def)
qed simp

definition sample_yolo :: yolo_config where
  "sample_yolo = \<lparr> y_target_class = 0, y_conf_threshold = Fin (1 / 2), y_infer_width = 640,
     y_infer_size = None, y_model_spec = ''yolov8n.pt'' \<rparr>"

definition box10 :: "pyfloat \<times> pyfloat \<times> pyfloat \<times> pyfloat" where
  "box10 = (Fin 0, Fin 0, Fin 10, Fin 10)"

theorem yolo_filter_selects_witness:
  "yolo_filter sample_yolo [(box10, Fin (3 / 4), Fin 0), (box10, Fin (1 / 4), Fin 0), (box10, NaN, Fin 0),
     (box10, Fin (3 / 4), Fin 2)] =
   Inr (map row_detection [(box10, Fin (3 / 4), Fin 0), (box10, NaN, Fin 0)])"
proof -
  let ?rows = "[(box10, Fin (3 / 4), Fin 0), (box10, Fin (1 / 4), Fin 0), (box10, NaN, Fin 0), (box10, Fin (3 / 4), Fin 2)]"
  have "list_all row_f64 ?rows" by (simp add: row_f64_def box10_def f64_limit_def)
  moreover have "filter (row_wanted sample_yolo) ?rows = [(box10, Fin (3 / 4), Fin 0), (box10, NaN, Fin 0)]"
    by (simp add: row_wanted_def sample_yolo_def box10_def trunc_real_def)
  ultimately show ?thesis by (simp only: yolo_filter_selects)
qed

subsection \<open>Where the model comes from\<close>

lemma model_spec_local:
  \<comment> \<open>a file below the working directory wins over one below the repository\<close>
  assumes "expanduser home (path_of m) = Inr raw" "\<not> absolute raw" "is_file (path_join cwd raw)"
  shows "resolve_model_spec home is_file resolve cwd repo m =
    Inr (resolve (path_join cwd raw), resolve (path_join cwd raw))"
  using assms by (simp add: resolve_model_spec_def model_candidates_def Let_def)

lemma model_spec_delegates:
  \<comment> \<open>only a bare name is ever left to ultralytics, which may download it\<close>
  assumes "resolve_model_spec home is_file resolve cwd repo m = Inr (m, src)" "src \<noteq> m"
  shows "\<exists>raw. expanduser home (path_of m) = Inr raw \<and> \<not> absolute raw \<and> length (parts raw) \<le> 1 \<and>
    find is_file (model_candidates cwd repo raw) = None"
proof -
  have b: "length xs \<le> 1" if "butlast xs = []" for xs :: "string list"
    using that by (cases xs rule: rev_cases) simp_all
  have d: "length (parts v) \<le> 1" if "path_parent v = path_of ''.''" for v :: path
    using that b[of "parts v"] by (cases v) (simp add: path_parent_def path_of_def)
  show ?thesis using assms d by (auto simp: resolve_model_spec_def split: option.splits if_splits)
qed

subsection \<open>The warm-up is representative\<close>

lemma rne_bounds: "\<bar>of_int (rne x) - x\<bar> \<le> 1"
  using floor_correct[of x] by (auto simp: rne_def Let_def)

lemma exact_product: "\<bar>m\<bar> < 2 ^ 53 \<Longrightarrow> f64 (of_int m) = Fin (of_int m)"
  using rnd_of_int[of m] of_int_less_iff[of "\<bar>m\<bar>" "2 ^ 53", where 'a = real]
  by (intro f64_exact) simp_all

lemma warmup_matches:
  \<comment> \<open>the graph compiled by the warm-up is the one that 640x480 frames use\<close>
  assumes "0 < y_infer_width y" "y_infer_width y < 2 ^ 24"
  shows "warmup_imgsz y = resolve_imgsz y 480 640"
proof (cases "y_infer_size y")
  case None
  let ?w = "y_infer_width y" and ?q = "3 * real_of_int (y_infer_width y) / 4"
  let ?n = "max 1 (rne ?q)"
  have w: "1 \<le> real_of_int ?w" "real_of_int ?w < 2 ^ 24"
    using assms of_int_less_iff[of ?w "2 ^ 24", where 'a = real] by simp_all
  have q: "f64 ?q = Fin ?q"
    using assms w by (intro f64_exact rnd_fraction[of "3 * ?w" 2]) simp_all
  have n: "1 \<le> ?n" "real_of_int ?n \<le> 2 ^ 24" using rne_bounds[of ?q] w by (simp_all add: max_def abs_le_iff)
  have "?n \<le> 2 ^ 24" using n(2) of_int_le_iff[of ?n "2 ^ 24", where 'a = real] by simp
  then have "?n * ?w \<le> 2 ^ 24 * 2 ^ 24" using assms n(1) by (intro mult_mono) simp_all
  then have nw: "\<bar>?n * ?w\<bar> < 2 ^ 53" using assms n(1) by (simp add: abs_mult)
  have p: "f64 (real_of_int ?n * real_of_int ?w) = Fin (real_of_int ?n * real_of_int ?w)"
    using exact_product[OF nw] by simp
  have p2: "f64 (480 * real_of_int ?w) = Fin (480 * real_of_int ?w)"
    using exact_product[of "480 * ?w"] assms by simp
  have fn: "f64 (real_of_int ?n) = Fin (real_of_int ?n)" using exact_product[of ?n] n(1) \<open>?n \<le> 2 ^ 24\<close> by simp
  have rn: "rne (real_of_int ?n) = ?n" by simp
  have fl: "float_result ?n = Inr (Fin (of_int ?n))" "float_result ?w = Inr (Fin (of_int ?w))"
    "float_result 480 = Inr (Fin 480)" "float_result 640 = Inr (Fin 640)"
    using assms n(1) \<open>?n \<le> 2 ^ 24\<close> float_result_small[of 480] float_result_small[of 640]
    by (simp_all add: float_result_small)
  have "resolve_imgsz y ?n ?w = Inr (HeightWidth ?n ?w)"
    using None assms(1) n(1) fl p fn rn w by (simp add: resolve_imgsz_def fdiv_exc_def round_exc_def)
  moreover have "resolve_imgsz y 480 640 = Inr (HeightWidth ?n ?w)"
    using None fl p2 q by (simp add: resolve_imgsz_def fdiv_exc_def round_exc_def)
  moreover have "warmup_imgsz y = resolve_imgsz y ?n ?w"
    using q by (simp add: warmup_imgsz_def int_truediv_def round_exc_def mult.commute)
  ultimately show ?thesis by simp
next
  case (Some n)
  have "f64 (3 * real_of_int (y_infer_width y) / 4) = Fin (3 * real_of_int (y_infer_width y) / 4)"
    using assms of_int_less_iff[of "y_infer_width y" "2 ^ 24", where 'a = real]
    by (intro f64_exact rnd_fraction[of "3 * y_infer_width y" 2]) simp_all
  then show ?thesis using Some by (simp add: warmup_imgsz_def int_truediv_def round_exc_def resolve_imgsz_def mult.commute)
qed

end
