(* ===== verification/Overlay.thy ===== *)
theory Overlay
  imports Opencv_Tracker Py_Text
begin

section \<open>The preview\<close>

text \<open>
  The geometry of \<open>draw_overlay\<close> (\<open>src/src/vision/overlay.py\<close>) and the check before a preview
  window is opened (\<open>_ensure_preview_available\<close> of \<open>main.py\<close>). The drawing is the list of the
  calls to OpenCV; \<open>fmt2\<close> formats a float with two decimals.
\<close>

definition overlay_clamp :: "int \<Rightarrow> int \<Rightarrow> int \<Rightarrow> int" where
  "overlay_clamp v lo hi = max lo (min hi v)"

definition pixel_of :: "pyfloat \<Rightarrow> int \<Rightarrow> pyexc + int" where
  \<comment> \<open>\<open>int(round(v * size))\<close>\<close>
  "pixel_of v size1 = rbind (float_result size1) (\<lambda>s. round_exc (fmul v s))"

definition overlay_rect :: "int \<Rightarrow> int \<Rightarrow> norm_bbox \<Rightarrow> pyexc + (int \<times> int \<times> int \<times> int) option" where
  \<comment> \<open>the corners passed to \<open>cv2.rectangle\<close>, if it is called\<close>
  "overlay_rect img_w img_h b =
     (if fle (nw b) (Fin 0) \<or> fle (nh b) (Fin 0) then Inr None
      else rbind (fdiv_exc (nw b) (Fin 2)) (\<lambda>half_w. rbind (fdiv_exc (nh b) (Fin 2)) (\<lambda>half_h.
           rbind (pixel_of (fsub (cx b) half_w) img_w) (\<lambda>x1.
           rbind (pixel_of (fsub (cy b) half_h) img_h) (\<lambda>y1.
           rbind (pixel_of (fadd (cx b) half_w) img_w) (\<lambda>x2.
           rbind (pixel_of (fadd (cy b) half_h) img_h) (\<lambda>y2.
           let x1 = overlay_clamp x1 0 (img_w - 1); y1 = overlay_clamp y1 0 (img_h - 1);
               x2 = overlay_clamp x2 0 (img_w - 1); y2 = overlay_clamp y2 0 (img_h - 1);
               x2 = (if x2 \<le> x1 then min (img_w - 1) (x1 + 1) else x2);
               y2 = (if y2 \<le> y1 then min (img_h - 1) (y1 + 1) else y2)
           in Inr (Some (x1, y1, x2, y2)))))))))"

datatype drawing =
  Put_Text string int int        \<comment> \<open>\<open>cv2.putText\<close> with its position\<close>
| Draw_Rectangle "int \<times> int \<times> int \<times> int"

definition overlay_label :: "(pyfloat \<Rightarrow> string) \<Rightarrow> vis_state \<Rightarrow> pyfloat \<Rightarrow> int \<Rightarrow> int option \<Rightarrow> string" where
  "overlay_label fmt2 st conf tid frame_no =
     (let label = ''state='' @ state_value st @ '' conf='' @ fmt2 conf @ '' id='' @ dec_int tid
      in case frame_no of None \<Rightarrow> label | Some n \<Rightarrow> ''frame='' @ dec_int n @ '' '' @ label)"

definition draw_overlay ::
  "(pyfloat \<Rightarrow> string) \<Rightarrow> int \<Rightarrow> int \<Rightarrow> vis_state \<Rightarrow> norm_bbox \<Rightarrow> pyfloat \<Rightarrow> int \<Rightarrow> int option \<Rightarrow> pyexc + drawing list" where
  "draw_overlay fmt2 img_w img_h st b conf tid frame_no =
     rbind (overlay_rect img_w img_h b) (\<lambda>r.
     Inr (Put_Text (overlay_label fmt2 st conf tid frame_no) 10 24 #
       (case r of None \<Rightarrow> [] | Some q \<Rightarrow> [Draw_Rectangle q])))"

definition ensure_preview_available :: "environ \<Rightarrow> bool \<Rightarrow> string list option \<Rightarrow> pyexc + unit" where
  \<comment> \<open>on Linux or not, and the attributes of \<open>cv2\<close> if it can be imported\<close>
  "ensure_preview_available env linux cv2 =
     (let has_display = (\<exists>n \<in> {''DISPLAY'', ''WAYLAND_DISPLAY''}. case env n of None \<Rightarrow> False | Some v \<Rightarrow> v \<noteq> [])
      in rbind (guard_raise (linux \<longrightarrow> has_display) (RuntimeError (Msg ''--preview requested but no GUI display detected''))) (\<lambda>_.
         case cv2 of
           None \<Rightarrow> Inl (RuntimeError (Msg ''--preview requested but OpenCV GUI backend is unavailable''))
         | Some attributes \<Rightarrow>
             guard_raise (filter (\<lambda>n. n \<notin> set attributes) [''imshow'', ''waitKey'', ''destroyAllWindows''] = [])
               (RuntimeError (Msg ''--preview requested but OpenCV GUI functions are missing''))))"

subsection \<open>The rectangle lies in the frame\<close>

lemma pixel_returns:
  assumes "v = Fin r" "\<bar>r\<bar> \<le> 2" "0 < size1" "size1 < 2 ^ 53"
  shows "\<exists>n. pixel_of v size1 = Inr n"
proof -
  have s: "float_result size1 = Inr (Fin (of_int size1))" using assms(3,4) by (intro float_result_small) simp
  have "real_of_int size1 \<le> of_int (2 ^ 53)" using assms(4) by (simp only: of_int_le_iff)
  then have "real_of_int size1 \<le> 2 ^ 53" by simp
  then have "\<bar>r * of_int size1\<bar> \<le> 2 * 2 ^ 53" unfolding abs_mult using assms(2,3) by (intro mult_mono) simp_all
  then obtain q where "f64 (r * of_int size1) = Fin q" using f64_bounded[of "r * of_int size1" 54] by auto
  then show ?thesis by (simp add: pixel_of_def s assms(1) round_exc_def)
qed

lemma fdiv_two: "0 \<le> r \<Longrightarrow> r \<le> 1 \<Longrightarrow> \<exists>h. fdiv_exc (Fin r) (Fin 2) = Inr (Fin h) \<and> \<bar>h\<bar> \<le> 1"
  using f64_bounded[of "r / 2" 0] by (auto simp: fdiv_exc_def)

lemma edge_bounded: "0 \<le> r \<Longrightarrow> r \<le> 1 \<Longrightarrow> \<bar>h\<bar> \<le> 1 \<Longrightarrow>
  (\<exists>d. fsub (Fin r) (Fin h) = Fin d \<and> \<bar>d\<bar> \<le> 2) \<and> (\<exists>d. fadd (Fin r) (Fin h) = Fin d \<and> \<bar>d\<bar> \<le> 2)"
  using f64_bounded[of "r - h" 1] f64_bounded[of "r + h" 1] by (auto simp: fsub_def)

definition rect_inside :: "int \<Rightarrow> int \<Rightarrow> int \<times> int \<times> int \<times> int \<Rightarrow> bool" where
  "rect_inside img_w img_h = (\<lambda>(x1, y1, x2, y2).
     0 \<le> x1 \<and> x1 \<le> x2 \<and> x2 < img_w \<and> 0 \<le> y1 \<and> y1 \<le> y2 \<and> y2 < img_h)"

lemma axis_inside:
  fixes n a b :: int
  assumes "0 < n"
  defines "a' \<equiv> overlay_clamp a 0 (n - 1)" and "b' \<equiv> overlay_clamp b 0 (n - 1)"
  shows "0 \<le> a'" "a' \<le> (if b' \<le> a' then min (n - 1) (a' + 1) else b')"
    "(if b' \<le> a' then min (n - 1) (a' + 1) else b') < n"
proof -
  have "0 \<le> a'" "a' \<le> n - 1" "b' \<le> n - 1" using assms(1) by (simp_all add: a'_def b'_def overlay_clamp_def)
  then show "0 \<le> a'" "a' \<le> (if b' \<le> a' then min (n - 1) (a' + 1) else b')"
    "(if b' \<le> a' then min (n - 1) (a' + 1) else b') < n" by (cases "b' \<le> a'"; simp)+
qed

text \<open>Drawing a valid box never raises, and stays inside the frame.\<close>

lemma overlay_inside:
  assumes "bbox_ok b" "0 < img_w" "img_w < 2 ^ 53" "0 < img_h" "img_h < 2 ^ 53"
  shows "case overlay_rect img_w img_h b of Inl _ \<Rightarrow> False | Inr r \<Rightarrow> pred_option (rect_inside img_w img_h) r"
proof (cases "fle (nw b) (Fin 0) \<or> fle (nh b) (Fin 0)")
  case False
  obtain c d w h where b: "cx b = Fin c" "cy b = Fin d" "nw b = Fin w" "nh b = Fin h"
    and u: "0 \<le> c" "c \<le> 1" "0 \<le> d" "d \<le> 1" "0 \<le> w" "w \<le> 1" "0 \<le> h" "h \<le> 1"
    using assms(1) unfolding bbox_ok_def by (auto elim!: in_unitE)
  obtain hw hh where hw: "fdiv_exc (nw b) (Fin 2) = Inr (Fin hw)" "\<bar>hw\<bar> \<le> 1"
    and hh: "fdiv_exc (nh b) (Fin 2) = Inr (Fin hh)" "\<bar>hh\<bar> \<le> 1"
    using fdiv_two[OF u(5,6)] fdiv_two[OF u(7,8)] unfolding b by blast
  have px: "\<exists>n. pixel_of v img_w = Inr n" "\<exists>n. pixel_of v img_h = Inr n" if "v = Fin r" "\<bar>r\<bar> \<le> 2" for v r
    using that assms by (blast intro: pixel_returns)+
  obtain x1 y1 x2 y2 where "pixel_of (fsub (cx b) (Fin hw)) img_w = Inr x1" "pixel_of (fsub (cy b) (Fin hh)) img_h = Inr y1"
    "pixel_of (fadd (cx b) (Fin hw)) img_w = Inr x2" "pixel_of (fadd (cy b) (Fin hh)) img_h = Inr y2"
  proof -
    from edge_bounded[OF u(1,2) hw(2)] edge_bounded[OF u(3,4) hh(2)]
    obtain e1 e2 e3 e4 where e: "fsub (cx b) (Fin hw) = Fin e1" "\<bar>e1\<bar> \<le> 2" "fadd (cx b) (Fin hw) = Fin e2" "\<bar>e2\<bar> \<le> 2"
      "fsub (cy b) (Fin hh) = Fin e3" "\<bar>e3\<bar> \<le> 2" "fadd (cy b) (Fin hh) = Fin e4" "\<bar>e4\<bar> \<le> 2"
      unfolding b by blast
    note p = px(1)[OF e(1,2)] px(2)[OF e(5,6)] px(1)[OF e(3,4)] px(2)[OF e(7,8)]
    show thesis using p by (elim exE) (rule that)
  qed
  then have "overlay_rect img_w img_h b =
      (let x1 = overlay_clamp x1 0 (img_w - 1); y1 = overlay_clamp y1 0 (img_h - 1);
           x2 = overlay_clamp x2 0 (img_w - 1); y2 = overlay_clamp y2 0 (img_h - 1);
           x2 = (if x2 \<le> x1 then min (img_w - 1) (x1 + 1) else x2);
           y2 = (if y2 \<le> y1 then min (img_h - 1) (y1 + 1) else y2)
       in Inr (Some (x1, y1, x2, y2)))"
    using False hw(1) hh(1) by (simp add: overlay_rect_def)
  then show ?thesis using axis_inside[OF assms(2)] axis_inside[OF assms(4)] by (simp add: rect_inside_def Let_def)
qed (simp add: overlay_rect_def)

text \<open>A NaN centre, which no pipeline result has, would end the loop.\<close>

lemma overlay_nan: "\<not> returns (overlay_rect 640 480 \<lparr> cx = NaN, cy = Fin 0, nw = Fin 1, nh = Fin 1 \<rparr>)"
proof -
  have "f64 (1 / 2) = Fin (1 / 2)" by (rule f64_exact) simp_all
  moreover have "float_result 640 = Inr (Fin 640)" by (rule float_result_small[of 640, simplified])
  ultimately show ?thesis by (simp add: overlay_rect_def fdiv_exc_def pixel_of_def round_exc_def fsub_def)
qed

end
