(* ===== verification/Publishers.thy ===== *)
theory Publishers
  imports Vis_Types Py_Text
begin

section \<open>Where the vision process prints its messages\<close>

text \<open>
  \<open>src/src/vision/publisher.py\<close>: the sinks of the vision messages, chosen by two options. The
  standard output and the files, which are opened for appending, are the record \<open>sinks\<close>; a
  write is taken to succeed.
\<close>

record sinks =
  out_lines :: "string list"
  file_lines :: "string \<Rightarrow> string list"

datatype publisher =
  NullPublisher | StdoutPublisher | JsonlPublisher string | MultiPublisher "publisher list"

fun publish_line :: "string \<Rightarrow> publisher \<Rightarrow> sinks \<Rightarrow> sinks" where
  \<comment> \<open>\<open>publish\<close>, with the text of the message as argument\<close>
  "publish_line l NullPublisher s = s"
| "publish_line l StdoutPublisher s = s\<lparr> out_lines := out_lines s @ [l] \<rparr>"
| "publish_line l (JsonlPublisher path) s =
     s\<lparr> file_lines := (file_lines s)(path := file_lines s path @ [l]) \<rparr>"
| "publish_line l (MultiPublisher ps) s = fold (publish_line l) ps s"

definition publish :: "(real \<Rightarrow> string) \<Rightarrow> vis_msg \<Rightarrow> publisher \<Rightarrow> sinks \<Rightarrow> sinks" where
  "publish fr m = publish_line (vis_msg_json fr m)"

definition publisher_from_output_spec :: "string \<Rightarrow> pyexc + publisher" where
  "publisher_from_output_spec spec =
     (if \<not> startswith spec ''jsonl:''
      then Inl (ValueError (Msg ''unsupported output format; expected jsonl:<path>''))
      else (let path_text = strip (snd (partition_char (CHR '':'') spec))
            in if path_text = [] then Inl (ValueError (Msg ''jsonl output path is empty''))
               else Inr (JsonlPublisher path_text)))"

definition create_publisher :: "bool \<Rightarrow> string option \<Rightarrow> pyexc + publisher" where
  "create_publisher no_output output_spec =
     rbind (case output_spec of None \<Rightarrow> Inr []
            | Some spec \<Rightarrow> rbind (publisher_from_output_spec spec) (\<lambda>p. Inr [p])) (\<lambda>extra.
     let publishers = (if no_output then [] else [StdoutPublisher]) @ extra
     in Inr (case publishers of [] \<Rightarrow> NullPublisher | [p] \<Rightarrow> p | _ \<Rightarrow> MultiPublisher publishers))"

subsection \<open>Every message reaches every sink once\<close>

lemma publish_created:
  assumes "create_publisher no_output spec = Inr p"
  shows "out_lines (publish fr m p s) = out_lines s @ (if no_output then [] else [vis_msg_json fr m]) \<and>
    (case spec of None \<Rightarrow> file_lines (publish fr m p s) = file_lines s
     | Some sp \<Rightarrow> (\<exists>path. publisher_from_output_spec sp = Inr (JsonlPublisher path) \<and>
         file_lines (publish fr m p s) = (file_lines s)(path := file_lines s path @ [vis_msg_json fr m])))"
  using assms
  by (auto simp: create_publisher_def publish_def publisher_from_output_spec_def Let_def
      split: option.splits if_splits)

lemma spec_examples:
  "publisher_from_output_spec ''jsonl: run:1.jsonl '' = Inr (JsonlPublisher ''run:1.jsonl'')"
  "\<not> returns (publisher_from_output_spec ''jsonl:  '')" "\<not> returns (publisher_from_output_spec ''csv:x'')"
  by code_simp+

end
