(* ===== verification/Vision_Setup.thy ===== *)
theory Vision_Setup
  imports Vision_Args Yolo_Detector Overlay Publishers Senders
begin

section \<open>Putting the vision process together\<close>

text \<open>
  The first half of \<open>run_loop\<close> (\<open>src/src/vision/main.py\<close>): the components are built from the
  options in the order of the code, and the first constructor that raises ends the run before
  a frame is read. What the machine offers is the record \<open>machine\<close>.
\<close>

record ('f, 'c) machine =
  mc_opens :: "source_spec \<Rightarrow> bool"                  \<comment> \<open>the capture opens\<close>
  mc_yolo_installed :: bool
  mc_loads_model :: "string \<Rightarrow> bool"
  mc_find_model :: "string \<Rightarrow> pyexc + string \<times> string" \<comment> \<open>\<open>resolve_model_spec\<close> on its file system\<close>
  mc_cv2 :: "module_obj option"
  mc_factories :: "string \<Rightarrow> ('f, 'c) cv_factory"
  mc_linux :: bool
  mc_gui :: "string list option"                    \<comment> \<open>the attributes of \<open>cv2\<close>\<close>

record ('f, 'c) run_parts =
  rp_publisher :: publisher
  rp_camera :: camera
  rp_pattern :: "string option"
  rp_detect :: "(yolo_config \<times> ('f, 'c) cv_tracker \<times> pipeline_config) option"
  rp_sender :: "vis_sender option"
  rp_pusher :: "frame_pusher option"

definition open_camera :: "(source_spec \<Rightarrow> bool) \<Rightarrow> string \<Rightarrow> pyexc + camera" where
  \<comment> \<open>\<open>CameraSource.open\<close>, with the defaults of the constructor\<close>
  "open_camera opens source0 =
     rbind (parse_source source0) (\<lambda>spec. new_camera (cam_config_of (Fin (1 / 4)) (Fin 5) 5) spec (opens spec))"

definition build_detect ::
  "('f, 'c) machine \<Rightarrow> environ \<Rightarrow> vision_config
   \<Rightarrow> pyexc + yolo_config \<times> ('f, 'c) cv_tracker \<times> pipeline_config" where
  "build_detect mc env a =
     rbind (new_yolo (mc_yolo_installed mc) (mc_loads_model mc) (mc_find_model mc)
       (model_path a) (target_class a) (conf_threshold a) (infer_width a) (infer_size a)) (\<lambda>y.
     rbind (new_cv_tracker (mc_cv2 mc) (mc_factories mc) (tracker_arg a)) (\<lambda>t.
     rbind (pipeline_config_of env a) (\<lambda>c. Inr (y, t, c))))"

definition setup_run :: "('f, 'c) machine \<Rightarrow> environ \<Rightarrow> vision_config \<Rightarrow> pyexc + ('f, 'c) run_parts" where
  "setup_run mc env a =
     rbind (create_publisher (no_output a) (output_spec a)) (\<lambda>pub.
     rbind (open_camera (mc_opens mc) (source_arg a)) (\<lambda>cam.
     rbind (if mode a = ''pattern'' then rbind (new_pattern (pattern_mode a)) (\<lambda>p. Inr (Some p)) else Inr None) (\<lambda>pat.
     rbind (if mode a = ''detect'' then rbind (build_detect mc env a) (\<lambda>d. Inr (Some d)) else Inr None) (\<lambda>det.
     rbind (if preview a then ensure_preview_available env (mc_linux mc) (mc_gui mc) else Inr ()) (\<lambda>_.
     Inr \<lparr> rp_publisher = pub, rp_camera = cam, rp_pattern = pat, rp_detect = det,
       rp_sender = (if no_vis_udp a then None else Some (new_vis_sender 512 (Fin 60))),
       rp_pusher = (if no_frame_push a then None
         else Some (new_frame_pusher (backend_http a) (backend_frame_endpoint a)
           (backend_video_max_jpeg_bytes a) 20 (Fin 60) (env ''BACKEND_API_TOKEN''))) \<rparr>)))))"

definition vision_exit :: "pyexc + 'a \<Rightarrow> int" where
  \<comment> \<open>\<open>main\<close>: an \<open>Exception\<close> is reported and gives status 1, \<open>SystemExit\<close> goes through\<close>
  "vision_exit r = (case r of Inr _ \<Rightarrow> 0 | Inl (SystemExit n) \<Rightarrow> n | Inl _ \<Rightarrow> 1)"

subsection \<open>Accepted options are accepted everywhere\<close>

lemma float_of_half: "float_of_text ''0.5'' = Inr (Fin (1 / 2))"
proof -
  have "drop_underscores False (strip ''0.5'') = Some ''0.5''" by code_simp
  moreover have "split_sign ''0.5'' = (False, ''0.5'')" by (simp add: split_sign_def)
  moreover have "lower ''0.5'' = ''0.5''" by code_simp
  moreover have "parse_decimal ''0.5'' = Some (1 / 2)"
    by (simp add: parse_decimal_def parse_exponent_def digits_val_def scale10_def is_digit_def digit_val_def)
  moreover have "f64 (1 / 2) = Fin (1 / 2)" by (rule f64_exact) simp_all
  ultimately show ?thesis by (simp add: float_of_text_def parse_float_def)
qed

lemma float_of_decay: "float_of_text ''0.95'' = Inr (f64 (95 / 100))"
proof -
  have "drop_underscores False (strip ''0.95'') = Some ''0.95''" by code_simp
  moreover have "split_sign ''0.95'' = (False, ''0.95'')" by (simp add: split_sign_def)
  moreover have "lower ''0.95'' = ''0.95''" by code_simp
  moreover have "parse_decimal ''0.95'' = Some (95 / 100)"
    by (simp add: parse_decimal_def parse_exponent_def digits_val_def scale10_def is_digit_def digit_val_def)
  ultimately show ?thesis by (simp add: float_of_text_def parse_float_def)
qed

lemma pipeline_config_default:
  assumes "args_ok a" "env ''VISION_TRACKER_ONLY_CONF_DECAY'' = None" "env ''VISION_TRACKER_ONLY_CONF_FLOOR'' = None"
  shows "returns (pipeline_config_of env a)"
  using assms default_config_ok
  by (auto simp: pipeline_config_of_def float_of_half float_of_decay args_ok_def check_pipeline_config_Inr
      default_config_def returns_iff rbind_Inr_iff Let_def)

lemma tracker_choice_known:
  assumes "t \<in> set TRACKER_CHOICES"
  shows "(case new_cv_tracker cv2 fac t of Inl e \<Rightarrow> \<exists>d. e = RuntimeError d | Inr _ \<Rightarrow> True)"
proof -
  have "lower (strip t) \<in> set TRACKER_CHOICES"
  proof -
    have "lower (strip ''none'') = ''none''" "lower (strip ''kcf'') = ''kcf''" "lower (strip ''csrt'') = ''csrt''"
      by code_simp+
    then show ?thesis using assms by (auto simp: TRACKER_CHOICES_def)
  qed
  then show ?thesis by (simp add: new_cv_tracker_def Let_def split: option.split)
qed

text \<open>
  Options that are accepted are accepted by every component. Whatever the environment and
  the command line, options that \<open>parse_args\<close> returns pass the checks of the detector (but for
  an empty model path, which only the detector refuses), of the pattern generator, of the
  tracker adapter and, with the default decay, of the pipeline; so with everything installed
  the only things that can stop a run from starting are the output, the source and the display.
\<close>

theorem parsed_args_accepted:
  assumes "parse_args env opts = Inr a"
  shows "check_yolo_args (model_path a) (target_class a) (conf_threshold a) (infer_width a) (infer_size a) =
      (if model_path a = [] then Inl (ValueError (Msg ''model_path must not be empty'')) else Inr ()) \<and>
    new_pattern (pattern_mode a) = Inr (pattern_mode a) \<and>
    (case new_cv_tracker cv2 fac (tracker_arg a) of Inl e \<Rightarrow> \<exists>d. e = RuntimeError d | Inr _ \<Rightarrow> True) \<and>
    (env ''VISION_TRACKER_ONLY_CONF_DECAY'' = None \<and> env ''VISION_TRACKER_ONLY_CONF_FLOOR'' = None \<longrightarrow>
       returns (pipeline_config_of env a))"
proof -
  have a: "args_ok a" using assms by (rule parse_args_ok)
  have "check_yolo_args (model_path a) (target_class a) (conf_threshold a) (infer_width a) (infer_size a) =
      (if model_path a = [] then Inl (ValueError (Msg ''model_path must not be empty'')) else Inr ())"
    using a by (cases "infer_size a") (auto simp: check_yolo_args_def args_ok_def)
  moreover have "new_pattern (pattern_mode a) = Inr (pattern_mode a)"
    using a by (simp add: new_pattern_def args_ok_def)
  ultimately show ?thesis
    using tracker_choice_known[of "tracker_arg a" cv2 fac] pipeline_config_default[of a env] a
    by (simp add: args_ok_def)
qed

definition plain_args :: vision_config where
  "plain_args = \<lparr> source_arg = ''webcam:0'', mode = ''detect'', vis_hz = Fin 20, frame_fps = Fin 10,
     jpeg_quality = 80, backend_http = ''http://127.0.0.1:8000'', backend_frame_endpoint = ''/api/frame'',
     backend_video_max_jpeg_bytes = 200000, vis_udp_host = ''127.0.0.1'', vis_udp_port = 9003,
     pattern_mode = ''none'', no_frame_push = False, no_vis_udp = False, preview = False,
     max_frames = None, model_path = ''yolov8n.pt'', target_class = 0, conf_threshold = Fin (1 / 2),
     tracker_arg = ''kcf'', infer_width = 640, infer_size = None, detect_every_n = 1,
     detect_hold_n = 30, search_n = 30, desired_cx = Fin (1 / 2), desired_cy = Fin (1 / 2),
     no_output = False, output_spec = None \<rparr>"

lemma default_plain: "default_args (\<lambda>_. None) = Inr plain_args"
  by (simp add: default_args_def vision_env_str_def vision_env_int_def vision_env_float_def
      plain_args_def protocol_constants)

lemma check_plain: "check_args plain_args = Inr ()"
  by (simp add: check_args_def arg_error_def plain_args_def)

lemma parse_none: "parse_args (\<lambda>_. None) [(''--tracker'', ''csrt'')] = Inr (plain_args\<lparr> tracker_arg := ''csrt'' \<rparr>)"
proof -
  have "check_args (plain_args\<lparr> tracker_arg := ''csrt'' \<rparr>) = Inr ()"
    by (simp add: check_args_def arg_error_def plain_args_def)
  moreover have "plain_args\<lparr> tracker_arg := ''csrt'', backend_video_max_jpeg_bytes := 200000 \<rparr> =
      plain_args\<lparr> tracker_arg := ''csrt'' \<rparr>" by (simp add: plain_args_def)
  ultimately show ?thesis
    by (simp add: parse_args_def default_plain set_option_def chosen_def TRACKER_CHOICES_def
        vision_env_int_def protocol_constants)
qed

theorem parsed_args_accepted_witness:
  "returns (pipeline_config_of (\<lambda>_. None) (plain_args\<lparr> tracker_arg := ''csrt'' \<rparr>))"
  using parsed_args_accepted[OF parse_none, of None "\<lambda>_. sample_cv"] by simp

text \<open>A bad choice exits before anything is built, a bad value is an exception.\<close>

lemma parse_rejects:
  "vision_exit (parse_args (\<lambda>_. None) [(''--tracker'', ''mosse'')]) = 2"
  "vision_exit (parse_args (\<lambda>_. None) [(''--max-frames'', ''x'')]) = 2"
proof -
  have "parse_int ''x'' = None" by code_simp
  then show "vision_exit (parse_args (\<lambda>_. None) [(''--max-frames'', ''x'')]) = 2"
    by (simp add: parse_args_def default_plain set_option_def int_of_text_def usage_exit_def vision_exit_def)
  show "vision_exit (parse_args (\<lambda>_. None) [(''--tracker'', ''mosse'')]) = 2"
    by (simp add: parse_args_def default_plain set_option_def chosen_def TRACKER_CHOICES_def vision_exit_def)
qed

lemma parse_range:
  "parse_args (\<lambda>_. None) [(''--max-frames'', ''0'')] = Inl (ValueError (Msg ''--max-frames must be > 0''))"
proof -
  have "parse_int ''0'' = Some 0" by code_simp
  then show ?thesis
    by (simp add: parse_args_def default_plain set_option_def int_of_text_def usage_exit_def check_args_def
        arg_error_def plain_args_def)
qed

end
