(* ===== verification/Vision_Main.thy ===== *)
theory Vision_Main
  imports Vision_Setup Vis_Schema
begin

section \<open>The vision process's main loop\<close>

text \<open>
  \<open>src/src/vision/main.py\<close>: the message built for the backend, and the loop that reads frames,
  runs the pipeline or a pattern, pushes frames, publishes, sends and draws the preview, each
  at its own rate. What the world decides in an iteration (the frame, the clock, the
  answers of the network, the preview's key) is a value of \<open>loop_env\<close>; the sender and the
  pusher are absent when their option switches them off.
\<close>

subsection \<open>The message for the backend\<close>

fun tracking_state_code :: "vis_state \<Rightarrow> int" where
  \<comment> \<open>\<open>_TRACKING_STATE_TO_CODE\<close>\<close>
  "tracking_state_code NO_TARGET = 1"
| "tracking_state_code TARGET_DETECTED = 2"
| "tracking_state_code TRACKING = 3"
| "tracking_state_code SEARCHING = 4"

lemma tracking_codes:
  \<comment> \<open>the sender's codes are the ones the backend's validator and the flight controller know\<close>
  "map tracking_state_code Enum.enum = TRACKING_STATES" "inj tracking_state_code"
proof -
  show m: "map tracking_state_code Enum.enum = TRACKING_STATES"
    by (simp add: enum_vis_state_def TRACKING_STATES_def)
  show "inj tracking_state_code" unfolding inj_def by (intro allI, case_tac x; case_tac y; simp)
qed

definition clamp_signed :: "pyfloat \<Rightarrow> pyfloat" where
  \<comment> \<open>\<open>max(-1.0, min(1.0, v))\<close>\<close>
  "clamp_signed v = fmax (Fin (- 1)) (fmin (Fin 1) v)"

definition build_vis_payload :: "int \<Rightarrow> pyfloat \<Rightarrow> vis_state \<Rightarrow> norm_bbox \<Rightarrow> pyfloat \<Rightarrow> pydict" where
  "build_vis_payload seq timestamp_s st b conf =
     (let tracking_state = tracking_state_code st in
      if tracking_state \<noteq> 3
      then [(''type'', PStr ''VIS''), (''seq'', PInt seq), (''timestamp_s'', PFloat timestamp_s),
        (''tracking_state'', PInt tracking_state), (''loc_x'', PFloat (Fin 0)), (''loc_y'', PFloat (Fin 0)),
        (''bound_w'', PFloat (Fin 0)), (''bound_h'', PFloat (Fin 0)), (''confidence'', PFloat (Fin 0))]
      else (let loc_x = clamp_signed (fmul (fsub (cx b) (Fin (1 / 2))) (Fin 2));
                loc_y = clamp_signed (fmul (fsub (Fin (1 / 2)) (cy b)) (Fin 2))
        in [(''type'', PStr ''VIS''), (''seq'', PInt seq), (''timestamp_s'', PFloat timestamp_s),
        (''tracking_state'', PInt tracking_state), (''loc_x'', PFloat loc_x), (''loc_y'', PFloat loc_y),
        (''bound_w'', PFloat (clamp01 (nw b))), (''bound_h'', PFloat (clamp01 (nh b))),
        (''confidence'', PFloat (clamp01 conf))]))"

subsection \<open>The loop\<close>

record 'p loop_state =
  next_vis_emit_ts :: pyfloat
  next_frame_push_ts :: pyfloat
  frame_id :: int
  emitted_count :: int
  vis_seq :: int
  consecutive_black_frames :: int
  black_frame_warn_emitted :: bool
  warned_at :: "int list"        \<comment> \<open>frames at which the low-variance warning was printed\<close>
  published :: "vis_msg list"    \<comment> \<open>what \<open>publish\<close> was called with\<close>
  payloads :: "pydict list"      \<comment> \<open>what \<open>send\<close> was called with\<close>
  loop_out :: sinks
  sender :: "vis_sender option"
  pusher :: "frame_pusher option"
  proc_state :: 'p

record 'f loop_env =
  le_frame :: "'f option"        \<comment> \<open>a frame, or a read that failed\<close>
  le_now :: pyfloat
  le_status :: "int option"      \<comment> \<open>the answer to a pushed frame\<close>
  le_accepts :: bool             \<comment> \<open>whether the socket takes a datagram\<close>
  le_log_clk :: pyfloat
  le_quit :: bool                \<comment> \<open>the preview's key\<close>

record ('f, 'p) loop_setup =
  lp_config :: vision_config
  lp_publisher :: publisher
  lp_label :: string             \<comment> \<open>\<open>source.src_label\<close>\<close>
  lp_live :: bool                \<comment> \<open>\<open>source.is_live\<close>\<close>
  lp_shape :: "'f \<Rightarrow> int \<times> int"
  lp_variance :: "'f \<Rightarrow> pyfloat option" \<comment> \<open>\<open>None\<close>: \<open>var\<close> raises\<close>
  lp_encode :: "'f \<Rightarrow> int \<Rightarrow> nat list option"
  lp_process :: "'f \<Rightarrow> int \<Rightarrow> (pyexc, 'p, tracker_result) eff"

definition interval_of :: "pyfloat \<Rightarrow> pyfloat" where
  \<comment> \<open>the division cannot raise, the rate is positive\<close>
  "interval_of hz = (if flt (Fin 0) hz then (case fdiv (Fin 1) hz of Some q \<Rightarrow> q | None \<Rightarrow> Fin 0) else Fin 0)"

definition BLACK_FRAME_WARN_AFTER :: int where
  "BLACK_FRAME_WARN_AFTER = 30"

definition low_variance :: "pyfloat option \<Rightarrow> bool" where
  "low_variance v = (let variance = (case v of None \<Rightarrow> NaN | Some x \<Rightarrow> x) in flt variance (Fin 1))"

definition check_black :: "bool \<Rightarrow> 'p loop_state \<Rightarrow> 'p loop_state" where
  "check_black low s =
     (if low
      then (let n = consecutive_black_frames s + 1; s1 = s\<lparr> consecutive_black_frames := n \<rparr>
            in if BLACK_FRAME_WARN_AFTER \<le> n \<and> \<not> black_frame_warn_emitted s
               then s1\<lparr> warned_at := warned_at s @ [frame_id s], black_frame_warn_emitted := True \<rparr>
               else s1)
      else s\<lparr> consecutive_black_frames := 0, black_frame_warn_emitted := False \<rparr>)"

definition push_due :: "pyfloat \<Rightarrow> pyfloat \<Rightarrow> pyfloat \<Rightarrow> bool" where
  \<comment> \<open>\<open>interval == 0.0 or now >= next\<close>\<close>
  "push_due interval now_s nxt = (feq interval (Fin 0) \<or> fle nxt now_s)"

definition push_step :: "('f, 'p) loop_setup \<Rightarrow> 'f loop_env \<Rightarrow> 'f \<Rightarrow> 'p loop_state \<Rightarrow> 'p loop_state" where
  "push_step L env frame s =
     (let interval = interval_of (frame_fps (lp_config L)) in
      case pusher s of
        None \<Rightarrow> s
      | Some p \<Rightarrow>
          if push_due interval (le_now env) (next_frame_push_ts s)
          then s\<lparr> pusher := Some (snd (push_frame (lp_encode L) (le_status env) (le_log_clk env) frame
                     (jpeg_quality (lp_config L)) p)),
                  next_frame_push_ts := (if flt (Fin 0) interval then fadd (le_now env) interval
                     else next_frame_push_ts s) \<rparr>
          else s)"

definition send_step :: "(real \<Rightarrow> string) \<Rightarrow> 'f loop_env \<Rightarrow> tracker_result \<Rightarrow> 'p loop_state \<Rightarrow> 'p loop_state" where
  "send_step fr env r s =
     (case sender s of
        None \<Rightarrow> s
      | Some v \<Rightarrow>
          (let d = build_vis_payload (vis_seq s) (le_now env) (tr_state r) (tr_bbox r) (tr_conf r)
           in s\<lparr> sender := Some (vis_send fr (le_accepts env) (le_log_clk env) d v),
                 payloads := payloads s @ [d], vis_seq := vis_seq s + 1 \<rparr>))"

definition emit_step ::
  "(real \<Rightarrow> string) \<Rightarrow> ('f, 'p) loop_setup \<Rightarrow> 'f loop_env \<Rightarrow> 'f \<Rightarrow> tracker_result \<Rightarrow> 'p loop_state \<Rightarrow> 'p loop_state" where
  "emit_step fr L env frame r s =
     (let interval = interval_of (vis_hz (lp_config L));
          (img_h, img_w) = lp_shape L frame;
          message = \<lparr> vm_ts = le_now env, vm_state = tr_state r, vm_bbox = tr_bbox r, vm_conf = tr_conf r,
            vm_track_id = tr_track_id r, vm_frame_id = Some (frame_id s), vm_src = Some (lp_label L),
            vm_img_wh = Some (img_w, img_h) \<rparr>
      in if push_due interval (le_now env) (next_vis_emit_ts s)
         then (let s1 = s\<lparr> loop_out := publish fr message (lp_publisher L) (loop_out s),
                     published := published s @ [message], emitted_count := emitted_count s + 1 \<rparr>;
                   s2 = send_step fr env r s1
               in if flt (Fin 0) interval then s2\<lparr> next_vis_emit_ts := fadd (le_now env) interval \<rparr> else s2)
         else s)"

datatype flow = Go_On | Break

definition loop_iteration ::
  "(real \<Rightarrow> string) \<Rightarrow> ('f, 'p) loop_setup \<Rightarrow> 'f loop_env \<Rightarrow> (pyexc, 'p loop_state, flow) eff" where
  "loop_iteration fr L env s0 =
     (case le_frame env of
        None \<Rightarrow> (Inr (if lp_live L then Go_On else Break), s0)
      | Some frame \<Rightarrow>
          (let s1 = s0\<lparr> frame_id := frame_id s0 + 1 \<rparr>;
               s2 = check_black (low_variance (lp_variance L frame)) s1
           in case lp_process L frame (frame_id s2) (proc_state s2) of
                (Inl e, p) \<Rightarrow> (Inl e, s2\<lparr> proc_state := p \<rparr>)
              | (Inr r, p) \<Rightarrow>
                  (let s3 = push_step L env frame (s2\<lparr> proc_state := p \<rparr>);
                       s4 = emit_step fr L env frame r s3;
                       (img_h, img_w) = lp_shape L frame;
                       drawn = (if preview (lp_config L) then rbind (overlay_rect img_w img_h (tr_bbox r)) (\<lambda>_. Inr ())
                         else Inr ());
                       stop_by_key = (preview (lp_config L) \<and> le_quit env);
                       stop_by_count = (case max_frames (lp_config L) of None \<Rightarrow> False | Some n \<Rightarrow> n \<le> frame_id s4)
                   in (rbind drawn (\<lambda>_. Inr (if stop_by_key \<or> stop_by_count then Break else Go_On)), s4))))"

fun loop_frames ::
  "(real \<Rightarrow> string) \<Rightarrow> ('f, 'p) loop_setup \<Rightarrow> 'f loop_env list \<Rightarrow> (pyexc, 'p loop_state, unit) eff" where
  \<comment> \<open>the iterations until a break, an exception, or the end of what is observed\<close>
  "loop_frames fr L [] s = (Inr (), s)"
| "loop_frames fr L (e # es) s =
     ebind (loop_iteration fr L e) (\<lambda>f. case f of Break \<Rightarrow> ereturn () | Go_On \<Rightarrow> loop_frames fr L es) s"

definition loop_start :: "vis_sender \<Rightarrow> frame_pusher \<Rightarrow> 'p \<Rightarrow> vision_config \<Rightarrow> 'p loop_state" where
  "loop_start v fp p cfg =
     \<lparr> next_vis_emit_ts = Fin 0, next_frame_push_ts = Fin 0, frame_id = 0, emitted_count = 0, vis_seq = 1,
       consecutive_black_frames = 0, black_frame_warn_emitted = False, warned_at = [], published = [],
       payloads = [], loop_out = \<lparr> out_lines = [], file_lines = (\<lambda>_. []) \<rparr>,
       sender = (if no_vis_udp cfg then None else Some v),
       pusher = (if no_frame_push cfg then None else Some fp), proc_state = p \<rparr>"

definition run_loop ::
  "(real \<Rightarrow> string) \<Rightarrow> ('f, 'p) loop_setup \<Rightarrow> vis_sender \<Rightarrow> frame_pusher \<Rightarrow> 'p \<Rightarrow> 'f loop_env list
   \<Rightarrow> (pyexc + int) \<times> 'p loop_state" where
  "run_loop fr L v fp p es =
     (case loop_frames fr L es (loop_start v fp p (lp_config L)) of
        (Inl e, s) \<Rightarrow> (Inl e, s)
      | (Inr _, s) \<Rightarrow> (Inr (emitted_count s), s))"

definition detect_process where
  \<comment> \<open>mode \<open>detect\<close>\<close>
  "detect_process c det tk shape frame i p = process_frame c det tk shape frame i p"

definition pattern_process ::
  "(pyfloat \<Rightarrow> pyfloat) \<Rightarrow> string \<Rightarrow> 'f \<Rightarrow> int \<Rightarrow> (pyexc, unit, tracker_result) eff" where
  \<comment> \<open>mode \<open>pattern\<close>\<close>
  "pattern_process msin m frame i p = (Inr (pattern_update msin m i), p)"

record summary =
  sum_vis_ok :: nat
  sum_vis_fail :: nat
  sum_vis_drop :: nat
  sum_frame_ok :: nat
  sum_frame_fail :: nat
  sum_frame_drop :: nat

definition shutdown_summary :: "vis_sender option \<Rightarrow> frame_pusher option \<Rightarrow> summary option" where
  \<comment> \<open>the numbers of \<open>_emit_shutdown_summary\<close>; a missing object counts as zeros\<close>
  "shutdown_summary v p =
     (if v = None \<and> p = None then None
      else (let c = (\<lambda>f. case v of None \<Rightarrow> 0 | Some x \<Rightarrow> f x); d = (\<lambda>f. case p of None \<Rightarrow> 0 | Some x \<Rightarrow> f x)
        in Some \<lparr> sum_vis_ok = c vs_sent_ok, sum_vis_fail = c vs_sent_fail, sum_vis_drop = c vs_dropped,
          sum_frame_ok = d fp_ok, sum_frame_fail = d fp_fail, sum_frame_drop = d fp_dropped \<rparr>))"

datatype closing = Release_Source | Close_Publisher | Close_Pusher | Close_Sender | Destroy_Windows

definition run_finally :: "vision_config \<Rightarrow> 'p loop_state \<Rightarrow> summary option \<times> closing list" where
  \<comment> \<open>the \<open>finally\<close> block: the summary, and what is closed, in order; with the preview on, OpenCV is loaded\<close>
  "run_finally cfg s =
     (shutdown_summary (sender s) (pusher s),
      [Release_Source, Close_Publisher] @ (if pusher s = None then [] else [Close_Pusher]) @
      (if sender s = None then [] else [Close_Sender]) @ (if preview cfg then [Destroy_Windows] else []))"

subsection \<open>The backend accepts every message\<close>

lemma clamp_signed_between: "between (Fin (- 1)) (Fin 1) (clamp_signed v)"
  by (cases v) (auto simp: clamp_signed_def fmax_def fmin_def between_def)

lemma build_vis_payload_message:
  "\<exists>x y w h c. build_vis_payload q t st b conf = vis_message q t (tracking_state_code st) x y w h c \<and>
     (st = TRACKING \<or> (x = Fin 0 \<and> y = Fin 0 \<and> w = Fin 0 \<and> h = Fin 0 \<and> c = Fin 0)) \<and>
     between (Fin (- 1)) (Fin 1) x \<and> between (Fin (- 1)) (Fin 1) y \<and>
     between (Fin 0) (Fin 1) w \<and> between (Fin 0) (Fin 1) h \<and> between (Fin 0) (Fin 1) c"
proof (cases "st = TRACKING")
  case True
  have "between (Fin 0) (Fin 1) (clamp01 v)" for v
    using clamp01_in_unit[of v] by (simp add: in_unit_def between_def)
  then show ?thesis using True clamp_signed_between
    by (auto simp: build_vis_payload_def vis_message_def Let_def)
next
  case False
  then have "tracking_state_code st \<noteq> 3" by (cases st) auto
  then show ?thesis by (auto simp: build_vis_payload_def vis_message_def between_def)
qed

lemma build_vis_payload_wf: "vis_wf (build_vis_payload seq t st b conf)"
proof -
  have c: "tracking_state_code st \<in> set TRACKING_STATES" "st \<noteq> TRACKING \<or> tracking_state_code st = TRACKING_STATE_TRACKING"
    by (cases st; simp add: TRACKING_STATES_def TRACKING_STATE_TRACKING_def)+
  obtain x y w h cf where
    "build_vis_payload seq t st b conf = vis_message seq t (tracking_state_code st) x y w h cf"
    "st = TRACKING \<or> (x = Fin 0 \<and> y = Fin 0 \<and> w = Fin 0 \<and> h = Fin 0 \<and> cf = Fin 0)"
    "between (Fin (- 1)) (Fin 1) x" "between (Fin (- 1)) (Fin 1) y"
    "between (Fin 0) (Fin 1) w" "between (Fin 0) (Fin 1) h" "between (Fin 0) (Fin 1) cf"
    using build_vis_payload_message[of seq t st b conf] by blast
  then show ?thesis using c by (auto intro!: vis_message_wf)
qed

text \<open>
  The two processes agree on the message. Whatever the pipeline or a pattern returns, NaN,
  infinities and boxes beyond the frame included, the message built from it passes the
  backend's validation and comes out unchanged, so no vision message is ever dropped for its
  content, and what the backend stores is what the vision process meant.
\<close>

theorem vis_payload_accepted:
  "validate_vis_message (PDict (build_vis_payload seq t st b conf)) = Inr (build_vis_payload seq t st b conf) \<and>
   vis_wf (build_vis_payload seq t st b conf)"
  using build_vis_payload_wf validate_vis_fixpoint by blast

subsection \<open>What the loop does to its counters\<close>

lemma check_black_fields [frame_simps]:
  "frame_id (check_black low s) = frame_id s" "published (check_black low s) = published s"
  "payloads (check_black low s) = payloads s" "vis_seq (check_black low s) = vis_seq s"
  "emitted_count (check_black low s) = emitted_count s" "sender (check_black low s) = sender s"
  "next_vis_emit_ts (check_black low s) = next_vis_emit_ts s"
  by (simp_all add: check_black_def Let_def)

lemma push_step_fields [frame_simps]:
  "frame_id (push_step L env f s) = frame_id s" "published (push_step L env f s) = published s"
  "payloads (push_step L env f s) = payloads s" "vis_seq (push_step L env f s) = vis_seq s"
  "emitted_count (push_step L env f s) = emitted_count s" "sender (push_step L env f s) = sender s"
  "next_vis_emit_ts (push_step L env f s) = next_vis_emit_ts s"
  "consecutive_black_frames (push_step L env f s) = consecutive_black_frames s"
  "black_frame_warn_emitted (push_step L env f s) = black_frame_warn_emitted s"
  "warned_at (push_step L env f s) = warned_at s"
  by (simp_all add: push_step_def Let_def split: option.splits)

lemma emit_step_fields [frame_simps]:
  "frame_id (emit_step fr L env f r s) = frame_id s"
  "consecutive_black_frames (emit_step fr L env f r s) = consecutive_black_frames s"
  "black_frame_warn_emitted (emit_step fr L env f r s) = black_frame_warn_emitted s"
  "warned_at (emit_step fr L env f r s) = warned_at s"
  by (simp_all add: emit_step_def send_step_def Let_def split: prod.splits option.splits)

definition seqs_ok :: "'p loop_state \<Rightarrow> bool" where
  "seqs_ok s = (vis_seq s = 1 + int (length (payloads s)) \<and> list_all vis_wf (payloads s) \<and>
     map (\<lambda>d. dget d ''seq'') (payloads s) = map (\<lambda>i. Some (PInt i)) [1..int (length (payloads s))] \<and>
     length (payloads s) = (case sender s of None \<Rightarrow> 0 | Some _ \<Rightarrow> length (published s)))"

definition pace_ok :: "pyfloat \<Rightarrow> 'p loop_state \<Rightarrow> bool" where
  "pace_ok interval s = (flt (Fin 0) interval \<longrightarrow>
     successively (\<lambda>a b. fle (fadd a interval) b) (map vm_ts (published s)) \<and>
     (published s \<noteq> [] \<longrightarrow> next_vis_emit_ts s = fadd (vm_ts (last (published s))) interval))"

definition ids_ok_upto :: "'p loop_state \<Rightarrow> bool" where
  "ids_ok_upto s = (emitted_count s = int (length (published s)) \<and>
     sorted_wrt (<) (map (\<lambda>m. case vm_frame_id m of Some i \<Rightarrow> i | None \<Rightarrow> 0) (published s)) \<and>
     list_all (\<lambda>m. case vm_frame_id m of Some i \<Rightarrow> i \<le> frame_id s | None \<Rightarrow> False) (published s))"

definition loop_ok :: "('f, 'p) loop_setup \<Rightarrow> 'p loop_state \<Rightarrow> bool" where
  "loop_ok L s = (seqs_ok s \<and> pace_ok (interval_of (vis_hz (lp_config L))) s \<and> ids_ok_upto s \<and>
     (sender s = None) = no_vis_udp (lp_config L))"

lemma sender_emit: "(sender (emit_step fr L env f r s) = None) = (sender s = None)"
  by (auto simp: emit_step_def send_step_def Let_def split: prod.splits option.splits)

lemma payload_seq: "dget (build_vis_payload q t st b conf) ''seq'' = Some (PInt q)"
  by (simp add: build_vis_payload_def Let_def)

lemma seqs_emit: "seqs_ok s \<Longrightarrow> seqs_ok (emit_step fr L env f r s)"
  using build_vis_payload_wf
  by (auto simp: emit_step_def send_step_def seqs_ok_def Let_def payload_seq upto_rec2 split: prod.splits option.splits)

lemma pace_emit: "pace_ok (interval_of (vis_hz (lp_config L))) s \<Longrightarrow>
  pace_ok (interval_of (vis_hz (lp_config L))) (emit_step fr L env f r s)"
  by (cases "published s" rule: rev_cases)
    (auto simp: emit_step_def send_step_def pace_ok_def Let_def push_due_def successively_append_iff feq_def
      split: prod.splits option.splits)

lemma ids_emit:
  assumes "ids_ok_upto s" "frame_id s' = frame_id s + 1" "published s' = published s" "emitted_count s' = emitted_count s"
  shows "ids_ok_upto (emit_step fr L env f r s')"
proof -
  let ?id = "\<lambda>m. case vm_frame_id m of Some i \<Rightarrow> i | None \<Rightarrow> 0"
  have "list_all (\<lambda>m. ?id m < frame_id s') (published s)"
    "list_all (\<lambda>m. case vm_frame_id m of Some i \<Rightarrow> i \<le> frame_id s' | None \<Rightarrow> False) (published s)"
    using assms(1,2) by (auto simp: ids_ok_upto_def list_all_iff split: option.splits)
  then show ?thesis
    using assms by (auto simp: emit_step_def send_step_def ids_ok_upto_def Let_def sorted_wrt_append list_all_iff
        split: prod.splits option.splits)
qed

text \<open>A frame goes through the three steps in turn.\<close>

definition before_emit ::
  "('f, 'p) loop_setup \<Rightarrow> 'f loop_env \<Rightarrow> 'f \<Rightarrow> 'p \<Rightarrow> 'p loop_state \<Rightarrow> 'p loop_state" where
  "before_emit L env frame p s =
     push_step L env frame ((check_black (low_variance (lp_variance L frame)) (s\<lparr> frame_id := frame_id s + 1 \<rparr>))
       \<lparr> proc_state := p \<rparr>)"

lemma loop_iteration_cases:
  obtains (idle) "le_frame env = None" "loop_iteration fr L env s = (Inr (if lp_live L then Go_On else Break), s)"
  | (raised) frame e p where "le_frame env = Some frame"
      "loop_iteration fr L env s = (Inl e, (check_black (low_variance (lp_variance L frame))
         (s\<lparr> frame_id := frame_id s + 1 \<rparr>))\<lparr> proc_state := p \<rparr>)"
  | (finished) frame r p x where "le_frame env = Some frame"
      "lp_process L frame (frame_id s + 1) (proc_state s) = (Inr r, p)"
      "loop_iteration fr L env s = (x, emit_step fr L env frame r (before_emit L env frame p s))"
      "(case max_frames (lp_config L) of None \<Rightarrow> False | Some n \<Rightarrow> n \<le> frame_id s + 1) \<Longrightarrow> x \<noteq> Inr Go_On"
proof (cases "le_frame env")
  case None
  then show thesis using idle by (simp add: loop_iteration_def)
next
  case (Some frame)
  have ps: "proc_state (check_black low s) = proc_state s" for low and s :: "'b loop_state"
    by (simp add: check_black_def Let_def)
  obtain x p where x: "lp_process L frame (frame_id s + 1) (proc_state s) = (x, p)" by fastforce
  show thesis
  proof (cases x)
    case (Inl e)
    then show thesis using raised[of frame e p] Some x
      by (simp add: loop_iteration_def frame_simps ps Let_def)
  next
    case (Inr r)
    obtain h w where "lp_shape L frame = (h, w)" by fastforce
    then show thesis using finished[of frame r p "fst (loop_iteration fr L env s)"] Some x Inr
      by (cases "preview (lp_config L)"; cases "overlay_rect w h (tr_bbox r)")
        (simp_all add: loop_iteration_def frame_simps ps before_emit_def Let_def cong: option.case_cong)
  qed
qed

lemma before_emit_fields [frame_simps]:
  "frame_id (before_emit L env f p s) = frame_id s + 1" "published (before_emit L env f p s) = published s"
  "payloads (before_emit L env f p s) = payloads s" "vis_seq (before_emit L env f p s) = vis_seq s"
  "emitted_count (before_emit L env f p s) = emitted_count s" "sender (before_emit L env f p s) = sender s"
  "next_vis_emit_ts (before_emit L env f p s) = next_vis_emit_ts s"
  by (simp_all add: before_emit_def frame_simps)

lemma loop_ok_cong:
  assumes "loop_ok L s" "published s' = published s" "payloads s' = payloads s" "vis_seq s' = vis_seq s"
    "emitted_count s' = emitted_count s" "sender s' = sender s" "next_vis_emit_ts s' = next_vis_emit_ts s"
    "frame_id s \<le> frame_id s'"
  shows "loop_ok L s'"
  using assms unfolding loop_ok_def seqs_ok_def pace_ok_def ids_ok_upto_def
  by (auto simp: list_all_iff split: option.splits)

lemma loop_iteration_ok:
  assumes "loop_ok L s"
  shows "loop_ok L (snd (loop_iteration fr L env s))"
proof (cases rule: loop_iteration_cases[of env fr L s])
  case (raised frame e p)
  show ?thesis unfolding raised snd_conv by (rule loop_ok_cong[OF assms]) (simp_all add: frame_simps)
next
  case (finished frame r p x)
  have "seqs_ok (before_emit L env frame p s)" "pace_ok (interval_of (vis_hz (lp_config L))) (before_emit L env frame p s)"
    using assms unfolding loop_ok_def seqs_ok_def pace_ok_def
    by (simp_all add: frame_simps cong: option.case_cong)
  moreover have "ids_ok_upto (emit_step fr L env frame r (before_emit L env frame p s))"
    using assms by (intro ids_emit[of s]) (simp_all add: loop_ok_def frame_simps)
  moreover have "(sender (before_emit L env frame p s) = None) = no_vis_udp (lp_config L)"
    using assms by (simp add: loop_ok_def frame_simps)
  ultimately show ?thesis unfolding finished snd_conv loop_ok_def
    by (simp add: sender_emit seqs_emit pace_emit)
qed (use assms in simp)

lemma loop_frames_ok: "loop_ok L s \<Longrightarrow> loop_ok L (snd (loop_frames fr L es s))"
proof (induction es arbitrary: s)
  case (Cons e es)
  obtain x s' where x: "loop_iteration fr L e s = (x, s')" by fastforce
  have "loop_ok L s'" using loop_iteration_ok[OF Cons.prems, of fr e] x by simp
  then show ?case using Cons.IH[of s'] x
    by (cases x) (auto simp: ebind_def split: flow.splits)
qed simp

text \<open>
  C25: The loop paces and numbers what it emits. For any source, processor, network and clock:
  with a positive interval two published messages are at least that interval apart, each stands
  for a later frame than the one before, the count returned is their number, and the messages
  sent to the backend are one for each published one, all well formed, numbered 1, 2, 3 and so
  on without gap (none are sent with \<open>--no-vis-udp\<close>).
\<close>

theorem run_loop_emits:
  "let s = snd (run_loop fr L v fp p es); interval = interval_of (vis_hz (lp_config L)) in
   (if flt (Fin 0) interval then successively (\<lambda>a b. fle (fadd a interval) b) (map vm_ts (published s)) else True) \<and>
   sorted_wrt (<) (map (\<lambda>m. case vm_frame_id m of Some i \<Rightarrow> i | None \<Rightarrow> 0) (published s)) \<and>
   emitted_count s = int (length (published s)) \<and> list_all vis_wf (payloads s) \<and>
   length (payloads s) = (if no_vis_udp (lp_config L) then 0 else length (published s)) \<and>
   map (\<lambda>d. dget d ''seq'') (payloads s) = map (\<lambda>i. Some (PInt i)) [1..int (length (payloads s))]"
proof -
  have "loop_ok L (loop_start v fp p (lp_config L))"
    by (simp add: loop_ok_def loop_start_def seqs_ok_def pace_ok_def ids_ok_upto_def)
  then have "loop_ok L (snd (loop_frames fr L es (loop_start v fp p (lp_config L))))" by (rule loop_frames_ok)
  moreover have "snd (run_loop fr L v fp p es) = snd (loop_frames fr L es (loop_start v fp p (lp_config L)))"
    by (auto simp: run_loop_def split: prod.splits sum.splits)
  ultimately show ?thesis
    by (auto simp: loop_ok_def seqs_ok_def pace_ok_def ids_ok_upto_def Let_def split: option.splits)
qed

subsection \<open>What is on the wire\<close>

definition wire_of :: "'p loop_state \<Rightarrow> nat list list" where
  "wire_of s = (case sender s of None \<Rightarrow> [] | Some v \<Rightarrow> vs_wire v)"

definition wire_ok :: "(real \<Rightarrow> string) \<Rightarrow> int \<Rightarrow> 'p loop_state \<Rightarrow> bool" where
  "wire_ok fr mx s = (list_all vis_wf (payloads s) \<and>
     (case sender s of None \<Rightarrow> True | Some v \<Rightarrow> vs_max_bytes v = mx \<and>
        list_all (\<lambda>data. int (length data) \<le> mx \<and> data \<in> json_bytes fr ` set (payloads s)) (vs_wire v)))"

lemma wire_ok_cong:
  "wire_ok fr mx s \<Longrightarrow> sender s' = sender s \<Longrightarrow> payloads s' = payloads s \<Longrightarrow> wire_ok fr mx s'"
  by (simp add: wire_ok_def cong: option.case_cong)

lemma wire_send: "wire_ok fr mx s \<Longrightarrow> wire_ok fr mx (send_step fr env r s)"
  using build_vis_payload_wf
  by (auto simp: wire_ok_def send_step_def vis_send_def list_all_iff Let_def split: option.splits)

lemma wire_emit:
  assumes "wire_ok fr mx s"
  shows "wire_ok fr mx (emit_step fr L env f r s)"
proof -
  have sent: "wire_ok fr mx (send_step fr env r (s\<lparr> loop_out := x, published := y, emitted_count := z \<rparr>))" for x y z
    by (rule wire_send, rule wire_ok_cong[OF assms]) simp_all
  have "wire_ok fr mx (send_step fr env r (s\<lparr> loop_out := x, published := y, emitted_count := z \<rparr>)
      \<lparr> next_vis_emit_ts := u \<rparr>)" for x y z u
    by (rule wire_ok_cong[OF sent]) simp_all
  then show ?thesis using sent assms by (simp add: emit_step_def Let_def split: prod.split)
qed

lemma wire_iteration: "wire_ok fr mx s \<Longrightarrow> wire_ok fr mx (snd (loop_iteration fr L env s))"
proof (cases rule: loop_iteration_cases[of env fr L s])
  case (raised frame e p)
  then show "wire_ok fr mx s \<Longrightarrow> ?thesis" by (auto simp: frame_simps elim!: wire_ok_cong)
next
  case (finished frame r p x)
  assume "wire_ok fr mx s"
  then have "wire_ok fr mx (before_emit L env frame p s)" by (rule wire_ok_cong) (simp_all add: frame_simps)
  then show ?thesis unfolding finished snd_conv by (rule wire_emit)
qed simp

lemma wire_frames: "wire_ok fr mx s \<Longrightarrow> wire_ok fr mx (snd (loop_frames fr L es s))"
proof (induction es arbitrary: s)
  case (Cons e es)
  obtain x s' where x: "loop_iteration fr L e s = (x, s')" by fastforce
  have "wire_ok fr mx s'" using wire_iteration[OF Cons.prems, of L e] x by simp
  then show ?case using Cons.IH[of s'] x by (cases x) (auto simp: ebind_def split: flow.splits)
qed simp

lemma run_loop_wire:
  assumes "vs_wire v = []"
  shows "list_all (\<lambda>data. int (length data) \<le> vs_max_bytes v \<and>
     (\<exists>d \<in> set (payloads (snd (run_loop fr L v fp p es))). vis_wf d \<and> data = json_bytes fr d))
     (wire_of (snd (run_loop fr L v fp p es)))"
proof -
  have "wire_ok fr (vs_max_bytes v) (loop_start v fp p (lp_config L))"
    using assms by (simp add: wire_ok_def loop_start_def)
  then have "wire_ok fr (vs_max_bytes v) (snd (loop_frames fr L es (loop_start v fp p (lp_config L))))" by (rule wire_frames)
  moreover have "snd (run_loop fr L v fp p es) = snd (loop_frames fr L es (loop_start v fp p (lp_config L)))"
    by (auto simp: run_loop_def split: prod.splits sum.splits)
  ultimately show ?thesis by (auto simp: wire_ok_def wire_of_def list_all_iff split: option.splits)
qed

subsection \<open>A limited run ends\<close>

definition frames_in :: "'f loop_env list \<Rightarrow> int" where
  "frames_in es = int (length (filter (\<lambda>e. le_frame e \<noteq> None) es))"

lemma loop_frames_stops:
  assumes "max_frames (lp_config L) = Some n" "frame_id s < n" "n - frame_id s \<le> frames_in es"
  shows "loop_frames fr L (es @ later) s = loop_frames fr L es s"
  using assms(2,3)
proof (induction es arbitrary: s)
  case (Cons e es)
  show ?case
  proof (cases rule: loop_iteration_cases[of e fr L s])
    case idle
    then have "n - frame_id s \<le> frames_in es" using Cons.prems by (simp add: frames_in_def)
    then show ?thesis using idle Cons by (simp add: ebind_def)
  next
    case (raised frame x p)
    then show ?thesis by (simp add: ebind_def)
  next
    case (finished frame r p x)
    have c: "frames_in (e # es) = frames_in es + 1" using finished(1) by (simp add: frames_in_def)
    have i: "frame_id (emit_step fr L e frame r (before_emit L e frame p s)) = frame_id s + 1"
      by (simp add: frame_simps)
    show ?thesis
    proof (cases "x = Inr Go_On")
      case False
      then show ?thesis using finished(3) by (cases x) (auto simp: ebind_def split: flow.splits)
    next
      case True
      then have "\<not> n \<le> frame_id s + 1" using finished(4) assms(1) by auto
      then show ?thesis using finished(3) True Cons.IH[of "emit_step fr L e frame r (before_emit L e frame p s)"]
          Cons.prems(2) c i by (simp add: ebind_def)
    qed
  qed
qed (use assms(2) in \<open>simp add: frames_in_def\<close>)

lemma loop_frames_bounded:
  assumes "max_frames (lp_config L) = Some n" "frame_id s < n"
  shows "frame_id (snd (loop_frames fr L es s)) \<le> n"
  using assms(2)
proof (induction es arbitrary: s)
  case (Cons e es)
  show ?case
  proof (cases rule: loop_iteration_cases[of e fr L s])
    case idle
    then show ?thesis using Cons by (simp add: ebind_def)
  next
    case (raised frame x p)
    then show ?thesis using Cons.prems by (simp add: ebind_def frame_simps)
  next
    case (finished frame r p x)
    have i: "frame_id (emit_step fr L e frame r (before_emit L e frame p s)) = frame_id s + 1"
      by (simp add: frame_simps)
    show ?thesis
    proof (cases "x = Inr Go_On")
      case False
      then show ?thesis using finished(3) Cons.prems i by (cases x) (auto simp: ebind_def split: flow.splits)
    next
      case True
      then have "\<not> n \<le> frame_id s + 1" using finished(4) assms(1) by auto
      then show ?thesis using finished(3) True Cons.IH[of "emit_step fr L e frame r (before_emit L e frame p s)"] i
        by (simp add: ebind_def)
    qed
  qed
qed simp

text \<open>
  A limited run ends. With \<open>--max-frames n\<close> the loop handles at most \<open>n\<close> frames, and once
  the source has delivered \<open>n\<close> frames it has ended: whatever the source would deliver afterwards
  changes nothing, however many reads of a live source failed in between.
\<close>

theorem run_loop_terminates:
  assumes "check_args (lp_config L) = Inr ()" "max_frames (lp_config L) = Some n" "n \<le> frames_in es"
  shows "run_loop fr L v fp p (es @ later) = run_loop fr L v fp p es \<and>
    frame_id (snd (run_loop fr L v fp p es)) \<le> n"
proof -
  have n: "0 < n" using assms(1,2) by (auto simp: check_args_def arg_error_def)
  let ?s = "loop_start v fp p (lp_config L)"
  have "loop_frames fr L (es @ later) ?s = loop_frames fr L es ?s"
    using n assms(3) by (intro loop_frames_stops[OF assms(2)]) (simp_all add: loop_start_def)
  moreover have "frame_id (snd (loop_frames fr L es ?s)) \<le> n"
    using n by (intro loop_frames_bounded[OF assms(2)]) (simp add: loop_start_def)
  ultimately show ?thesis by (auto simp: run_loop_def split: prod.splits sum.splits)
qed

definition sample_args :: vision_config where
  "sample_args = plain_args\<lparr> mode := ''pattern'', pattern_mode := ''sweep'', no_frame_push := True,
     max_frames := Some 2, no_output := True \<rparr>"

definition sample_setup :: "(nat, unit) loop_setup" where
  "sample_setup = \<lparr> lp_config = sample_args, lp_publisher = NullPublisher, lp_label = ''webcam:0'', lp_live = True,
     lp_shape = (\<lambda>_. (480, 640)), lp_variance = (\<lambda>_. None), lp_encode = (\<lambda>_ _. None),
     lp_process = pattern_process (\<lambda>x. x) ''sweep'' \<rparr>"

definition sample_read :: "nat option \<Rightarrow> nat loop_env" where
  "sample_read f = \<lparr> le_frame = f, le_now = Fin 1, le_status = None, le_accepts = True, le_log_clk = Fin 1, le_quit = False \<rparr>"

theorem run_loop_terminates_witness:
  "frame_id (snd (run_loop (\<lambda>_. ''0.0'') sample_setup (new_vis_sender 512 (Fin 60))
     (new_frame_pusher '''' '''' 1 1 (Fin 60) None) () [sample_read (Some 1), sample_read None, sample_read (Some 2)])) \<le> 2"
proof -
  have "check_args (lp_config sample_setup) = Inr ()" "max_frames (lp_config sample_setup) = Some 2"
    by (simp_all add: sample_setup_def sample_args_def plain_args_def check_args_def arg_error_def)
  moreover have "2 \<le> frames_in [sample_read (Some 1), sample_read None, sample_read (Some 2)]"
    by (simp add: frames_in_def sample_read_def)
  ultimately show ?thesis by (blast dest: run_loop_terminates)
qed

subsection \<open>The low-variance warning\<close>

definition low_run :: "bool list \<Rightarrow> nat" where
  \<comment> \<open>how many of the last frames in a row had a low variance\<close>
  "low_run lows = length (takeWhile (\<lambda>b. b) (rev lows))"

definition black_run :: "bool list \<Rightarrow> 'p loop_state \<Rightarrow> 'p loop_state" where
  "black_run lows s = run (\<lambda>s low. check_black low (s\<lparr> frame_id := frame_id s + 1 \<rparr>)) s lows"

text \<open>
  One warning for each stretch. The low-variance warning is printed at exactly those frames
  that complete thirty low-variance frames in a row, hence once in a stretch however long, and
  again only after a good frame.
\<close>

theorem black_warnings:
  "warned_at (black_run lows (loop_start v fp p cfg)) =
   filter (\<lambda>i. low_run (take (nat i) lows) = 30) [1..int (length lows)]"
proof -
  let ?s = "\<lambda>lows. black_run lows (loop_start v fp p cfg)"
  have "frame_id (?s lows) = int (length lows) \<and> consecutive_black_frames (?s lows) = int (low_run lows) \<and>
      black_frame_warn_emitted (?s lows) = (30 \<le> low_run lows) \<and>
      warned_at (?s lows) = filter (\<lambda>i. low_run (take (nat i) lows) = 30) [1..int (length lows)]"
  proof (induction lows rule: rev_induct)
    case Nil
    then show ?case by (simp add: black_run_def loop_start_def low_run_def)
  next
    case (snoc b lows)
    have s: "?s (lows @ [b]) = check_black b ((?s lows)\<lparr> frame_id := frame_id (?s lows) + 1 \<rparr>)"
      by (simp add: black_run_def run_append)
    have t: "filter (\<lambda>i. low_run (take (nat i) (lows @ [b])) = 30) [1..int (length lows)] =
        filter (\<lambda>i. low_run (take (nat i) lows) = 30) [1..int (length lows)]"
      by (rule filter_cong) auto
    have "[1..int (length (lows @ [b]))] = [1..int (length lows)] @ [int (length lows) + 1]"
      using upto_rec2[of 1 "int (length lows) + 1"] by (simp add: add.commute)
    then have f: "filter (\<lambda>i. low_run (take (nat i) (lows @ [b])) = 30) [1..int (length (lows @ [b]))] =
        filter (\<lambda>i. low_run (take (nat i) lows) = 30) [1..int (length lows)] @
        (if low_run (lows @ [b]) = 30 then [int (length lows) + 1] else [])"
      by (simp only: filter_append t) (simp add: nat_add_distrib)
    have r: "low_run (lows @ [b]) = (if b then Suc (low_run lows) else 0)" by (simp add: low_run_def)
    show ?case using snoc.IH unfolding s f r
      by (auto simp: check_black_def Let_def BLACK_FRAME_WARN_AFTER_def)
  qed
  then show ?thesis by blast
qed

end
