(* ===== verification/Whole_System.thy ===== *)
theory Whole_System
  imports App_Startup Ingest Vision_Main
begin

section \<open>The parts together\<close>

text \<open>
  The backend's handlers over one shared state: datagrams from the flight controller and from
  the vision process, and intents from operators, in any order. Each handler is a short
  sequence of steps of the shared state, which is what the other threads see and which
  \<open>handler_ops\<close> specifies event by event; the lemmas here
  carry the properties that span components, stated in the root theory.
\<close>

datatype backend_event =
  TelDatagram "nat list" pyfloat pyfloat   \<comment> \<open>bytes, receive time, the drop logger's clock\<close>
| VisDatagram "nat list" pyfloat pyfloat
| IntentPost request intent_request "pyfloat \<times> pyfloat" pyfloat

record system_config =
  sc_tel :: ingest_config
  sc_vis :: ingest_config
  sc_token :: "string option"
  sc_limiter :: "limiter_config option"

record system =
  sy_state :: shared_state
  sy_tel_log :: reason_log
  sy_vis_log :: reason_log
  sy_buckets :: ip_limiter

definition with_state :: "reason_log \<Rightarrow> shared_state \<Rightarrow> ingestor" where
  "with_state l s = \<lparr> ist = s, drop_log = l, ievents = [] \<rparr>"

fun system_step :: "system_config \<Rightarrow> (nat list \<Rightarrow> pyval option) \<Rightarrow> system \<Rightarrow> backend_event \<Rightarrow> system" where
  \<comment> \<open>what a handler leaves; an exception it lets through ends its caller, not the state\<close>
  "system_step c loads y (TelDatagram data rx clk) =
     (let s' = snd (tel_process_datagram loads (max_bytes (sc_tel c)) (drop_log_interval_s (sc_tel c)) clk data rx
            (with_state (sy_tel_log y) (sy_state y)))
      in y\<lparr> sy_state := ist s', sy_tel_log := drop_log s' \<rparr>)"
| "system_step c loads y (VisDatagram data rx clk) =
     (let s' = snd (vis_process_datagram loads (max_bytes (sc_vis c)) (drop_log_interval_s (sc_vis c)) clk data rx
            (with_state (sy_vis_log y) (sy_state y)))
      in y\<lparr> sy_state := ist s', sy_vis_log := drop_log s' \<rparr>)"
| "system_step c loads y (IntentPost r q clks now_s) =
     (case snd (intent_route (sc_token c) (sc_limiter c) r clks q now_s (sy_buckets y, sy_state y)) of
        (buckets, s) \<Rightarrow> y\<lparr> sy_state := s, sy_buckets := buckets \<rparr>)"

subsection \<open>Handlers are sequences of state steps\<close>

definition datagram_ops ::
  "(nat list \<Rightarrow> pyval option) \<Rightarrow> int \<Rightarrow> (pyval \<Rightarrow> pyexc + pydict) \<Rightarrow> state_op \<Rightarrow> (pydict \<Rightarrow> pyfloat \<Rightarrow> state_op) \<Rightarrow>
   (string \<Rightarrow> state_op) \<Rightarrow> nat list \<Rightarrow> pyfloat \<Rightarrow> state_op list" where
  \<comment> \<open>specification: a datagram is counted as received, and then dropped for its size, for its text or for the
    reason its check gives, or stored as the message the check returns\<close>
  "datagram_ops loads limit validate counted stored dropped data rx = counted #
     (if limit < int (length data) then [dropped ''oversize'']
      else case loads data of
          None \<Rightarrow> [dropped ''json'']
        | Some v \<Rightarrow> (case validate v of
            Inr d \<Rightarrow> [stored d rx]
          | Inl (ValidationError reason _) \<Rightarrow> [dropped reason]
          | Inl _ \<Rightarrow> []))"

fun handler_ops ::
  "system_config \<Rightarrow> (nat list \<Rightarrow> pyval option) \<Rightarrow> ip_limiter \<Rightarrow> backend_event \<Rightarrow> state_op list" where
  \<comment> \<open>specification: what a handler does to the shared state. An intent is stored if the caller has the token, the
    rate limit lets it pass and its mode is one of the four\<close>
  "handler_ops c loads buckets (TelDatagram data rx _) =
     datagram_ops loads (max_bytes (sc_tel c)) validate_tel_message OpTelTotal OpTelOk OpTelDrop data rx"
| "handler_ops c loads buckets (VisDatagram data rx _) =
     datagram_ops loads (max_bytes (sc_vis c)) validate_vis_message OpVisTotal OpVisOk OpVisDrop data rx"
| "handler_ops c loads buckets (IntentPost r q clks now_s) =
     (if require_api_token (sc_token c) r = Inr () \<and> fst (rate_limit_intent (sc_limiter c) r clks buckets) = Inr () \<and>
         0 \<le> desired_mode q \<and> desired_mode q \<le> 3
      then [OpIntent (intent_payload q) now_s] else [])"

fun handler_buckets :: "system_config \<Rightarrow> ip_limiter \<Rightarrow> backend_event \<Rightarrow> ip_limiter" where
  \<comment> \<open>specification: an authorised post takes a rate token\<close>
  "handler_buckets c buckets (IntentPost r q clks now_s) =
     (if require_api_token (sc_token c) r = Inr () then snd (rate_limit_intent (sc_limiter c) r clks buckets) else buckets)"
| "handler_buckets c buckets _ = buckets"

lemma drop_state:
  "ist (snd (drop_datagram ch li clk reason d s)) = snd (ch_drop ch reason (ist s))"
  by (cases "ch_drop ch reason (ist s)"; cases "fst (ch_drop ch reason (ist s))")
    (auto simp: drop_datagram_def on_state_def emit_def ebind_def)

lemma ingest_state:
  "ist (snd (ingest_datagram ch loads mx li clk data rx s)) =
     (let s1 = ch_rx_total ch (ist s) in
      if mx < int (length data) then snd (ch_drop ch ''oversize'' s1)
      else case loads data of
        None \<Rightarrow> snd (ch_drop ch ''json'' s1)
      | Some v \<Rightarrow> (case ch_validate ch v of
          Inr d \<Rightarrow> snd (ch_ok ch d rx s1)
        | Inl (ValidationError r _) \<Rightarrow> snd (ch_drop ch r s1)
        | Inl _ \<Rightarrow> s1))"
proof -
  have ok: "ist (snd ((ebind (on_state m) (\<lambda>_. ebind (emit ev) (\<lambda>_. ereturn True))) z)) = snd (m (ist z))"
    for m :: "(pyexc, shared_state, unit) eff" and ev z
    by (cases "m (ist z)"; cases "fst (m (ist z))") (auto simp: on_state_def emit_def ebind_def)
  show ?thesis
    by (auto simp: ingest_datagram_def ebind_def[of "on_state (emodify f)" for f] on_state_def[of "emodify f" for f]
        drop_state ok Let_def split: option.splits sum.splits pyexc.splits)
qed

lemma system_step_ops:
  "sy_state (system_step c loads y ev) = run state_step (sy_state y) (handler_ops c loads (sy_buckets y) ev)"
  "sy_buckets (system_step c loads y ev) = handler_buckets c (sy_buckets y) ev"
proof -
  have "sy_state (system_step c loads y ev) = run state_step (sy_state y) (handler_ops c loads (sy_buckets y) ev) \<and>
    sy_buckets (system_step c loads y ev) = handler_buckets c (sy_buckets y) ev"
  proof (cases ev)
    case (IntentPost r q clks now_s)
    obtain x b where l: "rate_limit_intent (sc_limiter c) r clks (sy_buckets y) = (x, b)" by fastforce
    have m: "desired_mode q \<in> set CMD_CONTROL_MODES \<longleftrightarrow> 0 \<le> desired_mode q \<and> desired_mode q \<le> 3"
      by (auto simp: CMD_CONTROL_MODES_def)
    show ?thesis unfolding IntentPost
      by (cases "require_api_token (sc_token c) r"; cases x; cases "desired_mode q \<in> set CMD_CONTROL_MODES")
        (auto simp: intent_route_def post_intent_def l m)
  qed (auto simp: datagram_ops_def tel_process_datagram_def vis_process_datagram_def ingest_state with_state_def
        tel_channel_def vis_channel_def Let_def split: option.splits sum.splits pyexc.splits)
  then show "sy_state (system_step c loads y ev) = run state_step (sy_state y) (handler_ops c loads (sy_buckets y) ev)"
    "sy_buckets (system_step c loads y ev) = handler_buckets c (sy_buckets y) ev" by simp_all
qed

lemma handler_ops_feed: "list_all feed_op (handler_ops c loads buckets ev)"
proof (cases ev)
  case (IntentPost r q clks now_s)
  have "0 \<le> desired_mode q \<Longrightarrow> desired_mode q \<le> 3 \<Longrightarrow> desired_mode q \<in> set CMD_CONTROL_MODES"
    by (auto simp: CMD_CONTROL_MODES_def)
  then show ?thesis using IntentPost intent_payload_wf by simp
qed (auto simp: datagram_ops_def validate_vis_wf validate_tel_wf split: option.splits sum.splits pyexc.splits)

fun ops_from :: "system_config \<Rightarrow> (nat list \<Rightarrow> pyval option) \<Rightarrow> ip_limiter \<Rightarrow> backend_event list \<Rightarrow> state_op list" where
  "ops_from c loads buckets [] = []"
| "ops_from c loads buckets (ev # evs) = handler_ops c loads buckets ev @ ops_from c loads (handler_buckets c buckets ev) evs"

definition ops_of :: "system_config \<Rightarrow> (nat list \<Rightarrow> pyval option) \<Rightarrow> system \<Rightarrow> backend_event list \<Rightarrow> state_op list" where
  \<comment> \<open>specification: what a sequence of handlers does to the shared state\<close>
  "ops_of c loads y evs = ops_from c loads (sy_buckets y) evs"

lemma system_run_ops:
  "sy_state (run (system_step c loads) y evs) = run state_step (sy_state y) (ops_of c loads y evs) \<and>
   list_all feed_op (ops_of c loads y evs)"
proof (induction evs arbitrary: y)
  case (Cons ev evs)
  from Cons[of "system_step c loads y ev"] show ?case
    using handler_ops_feed by (simp add: ops_of_def run_append system_step_ops)
qed (simp add: ops_of_def)

subsection \<open>What is stored is well formed\<close>

definition stored_wf :: "shared_state \<Rightarrow> bool" where
  "stored_wf s = (feed_wf s \<and> (\<forall>t. latest_tel s = Some t \<longrightarrow> tel_wf t))"

lemma stored_step: "feed_op p \<Longrightarrow> stored_wf s \<Longrightarrow> stored_wf (state_step s p)"
  using feed_step(1)[of p s]
  by (cases p; auto simp: stored_wf_def state_op_defs eff_unfold split: sum.splits)

lemma stored_run: "list_all feed_op ps \<Longrightarrow> stored_wf s \<Longrightarrow> stored_wf (run state_step s ps)"
  by (induction ps arbitrary: s) (auto simp: stored_step)

lemma blank_stored: "blank_state s \<Longrightarrow> stored_wf s \<and> tx_balanced s"
  by (auto simp: blank_state_def stored_wf_def feed_wf_def fresh_state_def tx_balanced_def)

subsection \<open>A vision message on its way to the flight controller\<close>

definition target_dict :: "int \<Rightarrow> pyfloat \<Rightarrow> norm_bbox \<Rightarrow> pyfloat \<Rightarrow> pydict" where
  \<comment> \<open>specification: the target of a command, in the terms of the tracker's result\<close>
  "target_dict n ts b conf =
     [(''tracking_state'', PInt 3), (''loc_x'', PFloat (clamp_signed (fmul (fsub (cx b) (Fin (1 / 2))) (Fin 2)))),
      (''loc_y'', PFloat (clamp_signed (fmul (fsub (Fin (1 / 2)) (cy b)) (Fin 2)))),
      (''bound_w'', PFloat (clamp01 (nw b))), (''bound_h'', PFloat (clamp01 (nh b))),
      (''confidence'', PFloat (clamp01 conf)), (''vis_seq'', PInt n), (''vis_timestamp_s'', PFloat ts)]"

lemma tracking_of_payload:
  "build_tracking_object (build_vis_payload n ts TRACKING b conf) = Inr (target_dict n ts b conf)"
  by (simp add: build_tracking_object_def build_vis_payload_def target_dict_def missing_fields_def
      TRACKING_REQUIRED_def int_at_def float_at_def dindex_def Let_def)

lemma payload_stored:
  fixes li clk rx s
  assumes "loads data = Some (PDict (build_vis_payload n ts st b conf))" "int (length data) \<le> mx"
  defines "s' \<equiv> ist (snd (vis_process_datagram loads mx li clk data rx s))"
  shows "s' = run state_step (ist s) [OpVisTotal, OpVisOk (build_vis_payload n ts st b conf) rx]"
    and "latest_vis s' = Some (build_vis_payload n ts st b conf)" "vis_last_rx_monotonic_s s' = Some rx"
    and "latest_intent s' = latest_intent (ist s)" "feed_wf (ist s) \<Longrightarrow> feed_wf s'"
proof -
  let ?d = "build_vis_payload n ts st b conf"
  have wf: "vis_wf ?d" by (rule build_vis_payload_wf)
  have v: "validate_vis_message (PDict ?d) = Inr ?d" by (rule validate_vis_fixpoint[OF wf])
  show eq: "s' = run state_step (ist s) [OpVisTotal, OpVisOk ?d rx]"
    using assms(1,2) v by (simp add: s'_def vis_process_datagram_def ingest_state vis_channel_def Let_def)
  obtain q t where "dget ?d ''seq'' = Some (PInt q)" "dget ?d ''timestamp_s'' = Some (PFloat t)"
    using vis_wf_seq_ts[OF wf] by metis
  from record_vis_ok_eq[OF this] eq show "latest_vis s' = Some ?d" "vis_last_rx_monotonic_s s' = Some rx"
    "latest_intent s' = latest_intent (ist s)"
    by (simp_all add: record_vis_rx_total_def)
  show "feed_wf (ist s) \<Longrightarrow> feed_wf s'"
    using feed_run[of "[OpVisTotal, OpVisOk ?d rx]" "ist s"] wf eq by simp
qed

definition posted_command :: "int \<Rightarrow> pyfloat \<Rightarrow> int \<Rightarrow> bool option \<Rightarrow> pydict option \<Rightarrow> pydict" where
  \<comment> \<open>specification: a command without a target\<close>
  "posted_command q t m ar sp = [(''type'', PStr ''CMD''), (''seq'', PInt q), (''timestamp_s'', PFloat t), (''desired_mode'', PInt m)]
     @ (case ar of None \<Rightarrow> [] | Some b \<Rightarrow> [(''arm'', PBool b)]) @ (case sp of None \<Rightarrow> [] | Some s \<Rightarrow> [(''setpoints'', PDict s)])"

lemma command_of_payload:
  assumes "read_intent it = Inr (MODE_TRACKING, ar, sp)" "0 \<le> q" "fle age fresh_s" "\<not> flt fresh_s (Fin 0)"
  shows "build_cmd_payload q now_s it (Some (build_vis_payload n ts TRACKING b conf)) (Some age) fresh_s =
      Inr (posted_command q now_s 1 ar sp @ [(''tracking'', PDict (target_dict n ts b conf))], None)"
  using assms by (cases ar; cases sp)
    (simp_all add: build_cmd_payload_def is_vis_fresh_def tracking_of_payload mode_defs posted_command_def Let_def)

definition sent_as :: "bridge_config \<Rightarrow> (real \<Rightarrow> string) \<Rightarrow> pydict \<Rightarrow> cmd_bridge \<Rightarrow> cmd_bridge \<Rightarrow> bool" where
  \<comment> \<open>specification: the bridge has put exactly this payload on the wire, behind its length in four bytes, and
    counted it as sent; one above the size limit it has not sent and counted as failed\<close>
  "sent_as cfg fr p b b' = (let text = json_bytes fr p in
     if int (length text) \<le> max_payload_bytes cfg
     then wire b' = wire b @ [be32 (length text) @ text] \<and> cmd_tx_ok (bst b') = cmd_tx_ok (bst b) + 1 \<and>
       cmd_tx_fail (bst b') = cmd_tx_fail (bst b)
     else wire b' = wire b \<and> cmd_tx_ok (bst b') = cmd_tx_ok (bst b) \<and> cmd_tx_fail (bst b') = cmd_tx_fail (bst b) + 1)"

lemma tick_sends:
  assumes "tick_built cfg env t b = Inr (p, bl)" "config_ok cfg" "env_ok env" "feed_wf (bst b)"
    and "sock_open b" "\<not> stopped env" "sends env"
  shows "fst (send_tick cfg fr env t b) = Inr () \<and> sent_as cfg fr p b (snd (send_tick cfg fr env t b))"
proof -
  let ?text = "json_bytes fr p" and ?s = "snd (reserve_cmd_seq None (tick_state env b))"
  have mx: "max_payload_bytes cfg < 2 ^ 32" using assms(2) by (simp add: config_ok_def)
  note ok = tick_state_ok[OF assms(3,4)]
  have c: "cmd_tx_ok ?s = cmd_tx_ok (bst b)" "cmd_tx_fail ?s = cmd_tx_fail (bst b)"
    using reserve_part[OF ok(1)] ok(2) by (simp_all add: cmd_part_def)
  have n: "1 \<le> length ?text" by (simp add: json_bytes_def utf8_ascii_def)
  show ?thesis
  proof (cases "int (length ?text) \<le> max_payload_bytes cfg")
    case True
    then have "int (length ?text) < 2 ^ 32" using mx by linarith
    then have "length ?text < 2 ^ 32" by simp
    then have f: "frame_cmd_payload fr p (max_payload_bytes cfg) = Inr (be32 (length ?text) @ ?text)"
      using True n by (simp add: frame_cmd_payload_def pack_be32_def Let_def)
    have "cmd_tx_ok (snd (record_cmd_tx_ok t z)) = cmd_tx_ok z + 1" "cmd_tx_fail (snd (record_cmd_tx_ok t z)) = cmd_tx_fail z"
      "fst (record_cmd_tx_ok t z) = Inr ()" for z
      using tx_ok_state(3)[of t z] tx_ok_state(1)[of t z] by (simp_all add: cmd_part_def prod_eq_iff)
    then show ?thesis using send_tick_eq[OF assms(1) mx, of fr] assms(5-7) True c
      by (simp add: f send_frame_def Let_def split_beta sent_as_def record_last_cmd_payload_def record_cmd_tx_attempt_def
          set_tracking_blocked_reason_def)
  next
    case False
    then have f: "frame_cmd_payload fr p (max_payload_bytes cfg) = Inl (ValueError (Msg ''CMD payload length out of range''))"
      by (simp add: frame_cmd_payload_def Let_def)
    then show ?thesis using send_tick_eq[OF assms(1) mx, of fr] False c
      by (simp add: sent_as_def record_cmd_tx_fail_def record_cmd_tx_attempt_def set_tracking_blocked_reason_def)
  qed
qed

subsection \<open>The stream of vision datagrams\<close>

fun arrives :: "nat list list \<Rightarrow> recv \<Rightarrow> bool" where
  \<comment> \<open>specification: what a receive can give when only these datagrams were sent\<close>
  "arrives datas (Datagram data t) = (data \<in> set datas)"
| "arrives datas RecvTimeout = True"
| "arrives datas (RecvError stop) = (\<not> stop)"

fun arrived :: "(nat list \<Rightarrow> pyval option) \<Rightarrow> recv \<Rightarrow> (pydict \<times> pyfloat) list" where
  \<comment> \<open>specification: the message a receive brings, with its time\<close>
  "arrived loads (Datagram data t) = (case loads data of Some (PDict d) \<Rightarrow> [(d, t)] | _ \<Rightarrow> [])"
| "arrived loads _ = []"

lemma vis_accepted:
  assumes "loads data = Some (PDict d)" "vis_wf d" "int (length data) \<le> mx"
  shows "\<exists>s'. vis_process_datagram loads mx li clk data rx s = (Inr True, s') \<and>
    vis_rx_ok (ist s') = vis_rx_ok (ist s) + 1 \<and> vis_rx_bad (ist s') = vis_rx_bad (ist s) \<and>
    ievents s' = ievents s @ [ValidMsg d rx]"
proof -
  have v: "ch_validate vis_channel (PDict d) = Inr d"
    using validate_vis_fixpoint[OF assms(2)] by (simp add: vis_channel_def)
  let ?s1 = "s\<lparr> ist := ch_rx_total vis_channel (ist s) \<rparr>"
  obtain s' where s': "ebind (on_state (ch_ok vis_channel d rx)) (\<lambda>_. ebind (emit (ValidMsg d rx)) (\<lambda>_. ereturn True)) ?s1
      = (Inr True, s')" "ist s' = snd (ch_ok vis_channel d rx (ist ?s1))" "ievents s' = ievents ?s1 @ [ValidMsg d rx]"
    using visi.ok_eq[OF v] by blast
  then have "vis_process_datagram loads mx li clk data rx s = (Inr True, s')"
    using assms(1,3) v by (simp add: vis_process_datagram_def ingest_datagram_def ebind_def[of "on_state (emodify f)" for f]
        on_state_def[of "emodify f" for f])
  then show ?thesis using s'(2,3) visi.ok_counts[OF v, of rx "ist ?s1"] visi.total_counts[of "ist s"] by simp
qed

lemma serve_accepts:
  assumes "list_all (arrives datas) rs" "list_all (\<lambda>data. int (length data) \<le> mx) datas"
    and "list_all (\<lambda>data. \<exists>d. vis_wf d \<and> loads data = Some (PDict d)) datas"
  shows "\<exists>s'. serve (vis_process_datagram loads mx li clk) rs s = (Inr (), s') \<and>
    vis_rx_ok (ist s') = vis_rx_ok (ist s) + length (concat (map (arrived loads) rs)) \<and>
    vis_rx_bad (ist s') = vis_rx_bad (ist s) \<and>
    ievents s' = ievents s @ map (\<lambda>(d, t). ValidMsg d t) (concat (map (arrived loads) rs))"
  using assms(1)
proof (induction rs arbitrary: s)
  case (Cons r rs)
  show ?case
  proof (cases r)
    case (Datagram data t)
    then obtain d where d: "vis_wf d" "loads data = Some (PDict d)" "int (length data) \<le> mx"
      using Cons.prems assms(2,3) by (auto simp: list_all_iff)
    obtain s1 where s1: "vis_process_datagram loads mx li clk data t s = (Inr True, s1)"
      "vis_rx_ok (ist s1) = vis_rx_ok (ist s) + 1" "vis_rx_bad (ist s1) = vis_rx_bad (ist s)"
      "ievents s1 = ievents s @ [ValidMsg d t]"
      using vis_accepted[of loads data d mx li clk t s] d by blast
    then show ?thesis using Cons.IH[of s1] Cons.prems Datagram d(2) by fastforce
  qed (use Cons in simp_all)
qed simp

lemma serve_forever_accepts:
  assumes "list_all (arrives datas) rs" "list_all (\<lambda>data. int (length data) \<le> mx) datas" "0 \<le> mx"
    and "list_all (\<lambda>data. \<exists>d. vis_wf d \<and> loads data = Some (PDict d)) datas"
  shows "\<exists>s'. vis_serve_forever True loads mx li clk rs s = (Inr (), s') \<and>
    vis_rx_ok (ist s') = vis_rx_ok (ist s) + length (concat (map (arrived loads) rs)) \<and>
    vis_rx_bad (ist s') = vis_rx_bad (ist s) \<and>
    ievents s' = ievents s @ map (\<lambda>(d, t). ValidMsg d t) (concat (map (arrived loads) rs))"
proof -
  have "cut_datagram mx r = r" if "arrives datas r" for r
    using that assms(2) by (cases r) (auto simp: cut_datagram_def list_all_iff)
  then have "map (cut_datagram mx) rs = rs" using assms(1) by (simp add: list_all_iff map_idI)
  then show ?thesis using serve_accepts[OF assms(1,2,4), of li clk s] assms(3)
    by (simp add: vis_serve_forever_def serve_forever_def vis_process_datagram_def)
qed

subsection \<open>An intent on its way to the flight controller\<close>

lemma read_posted:
  "desired_mode q \<in> set CMD_CONTROL_MODES \<Longrightarrow> read_intent (Some (intent_payload q)) =
     Inr (desired_mode q, arm q, map_option (map (apsnd PFloat)) (setpoints q))"
  by (cases "arm q"; cases "setpoints q")
    (simp_all add: read_intent_def intent_payload_def int_at_def dindex_def dget_append Let_def)

lemma command_of_intent:
  assumes "build_cmd_payload n t it vis age fresh_s = Inr (p, bl)" "read_intent it = Inr (r, a, sp)"
  shows "\<exists>target. p = posted_command n t (if r = MODE_TRACKING \<and> \<not> is_vis_fresh vis age fresh_s then MODE_LAND_SAFELY else r) a sp
      @ target \<and>
    (if is_vis_fresh vis age fresh_s
     then \<exists>v trk. vis = Some v \<and> target = [(''tracking'', PDict trk)] \<and> tracks_snapshot v trk else target = [])"
  using assms(1)
proof (cases rule: build_cmd_payloadE)
  case (1 r' a' sp' tail)
  have e: "r' = r" "a' = a" "sp' = sp" using 1(1) assms(2) by simp_all
  show ?thesis using 1(4,5) tracking_object_tracks unfolding e
    by (intro exI[of _ tail]) (auto simp: posted_command_def split: if_splits)
qed

fun keeps_intent :: "state_op \<Rightarrow> bool" where
  "keeps_intent (OpIntent _ _) = False"
| "keeps_intent p = feed_op p"

lemma run_keeps_intent: "list_all keeps_intent ops \<Longrightarrow> latest_intent (run state_step s ops) = latest_intent s"
proof (induction ops arbitrary: s)
  case (Cons p ops)
  have "latest_intent (state_step s p) = latest_intent s" using Cons.prems
    by (cases p) (auto simp: state_op_defs eff_unfold split: sum.splits)
  then show ?case using Cons by simp
qed simp

lemma keeps_intent_feed: "list_all keeps_intent ops \<Longrightarrow> list_all feed_op ops"
proof -
  have "keeps_intent p \<Longrightarrow> feed_op p" for p by (cases p) auto
  then show "list_all keeps_intent ops \<Longrightarrow> list_all feed_op ops" by (auto simp: list_all_iff)
qed

subsection \<open>A frame on its way to the browser\<close>

definition deliver :: "string option \<Rightarrow> frame_pusher \<Rightarrow> nat list \<Rightarrow> request" where
  \<comment> \<open>the pusher's request as it arrives: the HTTP client adds the length, the server lower-cases the names\<close>
  "deliver host p body = \<lparr> client_host = host,
     headers = map (apfst lower) (push_headers p) @ [(''content-length'', dec_int (int (length body)))] \<rparr>"

lemma lowered_names: "lower ''Content-Type'' = ''content-type''" "lower ''Authorization'' = ''authorization''"
  "lower ''Bearer'' = ''bearer''" "lower ''image/jpeg'' = ''image/jpeg''" "contains_sub ''image/jpeg'' ''image/jpeg''"
  by code_simp+

lemma deliver_headers:
  "header_get (deliver host p body) ''content-type'' = Some ''image/jpeg''"
  "header_get (deliver host p body) ''content-length'' = Some (dec_int (int (length body)))"
  "header_get (deliver host p body) ''transfer-encoding'' = None"
  "header_get (deliver host p body) ''authorization'' = (case fp_token p of None \<Rightarrow> None
     | Some t \<Rightarrow> if t = [] then None else Some (''Bearer '' @ t))"
  by (auto simp: deliver_def header_get_def push_headers_def lowered_names split: option.split)

lemma delivered_acceptable:
  assumes "looks_like_jpeg body" "int (length body) \<le> max_jpeg_bytes cfg" "concat chunks = body"
    "validate_decode cfg \<longrightarrow> can_decode_jpeg verify body"
  shows "frame_acceptable cfg verify (deliver host p body) chunks"
  using assms by (simp add: frame_acceptable_def deliver_headers lowered_names parse_dec_int)

lemma strip_http_token: "is_http_token t \<Longrightarrow> strip t = t"
proof -
  have "list_all (\<lambda>c. \<not> is_space c) HTTP_TOKEN_TCHARS" by code_simp
  then show "is_http_token t \<Longrightarrow> strip t = t" by (intro strip_no_space) (auto simp: is_http_token_def list_all_iff)
qed

lemma delivered_authorised:
  assumes "read_env_token env name = Inr token" "fp_token p = fp_token (new_frame_pusher http ep mxj stp li (env name))"
  shows "require_api_token token (deliver host p body) = Inr ()"
proof (cases token)
  case (Some t)
  have tok: "is_http_token t" "is_ascii t" using read_env_token_Inr assms(1) Some by auto
  obtain raw where raw: "env name = Some raw" "strip raw = t" "t \<noteq> []"
    using assms(1) Some by (auto simp: read_env_token_def Let_def split: option.splits if_splits)
  have "raw \<noteq> []" using raw by (auto simp: strip_def)
  then have "fp_token p = Some t" using raw assms(2) by (simp add: new_frame_pusher_def)
  then have h: "header_get (deliver host p body) ''authorization'' = Some (''Bearer'' @ CHR '' '' # t)"
    using raw(3) by (simp add: deliver_headers)
  have "partition_char (CHR '' '') (''Bearer'' @ CHR '' '' # t) = (''Bearer'', t)"
    by (rule partition_char_found) simp
  then show ?thesis using tok raw(3)
    by (simp add: require_api_token_def Some h lowered_names strip_http_token compare_digest_def)
qed (simp add: require_api_token_def)

end
