(* ===== verification/Backend_Run.thy ===== *)
theory Backend_Run
  imports Whole_System
begin

section \<open>Handlers and the command bridge on one state\<close>

text \<open>
  The bridge thread and the handlers share one \<open>SharedState\<close>. A run is a list of actions: a
  handler that runs between two iterations of the bridge, or an iteration with the handlers
  that run inside its tick, between the reads of the intent, of the vision message and of its
  age. An iteration without a link reads nothing of what the handlers write, so the handlers
  that run during it come before or after it.
\<close>

datatype backend_action =
  Handle backend_event
| Iterate bridge_iter "backend_event list" "backend_event list"

definition tick_with :: "bridge_iter \<Rightarrow> state_op list \<Rightarrow> state_op list \<Rightarrow> bridge_iter" where
  "tick_with it vis_ops age_ops = it\<lparr> tick := (tick it)\<lparr> before_vis := vis_ops, before_age := age_ops \<rparr> \<rparr>"

fun backend_step ::
  "system_config \<Rightarrow> (nat list \<Rightarrow> pyval option) \<Rightarrow> bridge_config \<Rightarrow> (real \<Rightarrow> string) \<Rightarrow> pyfloat \<Rightarrow>
   backend_action \<Rightarrow> (pyexc, system \<times> cmd_bridge, unit) eff" where
  "backend_step c loads cfg fr per (Handle ev) (y, b) =
     (let y' = system_step c loads (y\<lparr> sy_state := bst b \<rparr>) ev in (Inr (), y', b\<lparr> bst := sy_state y' \<rparr>))"
| "backend_step c loads cfg fr per (Iterate it evs1 evs2) (y, b) =
     (if \<not> sock_open b
      then (case bridge_iteration cfg fr per it b of (r, b') \<Rightarrow> (r, y, b'))
      else (let y0 = y\<lparr> sy_state := bst b \<rparr>; y1 = run (system_step c loads) y0 evs1
            in case bridge_iteration cfg fr per (tick_with it (ops_of c loads y0 evs1) (ops_of c loads y1 evs2)) b of
              (r, b') \<Rightarrow> (r, run (system_step c loads) y1 evs2, b')))"

fun backend_run ::
  "system_config \<Rightarrow> (nat list \<Rightarrow> pyval option) \<Rightarrow> bridge_config \<Rightarrow> (real \<Rightarrow> string) \<Rightarrow> pyfloat \<Rightarrow>
   backend_action list \<Rightarrow> (pyexc, system \<times> cmd_bridge, unit) eff" where
  "backend_run c loads cfg fr per [] s = (Inr (), s)"
| "backend_run c loads cfg fr per (a # as) s =
     ebind (backend_step c loads cfg fr per a) (\<lambda>_. backend_run c loads cfg fr per as) s"

subsection \<open>What a bridge iteration leaves of the telemetry\<close>

lemma set_fc_tel [simp]: "latest_tel (set_fc_connected c s) = latest_tel s"
  "latest_tel (record_fc_connect_attempt t s) = latest_tel s"
  "latest_tel (record_cmd_tx_fail s) = latest_tel s"
  "latest_tel (record_cmd_tx_attempt s) = latest_tel s"
  "latest_tel (set_tracking_blocked_reason r s) = latest_tel s"
  "latest_tel (record_last_cmd_payload p n s) = latest_tel s"
  "latest_tel (snd (reserve_cmd_seq None s)) = latest_tel s"
  "latest_tel (snd (record_cmd_tx_ok t s)) = latest_tel s"
  by (simp_all add: set_fc_connected_def record_fc_connect_attempt_def
      record_cmd_tx_fail_def record_cmd_tx_attempt_def set_tracking_blocked_reason_def
      record_last_cmd_payload_def reserve_cmd_seq_def record_cmd_tx_ok_def Let_def split: option.splits)

lemma attempt_connect_tel: "latest_tel (bst (attempt_connect cfg c clk t b)) = latest_tel (bst b)"
  by (simp add: attempt_connect_def Let_def)

lemma send_frame_tel: "latest_tel (bst (snd (send_frame cfg env t f b))) = latest_tel (bst b)"
  by (auto simp: send_frame_def Let_def split_beta)

lemma send_tick_tel:
  assumes "config_ok cfg" "env_ok env" "feed_wf (bst b)"
  shows "latest_tel (bst (snd (send_tick cfg fr env t b))) = latest_tel (tick_state env b)"
proof -
  obtain p r where built: "tick_built cfg env t b = Inr (p, r)" using tick_built_returns[OF assms] by metis
  have "max_payload_bytes cfg < 2 ^ 32" using assms(1) by (simp add: config_ok_def)
  note eq = send_tick_eq[OF built this, of fr]
  show ?thesis by (cases "frame_cmd_payload fr p (max_payload_bytes cfg)") (simp_all add: eq send_frame_tel)
qed

lemma tick_state_stored: "env_ok env \<Longrightarrow> stored_wf (bst b) \<Longrightarrow> stored_wf (tick_state env b)"
  by (simp add: tick_state_def env_ok_def stored_run)

lemma iteration_stored:
  assumes "config_ok cfg" "env_ok (tick it)" "bridge_inv cfg base b" "stored_wf (bst b)"
  shows "stored_wf (bst (snd (bridge_iteration cfg fr period it b)))"
proof -
  let ?b' = "snd (bridge_iteration cfg fr period it b)"
  have wf: "feed_wf (bst b)" "feed_wf (bst ?b')"
    using assms(3) iteration_inv[OF assms(1-3), of fr period] by (simp_all add: bridge_inv_def)
  have "latest_tel (bst ?b') = latest_tel (if sock_open b then tick_state (tick it) b else bst b)"
  proof (cases "sock_open b")
    case True
    obtain r b1 where t: "send_tick cfg fr (tick it) (loop_start_s it) b = (r, b1)" by fastforce
    then show ?thesis
      using True send_tick_tel[OF assms(1,2) wf(1), of fr "loop_start_s it"]
      by (cases r) (simp_all add: bridge_iteration_def ebind_def emodify_def)
  qed (simp add: bridge_iteration_def attempt_connect_tel ebind_def emodify_def)
  moreover have "stored_wf (if sock_open b then tick_state (tick it) b else bst b)"
    using tick_state_stored assms(2,4) by simp
  ultimately show ?thesis using wf(2) by (simp add: stored_wf_def)
qed

subsection \<open>The invariant of the whole run\<close>

definition backend_inv :: "bridge_config \<Rightarrow> nat \<Rightarrow> cmd_bridge \<Rightarrow> bool" where
  "backend_inv cfg base b = (bridge_inv cfg base b \<and> stored_wf (bst b))"

lemma run_ops_bridge:
  assumes "list_all feed_op ops" "bridge_inv cfg base b"
  shows "bridge_inv cfg base (b\<lparr> bst := run state_step (bst b) ops \<rparr>)"
proof -
  have "feed_wf (bst b)" using assms(2) by (simp add: bridge_inv_def)
  then show ?thesis using feed_run[OF assms(1), of "bst b"] assms(2)
    by (auto simp: bridge_inv_def link_ok_def reports_ok_def balanced_tx_def backoff_ok_def cmd_part_def)
qed

lemma backend_step_inv:
  assumes "config_ok cfg" "backend_inv cfg base b"
  shows "\<exists>y' b'. backend_step c loads cfg fr per a (y, b) = (Inr (), y', b') \<and> backend_inv cfg base b'"
proof (cases a)
  case (Handle ev)
  have "list_all feed_op (handler_ops c loads (sy_buckets y) ev)" by (rule handler_ops_feed)
  then show ?thesis using assms(2) Handle
    by (simp add: Let_def system_step_ops backend_inv_def run_ops_bridge stored_run)
next
  case (Iterate it evs1 evs2)
  have *: "\<exists>b'. bridge_iteration cfg fr per jt b = (Inr (), b') \<and> backend_inv cfg base b'"
    if "env_ok (tick jt)" for jt
    using iteration_inv[OF assms(1) that, of base b fr per]
      iteration_stored[OF assms(1) that, of base b fr per] assms(2)
    by (cases "bridge_iteration cfg fr per jt b") (auto simp: backend_inv_def)
  have plain: "bridge_iteration cfg fr per it b = bridge_iteration cfg fr per (tick_with it [] []) b"
    if "\<not> sock_open b"
    using that by (simp add: bridge_iteration_def tick_with_def ebind_def)
  have 1: "env_ok (tick (tick_with it (ops_of c loads z evs1) (ops_of c loads z' evs2)))" for z z'
    using system_run_ops[of c loads z evs1] system_run_ops[of c loads z' evs2] by (simp add: env_ok_def tick_with_def)
  have 2: "env_ok (tick (tick_with it [] []))" by (simp add: env_ok_def tick_with_def)
  show ?thesis
  proof (cases "sock_open b")
    case False
    from *[OF 2] plain[OF False] False show ?thesis unfolding Iterate by auto
  next
    case True
    let ?y0 = "y\<lparr> sy_state := bst b \<rparr>"
    obtain b' where "bridge_iteration cfg fr per
        (tick_with it (ops_of c loads ?y0 evs1) (ops_of c loads (run (system_step c loads) ?y0 evs1) evs2)) b =
        (Inr (), b')" "backend_inv cfg base b'"
      using *[OF 1] by blast
    with True show ?thesis unfolding Iterate by (simp add: Let_def)
  qed
qed

lemma backend_run_inv:
  assumes "config_ok cfg" "backend_inv cfg base b"
  shows "\<exists>y' b'. backend_run c loads cfg fr per as (y, b) = (Inr (), y', b') \<and> backend_inv cfg base b'"
  using assms(2)
proof (induction as arbitrary: y b)
  case (Cons a as)
  obtain y1 b1 where "backend_step c loads cfg fr per a (y, b) = (Inr (), y1, b1)" "backend_inv cfg base b1"
    using backend_step_inv[OF assms(1) Cons.prems] by blast
  then show ?case using Cons.IH[of b1 y1] by (simp add: ebind_def)
qed simp

subsection \<open>From the start\<close>

lemma started_fields:
  assumes "startup env clk s0 = Inr be"
  shows "blank_state (be_state be)" "be_bridge be = Some (cfg, b0) \<Longrightarrow> new_cmd_bridge cfg None (be_state be) = Inr b0"
proof -
  obtain u s where r: "state_reset clk s0 = (Inr u, s)"
    using assms by (auto simp: startup_def split: prod.splits sum.splits)
  with assms obtain rt br ti vi cb where
    cb: "when_enabled env ''BACKEND_CMD_BRIDGE_ENABLED''
      (build_cmd_bridge_from_env env (rt_cmd_hz rt) (rt_vis_fresh_s rt) s) = Inr cb" and
    be: "be = \<lparr> be_state = s, be_runtime = rt, be_hub = Some new_video_hub, be_broadcaster = Some br,
            be_tel = ti, be_vis = vi, be_bridge = cb \<rparr>"
    by (auto simp: startup_def)
  show "blank_state (be_state be)" using state_reset_blank[OF r] be by simp
  show "be_bridge be = Some (cfg, b0) \<Longrightarrow> new_cmd_bridge cfg None (be_state be) = Inr b0"
    using cb be by (auto dest!: when_enabled_Some build_bridge_ok)
qed

lemma started_backend_inv:
  assumes "startup env clk s0 = Inr be" "be_bridge be = Some (cfg, b0)" "config_ok cfg"
  shows "backend_inv cfg 0 (bridge_set_fc_connected False b0)"
proof -
  note f = started_fields[OF assms(1)]
  have n: "new_cmd_bridge cfg None (be_state be) = Inr b0" by (rule f(2)[OF assms(2)])
  have w: "stored_wf (be_state be)" "tx_balanced (be_state be)" using blank_stored[OF f(1)] by simp_all
  have "cmd_tx_ok (be_state be) = 0" using f(1) by (auto simp: blank_state_def fresh_state_def)
  moreover have "feed_wf (be_state be)" using w(1) by (simp add: stored_wf_def)
  ultimately have "bridge_inv cfg 0 (bridge_set_fc_connected False b0)"
    using started_inv[OF assms(3) _ w(2) n] by simp
  moreover have "bst b0 = be_state be" using new_bridge_fields(7)[OF n] by simp
  ultimately show ?thesis using w(1) by (simp add: backend_inv_def stored_wf_def)
qed

end
