(* ===== verification/Live_Feed.thy ===== *)
theory Live_Feed
  imports Whole_System
begin

section \<open>From a datagram to the browsers\<close>

text \<open>
  The callbacks that \<open>_startup\<close> (\<open>src/src/backend/app.py\<close>) gives to the two ingestors: a stored
  message is broadcast, an oversize datagram is warned of. The callback is the last thing an
  ingestor does with a datagram, so \<open>receive\<close> is the whole of \<open>process_datagram\<close>; between
  storing and broadcasting other threads may have worked on the shared state, which is the
  list \<open>meanwhile\<close>. What an exception says of a malformed datagram is the argument \<open>show\<close>.
\<close>

subsection \<open>The callbacks\<close>

definition detail_text :: "(detail \<Rightarrow> string) \<Rightarrow> detail \<Rightarrow> string" where
  "detail_text show d = (case d of
     DatagramLength n mx \<Rightarrow> ''datagram length='' @ dec_int n @ '' exceeds max_bytes='' @ dec_int mx
   | _ \<Rightarrow> show d)"

definition tel_callback ::
  "broadcast_config \<Rightarrow> (detail \<Rightarrow> string) \<Rightarrow> pyfloat \<Rightarrow> shared_state \<Rightarrow> ingest_event \<Rightarrow> (pyexc, broadcaster, unit) eff" where
  \<comment> \<open>\<open>on_valid=_broadcaster.on_tel_update, on_drop=_broadcaster.on_tel_drop\<close>\<close>
  "tel_callback cfg show clk s ev b = (case ev of
     ValidMsg m rx \<Rightarrow> ebind (on_tel_update cfg s rx) (\<lambda>_. ereturn ()) b
   | DropMsg reason d \<Rightarrow> (Inr (), on_tel_drop cfg s reason (detail_text show d) clk b))"

definition vis_callback ::
  "broadcast_config \<Rightarrow> (detail \<Rightarrow> string) \<Rightarrow> pyfloat \<Rightarrow> shared_state \<Rightarrow> ingest_event \<Rightarrow> (pyexc, broadcaster, unit) eff" where
  "vis_callback cfg show clk s ev b = (case ev of
     ValidMsg m rx \<Rightarrow> ebind (on_vis_update cfg s rx) (\<lambda>_. ereturn ()) b
   | DropMsg reason d \<Rightarrow> (Inr (), on_vis_drop cfg s reason (detail_text show d) clk b))"

definition receive ::
  "(nat list \<Rightarrow> pyfloat \<Rightarrow> (pyexc, ingestor, bool) eff) \<Rightarrow> (shared_state \<Rightarrow> ingest_event \<Rightarrow> (pyexc, broadcaster, unit) eff)
   \<Rightarrow> state_op list \<Rightarrow> nat list \<Rightarrow> pyfloat \<Rightarrow> (pyexc, ingestor \<times> broadcaster, bool) eff" where
  "receive process callback meanwhile data rx = (\<lambda>(s, b).
     case process data rx s of
       (Inl e, s1) \<Rightarrow> (Inl e, (s1, b))
     | (Inr good, s1) \<Rightarrow>
         (let s2 = s1\<lparr> ist := run state_step (ist s1) meanwhile \<rparr> in
          case drop (length (ievents s)) (ievents s1) of
            [] \<Rightarrow> (Inr good, (s2, b))
          | ev # _ \<Rightarrow> (case callback (ist s2) ev b of
                (Inl e, b1) \<Rightarrow> (Inl e, (s2, b1))
              | (Inr _, b1) \<Rightarrow> (Inr good, (s2, b1)))))"

definition receive_tel where
  "receive_tel cfg show wclk loads mx li clk =
     receive (tel_process_datagram loads mx li clk) (tel_callback cfg show wclk)"

definition receive_vis where
  "receive_vis cfg show wclk loads mx li clk =
     receive (vis_process_datagram loads mx li clk) (vis_callback cfg show wclk)"

subsection \<open>Sending an update\<close>

definition due :: "broadcast_config \<Rightarrow> string \<Rightarrow> broadcaster \<Rightarrow> pyfloat \<Rightarrow> bool" where
  \<comment> \<open>specification: the period of the event has passed since it was last sent\<close>
  "due cfg event b t = (case last_emit_s b event of None \<Rightarrow> True
     | Some l \<Rightarrow> (case period_s cfg event of Inr p \<Rightarrow> fle p (fsub t l) | Inl _ \<Rightarrow> False))"

lemma period_returns:
  assumes "check_broadcast_config cfg = Inr ()"
  shows "\<exists>p. period_s cfg event = Inr p"
proof -
  have "\<exists>q. fdiv (Fin 1) x = Some q" if "\<not> fle x (Fin 0)" for x using that by (cases x) auto
  moreover have "\<not> fle (tel_hz cfg) (Fin 0)" "\<not> fle (broadcast_config.vis_hz cfg) (Fin 0)" "\<not> fle (link_hz cfg) (Fin 0)"
    using assms by (auto simp: check_broadcast_config_def)
  ultimately show ?thesis by (fastforce simp: period_s_def Let_def)
qed

lemma update_sent:
  assumes "check_broadcast_config cfg = Inr ()"
  shows "broadcast_update cfg event (Some p) t False b =
    (if due cfg event b t then (Inr True, send_event event p t b) else (Inr False, b))"
  using period_returns[OF assms, of event]
  by (auto simp: broadcast_update_def can_emit_def due_def split: option.splits)

lemma sent_to_all:
  "\<exists>e. dget e ''event'' = Some (PStr event) \<and> dget e ''data'' = Some (PDict p) \<and>
     dget e ''timestamp_s'' = Some (PFloat t) \<and> dget e ''seq'' = Some (PInt (next_event_seq (ws b))) \<and>
     map (\<lambda>(i, c). (i, last (cq_items c))) (clients (ws (send_event event p t b))) =
     map (\<lambda>(i, c). (i, e)) (clients (ws b))"
  by (rule exI[of _ "fst (ws_broadcast event p t (ws b))"])
    (simp add: send_event_def ws_broadcast_clients last_enqueue split_beta, simp add: ws_broadcast_def build_envelope_def)

subsection \<open>Telemetry\<close>

fun keeps_tel :: "state_op \<Rightarrow> bool" where
  \<comment> \<open>what threads other than the telemetry thread do\<close>
  "keeps_tel (OpTelOk _ _) = False"
| "keeps_tel (OpReset _) = False"
| "keeps_tel _ = True"

lemma run_keeps_tel:
  "list_all keeps_tel ops \<Longrightarrow> latest_tel (run state_step s ops) = latest_tel s \<and>
     tel_last_rx_monotonic_s (run state_step s ops) = tel_last_rx_monotonic_s s"
proof (induction ops arbitrary: s)
  case (Cons p ops)
  have "latest_tel (state_step s p) = latest_tel s \<and>
      tel_last_rx_monotonic_s (state_step s p) = tel_last_rx_monotonic_s s" using Cons.prems
    by (cases p) (simp_all add: state_op_defs eff_unfold Let_def split: sum.split option.split)
  then show ?case using Cons by simp
qed simp

lemma tel_stored:
  assumes "int (length data) \<le> mx" "loads data = Some v" "validate_tel_message v = Inr m"
  shows "\<exists>s'. tel_process_datagram loads mx li clk data rx s = (Inr True, s') \<and>
    latest_tel (ist s') = Some m \<and> tel_last_rx_monotonic_s (ist s') = Some rx \<and> ievents s' = ievents s @ [ValidMsg m rx]"
proof -
  have v: "ch_validate tel_channel v = Inr m" using assms(3) by (simp add: tel_channel_def)
  obtain q t where qt: "dget m ''seq'' = Some (PInt q)" "dget m ''timestamp_s'' = Some (PFloat t)"
    using tel_wf_seq_ts[OF validate_tel_wf[OF assms(3)]] by metis
  show ?thesis
  proof (cases rule: teli.ingest_cases[of loads mx li clk data rx s])
    case (stored v' m' s')
    then show ?thesis using assms v record_tel_ok_eq[OF qt, of rx]
      by (simp add: tel_process_datagram_def tel_channel_def)
  qed (use assms v in \<open>auto simp: ingest_datagram_def ebind_def on_state_def emodify_def emit_def ereturn_def
      record_tel_ok_eq[OF qt] tel_channel_def\<close>)
qed

lemma tel_update_data:
  assumes "latest_tel s = Some m" "tel_last_rx_monotonic_s s = Some rx" "isfinite rx"
  shows "build_tel_update_data rx s = Some (dset ''tel_age_s'' (PFloat (Fin 0)) (dset ''rx_monotonic_s'' (PFloat rx) m))"
  using assms by (simp add: fsub_self fmax_def build_tel_update_data_def get_latest_tel_with_meta_def get_tel_age_s_def
      age_since_def opt_val_def)

text \<open>
  C28: Telemetry reaches every browser. A datagram the validator accepts is stored and, unless a
  telemetry update was sent less than its period ago, every connected client's queue ends with
  one and the same numbered update whose data is the stored message with its receive time and
  the age 0, whatever other threads did to the shared state in between.
\<close>

theorem telemetry_reaches_clients:
  assumes "check_broadcast_config cfg = Inr ()" "int (length data) \<le> mx" "loads data = Some v"
    "validate_tel_message v = Inr m" "list_all keeps_tel meanwhile" "isfinite rx"
  shows "\<exists>s' b'. receive_tel cfg show wclk loads mx li clk meanwhile data rx (s, b) = (Inr True, (s', b')) \<and>
    latest_tel (ist s') = Some m \<and>
    (if due cfg EVENT_TEL_UPDATE b rx
     then last_emit_s b' EVENT_TEL_UPDATE = Some rx \<and>
       (\<exists>e. dget e ''event'' = Some (PStr ''TEL_UPDATE'') \<and> dget e ''seq'' = Some (PInt (next_event_seq (ws b))) \<and>
          dget e ''data'' = Some (PDict (dset ''tel_age_s'' (PFloat (Fin 0)) (dset ''rx_monotonic_s'' (PFloat rx) m))) \<and>
          map (\<lambda>(i, c). (i, last (cq_items c))) (clients (ws b')) = map (\<lambda>(i, c). (i, e)) (clients (ws b)))
     else b' = b)"
proof -
  obtain s1 where s1: "tel_process_datagram loads mx li clk data rx s = (Inr True, s1)"
    "latest_tel (ist s1) = Some m" "tel_last_rx_monotonic_s (ist s1) = Some rx" "ievents s1 = ievents s @ [ValidMsg m rx]"
    using tel_stored[of data mx loads v m li clk rx s] assms(2-4) by blast
  let ?s2 = "run state_step (ist s1) meanwhile"
  let ?d = "dset ''tel_age_s'' (PFloat (Fin 0)) (dset ''rx_monotonic_s'' (PFloat rx) m)"
  have k: "latest_tel ?s2 = Some m" "tel_last_rx_monotonic_s ?s2 = Some rx"
    using run_keeps_tel[OF assms(5), of "ist s1"] s1(2,3) by simp_all
  have u: "broadcast_tel_update cfg ?s2 rx False b =
      (if due cfg EVENT_TEL_UPDATE b rx then (Inr True, send_event EVENT_TEL_UPDATE ?d rx b) else (Inr False, b))"
    unfolding broadcast_tel_update_def tel_update_data[OF k assms(6)] by (rule update_sent[OF assms(1)])
  have r: "receive_tel cfg show wclk loads mx li clk meanwhile data rx (s, b) = (Inr True, (s1\<lparr> ist := ?s2 \<rparr>,
      if due cfg EVENT_TEL_UPDATE b rx then send_event EVENT_TEL_UPDATE ?d rx b else b))"
    using u by (simp add: receive_tel_def receive_def s1(1,4) tel_callback_def on_tel_update_def ebind_def ereturn_def Let_def)
  have l: "last_emit_s (send_event EVENT_TEL_UPDATE ?d rx b) EVENT_TEL_UPDATE = Some rx" by (simp add: send_event_def)
  show ?thesis using r k(1) l sent_to_all[of EVENT_TEL_UPDATE ?d rx b] by (auto simp: event_defs)
qed

definition good_tel :: pydict where
  "good_tel = tel_message 1 (Fin 2) 0 1 (Fin 3) (Fin 3) (Fin 1) (Fin 0) (Fin 0) (Fin 0) (Fin 0) (Fin 0)"

definition two_browsers :: broadcaster where
  "two_browsers = \<lparr> ws = \<lparr> queue_max = 1, clients = [(1, \<lparr> websocket = 0, cq_items = [] \<rparr>), (2, \<lparr> websocket = 1, cq_items = [[]] \<rparr>)],
     next_client_id = 3, next_event_seq = 9 \<rparr>, last_emit_s = Map.empty, warning_last_emit_s = Map.empty \<rparr>"

definition feed_config :: broadcast_config where
  "feed_config = \<lparr> broadcast_config.tel_hz = Fin 20, vis_hz = Fin 20, link_hz = Fin 2, bc_vis_fresh_s = Fin 1,
     tel_fresh_s = Fin 1, cmd_timeout_s = Fin 1, cmd_hz_nominal = Fin 50, tel_hz_nominal = Fin 50,
     warning_min_interval_s = Fin 2 \<rparr>"

theorem telemetry_reaches_clients_witness:
  "\<exists>s' b' e. receive_tel feed_config (\<lambda>_. []) (Fin 5) (\<lambda>_. Some (PDict good_tel)) 512 (Fin 5) (Fin 5)
     [OpIntent [] (Fin 4)] [123, 125] (Fin 5) (with_state Map.empty (fresh_state 0), two_browsers) = (Inr True, (s', b')) \<and>
     dget e ''seq'' = Some (PInt 9) \<and> map (\<lambda>(i, c). (i, last (cq_items c))) (clients (ws b')) = [(1, e), (2, e)]"
proof -
  have "check_broadcast_config feed_config = Inr ()" "int (length [123, 125 :: nat]) \<le> 512"
    by (simp_all add: check_broadcast_config_def feed_config_def)
  moreover have "validate_tel_message (PDict good_tel) = Inr good_tel"
    unfolding good_tel_def by (intro validate_tel_fixpoint tel_message_wf)
      (simp_all add: CONTROL_MODES_def TRACKING_STATES_def between_def)
  moreover have "list_all keeps_tel [OpIntent [] (Fin 4)]" "isfinite (Fin 5)" by simp_all
  moreover have "due feed_config EVENT_TEL_UPDATE two_browsers (Fin 5)" "next_event_seq (ws two_browsers) = 9"
    "clients (ws two_browsers) = [(1, \<lparr> websocket = 0, cq_items = [] \<rparr>), (2, \<lparr> websocket = 1, cq_items = [[]] \<rparr>)]"
    by (simp_all add: due_def two_browsers_def)
  ultimately show ?thesis
    using telemetry_reaches_clients[of feed_config "[123, 125]" 512 "\<lambda>_. Some (PDict good_tel)" "PDict good_tel" good_tel
        "[OpIntent [] (Fin 4)]" "Fin 5" "\<lambda>_. []" "Fin 5" "Fin 5" "Fin 5" "with_state Map.empty (fresh_state 0)" two_browsers]
    by auto
qed

subsection \<open>Oversize datagrams\<close>

lemma oversize_warned:
  \<comment> \<open>nothing is stored, and the operators are warned with the number of such drops so far\<close>
  assumes "mx < int (length data)"
  shows "\<exists>s'. receive_tel cfg show wclk loads mx li clk [] data rx (s, b) = (Inr False, (s',
      snd (emit_warning cfg ''tel_oversize_drop'' (''Oversize TEL datagram dropped: datagram length='' @
        dec_int (int (length data)) @ '' exceeds max_bytes='' @ dec_int mx @ '' (count='' @
        dec_int (int (tel_drop_reason_oversize (ist s) + 1)) @ '')'') ''warn'' wclk b))) \<and>
    latest_tel (ist s') = latest_tel (ist s)"
  using assms
  by (simp add: receive_tel_def receive_def tel_process_datagram_def ingest_datagram_def drop_datagram_def
      ebind_def on_state_def emodify_def emit_def ereturn_def tel_channel_def record_tel_drop_def TEL_DROP_REASONS_def
      bump_tel_reason_def record_tel_rx_total_def tel_callback_def on_tel_drop_def detail_text_def Let_def)

subsection \<open>The bridge's reports\<close>

fun bridge_callback ::
  "broadcast_config \<Rightarrow> (pyfloat \<Rightarrow> pydict) option \<Rightarrow> shared_state \<Rightarrow> pyfloat \<Rightarrow> pyfloat \<Rightarrow> bridge_event
   \<Rightarrow> (pyexc, broadcaster, unit) eff" where
  \<comment> \<open>\<open>on_connection_change\<close> and \<open>on_tracking_blocked\<close>; waiting is no report\<close>
  "bridge_callback cfg extra s clk1 clk2 (ConnectionChange c) b =
     ebind (on_fc_connection_changed cfg extra s c clk1 clk2) (\<lambda>_. ereturn ()) b"
| "bridge_callback cfg extra s clk1 clk2 (TrackingBlocked reason) b =
     ebind (on_tracking_blocked cfg extra s reason clk1 clk2) (\<lambda>_. ereturn ()) b"
| "bridge_callback cfg extra s clk1 clk2 (Waited t) b = (Inr (), b)"

fun reported :: "bridge_event \<Rightarrow> bool" where
  "reported (Waited _) = False"
| "reported _ = True"

lemma warning_keeps_browsers: "map fst (clients (ws (snd (emit_warning cfg k d sv t b)))) = map fst (clients (ws b))"
proof -
  have ids: "map fst (map (\<lambda>(i, c). (i, f c)) xs) = map fst xs" for f :: "client_queue \<Rightarrow> client_queue"
    and xs :: "(int \<times> client_queue) list" by (rule map_fst_map_snd)
  show ?thesis by (simp add: emit_warning_def ws_broadcast_clients ids del: map_map)
qed

lemma link_status_forced:
  "broadcast_link_status cfg extra s t True b = (Inr True, send_event EVENT_LINK_STATUS (build_link_status cfg extra t s) t b)"
  by (simp add: broadcast_link_status_def broadcast_update_def can_emit_def)

lemma reports_reach_clients:
  \<comment> \<open>a report never fails, and ends every client's queue with the link status of that moment\<close>
  assumes "reported ev"
  shows "\<exists>b' e. bridge_callback cfg extra s clk1 clk2 ev b = (Inr (), b') \<and>
    dget e ''event'' = Some (PStr EVENT_LINK_STATUS) \<and> dget e ''data'' = Some (PDict (build_link_status cfg extra clk2 s)) \<and>
    map (\<lambda>(i, c). (i, last (cq_items c))) (clients (ws b')) = map (\<lambda>i. (i, e)) (map fst (clients (ws b)))"
proof -
  have "\<exists>b1. bridge_callback cfg extra s clk1 clk2 ev b =
      (Inr (), send_event EVENT_LINK_STATUS (build_link_status cfg extra clk2 s) clk2 b1) \<and>
      map fst (clients (ws b1)) = map fst (clients (ws b))"
  proof (cases ev)
    case (ConnectionChange c)
    let ?b1 = "if c then snd (emit_warning cfg ''fc_reconnected'' ''Backend command bridge connected to FC TCP server'' ''info'' clk1 b)
      else snd (emit_warning cfg ''fc_disconnected'' ''Backend command bridge disconnected from FC TCP server'' ''warn'' clk1 b)"
    show ?thesis by (rule exI[of _ ?b1])
      (simp add: ConnectionChange on_fc_connection_changed_def link_status_forced ebind_def ereturn_def warning_keeps_browsers Let_def)
  next
    case (TrackingBlocked reason)
    then show ?thesis
      by (simp add: on_tracking_blocked_def link_status_forced ebind_def ereturn_def) (metis warning_keeps_browsers)
  qed (use assms in simp)
  then obtain b1 where b1: "bridge_callback cfg extra s clk1 clk2 ev b =
      (Inr (), send_event EVENT_LINK_STATUS (build_link_status cfg extra clk2 s) clk2 b1)"
    "map fst (clients (ws b1)) = map fst (clients (ws b))" by blast
  obtain e where e: "dget e ''event'' = Some (PStr EVENT_LINK_STATUS)"
    "dget e ''data'' = Some (PDict (build_link_status cfg extra clk2 s))"
    "map (\<lambda>(i, c). (i, last (cq_items c))) (clients (ws (send_event EVENT_LINK_STATUS (build_link_status cfg extra clk2 s) clk2 b1))) =
     map (\<lambda>(i, c). (i, e)) (clients (ws b1))"
    using sent_to_all[of EVENT_LINK_STATUS "build_link_status cfg extra clk2 s" clk2 b1] by blast
  have "map (\<lambda>(i, c). (i, e)) (clients (ws b1)) = map (\<lambda>i. (i, e)) (map fst (clients (ws b1)))"
    by (simp add: case_prod_unfold)
  then show ?thesis using b1 e by auto
qed

end
