(* ===== verification/Rc_Listener.thy ===== *)
theory Rc_Listener
  imports Vis_Types
begin

section \<open>The RC listener of the bench harness\<close>

text \<open>
  \<open>src/scripts/dev/fake_betaflight_listener.py\<close>: it decodes the flight controller's RC frames,
  checks sequence numbers and channels as they come, and the rate at the end; its exit code is
  what CI gates on. \<open>loads\<close> stands for \<open>json.loads(payload.decode("utf-8"))\<close>, \<open>None\<close> being the
  two errors that are caught. An iteration of the receive loop is the clock at the loop's test
  and, unless \<open>recvfrom\<close> times out, the clock after it and the datagram. Printing is left out.
\<close>

definition RC_MIN_US :: int where "RC_MIN_US = 1000"
definition RC_MAX_US :: int where "RC_MAX_US = 2000"

definition EXPECTED_FIELDS :: "string list" where
  "EXPECTED_FIELDS = [''type'', ''seq'', ''timestamp_s'', ''channels'']"

record run_stats =
  received :: int
  decode_errors :: int
  out_of_band :: int
  seq_first :: "int option"
  seq_last :: "int option"
  seq_gaps :: int
  t_first_recv :: "pyfloat option"
  t_last_recv :: "pyfloat option"

definition new_stats :: run_stats where
  "new_stats = \<lparr> received = 0, decode_errors = 0, out_of_band = 0, seq_first = None, seq_last = None,
     seq_gaps = 0, t_first_recv = None, t_last_recv = None \<rparr>"

record rc_args =
  duration_s :: pyfloat
  expect_hz :: pyfloat
  hz_tolerance :: pyfloat
  min_frames :: int
  max_seq_gap :: int
  strict :: bool

record rc_frame =
  rc_seq :: int
  rc_channels :: "int list"

definition is_in_band :: "int \<Rightarrow> bool" where
  "is_in_band channel_us = (RC_MIN_US \<le> channel_us \<and> channel_us \<le> RC_MAX_US)"

definition int_val :: "pyval \<Rightarrow> int option" where
  \<comment> \<open>\<open>isinstance(v, int)\<close> and its value; a boolean is an int\<close>
  "int_val v = (case v of PInt i \<Rightarrow> Some i | PBool b \<Rightarrow> Some (if b then 1 else 0) | _ \<Rightarrow> None)"

definition decode_frame :: "pyval option \<Rightarrow> rc_frame option" where
  \<comment> \<open>of what \<open>loads\<close> answered; only the fields that are used are kept\<close>
  "decode_frame answer =
     (case answer of
        Some (PDict obj) \<Rightarrow>
          if dget obj ''type'' \<noteq> Some (PStr ''RC'') then None
          else if \<not> list_all (dhas obj) EXPECTED_FIELDS then None
          else (case (dget obj ''seq'', dget obj ''timestamp_s'', dget obj ''channels'') of
            (Some q, Some ts, Some (PList cs)) \<Rightarrow>
              (case int_val q of
                 None \<Rightarrow> None
               | Some seq \<Rightarrow>
                   if seq < 0 \<or> \<not> is_number ts \<or> length cs \<noteq> 8 \<or> \<not> list_all is_int cs then None
                   else Some \<lparr> rc_seq = seq, rc_channels = List.map_filter int_val cs \<rparr>)
          | _ \<Rightarrow> None)
      | _ \<Rightarrow> None)"

definition note_arrival :: "pyfloat \<Rightarrow> run_stats \<Rightarrow> run_stats" where
  "note_arrival now_s st =
     st\<lparr> t_first_recv := (case t_first_recv st of None \<Rightarrow> Some now_s | t \<Rightarrow> t), t_last_recv := Some now_s \<rparr>"

definition note_seq :: "rc_args \<Rightarrow> int \<Rightarrow> run_stats \<Rightarrow> int + run_stats" where
  \<comment> \<open>\<open>Inl\<close> is an early exit with that code\<close>
  "note_seq a seq st =
     (case seq_first st of
        None \<Rightarrow> Inr (st\<lparr> seq_first := Some seq, seq_last := Some seq \<rparr>)
      | Some _ \<Rightarrow>
          (let gap = seq - (case seq_last st of None \<Rightarrow> 0 | Some q \<Rightarrow> q);
               st1 = (if gap \<noteq> 1 then st\<lparr> seq_gaps := seq_gaps st + 1 \<rparr> else st)
           in if gap \<noteq> 1 \<and> (gap < 0 \<or> max_seq_gap a < gap) then Inl 2
              else Inr (st1\<lparr> seq_last := Some seq \<rparr>)))"

definition take_datagram ::
  "(nat list \<Rightarrow> pyval option) \<Rightarrow> rc_args \<Rightarrow> pyfloat \<Rightarrow> nat list \<Rightarrow> run_stats \<Rightarrow> int + run_stats" where
  "take_datagram loads a now_s data st0 =
     (let st = note_arrival now_s st0 in
      case decode_frame (loads data) of
        None \<Rightarrow> (let st1 = st\<lparr> decode_errors := decode_errors st + 1 \<rparr> in if strict a then Inl 2 else Inr st1)
      | Some f \<Rightarrow>
          rbind (note_seq a (rc_seq f) (st\<lparr> received := received st + 1 \<rparr>)) (\<lambda>st1.
          if list_all is_in_band (rc_channels f) then Inr st1 else Inl 2))"

type_synonym rc_event = "pyfloat \<times> (pyfloat \<times> nat list) option"

fun rc_loop ::
  "(nat list \<Rightarrow> pyval option) \<Rightarrow> rc_args \<Rightarrow> pyfloat \<Rightarrow> rc_event list \<Rightarrow> run_stats \<Rightarrow> int + run_stats" where
  "rc_loop loads a deadline [] st = Inr st"
| "rc_loop loads a deadline ((t, ev) # es) st =
     (if \<not> flt t deadline then Inr st
      else case ev of
        None \<Rightarrow> rc_loop loads a deadline es st
      | Some (now_s, data) \<Rightarrow> rbind (take_datagram loads a now_s data st) (rc_loop loads a deadline es))"

definition evaluate_and_report :: "rc_args \<Rightarrow> run_stats \<Rightarrow> pyexc + int" where
  "evaluate_and_report a st =
     (if received st < min_frames a then Inr 2
      else case (t_first_recv st, t_last_recv st) of
        (Some t0, Some t1) \<Rightarrow>
          (let elapsed = fmax (fsub t1 t0) (f64 (1 / 1000000))
           in rbind (if 1 < received st
                     then rbind (float_result (received st - 1)) (\<lambda>n. fdiv_exc n elapsed) else Inr (Fin 0)) (\<lambda>observed_hz.
              let lo = fmul (expect_hz a) (fsub (Fin 1) (hz_tolerance a));
                  hi = fmul (expect_hz a) (fadd (Fin 1) (hz_tolerance a))
              in if \<not> (fle lo observed_hz \<and> fle observed_hz hi) then Inr 2
                 else if strict a \<and> 0 < decode_errors st then Inr 2
                 else Inr 0))
      | _ \<Rightarrow> Inl AssertionError)"

definition rc_main ::
  "(nat list \<Rightarrow> pyval option) \<Rightarrow> rc_args \<Rightarrow> bool \<Rightarrow> pyfloat \<Rightarrow> rc_event list \<Rightarrow> pyexc + int" where
  \<comment> \<open>whether the socket could be bound, and the clock when the window opens\<close>
  "rc_main loads a binds start es =
     (if \<not> binds then Inr 2
      else case rc_loop loads a (fadd start (duration_s a)) es new_stats of
        Inl code \<Rightarrow> Inr code
      | Inr st \<Rightarrow> evaluate_and_report a st)"

subsection \<open>What exit code 0 certifies\<close>

definition heard :: "pyfloat \<Rightarrow> rc_event list \<Rightarrow> rc_event list" where
  \<comment> \<open>the iterations within the window\<close>
  "heard deadline es = takeWhile (\<lambda>(t, _). flt t deadline) es"

definition rc_frames :: "(nat list \<Rightarrow> pyval option) \<Rightarrow> rc_event list \<Rightarrow> rc_frame list" where
  "rc_frames loads es = List.map_filter (\<lambda>(_, ev). case ev of None \<Rightarrow> None | Some (_, d) \<Rightarrow> decode_frame (loads d)) es"

definition seq_step :: "int \<Rightarrow> int \<Rightarrow> int \<Rightarrow> bool" where
  \<comment> \<open>specification: the next number is the successor, or not behind and within the tolerated gap\<close>
  "seq_step max_gap q q' = (q' = q + 1 \<or> (q \<le> q' \<and> q' - q \<le> max_gap))"

definition stats_wf :: "run_stats \<Rightarrow> bool" where
  "stats_wf st = ((seq_first st = None) = (seq_last st = None))"

lemma note_seq_Inr:
  assumes "note_seq a q st = Inr st'" "stats_wf st"
  shows "stats_wf st' \<and> seq_last st' = Some q \<and> received st' = received st \<and>
    decode_errors st' = decode_errors st \<and> (case seq_last st of None \<Rightarrow> True | Some p \<Rightarrow> seq_step (max_seq_gap a) p q)"
  using assms by (auto simp: note_seq_def stats_wf_def seq_step_def Let_def split: option.splits if_splits)

lemma rc_loop_Inr:
  assumes "rc_loop loads a deadline es st = Inr st'" "stats_wf st"
  shows "let fs = rc_frames loads (heard deadline es) in
    received st' = received st + int (length fs) \<and> decode_errors st \<le> decode_errors st' \<and>
    list_all (\<lambda>f. list_all is_in_band (rc_channels f)) fs \<and>
    successively (seq_step (max_seq_gap a)) ((case seq_last st of None \<Rightarrow> [] | Some q \<Rightarrow> [q]) @ map rc_seq fs)"
  using assms
proof (induction loads a deadline es st arbitrary: st' rule: rc_loop.induct)
  case (1 loads a deadline st)
  then show ?case by (auto simp: rc_frames_def heard_def List.map_filter_simps split: option.split)
next
  case (2 loads a deadline t ev es st)
  consider (late) "\<not> flt t deadline" | (idle) "flt t deadline" "ev = None"
    | (data) now_s d where "flt t deadline" "ev = Some (now_s, d)" by (cases ev) auto
  then show ?case
  proof cases
    case late
    then show ?thesis using 2(3) by (auto simp: rc_frames_def heard_def List.map_filter_simps split: option.split)
  next
    case idle
    then show ?thesis using 2 by (simp add: rc_frames_def heard_def List.map_filter_simps)
  next
    case data
    obtain st1 where t: "take_datagram loads a now_s d st = Inr st1" and l: "rc_loop loads a deadline es st1 = Inr st'"
      using 2(3) data by auto
    have arr: "stats_wf (note_arrival now_s st)" "seq_last (note_arrival now_s st) = seq_last st"
      using 2(4) by (simp_all add: note_arrival_def stats_wf_def)
    show ?thesis
    proof (cases "decode_frame (loads d)")
      case None
      then have "st1 = (note_arrival now_s st)\<lparr> decode_errors := decode_errors st + 1 \<rparr>"
        using t by (auto simp: take_datagram_def note_arrival_def Let_def split: if_splits)
      then show ?thesis using "2.IH"(2)[OF _ data(2) refl l] data None arr
        by (simp add: rc_frames_def heard_def List.map_filter_simps note_arrival_def stats_wf_def Let_def)
    next
      case (Some f)
      let ?st = "(note_arrival now_s st)\<lparr> received := received st + 1 \<rparr>"
      have n: "note_seq a (rc_seq f) ?st = Inr st1" "list_all is_in_band (rc_channels f)"
        using t Some by (auto simp: take_datagram_def note_arrival_def Let_def split: if_splits)
      have s: "stats_wf ?st" "seq_last ?st = seq_last st" "received ?st = received st + 1"
        "decode_errors ?st = decode_errors st" using arr by (simp_all add: stats_wf_def note_arrival_def)
      note st1 = note_seq_Inr[OF n(1) s(1), unfolded s]
      show ?thesis using "2.IH"(2)[OF _ data(2) refl l] data Some n(2) st1
        by (auto simp: rc_frames_def heard_def List.map_filter_simps Let_def split: option.splits)
    qed
  qed
qed

text \<open>
  C40: Exit code 0 certifies the window. When the listener exits 0, the frames it decoded within
  the window are at least the required number, all their channels lie in 1000 to 2000, and each
  sequence number is the successor of the one before it or else not behind it and within the
  tolerated gap: a repeated number passes, although the documents ask for monotonic numbers.
\<close>

theorem rc_listener_certifies:
  assumes "rc_main loads a binds start es = Inr 0"
  shows "let fs = rc_frames loads (heard (fadd start (duration_s a)) es) in
    min_frames a \<le> int (length fs) \<and> list_all (\<lambda>f. list_all is_in_band (rc_channels f)) fs \<and>
    successively (seq_step (max_seq_gap a)) (map rc_seq fs)"
proof -
  have early: "rc_loop loads a d es st = Inl c \<Longrightarrow> c = 2" for d st c
    by (induction loads a d es st rule: rc_loop.induct)
      (auto simp: take_datagram_def note_seq_def rbind_Inl_iff Let_def split: if_splits option.splits)
  obtain st where l: "rc_loop loads a (fadd start (duration_s a)) es new_stats = Inr st"
    and e: "evaluate_and_report a st = Inr 0"
    using assms early by (fastforce simp: rc_main_def split: if_splits sum.splits)
  have "min_frames a \<le> received st" using e by (auto simp: evaluate_and_report_def split: if_splits)
  then show ?thesis using rc_loop_Inr[OF l] by (simp add: new_stats_def stats_wf_def Let_def)
qed

definition sample_rc_args :: rc_args where
  "sample_rc_args = \<lparr> duration_s = Fin 4, expect_hz = Fin 1, hz_tolerance = Fin (1 / 4), min_frames = 3,
     max_seq_gap = 2, strict = True \<rparr>"

definition rc_obj :: "nat list \<Rightarrow> pyval option" where
  "rc_obj d = Some (PDict [(''type'', PStr ''RC''), (''seq'', PInt (int (hd d))), (''timestamp_s'', PFloat (Fin 0)),
     (''channels'', PList (replicate 8 (PInt 1500)))])"

definition sample_hearing :: "rc_event list" where
  "sample_hearing = [(Fin 0, Some (Fin 0, [7])), (Fin 1, Some (Fin 1, [7])), (Fin 2, Some (Fin 2, [8]))]"

lemma decode_rc_obj: "decode_frame (rc_obj d) = Some \<lparr> rc_seq = int (hd d), rc_channels = replicate 8 1500 \<rparr>"
  by (simp add: decode_frame_def rc_obj_def EXPECTED_FIELDS_def dhas_def dget_def int_val_def
      List.map_filter_simps eval_nat_numeral)

lemma sample_rc_passes: "rc_main rc_obj sample_rc_args True (Fin 0) sample_hearing = Inr 0"
proof -
  have band: "list_all is_in_band (replicate 8 1500)"
    by (simp add: is_in_band_def RC_MIN_US_def RC_MAX_US_def eval_nat_numeral)
  have tol: "f64 (3 / 4) = Fin (3 / 4)" "f64 (5 / 4) = Fin (5 / 4)"
    by (rule f64_exact; simp add: rnd_fraction[of 5 2])+
  have two: "float_result 2 = Inr (Fin 2)" by (rule float_result_small[of 2, simplified])
  have el: "fmax (Fin 2) (f64 (1 / 1000000)) = Fin 2"
    using f64_mono[of "1 / 1000000" 2] by (cases "f64 (1 / 1000000)") (auto simp: fmax_def)
  have l: "rc_loop rc_obj sample_rc_args (Fin 4) sample_hearing new_stats =
      Inr \<lparr> received = 3, decode_errors = 0, out_of_band = 0, seq_first = Some 7, seq_last = Some 8,
        seq_gaps = 1, t_first_recv = Some (Fin 0), t_last_recv = Some (Fin 2) \<rparr>"
    by (simp add: sample_hearing_def take_datagram_def decode_rc_obj note_arrival_def note_seq_def new_stats_def
        sample_rc_args_def band Let_def)
  show ?thesis
    by (simp add: rc_main_def sample_rc_args_def[THEN arg_cong, of duration_s, simplified] l evaluate_and_report_def
        el two fdiv_exc_def fsub_def tol Let_def)
      (simp add: sample_rc_args_def fsub_def tol)
qed

theorem rc_listener_certifies_witness:
  "successively (seq_step 2) (map rc_seq (rc_frames rc_obj (heard (Fin 4) sample_hearing))) \<and>
   map rc_seq (rc_frames rc_obj (heard (Fin 4) sample_hearing)) = [7, 7, 8]"
proof
  have "fadd (Fin 0) (duration_s sample_rc_args) = Fin 4" "max_seq_gap sample_rc_args = 2"
    by (simp_all add: sample_rc_args_def)
  then show "successively (seq_step 2) (map rc_seq (rc_frames rc_obj (heard (Fin 4) sample_hearing)))"
    using rc_listener_certifies[OF sample_rc_passes] by (simp add: Let_def)
  show "map rc_seq (rc_frames rc_obj (heard (Fin 4) sample_hearing)) = [7, 7, 8]"
    by (simp add: rc_frames_def heard_def sample_hearing_def List.map_filter_simps decode_rc_obj)
qed

text \<open>With no minimum, an empty window ends in an exception instead of an exit code.\<close>

lemma rc_empty_window:
  "rc_main loads \<lparr> duration_s = Fin 4, expect_hz = Fin 1, hz_tolerance = Fin 0, min_frames = 0, max_seq_gap = 2,
     strict = False \<rparr> True (Fin 0) [] = Inl AssertionError"
  by (simp add: rc_main_def new_stats_def evaluate_and_report_def)

end
