(* ===== verification/Mission_Log.thy ===== *)
theory Mission_Log
  imports Rc_Listener Py_Text
begin

section \<open>The recorded mission report\<close>

text \<open>
  \<open>src/scripts/dev/replay_mission.py\<close>: it reads a table recorded by the flight controller,
  checks its shape and reports statistics. The rows are what \<open>csv.reader\<close> yields; the printed
  mean of a channel is left out.
\<close>

definition EXPECTED_HEADER :: "string list" where
  "EXPECTED_HEADER = [''timestamp_s'', ''roll'', ''pitch'', ''yaw'', ''throttle'', ''aux1'', ''aux2'', ''aux3'', ''aux4'']"

fun parse_cells :: "string list \<Rightarrow> pyexc + int list" where
  "parse_cells [] = Inr []"
| "parse_cells (x # xs) = rbind (int_of_text x) (\<lambda>i. rbind (parse_cells xs) (\<lambda>is. Inr (i # is)))"

definition parse_row :: "string list \<Rightarrow> pyexc + pyfloat \<times> int list" where
  "parse_row row = rbind (float_of_text (hd row)) (\<lambda>t. rbind (parse_cells (tl row)) (\<lambda>channels. Inr (t, channels)))"

record mission =
  timestamps :: "pyfloat list"
  per_channel :: "(string \<times> int list) list"

definition new_mission :: mission where
  "new_mission = \<lparr> timestamps = [], per_channel = map (\<lambda>ch. (ch, [])) (List.tl EXPECTED_HEADER) \<rparr>"

definition add_row :: "pyfloat \<Rightarrow> int list \<Rightarrow> mission \<Rightarrow> mission" where
  "add_row t channels m = \<lparr> timestamps = timestamps m @ [t],
     per_channel = map (\<lambda>((name, samples), v). (name, samples @ [v])) (zip (per_channel m) channels) \<rparr>"

fun read_rows :: "string list list \<Rightarrow> mission \<Rightarrow> int + mission" where
  \<comment> \<open>\<open>Inl\<close>: the exit code; only a \<open>ValueError\<close> can come out of the conversions\<close>
  "read_rows [] m = Inr m"
| "read_rows (row # rows) m =
     (if length row \<noteq> length EXPECTED_HEADER then Inl 2
      else case parse_row row of
        Inl _ \<Rightarrow> Inl 2
      | Inr (t, channels) \<Rightarrow> read_rows rows (add_row t channels m))"

definition out_of_band_samples :: "mission \<Rightarrow> (string \<times> nat \<times> int) list" where
  "out_of_band_samples m = concat (map (\<lambda>(name, samples).
     map (\<lambda>(i, v). (name, i, v)) (filter (\<lambda>(i, v). \<not> is_in_band v) (enumerate 0 samples))) (per_channel m))"

definition mission_rate :: "mission \<Rightarrow> pyexc + pyfloat \<times> pyfloat" where
  \<comment> \<open>the duration and the rate that are printed\<close>
  "mission_rate m =
     (let n = length (timestamps m);
          duration = (if 1 < n then fsub (last (timestamps m)) (hd (timestamps m)) else Fin 0)
      in rbind (if flt (Fin 0) duration then rbind (float_result (int n - 1)) (\<lambda>k. fdiv_exc k duration) else Inr (Fin 0))
           (\<lambda>hz. Inr (duration, hz)))"

definition channel_range :: "int list \<Rightarrow> int \<times> int" where
  "channel_range samples = (Min (set samples), Max (set samples))"

definition mission_main :: "bool \<Rightarrow> string list list option \<Rightarrow> int" where
  \<comment> \<open>the option \<open>--check-band\<close> and the rows of the file, if it exists\<close>
  "mission_main check_band file =
     (case file of
        None \<Rightarrow> 2
      | Some [] \<Rightarrow> 2
      | Some (header # rows) \<Rightarrow>
          if header \<noteq> EXPECTED_HEADER then 2
          else (case read_rows rows new_mission of
            Inl code \<Rightarrow> code
          | Inr m \<Rightarrow>
              if timestamps m = [] then 2
              else if check_band \<and> out_of_band_samples m \<noteq> [] then 2
              else 0))"

subsection \<open>What exit code 0 means\<close>

definition cell_ok :: "bool \<Rightarrow> string \<Rightarrow> bool" where
  "cell_ok check_band c = (case parse_int c of None \<Rightarrow> False | Some i \<Rightarrow> if check_band then is_in_band i else True)"

definition row_ok :: "bool \<Rightarrow> string list \<Rightarrow> bool" where
  \<comment> \<open>specification: nine cells, a number and eight integers, in band if asked\<close>
  "row_ok check_band row = (length row = 9 \<and> parse_float (hd row) \<noteq> None \<and>
     list_all (cell_ok check_band) (List.tl row))"

lemma parse_cells_Inr: "parse_cells xs = Inr is \<longleftrightarrow> map parse_int xs = map Some is"
proof (induction xs arbitrary: "is")
  case (Cons x xs)
  show ?case
  proof (cases "parse_int x")
    case (Some i)
    then show ?thesis using Cons.IH
      by (cases "is"; cases "parse_cells xs") (auto simp: int_of_text_def)
  qed (auto simp: int_of_text_def map_eq_Cons_conv)
qed auto

lemma parse_row_Inr: "parse_row row = Inr (t, cs) \<longleftrightarrow>
  parse_float (hd row) = Some t \<and> map parse_int (List.tl row) = map Some cs"
  by (auto simp: parse_row_def float_of_text_def parse_cells_Inr rbind_Inr_iff split: option.splits)

lemma cells_parse: "map parse_int xs = map Some is \<Longrightarrow>
  list_all (cell_ok check_band) xs = (if check_band then list_all is_in_band is else True)"
  by (induction xs arbitrary: "is") (auto simp: cell_ok_def map_eq_Cons_conv)

lemma cells_no_parse: "\<forall>is. map parse_int xs \<noteq> map Some is \<Longrightarrow> \<not> list_all (cell_ok check_band) xs"
proof (induction xs)
  case (Cons x xs)
  show ?case
  proof (cases "parse_int x")
    case (Some i)
    have "map parse_int xs \<noteq> map Some is" for "is"
    proof
      assume "map parse_int xs = map Some is"
      then have "map parse_int (x # xs) = map Some (i # is)" using Some by simp
      then show False using Cons.prems by blast
    qed
    then show ?thesis using Cons.IH by (simp add: cell_ok_def)
  qed (simp add: cell_ok_def)
qed simp

definition samples_in_band :: "mission \<Rightarrow> bool" where
  "samples_in_band m = list_all (\<lambda>(_, samples). list_all is_in_band samples) (per_channel m)"

lemma out_of_band_Nil: "out_of_band_samples m = [] \<longleftrightarrow> samples_in_band m"
proof -
  have "filter (\<lambda>(i, v). \<not> is_in_band v) (enumerate n xs) = [] \<longleftrightarrow> list_all is_in_band xs" for n xs
    by (induction xs arbitrary: n) auto
  then show ?thesis by (auto simp: out_of_band_samples_def samples_in_band_def list_all_iff)
qed

lemma add_row_band:
  assumes "length (per_channel m) = length cs"
  shows "samples_in_band (add_row t cs m) = (samples_in_band m \<and> list_all is_in_band cs)"
proof -
  have "list_all (\<lambda>(_, samples). list_all is_in_band samples)
      (map (\<lambda>((name, samples), v). (name, samples @ [v])) (zip ps cs)) =
    (list_all (\<lambda>(_, samples). list_all is_in_band samples) ps \<and> list_all is_in_band cs)"
    if "length ps = length cs" for ps :: "(string \<times> int list) list"
    using that by (induction ps cs rule: list_induct2) auto
  then show ?thesis using assms by (simp add: samples_in_band_def add_row_def)
qed

text \<open>The loop accepts the rows that are well formed, and keeps whether all samples are in band.\<close>

lemma read_rows_accepts:
  assumes "length (per_channel m) = 8"
  shows "case read_rows rows m of
      Inl code \<Rightarrow> code = 2 \<and> \<not> list_all (row_ok False) rows
    | Inr m' \<Rightarrow> list_all (row_ok False) rows \<and> length (timestamps m') = length (timestamps m) + length rows \<and>
        samples_in_band m' = (samples_in_band m \<and> list_all (row_ok True) rows)"
  using assms
proof (induction rows arbitrary: m)
  case (Cons row rows)
  have len: "length EXPECTED_HEADER = 9" by (simp add: EXPECTED_HEADER_def)
  show ?case
  proof (cases "length row = 9 \<and> (\<exists>tc. parse_row row = Inr tc)")
    case True
    then obtain t cs where p: "length row = 9" "parse_row row = Inr (t, cs)" by auto
    then have pc: "parse_float (hd row) = Some t" "map parse_int (List.tl row) = map Some cs"
      by (simp_all add: parse_row_Inr)
    then have c8: "length cs = 8" using p(1) map_eq_imp_length_eq[OF pc(2)] by simp
    have ok: "row_ok False row" "row_ok True row = list_all is_in_band cs"
      using p(1) pc cells_parse[OF pc(2)] by (simp_all add: row_ok_def)
    have "length (per_channel (add_row t cs m)) = 8" using Cons.prems c8 by (simp add: add_row_def)
    from Cons.IH[OF this] show ?thesis
      using p len ok add_row_band[of m cs t] Cons.prems c8
      by (simp add: add_row_def[of t cs m, THEN arg_cong, of timestamps, simplified] split: sum.splits)
  next
    case False
    have "\<not> row_ok False row"
    proof (cases "length row = 9")
      case True
      then have "\<nexists>t cs. parse_row row = Inr (t, cs)" using False by auto
      then have "parse_float (hd row) = None \<or> (\<forall>cs. map parse_int (List.tl row) \<noteq> map Some cs)"
        by (auto simp: parse_row_Inr)
      then show ?thesis using cells_no_parse[of "List.tl row" False] by (auto simp: row_ok_def cell_ok_def)
    qed (simp add: row_ok_def)
    moreover have "read_rows (row # rows) m = Inl 2" using False len by (cases "parse_row row") auto
    ultimately show ?thesis by simp
  qed
qed simp

text \<open>
  The report's exit code is the verdict on the file. It is 0 exactly if the file exists, its
  first row is the expected header, at least one row follows, and every row has a number and
  eight integers, within 1000 to 2000 if that was asked for; in every other case it is 2.
\<close>

theorem mission_verdict:
  "mission_main check_band file =
     (case file of
        Some (header # row # rows) \<Rightarrow>
          if header = EXPECTED_HEADER \<and> list_all (row_ok check_band) (row # rows) then 0 else 2
      | _ \<Rightarrow> 2)"
proof (cases "\<exists>header rows. file = Some (header # rows) \<and> header = EXPECTED_HEADER")
  case True
  then obtain rows where f: "file = Some (EXPECTED_HEADER # rows)" by auto
  have n: "length (per_channel new_mission) = 8" "timestamps new_mission = []" "samples_in_band new_mission"
    by (simp_all add: new_mission_def EXPECTED_HEADER_def samples_in_band_def)
  have w: "row_ok True r \<Longrightarrow> row_ok False r" for r
      by (auto simp: row_ok_def cell_ok_def list_all_iff split: option.splits)
  then have wl: "list_all (row_ok True) rs \<Longrightarrow> list_all (row_ok False) rs" for rs by (auto simp: list_all_iff)
  show ?thesis using read_rows_accepts[OF n(1), of rows] n(2,3) wl[of rows]
    by (cases rows; cases check_band; cases "read_rows rows new_mission")
      (auto simp: f mission_main_def out_of_band_Nil)
qed (auto simp: mission_main_def split: option.splits list.splits)

end
