(* ===== verification/Tool_Args.thy ===== *)
theory Tool_Args
  imports Py_Text Protocol_Constants
begin

section \<open>The command lines of the tools\<close>

text \<open>
  What \<open>argparse\<close> does for the developers' tools, once the command line is split into options
  and their texts: an option is looked up in the tool's table, its text converted by \<open>type\<close> or
  checked against \<open>choices\<close>, and two options of a mutually exclusive group refused; what fails
  exits with status 2. The tables are the \<open>add_argument\<close> calls of the modules under
  \<open>src/scripts/dev\<close>; a positional argument is an entry without a default, which must be given.
\<close>

datatype arg_kind = AInt | AFloat | AStr | AFlag | AChoice "string list"

datatype arg_val = VNone | VInt int | VFloat pyfloat | VStr string | VBool bool

type_synonym arg_spec = "(string \<times> arg_kind \<times> arg_val option) list"

type_synonym parsed = "string \<rightharpoonup> arg_val"

definition convert_arg :: "arg_kind \<Rightarrow> string \<Rightarrow> pyexc + arg_val" where
  "convert_arg k text =
     (let usage = (\<lambda>r. case r of Inl _ \<Rightarrow> Inl (SystemExit 2) | Inr v \<Rightarrow> Inr v) in
      case k of
        AInt \<Rightarrow> usage (rbind (int_of_text text) (\<lambda>n. Inr (VInt n)))
      | AFloat \<Rightarrow> usage (rbind (float_of_text text) (\<lambda>x. Inr (VFloat x)))
      | AStr \<Rightarrow> Inr (VStr text)
      | AFlag \<Rightarrow> Inr (VBool True)
      | AChoice cs \<Rightarrow> if text \<in> set cs then Inr (VStr text) else Inl (SystemExit 2))"

definition arg_defaults :: "arg_spec \<Rightarrow> parsed" where
  "arg_defaults specs = (\<lambda>n. case map_of specs n of None \<Rightarrow> None | Some (_, d) \<Rightarrow> d)"

fun parse_options :: "arg_spec \<Rightarrow> string list \<Rightarrow> string list \<Rightarrow> (string \<times> string) list \<Rightarrow> parsed \<Rightarrow> pyexc + parsed" where
  \<comment> \<open>\<open>seen\<close>: the options of the exclusive group given so far\<close>
  "parse_options specs exclusive seen [] m = Inr m"
| "parse_options specs exclusive seen ((opt, text) # rest) m =
     (case map_of specs opt of
        None \<Rightarrow> Inl (SystemExit 2)
      | Some (k, _) \<Rightarrow>
          if opt \<in> set exclusive \<and> (\<exists>o' \<in> set seen. o' \<noteq> opt) then Inl (SystemExit 2)
          else rbind (convert_arg k text) (\<lambda>v.
            parse_options specs exclusive (if opt \<in> set exclusive then opt # seen else seen) rest (m(opt \<mapsto> v))))"

definition parse_tool :: "arg_spec \<Rightarrow> string list \<Rightarrow> (string \<times> string) list \<Rightarrow> pyexc + parsed" where
  "parse_tool specs exclusive opts =
     rbind (parse_options specs exclusive [] opts (arg_defaults specs)) (\<lambda>m.
     if list_all (\<lambda>(n, _). m n \<noteq> None) specs then Inr m else Inl (SystemExit 2))"

definition arg_int :: "parsed \<Rightarrow> string \<Rightarrow> int option" where
  "arg_int m n = (case m n of Some (VInt k) \<Rightarrow> Some k | _ \<Rightarrow> None)"

definition arg_float :: "parsed \<Rightarrow> string \<Rightarrow> pyfloat option" where
  "arg_float m n = (case m n of Some (VFloat x) \<Rightarrow> Some x | _ \<Rightarrow> None)"

definition arg_text :: "parsed \<Rightarrow> string \<Rightarrow> string option" where
  "arg_text m n = (case m n of Some (VStr s) \<Rightarrow> Some s | _ \<Rightarrow> None)"

definition arg_flag :: "parsed \<Rightarrow> string \<Rightarrow> bool" where
  "arg_flag m n = (m n = Some (VBool True))"

subsection \<open>The tables\<close>

definition smoke_specs :: arg_spec where
  "smoke_specs =
     [(''--tcp-host'', AStr, Some (VStr ''127.0.0.1'')), (''--tcp-port'', AInt, Some (VInt 9002)),
      (''--udp-host'', AStr, Some (VStr ''127.0.0.1'')), (''--udp-port'', AInt, Some (VInt 9001)),
      (''--cmd-mode'', AInt, Some (VInt 1)), (''--cmd-hz'', AFloat, Some (VFloat (Fin 50))),
      (''--cmd-burst-seconds'', AFloat, Some (VFloat (f64 (3 / 10)))),
      (''--apply-timeout-seconds'', AFloat, Some (VFloat (f64 (2 / 10)))),
      (''--fallback-timeout-seconds'', AFloat, Some (VFloat (f64 (8 / 10)))),
      (''--spawn-fc-app'', AFlag, Some (VBool False)),
      (''--fc-app-path'', AStr, Some (VStr ''build/src/fc/fc_app''))]"

definition listener_specs :: arg_spec where
  "listener_specs =
     [(''--host'', AStr, Some (VStr ''127.0.0.1'')), (''--port'', AInt, Some (VInt 9101)),
      (''--duration-s'', AFloat, Some (VFloat (Fin 5))), (''--expect-hz'', AFloat, Some (VFloat (Fin 50))),
      (''--hz-tolerance'', AFloat, Some (VFloat (f64 (30 / 100)))), (''--min-frames'', AInt, Some (VInt 10)),
      (''--max-seq-gap'', AInt, Some (VInt 2)), (''--strict'', AFlag, Some (VBool False))]"

definition replay_specs :: arg_spec where
  "replay_specs =
     [(''--jsonl'', AStr, Some VNone), (''--pattern'', AChoice [''sweep'', ''lose'', ''reacquire''], Some (VStr ''sweep'')),
      (''--host'', AStr, Some (VStr ''127.0.0.1'')), (''--port'', AInt, Some (VInt 9003)),
      (''--hz'', AFloat, Some (VFloat (Fin 20))), (''--duration-s'', AFloat, Some VNone),
      (''--count'', AInt, Some VNone), (''--seed'', AInt, Some (VInt 1)), (''--start-seq'', AInt, Some VNone),
      (''--send-oversize-once'', AFlag, Some (VBool False)), (''--max-bytes'', AInt, Some (VInt 512))]"

definition replay_exclusive :: "string list" where
  "replay_exclusive = [''--jsonl'', ''--pattern'']"

definition hover_specs :: "environ \<Rightarrow> arg_spec" where
  \<comment> \<open>the token comes from the environment\<close>
  "hover_specs env =
     [(''--backend-url'', AStr, Some (VStr ''http://127.0.0.1:8000'')),
      (''--api-token'', AStr, Some (case env ''BACKEND_API_TOKEN'' of None \<Rightarrow> VNone | Some t \<Rightarrow> VStr t)),
      (''--output'', AStr, Some VNone), (''--start'', AInt, Some (VInt 1000)), (''--stop'', AInt, Some (VInt 1700)),
      (''--step-us'', AInt, Some (VInt 10)), (''--hold-s'', AFloat, Some (VFloat (Fin 1))),
      (''--unattended'', AFlag, Some (VBool False)), (''--log-dir'', AStr, Some VNone),
      (''--request-timeout-s'', AFloat, Some (VFloat (Fin 2)))]"

definition send_cmd_specs :: arg_spec where
  "send_cmd_specs =
     [(''desired_mode'', AInt, None), (''--seq'', AInt, Some VNone), (''--repeat-hz'', AFloat, Some (VFloat (Fin 0))),
      (''--burst-seconds'', AFloat, Some (VFloat (f64 (6 / 10)))), (''--host'', AStr, Some (VStr ''127.0.0.1'')),
      (''--port'', AInt, Some (VInt 9002))]"

definition listen_tel_specs :: arg_spec where
  "listen_tel_specs =
     [(''--host'', AStr, Some (VStr ''127.0.0.1'')), (''--port'', AInt, Some (VInt 9001)),
      (''--max-print-hz'', AFloat, Some (VFloat (Fin 10))), (''--show-json'', AFlag, Some (VBool False))]"

definition push_frame_specs :: arg_spec where
  "push_frame_specs =
     [(''jpeg_path'', AStr, None), (''--url'', AStr, Some (VStr ''http://127.0.0.1:8000/api/frame'')),
      (''--timeout-s'', AFloat, Some (VFloat (Fin 3)))]"

definition mission_specs :: arg_spec where
  "mission_specs = [(''path'', AStr, None), (''--check-band'', AFlag, Some (VBool False))]"

subsection \<open>What parsing leaves\<close>

fun kind_ok :: "arg_kind \<Rightarrow> arg_val \<Rightarrow> bool" where
  "kind_ok AInt v = (\<exists>k. v = VInt k)"
| "kind_ok AFloat v = (\<exists>x. v = VFloat x)"
| "kind_ok AStr v = (\<exists>s. v = VStr s)"
| "kind_ok AFlag v = (v = VBool True)"
| "kind_ok (AChoice cs) v = (\<exists>s \<in> set cs. v = VStr s)"

lemma convert_arg_kind: "convert_arg k text = Inr v \<Longrightarrow> kind_ok k v"
  by (cases k) (auto simp: convert_arg_def Let_def rbind_Inr_iff split: sum.splits if_splits)

definition args_typed :: "arg_spec \<Rightarrow> parsed \<Rightarrow> bool" where
  \<comment> \<open>every option has its default or a value of its kind\<close>
  "args_typed specs m = (\<forall>n k d. map_of specs n = Some (k, d) \<longrightarrow>
     m n = d \<or> (\<exists>v. m n = Some v \<and> kind_ok k v))"

lemma parse_options_typed:
  "parse_options specs exclusive seen opts m = Inr m' \<Longrightarrow> args_typed specs m \<Longrightarrow> args_typed specs m'"
proof (induction specs exclusive seen opts m rule: parse_options.induct)
  case (2 specs exclusive seen opt w rest m)
  obtain k d v where k: "map_of specs opt = Some (k, d)" and v: "convert_arg k w = Inr v"
    using 2(2) by (auto simp: rbind_Inr_iff split: option.splits if_splits)
  have "args_typed specs (m(opt \<mapsto> v))"
    using 2(3) k convert_arg_kind[OF v] by (auto simp: args_typed_def)
  moreover have "parse_options specs exclusive (if opt \<in> set exclusive then opt # seen else seen) rest (m(opt \<mapsto> v)) = Inr m'"
    "\<not> (opt \<in> set exclusive \<and> (\<exists>o' \<in> set seen. o' \<noteq> opt))"
    using 2(2) k v by (auto split: if_splits)
  ultimately show ?case using 2(1)[OF k refl] by blast
qed simp

text \<open>Every tool's options have the types its code relies on, and the positional ones are there.\<close>

lemma parse_tool_typed:
  assumes "parse_tool specs exclusive opts = Inr m"
  shows "args_typed specs m" "n \<in> fst ` set specs \<Longrightarrow> m n \<noteq> None"
proof -
  have "args_typed specs (arg_defaults specs)" by (auto simp: args_typed_def arg_defaults_def)
  then show "args_typed specs m" using assms parse_options_typed
    by (fastforce simp: parse_tool_def rbind_Inr_iff split: if_splits)
  show "n \<in> fst ` set specs \<Longrightarrow> m n \<noteq> None"
    using assms by (auto simp: parse_tool_def rbind_Inr_iff list_all_iff split: if_splits)
qed

text \<open>The tools' default ports are the ports the two programs use.\<close>

lemma default_ports:
  "arg_int (arg_defaults listen_tel_specs) ''--port'' = Some UDP_TEL_PORT"
  "arg_int (arg_defaults replay_specs) ''--port'' = Some UDP_VIS_PORT"
  "arg_int (arg_defaults send_cmd_specs) ''--port'' = Some TCP_CMD_PORT"
  "arg_int (arg_defaults smoke_specs) ''--tcp-port'' = Some TCP_CMD_PORT"
  "arg_int (arg_defaults smoke_specs) ''--udp-port'' = Some UDP_TEL_PORT"
  "arg_int (arg_defaults replay_specs) ''--max-bytes'' = Some UDP_MAX_VIS_BYTES"
  by (simp_all add: arg_int_def arg_defaults_def listen_tel_specs_def replay_specs_def send_cmd_specs_def
      smoke_specs_def protocol_constants)

end
