(* ===== verification/Vis_Replay.thy ===== *)
theory Vis_Replay
  imports Vis_Schema Vis_Types
begin

section \<open>The vision replay tool\<close>

text \<open>
  \<open>src/scripts/dev/vision_replay.py\<close>: it sends synthetic or recorded vision messages to the
  backend. The sine (\<open>math.sin\<close>), the clock and the two draws of the random generator in each
  step are arguments; the socket takes every datagram and sleeping is left out. The theorem
  says that the backend accepts every synthetic message.
\<close>

definition DEFAULT_MAX_BYTES :: int where "DEFAULT_MAX_BYTES = 512"

definition replay_args_ok :: "pyfloat \<Rightarrow> int option \<Rightarrow> pyfloat option \<Rightarrow> int \<Rightarrow> pyexc + unit" where
  "replay_args_ok hz cnt duration_s max_bytes =
     rbind (guard_raise (\<not> fle hz (Fin 0)) (ValueError (Msg ''--hz must be > 0''))) (\<lambda>_.
     rbind (guard_raise (\<not> (case cnt of None \<Rightarrow> False | Some n \<Rightarrow> n \<le> 0)) (ValueError (Msg ''--count must be > 0''))) (\<lambda>_.
     rbind (guard_raise (\<not> (case duration_s of None \<Rightarrow> False | Some d \<Rightarrow> fle d (Fin 0)))
       (ValueError (Msg ''--duration-s must be > 0''))) (\<lambda>_.
     guard_raise (\<not> max_bytes \<le> 0) (ValueError (Msg ''--max-bytes must be > 0'')))))"

definition resolve_total_count :: "int option \<Rightarrow> pyfloat option \<Rightarrow> pyfloat \<Rightarrow> pyexc + int" where
  "resolve_total_count cnt duration_s hz =
     (case cnt of
        Some n \<Rightarrow> Inr n
      | None \<Rightarrow> (case duration_s of
          Some d \<Rightarrow> rbind (round_exc (fmul d hz)) (\<lambda>n. Inr (max 1 n))
        | None \<Rightarrow> Inr 100))"

definition zero_vis :: "int \<Rightarrow> pyfloat \<Rightarrow> int \<Rightarrow> pydict" where
  "zero_vis seq timestamp_s tracking_state =
     [(''type'', PStr ''VIS''), (''seq'', PInt seq), (''timestamp_s'', PFloat timestamp_s),
      (''tracking_state'', PInt tracking_state), (''loc_x'', PFloat (Fin 0)), (''loc_y'', PFloat (Fin 0)),
      (''bound_w'', PFloat (Fin 0)), (''bound_h'', PFloat (Fin 0)), (''confidence'', PFloat (Fin 0))]"

definition target_vis :: "int \<Rightarrow> pyfloat \<Rightarrow> pyfloat \<Rightarrow> pyfloat \<Rightarrow> pyfloat \<Rightarrow> pyfloat \<Rightarrow> pyfloat \<Rightarrow> pydict" where
  \<comment> \<open>the literal of the tracking messages\<close>
  "target_vis seq timestamp_s loc_x loc_y bound_w bound_h conf =
     [(''type'', PStr ''VIS''), (''seq'', PInt seq), (''timestamp_s'', PFloat timestamp_s),
      (''tracking_state'', PInt 3), (''loc_x'', PFloat loc_x), (''loc_y'', PFloat loc_y),
      (''bound_w'', PFloat bound_w), (''bound_h'', PFloat bound_h), (''confidence'', PFloat conf)]"

definition uniform :: "pyfloat \<Rightarrow> pyfloat \<Rightarrow> pyfloat \<Rightarrow> pyfloat" where
  \<comment> \<open>\<open>random.uniform(a, b)\<close> on a draw of \<open>random()\<close>\<close>
  "uniform a b u = fadd a (fmul (fsub b a) u)"

definition build_pattern_msg ::
  "(pyfloat \<Rightarrow> pyfloat) \<Rightarrow> string \<Rightarrow> int \<Rightarrow> int \<Rightarrow> int \<Rightarrow> pyfloat \<Rightarrow> pyfloat \<times> pyfloat \<Rightarrow> pyexc + pydict" where
  "build_pattern_msg msin pattern index total_n seq timestamp_s draws =
     (if pattern = ''sweep'' then
        (let denom = max 1 (total_n - 1) in
         rbind (int_truediv index denom) (\<lambda>q.
         rbind (float_result index) (\<lambda>fi. rbind (fdiv_exc fi (Fin 8)) (\<lambda>angle.
         let loc_x = fadd (Fin (- 1)) (fmul (Fin 2) q)
         in Inr (target_vis seq timestamp_s loc_x (fmul (f64 (2 / 10)) (msin angle))
              (f64 (22 / 100)) (f64 (30 / 100)) (f64 (9 / 10)))))))
      else if pattern = ''lose'' then
        rbind (int_truediv index (max 1 total_n)) (\<lambda>phase.
        if flt phase (Fin (1 / 2)) then
          Inr (target_vis seq timestamp_s (fmax (Fin (- 1)) (fmin (Fin 1) (fsub (Fin (1 / 2)) phase)))
            (fneg (f64 (1 / 10))) (f64 (24 / 100)) (f64 (28 / 100)) (f64 (85 / 100)))
        else if flt phase (Fin (3 / 4)) then Inr (zero_vis seq timestamp_s 4)
        else Inr (zero_vis seq timestamp_s 1))
      else if pattern = ''reacquire'' then
        rbind (int_truediv index (max 1 total_n)) (\<lambda>phase.
        if flt phase (f64 (33 / 100)) then Inr (zero_vis seq timestamp_s 1)
        else if flt phase (f64 (66 / 100)) then Inr (zero_vis seq timestamp_s 2)
        else (let span = (fneg (f64 (2 / 10)), f64 (2 / 10))
              in Inr (target_vis seq timestamp_s (uniform (fst span) (snd span) (fst draws))
                   (uniform (fst span) (snd span) (snd draws))
                   (f64 (20 / 100)) (f64 (24 / 100)) (f64 (92 / 100)))))
      else Inl (ValueError (Msg ''unsupported pattern'')))"

definition encode_payload :: "(real \<Rightarrow> string) \<Rightarrow> pyval \<Rightarrow> int \<Rightarrow> pyexc + nat list" where
  \<comment> \<open>the message of the error reads the payload's type, which only an object has\<close>
  "encode_payload fr payload max_bytes =
     (let encoded = utf8_ascii (dumps fr payload)
      in if max_bytes < int (length encoded)
         then (case payload of PDict _ \<Rightarrow> Inl (ValueError (Msg ''VIS payload exceeds the limit'')) | _ \<Rightarrow> Inl AttributeError)
         else Inr encoded)"

fun send_pattern ::
  "(real \<Rightarrow> string) \<Rightarrow> (pyfloat \<Rightarrow> pyfloat) \<Rightarrow> string \<Rightarrow> int \<Rightarrow> int \<Rightarrow> int \<Rightarrow> int
   \<Rightarrow> (pyfloat \<times> pyfloat \<times> pyfloat) list \<Rightarrow> (pyexc, nat list list, unit) eff" where
  \<comment> \<open>the loop from \<open>index\<close> on; a step has its clock and its two draws, the state is the wire\<close>
  "send_pattern fr msin pattern max_bytes total_n start_seq index [] wire = (Inr (), wire)"
| "send_pattern fr msin pattern max_bytes total_n start_seq index ((now_s, draws) # steps) wire =
     (case rbind (build_pattern_msg msin pattern index total_n (start_seq + index) now_s draws)
             (\<lambda>msg. encode_payload fr (PDict msg) max_bytes) of
        Inl e \<Rightarrow> (Inl e, wire)
      | Inr payload \<Rightarrow>
          send_pattern fr msin pattern max_bytes total_n start_seq (index + 1) steps (wire @ [payload]))"

fun replay_jsonl ::
  "(real \<Rightarrow> string) \<Rightarrow> (string \<Rightarrow> pyexc + pyval) \<Rightarrow> int \<Rightarrow> int \<Rightarrow> int \<Rightarrow> string list \<Rightarrow> (pyexc, nat list list, int) eff" where
  \<comment> \<open>\<open>parse\<close> is \<open>json.loads\<close> on a line; the result is the number of datagrams sent\<close>
  "replay_jsonl fr parse max_bytes max_count sent [] wire = (Inr sent, wire)"
| "replay_jsonl fr parse max_bytes max_count sent (line # rest) wire =
     (if max_count \<le> sent then (Inr sent, wire)
      else if strip line = [] then replay_jsonl fr parse max_bytes max_count sent rest wire
      else case rbind (parse line) (\<lambda>obj. encode_payload fr obj max_bytes) of
        Inl e \<Rightarrow> (Inl e, wire)
      | Inr payload \<Rightarrow> replay_jsonl fr parse max_bytes max_count (sent + 1) rest (wire @ [payload]))"

subsection \<open>The backend accepts the patterns\<close>

definition unit_sine :: "(pyfloat \<Rightarrow> pyfloat) \<Rightarrow> bool" where
  \<comment> \<open>what is used of \<open>math.sin\<close>\<close>
  "unit_sine msin = (\<forall>x. isfinite x \<longrightarrow> between (Fin (- 1)) (Fin 1) (msin x))"

lemma between_FinE:
  assumes "between (Fin a) (Fin b) v"
  obtains r where "v = Fin r" "a \<le> r" "r \<le> b"
  using assms unfolding between_def by (auto elim: fle_between_Fin)

lemma f64_between:
  assumes "a \<le> x" "x \<le> b" "rnd a = a" "rnd b = b" "\<bar>a\<bar> \<le> 2 ^ 60" "\<bar>b\<bar> \<le> 2 ^ 60"
  shows "\<exists>r. f64 x = Fin r \<and> a \<le> r \<and> r \<le> b"
proof -
  have r: "a \<le> rnd x" "rnd x \<le> b" using assms rnd_ge_fix rnd_le_fix by blast+
  then have "\<bar>rnd x\<bar> < f64_limit" using assms(5,6) by (intro big_bound) linarith
  then show ?thesis using r f64_small by blast
qed

lemma f64_unit: "0 \<le> x \<Longrightarrow> x \<le> 1 \<Longrightarrow> between (Fin 0) (Fin 1) (f64 x)"
  using f64_between[of 0 x 1] by (auto simp: between_def)

lemma mult_signed_unit:
  assumes "between (Fin (- 1)) (Fin 1) a" "between (Fin (- 1)) (Fin 1) b"
  shows "between (Fin (- 1)) (Fin 1) (fmul a b)"
proof -
  obtain r s where ab: "a = Fin r" "b = Fin s" and rs: "- 1 \<le> r" "r \<le> 1" "- 1 \<le> s" "s \<le> 1"
    using assms by (elim between_FinE) blast
  have "\<bar>r * s\<bar> \<le> 1" unfolding abs_mult using rs by (intro mult_le_one) auto
  then have "- 1 \<le> r * s" "r * s \<le> 1" by linarith+
  then show ?thesis unfolding ab using f64_between[of "- 1" "r * s" 1] by (auto simp: between_def)
qed

lemma zero_vis_accepted:
  assumes "st \<in> set TRACKING_STATES"
  shows "validate_vis_message (PDict (zero_vis q t st)) = Inr (zero_vis q t st)"
proof -
  have "zero_vis q t st = vis_message q t st (Fin 0) (Fin 0) (Fin 0) (Fin 0) (Fin 0)"
    by (simp add: zero_vis_def vis_message_def)
  then show ?thesis using assms by (simp add: validate_vis_fixpoint vis_message_wf between_def)
qed

lemma target_vis_accepted:
  assumes "between (Fin (- 1)) (Fin 1) x" "between (Fin (- 1)) (Fin 1) y"
    "between (Fin 0) (Fin 1) w" "between (Fin 0) (Fin 1) h" "between (Fin 0) (Fin 1) c"
  shows "validate_vis_message (PDict (target_vis q t x y w h c)) = Inr (target_vis q t x y w h c)"
proof -
  have "target_vis q t x y w h c = vis_message q t 3 x y w h c"
    by (simp add: target_vis_def vis_message_def)
  then show ?thesis using assms
    by (simp add: validate_vis_fixpoint vis_message_wf TRACKING_STATE_TRACKING_def TRACKING_STATES_def)
qed

lemma int_truediv_unit:
  assumes "0 \<le> a" "a \<le> b" "0 < b"
  shows "\<exists>q. int_truediv a b = Inr (Fin q) \<and> 0 \<le> q \<and> q \<le> 1"
proof -
  have "(0::real) \<le> of_int a / of_int b" "of_int a / of_int b \<le> (1::real)" using assms by simp_all
  then obtain q where "f64 (of_int a / of_int b) = Fin q" "0 \<le> q" "q \<le> 1"
    using f64_between[of 0 _ 1] by fastforce
  then show ?thesis using assms(3) by (simp add: int_truediv_def)
qed

lemma sweep_x_unit:
  assumes "0 \<le> q" "q \<le> 1"
  shows "between (Fin (- 1)) (Fin 1) (fadd (Fin (- 1)) (fmul (Fin 2) (Fin q)))"
proof -
  obtain p where p: "f64 (2 * q) = Fin p" "0 \<le> p" "p \<le> 2" using assms f64_between[of 0 "2 * q" 2] by auto
  obtain r where "f64 (- 1 + p) = Fin r" "- 1 \<le> r" "r \<le> 1" using p f64_between[of "- 1" "- 1 + p" 1] by auto
  then show ?thesis using p(1) by (simp add: between_def)
qed

lemma fifth: obtains c where "f64 (2 / 10) = Fin c" "0 \<le> c" "c \<le> 1 / 2"
  using f64_between[of 0 "2 / 10" "1 / 2"] by auto

lemma uniform_unit:
  assumes "between (Fin 0) (Fin 1) u"
  shows "between (Fin (- 1)) (Fin 1) (uniform (fneg (f64 (2 / 10))) (f64 (2 / 10)) u)"
proof -
  obtain c where c: "f64 (2 / 10) = Fin c" "0 \<le> c" "c \<le> 1 / 2" by (rule fifth)
  obtain v where v: "u = Fin v" "0 \<le> v" "v \<le> 1" using assms by (rule between_FinE)
  obtain d where d: "f64 (c - - c) = Fin d" "0 \<le> d" "d \<le> 1" using c f64_between[of 0 "c - - c" 1] by auto
  have "d * v \<le> 1" using d v by (intro mult_le_one) auto
  then obtain p where p: "f64 (d * v) = Fin p" "0 \<le> p" "p \<le> 1" using d v f64_between[of 0 "d * v" 1] by auto
  obtain r where "f64 (- c + p) = Fin r" "- 1 \<le> r" "r \<le> 1" using c p f64_between[of "- 1" "- c + p" 1] by auto
  then show ?thesis using c(1) v(1) d(1) p(1) by (simp add: uniform_def fsub_def between_def)
qed

text \<open>
  The replay tool tests what it says. Each synthetic message of each pattern, at any index
  below the total, is accepted unchanged by the backend's validator, so a drop seen while
  replaying is never the tool's own content.
\<close>

theorem replay_accepted:
  assumes "unit_sine msin" "pattern \<in> set [''sweep'', ''lose'', ''reacquire'']"
    "0 \<le> index" "index < total_n" "total_n < 2 ^ 53" "between (Fin 0) (Fin 1) u1" "between (Fin 0) (Fin 1) u2"
  shows "\<exists>msg. build_pattern_msg msin pattern index total_n seq t (u1, u2) = Inr msg \<and>
    dget msg ''seq'' = Some (PInt seq) \<and> validate_vis_message (PDict msg) = Inr msg"
proof -
  have st: "4 \<in> set TRACKING_STATES" "1 \<in> set TRACKING_STATES" "2 \<in> set TRACKING_STATES"
    by (simp_all add: TRACKING_STATES_def)
  have seqs: "dget (target_vis q ts x y w h c) ''seq'' = Some (PInt q)" "dget (zero_vis q ts s) ''seq'' = Some (PInt q)"
    for q ts x y w h c s by (simp_all add: target_vis_def zero_vis_def)
  obtain ph where ph: "int_truediv index (max 1 total_n) = Inr (Fin ph)" "0 \<le> ph" "ph \<le> 1"
    using int_truediv_unit[of index "max 1 total_n"] assms(3,4) by auto
  consider (sweep) "pattern = ''sweep''" | (lose) "pattern = ''lose''" | (reacquire) "pattern = ''reacquire''"
    using assms(2) by auto
  then show ?thesis
  proof cases
    case sweep
    obtain q where q: "int_truediv index (max 1 (total_n - 1)) = Inr (Fin q)" "0 \<le> q" "q \<le> 1"
      using int_truediv_unit[of index "max 1 (total_n - 1)"] assms(3,4) by force
    have fi: "float_result index = Inr (Fin (of_int index))"
      using assms(3-5) by (intro float_result_small) simp
    have "\<bar>real_of_int index / 8\<bar> \<le> 2 ^ 53"
      using assms(3-5) of_int_less_iff[of index "2 ^ 53", where 'a = real] by simp
    then obtain g where g: "f64 (of_int index / 8) = Fin g" using f64_bounded[of "of_int index / 8" 53] by auto
    have y: "between (Fin (- 1)) (Fin 1) (fmul (f64 (2 / 10)) (msin (Fin g)))"
    proof (rule mult_signed_unit)
      show "between (Fin (- 1)) (Fin 1) (f64 (2 / 10))" by (rule fifth) (simp add: between_def)
      show "between (Fin (- 1)) (Fin 1) (msin (Fin g))" using assms(1) by (simp add: unit_sine_def)
    qed
    show ?thesis
      using target_vis_accepted[OF sweep_x_unit[OF q(2,3)] y, of "f64 (22 / 100)" "f64 (30 / 100)" "f64 (9 / 10)"]
      by (simp add: sweep build_pattern_msg_def q(1) fi fdiv_exc_def g seqs f64_unit Let_def)
  next
    case lose
    have x: "between (Fin (- 1)) (Fin 1) (fmax (Fin (- 1)) (fmin (Fin 1) v))" for v
      by (cases v) (auto simp: fmax_def fmin_def between_def)
    have y: "between (Fin (- 1)) (Fin 1) (fneg (f64 (1 / 10)))"
      using f64_between[of 0 "1 / 10" 1] by (auto simp: between_def)
    show ?thesis
      by (simp add: lose build_pattern_msg_def ph(1) seqs target_vis_accepted[OF x y] f64_unit zero_vis_accepted st)
  next
    case reacquire
    show ?thesis
      by (simp add: reacquire build_pattern_msg_def ph(1) seqs zero_vis_accepted st f64_unit
          target_vis_accepted uniform_unit[OF assms(6), simplified] uniform_unit[OF assms(7), simplified])
  qed
qed

theorem replay_accepted_witness:
  "\<exists>msg. build_pattern_msg (\<lambda>_. Fin 0) ''lose'' 5 20 7 (Fin 1) (Fin 0, Fin 0) = Inr msg \<and>
    dget msg ''seq'' = Some (PInt 7) \<and> validate_vis_message (PDict msg) = Inr msg"
  using replay_accepted[of "\<lambda>_. Fin 0" "''lose''" 5 20 "Fin 0" "Fin 0" 7 "Fin 1"]
  by (simp add: unit_sine_def between_def)

end
