(* ===== verification/Smoke_Test.thy ===== *)
theory Smoke_Test
  imports Cmd_Schema
begin

section \<open>The protocol tools\<close>

text \<open>
  \<open>src/scripts/dev/fc_protocol_smoke.py\<close>, \<open>send_cmd.py\<close> and \<open>listen_tel.py\<close>: command frames
  built without the backend, the telemetry listener behind the smoke test, its waiting loops
  and its verdict, and the printing listener. \<open>loads\<close> is as in the ingestors. What another
  thread or the network decides is data: a poll is the clock at the loop's test and the latest
  snapshot then. A list of polls that ends stands for the deadline.
\<close>

subsection \<open>Frames built by the tools\<close>

definition cmd_dict :: "int \<Rightarrow> pyfloat \<Rightarrow> int \<Rightarrow> pydict" where
  "cmd_dict seq now_s desired_mode =
     [(''type'', PStr ''CMD''), (''seq'', PInt seq), (''timestamp_s'', PFloat now_s),
      (''desired_mode'', PInt desired_mode)]"

definition build_frame :: "(real \<Rightarrow> string) \<Rightarrow> int \<Rightarrow> pyfloat \<Rightarrow> int \<Rightarrow> pyexc + nat list" where
  \<comment> \<open>\<open>build_frame\<close> and \<open>build_cmd_frame\<close>, which are the same code\<close>
  "build_frame fr seq now_s desired_mode =
     (let payload = json_bytes fr (cmd_dict seq now_s desired_mode)
      in rbind (pack_be32 (length payload)) (\<lambda>header. Inr (header @ payload)))"

fun send_burst ::
  "(real \<Rightarrow> string) \<Rightarrow> int \<Rightarrow> int \<Rightarrow> pyfloat \<Rightarrow> (pyfloat \<times> pyfloat) list \<Rightarrow> (pyexc, nat list list, int) eff" where
  \<comment> \<open>\<open>send_cmd\<close> with \<open>--repeat-hz\<close>: the clock at the loop's test and when the frame is stamped; the state is the wire\<close>
  "send_burst fr desired_mode seq deadline [] wire = (Inr seq, wire)"
| "send_burst fr desired_mode seq deadline ((t, stamp) # ts) wire =
     (if \<not> flt t deadline then (Inr seq, wire)
      else case build_frame fr seq stamp desired_mode of
        Inl e \<Rightarrow> (Inl e, wire)
      | Inr f \<Rightarrow> send_burst fr desired_mode (seq + 1) deadline ts (wire @ [f]))"

lemma build_frame_framed:
  "build_frame fr q t m = Inr f \<Longrightarrow> frame_cmd_payload fr (cmd_dict q t m) (2 ^ 32) = Inr f"
proof -
  have "json_bytes fr (cmd_dict q t m) \<noteq> []" by (simp add: json_bytes_def utf8_ascii_def)
  then have "Suc 0 \<le> length (json_bytes fr (cmd_dict q t m))" by (cases "json_bytes fr (cmd_dict q t m)") auto
  then show "build_frame fr q t m = Inr f \<Longrightarrow> ?thesis"
    by (auto simp: build_frame_def frame_cmd_payload_def pack_be32_def Let_def split: if_splits)
qed

text \<open>The flight controller's reader reads the tools' frames too, up to its own limit.\<close>

lemma tool_frame_read:
  assumes "build_frame fr q t m = Inr f" "length f \<le> max_len + 4" "[] \<notin> set cs" "concat cs = f @ tail_bytes"
  shows "\<exists>rest. read_frame max_len cs = Some (json_bytes fr (cmd_dict q t m), rest) \<and> concat rest = tail_bytes"
proof -
  let ?raw = "json_bytes fr (cmd_dict q t m)"
  from build_frame_framed[OF assms(1)] have "f = be32 (length ?raw) @ ?raw" "0 < length ?raw" "length ?raw < 2 ^ 32"
    by (cases rule: frame_cmd_payloadE; simp)+
  then have "frame_cmd_payload fr (cmd_dict q t m) (int max_len) = Inr f" using assms(2)
    by (simp add: frame_cmd_payload_def pack_be32_def be32_def Let_def Suc_le_eq)
  then show ?thesis using read_frame_frame[of fr "cmd_dict q t m" "int max_len" f max_len cs tail_bytes] assms(3,4)
    by auto
qed

subsection \<open>The telemetry listener\<close>

record tel_snapshot =
  recv_monotonic_s :: pyfloat
  ts_seq :: int
  ts_control_mode :: int
  ts_tracking_state :: int

definition caught :: "pyexc \<Rightarrow> bool" where
  \<comment> \<open>\<open>except (KeyError, TypeError, ValueError)\<close>\<close>
  "caught e = (case e of KeyError _ \<Rightarrow> True | TypeError \<Rightarrow> True | ValueError _ \<Rightarrow> True | _ \<Rightarrow> False)"

definition read_tel :: "pyval option \<Rightarrow> pyfloat \<Rightarrow> pyexc + tel_snapshot option" where
  \<comment> \<open>of what \<open>loads\<close> answered; \<open>None\<close>: the datagram is skipped; an error that is not caught ends the thread\<close>
  "read_tel answer now_s =
     (case answer of
        None \<Rightarrow> Inr None
      | Some (PDict msg) \<Rightarrow>
          if dget msg ''type'' \<noteq> Some (PStr ''TEL'') then Inr None
          else (case rbind (int_at msg ''seq'') (\<lambda>q. rbind (int_at msg ''control_mode'') (\<lambda>m.
                  rbind (int_at msg ''tracking_state'') (\<lambda>s.
                  Inr \<lparr> recv_monotonic_s = now_s, ts_seq = q, ts_control_mode = m, ts_tracking_state = s \<rparr>))) of
                  Inl e \<Rightarrow> if caught e then Inr None else Inl e
                | Inr snap \<Rightarrow> Inr (Some snap))
      | Some _ \<Rightarrow> Inl AttributeError)"

fun listen ::
  "(nat list \<Rightarrow> pyval option) \<Rightarrow> (pyfloat \<times> nat list) list \<Rightarrow> (pyexc, tel_snapshot option, unit) eff" where
  \<comment> \<open>the thread over the datagrams it receives; the state is \<open>TelState.latest\<close>\<close>
  "listen loads [] latest = (Inr (), latest)"
| "listen loads ((now_s, data) # ds) latest =
     (case read_tel (loads data) now_s of
        Inl e \<Rightarrow> (Inl e, latest)
      | Inr None \<Rightarrow> listen loads ds latest
      | Inr (Some snap) \<Rightarrow> listen loads ds (Some snap))"

subsection \<open>Waiting\<close>

type_synonym poll = "pyfloat \<times> tel_snapshot option"

fun wait_until :: "(tel_snapshot \<Rightarrow> bool) \<Rightarrow> pyfloat \<Rightarrow> poll list \<Rightarrow> tel_snapshot option" where
  \<comment> \<open>the loop both waiting functions share\<close>
  "wait_until good deadline [] = None"
| "wait_until good deadline ((t, snap) # ps) =
     (if \<not> flt t deadline then None
      else case snap of
        Some s \<Rightarrow> if good s then Some s else wait_until good deadline ps
      | None \<Rightarrow> wait_until good deadline ps)"

definition mode_since :: "int \<Rightarrow> pyfloat option \<Rightarrow> tel_snapshot \<Rightarrow> bool" where
  "mode_since mode not_before_s s =
     ((case not_before_s of None \<Rightarrow> True | Some b \<Rightarrow> fle b (recv_monotonic_s s)) \<and> ts_control_mode s = mode)"

definition wait_for_mode :: "int \<Rightarrow> pyfloat \<Rightarrow> pyfloat \<Rightarrow> pyfloat option \<Rightarrow> poll list \<Rightarrow> tel_snapshot option" where
  "wait_for_mode mode now_s timeout_s not_before_s =
     wait_until (mode_since mode not_before_s) (fadd now_s timeout_s)"

definition wait_for_any_telemetry :: "pyfloat \<Rightarrow> pyfloat \<Rightarrow> poll list \<Rightarrow> tel_snapshot option" where
  "wait_for_any_telemetry now_s timeout_s = wait_until (\<lambda>_. True) (fadd now_s timeout_s)"

lemma wait_until_Some:
  "wait_until good deadline ps = Some s \<Longrightarrow> good s \<and> (\<exists>t. (t, Some s) \<in> set ps \<and> flt t deadline)"
  by (induction good deadline ps rule: wait_until.induct) (auto split: if_splits option.splits)

subsection \<open>The verdict\<close>

record smoke_args =
  cmd_mode :: int
  cmd_hz :: pyfloat
  cmd_burst_seconds :: pyfloat
  apply_timeout_seconds :: pyfloat
  fallback_timeout_seconds :: pyfloat

record smoke_env =
  se_begin :: pyfloat
  se_any :: "poll list"
  se_start :: pyfloat
  se_connects :: bool
  se_sends :: "(pyfloat \<times> pyfloat \<times> bool \<times> tel_snapshot option) list"
    \<comment> \<open>the clock at the test, the frame's stamp, whether the socket takes it, the snapshot after it\<close>
  se_remain :: pyfloat
  se_apply :: "poll list"
  se_stop :: pyfloat
  se_fallback :: "poll list"

fun send_until_applied ::
  "(real \<Rightarrow> string) \<Rightarrow> smoke_args \<Rightarrow> pyfloat \<Rightarrow> pyfloat \<Rightarrow> int
   \<Rightarrow> (pyfloat \<times> pyfloat \<times> bool \<times> tel_snapshot option) list \<Rightarrow> pyexc + tel_snapshot option" where
  "send_until_applied fr a start_s deadline seq [] = Inr None"
| "send_until_applied fr a start_s deadline seq ((t, stamp, takes, snap) # es) =
     (if \<not> flt t deadline then Inr None
      else rbind (build_frame fr seq stamp (cmd_mode a)) (\<lambda>_.
           if \<not> takes then Inl OSError
           else case snap of
             Some s \<Rightarrow> if mode_since (cmd_mode a) (Some start_s) s then Inr (Some s)
                       else send_until_applied fr a start_s deadline (seq + 1) es
           | None \<Rightarrow> send_until_applied fr a start_s deadline (seq + 1) es))"

definition smoke_main :: "(real \<Rightarrow> string) \<Rightarrow> smoke_args \<Rightarrow> smoke_env \<Rightarrow> pyexc + int" where
  \<comment> \<open>the exit code, without the option that spawns the flight controller\<close>
  "smoke_main fr a w =
     (if wait_for_any_telemetry (se_begin w) (Fin 2) (se_any w) = None then Inr 1
      else rbind (py_int (PFloat (fmul (se_start w) (Fin 1000)))) (\<lambda>seq.
        rbind (fdiv_exc (Fin 1) (cmd_hz a)) (\<lambda>_.
        let start_s = se_start w in
        case (if \<not> se_connects w then Inl OSError
              else send_until_applied fr a start_s (fadd start_s (fmax (Fin 0) (cmd_burst_seconds a))) seq (se_sends w)) of
          Inl OSError \<Rightarrow> Inr 1
        | Inl e \<Rightarrow> Inl e
        | Inr applied \<Rightarrow>
            (let deadline = fadd start_s (fmax (Fin 0) (apply_timeout_seconds a));
                 applied' = (case applied of Some s \<Rightarrow> Some s
                   | None \<Rightarrow> wait_for_mode (cmd_mode a) (se_remain w) (fmax (Fin 0) (fsub deadline (se_remain w)))
                       (Some start_s) (se_apply w))
             in if applied' = None then Inr 1
                else if wait_for_mode 2 (se_stop w) (fallback_timeout_seconds a) (Some (se_stop w)) (se_fallback w) = None
                then Inr 1 else Inr 0))))"

text \<open>
  A pass means what it says: the flight controller was seen in the commanded mode by a message
  that arrived after the first command, and in mode 2 by one that arrived after the last.
\<close>

lemma send_until_applied_Some:
  "send_until_applied fr a b d q es = Inr (Some s) \<Longrightarrow> mode_since (cmd_mode a) (Some b) s"
  by (induction fr a b d q es rule: send_until_applied.induct) (auto split: if_splits option.splits)

theorem smoke_pass_means:
  assumes "smoke_main fr a w = Inr 0"
  shows "(\<exists>s. mode_since (cmd_mode a) (Some (se_start w)) s) \<and>
    (\<exists>t s. (t, Some s) \<in> set (se_fallback w) \<and> mode_since 2 (Some (se_stop w)) s)"
proof -
  obtain seq where seq: "py_int (PFloat (fmul (se_start w) (Fin 1000))) = Inr seq" "returns (fdiv_exc (Fin 1) (cmd_hz a))"
    using assms by (auto simp: smoke_main_def returns_iff split: if_splits)
  let ?x = "if \<not> se_connects w then Inl OSError else send_until_applied fr a (se_start w)
    (fadd (se_start w) (fmax (Fin 0) (cmd_burst_seconds a))) seq (se_sends w)"
  obtain applied where x: "?x = Inr applied"
    using assms seq by (cases ?x) (auto simp: smoke_main_def returns_iff Let_def split: if_splits pyexc.splits)
  have f: "wait_for_mode 2 (se_stop w) (fallback_timeout_seconds a) (Some (se_stop w)) (se_fallback w) \<noteq> None"
    and a: "applied \<noteq> None \<or> wait_for_mode (cmd_mode a) (se_remain w)
        (fmax (Fin 0) (fsub (fadd (se_start w) (fmax (Fin 0) (apply_timeout_seconds a))) (se_remain w)))
        (Some (se_start w)) (se_apply w) \<noteq> None"
    using assms seq x by (auto simp: smoke_main_def returns_iff Let_def split: if_splits)
  have s: "send_until_applied fr a (se_start w) (fadd (se_start w) (fmax (Fin 0) (cmd_burst_seconds a))) seq (se_sends w)
      = Inr applied" using x by (simp split: if_splits)
  have "\<exists>s. mode_since (cmd_mode a) (Some (se_start w)) s"
    using a s by (cases applied) (auto simp: wait_for_mode_def dest!: wait_until_Some send_until_applied_Some)
  moreover have "\<exists>t s. (t, Some s) \<in> set (se_fallback w) \<and> mode_since 2 (Some (se_stop w)) s"
    using f by (auto simp: wait_for_mode_def dest!: wait_until_Some)
  ultimately show ?thesis by blast
qed

text \<open>A JSON value that is not an object ends the listening thread, and with it the test's sight.\<close>

lemma list_ends_listener: "listen (\<lambda>_. Some (PList [])) ((t, d) # ds) latest = (Inl AttributeError, latest)"
  by (simp add: read_tel_def)

subsection \<open>The printing listener\<close>

datatype tel_line =
  InvalidDatagram nat
| IgnoredType "pyval option"
| TelLine "pyval option" "pyval option" "pyval option"

fun listen_tel ::
  "(nat list \<Rightarrow> pyval option) \<Rightarrow> pyfloat \<Rightarrow> (pyfloat \<times> nat list) list \<Rightarrow> pyfloat \<Rightarrow> (pyexc, tel_line list, unit) eff" where
  \<comment> \<open>until Ctrl-C; the period is 0 for an unlimited rate; the last argument but the state is the next print time\<close>
  "listen_tel loads period_s [] next_print_s ls = (Inr (), ls)"
| "listen_tel loads period_s ((now_s, data) # ds) next_print_s ls =
     (if flt (Fin 0) period_s \<and> flt now_s next_print_s then listen_tel loads period_s ds next_print_s ls
      else case loads data of
        None \<Rightarrow> listen_tel loads period_s ds next_print_s (ls @ [InvalidDatagram (length data)])
      | Some (PDict msg) \<Rightarrow>
          if dget msg ''type'' \<noteq> Some (PStr ''TEL'')
          then listen_tel loads period_s ds next_print_s (ls @ [IgnoredType (dget msg ''type'')])
          else listen_tel loads period_s ds
                 (if flt (Fin 0) period_s then fadd now_s period_s else next_print_s)
                 (ls @ [TelLine (dget msg ''seq'') (dget msg ''control_mode'') (dget msg ''tracking_state'')])
      | Some _ \<Rightarrow> (Inl AttributeError, ls))"

definition print_period :: "pyfloat \<Rightarrow> pyexc + pyfloat" where
  "print_period max_print_hz = (if fle max_print_hz (Fin 0) then Inr (Fin 0) else fdiv_exc (Fin 1) max_print_hz)"

end
