(* ===== verification/Rc_Math.thy ===== *)
theory Rc_Math
  imports Py_Float
begin

section \<open>Setpoints to radio channel values\<close>

text \<open>
  The flight controller's arithmetic helpers: \<open>src/src/fc/header/RcConstants.h\<close>,
  \<open>RcMath.h\<close> and \<open>Clamp.h\<close>. A C++ \<open>double\<close> is a binary64 number like Python's float, so
  the values are those of \<open>Py_Float\<close>; a channel is a \<open>uint16_t\<close> in microseconds, kept as an
  integer whose range the theory proves. \<open>fclamp\<close> is \<open>std::clamp\<close>, \<open>lround\<close> rounds ties
  away from zero and \<open>u16_of\<close> is the truncating cast; the last two are not defined by C++
  for an infinity or NaN, where the model says 0, and the range lemmas show that no caller
  passes one.
\<close>

definition DRONE_MIN :: int where "DRONE_MIN = 1000"
definition DRONE_MID :: int where "DRONE_MID = 1500"
definition DRONE_MAX :: int where "DRONE_MAX = 2000"
definition DRONE_AUX_MIN :: int where "DRONE_AUX_MIN = 1000"
definition DRONE_AUX_MAX :: int where "DRONE_AUX_MAX = 2000"

lemmas rc_consts = DRONE_MIN_def DRONE_MID_def DRONE_MAX_def DRONE_AUX_MIN_def DRONE_AUX_MAX_def

definition kAxisRangeUs :: pyfloat where "kAxisRangeUs = Fin 300"
definition kMaxYawRateDps :: pyfloat where "kMaxYawRateDps = Fin 180"

definition fclamp :: "pyfloat \<Rightarrow> pyfloat \<Rightarrow> pyfloat \<Rightarrow> pyfloat" where
  \<comment> \<open>\<open>std::clamp(v, lo, hi)\<close>: a NaN compares false and passes\<close>
  "fclamp v lo hi = (if flt v lo then lo else if flt hi v then hi else v)"

definition lround :: "real \<Rightarrow> int" where
  "lround x = (if 0 \<le> x then \<lfloor>x + 1 / 2\<rfloor> else - \<lfloor>- x + 1 / 2\<rfloor>)"

fun lround_of :: "pyfloat \<Rightarrow> int" where
  "lround_of (Fin r) = lround r"
| "lround_of _ = 0"

fun u16_of :: "pyfloat \<Rightarrow> int" where
  \<comment> \<open>\<open>static_cast<std::uint16_t>(x)\<close> of a value in range\<close>
  "u16_of (Fin r) = (if 0 \<le> r then \<lfloor>r\<rfloor> else \<lceil>r\<rceil>)"
| "u16_of _ = 0"

definition fc_int :: "int \<Rightarrow> pyfloat" where
  \<comment> \<open>\<open>static_cast<double>\<close> of a channel value, which is exact\<close>
  "fc_int i = Fin (of_int i)"

definition rc_clamp :: "pyfloat \<Rightarrow> int" where
  "rc_clamp x = lround_of (fclamp x (fc_int DRONE_MIN) (fc_int DRONE_MAX))"

definition clamp_target_coord :: "pyfloat \<Rightarrow> pyfloat" where
  "clamp_target_coord v = (if isfinite v then fclamp v (Fin (- 1)) (Fin 1) else Fin 0)"

definition clamp_unit :: "pyfloat \<Rightarrow> pyfloat" where
  "clamp_unit v = (if isfinite v then fclamp v (Fin 0) (Fin 1) else Fin 0)"

definition normalized_axis_to_pwm :: "pyfloat \<Rightarrow> int" where
  "normalized_axis_to_pwm normalized =
     (if \<not> isfinite normalized then DRONE_MID
      else rc_clamp (fadd (fc_int DRONE_MID)
             (fmul (fclamp normalized (Fin (- 1)) (Fin 1)) kAxisRangeUs)))"

definition fdiv_nz :: "pyfloat \<Rightarrow> pyfloat \<Rightarrow> pyfloat" where
  \<comment> \<open>a C++ division whose divisor is known not to be zero\<close>
  "fdiv_nz a b = (case fdiv a b of Some q \<Rightarrow> q | None \<Rightarrow> NaN)"

definition yaw_rate_to_pwm :: "pyfloat \<Rightarrow> int" where
  "yaw_rate_to_pwm yaw_rate_dps =
     (if \<not> isfinite yaw_rate_dps then DRONE_MID
      else normalized_axis_to_pwm
             (fdiv_nz (fclamp yaw_rate_dps (fneg kMaxYawRateDps) kMaxYawRateDps) kMaxYawRateDps))"

definition throttle_to_pwm :: "pyfloat \<Rightarrow> int" where
  "throttle_to_pwm throttle =
     (if \<not> isfinite throttle then DRONE_MIN
      else if fle (Fin 0) throttle \<and> fle throttle (Fin 1)
      then rc_clamp (fadd (fc_int DRONE_MIN) (fmul throttle (fc_int (DRONE_MAX - DRONE_MIN))))
      else rc_clamp throttle)"

subsection \<open>Clamping\<close>

lemma fclamp_Fin: "l \<le> h \<Longrightarrow> fclamp (Fin x) (Fin l) (Fin h) = Fin (max l (min h x))"
  by (auto simp: fclamp_def)

lemma fclamp_bounded:
  assumes "l \<le> h" "x \<noteq> NaN"
  obtains r where "fclamp x (Fin l) (Fin h) = Fin r" "l \<le> r" "r \<le> h"
proof (cases x)
  case (Fin r)
  then show thesis using that[of "max l (min h r)"] assms by (simp add: fclamp_Fin)
next
  case PInf
  then show thesis using that[of h] assms by (simp add: fclamp_def)
next
  case NInf
  then show thesis using that[of l] assms by (simp add: fclamp_def)
qed (use assms in simp)

lemma fclamp_inside [simp]: "l \<le> x \<Longrightarrow> x \<le> h \<Longrightarrow> fclamp (Fin x) (Fin l) (Fin h) = Fin x"
  by (auto simp: fclamp_def)

lemma fclamp_NaN [simp]: "fclamp NaN l h = NaN"
  by (simp add: fclamp_def)

lemma lround_of_int [simp]: "lround (of_int k) = k"
  by (simp add: lround_def floor_eq_iff)

lemma lround_mono: "0 \<le> x \<Longrightarrow> x \<le> y \<Longrightarrow> lround x \<le> lround y"
  by (simp add: lround_def floor_mono)

lemma floor_range: "of_int a \<le> x \<Longrightarrow> x \<le> of_int b \<Longrightarrow> a \<le> \<lfloor>x\<rfloor> \<and> \<lfloor>x\<rfloor> \<le> b" for x :: real
  by (simp add: le_floor_iff floor_le_iff)

lemma lround_range:
  assumes "0 \<le> a" "of_int a \<le> x" "x \<le> of_int b"
  shows "a \<le> lround x \<and> lround x \<le> b"
proof -
  have "0 \<le> x" using assms(1,2) by (metis of_int_0_le_iff order_trans)
  then show ?thesis
    using assms(2,3) lround_mono[of "of_int a" x] lround_mono[of x "of_int b"] assms(1) by simp
qed

lemma u16_range: "0 \<le> a \<Longrightarrow> of_int a \<le> x \<Longrightarrow> x \<le> of_int b \<Longrightarrow> a \<le> u16_of (Fin x) \<and> u16_of (Fin x) \<le> b"
  using floor_range[of a x b] by (auto dest: order_trans[of 0 "of_int a"])

lemma rc_clamp_range:
  assumes "x \<noteq> NaN"
  shows "DRONE_MIN \<le> rc_clamp x \<and> rc_clamp x \<le> DRONE_MAX"
proof -
  obtain r where "fclamp x (fc_int DRONE_MIN) (fc_int DRONE_MAX) = Fin r" "1000 \<le> r" "r \<le> 2000"
    using fclamp_bounded[OF _ assms, of 1000 2000] by (auto simp: fc_int_def rc_consts)
  then show ?thesis using lround_range[of 1000 r 2000] by (simp add: rc_clamp_def rc_consts)
qed

lemma clamp_target_coord_range:
  obtains r where "clamp_target_coord v = Fin r" "- 1 \<le> r" "r \<le> 1"
proof (cases "isfinite v")
  case True
  then have "v \<noteq> NaN" by auto
  then show ?thesis using True that fclamp_bounded[of "- 1" 1 v] by (auto simp: clamp_target_coord_def)
qed (use that in \<open>auto simp: clamp_target_coord_def\<close>)

lemma clamp_unit_range:
  obtains r where "clamp_unit v = Fin r" "0 \<le> r" "r \<le> 1"
proof (cases "isfinite v")
  case True
  then have "v \<noteq> NaN" by auto
  then show ?thesis using True that fclamp_bounded[of 0 1 v] by (auto simp: clamp_unit_def)
qed (use that in \<open>auto simp: clamp_unit_def\<close>)

lemma clamp_target_coord_inside [simp]:
  "- 1 \<le> x \<Longrightarrow> x \<le> 1 \<Longrightarrow> clamp_target_coord (Fin x) = Fin x"
  by (simp add: clamp_target_coord_def)

lemma clamp_unit_inside [simp]: "0 \<le> x \<Longrightarrow> x \<le> 1 \<Longrightarrow> clamp_unit (Fin x) = Fin x"
  by (simp add: clamp_unit_def)

lemma clamp_target_coord_idem [simp]: "clamp_target_coord (clamp_target_coord v) = clamp_target_coord v"
  by (rule clamp_target_coord_range[of v]) simp

lemma clamp_unit_idem [simp]: "clamp_unit (clamp_unit v) = clamp_unit v"
  by (rule clamp_unit_range[of v]) simp

subsection \<open>A deflection stays within the stick range\<close>

text \<open>
  A normalised value in \<open>[-1, 1]\<close> scaled by a whole range and added to the centre stays
  inside: both roundings are monotone and the ends are exact.
\<close>

lemma deflection:
  assumes "- 1 \<le> x" "x \<le> 1"
  obtains p where "fadd (fc_int DRONE_MID) (fmul (Fin x) (Fin 300)) = Fin p" "1200 \<le> p" "p \<le> 1800"
proof -
  let ?m = "rnd (x * 300)" and ?p = "rnd (1500 + rnd (x * 300))"
  have m: "- 300 \<le> ?m" "?m \<le> 300" using assms by (auto intro!: rnd_ge_fix rnd_le_fix)
  then have "f64 (x * 300) = Fin ?m" using big_bound[of "\<bar>?m\<bar>"] by (intro f64_small) auto
  moreover have p: "1200 \<le> ?p" "?p \<le> 1800" using m by (auto intro!: rnd_ge_fix rnd_le_fix)
  moreover have "f64 (1500 + ?m) = Fin ?p" using p big_bound[of "\<bar>?p\<bar>"] by (intro f64_small) auto
  ultimately have "fadd (fc_int DRONE_MID) (fmul (Fin x) (Fin 300)) = Fin ?p"
    by (simp add: fc_int_def rc_consts)
  then show thesis using that p by blast
qed

lemma normalized_axis_range:
  "1200 \<le> normalized_axis_to_pwm x \<and> normalized_axis_to_pwm x \<le> 1800"
proof (cases "isfinite x")
  case True
  then obtain r where "fclamp x (Fin (- 1)) (Fin 1) = Fin r" "- 1 \<le> r" "r \<le> 1"
    using fclamp_bounded[of "- 1" 1 x] by (cases x) auto
  then obtain p where p: "fadd (fc_int DRONE_MID) (fmul (fclamp x (Fin (- 1)) (Fin 1)) (Fin 300)) = Fin p"
    "1200 \<le> p" "p \<le> 1800" using deflection[of r] by metis
  then have "normalized_axis_to_pwm x = lround p"
    using True by (simp add: normalized_axis_to_pwm_def kAxisRangeUs_def rc_clamp_def fc_int_def rc_consts)
  then show ?thesis using p lround_range[of 1200 p 1800] by simp
qed (simp add: normalized_axis_to_pwm_def rc_consts)

lemma yaw_rate_range: "1200 \<le> yaw_rate_to_pwm x \<and> yaw_rate_to_pwm x \<le> 1800"
  using normalized_axis_range by (simp add: yaw_rate_to_pwm_def rc_consts)

lemma throttle_range: "1000 \<le> throttle_to_pwm x \<and> throttle_to_pwm x \<le> 2000"
proof (cases x)
  case (Fin t)
  have "fadd (fc_int DRONE_MIN) (fmul (Fin t) (fc_int (DRONE_MAX - DRONE_MIN))) \<noteq> NaN"
    by (cases "t * 1000" rule: f64_cases) (simp_all add: fc_int_def rc_consts)
  then show ?thesis using Fin rc_clamp_range by (auto simp: throttle_to_pwm_def rc_consts)
qed (simp_all add: throttle_to_pwm_def rc_consts)

lemma throttle_in_band:
  assumes "1000 \<le> k" "k \<le> 2000"
  shows "throttle_to_pwm (Fin (of_int k)) = k"
proof -
  have "max 1000 (min 2000 (real_of_int k)) = of_int k" using assms by simp
  then show ?thesis using assms by (simp add: throttle_to_pwm_def rc_clamp_def fc_int_def rc_consts fclamp_Fin)
qed

end
