(* ===== verification/Hover_Cal.thy ===== *)
theory Hover_Cal
  imports Json_Text Vis_Types Rc_Math
begin

section \<open>The hover calibration sweep\<close>

text \<open>
  \<open>src/scripts/dev/hover_calibration.py\<close>: it walks the throttle setpoint through a range by
  posting intents, and writes one row of a table for each step. What happens in a step is the
  record \<open>step_world\<close>: the outcome of the request, the operator's answers (the list ends in
  end-of-file), the recorded table of the flight controller and whether Ctrl-C strikes.
  \<open>throttle_to_pwm\<close> of \<open>Rc_Math\<close> is the flight controller's reading of the setpoint.
\<close>

subsection \<open>One request\<close>

datatype http_result =
  Http_ok
| Http_error int string
| Url_error string
| Timed_out

definition post_note :: "http_result \<Rightarrow> bool \<times> string" where
  "post_note r = (case r of
      Http_ok \<Rightarrow> (True, '''')
    | Http_error code reason \<Rightarrow> (False, ''http '' @ dec_int code @ '': '' @ reason)
    | Url_error reason \<Rightarrow> (False, ''network: '' @ reason)
    | Timed_out \<Rightarrow> (False, ''timeout''))"

definition post_payload :: "int \<Rightarrow> pyexc + pydict" where
  "post_payload throttle_us =
     rbind (float_result throttle_us) (\<lambda>t.
     Inr [(''desired_mode'', PInt 0), (''setpoints'', PDict [(''throttle'', PFloat t)])])"

definition post_headers :: "string option \<Rightarrow> (string \<times> string) list" where
  "post_headers api_token = [(''Content-Type'', ''application/json'')] @
     (case api_token of None \<Rightarrow> [] | Some t \<Rightarrow> if t = [] then [] else [(''Authorization'', ''Bearer '' @ t)])"

subsection \<open>The recorded table and the operator\<close>

type_synonym csv_row = "string \<Rightarrow> string option option"
  \<comment> \<open>a row of \<open>csv.DictReader\<close>: no such column, or a cell, which is \<open>None\<close> in a short row\<close>

definition latest_csv :: "bool \<Rightarrow> (string \<times> pyfloat) list \<Rightarrow> string option" where
  \<comment> \<open>is a directory; the names of its tables with their modification times; the first of the latest\<close>
  "latest_csv is_dir csvs =
     (if \<not> is_dir then None
      else (case csvs of [] \<Rightarrow> None
        | c # cs \<Rightarrow> Some (fst (foldl (\<lambda>b x. if flt (snd b) (snd x) then x else b) c cs))))"

definition read_observed_throttle :: "csv_row list option \<Rightarrow> pyexc + int option" where
  \<comment> \<open>\<open>None\<close>: the file cannot be opened; a cell that is \<open>None\<close> makes \<open>int\<close> raise a TypeError\<close>
  "read_observed_throttle rows = (case rows of
      None \<Rightarrow> Inr None
    | Some rs \<Rightarrow>
        if rs = [] then Inr None
        else (case last rs ''throttle'' of
          None \<Rightarrow> Inr None
        | Some None \<Rightarrow> Inl TypeError
        | Some (Some cell) \<Rightarrow> Inr (parse_int cell)))"

definition classification_of :: "string \<Rightarrow> string option" where
  \<comment> \<open>a valid answer, spelled out\<close>
  "classification_of ans = map_of
     [(''liftoff'', ''liftoff''), (''stable'', ''stable''), (''clipping'', ''clipping''), (''skip'', ''skip''),
      (''l'', ''liftoff''), (''s'', ''stable''), (''c'', ''clipping''), (''k'', ''skip'')] ans"

fun prompt_classification :: "string list \<Rightarrow> string option" where
  \<comment> \<open>\<open>None\<close>: end of file\<close>
  "prompt_classification [] = None"
| "prompt_classification (line # rest) =
     (case classification_of (lower (strip line)) of
        Some c \<Rightarrow> Some c
      | None \<Rightarrow> prompt_classification rest)"

subsection \<open>The sweep\<close>

record hover_args =
  sweep_start :: int
  sweep_stop :: int
  step_us :: int
  unattended :: bool
  has_log_dir :: bool

datatype interrupt = Before_post | After_post | After_row

record step_world =
  sw_http :: http_result
  sw_answers :: "string list"
  sw_csv :: "(string \<times> csv_row list option) option" \<comment> \<open>the latest table: name and rows\<close>
  sw_interrupt :: "interrupt option"

record hover_row =
  hr_idx :: nat
  hr_requested :: int
  hr_observed :: "int option" \<comment> \<open>\<open>n/a\<close> is \<open>None\<close>\<close>
  hr_classification :: string
  hr_note :: string

record hover_out =
  ho_requests :: "int list"   \<comment> \<open>the throttles posted, in order\<close>
  ho_rows :: "hover_row list"

definition py_range :: "int \<Rightarrow> int \<Rightarrow> int \<Rightarrow> int list" where
  \<comment> \<open>\<open>range(a, b, s)\<close> for a positive step\<close>
  "py_range a b s = map (\<lambda>k. a + int k * s) [0..<nat ((b - a + s - 1) div s)]"

definition observe :: "hover_args \<Rightarrow> step_world \<Rightarrow> string \<Rightarrow> pyexc + int option \<times> string" where
  "observe a w note =
     (let or_note = (\<lambda>t. if note = [] then t else note) in
      if \<not> has_log_dir a then Inr (None, note)
      else case sw_csv w of
        None \<Rightarrow> Inr (None, or_note ''no RecordingSink CSV in --log-dir'')
      | Some (name, rows) \<Rightarrow>
          rbind (read_observed_throttle rows) (\<lambda>parsed.
          case parsed of
            None \<Rightarrow> Inr (None, or_note (''could not read throttle from '' @ name))
          | Some v \<Rightarrow> Inr (Some v, note)))"

definition ctrl_c :: "hover_out \<Rightarrow> (pyexc + int) \<times> hover_out" where
  \<comment> \<open>the safety reset\<close>
  "ctrl_c s = (Inr 130, s\<lparr> ho_requests := ho_requests s @ [0] \<rparr>)"

fun hover_loop ::
  "hover_args \<Rightarrow> (nat \<Rightarrow> step_world) \<Rightarrow> nat \<Rightarrow> int list \<Rightarrow> hover_out \<Rightarrow> (pyexc + int) \<times> hover_out" where
  "hover_loop a world idx [] s = (Inr 0, s)"
| "hover_loop a world idx (t # ts) s =
     (let w = world idx in
      if sw_interrupt w = Some Before_post then ctrl_c s
      else case post_payload t of
        Inl e \<Rightarrow> (Inl e, s)
      | Inr _ \<Rightarrow>
          (let s1 = s\<lparr> ho_requests := ho_requests s @ [t] \<rparr>; (ok, note) = post_note (sw_http w)
           in if \<not> ok \<and> startswith note ''http 401'' then (Inr 3, s1)
              else if sw_interrupt w = Some After_post then ctrl_c s1
              else (let classification = (if unattended a then ''n/a''
                          else case prompt_classification (sw_answers w) of None \<Rightarrow> ''n/a'' | Some c \<Rightarrow> c)
                in case observe a w note of
                     Inl e \<Rightarrow> (Inl e, s1)
                   | Inr (observed, note') \<Rightarrow>
                       (let s2 = s1\<lparr> ho_rows := ho_rows s1 @ [\<lparr> hr_idx = idx, hr_requested = t, hr_observed = observed,
                              hr_classification = classification, hr_note = note' \<rparr>] \<rparr>
                        in if sw_interrupt w = Some After_row then ctrl_c s2
                           else hover_loop a world (idx + 1) ts s2))))"

definition hover_main :: "hover_args \<Rightarrow> (nat \<Rightarrow> step_world) \<Rightarrow> (pyexc + int) \<times> hover_out" where
  "hover_main a world =
     (let nothing = \<lparr> ho_requests = [], ho_rows = [] \<rparr> in
      if sweep_stop a < sweep_start a then (Inr 2, nothing)
      else if step_us a \<le> 0 then (Inr 2, nothing)
      else hover_loop a world 0 (py_range (sweep_start a) (sweep_stop a + 1) (step_us a)) nothing)"

subsection \<open>What a sweep leaves\<close>

lemma py_range_bounds:
  assumes "0 < s" "x \<in> set (py_range a b s)"
  shows "a \<le> x \<and> x < b"
proof -
  obtain k where k: "x = a + int k * s" "int k < (b - a + s - 1) div s" using assms(2) by (fastforce simp: py_range_def)
  then have "int k * s \<le> ((b - a + s - 1) div s - 1) * s" using assms(1) by (intro mult_right_mono) auto
  also have "\<dots> = (b - a + s - 1) div s * s - s" by (simp add: left_diff_distrib)
  also have "(b - a + s - 1) div s * s \<le> b - a + s - 1"
    using assms(1) div_mult_mod_eq[of "b - a + s - 1" s] pos_mod_sign[of s "b - a + s - 1"] by linarith
  finally show ?thesis using k(1) assms(1) by simp
qed

lemma py_range_covers:
  assumes "0 < s" "a < b"
  shows "py_range a b s \<noteq> [] \<and> hd (py_range a b s) = a \<and> b \<le> last (py_range a b s) + s"
proof -
  let ?n = "(b - a + s - 1) div s"
  have "1 \<le> ?n" using assms by (simp add: int_one_le_iff_zero_less pos_imp_zdiv_pos_iff)
  moreover define m where "m = nat (?n - 1)"
  ultimately have m: "nat ?n = Suc m" "?n = int m + 1" by simp_all
  have "b - a \<le> ?n * s"
    using assms div_mult_mod_eq[of "b - a + s - 1" s] pos_mod_bound[of s "b - a + s - 1"] by linarith
  then have "b \<le> a + int m * s + s" unfolding m(2) by (simp add: distrib_right)
  moreover have "hd (map f [0..<Suc m]) = f 0" for f :: "nat \<Rightarrow> int" by (simp add: upt_conv_Cons del: upt_Suc)
  ultimately show ?thesis by (simp add: py_range_def m(1) del: upt_Suc) simp
qed

definition rows_match :: "nat \<Rightarrow> int list \<Rightarrow> hover_row list \<Rightarrow> bool" where
  "rows_match idx ts rows = (map hr_requested rows = ts \<and> map hr_idx rows = [idx..<idx + length ts])"

definition sweep_trace ::
  "nat \<Rightarrow> int list \<Rightarrow> hover_out \<Rightarrow> pyexc + int \<Rightarrow> hover_out \<Rightarrow> nat \<Rightarrow> hover_row list \<Rightarrow> bool" where
  \<comment> \<open>after \<open>k\<close> requests and the rows \<open>new\<close>\<close>
  "sweep_trace idx ts s r s' k new =
     (k \<le> length ts \<and> rows_match idx (take (length new) ts) new \<and> ho_rows s' = ho_rows s @ new \<and>
      length new \<le> k \<and> k \<le> length new + 1 \<and>
      ho_requests s' = ho_requests s @ take k ts @ (if r = Inr 130 then [0] else []) \<and>
      (r = Inr 0 \<longrightarrow> k = length ts \<and> length new = length ts) \<and>
      (case r of Inl _ \<Rightarrow> True | Inr c \<Rightarrow> c = 0 \<or> c = 130 \<or> (c = 3 \<and> k = length new + 1)))"

lemma hover_loop_cases:
  obtains (early) "hover_loop a world idx (t # ts) s = ctrl_c s"
  | (raises) e where "hover_loop a world idx (t # ts) s = (Inl e, s)"
  | (stop) r where "hover_loop a world idx (t # ts) s = (r, s\<lparr> ho_requests := ho_requests s @ [t] \<rparr>)"
      "r = Inr 3 \<or> (\<exists>e. r = Inl e)"
  | (ctrl) "hover_loop a world idx (t # ts) s = ctrl_c (s\<lparr> ho_requests := ho_requests s @ [t] \<rparr>)"
  | (written) row s2 where "hr_requested row = t" "hr_idx row = idx"
      "s2 = s\<lparr> ho_requests := ho_requests s @ [t], ho_rows := ho_rows s @ [row] \<rparr>"
      "hover_loop a world idx (t # ts) s = ctrl_c s2 \<or>
       hover_loop a world idx (t # ts) s = hover_loop a world (idx + 1) ts s2"
proof -
  let ?w = "world idx"
  obtain ok msg where pn: "post_note (sw_http ?w) = (ok, msg)" by fastforce
  show thesis
  proof (cases "sw_interrupt ?w = Some Before_post")
    case True
    then show thesis using early by simp
  next
    case nb: False
    show thesis
    proof (cases "post_payload t")
      case (Inl e)
      then show thesis using raises nb by simp
    next
      case (Inr d)
      show thesis
      proof (cases "(\<not> ok \<and> startswith msg ''http 401'') \<or> sw_interrupt ?w = Some After_post")
        case True
        then show thesis using stop ctrl nb Inr pn by (cases "\<not> ok \<and> startswith msg ''http 401''") simp_all
      next
        case np: False
        show thesis
        proof (cases "observe a ?w msg")
          case (Inl e)
          then show thesis using stop[of "Inl e"] nb \<open>post_payload t = Inr d\<close> pn np by (simp add: Let_def)
        next
          case (Inr on)
          let ?row = "\<lparr> hr_idx = idx, hr_requested = t, hr_observed = fst on,
            hr_classification = (if unattended a then ''n/a''
              else case prompt_classification (sw_answers ?w) of None \<Rightarrow> ''n/a'' | Some c \<Rightarrow> c), hr_note = snd on \<rparr>"
          let ?s2 = "s\<lparr> ho_requests := ho_requests s @ [t], ho_rows := ho_rows s @ [?row] \<rparr>"
          have n1: "\<not> (\<not> ok \<and> startswith msg ''http 401'')" "sw_interrupt ?w \<noteq> Some After_post" using np by blast+
          have "hover_loop a world idx (t # ts) s =
              (if sw_interrupt ?w = Some After_row then ctrl_c ?s2 else hover_loop a world (idx + 1) ts ?s2)"
            using nb n1 by (cases ok; simp add: pn Inr \<open>post_payload t = Inr d\<close> Let_def case_prod_beta)
          then show thesis by (intro written[of ?row, OF _ _ refl]) (auto split: if_splits)
        qed
      qed
    qed
  qed
qed

lemma hover_loop_trace:
  "hover_loop a world idx ts s = (r, s') \<Longrightarrow> \<exists>k new. sweep_trace idx ts s r s' k new"
proof (induction ts arbitrary: idx s)
  case Nil
  then have "sweep_trace idx [] s r s' 0 []" by (auto simp: sweep_trace_def rows_match_def)
  then show ?case by blast
next
  case (Cons t ts)
  have "sweep_trace idx (t # ts) s r s' 0 []" if "(r, s') = ctrl_c s \<or> (\<exists>e. (r, s') = (Inl e, s))"
    using that by (auto simp: sweep_trace_def rows_match_def ctrl_c_def)
  moreover have "sweep_trace idx (t # ts) s r s' 1 []"
    if "(r, s') = ctrl_c (s\<lparr> ho_requests := ho_requests s @ [t] \<rparr>) \<or>
        s' = s\<lparr> ho_requests := ho_requests s @ [t] \<rparr> \<and> (r = Inr 3 \<or> (\<exists>e. r = Inl e))"
    using that by (auto simp: sweep_trace_def rows_match_def ctrl_c_def)
  moreover have "\<exists>k new. sweep_trace idx (t # ts) s r s' k new"
    if row: "hr_requested row = t" "hr_idx row = idx"
      and s2: "s2 = s\<lparr> ho_requests := ho_requests s @ [t], ho_rows := ho_rows s @ [row] \<rparr>"
      and l: "(r, s') = ctrl_c s2 \<or> (r, s') = hover_loop a world (idx + 1) ts s2" for row s2
    using l
  proof
    assume "(r, s') = ctrl_c s2"
    then have "sweep_trace idx (t # ts) s r s' 1 [row]" using row
      by (simp add: sweep_trace_def rows_match_def ctrl_c_def s2)
    then show ?thesis by blast
  next
    assume "(r, s') = hover_loop a world (idx + 1) ts s2"
    then obtain k new where "sweep_trace (idx + 1) ts s2 r s' k new" using Cons.IH[of "idx + 1" s2] by metis
    then have "sweep_trace idx (t # ts) s r s' (Suc k) (row # new)" using row
      by (auto simp: sweep_trace_def rows_match_def s2 upt_conv_Cons simp del: upt_Suc split: sum.splits)
    then show ?thesis by blast
  qed
  ultimately show ?case using Cons.prems
    by (cases rule: hover_loop_cases[of a world idx t ts s]) (metis prod.inject)+
qed

text \<open>
  The sweep posts what its table says. The rows are the steps from the start on, in order and
  one for each request that was answered; a run that ends with 0 posted every step once and
  wrote a row for each, so the throttle left in effect is the last step's, the highest; only a
  run ended by Ctrl-C posts a final 0, and one ended by a 401 leaves the step it was refused.
  For a range inside the RC band the flight controller drives exactly the requested value.
\<close>

theorem hover_sweep_traced:
  "let steps = py_range (sweep_start a) (sweep_stop a + 1) (step_us a); (r, s) = hover_main a world in
   if sweep_stop a < sweep_start a \<or> step_us a \<le> 0 then r = Inr 2 \<and> ho_requests s = []
   else hd steps = sweep_start a \<and> sweep_stop a < last steps + step_us a \<and>
     map hr_requested (ho_rows s) = take (length (ho_rows s)) steps \<and>
     (case r of Inl _ \<Rightarrow> True | Inr c \<Rightarrow>
        (c = 0 \<and> ho_requests s = steps \<and> length (ho_rows s) = length steps) \<or>
        (c = 130 \<and> last (ho_requests s) = 0) \<or>
        (c = 3 \<and> last (ho_requests s) = steps ! length (ho_rows s))) \<and>
     (if 1000 \<le> sweep_start a \<and> sweep_stop a \<le> 2000
      then map (\<lambda>t. throttle_to_pwm (Fin (of_int t))) steps = steps else True)"
proof (cases "sweep_stop a < sweep_start a \<or> step_us a \<le> 0")
  case True
  then show ?thesis by (auto simp: hover_main_def Let_def)
next
  case False
  let ?steps = "py_range (sweep_start a) (sweep_stop a + 1) (step_us a)"
  let ?nothing = "\<lparr> ho_requests = [], ho_rows = [] \<rparr> :: hover_out"
  obtain r s where h: "hover_main a world = (r, s)" by fastforce
  then have "hover_loop a world 0 ?steps ?nothing = (r, s)" using False by (simp add: hover_main_def Let_def)
  then obtain k new where t: "sweep_trace 0 ?steps ?nothing r s k new" using hover_loop_trace by blast
  have rows: "map hr_requested (ho_rows s) = take (length (ho_rows s)) ?steps"
    using t by (auto simp: sweep_trace_def rows_match_def)
  have codes: "case r of Inl _ \<Rightarrow> True | Inr c \<Rightarrow>
      (c = 0 \<and> ho_requests s = ?steps \<and> length (ho_rows s) = length ?steps) \<or> (c = 130 \<and> last (ho_requests s) = 0) \<or>
      (c = 3 \<and> last (ho_requests s) = ?steps ! length (ho_rows s))"
    using t by (auto simp: sweep_trace_def take_Suc_conv_app_nth split: sum.splits)
  have "map (\<lambda>t. throttle_to_pwm (Fin (of_int t))) ?steps = ?steps"
    if "1000 \<le> sweep_start a" "sweep_stop a \<le> 2000"
  proof (rule map_idI)
    fix x assume "x \<in> set ?steps"
    then have "1000 \<le> x" "x \<le> 2000" using py_range_bounds[of "step_us a" x] False that by fastforce+
    then show "throttle_to_pwm (Fin (of_int x)) = x" by (rule throttle_in_band)
  qed
  moreover have "hd ?steps = sweep_start a \<and> sweep_stop a < last ?steps + step_us a"
    using py_range_covers[of "step_us a" "sweep_start a" "sweep_stop a + 1"] False by simp
  ultimately show ?thesis using False h rows codes by (simp add: Let_def)
qed

text \<open>A short last row of the recorded table, half of a line being written, ends the run.\<close>

lemma short_row_raises:
  "read_observed_throttle (Some [(\<lambda>c. if c = ''throttle'' then Some None else Some (Some ''1''))]) = Inl TypeError"
  by (simp add: read_observed_throttle_def)

end
