(* ===== verification/Dev_Tools.thy ===== *)
theory Dev_Tools
  imports Tool_Args Vis_Replay Smoke_Test Hover_Cal Rc_Listener Senders
begin

section \<open>The tools as commands\<close>

text \<open>
  The \<open>main\<close> functions of \<open>vision_replay.py\<close>, \<open>send_cmd.py\<close>, \<open>listen_tel.py\<close> and \<open>push_frame.py\<close>
  over the parsed options, and the options of the other tools as the records their theories use.
  Sockets, files and the HTTP client are arguments, as before; a result is the exit status.
\<close>

subsection \<open>Options\<close>

definition smoke_args_of :: "parsed \<Rightarrow> smoke_args option" where
  "smoke_args_of m =
     (case (arg_int m ''--cmd-mode'', arg_float m ''--cmd-hz'', arg_float m ''--cmd-burst-seconds'',
        arg_float m ''--apply-timeout-seconds'', arg_float m ''--fallback-timeout-seconds'') of
        (Some a, Some b, Some c, Some d, Some e) \<Rightarrow>
          Some \<lparr> cmd_mode = a, cmd_hz = b, cmd_burst_seconds = c, apply_timeout_seconds = d,
            fallback_timeout_seconds = e \<rparr>
      | _ \<Rightarrow> None)"

definition rc_args_of :: "parsed \<Rightarrow> rc_args option" where
  "rc_args_of m =
     (case (arg_float m ''--duration-s'', arg_float m ''--expect-hz'', arg_float m ''--hz-tolerance'',
        arg_int m ''--min-frames'', arg_int m ''--max-seq-gap'') of
        (Some a, Some b, Some c, Some d, Some e) \<Rightarrow>
          Some \<lparr> duration_s = a, expect_hz = b, hz_tolerance = c, min_frames = d, max_seq_gap = e,
            strict = arg_flag m ''--strict'' \<rparr>
      | _ \<Rightarrow> None)"

definition hover_args_of :: "parsed \<Rightarrow> hover_args option" where
  "hover_args_of m =
     (case (arg_int m ''--start'', arg_int m ''--stop'', arg_int m ''--step-us'') of
        (Some a, Some b, Some c) \<Rightarrow>
          Some \<lparr> sweep_start = a, sweep_stop = b, step_us = c, unattended = arg_flag m ''--unattended'',
            has_log_dir = (arg_text m ''--log-dir'' \<noteq> None) \<rparr>
      | _ \<Rightarrow> None)"

definition intent_url :: "string \<Rightarrow> string" where
  "intent_url backend_url = rstrip_slash backend_url @ ''/api/intent''"

subsection \<open>The vision replay\<close>

record replay_world =
  rw_monotonic :: pyfloat              \<comment> \<open>the clock when the first number is chosen\<close>
  rw_file :: "string list option"      \<comment> \<open>the lines of the file, if it can be read\<close>
  rw_steps :: "(pyfloat \<times> pyfloat \<times> pyfloat) list"

definition first_seq :: "int option \<Rightarrow> pyfloat \<Rightarrow> pyexc + int" where
  \<comment> \<open>\<open>int(time.monotonic() * 1000.0)\<close> unless a number is given\<close>
  "first_seq given monotonic = (case given of Some n \<Rightarrow> Inr n | None \<Rightarrow> py_int (PFloat (fmul monotonic (Fin 1000))))"

definition replay_main ::
  "(real \<Rightarrow> string) \<Rightarrow> (pyfloat \<Rightarrow> pyfloat) \<Rightarrow> (string \<Rightarrow> pyexc + pyval) \<Rightarrow> replay_world \<Rightarrow> pyfloat \<Rightarrow> int \<Rightarrow> string
   \<Rightarrow> parsed \<Rightarrow> (pyexc + int) \<times> nat list list" where
  \<comment> \<open>the rate, the size limit and the pattern, which have defaults, and the other options; the status and the wire\<close>
  "replay_main fr msin parse w hz max_bytes pattern m =
     (case rbind (replay_args_ok hz (arg_int m ''--count'') (arg_float m ''--duration-s'') max_bytes) (\<lambda>_.
           rbind (resolve_total_count (arg_int m ''--count'') (arg_float m ''--duration-s'') hz) (\<lambda>total_n.
           rbind (first_seq (arg_int m ''--start-seq'') (rw_monotonic w)) (\<lambda>start_seq. Inr (total_n, start_seq)))) of
        Inl e \<Rightarrow> (Inl e, [])
      | Inr (total_n, start_seq) \<Rightarrow>
          (let wire0 = (if arg_flag m ''--send-oversize-once'' then [replicate (nat (max_bytes + 1)) 120] else [])
           in case arg_text m ''--jsonl'' of
                Some _ \<Rightarrow>
                  (case rw_file w of
                     None \<Rightarrow> (Inl OSError, wire0)
                   | Some [] \<Rightarrow> (Inr 0, wire0)
                   | Some lines \<Rightarrow>
                       (case fdiv_exc (Fin 1) hz of
                          Inl e \<Rightarrow> (Inl e, wire0)
                        | Inr _ \<Rightarrow> (case replay_jsonl fr parse max_bytes total_n 0 lines wire0 of
                            (r, wire) \<Rightarrow> (rbind r (\<lambda>_. Inr 0), wire))))
              | None \<Rightarrow>
                  (case fdiv_exc (Fin 1) hz of
                     Inl e \<Rightarrow> (Inl e, wire0)
                   | Inr _ \<Rightarrow> (case send_pattern fr msin pattern max_bytes total_n start_seq 0 (take (nat total_n) (rw_steps w)) wire0 of
                       (r, wire) \<Rightarrow> (rbind r (\<lambda>_. Inr 0), wire)))))"

subsection \<open>The command sender\<close>

record send_world =
  sw_monotonic :: pyfloat
  sw_connects :: bool
  sw_deadline_clk :: pyfloat
  sw_ticks :: "(pyfloat \<times> pyfloat) list"
  sw_breaks :: bool                    \<comment> \<open>the socket raises on the frame after those\<close>

definition send_cmd_main ::
  "(real \<Rightarrow> string) \<Rightarrow> send_world \<Rightarrow> int \<Rightarrow> int option \<Rightarrow> pyfloat \<Rightarrow> pyfloat \<Rightarrow> (pyexc + int) \<times> nat list list" where
  "send_cmd_main fr w desired_mode0 seq0 repeat_hz burst_seconds =
     (case first_seq seq0 (sw_monotonic w) of
        Inl e \<Rightarrow> (Inl e, [])
      | Inr seq \<Rightarrow>
          if \<not> sw_connects w then (Inr 1, [])
          else if flt (Fin 0) repeat_hz
          then (case fdiv_exc (Fin 1) repeat_hz of
              Inl e \<Rightarrow> (Inl e, [])
            | Inr _ \<Rightarrow>
                (let deadline = fadd (sw_deadline_clk w) (fmax (Fin 0) burst_seconds) in
                 case send_burst fr desired_mode0 seq deadline (sw_ticks w) [] of
                   (Inl e, wire) \<Rightarrow> (Inl e, wire)
                 | (Inr _, wire) \<Rightarrow> (Inr (if sw_breaks w \<and> list_all (\<lambda>(t, _). flt t deadline) (sw_ticks w) then 1 else 0), wire)))
          else (case build_frame fr seq (sw_deadline_clk w) desired_mode0 of
              Inl e \<Rightarrow> (Inl e, [])
            | Inr f \<Rightarrow> if sw_breaks w then (Inr 1, []) else (Inr 0, [f])))"

subsection \<open>The telemetry listener and the frame pusher\<close>

definition listen_tel_main ::
  "(nat list \<Rightarrow> pyval option) \<Rightarrow> pyfloat \<Rightarrow> (pyfloat \<times> nat list) list \<Rightarrow> (pyexc + int) \<times> tel_line list" where
  \<comment> \<open>Ctrl-C after the datagrams of the list\<close>
  "listen_tel_main loads max_print_hz ds =
     (case print_period max_print_hz of
        Inl e \<Rightarrow> (Inl e, [])
      | Inr period \<Rightarrow> (case listen_tel loads period ds (Fin 0) [] of (r, ls) \<Rightarrow> (rbind r (\<lambda>_. Inr 0), ls)))"

datatype push_answer = Answered int | Refused int | Unreachable

definition push_frame_main :: "bool \<Rightarrow> push_answer \<Rightarrow> int" where
  \<comment> \<open>whether the path is a file, and what \<open>urlopen\<close> gives: an answer, an \<open>HTTPError\<close>, another exception\<close>
  "push_frame_main is_file answer =
     (if \<not> is_file then 2
      else case answer of Answered status \<Rightarrow> if status = 200 then 0 else 1 | Refused _ \<Rightarrow> 1 | Unreachable \<Rightarrow> 1)"

subsection \<open>A replay is accepted\<close>

definition accepted_payload :: "(real \<Rightarrow> string) \<Rightarrow> int \<Rightarrow> int \<Rightarrow> nat list \<Rightarrow> bool" where
  \<comment> \<open>specification: a message the backend takes unchanged, with this number, within the size\<close>
  "accepted_payload fr max_bytes q payload = (\<exists>msg. payload = json_bytes fr msg \<and> int (length payload) \<le> max_bytes \<and>
     dget msg ''seq'' = Some (PInt q) \<and> validate_vis_message (PDict msg) = Inr msg)"

definition draws_ok :: "(pyfloat \<times> pyfloat \<times> pyfloat) list \<Rightarrow> bool" where
  \<comment> \<open>\<open>random()\<close> gives numbers of the unit interval\<close>
  "draws_ok steps = list_all (\<lambda>(_, u1, u2). between (Fin 0) (Fin 1) u1 \<and> between (Fin 0) (Fin 1) u2) steps"

lemma send_pattern_accepted:
  assumes "unit_sine msin" "pattern \<in> set [''sweep'', ''lose'', ''reacquire'']" "total_n < 2 ^ 53"
  shows "0 \<le> index \<Longrightarrow> index + int (length steps) \<le> total_n \<Longrightarrow> draws_ok steps \<Longrightarrow>
    send_pattern fr msin pattern max_bytes total_n start index steps wire = (Inr (), wire') \<Longrightarrow>
    \<exists>ps. wire' = wire @ ps \<and> length ps = length steps \<and>
      list_all2 (accepted_payload fr max_bytes) (map (\<lambda>i. start + index + int i) [0..<length steps]) ps"
proof (induction steps arbitrary: index wire)
  case (Cons s steps)
  obtain t u1 u2 where s: "s = (t, u1, u2)" by (cases s)
  have u: "between (Fin 0) (Fin 1) u1" "between (Fin 0) (Fin 1) u2" "draws_ok steps"
    using Cons.prems(3) by (simp_all add: draws_ok_def s)
  have lt: "index < total_n" using Cons.prems(2) by simp
  obtain msg where msg: "build_pattern_msg msin pattern index total_n (start + index) t (u1, u2) = Inr msg"
    "dget msg ''seq'' = Some (PInt (start + index))" "validate_vis_message (PDict msg) = Inr msg"
    using replay_accepted[OF assms(1,2) Cons.prems(1) lt assms(3) u(1,2)] by blast
  then obtain p where p: "encode_payload fr (PDict msg) max_bytes = Inr p"
    "send_pattern fr msin pattern max_bytes total_n start (index + 1) steps (wire @ [p]) = (Inr (), wire')"
    using Cons.prems(4) by (auto simp: s split: sum.splits)
  have a: "accepted_payload fr max_bytes (start + index) p"
    using p(1) msg by (auto simp: accepted_payload_def encode_payload_def json_bytes_def Let_def split: if_splits)
  have "0 \<le> index + 1" "index + 1 + int (length steps) \<le> total_n" using Cons.prems(1,2) by simp_all
  from Cons.IH[OF this u(3) p(2)] obtain ps where ps: "wire' = (wire @ [p]) @ ps" "length ps = length steps"
    "list_all2 (accepted_payload fr max_bytes) (map (\<lambda>i. start + (index + 1) + int i) [0..<length steps]) ps" by blast
  have "map (\<lambda>i. start + index + int i) [0..<length (s # steps)] =
      (start + index) # map (\<lambda>i. start + (index + 1) + int i) [0..<length steps]"
    by (simp add: upt_conv_Cons map_Suc_upt[symmetric] del: upt_Suc)
  then have "list_all2 (accepted_payload fr max_bytes) (map (\<lambda>i. start + index + int i) [0..<length (s # steps)]) (p # ps)"
    using a ps(3) by simp
  then show ?case using ps(1,2) by (intro exI[of _ "p # ps"]) simp
qed simp

text \<open>
  A replay is accepted to the last message. When the tool exits 0 on a synthetic pattern, what
  it sent, after the oversize datagram if that was asked for, is one datagram for each step,
  numbered without gap from the first number; each is within the size limit and is a message
  that the backend's validator accepts unchanged.
\<close>

theorem replay_run_accepted:
  assumes "unit_sine msin" "pattern \<in> set [''sweep'', ''lose'', ''reacquire'']" "draws_ok (rw_steps w)"
    and "arg_text m ''--jsonl'' = None"
    and "resolve_total_count (arg_int m ''--count'') (arg_float m ''--duration-s'') hz = Inr total_n" "total_n < 2 ^ 53"
    and "replay_main fr msin parse w hz max_bytes pattern m = (Inr 0, wire)"
  shows "\<exists>start ps. first_seq (arg_int m ''--start-seq'') (rw_monotonic w) = Inr start \<and>
    wire = (if arg_flag m ''--send-oversize-once'' then [replicate (nat (max_bytes + 1)) 120] else []) @ ps \<and>
    list_all2 (accepted_payload fr max_bytes)
      (map (\<lambda>i. start + int i) [0..<min (nat total_n) (length (rw_steps w))]) ps"
proof -
  let ?wire0 = "if arg_flag m ''--send-oversize-once'' then [replicate (nat (max_bytes + 1)) 120] else []"
  obtain start where start: "first_seq (arg_int m ''--start-seq'') (rw_monotonic w) = Inr start"
    and ok: "replay_args_ok hz (arg_int m ''--count'') (arg_float m ''--duration-s'') max_bytes = Inr ()"
    using assms(5,7) by (auto simp: replay_main_def rbind_Inr_iff rbind_def[of "replay_args_ok hz _ _ _"] split: sum.splits)
  have pos: "0 \<le> total_n" using assms(5) ok
    by (auto simp: resolve_total_count_def replay_args_ok_def guard_raise_def rbind_Inr_iff split: option.splits if_splits)
  let ?steps = "take (nat total_n) (rw_steps w)"
  have "send_pattern fr msin pattern max_bytes total_n start 0 ?steps ?wire0 = (Inr (), wire)"
    using assms(4,5,7) start ok
    by (auto simp: replay_main_def Let_def rbind_Inr_iff split: sum.splits prod.splits)
  moreover have "draws_ok ?steps" using assms(3) by (auto simp: draws_ok_def list_all_iff dest!: in_set_takeD)
  moreover have "0 + int (length ?steps) \<le> total_n" using pos by simp
  ultimately show ?thesis
    using send_pattern_accepted[OF assms(1,2,6), of 0 ?steps fr max_bytes start ?wire0 wire] start
    by (auto simp: min.commute)
qed

theorem replay_run_accepted_witness:
  "\<exists>start ps. replay_main (\<lambda>_. ''0.5'') (\<lambda>_. Fin 0) (\<lambda>_. Inr PNone)
      \<lparr> rw_monotonic = Fin 1, rw_file = None, rw_steps = [(Fin 1, Fin 0, Fin 0)] \<rparr>
      (Fin 20) 512 ''reacquire'' [''--count'' \<mapsto> VInt 1, ''--start-seq'' \<mapsto> VInt 5] = (Inr 0, ps) \<and>
    list_all2 (accepted_payload (\<lambda>_. ''0.5'') 512) [start] ps"
proof -
  let ?w = "\<lparr> rw_monotonic = Fin 1, rw_file = None, rw_steps = [(Fin 1, Fin 0, Fin 0)] \<rparr>"
  let ?m = "[''--count'' \<mapsto> VInt 1, ''--start-seq'' \<mapsto> VInt 5]" and ?fr = "\<lambda>_. ''0.5''"
  let ?r = "replay_main ?fr (\<lambda>_. Fin 0) (\<lambda>_. Inr PNone) ?w (Fin 20) 512 ''reacquire'' ?m"
  obtain x where x: "f64 (33 / 100) = Fin x" "1 / 4 \<le> x"
    using f64_between[of "1 / 4" "33 / 100" 1] rnd_fraction[of 1 2] by auto
  have msg: "build_pattern_msg (\<lambda>_. Fin 0) ''reacquire'' 0 1 5 (Fin 1) (Fin 0, Fin 0) = Inr (zero_vis 5 (Fin 1) 1)"
    using x by (simp add: build_pattern_msg_def int_truediv_def)
  have "int (length (utf8_ascii (dumps ?fr (PDict (zero_vis 5 (Fin 1) 1))))) \<le> 512"
    by (simp add: zero_vis_def quote_def escape_char_def dec_int_def dec_nat.simps digit_char_def utf8_ascii_def)
  then have enc: "\<exists>p. encode_payload ?fr (PDict (zero_vis 5 (Fin 1) 1)) 512 = Inr p"
    by (simp add: encode_payload_def Let_def)
  obtain d where "fdiv_exc (Fin 1) (Fin 20) = Inr d" by (simp add: fdiv_exc_def)
  moreover have "replay_args_ok (Fin 20) (Some 1) None 512 = Inr ()" by (simp add: replay_args_ok_def)
  ultimately obtain ps where r: "?r = (Inr 0, ps)" using msg enc
    by (auto simp: replay_main_def arg_int_def arg_float_def arg_text_def arg_flag_def resolve_total_count_def first_seq_def)
  have "unit_sine (\<lambda>_. Fin 0)" "draws_ok (rw_steps ?w)" "arg_text ?m ''--jsonl'' = None"
    "resolve_total_count (arg_int ?m ''--count'') (arg_float ?m ''--duration-s'') (Fin 20) = Inr 1"
    "\<not> arg_flag ?m ''--send-oversize-once''"
    by (simp_all add: unit_sine_def between_def draws_ok_def arg_text_def resolve_total_count_def arg_int_def arg_flag_def)
  with replay_run_accepted[OF this(1) _ this(2,3,4) _ r] r show ?thesis by auto
qed

end
