(* ===== verification/Flight_Control.thy ===== *)
theory Flight_Control
  imports Rc_Math
begin

section \<open>The flight controller's state machine\<close>

text \<open>
  \<open>src/src/fc/header/FlightController.h\<close> and \<open>src/src/fc/implementation/FlightController.cpp\<close>:
  the class that turns the commanded mode and the last tracking message into radio channel
  values, one step per control tick. \<open>fc_state\<close> is its members; each method is one
  definition under the method's name. The members that no method writes (the takeoff profile,
  the search rate) are constants. \<open>BetaFlightCommand\<close>, \<open>TrackingMessage\<close>, \<open>TrackingConfig\<close>,
  \<open>UserParams\<close> and \<open>TelemetryData\<close> are records with the source's fields, prefixed.
\<close>

subsection \<open>Data\<close>

datatype control_mode = CM_Manual | CM_Tracking | CM_LandSafely | CM_Takeoff

datatype tracking_state = TS_NoTarget | TS_TargetDetected | TS_Tracking | TS_Searching

record bf_command =
  bf_roll :: int
  bf_pitch :: int
  bf_yaw :: int
  bf_throttle :: int
  bf_aux1 :: int
  bf_aux2 :: int
  bf_aux3 :: int
  bf_aux4 :: int

record user_params =
  up_followDistance_m :: pyfloat
  up_followAngle_deg :: pyfloat
  up_maxSpeed_mps :: pyfloat
  up_maxAltitude_m :: pyfloat

record tracking_message =
  tm_state :: tracking_state
  tm_target_x :: pyfloat
  tm_target_y :: pyfloat
  tm_bound_w :: pyfloat
  tm_bound_h :: pyfloat
  tm_confidence :: pyfloat
  tm_timestamp_s :: pyfloat

record tracking_config =
  tc_trackingTimeout_s :: pyfloat
  tc_minConfidence :: pyfloat
  tc_desiredTargetX :: pyfloat
  tc_desiredTargetY :: pyfloat
  tc_desiredBoxHeight :: pyfloat
  tc_kYawPerUnitError :: pyfloat
  tc_kSpeedPerUnitError :: pyfloat
  tc_minBoxHeight :: pyfloat
  tc_maxBoxHeight :: pyfloat
  tc_kAltPerUnitError :: pyfloat
  tc_boxDeadband :: pyfloat
  tc_xDeadband :: pyfloat
  tc_yDeadband :: pyfloat

record telemetry_data =
  td_timestamp_s :: pyfloat
  td_control_mode :: control_mode
  td_tracking_state :: tracking_state
  td_distFront_m :: pyfloat
  td_distBack_m :: pyfloat
  td_distBottom_m :: pyfloat
  td_confidence :: pyfloat
  td_orientation_deg :: "pyfloat \<times> pyfloat \<times> pyfloat"
  td_position_m :: "pyfloat \<times> pyfloat \<times> pyfloat"
  td_last_tracking_msg :: tracking_message

record fc_state =
  userParams :: user_params
  telemetryData :: telemetry_data
  controlMode :: control_mode
  lastTrackingMsg :: tracking_message
  lastTrackingUpdateTime_s :: pyfloat
  currentCommand :: bf_command
  trackingConfig :: tracking_config
  landSafelyInitialized :: bool
  landTimer_s :: pyfloat
  landStartThrottle :: int
  takeoffInitialized :: bool
  takeoffTimer_s :: pyfloat
  hoverThrottle :: int

definition kAltHoldMaxThrottle :: int where "kAltHoldMaxThrottle = 1800"
definition kDisarmTimeS :: pyfloat where "kDisarmTimeS = Fin 5"
definition kLandRampRateUsPerS :: pyfloat where "kLandRampRateUsPerS = Fin 50"
definition kMinLandThrottle :: int where "kMinLandThrottle = DRONE_MIN + 30"
definition kMaxControlDtS :: pyfloat where "kMaxControlDtS = f64 (1 / 5)"
definition kPitchRangeUs :: pyfloat where "kPitchRangeUs = Fin 300"
definition kYawRangeUs :: pyfloat where "kYawRangeUs = Fin 300"

definition searchYawRate_dps :: pyfloat where "searchYawRate_dps = Fin 60"
definition takeoffSpoolTime_s :: pyfloat where "takeoffSpoolTime_s = f64 (4 / 5)"
definition takeoffRampTime_s :: pyfloat where "takeoffRampTime_s = f64 (8 / 5)"
definition takeoffHoldTime_s :: pyfloat where "takeoffHoldTime_s = Fin 1"
definition takeoffSpoolThrottle :: int where "takeoffSpoolThrottle = DRONE_MIN + 20"
definition takeoffTargetThrottle :: int where "takeoffTargetThrottle = 1250"

lemmas fc_consts = rc_consts kAltHoldMaxThrottle_def kDisarmTimeS_def kLandRampRateUsPerS_def
  kMinLandThrottle_def kPitchRangeUs_def kYawRangeUs_def searchYawRate_dps_def takeoffHoldTime_s_def
  takeoffSpoolThrottle_def takeoffTargetThrottle_def

definition new_bf_command :: bf_command where
  "new_bf_command = \<lparr> bf_roll = DRONE_MID, bf_pitch = DRONE_MID, bf_yaw = DRONE_MID,
     bf_throttle = DRONE_MIN, bf_aux1 = DRONE_AUX_MIN, bf_aux2 = DRONE_AUX_MAX,
     bf_aux3 = DRONE_AUX_MIN, bf_aux4 = DRONE_AUX_MIN \<rparr>"

definition new_user_params :: user_params where
  "new_user_params = \<lparr> up_followDistance_m = Fin 2, up_followAngle_deg = Fin 0,
     up_maxSpeed_mps = Fin 1, up_maxAltitude_m = Fin 10 \<rparr>"

definition new_tracking_message :: tracking_message where
  "new_tracking_message = \<lparr> tm_state = TS_Searching, tm_target_x = Fin 0, tm_target_y = Fin 0,
     tm_bound_w = Fin 0, tm_bound_h = Fin 0, tm_confidence = Fin 0, tm_timestamp_s = Fin 0 \<rparr>"

definition new_tracking_config :: tracking_config where
  "new_tracking_config = \<lparr> tc_trackingTimeout_s = f64 (4 / 5), tc_minConfidence = Fin (1 / 2),
     tc_desiredTargetX = Fin 0, tc_desiredTargetY = Fin 0, tc_desiredBoxHeight = Fin (1 / 4),
     tc_kYawPerUnitError = Fin 200, tc_kSpeedPerUnitError = Fin 1,
     tc_minBoxHeight = f64 (1 / 10), tc_maxBoxHeight = f64 (45 / 100),
     tc_kAltPerUnitError = Fin (1 / 2), tc_boxDeadband = f64 (2 / 100),
     tc_xDeadband = f64 (2 / 100), tc_yDeadband = f64 (2 / 100) \<rparr>"

definition new_telemetry_data :: telemetry_data where
  "new_telemetry_data = \<lparr> td_timestamp_s = Fin 0, td_control_mode = CM_LandSafely,
     td_tracking_state = TS_Searching, td_distFront_m = Fin 0, td_distBack_m = Fin 0,
     td_distBottom_m = Fin 0, td_confidence = Fin 0, td_orientation_deg = (Fin 0, Fin 0, Fin 0),
     td_position_m = (Fin 0, Fin 0, Fin 0), td_last_tracking_msg = new_tracking_message \<rparr>"

subsection \<open>Channel setters\<close>

definition is_armed :: "bf_command \<Rightarrow> bool" where
  "is_armed cmd = ((DRONE_AUX_MIN + DRONE_AUX_MAX) div 2 < bf_aux1 cmd)"

definition on_command :: "(bf_command \<Rightarrow> bf_command) \<Rightarrow> fc_state \<Rightarrow> fc_state" where
  "on_command f s = s\<lparr> currentCommand := f (currentCommand s) \<rparr>"

definition on_telemetry :: "(telemetry_data \<Rightarrow> telemetry_data) \<Rightarrow> fc_state \<Rightarrow> fc_state" where
  "on_telemetry f s = s\<lparr> telemetryData := f (telemetryData s) \<rparr>"

definition u16_clamp :: "int \<Rightarrow> int \<Rightarrow> int \<Rightarrow> int" where
  \<comment> \<open>\<open>std::clamp\<close> on channel values\<close>
  "u16_clamp v lo hi = (if v < lo then lo else if hi < v then hi else v)"

definition clamp_channels :: "bf_command \<Rightarrow> bf_command" where
  "clamp_channels c = \<lparr>
     bf_roll = u16_clamp (bf_roll c) DRONE_MIN DRONE_MAX,
     bf_pitch = u16_clamp (bf_pitch c) DRONE_MIN DRONE_MAX,
     bf_yaw = u16_clamp (bf_yaw c) DRONE_MIN DRONE_MAX,
     bf_throttle = u16_clamp (bf_throttle c) DRONE_MIN DRONE_MAX,
     bf_aux1 = u16_clamp (bf_aux1 c) DRONE_AUX_MIN DRONE_AUX_MAX,
     bf_aux2 = u16_clamp (bf_aux2 c) DRONE_AUX_MIN DRONE_AUX_MAX,
     bf_aux3 = u16_clamp (bf_aux3 c) DRONE_AUX_MIN DRONE_AUX_MAX,
     bf_aux4 = u16_clamp (bf_aux4 c) DRONE_AUX_MIN DRONE_AUX_MAX \<rparr>"

definition clampCommandChannels :: "fc_state \<Rightarrow> fc_state" where
  "clampCommandChannels = on_command clamp_channels"

definition setArm :: "bool \<Rightarrow> fc_state \<Rightarrow> fc_state" where
  "setArm b = on_command (\<lambda>c. c\<lparr> bf_aux1 := (if b then DRONE_AUX_MAX else DRONE_AUX_MIN) \<rparr>)"

definition setAngleMode :: "bool \<Rightarrow> fc_state \<Rightarrow> fc_state" where
  "setAngleMode b = on_command (\<lambda>c. c\<lparr> bf_aux2 := (if b then DRONE_AUX_MAX else DRONE_AUX_MIN) \<rparr>)"

definition setAltHold :: "bool \<Rightarrow> fc_state \<Rightarrow> fc_state" where
  "setAltHold b = on_command (\<lambda>c. c\<lparr> bf_aux3 := (if b then DRONE_AUX_MAX else DRONE_AUX_MIN) \<rparr>)"

definition set_throttle :: "int \<Rightarrow> fc_state \<Rightarrow> fc_state" where
  "set_throttle t = on_command (\<lambda>c. c\<lparr> bf_throttle := t \<rparr>)"

definition centre_sticks :: "fc_state \<Rightarrow> fc_state" where
  \<comment> \<open>the three assignments of \<open>DRONE_MID\<close> that five of the methods share\<close>
  "centre_sticks = on_command (\<lambda>c. c\<lparr> bf_roll := DRONE_MID, bf_pitch := DRONE_MID, bf_yaw := DRONE_MID \<rparr>)"

definition pwm_of :: "pyfloat \<Rightarrow> int" where
  \<comment> \<open>\<open>static_cast<uint16_t>(std::clamp(x, DRONE_MIN, DRONE_MAX))\<close>\<close>
  "pwm_of x = u16_of (fclamp x (fc_int DRONE_MIN) (fc_int DRONE_MAX))"

definition commandForward :: "pyfloat \<Rightarrow> fc_state \<Rightarrow> fc_state" where
  "commandForward speedMps s =
     (let maxSpeed = up_maxSpeed_mps (userParams s) in
      if fle maxSpeed (Fin 0) \<or> \<not> isfinite speedMps
      then on_command (\<lambda>c. c\<lparr> bf_pitch := DRONE_MID \<rparr>) s
      else let limitedSpeed = fclamp speedMps (fneg maxSpeed) maxSpeed;
               normalized = fdiv_nz limitedSpeed maxSpeed;
               pitchCmd = fadd (fc_int DRONE_MID) (fmul normalized kPitchRangeUs)
           in on_command (\<lambda>c. c\<lparr> bf_pitch := pwm_of pitchCmd \<rparr>) s)"

definition commandYawRate :: "pyfloat \<Rightarrow> fc_state \<Rightarrow> fc_state" where
  "commandYawRate yawRateDps s =
     (if \<not> isfinite yawRateDps then on_command (\<lambda>c. c\<lparr> bf_yaw := DRONE_MID \<rparr>) s
      else let limitedYawRate = fclamp yawRateDps (fneg kMaxYawRateDps) kMaxYawRateDps;
               normalized = fdiv_nz limitedYawRate kMaxYawRateDps;
               yawCmd = fadd (fc_int DRONE_MID) (fmul normalized kYawRangeUs)
           in on_command (\<lambda>c. c\<lparr> bf_yaw := pwm_of yawCmd \<rparr>) s)"

definition commandAltHoldDelta :: "pyfloat \<Rightarrow> fc_state \<Rightarrow> fc_state" where
  "commandAltHoldDelta deltaNorm s =
     (if hoverThrottle s = 0 then s
      else let d = fclamp (if isfinite deltaNorm then deltaNorm else Fin 0) (Fin (- 1)) (Fin 1);
               hover = fc_int (hoverThrottle s);
               cmd = (if flt d (Fin 0)
                      then fadd hover (fmul d (fmax (Fin 0) (fsub hover (fc_int DRONE_MIN))))
                      else fadd hover (fmul d (fmax (Fin 0) (fsub (fc_int kAltHoldMaxThrottle) hover))))
           in set_throttle (pwm_of cmd) s)"

subsection \<open>Construction and the methods the main loop calls\<close>

definition new_fc_state :: fc_state where
  "new_fc_state = clampCommandChannels \<lparr> userParams = new_user_params, telemetryData = new_telemetry_data,
     controlMode = CM_LandSafely, lastTrackingMsg = new_tracking_message,
     lastTrackingUpdateTime_s = Fin (- 1), currentCommand = new_bf_command,
     trackingConfig = new_tracking_config, landSafelyInitialized = False, landTimer_s = Fin 0,
     landStartThrottle = DRONE_MIN, takeoffInitialized = False, takeoffTimer_s = Fin 0,
     hoverThrottle = 0 \<rparr>"

definition setControlMode :: "control_mode \<Rightarrow> fc_state \<Rightarrow> fc_state" where
  "setControlMode mode s =
     (if mode = controlMode s then on_telemetry (\<lambda>t. t\<lparr> td_control_mode := mode \<rparr>) s
      else let s1 = on_telemetry (\<lambda>t. t\<lparr> td_control_mode := mode \<rparr>) (s\<lparr> controlMode := mode \<rparr>);
               s2 = (if mode = CM_Manual
                     then setAltHold False (set_throttle
                            (if is_armed (currentCommand s1) then hoverThrottle s1 else DRONE_MIN)
                            (centre_sticks s1))
                     else s1)
           in s2\<lparr> landSafelyInitialized := False, landTimer_s := Fin 0,
                 takeoffInitialized := False, takeoffTimer_s := Fin 0 \<rparr>)"

definition setHoverThrottle :: "int \<Rightarrow> fc_state \<Rightarrow> fc_state" where
  "setHoverThrottle h s =
     s\<lparr> hoverThrottle := (if h = 0 then 0 else u16_clamp h DRONE_MIN kAltHoldMaxThrottle) \<rparr>"

definition setUserParams :: "user_params \<Rightarrow> fc_state \<Rightarrow> fc_state" where
  "setUserParams p s = s\<lparr> userParams := p \<rparr>"

definition setTrackingConfig :: "tracking_config \<Rightarrow> fc_state \<Rightarrow> fc_state" where
  "setTrackingConfig c s = s\<lparr> trackingConfig := c \<rparr>"

definition clamp_message :: "tracking_message \<Rightarrow> tracking_message" where
  "clamp_message msg = \<lparr> tm_state = tm_state msg,
     tm_target_x = clamp_target_coord (tm_target_x msg),
     tm_target_y = clamp_target_coord (tm_target_y msg),
     tm_bound_w = clamp_unit (tm_bound_w msg),
     tm_bound_h = clamp_unit (tm_bound_h msg),
     tm_confidence = clamp_unit (tm_confidence msg),
     tm_timestamp_s = tm_timestamp_s msg \<rparr>"

definition updateTracking :: "tracking_message \<Rightarrow> fc_state \<Rightarrow> fc_state" where
  "updateTracking msg s =
     (let m = clamp_message msg;
          s1 = on_telemetry (\<lambda>t. t\<lparr> td_last_tracking_msg := m \<rparr>) (s\<lparr> lastTrackingMsg := m \<rparr>)
      in s1\<lparr> lastTrackingUpdateTime_s := td_timestamp_s (telemetryData s1) \<rparr>)"

definition finite_or_0 :: "pyfloat \<Rightarrow> pyfloat" where
  "finite_or_0 x = (if isfinite x then x else Fin 0)"

definition setDistances :: "pyfloat \<Rightarrow> pyfloat \<Rightarrow> pyfloat \<Rightarrow> fc_state \<Rightarrow> fc_state" where
  "setDistances front_m back_m bottom_m = on_telemetry (\<lambda>t. t\<lparr> td_distFront_m := finite_or_0 front_m,
     td_distBack_m := finite_or_0 back_m, td_distBottom_m := finite_or_0 bottom_m \<rparr>)"

definition setOrientationDeg :: "pyfloat \<Rightarrow> pyfloat \<Rightarrow> pyfloat \<Rightarrow> fc_state \<Rightarrow> fc_state" where
  "setOrientationDeg roll_deg pitch_deg yaw_deg = on_telemetry (\<lambda>t. t\<lparr> td_orientation_deg :=
     (finite_or_0 roll_deg, finite_or_0 pitch_deg, finite_or_0 yaw_deg) \<rparr>)"

definition setAltitudeMeters :: "pyfloat \<Rightarrow> fc_state \<Rightarrow> fc_state" where
  "setAltitudeMeters altitude_m = on_telemetry (\<lambda>t. t\<lparr> td_position_m :=
     (fst (td_position_m t), fst (snd (td_position_m t)), finite_or_0 altitude_m) \<rparr>)"

definition setManualSetpoints :: "bf_command \<Rightarrow> fc_state \<Rightarrow> fc_state" where
  "setManualSetpoints cmd s = clampCommandChannels (s\<lparr> currentCommand := cmd \<rparr>)"

subsection \<open>The modes\<close>

definition tracking_stale :: "fc_state \<Rightarrow> bool" where
  \<comment> \<open>the test \<open>isTargetValid\<close>, \<open>runTrackingMode\<close> and \<open>runFollowTargetLogic\<close> repeat\<close>
  "tracking_stale s = (flt (lastTrackingUpdateTime_s s) (Fin 0) \<or>
     flt (tc_trackingTimeout_s (trackingConfig s))
       (fsub (td_timestamp_s (telemetryData s)) (lastTrackingUpdateTime_s s)))"

definition low_confidence :: "fc_state \<Rightarrow> bool" where
  "low_confidence s = flt (tm_confidence (lastTrackingMsg s)) (tc_minConfidence (trackingConfig s))"

definition isTargetValid :: "fc_state \<Rightarrow> bool" where
  "isTargetValid s =
     (\<not> (tracking_stale s \<or> tm_state (lastTrackingMsg s) \<noteq> TS_Tracking \<or> low_confidence s))"

definition set_tracking_state :: "tracking_state \<Rightarrow> fc_state \<Rightarrow> fc_state" where
  "set_tracking_state ts = on_telemetry (\<lambda>t. t\<lparr> td_tracking_state := ts \<rparr>)"

definition set_td_confidence :: "pyfloat \<Rightarrow> fc_state \<Rightarrow> fc_state" where
  "set_td_confidence c = on_telemetry (\<lambda>t. t\<lparr> td_confidence := c \<rparr>)"

definition land_start :: "fc_state \<Rightarrow> fc_state" where
  \<comment> \<open>the first block of \<open>runLandSafelyMode\<close>\<close>
  "land_start s =
     (if landSafelyInitialized s then s
      else s\<lparr> landSafelyInitialized := True, landTimer_s := Fin 0,
             landStartThrottle := max kMinLandThrottle
               (if hoverThrottle s = 0 then bf_throttle (currentCommand s)
                else min (bf_throttle (currentCommand s)) (hoverThrottle s)) \<rparr>)"

definition runLandSafelyMode :: "pyfloat \<Rightarrow> fc_state \<Rightarrow> fc_state" where
  "runLandSafelyMode dt s =
     (let s1 = land_start s in
      if \<not> is_armed (currentCommand s1)
      then set_throttle DRONE_MIN (set_tracking_state TS_Searching s1)
      else let s2 = set_tracking_state TS_Searching s1;
               s3 = s2\<lparr> landTimer_s := fadd (landTimer_s s2) dt \<rparr>;
               s4 = centre_sticks (setAngleMode True (setAltHold False s3))
           in if fle kDisarmTimeS (landTimer_s s4)
              then setArm False (set_throttle DRONE_MIN s4)
              else let throttle_cmd = fsub (fc_int (landStartThrottle s4))
                         (fmul kLandRampRateUsPerS (landTimer_s s4));
                       clamped = fclamp throttle_cmd (fc_int kMinLandThrottle) (fc_int DRONE_MAX)
                   in set_throttle (u16_of clamped) s4)"

definition takeoff_start :: "fc_state \<Rightarrow> fc_state" where
  "takeoff_start s =
     (if takeoffInitialized s then s
      else s\<lparr> takeoffInitialized := True, takeoffTimer_s := Fin 0 \<rparr>)"

definition takeoff_ramp :: "pyfloat \<Rightarrow> pyfloat" where
  \<comment> \<open>the interpolation, for a time since the end of the spool-up\<close>
  "takeoff_ramp ramp_t =
     (let alpha = fdiv_nz ramp_t takeoffRampTime_s
      in fadd (fmul (fsub (Fin 1) alpha) (fc_int takeoffSpoolThrottle))
              (fmul alpha (fc_int takeoffTargetThrottle)))"

definition runTakeoffMode :: "pyfloat \<Rightarrow> fc_state \<Rightarrow> fc_state" where
  "runTakeoffMode dt s =
     (if hoverThrottle s = 0 then runLandSafelyMode dt (setControlMode CM_LandSafely s)
      else let s1 = takeoff_start s;
               s2 = s1\<lparr> takeoffTimer_s := fadd (takeoffTimer_s s1) dt \<rparr>;
               s3 = centre_sticks (setAltHold True (setAngleMode True (setArm True
                      (set_tracking_state TS_Searching s2))))
           in if flt (takeoffTimer_s s3) takeoffSpoolTime_s
              then set_throttle takeoffSpoolThrottle s3
              else let ramp_t = fsub (takeoffTimer_s s3) takeoffSpoolTime_s
                   in if flt ramp_t takeoffRampTime_s
                      then set_throttle (u16_of (takeoff_ramp ramp_t)) s3
                      else let s4 = set_throttle (hoverThrottle s3) s3
                           in if flt (fadd takeoffRampTime_s takeoffHoldTime_s) ramp_t
                              then setControlMode CM_Tracking s4 else s4)"

definition runHoverSearchState :: "fc_state \<Rightarrow> fc_state" where
  "runHoverSearchState s =
     (let s1 = setAltHold True (setAngleMode True (set_tracking_state TS_Searching s));
          s2 = on_command (\<lambda>c. c\<lparr> bf_roll := DRONE_MID, bf_pitch := DRONE_MID \<rparr>) s1
      in commandYawRate searchYawRate_dps (commandAltHoldDelta (Fin 0) s2))"

definition runHoverStillState :: "tracking_state \<Rightarrow> fc_state \<Rightarrow> fc_state" where
  "runHoverStillState stateForTelemetry s =
     (let s1 = setAltHold True (setAngleMode True (set_tracking_state stateForTelemetry s))
      in commandAltHoldDelta (Fin 0) (centre_sticks s1))"

definition deadband :: "pyfloat \<Rightarrow> pyfloat \<Rightarrow> pyfloat" where
  "deadband band e = (if flt (fabs e) band then Fin 0 else e)"

definition forward_cmd :: "tracking_config \<Rightarrow> pyfloat \<Rightarrow> pyfloat \<Rightarrow> pyfloat" where
  \<comment> \<open>the forward speed from the height of the box\<close>
  "forward_cmd c maxSpeed bound_h =
     (let sizeError = deadband (tc_boxDeadband c) (fsub (tc_desiredBoxHeight c) bound_h);
          forwardCmd = (if fle (tc_maxBoxHeight c) bound_h then fneg maxSpeed
                        else if fle bound_h (tc_minBoxHeight c) then maxSpeed
                        else fmul (tc_kSpeedPerUnitError c) sizeError)
      in fclamp forwardCmd (fneg maxSpeed) maxSpeed)"

definition runFollowTargetLogic :: "fc_state \<Rightarrow> fc_state" where
  "runFollowTargetLogic s =
     (let s1 = commandAltHoldDelta (Fin 0) s;
          msg = lastTrackingMsg s1; c = trackingConfig s1 in
      if \<not> isTargetValid s1
      then set_throttle (hoverThrottle s1) (centre_sticks
             (set_td_confidence (Fin 0) (set_tracking_state TS_Searching s1)))
      else let s2 = set_td_confidence (tm_confidence msg) (set_tracking_state TS_Tracking s1);
               xError = deadband (tc_xDeadband c) (fsub (tm_target_x msg) (tc_desiredTargetX c));
               yError = deadband (tc_yDeadband c) (fsub (tm_target_y msg) (tc_desiredTargetY c));
               s3 = commandYawRate (fmul (tc_kYawPerUnitError c) xError) s2;
               s4 = commandForward (forward_cmd c (up_maxSpeed_mps (userParams s3)) (tm_bound_h msg)) s3;
               deltaNorm = fclamp (fmul (fneg (tc_kAltPerUnitError c)) yError) (Fin (- 1)) (Fin 1);
               s5 = commandAltHoldDelta deltaNorm s4
           in on_command (\<lambda>cmd. cmd\<lparr> bf_roll := DRONE_MID \<rparr>) s5)"

definition runFollowTargetState :: "fc_state \<Rightarrow> fc_state" where
  "runFollowTargetState s = runFollowTargetLogic (setAltHold True (setAngleMode True s))"

definition runTrackingMode :: "pyfloat \<Rightarrow> fc_state \<Rightarrow> fc_state" where
  "runTrackingMode dt s =
     (if hoverThrottle s = 0 then runLandSafelyMode dt (setControlMode CM_LandSafely s)
      else if tracking_stale s then runHoverSearchState s
      else case tm_state (lastTrackingMsg s) of
             TS_Tracking \<Rightarrow> if isTargetValid s then runFollowTargetState s else runHoverSearchState s
           | TS_Searching \<Rightarrow> runHoverSearchState s
           | TS_TargetDetected \<Rightarrow> runHoverStillState TS_TargetDetected s
           | TS_NoTarget \<Rightarrow> runHoverStillState TS_NoTarget s)"

definition runManualMode :: "fc_state \<Rightarrow> fc_state" where
  "runManualMode = set_tracking_state TS_Searching"

definition control_dt :: "pyfloat \<Rightarrow> pyfloat" where
  \<comment> \<open>the step length a tick uses\<close>
  "control_dt dt = (if \<not> isfinite dt \<or> flt dt (Fin 0) then Fin 0
                    else if flt kMaxControlDtS dt then kMaxControlDtS else dt)"

definition run_mode :: "pyfloat \<Rightarrow> fc_state \<Rightarrow> fc_state" where
  "run_mode dt s = (case controlMode s of
       CM_Manual \<Rightarrow> runManualMode s
     | CM_Tracking \<Rightarrow> runTrackingMode dt s
     | CM_LandSafely \<Rightarrow> runLandSafelyMode dt s
     | CM_Takeoff \<Rightarrow> runTakeoffMode dt s)"

definition finish_step :: "fc_state \<Rightarrow> fc_state" where
  \<comment> \<open>what follows the switch\<close>
  "finish_step s =
     (let s1 = (if \<not> is_armed (currentCommand s) then set_throttle DRONE_MIN s else s);
          s2 = (if td_tracking_state (telemetryData s1) \<noteq> TS_Tracking
                then set_td_confidence (Fin 0) s1 else s1)
      in clampCommandChannels s2)"

definition begin_step :: "pyfloat \<Rightarrow> fc_state \<Rightarrow> fc_state" where
  "begin_step dt s = on_telemetry (\<lambda>t. t\<lparr> td_timestamp_s := fadd (td_timestamp_s t) dt,
     td_control_mode := controlMode s, td_last_tracking_msg := lastTrackingMsg s \<rparr>) s"

definition updateTimeStep :: "pyfloat \<Rightarrow> fc_state \<Rightarrow> bf_command \<times> fc_state" where
  "updateTimeStep deltaTime_s s =
     (let dt = control_dt deltaTime_s;
          s' = finish_step (run_mode dt (begin_step dt s))
      in (currentCommand s', s'))"

end
