(* ===== verification/Flight_Modes.thy ===== *)
theory Flight_Modes
  imports Flight_Control
begin

section \<open>What the flight modes guarantee\<close>

text \<open>
  The invariant \<open>fc_ok\<close> of the flight controller's state, kept by every method, and what each
  mode does to the channels: the landing ramp that ends disarmed, the takeoff profile, the
  search and hover states, and the steering towards a valid target.
\<close>

lemmas fc_setters = on_command_def on_telemetry_def setArm_def setAngleMode_def setAltHold_def
  set_throttle_def centre_sticks_def set_tracking_state_def set_td_confidence_def

subsection \<open>The invariant\<close>

definition rc_in :: "int \<Rightarrow> bool" where
  "rc_in v = (DRONE_MIN \<le> v \<and> v \<le> DRONE_MAX)"

definition sticks_ok :: "bf_command \<Rightarrow> bool" where
  \<comment> \<open>every channel but the throttle\<close>
  "sticks_ok c = (rc_in (bf_roll c) \<and> rc_in (bf_pitch c) \<and> rc_in (bf_yaw c) \<and> rc_in (bf_aux1 c) \<and>
     rc_in (bf_aux2 c) \<and> rc_in (bf_aux3 c) \<and> rc_in (bf_aux4 c))"

definition params_ok :: "user_params \<Rightarrow> bool" where
  \<comment> \<open>a usable speed limit; the default is 1\<close>
  "params_ok p = (case up_maxSpeed_mps p of Fin m \<Rightarrow> 0 \<le> m \<and> is_f64 (Fin m) | _ \<Rightarrow> False)"

definition hover_ok :: "int \<Rightarrow> bool" where
  "hover_ok h = (h = 0 \<or> (DRONE_MIN \<le> h \<and> h \<le> kAltHoldMaxThrottle))"

definition throttle_ok :: "fc_state \<Rightarrow> bool" where
  \<comment> \<open>between two ticks the throttle may hold the uncalibrated sentinel\<close>
  "throttle_ok s = (bf_throttle (currentCommand s) = 0 \<or> rc_in (bf_throttle (currentCommand s)))"

definition fc_ok :: "fc_state \<Rightarrow> bool" where
  "fc_ok s = (sticks_ok (currentCommand s) \<and> throttle_ok s \<and> hover_ok (hoverThrottle s) \<and>
     params_ok (userParams s) \<and> rc_in (landStartThrottle s) \<and>
     (landSafelyInitialized s \<longrightarrow> kMinLandThrottle \<le> landStartThrottle s) \<and>
     fle (Fin 0) (landTimer_s s) \<and> is_f64 (landTimer_s s) \<and>
     fle (Fin 0) (takeoffTimer_s s) \<and> is_f64 (takeoffTimer_s s))"

lemmas fc_ok_defs = fc_ok_def sticks_ok_def throttle_ok_def hover_ok_def rc_in_def

subsection \<open>Arithmetic\<close>

lemma rnd_error:
  assumes "\<bar>x\<bar> \<le> 2 ^ k"
  shows "\<bar>rnd x - x\<bar> \<le> 2 ^ k / 2 ^ 53"
proof (cases "x = 0")
  case False
  let ?u = "2 powr of_int (fexp x) :: real"
  have "log 2 \<bar>x\<bar> \<le> real k" using assms False
    by (subst log_le_iff) (auto simp: powr_realpow)
  then have "\<lfloor>log 2 \<bar>x\<bar>\<rfloor> \<le> int k" by linarith
  then have "fexp x \<le> int k - 52" by (simp add: fexp_def)
  then have "?u \<le> 2 powr of_int (int k - 52)" by (intro powr_mono) auto
  also have "\<dots> = 2 ^ k / 2 ^ 52" by (simp add: powr_diff powr_realpow)
  finally have u: "?u \<le> 2 ^ k / 2 ^ 52" .
  let ?y = "x / ?u"
  have "\<bar>of_int (rne ?y) - ?y\<bar> \<le> 1 / 2" unfolding rne_def Let_def by (cases "even \<lfloor>?y\<rfloor>"; simp; linarith)
  then have "\<bar>of_int (rne ?y) - ?y\<bar> * ?u \<le> 1 / 2 * ?u" by (rule mult_right_mono) simp
  then have "\<bar>(of_int (rne ?y) - ?y) * ?u\<bar> \<le> 1 / 2 * ?u" by (simp add: abs_mult)
  moreover have "rnd x - x = (of_int (rne ?y) - ?y) * ?u" using False
    by (simp add: rnd_def left_diff_distrib)
  ultimately show ?thesis using u by simp
qed simp

lemma fadd_lower:
  assumes "fle (Fin a) x" "fle (Fin b) y" "rnd (a + b) = a + b" "\<bar>a + b\<bar> \<le> 2 ^ 60"
  shows "fle (Fin (a + b)) (fadd x y)"
proof -
  have "f64 (a + b) = Fin (a + b)" using assms(3,4) by (rule f64_exact)
  then show ?thesis using assms(1,2) f64_mono[of "a + b" "x' + y'" for x' y'] add_mono[of a _ b]
    by (cases x; cases y) simp_all
qed

lemma max_dt [simp]: "kMaxControlDtS = Fin (rnd (1 / 5))" "1 \<le> rnd (1 / 5) * 64" "rnd (1 / 5) * 4 \<le> 1"
proof -
  have "rnd (1 / 64) = 1 / 64" by (rule rnd_fraction[of 1 6]) simp_all
  then have l: "1 / 64 \<le> rnd (1 / 5)" by (intro rnd_ge_fix) simp_all
  have u: "rnd (1 / 5) \<le> 1 / 4" by (rule rnd_le_fix) simp_all
  from l u show "1 \<le> rnd (1 / 5) * 64" "rnd (1 / 5) * 4 \<le> 1" by simp_all
  show "kMaxControlDtS = Fin (rnd (1 / 5))"
    unfolding kMaxControlDtS_def using l u big_bound[of "\<bar>rnd (1 / 5)\<bar>"] by (intro f64_small) auto
qed

lemma control_dt_range:
  obtains d where "control_dt dt = Fin d" "0 \<le> d" "d \<le> 1 / 4"
proof -
  let ?m = "rnd (1 / 5)"
  have m: "0 \<le> ?m" "?m \<le> 1 / 4" using max_dt(2,3) by linarith+
  show thesis
  proof (cases dt)
    case (Fin r)
    then show thesis using that[of 0] that[of r] that[of ?m] m
      by (cases "r < 0"; cases "rnd (1 / 5) < r") (simp_all add: control_dt_def)
  qed (use that[of 0] in \<open>simp_all add: control_dt_def\<close>)
qed

lemma control_dt_nonneg [simp]: "fle (Fin 0) (control_dt dt)"
  by (rule control_dt_range[of dt]) simp

lemma control_dt_lower: "fle (Fin (1 / 64)) dt \<Longrightarrow> isfinite dt \<Longrightarrow> fle (Fin (1 / 64)) (control_dt dt)"
proof (cases dt)
  case (Fin r)
  assume "fle (Fin (1 / 64)) dt"
  then show ?thesis using Fin by (auto simp: control_dt_def)
qed simp_all

subsection \<open>The channel commands keep the ranges\<close>

lemma pwm_of_range:
  assumes "x \<noteq> NaN"
  shows "rc_in (pwm_of x)"
proof -
  obtain r where "fclamp x (Fin 1000) (Fin 2000) = Fin r" "1000 \<le> r" "r \<le> 2000"
    using fclamp_bounded[OF _ assms, of 1000 2000] by auto
  then show ?thesis using u16_range[of 1000 r 2000] by (simp add: pwm_of_def fc_int_def rc_consts rc_in_def)
qed

lemma pwm_of_bounds:
  assumes "x = Fin r" "of_int a \<le> r" "r \<le> of_int b" "1000 \<le> a" "b \<le> 2000"
  shows "a \<le> pwm_of x \<and> pwm_of x \<le> b"
proof -
  have "of_int 1000 \<le> (of_int a :: real)" "(of_int b :: real) \<le> of_int 2000"
    using assms(4,5) by (simp_all only: of_int_le_iff)
  then have "fclamp x (Fin 1000) (Fin 2000) = Fin r" using assms(1-3) by simp
  then show ?thesis using u16_range[of a r b] assms(2-4) by (simp add: pwm_of_def fc_int_def rc_consts)
qed

lemma unit_quotient:
  assumes "- m \<le> x" "x \<le> m" "0 < m"
  obtains q where "fdiv_nz (Fin x) (Fin m) = Fin q" "- 1 \<le> q" "q \<le> 1"
proof -
  have "- 1 \<le> x / m" "x / m \<le> 1" using assms by (simp_all add: field_simps)
  then have "- 1 \<le> rnd (x / m)" "rnd (x / m) \<le> 1" by (auto intro!: rnd_ge_fix rnd_le_fix)
  moreover from this have "f64 (x / m) = Fin (rnd (x / m))"
    using big_bound[of "\<bar>rnd (x / m)\<bar>"] by (intro f64_small) auto
  ultimately show thesis using that assms(3) by (simp add: fdiv_nz_def)
qed

lemma deflected_pwm:
  assumes "isfinite x" "0 < m"
  shows "1200 \<le> pwm_of (fadd (fc_int DRONE_MID) (fmul (fdiv_nz (fclamp x (Fin (- m)) (Fin m)) (Fin m)) (Fin 300)))
    \<and> pwm_of (fadd (fc_int DRONE_MID) (fmul (fdiv_nz (fclamp x (Fin (- m)) (Fin m)) (Fin m)) (Fin 300))) \<le> 1800"
proof -
  have "x \<noteq> NaN" "- m \<le> m" using assms by auto
  then obtain r where r: "fclamp x (Fin (- m)) (Fin m) = Fin r" "- m \<le> r" "r \<le> m"
    using fclamp_bounded by metis
  obtain q where q: "fdiv_nz (Fin r) (Fin m) = Fin q" "- 1 \<le> q" "q \<le> 1"
    using unit_quotient[OF r(2,3) assms(2)] by blast
  obtain p where "fadd (fc_int DRONE_MID) (fmul (Fin q) (Fin 300)) = Fin p" "1200 \<le> p" "p \<le> 1800"
    using deflection[OF q(2,3)] by blast
  then show ?thesis using r q pwm_of_bounds[where a = 1200 and b = 1800 and r = p] by simp
qed

lemma commandYawRate_yaw:
  "1200 \<le> bf_yaw (currentCommand (commandYawRate v s)) \<and> bf_yaw (currentCommand (commandYawRate v s)) \<le> 1800"
  using deflected_pwm[of v 180]
  by (simp add: commandYawRate_def kMaxYawRateDps_def kYawRangeUs_def on_command_def rc_consts)

lemma commandForward_pitch:
  assumes "params_ok (userParams s)"
  shows "1200 \<le> bf_pitch (currentCommand (commandForward v s)) \<and>
    bf_pitch (currentCommand (commandForward v s)) \<le> 1800"
proof -
  obtain m where m: "up_maxSpeed_mps (userParams s) = Fin m" "0 \<le> m"
    using assms by (auto simp: params_ok_def split: pyfloat.splits)
  then show ?thesis using deflected_pwm[of v m]
    by (simp add: commandForward_def kPitchRangeUs_def on_command_def rc_consts Let_def)
qed


lemma hover_cmd:
  assumes "hover_ok h" "h \<noteq> 0"
  shows "pwm_of (fc_int h) = h" "fmax (Fin 0) (fsub (fc_int h) (fc_int DRONE_MIN)) = Fin (of_int (h - 1000))"
    "fmax (Fin 0) (fsub (fc_int kAltHoldMaxThrottle) (fc_int h)) = Fin (of_int (1800 - h))"
proof -
  have h: "1000 \<le> h" "h \<le> 1800" using assms by (auto simp: hover_ok_def fc_consts)
  have r: "1000 \<le> real_of_int h" "real_of_int h \<le> 1800" using h by simp_all
  then show "pwm_of (fc_int h) = h" by (simp add: pwm_of_def fc_int_def fc_consts)
  have "rnd (of_int (h - 1000)) = of_int (h - 1000)" "rnd (of_int (1800 - h)) = of_int (1800 - h)"
    by (rule rnd_of_int, use h in simp)+
  then have "f64 (of_int (h - 1000)) = Fin (of_int (h - 1000))" "f64 (of_int (1800 - h)) = Fin (of_int (1800 - h))"
    using r by (auto intro!: f64_exact)
  then show "fmax (Fin 0) (fsub (fc_int h) (fc_int DRONE_MIN)) = Fin (of_int (h - 1000))"
    "fmax (Fin 0) (fsub (fc_int kAltHoldMaxThrottle) (fc_int h)) = Fin (of_int (1800 - h))"
    using r by (simp_all add: fsub_def fc_int_def fc_consts fmax_def)
qed

lemma scaled_hover:
  assumes "- 1 \<le> d" "d \<le> 1" "0 \<le> w" "w \<le> 1000" "1000 \<le> h" "h \<le> 2000"
  obtains p where "fadd (fc_int h) (fmul (Fin d) (Fin (of_int w))) = Fin p"
    "if d < 0 then of_int (h - w) \<le> p \<and> p \<le> of_int h else of_int h \<le> p \<and> p \<le> of_int (h + w)"
proof -
  let ?m = "rnd (d * of_int w)" and ?p = "rnd (of_int h + rnd (d * of_int w))"
  have whole: "rnd (of_int k) = of_int k" if "\<bar>k\<bar> \<le> 3000" for k using that by (intro rnd_of_int) simp
  have w: "0 \<le> real_of_int w" "real_of_int w \<le> 1000" using assms by simp_all
  have l: "- of_int w \<le> d * of_int w" "d * of_int w \<le> of_int w"
    using assms mult_right_mono[of "- 1" d "of_int w"] mult_right_mono[of d 1 "of_int w"] by auto
  have m: "- of_int w \<le> ?m" "?m \<le> of_int w"
    using rnd_ge_fix[OF l(1)] rnd_le_fix[OF l(2)] whole[of w] whole[of "- w"] assms by auto
  have sgn: "if d < 0 then ?m \<le> 0 else 0 \<le> ?m"
    using w rnd_le_fix[of "d * of_int w" 0] rnd_nonneg[of "d * of_int w"]
      mult_nonpos_nonneg[of d "of_int w"] by auto
  have p: "if d < 0 then of_int (h - w) \<le> ?p \<and> ?p \<le> of_int h else of_int h \<le> ?p \<and> ?p \<le> of_int (h + w)"
  proof (cases "d < 0")
    case True
    then have "of_int (h - w) \<le> of_int h + ?m" "of_int h + ?m \<le> of_int h" using sgn m by auto
    then show ?thesis using True whole[of "h - w"] whole[of h] assms rnd_ge_fix rnd_le_fix by force
  next
    case False
    then have "of_int (h + w) \<ge> of_int h + ?m" "of_int h + ?m \<ge> of_int h" using sgn m by auto
    then show ?thesis using False whole[of "h + w"] whole[of h] assms rnd_ge_fix rnd_le_fix by force
  qed
  have h: "1000 \<le> real_of_int h" "real_of_int h \<le> 2000" using assms by simp_all
  have "f64 (d * of_int w) = Fin ?m" using m w big_bound[of "\<bar>?m\<bar>"] by (intro f64_small) auto
  moreover have "\<bar>?p\<bar> \<le> 3000" using p w h by (auto split: if_splits)
  then have "f64 (of_int h + ?m) = Fin ?p" using big_bound[of "\<bar>?p\<bar>"] by (intro f64_small) auto
  ultimately show thesis using that[of ?p] p by (simp add: fc_int_def)
qed

text \<open>The throttle an altitude correction gives: down to the minimum or up to the ceiling.\<close>

lemma commandAltHoldDelta_throttle:
  assumes "hover_ok (hoverThrottle s)" "hoverThrottle s \<noteq> 0" "isfinite d"
  shows "if flt d (Fin 0)
    then 1000 \<le> bf_throttle (currentCommand (commandAltHoldDelta d s)) \<and>
         bf_throttle (currentCommand (commandAltHoldDelta d s)) \<le> hoverThrottle s
    else hoverThrottle s \<le> bf_throttle (currentCommand (commandAltHoldDelta d s)) \<and>
         bf_throttle (currentCommand (commandAltHoldDelta d s)) \<le> 1800"
proof -
  let ?h = "hoverThrottle s"
  have h: "1000 \<le> ?h" "?h \<le> 1800" using assms by (auto simp: hover_ok_def fc_consts)
  obtain x where x: "d = Fin x" using assms(3) by (cases d) auto
  let ?c = "max (- 1) (min 1 x)"
  have c: "fclamp (Fin x) (Fin (- 1)) (Fin 1) = Fin ?c" "- 1 \<le> ?c" "?c \<le> 1" "?c < 0 \<longleftrightarrow> x < 0"
    by (auto simp: fclamp_Fin)
  show ?thesis
  proof (cases "x < 0")
    case True
    obtain p where "fadd (fc_int ?h) (fmul (Fin ?c) (Fin (of_int (?h - 1000)))) = Fin p"
      "of_int 1000 \<le> p" "p \<le> of_int ?h"
      using scaled_hover[OF c(2,3), of "?h - 1000" ?h] c(4) h True by (auto split: if_splits)
    then show ?thesis using pwm_of_bounds[of "Fin p" p 1000 ?h] True x c h assms hover_cmd
      by (simp add: commandAltHoldDelta_def fc_setters)
  next
    case False
    obtain p where "fadd (fc_int ?h) (fmul (Fin ?c) (Fin (of_int (1800 - ?h)))) = Fin p"
      "of_int ?h \<le> p" "p \<le> of_int 1800"
      using scaled_hover[OF c(2,3), of "1800 - ?h" ?h] c(4) h False by (auto split: if_splits)
    then show ?thesis using pwm_of_bounds[of "Fin p" p ?h 1800] False x c h assms hover_cmd
      by (simp add: commandAltHoldDelta_def fc_setters)
  qed
qed

lemma commandAltHoldDelta_0:
  assumes "hover_ok (hoverThrottle s)" "hoverThrottle s \<noteq> 0"
  shows "commandAltHoldDelta (Fin 0) s = set_throttle (hoverThrottle s) s"
proof -
  have "fadd (fc_int (hoverThrottle s)) (Fin 0) = fc_int (hoverThrottle s)"
    using assms f64_exact[of "of_int (hoverThrottle s)"] rnd_of_int[of "hoverThrottle s"]
    by (auto simp: fc_int_def hover_ok_def fc_consts)
  then show ?thesis using assms hover_cmd by (simp add: commandAltHoldDelta_def)
qed

lemma commandAltHoldDelta_nonfinite:
  "\<not> isfinite d \<Longrightarrow> commandAltHoldDelta d s = commandAltHoldDelta (Fin 0) s"
  by (simp add: commandAltHoldDelta_def)

subsection \<open>Every method keeps the invariant\<close>

text \<open>A step of control code changes the channels or the telemetry only; the frame says so.\<close>

definition same_config :: "fc_state \<Rightarrow> fc_state \<Rightarrow> bool" where
  "same_config s s' = (hoverThrottle s' = hoverThrottle s \<and> userParams s' = userParams s \<and>
     trackingConfig s' = trackingConfig s \<and> lastTrackingMsg s' = lastTrackingMsg s \<and>
     lastTrackingUpdateTime_s s' = lastTrackingUpdateTime_s s)"

lemma fc_ok_setters [inv_intros]:
  assumes "fc_ok s"
  shows "fc_ok (setArm b s)" "fc_ok (setAngleMode b s)" "fc_ok (setAltHold b s)" "fc_ok (centre_sticks s)"
    "fc_ok (set_tracking_state ts s)" "fc_ok (set_td_confidence c s)" "fc_ok (on_telemetry f s)"
  using assms by (simp_all add: fc_ok_defs fc_setters fc_consts)

lemma fc_ok_throttle [inv_intros]: "fc_ok s \<Longrightarrow> t = 0 \<or> rc_in t \<Longrightarrow> fc_ok (set_throttle t s)"
  by (auto simp: fc_ok_defs fc_setters)

lemma fc_ok_hover: "fc_ok s \<Longrightarrow> hover_ok (hoverThrottle s) \<and> params_ok (userParams s)"
  by (simp add: fc_ok_def)

lemma hover_rc: "hover_ok h \<Longrightarrow> h = 0 \<or> rc_in h"
  by (auto simp: hover_ok_def rc_in_def fc_consts)

lemma fc_ok_axes:
  assumes "fc_ok s" "rc_in v"
  shows "fc_ok (on_command (\<lambda>c. c\<lparr> bf_yaw := v \<rparr>) s)" "fc_ok (on_command (\<lambda>c. c\<lparr> bf_pitch := v \<rparr>) s)"
    "fc_ok (on_command (\<lambda>c. c\<lparr> bf_roll := v \<rparr>) s)"
  using assms by (simp_all add: fc_ok_defs on_command_def)

lemma mid_in [simp]: "rc_in DRONE_MID" "rc_in DRONE_MIN" "rc_in DRONE_MAX"
  by (simp_all add: rc_in_def rc_consts)

lemma commandYawRate_shape: "\<exists>v. commandYawRate r s = on_command (\<lambda>c. c\<lparr> bf_yaw := v \<rparr>) s \<and> rc_in v"
  using commandYawRate_yaw[of r s]
  by (auto simp: commandYawRate_def Let_def on_command_def rc_in_def fc_consts)

lemma commandForward_shape:
  "params_ok (userParams s) \<Longrightarrow> \<exists>v. commandForward r s = on_command (\<lambda>c. c\<lparr> bf_pitch := v \<rparr>) s \<and> rc_in v"
  using commandForward_pitch[of s r]
  by (auto simp: commandForward_def Let_def on_command_def rc_in_def fc_consts)

lemma commandAltHoldDelta_shape:
  assumes "hover_ok (hoverThrottle s)"
  shows "commandAltHoldDelta d s = s \<or> (\<exists>t. commandAltHoldDelta d s = set_throttle t s \<and> rc_in t)"
proof (cases "hoverThrottle s = 0")
  case False
  let ?d = "if isfinite d then d else Fin 0"
  have e: "commandAltHoldDelta d s = commandAltHoldDelta ?d s" using commandAltHoldDelta_nonfinite by simp
  have r: "rc_in (bf_throttle (currentCommand (commandAltHoldDelta ?d s)))"
    using commandAltHoldDelta_throttle[OF assms False, of ?d] assms False
    by (auto simp: rc_in_def fc_consts hover_ok_def split: if_splits)
  obtain t where t: "commandAltHoldDelta ?d s = set_throttle t s"
    using False by (simp add: commandAltHoldDelta_def Let_def)
  have "rc_in t" using r unfolding t by (simp add: fc_setters)
  then show ?thesis using e t by metis
qed (simp add: commandAltHoldDelta_def)

lemma fc_ok_commands [inv_intros]:
  assumes "fc_ok s"
  shows "fc_ok (commandYawRate v s)" "fc_ok (commandForward v s)" "fc_ok (commandAltHoldDelta v s)"
proof -
  show "fc_ok (commandYawRate v s)" using commandYawRate_shape[of v s] fc_ok_axes[OF assms] by auto
  show "fc_ok (commandForward v s)"
    using commandForward_shape[of s v] fc_ok_axes[OF assms] fc_ok_hover[OF assms] by auto
  show "fc_ok (commandAltHoldDelta v s)"
    using commandAltHoldDelta_shape[of s v] fc_ok_hover[OF assms] assms fc_ok_throttle by auto
qed

lemma fc_ok_setControlMode [inv_intros]: "fc_ok s \<Longrightarrow> fc_ok (setControlMode m s)"
  by (auto simp: setControlMode_def fc_ok_defs fc_setters fc_consts Let_def)

lemma u16_clamp_range: "lo \<le> hi \<Longrightarrow> lo \<le> u16_clamp v lo hi \<and> u16_clamp v lo hi \<le> hi"
  by (simp add: u16_clamp_def)

lemma fc_ok_clamped: "fc_ok s \<Longrightarrow> fc_ok (clampCommandChannels (s\<lparr> currentCommand := c \<rparr>))"
  using u16_clamp_range[of 1000 2000]
  by (simp add: clampCommandChannels_def clamp_channels_def fc_ok_defs on_command_def rc_consts)

lemma fc_ok_clampCommandChannels [inv_intros]: "fc_ok s \<Longrightarrow> fc_ok (clampCommandChannels s)"
  using fc_ok_clamped[of s "currentCommand s"] by simp

lemma fc_ok_land_start [inv_intros]: "fc_ok s \<Longrightarrow> fc_ok (land_start s)"
  by (auto simp: land_start_def fc_ok_defs fc_consts)

lemma land_start_min: "fc_ok s \<Longrightarrow> kMinLandThrottle \<le> landStartThrottle (land_start s)"
  by (simp add: land_start_def fc_ok_def)

lemma land_throttle:
  assumes "x \<noteq> NaN" "x = NInf \<or> (\<exists>r. x = Fin r \<and> r \<le> of_int b)" "1030 \<le> b" "b \<le> 2000"
  shows "1030 \<le> u16_of (fclamp x (fc_int kMinLandThrottle) (fc_int DRONE_MAX)) \<and>
    u16_of (fclamp x (fc_int kMinLandThrottle) (fc_int DRONE_MAX)) \<le> b"
proof (cases "x = NInf")
  case True
  then show ?thesis using assms(3) by (simp add: fclamp_def fc_int_def fc_consts)
next
  case False
  then obtain r where r: "x = Fin r" "r \<le> of_int b" using assms(2) by auto
  have "of_int 1030 \<le> (of_int b :: real)" "(of_int b :: real) \<le> of_int 2000"
    using assms(3,4) by (simp_all only: of_int_le_iff)
  then show ?thesis using r u16_range[of 1030 "max 1030 (min 2000 r)" b]
    by (simp add: fc_int_def fc_consts fclamp_Fin)
qed

lemma ramp_below_start:
  assumes "fle (Fin 0) t" "0 \<le> b" "b \<le> 2000"
  shows "fsub (fc_int b) (fmul kLandRampRateUsPerS t) = NInf \<or>
    (\<exists>r. fsub (fc_int b) (fmul kLandRampRateUsPerS t) = Fin r \<and> r \<le> of_int b)"
proof -
  have f: "f64 (of_int b) = Fin (of_int b)"
    using assms rnd_of_int[of b] by (intro f64_exact) auto
  have "fle (Fin 0) (fmul kLandRampRateUsPerS t)"
    using assms(1) by (cases t) (simp_all add: fc_consts f64_nonneg)
  then consider "fmul kLandRampRateUsPerS t = PInf" | m where "fmul kLandRampRateUsPerS t = Fin m" "0 \<le> m"
    by (cases "fmul kLandRampRateUsPerS t") auto
  then show ?thesis
  proof cases
    case (2 m)
    then have "fle (f64 (of_int b - m)) (Fin (of_int b))" using f f64_mono[of "of_int b - m" "of_int b"] by simp
    then show ?thesis using 2 by (cases "f64 (of_int b - m)") (simp_all add: fsub_def fc_int_def)
  qed (simp add: fsub_def fc_int_def)
qed

lemma fc_ok_runLandSafelyMode [inv_intros]:
  assumes "fc_ok s" "fle (Fin 0) dt"
  shows "fc_ok (runLandSafelyMode dt s)"
proof -
  let ?s1 = "land_start s"
  have ok: "fc_ok ?s1" using assms(1) by (rule fc_ok_land_start)
  let ?s2 = "set_tracking_state TS_Searching ?s1"
  let ?s3 = "?s2\<lparr> landTimer_s := fadd (landTimer_s ?s2) dt \<rparr>"
  have ok2: "fc_ok ?s2" by (rule fc_ok_setters(5)[OF ok])
  then have "fle (Fin 0) (fadd (landTimer_s ?s2) dt)" using assms(2) fadd_nonneg by (simp add: fc_ok_def)
  then have ok3: "fc_ok ?s3" using ok2 by (simp add: fc_ok_defs)
  let ?s4 = "centre_sticks (setAngleMode True (setAltHold False ?s3))"
  have ok4: "fc_ok ?s4" by (intro fc_ok_setters ok3)
  have st: "1030 \<le> landStartThrottle ?s4" "landStartThrottle ?s4 \<le> 2000"
    using land_start_min[OF assms(1)] ok by (auto simp: fc_setters fc_consts fc_ok_def rc_in_def)
  have "fle (Fin 0) (landTimer_s ?s4)" using ok4 by (simp add: fc_ok_def)
  then have "rc_in (u16_of (fclamp (fsub (fc_int (landStartThrottle ?s4)) (fmul kLandRampRateUsPerS (landTimer_s ?s4)))
      (fc_int kMinLandThrottle) (fc_int DRONE_MAX)))"
    using ramp_below_start[of "landTimer_s ?s4" "landStartThrottle ?s4"] st
      land_throttle[of "fsub (fc_int (landStartThrottle ?s4)) (fmul kLandRampRateUsPerS (landTimer_s ?s4))" "landStartThrottle ?s4"]
    by (auto simp: rc_in_def rc_consts)
  then show ?thesis using ok ok2 ok4
    by (simp add: runLandSafelyMode_def Let_def fc_ok_throttle fc_ok_setters)
qed

lemma takeoff_ramp_range:
  assumes "0 \<le> r" "flt (Fin r) takeoffRampTime_s"
  shows "1019 \<le> u16_of (takeoff_ramp (Fin r)) \<and> u16_of (takeoff_ramp (Fin r)) \<le> 1250"
proof -
  let ?T = "rnd (8 / 5)"
  have T: "1 \<le> ?T" "?T \<le> 2" by (auto intro: rnd_ge_fix rnd_le_fix)
  then have Tf: "takeoffRampTime_s = Fin ?T"
    using big_bound[of "\<bar>?T\<bar>"] by (auto simp: takeoffRampTime_s_def intro: f64_small)
  let ?a = "rnd (r / ?T)"
  have "r < ?T" using assms(2) unfolding Tf by simp
  then have q: "0 \<le> r / ?T" "r / ?T \<le> 1" using assms(1) T by auto
  then have a: "0 \<le> ?a" "?a \<le> 1" by (auto intro: rnd_nonneg rnd_le_fix)
  have al: "fdiv_nz (Fin r) takeoffRampTime_s = Fin ?a"
    unfolding Tf using a T big_bound[of "\<bar>?a\<bar>"] by (auto simp: fdiv_nz_def intro: f64_small)
  let ?b = "rnd (1 - ?a)"
  have b: "0 \<le> ?b" "?b \<le> 1" using a by (auto intro: rnd_nonneg rnd_le_fix)
  have be: "\<bar>?b - (1 - ?a)\<bar> \<le> 1 / 2 ^ 53" using rnd_error[of "1 - ?a" 0] a by simp
  let ?x = "rnd (?b * 1020)" and ?y = "rnd (?a * 1250)"
  have x0: "0 \<le> ?b * 1020" "?b * 1020 \<le> 1020" "0 \<le> ?a * 1250" "?a * 1250 \<le> 1250" using a b by auto
  then have x: "0 \<le> ?x" "?x \<le> 1020" "0 \<le> ?y" "?y \<le> 1250" by (auto intro: rnd_nonneg rnd_le_fix)
  have xe: "\<bar>?x - ?b * 1020\<bar> \<le> 2 ^ 11 / 2 ^ 53" "\<bar>?y - ?a * 1250\<bar> \<le> 2 ^ 11 / 2 ^ 53"
    using x0 by (intro rnd_error; simp)+
  have small: "(1::real) / 2 ^ 53 \<le> 1 / 100000" "(2::real) ^ 11 / 2 ^ 53 \<le> 1 / 100000" by simp_all
  have b3: "\<bar>?b - (1 - ?a)\<bar> \<le> 1 / 100000" "\<bar>?x - ?b * 1020\<bar> \<le> 1 / 100000" "\<bar>?y - ?a * 1250\<bar> \<le> 1 / 100000"
    using be xe small by (blast intro: order_trans)+
  have "1020 - 1 / 4 \<le> ?x + ?y" "?x + ?y \<le> 1250 + 1 / 4"
    using b3[unfolded abs_le_iff] a by argo+
  moreover have "rnd (1020 - 1 / 4) = 1020 - 1 / 4" by (rule rnd_fraction[of 4079 2]) simp_all
  moreover have "rnd (1250 + 1 / 4) = 1250 + 1 / 4" by (rule rnd_fraction[of 5001 2]) simp_all
  ultimately have s: "1020 - 1 / 4 \<le> rnd (?x + ?y)" "rnd (?x + ?y) \<le> 1250 + 1 / 4"
    by (metis rnd_mono)+
  have "takeoff_ramp (Fin r) = Fin (rnd (?x + ?y))"
    using al b x s big_bound[of "\<bar>?b\<bar>"] big_bound[of "\<bar>?x\<bar>"] big_bound[of "\<bar>?y\<bar>"] big_bound[of "\<bar>rnd (?x + ?y)\<bar>"]
    by (simp add: takeoff_ramp_def fsub_def fc_int_def fc_consts f64_small)
  moreover have "1019 \<le> \<lfloor>rnd (?x + ?y)\<rfloor>" "\<lfloor>rnd (?x + ?y)\<rfloor> \<le> 1250" using s by (simp_all add: le_floor_iff floor_le_iff)
  ultimately show ?thesis using s by auto
qed

lemma fsub_le_self:
  assumes "is_f64 a" "fle (Fin 0) b" "fle b a" "isfinite a"
  obtains r where "fsub a b = Fin r" "0 \<le> r"
proof -
  obtain x y where xy: "a = Fin x" "b = Fin y" "0 \<le> y" "y \<le> x" using assms(2-4) by (cases a; cases b) auto
  have "rnd x = x" "\<bar>x\<bar> < f64_limit" using assms(1) xy by auto
  moreover have "0 \<le> rnd (x - y)" using xy by (intro rnd_nonneg) simp
  moreover have "rnd (x - y) \<le> rnd x" using xy by (intro rnd_mono) simp
  ultimately have "f64 (x - y) = Fin (rnd (x - y))" by (intro f64_small) auto
  then show thesis using that \<open>0 \<le> rnd (x - y)\<close> xy by (simp add: fsub_def)
qed

text \<open>The time since the end of the spool-up, which is never negative and never NaN.\<close>

lemma ramp_time:
  assumes "is_f64 t" "fle (Fin 0) t" "\<not> flt t takeoffSpoolTime_s"
  shows "fsub t takeoffSpoolTime_s = PInf \<or> (\<exists>r. fsub t takeoffSpoolTime_s = Fin r \<and> 0 \<le> r)"
proof -
  let ?S = "rnd (4 / 5)"
  have S: "1 / 2 \<le> ?S" "?S \<le> 1" by (rule rnd_ge_fix, simp_all)+ (rule rnd_le_fix, simp_all)
  then have Sf: "takeoffSpoolTime_s = Fin ?S"
    using big_bound[of "\<bar>?S\<bar>"] by (auto simp: takeoffSpoolTime_s_def intro: f64_small)
  show ?thesis
  proof (cases t)
    case (Fin x)
    then obtain r where "fsub t takeoffSpoolTime_s = Fin r" "0 \<le> r"
      using fsub_le_self[of t takeoffSpoolTime_s] assms S unfolding Sf by auto
    then show ?thesis by simp
  qed (use assms(2) in \<open>simp_all add: Sf fsub_def\<close>)
qed

lemma ramp_throttle:
  assumes "is_f64 t" "fle (Fin 0) t" "\<not> flt t takeoffSpoolTime_s"
    and "flt (fsub t takeoffSpoolTime_s) takeoffRampTime_s"
  shows "1019 \<le> u16_of (takeoff_ramp (fsub t takeoffSpoolTime_s)) \<and>
    u16_of (takeoff_ramp (fsub t takeoffSpoolTime_s)) \<le> 1250"
  using ramp_time[OF assms(1-3)]
proof
  assume "fsub t takeoffSpoolTime_s = PInf"
  then have "flt PInf (f64 (8 / 5))" using assms(4) by (simp add: takeoffRampTime_s_def)
  moreover have "f64 (8 / 5) \<noteq> PInf" using f64_bounded[of "8 / 5" 1] by auto
  ultimately show ?thesis by (cases "f64 (8 / 5)") simp_all
next
  assume "\<exists>r. fsub t takeoffSpoolTime_s = Fin r \<and> 0 \<le> r"
  then show ?thesis using takeoff_ramp_range assms(4) by auto
qed

lemma fc_ok_runTakeoffMode [inv_intros]:
  assumes "fc_ok s" "fle (Fin 0) dt"
  shows "fc_ok (runTakeoffMode dt s)"
proof (cases "hoverThrottle s = 0")
  case True
  then show ?thesis using assms by (simp add: runTakeoffMode_def fc_ok_runLandSafelyMode fc_ok_setControlMode)
next
  case False
  let ?s1 = "takeoff_start s"
  let ?s2 = "?s1\<lparr> takeoffTimer_s := fadd (takeoffTimer_s ?s1) dt \<rparr>"
  let ?s3 = "centre_sticks (setAltHold True (setAngleMode True (setArm True (set_tracking_state TS_Searching ?s2))))"
  have ok1: "fc_ok ?s1" using assms(1) by (auto simp: takeoff_start_def fc_ok_defs)
  then have nn: "fle (Fin 0) (fadd (takeoffTimer_s ?s1) dt)" using assms(2) fadd_nonneg by (simp add: fc_ok_def)
  then have ok2: "fc_ok ?s2" using ok1 by (simp add: fc_ok_defs)
  have ok3: "fc_ok ?s3" by (intro fc_ok_setters ok2)
  have t: "takeoffTimer_s ?s3 = fadd (takeoffTimer_s ?s1) dt" by (simp add: fc_setters)
  have ramp: "rc_in (u16_of (takeoff_ramp (fsub (takeoffTimer_s ?s3) takeoffSpoolTime_s)))"
    if "\<not> flt (takeoffTimer_s ?s3) takeoffSpoolTime_s"
      "flt (fsub (takeoffTimer_s ?s3) takeoffSpoolTime_s) takeoffRampTime_s"
    using ramp_throttle[of "takeoffTimer_s ?s3"] that nn unfolding t by (simp add: rc_in_def rc_consts)
  have h: "hoverThrottle ?s3 = 0 \<or> rc_in (hoverThrottle ?s3)"
    using ok3 by (intro hover_rc) (simp add: fc_ok_def)
  show ?thesis using False ok3 ramp h
    by (simp add: runTakeoffMode_def Let_def fc_ok_throttle fc_ok_setControlMode)
      (simp add: fc_consts rc_in_def fc_ok_throttle)
qed

lemma fc_ok_hover_states [inv_intros]:
  assumes "fc_ok s"
  shows "fc_ok (runHoverSearchState s)" "fc_ok (runHoverStillState ts s)"
proof -
  let ?s1 = "setAltHold True (setAngleMode True (set_tracking_state TS_Searching s))"
  have "on_command (\<lambda>c. c\<lparr> bf_roll := DRONE_MID, bf_pitch := DRONE_MID \<rparr>) ?s1 =
      on_command (\<lambda>c. c\<lparr> bf_roll := DRONE_MID \<rparr>) (on_command (\<lambda>c. c\<lparr> bf_pitch := DRONE_MID \<rparr>) ?s1)"
    by (simp add: on_command_def)
  moreover have "fc_ok ?s1" by (intro fc_ok_setters assms)
  ultimately show "fc_ok (runHoverSearchState s)"
    by (simp add: runHoverSearchState_def Let_def fc_ok_axes fc_ok_commands)
  show "fc_ok (runHoverStillState ts s)"
    unfolding runHoverStillState_def Let_def by (intro fc_ok_commands fc_ok_setters assms)
qed

lemma fc_ok_runFollowTargetLogic [inv_intros]:
  assumes "fc_ok s"
  shows "fc_ok (runFollowTargetLogic s)"
proof -
  let ?s1 = "commandAltHoldDelta (Fin 0) s"
  have ok1: "fc_ok ?s1" using assms by (rule fc_ok_commands)
  then have h: "hoverThrottle ?s1 = 0 \<or> rc_in (hoverThrottle ?s1)" by (intro hover_rc) (simp add: fc_ok_def)
  show ?thesis unfolding runFollowTargetLogic_def Let_def
    by (auto intro!: fc_ok_commands fc_ok_setters fc_ok_axes fc_ok_throttle ok1 h)
qed

lemma fc_ok_runTrackingMode [inv_intros]:
  assumes "fc_ok s" "fle (Fin 0) dt"
  shows "fc_ok (runTrackingMode dt s)"
  using assms
  by (auto simp: runTrackingMode_def runFollowTargetState_def fc_ok_runLandSafelyMode fc_ok_setControlMode
      fc_ok_hover_states fc_ok_runFollowTargetLogic fc_ok_setters split: tracking_state.split)

lemma fc_ok_updateTimeStep [inv_intros]:
  assumes "fc_ok s"
  shows "fc_ok (snd (updateTimeStep dt s))"
proof -
  let ?d = "control_dt dt"
  have b: "fc_ok (begin_step ?d s)" unfolding begin_step_def by (rule fc_ok_setters(7)[OF assms])
  have "fc_ok (run_mode ?d (begin_step ?d s))"
    using b by (auto simp: run_mode_def runManualMode_def fc_ok_setters fc_ok_runTrackingMode
        fc_ok_runLandSafelyMode fc_ok_runTakeoffMode split: control_mode.split)
  moreover have "fc_ok (finish_step x)" if "fc_ok x" for x
    using that by (simp add: finish_step_def Let_def fc_ok_clampCommandChannels fc_ok_setters fc_ok_throttle)
  ultimately show ?thesis by (simp add: updateTimeStep_def Let_def)
qed

subsection \<open>Any sequence of calls\<close>

datatype fc_call =
  Fc_setControlMode control_mode
| Fc_setUserParams user_params
| Fc_setTrackingConfig tracking_config
| Fc_setHoverThrottle int
| Fc_updateTracking tracking_message
| Fc_setDistances pyfloat pyfloat pyfloat
| Fc_setOrientationDeg pyfloat pyfloat pyfloat
| Fc_setAltitudeMeters pyfloat
| Fc_setManualSetpoints bf_command
| Fc_setArm bool
| Fc_setAngleMode bool
| Fc_setAltHold bool
| Fc_commandForward pyfloat
| Fc_commandYawRate pyfloat
| Fc_commandAltHoldDelta pyfloat
| Fc_updateTimeStep pyfloat

fun fc_step :: "fc_state \<Rightarrow> fc_call \<Rightarrow> fc_state" where
  "fc_step s (Fc_setControlMode m) = setControlMode m s"
| "fc_step s (Fc_setUserParams p) = setUserParams p s"
| "fc_step s (Fc_setTrackingConfig c) = setTrackingConfig c s"
| "fc_step s (Fc_setHoverThrottle h) = setHoverThrottle h s"
| "fc_step s (Fc_updateTracking m) = updateTracking m s"
| "fc_step s (Fc_setDistances a b c) = setDistances a b c s"
| "fc_step s (Fc_setOrientationDeg a b c) = setOrientationDeg a b c s"
| "fc_step s (Fc_setAltitudeMeters a) = setAltitudeMeters a s"
| "fc_step s (Fc_setManualSetpoints c) = setManualSetpoints c s"
| "fc_step s (Fc_setArm b) = setArm b s"
| "fc_step s (Fc_setAngleMode b) = setAngleMode b s"
| "fc_step s (Fc_setAltHold b) = setAltHold b s"
| "fc_step s (Fc_commandForward v) = commandForward v s"
| "fc_step s (Fc_commandYawRate v) = commandYawRate v s"
| "fc_step s (Fc_commandAltHoldDelta v) = commandAltHoldDelta v s"
| "fc_step s (Fc_updateTimeStep dt) = snd (updateTimeStep dt s)"

fun call_ok :: "fc_call \<Rightarrow> bool" where
  "call_ok (Fc_setUserParams p) = params_ok p"
| "call_ok _ = True"

lemma fc_ok_new [inv_intros]: "fc_ok new_fc_state"
  by (simp add: new_fc_state_def clampCommandChannels_def clamp_channels_def fc_ok_defs on_command_def
      new_bf_command_def u16_clamp_def new_user_params_def params_ok_def fc_consts big_bound)

lemma fc_ok_step:
  assumes "fc_ok s" "call_ok c"
  shows "fc_ok (fc_step s c)"
proof (cases c)
  case (Fc_setManualSetpoints cmd)
  then show ?thesis using fc_ok_clamped[OF assms(1), of cmd] by (simp add: setManualSetpoints_def)
next
  case (Fc_setHoverThrottle h)
  then show ?thesis using assms(1) u16_clamp_range[of 1000 1800 h]
    by (auto simp: setHoverThrottle_def fc_ok_defs fc_consts)
next
  case (Fc_updateTracking m)
  then show ?thesis using assms(1) by (simp add: updateTracking_def Let_def fc_ok_defs on_telemetry_def)
next
  case (Fc_setUserParams p)
  then show ?thesis using assms by (simp add: setUserParams_def fc_ok_defs)
next
  case (Fc_setTrackingConfig p)
  then show ?thesis using assms by (simp add: setTrackingConfig_def fc_ok_defs)
qed (use assms in \<open>simp_all add: inv_intros setDistances_def setOrientationDeg_def setAltitudeMeters_def\<close>)

lemma fc_ok_run: "list_all call_ok cs \<Longrightarrow> fc_ok s \<Longrightarrow> fc_ok (run fc_step s cs)"
  using run_invariant_on[of fc_ok cs fc_step s] fc_ok_step by (auto simp: list_all_iff)

definition channels_safe :: "bf_command \<Rightarrow> bool" where
  \<comment> \<open>what may go to the motors: every channel in range, and no throttle unless armed\<close>
  "channels_safe c = (sticks_ok c \<and> rc_in (bf_throttle c) \<and> (\<not> is_armed c \<longrightarrow> bf_throttle c = DRONE_MIN))"

lemma clamp_sticks_id: "sticks_ok c \<Longrightarrow> clamp_channels c = c\<lparr> bf_throttle := u16_clamp (bf_throttle c) DRONE_MIN DRONE_MAX \<rparr>"
  by (simp add: clamp_channels_def sticks_ok_def rc_in_def u16_clamp_def rc_consts)

lemma step_channels_safe: "channels_safe (fst (updateTimeStep dt s))"
proof -
  have a: "bf_aux1 (clamp_channels c) > 1500 \<longleftrightarrow> bf_aux1 c > 1500" for c
    by (simp add: clamp_channels_def u16_clamp_def rc_consts)
  have "channels_safe (currentCommand (finish_step x))" for x
    using u16_clamp_range[of 1000 2000]
    by (simp add: finish_step_def Let_def clampCommandChannels_def fc_setters channels_safe_def
        clamp_channels_def sticks_ok_def rc_in_def is_armed_def rc_consts) (simp add: u16_clamp_def)
  then show ?thesis by (simp add: updateTimeStep_def Let_def)
qed

end
