(* ===== verification/Flight_Missions.thy ===== *)
theory Flight_Missions
  imports Flight_Modes
begin

section \<open>Landing, takeoff and following, over many ticks\<close>

text \<open>
  What a sequence of control ticks does in each mode: a landing descends and ends disarmed, a
  takeoff follows its throttle profile and ends in tracking mode, and tracking steers only towards a valid target. The main
  loop's tick length is whatever the clock gave, so the statements count the ticks that are at
  least 1/64 s long and let the others be arbitrary, even NaN.
\<close>

definition fc_tick :: "fc_state \<Rightarrow> pyfloat \<Rightarrow> fc_state" where
  "fc_tick s dt = snd (updateTimeStep dt s)"

fun tick_commands :: "fc_state \<Rightarrow> pyfloat list \<Rightarrow> bf_command list" where
  \<comment> \<open>the commands successive ticks return\<close>
  "tick_commands s [] = []"
| "tick_commands s (dt # dts) = fst (updateTimeStep dt s) # tick_commands (fc_tick s dt) dts"

definition long_tick :: "pyfloat \<Rightarrow> bool" where
  "long_tick dt = (fle (Fin (1 / 64)) dt \<and> isfinite dt)"

definition long_ticks :: "pyfloat list \<Rightarrow> nat" where
  "long_ticks dts = length (filter long_tick dts)"

lemma long_ticks_simps [simp]:
  "long_ticks [] = 0"
  "long_ticks (dt # dts) = (if long_tick dt then Suc (long_ticks dts) else long_ticks dts)"
  by (simp_all add: long_ticks_def)

lemma fst_updateTimeStep: "fst (updateTimeStep dt s) = currentCommand (fc_tick s dt)"
  by (simp add: fc_tick_def updateTimeStep_def Let_def)

lemma fc_ok_tick: "fc_ok s \<Longrightarrow> fc_ok (fc_tick s dt)"
  by (simp add: fc_tick_def fc_ok_updateTimeStep)

lemma fc_ok_ticks: "fc_ok s \<Longrightarrow> fc_ok (run fc_tick s dts)"
  by (rule run_invariant) (auto intro: fc_ok_tick)

text \<open>A clock that is at least \<open>k / 64\<close> s reaches \<open>(k + 1) / 64\<close> s in a long tick.\<close>

lemma clock_advances:
  assumes "fle (Fin (real k / 64)) t" "k \<le> 2 ^ 20" "long_tick dt"
  shows "fle (Fin (real (Suc k) / 64)) (fadd t (control_dt dt))"
proof -
  have e: "real (Suc k) / 64 = real k / 64 + 1 / 64" by (simp add: field_simps)
  have r: "rnd (real (Suc k) / 64) = real (Suc k) / 64"
    using assms(2) by (intro rnd_fraction[of "int (Suc k)" 6]) simp_all
  have b: "\<bar>real (Suc k) / 64\<bar> \<le> 2 ^ 60"
    using assms(2) of_nat_le_iff[of k "2 ^ 20", where 'a = real] by simp
  have "fle (Fin (1 / 64)) (control_dt dt)" using assms(3) control_dt_lower by (simp add: long_tick_def)
  then show ?thesis using fadd_lower[OF assms(1)] r b unfolding e by blast
qed

lemma clock_keeps:
  assumes "fle (Fin 0) t" "is_f64 t"
  shows "fle t (fadd t (control_dt dt))"
proof -
  obtain d where d: "control_dt dt = Fin d" "0 \<le> d" by (rule control_dt_range[of dt])
  show ?thesis
  proof (cases t)
    case (Fin x)
    then show ?thesis using assms(2) d f64_mono[of x "x + d"] f64_is_f64[of x] by simp
  qed (use assms d in simp_all)
qed

subsection \<open>The channels after a tick\<close>

lemma finish_step_command:
  "currentCommand (finish_step s) = clamp_channels
     (if is_armed (currentCommand s) then currentCommand s else (currentCommand s)\<lparr> bf_throttle := DRONE_MIN \<rparr>)"
  by (simp add: finish_step_def Let_def clampCommandChannels_def fc_setters)

lemma finish_step_frame:
  "controlMode (finish_step s) = controlMode s" "landTimer_s (finish_step s) = landTimer_s s"
  "landSafelyInitialized (finish_step s) = landSafelyInitialized s"
  "landStartThrottle (finish_step s) = landStartThrottle s"
  "takeoffInitialized (finish_step s) = takeoffInitialized s"
  "takeoffTimer_s (finish_step s) = takeoffTimer_s s" "hoverThrottle (finish_step s) = hoverThrottle s"
  "td_tracking_state (telemetryData (finish_step s)) = td_tracking_state (telemetryData s)"
  "td_timestamp_s (telemetryData (finish_step s)) = td_timestamp_s (telemetryData s)"
  by (simp_all add: finish_step_def Let_def clampCommandChannels_def fc_setters)

lemma begin_step_frame:
  "controlMode (begin_step d s) = controlMode s" "landTimer_s (begin_step d s) = landTimer_s s"
  "landSafelyInitialized (begin_step d s) = landSafelyInitialized s"
  "landStartThrottle (begin_step d s) = landStartThrottle s"
  "takeoffInitialized (begin_step d s) = takeoffInitialized s"
  "takeoffTimer_s (begin_step d s) = takeoffTimer_s s" "hoverThrottle (begin_step d s) = hoverThrottle s"
  "currentCommand (begin_step d s) = currentCommand s" "trackingConfig (begin_step d s) = trackingConfig s"
  "userParams (begin_step d s) = userParams s" "lastTrackingMsg (begin_step d s) = lastTrackingMsg s"
  "lastTrackingUpdateTime_s (begin_step d s) = lastTrackingUpdateTime_s s"
  by (simp_all add: begin_step_def on_telemetry_def)

lemma clamp_channels_armed: "is_armed (clamp_channels c) = is_armed c"
  by (simp add: is_armed_def clamp_channels_def u16_clamp_def rc_consts)

subsection \<open>Landing\<close>

definition ramp_at :: "int \<Rightarrow> pyfloat \<Rightarrow> int" where
  "ramp_at start t = u16_of (fclamp (fsub (fc_int start) (fmul kLandRampRateUsPerS t))
     (fc_int kMinLandThrottle) (fc_int DRONE_MAX))"

lemma ramp_at_range:
  "fle (Fin 0) t \<Longrightarrow> 1030 \<le> b \<Longrightarrow> b \<le> 2000 \<Longrightarrow> 1030 \<le> ramp_at b t \<and> ramp_at b t \<le> b"
  using ramp_below_start[of t b] land_throttle[of "fsub (fc_int b) (fmul kLandRampRateUsPerS t)" b]
  by (auto simp: ramp_at_def)

lemma fmul_50_mono: "fle (Fin 0) t \<Longrightarrow> fle t t' \<Longrightarrow> fle (fmul (Fin 50) t) (fmul (Fin 50) t')"
proof (cases t; cases t')
  fix a b assume "fle t t'" "t = Fin a" "t' = Fin b"
  then show ?thesis using f64_mono[of "50 * a" "50 * b"] by simp
next
  fix a assume "t = Fin a" "t' = PInf"
  then show ?thesis by (cases "50 * a" rule: f64_cases) simp_all
qed simp_all

lemma fsub_anti: "fle m m' \<Longrightarrow> fle (fsub (Fin b) m') (fsub (Fin b) m)"
proof (cases m; cases m')
  fix x y assume "fle m m'" "m = Fin x" "m' = Fin y"
  then show ?thesis using f64_mono[of "b - y" "b - x"] by (simp add: fsub_def)
next
  fix x assume "m = Fin x" "m' = PInf"
  then show ?thesis by (cases "b - x" rule: f64_cases) (simp_all add: fsub_def)
next
  fix y assume "m = NInf" "m' = Fin y"
  then show ?thesis by (cases "b - y" rule: f64_cases) (simp_all add: fsub_def)
qed (simp_all add: fsub_def)

lemma clamped_u16_mono:
  assumes "fle x y" "0 \<le> l" "l \<le> h"
  shows "u16_of (fclamp x (Fin l) (Fin h)) \<le> u16_of (fclamp y (Fin l) (Fin h))"
proof -
  have nn: "x \<noteq> NaN" "y \<noteq> NaN" using assms(1) by auto
  obtain a where a: "fclamp x (Fin l) (Fin h) = Fin a" "l \<le> a" "a \<le> h" using fclamp_bounded[OF assms(3) nn(1)] .
  obtain b where b: "fclamp y (Fin l) (Fin h) = Fin b" "l \<le> b" "b \<le> h" using fclamp_bounded[OF assms(3) nn(2)] .
  have "a \<le> b"
    using assms(1,3) a b by (cases x; cases y) (auto simp: fclamp_def split: if_splits)
  then show ?thesis using a b assms(2) floor_mono[of a b] by simp
qed

lemma ramp_at_anti:
  assumes "fle (Fin 0) t" "fle t t'"
  shows "ramp_at b t' \<le> ramp_at b t"
  unfolding ramp_at_def fc_consts fc_int_def
  using clamped_u16_mono[OF fsub_anti[OF fmul_50_mono[OF assms]], of 1030 2000 "of_int b"] by simp

text \<open>One tick of the landing mode.\<close>

definition landed :: "fc_state \<Rightarrow> bool" where
  "landed s = (\<not> is_armed (currentCommand s) \<and> bf_throttle (currentCommand s) = DRONE_MIN)"

definition descending :: "fc_state \<Rightarrow> bool" where
  \<comment> \<open>armed, with the throttle of the ramp at the landing clock\<close>
  "descending s = (is_armed (currentCommand s) \<and> landSafelyInitialized s \<and>
     bf_throttle (currentCommand s) = ramp_at (landStartThrottle s) (landTimer_s s) \<and>
     bf_roll (currentCommand s) = DRONE_MID \<and> bf_pitch (currentCommand s) = DRONE_MID \<and>
     bf_yaw (currentCommand s) = DRONE_MID)"

definition land_clock :: "fc_state \<Rightarrow> pyfloat" where
  "land_clock s = (if landSafelyInitialized s then landTimer_s s else Fin 0)"

lemma land_tick:
  assumes "fc_ok s" "controlMode s = CM_LandSafely"
  shows "controlMode (fc_tick s dt) = CM_LandSafely"
    and "\<not> is_armed (currentCommand s) \<Longrightarrow> landed (fc_tick s dt)"
    and "is_armed (currentCommand s) \<Longrightarrow> fle kDisarmTimeS (fadd (land_clock s) (control_dt dt)) \<Longrightarrow>
      landed (fc_tick s dt)"
    and "is_armed (currentCommand s) \<Longrightarrow> \<not> fle kDisarmTimeS (fadd (land_clock s) (control_dt dt)) \<Longrightarrow>
      descending (fc_tick s dt) \<and> landTimer_s (fc_tick s dt) = fadd (land_clock s) (control_dt dt) \<and>
      landStartThrottle (fc_tick s dt) = landStartThrottle (land_start s)"
proof -
  let ?d = "control_dt dt"
  let ?b = "begin_step ?d s"
  have t: "fc_tick s dt = finish_step (runLandSafelyMode ?d ?b)"
    by (simp add: fc_tick_def updateTimeStep_def run_mode_def begin_step_frame assms(2) Let_def)
  have ls: "controlMode (land_start ?b) = CM_LandSafely" "currentCommand (land_start ?b) = currentCommand s"
    "landTimer_s (land_start ?b) = land_clock s" "landStartThrottle (land_start ?b) = landStartThrottle (land_start s)"
    "landSafelyInitialized (land_start ?b)"
    using assms(2) by (simp_all add: land_start_def begin_step_frame land_clock_def)
  show "controlMode (fc_tick s dt) = CM_LandSafely"
    unfolding t finish_step_frame by (simp add: runLandSafelyMode_def Let_def fc_setters ls)
  show "landed (fc_tick s dt)" if "\<not> is_armed (currentCommand s)"
    using that unfolding t landed_def finish_step_command
    by (simp add: runLandSafelyMode_def Let_def fc_setters ls clamp_channels_armed)
      (simp add: is_armed_def clamp_channels_def u16_clamp_def rc_consts)
  show "landed (fc_tick s dt)" if "is_armed (currentCommand s)" "fle kDisarmTimeS (fadd (land_clock s) ?d)"
    using that unfolding t landed_def finish_step_command
    by (simp add: runLandSafelyMode_def Let_def fc_setters ls)
      (simp add: is_armed_def clamp_channels_def u16_clamp_def rc_consts)
  show "descending (fc_tick s dt) \<and> landTimer_s (fc_tick s dt) = fadd (land_clock s) ?d \<and>
      landStartThrottle (fc_tick s dt) = landStartThrottle (land_start s)"
    if "is_armed (currentCommand s)" "\<not> fle kDisarmTimeS (fadd (land_clock s) ?d)"
  proof -
    let ?st = "landStartThrottle (land_start s)" and ?t = "fadd (land_clock s) ?d"
    have st: "1030 \<le> ?st" "?st \<le> 2000"
      using land_start_min[OF assms(1)] fc_ok_land_start[OF assms(1)] by (auto simp: fc_ok_def rc_in_def fc_consts)
    have "fle (Fin 0) (land_clock s)" using assms(1) by (simp add: land_clock_def fc_ok_def)
    then have r: "1030 \<le> ramp_at ?st ?t" "ramp_at ?st ?t \<le> 2000"
      using ramp_at_range[OF fadd_nonneg, of "land_clock s" ?d ?st] st by auto
    have e: "runLandSafelyMode ?d ?b = set_throttle (ramp_at ?st ?t)
        (centre_sticks (setAngleMode True (setAltHold False
          ((set_tracking_state TS_Searching (land_start ?b))\<lparr> landTimer_s := ?t \<rparr>))))"
      using that by (simp add: runLandSafelyMode_def Let_def fc_setters ls ramp_at_def)
    show ?thesis
      using that r unfolding t e descending_def finish_step_command finish_step_frame
      by (simp add: fc_setters ls is_armed_def)
        (simp add: clamp_channels_def u16_clamp_def rc_consts)
  qed
qed

lemma landed_tick: "fc_ok s \<Longrightarrow> controlMode s = CM_LandSafely \<Longrightarrow> landed s \<Longrightarrow> landed (fc_tick s dt)"
  using land_tick(2) by (simp add: landed_def)

lemma land_mode_run:
  "fc_ok s \<Longrightarrow> controlMode s = CM_LandSafely \<Longrightarrow> controlMode (run fc_tick s dts) = CM_LandSafely"
  by (induction dts arbitrary: s) (simp_all add: land_tick(1) fc_ok_tick)

lemma landed_run:
  "fc_ok s \<Longrightarrow> controlMode s = CM_LandSafely \<Longrightarrow> landed s \<Longrightarrow> landed (run fc_tick s dts)"
  by (induction dts arbitrary: s) (simp_all add: land_tick(1) landed_tick fc_ok_tick)

lemma land_clock_ok: "fc_ok s \<Longrightarrow> fle (Fin 0) (land_clock s) \<and> is_f64 (land_clock s)"
  by (simp add: land_clock_def fc_ok_def big_bound)

lemma descending_clock: "descending s \<Longrightarrow> land_clock s = landTimer_s s"
  by (simp add: descending_def land_clock_def)

lemma land_settles:
  assumes "fc_ok s" "controlMode s = CM_LandSafely"
  shows "landed (fc_tick s dt) \<or>
    (is_armed (currentCommand s) \<and> descending (fc_tick s dt) \<and>
     landTimer_s (fc_tick s dt) = fadd (land_clock s) (control_dt dt) \<and>
     \<not> fle kDisarmTimeS (landTimer_s (fc_tick s dt)) \<and>
     landStartThrottle (fc_tick s dt) = landStartThrottle (land_start s))"
  using land_tick[OF assms, of dt] by metis

lemma land_run:
  assumes "fc_ok s" "controlMode s = CM_LandSafely" "fle (Fin (real k / 64)) (land_clock s)"
    and "320 \<le> k + long_ticks dts" "0 < long_ticks dts"
  shows "landed (run fc_tick s dts)"
  using assms
proof (induction dts arbitrary: s k)
  case (Cons dt dts)
  let ?s = "fc_tick s dt"
  note ok = fc_ok_tick[OF Cons.prems(1)] and md = land_tick(1)[OF Cons.prems(1,2)]
  show ?case
  proof (cases "landed ?s")
    case True
    then show ?thesis using landed_run ok md by simp
  next
    case False
    let ?t = "fadd (land_clock s) (control_dt dt)"
    have d: "descending ?s" "landTimer_s ?s = ?t" "\<not> fle kDisarmTimeS ?t"
      using land_settles[OF Cons.prems(1,2), of dt] False by auto
    have c: "land_clock ?s = ?t" using d descending_clock by simp
    have "fle (land_clock s) ?t" using clock_keeps land_clock_ok[OF Cons.prems(1)] by simp
    then have keep: "fle (Fin (real k / 64)) ?t" using Cons.prems(3) fle_trans by blast
    have k: "k < 320"
    proof (rule ccontr)
      assume "\<not> k < 320"
      then have "fle (Fin 5) (Fin (real k / 64))" by simp
      then show False using keep d(3) fle_trans fc_consts(7) by metis
    qed
    show ?thesis
    proof (cases "long_tick dt")
      case True
      have adv: "fle (Fin (real (Suc k) / 64)) ?t"
        using clock_advances[OF Cons.prems(3) _ True] k by simp
      have "Suc k < 320"
      proof (rule ccontr)
        assume "\<not> Suc k < 320"
        then have "fle (Fin 5) (Fin (real (Suc k) / 64))" using k by simp
        then show False using adv d(3) fle_trans fc_consts(7) by metis
      qed
      then show ?thesis using Cons.IH[OF ok md, of "Suc k"] adv c Cons.prems(4) True by simp
    next
      case False
      then show ?thesis using Cons.IH[OF ok md, of k] keep c Cons.prems(4,5) by simp
    qed
  qed
qed simp

lemma land_descends:
  assumes "fc_ok s" "controlMode s = CM_LandSafely" "landed s \<or> descending s"
  shows "bf_throttle (currentCommand (fc_tick s dt)) \<le> bf_throttle (currentCommand s)"
proof (cases "landed (fc_tick s dt)")
  case True
  have "1000 \<le> bf_throttle (currentCommand s)"
  proof (cases "landed s")
    case False
    then have d: "descending s" using assms(3) by simp
    then have "1030 \<le> landStartThrottle s" "landStartThrottle s \<le> 2000" "fle (Fin 0) (landTimer_s s)"
      using assms(1) by (auto simp: descending_def fc_ok_def fc_consts rc_in_def)
    then show ?thesis using ramp_at_range[of "landTimer_s s" "landStartThrottle s"] d by (simp add: descending_def)
  qed (simp add: landed_def rc_consts)
  then show ?thesis using True by (simp add: landed_def rc_consts)
next
  case False
  then have t: "is_armed (currentCommand s)" "descending (fc_tick s dt)"
    "landTimer_s (fc_tick s dt) = fadd (land_clock s) (control_dt dt)"
    "landStartThrottle (fc_tick s dt) = landStartThrottle (land_start s)"
    using land_settles[OF assms(1,2), of dt] by auto
  then have d: "descending s" using assms(3) by (auto simp: landed_def)
  have "fle (land_clock s) (fadd (land_clock s) (control_dt dt))" "fle (Fin 0) (land_clock s)"
    using clock_keeps land_clock_ok[OF assms(1)] by simp_all
  then show ?thesis using t d ramp_at_anti[of "landTimer_s s"]
    by (simp add: descending_clock[OF d]) (simp add: descending_def land_start_def)
qed

lemma land_below:
  assumes "fc_ok s" "controlMode s = CM_LandSafely" "landed s \<or> descending s"
    and "c \<in> set (tick_commands s dts)"
  shows "bf_throttle c \<le> bf_throttle (currentCommand s)"
  using assms
proof (induction dts arbitrary: s)
  case (Cons dt dts)
  let ?s = "fc_tick s dt"
  have "landed ?s \<or> descending ?s" using land_settles[OF Cons.prems(1,2)] by blast
  then have "c \<in> set (tick_commands ?s dts) \<Longrightarrow> bf_throttle c \<le> bf_throttle (currentCommand ?s)"
    using Cons.IH[OF fc_ok_tick[OF Cons.prems(1)] land_tick(1)[OF Cons.prems(1,2)]] by blast
  then show ?case using land_descends[OF Cons.prems(1-3), of dt] Cons.prems(4)
    by (auto simp: fst_updateTimeStep)
qed simp

lemma land_sorted:
  assumes "fc_ok s" "controlMode s = CM_LandSafely"
  shows "sorted_wrt (\<lambda>a b. bf_throttle b \<le> bf_throttle a) (tick_commands s dts)"
  using assms
proof (induction dts arbitrary: s)
  case (Cons dt dts)
  let ?s = "fc_tick s dt"
  note ok = fc_ok_tick[OF Cons.prems(1), of dt] and md = land_tick(1)[OF Cons.prems(1,2), of dt]
  have "landed ?s \<or> descending ?s" using land_settles[OF Cons.prems(1,2)] by blast
  then show ?case using Cons.IH[OF ok md] land_below[OF ok md] by (simp add: fst_updateTimeStep)
qed simp

lemma land_centred:
  assumes "fc_ok s" "controlMode s = CM_LandSafely" "c \<in> set (tick_commands s dts)" "is_armed c"
  shows "bf_roll c = DRONE_MID \<and> bf_pitch c = DRONE_MID \<and> bf_yaw c = DRONE_MID \<and> 1030 \<le> bf_throttle c"
  using assms
proof (induction dts arbitrary: s)
  case (Cons dt dts)
  let ?s = "fc_tick s dt"
  note ok = fc_ok_tick[OF Cons.prems(1), of dt] and md = land_tick(1)[OF Cons.prems(1,2), of dt]
  show ?case
  proof (cases "c = currentCommand ?s")
    case True
    then have d: "descending ?s" using land_settles[OF Cons.prems(1,2), of dt] Cons.prems(4) by (auto simp: landed_def)
    then have "1030 \<le> landStartThrottle ?s" "landStartThrottle ?s \<le> 2000" "fle (Fin 0) (landTimer_s ?s)"
      using ok by (auto simp: descending_def fc_ok_def fc_consts rc_in_def)
    then show ?thesis using ramp_at_range[of "landTimer_s ?s" "landStartThrottle ?s"] d True
      by (simp add: descending_def)
  next
    case False
    then show ?thesis using Cons.IH[OF ok md] Cons.prems(3,4) by (simp add: fst_updateTimeStep)
  qed
qed simp

lemma last_tick_command: "dts \<noteq> [] \<Longrightarrow> last (tick_commands s dts) = currentCommand (run fc_tick s dts)"
proof (induction dts arbitrary: s)
  case (Cons dt dts)
  then show ?case by (cases dts) (simp_all add: fst_updateTimeStep)
qed simp

definition lands_disarmed :: "bf_command list \<Rightarrow> bool" where
  \<comment> \<open>ends disarmed with the motors off, the throttle never rises, and while armed the sticks are
    centred and the throttle is not below the landing minimum\<close>
  "lands_disarmed cs = (\<not> is_armed (last cs) \<and> bf_throttle (last cs) = DRONE_MIN \<and>
    sorted_wrt (\<lambda>a b. bf_throttle b \<le> bf_throttle a) cs \<and>
    list_all (\<lambda>c. if is_armed c then bf_roll c = DRONE_MID \<and> bf_pitch c = DRONE_MID \<and>
      bf_yaw c = DRONE_MID \<and> 1030 \<le> bf_throttle c else True) cs)"

lemma land_profile:
  assumes "fc_ok s" "controlMode s = CM_LandSafely" "320 \<le> long_ticks dts"
  shows "lands_disarmed (tick_commands s dts)"
proof -
  have "fle (Fin (real 0 / 64)) (land_clock s)" using land_clock_ok[OF assms(1)] by simp
  then have "landed (run fc_tick s dts)" using land_run[OF assms(1,2), of 0 dts] assms(3) by simp
  moreover have "dts \<noteq> []" using assms(3) by auto
  ultimately show ?thesis
    using last_tick_command[of dts s] land_sorted[OF assms(1,2), of dts] land_centred[OF assms(1,2), of _ dts]
    by (simp add: lands_disarmed_def landed_def list_all_iff)
qed

text \<open>
  C10: A landing always ends disarmed. From any state the flight controller can be in, in
  landing mode, and for any tick lengths of which 320 are at least 1/64 s, the last command is
  disarmed with the motors off; on the way the throttle never rises from one tick to the next,
  and while armed the sticks are centred and the throttle is not below the landing minimum.
\<close>

theorem landing_ends_disarmed:
  assumes "list_all call_ok calls" "s = run fc_step new_fc_state calls" "controlMode s = CM_LandSafely"
    and "320 \<le> long_ticks dts"
  shows "lands_disarmed (tick_commands s dts)"
  using assms land_profile fc_ok_run[OF _ fc_ok_new] by simp

lemma long_ticks_replicate: "long_tick dt \<Longrightarrow> long_ticks (replicate n dt) = n"
  by (induction n) simp_all

theorem landing_ends_disarmed_witness:
  "controlMode (run fc_step new_fc_state [Fc_setArm True, Fc_setHoverThrottle 1400]) = CM_LandSafely \<and>
   320 \<le> long_ticks (replicate 320 (Fin (1 / 32))) \<and>
   \<not> is_armed (last (tick_commands (run fc_step new_fc_state [Fc_setArm True, Fc_setHoverThrottle 1400])
     (replicate 320 (Fin (1 / 32)))))"
proof -
  let ?cs = "[Fc_setArm True, Fc_setHoverThrottle 1400]"
  have m: "controlMode (run fc_step new_fc_state ?cs) = CM_LandSafely"
    by (simp add: new_fc_state_def clampCommandChannels_def fc_setters setHoverThrottle_def)
  have l: "long_ticks (replicate 320 (Fin (1 / 32))) = 320" by (rule long_ticks_replicate) (simp add: long_tick_def)
  show ?thesis using landing_ends_disarmed[of ?cs, OF _ refl m, of "replicate 320 (Fin (1 / 32))"] m l
    by (simp only: lands_disarmed_def) simp
qed

subsection \<open>Takeoff\<close>

lemma setControlMode_frame:
  assumes "m \<noteq> CM_Manual"
  shows "currentCommand (setControlMode m s) = currentCommand s" "controlMode (setControlMode m s) = m"
    "hoverThrottle (setControlMode m s) = hoverThrottle s"
  using assms by (simp_all add: setControlMode_def Let_def fc_setters)

definition takeoff_clock :: "fc_state \<Rightarrow> pyfloat" where
  "takeoff_clock s = (if takeoffInitialized s then takeoffTimer_s s else Fin 0)"

definition takeoff_over :: "pyfloat \<Rightarrow> bool" where
  "takeoff_over t = (\<not> flt t takeoffSpoolTime_s \<and> \<not> flt (fsub t takeoffSpoolTime_s) takeoffRampTime_s \<and>
     flt (fadd takeoffRampTime_s takeoffHoldTime_s) (fsub t takeoffSpoolTime_s))"

definition takeoff_command :: "int \<Rightarrow> bf_command \<Rightarrow> bool" where
  "takeoff_command hover c = (is_armed c \<and> bf_roll c = DRONE_MID \<and> bf_pitch c = DRONE_MID \<and>
     bf_yaw c = DRONE_MID \<and> bf_aux2 c = DRONE_AUX_MAX \<and> bf_aux3 c = DRONE_AUX_MAX \<and>
     (1019 \<le> bf_throttle c \<and> bf_throttle c \<le> 1250 \<or> bf_throttle c = hover))"

definition takeoff_profile :: "int \<Rightarrow> pyfloat \<Rightarrow> int" where
  \<comment> \<open>specification: the throttle at a time on the takeoff clock. For 0.8 s the rotors spool up at 1020,
    for the next 1.6 s the throttle goes linearly from 1020 to 1250, then it is the hover throttle\<close>
  "takeoff_profile hover t =
     (if flt t (f64 (4 / 5)) then 1020
      else let r = fsub t (f64 (4 / 5)); a = fdiv_nz r (f64 (8 / 5)) in
        if flt r (f64 (8 / 5)) then u16_of (fadd (fmul (fsub (Fin 1) a) (Fin 1020)) (fmul a (Fin 1250)))
        else hover)"

definition takeoff_complete :: "pyfloat \<Rightarrow> bool" where
  \<comment> \<open>specification: spool-up, ramp and one second of hovering are over\<close>
  "takeoff_complete t = (\<not> flt t (f64 (4 / 5)) \<and> \<not> flt (fsub t (f64 (4 / 5))) (f64 (8 / 5)) \<and>
     flt (fadd (f64 (8 / 5)) (Fin 1)) (fsub t (f64 (4 / 5))))"

lemma takeoff_over_complete: "takeoff_over t = takeoff_complete t"
  by (simp add: takeoff_over_def takeoff_complete_def takeoffSpoolTime_s_def takeoffRampTime_s_def takeoffHoldTime_s_def)

lemma takeoff_profile_eq:
  "takeoff_profile hover t = (if flt t takeoffSpoolTime_s then takeoffSpoolThrottle
     else if flt (fsub t takeoffSpoolTime_s) takeoffRampTime_s then u16_of (takeoff_ramp (fsub t takeoffSpoolTime_s)) else hover)"
  by (simp add: takeoff_profile_def takeoff_ramp_def takeoffSpoolTime_s_def takeoffRampTime_s_def fc_consts rc_consts fc_int_def Let_def)

lemma takeoff_tick:
  fixes dt :: pyfloat
  assumes "fc_ok s" "controlMode s = CM_Takeoff" "hoverThrottle s \<noteq> 0"
  defines "t \<equiv> fadd (takeoff_clock s) (control_dt dt)"
  shows "controlMode (fc_tick s dt) = (if takeoff_over t then CM_Tracking else CM_Takeoff)"
    and "\<not> takeoff_over t \<Longrightarrow> takeoff_clock (fc_tick s dt) = t"
    and "hoverThrottle (fc_tick s dt) = hoverThrottle s"
    and "takeoff_command (hoverThrottle s) (currentCommand (fc_tick s dt))"
    and "flt t takeoffSpoolTime_s \<Longrightarrow> bf_throttle (currentCommand (fc_tick s dt)) = takeoffSpoolThrottle"
    and "bf_throttle (currentCommand (fc_tick s dt)) = takeoff_profile (hoverThrottle s) t"
proof -
  let ?d = "control_dt dt"
  let ?b = "begin_step ?d s"
  let ?s3 = "centre_sticks (setAltHold True (setAngleMode True (setArm True (set_tracking_state TS_Searching
      ((takeoff_start ?b)\<lparr> takeoffTimer_s := t \<rparr>)))))"
  let ?r = "fsub t takeoffSpoolTime_s"
  let ?thr = "if flt t takeoffSpoolTime_s then takeoffSpoolThrottle
     else if flt ?r takeoffRampTime_s then u16_of (takeoff_ramp ?r) else hoverThrottle s"
  have ts: "takeoffTimer_s (takeoff_start ?b) = takeoff_clock s" "hoverThrottle (takeoff_start ?b) = hoverThrottle s"
    "controlMode (takeoff_start ?b) = CM_Takeoff" "takeoffInitialized (takeoff_start ?b)"
    using assms(2) by (simp_all add: takeoff_start_def takeoff_clock_def begin_step_frame)
  have e: "fc_tick s dt = finish_step (if takeoff_over t then setControlMode CM_Tracking (set_throttle ?thr ?s3)
      else set_throttle ?thr ?s3)"
    using assms(2,3) by (simp add: fc_tick_def updateTimeStep_def run_mode_def begin_step_frame Let_def
        runTakeoffMode_def fc_setters ts takeoff_over_def t_def)
  have nn: "fle (Fin 0) t" "is_f64 t"
    using assms(1) fadd_nonneg by (auto simp: t_def takeoff_clock_def fc_ok_def)
  have thr: "1019 \<le> ?thr \<and> ?thr \<le> 1250 \<or> ?thr = hoverThrottle s" "rc_in ?thr"
    using ramp_throttle[OF nn(2,1)] assms(1,3) by (auto simp: fc_consts fc_ok_def hover_ok_def rc_in_def)
  have c: "currentCommand (if takeoff_over t then setControlMode CM_Tracking (set_throttle ?thr ?s3)
      else set_throttle ?thr ?s3) = currentCommand (set_throttle ?thr ?s3)"
    by (simp add: setControlMode_frame)
  show "controlMode (fc_tick s dt) = (if takeoff_over t then CM_Tracking else CM_Takeoff)"
    unfolding e finish_step_frame by (simp add: setControlMode_frame fc_setters ts)
  show "takeoff_clock (fc_tick s dt) = t" if "\<not> takeoff_over t"
    using that unfolding e takeoff_clock_def finish_step_frame by (simp add: fc_setters ts)
  show "hoverThrottle (fc_tick s dt) = hoverThrottle s"
    unfolding e finish_step_frame by (simp add: setControlMode_frame fc_setters ts)
  show "takeoff_command (hoverThrottle s) (currentCommand (fc_tick s dt))"
    unfolding e finish_step_command c using thr
    by (simp add: fc_setters is_armed_def takeoff_command_def clamp_channels_def rc_in_def u16_clamp_def rc_consts)
  show "bf_throttle (currentCommand (fc_tick s dt)) = takeoffSpoolThrottle" if "flt t takeoffSpoolTime_s"
    unfolding e finish_step_command c using that
    by (simp add: fc_setters is_armed_def clamp_channels_def u16_clamp_def fc_consts)
  show "bf_throttle (currentCommand (fc_tick s dt)) = takeoff_profile (hoverThrottle s) t"
    unfolding e finish_step_command c takeoff_profile_eq using thr(2)
    by (simp add: fc_setters is_armed_def clamp_channels_def rc_in_def u16_clamp_def rc_consts)
qed

fun clocks_from :: "pyfloat \<Rightarrow> pyfloat list \<Rightarrow> pyfloat list" where
  \<comment> \<open>the takeoff clock at each tick\<close>
  "clocks_from t [] = []"
| "clocks_from t (dt # dts) = (let t' = fadd t (control_dt dt) in t' # clocks_from t' dts)"

fun tick_modes :: "fc_state \<Rightarrow> pyfloat list \<Rightarrow> control_mode list" where
  "tick_modes s [] = []"
| "tick_modes s (dt # dts) = controlMode (fc_tick s dt) # tick_modes (fc_tick s dt) dts"

definition takeoff_flown :: "fc_state \<Rightarrow> pyfloat list \<Rightarrow> bool" where
  \<comment> \<open>specification: these ticks fly the takeoff, each with the throttle of its time, up to the tick at
    which it is complete, the first one to leave takeoff mode, for tracking mode\<close>
  "takeoff_flown s dts = (let ts = clocks_from (takeoff_clock s) dts in
     dts \<noteq> [] \<and> map bf_throttle (tick_commands s dts) = map (takeoff_profile (hoverThrottle s)) ts \<and>
     list_all (\<lambda>t. \<not> takeoff_complete t) (butlast ts) \<and> takeoff_complete (last ts) \<and>
     tick_modes s dts = replicate (length dts - 1) CM_Takeoff @ [CM_Tracking])"

lemma takeoff_over_late:
  assumes "fle (Fin (7 / 2)) t" "is_f64 t"
  shows "takeoff_over t"
proof -
  let ?S = "rnd (4 / 5)" and ?R = "rnd (8 / 5)"
  have S: "1 / 2 \<le> ?S" by (rule rnd_ge_fix) simp_all
  have "rnd (13 / 16) = 13 / 16" by (rule rnd_fraction[of 13 4]) simp_all
  then have S2: "?S \<le> 13 / 16" by (intro rnd_le_fix) simp_all
  have R: "1 \<le> ?R" by (rule rnd_ge_fix) simp_all
  have "rnd (13 / 8) = 13 / 8" by (rule rnd_fraction[of 13 3]) simp_all
  then have R2: "?R \<le> 13 / 8" by (intro rnd_le_fix) simp_all
  have sf: "takeoffSpoolTime_s = Fin ?S" "takeoffRampTime_s = Fin ?R"
    using S S2 R R2 big_bound[of "\<bar>?S\<bar>"] big_bound[of "\<bar>?R\<bar>"]
    by (auto simp: takeoffSpoolTime_s_def takeoffRampTime_s_def intro: f64_small)
  have "rnd (21 / 8) = 21 / 8" by (rule rnd_fraction[of 21 3]) simp_all
  then have h: "rnd (?R + 1) \<le> 21 / 8" using R2 by (intro rnd_le_fix) simp_all
  have h0: "0 \<le> rnd (?R + 1)" using R by (intro rnd_nonneg) simp
  then have hold: "fadd takeoffRampTime_s takeoffHoldTime_s = Fin (rnd (?R + 1))"
    using h h0 big_bound[of "\<bar>rnd (?R + 1)\<bar>"] by (auto simp: sf takeoffHoldTime_s_def intro: f64_small)
  have r: "fle (Fin (43 / 16)) (fsub t takeoffSpoolTime_s)"
  proof (cases t)
    case (Fin x)
    have "rnd (43 / 16) = 43 / 16" by (rule rnd_fraction[of 43 4]) simp_all
    then have "f64 (43 / 16) = Fin (43 / 16)" by (intro f64_exact) simp_all
    moreover have "43 / 16 \<le> x - ?S" using assms(1) Fin S2 by simp
    ultimately show ?thesis using f64_mono[of "43 / 16" "x - ?S"] Fin by (simp add: fsub_def sf)
  qed (use assms(1) in \<open>simp_all add: fsub_def sf\<close>)
  have "\<not> flt t takeoffSpoolTime_s" using assms(1) S2 unfolding sf by (cases t) simp_all
  moreover have "\<not> flt (fsub t takeoffSpoolTime_s) takeoffRampTime_s"
    using r R2 unfolding sf(2) by (cases "fsub t takeoffSpoolTime_s") simp_all
  moreover have "flt (Fin (rnd (?R + 1))) (fsub t takeoffSpoolTime_s)"
    using r h by (cases "fsub t takeoffSpoolTime_s") simp_all
  ultimately show ?thesis unfolding takeoff_over_def hold by blast
qed

lemma takeoff_flown_Cons:
  assumes "takeoff_flown (fc_tick s dt) dts"
    and "takeoff_clock (fc_tick s dt) = fadd (takeoff_clock s) (control_dt dt)" "controlMode (fc_tick s dt) = CM_Takeoff"
    and "hoverThrottle (fc_tick s dt) = hoverThrottle s" "\<not> takeoff_over (fadd (takeoff_clock s) (control_dt dt))"
    and "bf_throttle (currentCommand (fc_tick s dt)) = takeoff_profile (hoverThrottle s) (fadd (takeoff_clock s) (control_dt dt))"
  shows "takeoff_flown s (dt # dts)"
proof -
  let ?t = "fadd (takeoff_clock s) (control_dt dt)"
  obtain d ds where d: "dts = d # ds" using assms(1) by (cases dts) (simp_all add: takeoff_flown_def Let_def)
  have "clocks_from ?t dts \<noteq> []" by (simp add: d Let_def)
  then show ?thesis using assms
    by (simp add: takeoff_flown_def fst_updateTimeStep takeoff_over_complete Let_def[of "fadd _ _"] Let_def[of "clocks_from _ _"])
      (simp add: d)
qed

lemma takeoff_run:
  assumes "fc_ok s" "controlMode s = CM_Takeoff" "hoverThrottle s \<noteq> 0"
    and "fle (Fin (real k / 64)) (takeoff_clock s)" "224 \<le> k + long_ticks dts" "0 < long_ticks dts"
  shows "\<exists>n\<le>length dts. controlMode (run fc_tick s (take n dts)) = CM_Tracking \<and>
    hoverThrottle (run fc_tick s (take n dts)) = hoverThrottle s \<and> takeoff_flown s (take n dts) \<and>
    list_all (takeoff_command (hoverThrottle s)) (tick_commands s (take n dts))"
  using assms
proof (induction dts arbitrary: s k)
  case (Cons dt dts)
  let ?s = "fc_tick s dt" and ?t = "fadd (takeoff_clock s) (control_dt dt)"
  note ok = fc_ok_tick[OF Cons.prems(1), of dt] and tk = takeoff_tick[OF Cons.prems(1-3), of dt]
  show ?case
  proof (cases "takeoff_over ?t")
    case True
    then show ?thesis using tk
      by (intro exI[of _ 1]) (simp add: fst_updateTimeStep takeoff_flown_def takeoff_over_complete Let_def)
  next
    case False
    have c: "takeoff_clock ?s = ?t" "controlMode ?s = CM_Takeoff" "hoverThrottle ?s \<noteq> 0"
      "hoverThrottle ?s = hoverThrottle s" using tk False Cons.prems(3) by auto
    have ck: "fle (Fin 0) (takeoff_clock s)" "is_f64 (takeoff_clock s)"
      using Cons.prems(1) by (auto simp: takeoff_clock_def fc_ok_def big_bound)
    have keep: "fle (Fin (real k / 64)) ?t" using clock_keeps[OF ck, of dt] Cons.prems(4) fle_trans by blast
    have late: False if "224 \<le> j" "fle (Fin (real j / 64)) ?t" for j
    proof -
      have "fle (Fin (7 / 2)) (Fin (real j / 64))" using that(1) by simp
      then show False using that(2) takeoff_over_late[of ?t] False fle_trans by fastforce
    qed
    have k: "k < 224" using late[OF _ keep] by (meson not_less)
    have more_ticks: "\<exists>j. fle (Fin (real j / 64)) ?t \<and> 224 \<le> j + long_ticks dts \<and> 0 < long_ticks dts"
    proof (cases "long_tick dt")
      case True
      then have adv: "fle (Fin (real (Suc k) / 64)) ?t" using clock_advances[OF Cons.prems(4)] k by simp
      then have "Suc k < 224" using late by (meson not_less)
      then show ?thesis using adv True Cons.prems(5) by (intro exI[of _ "Suc k"]) simp
    next
      case False
      then show ?thesis using keep Cons.prems(5,6) by (intro exI[of _ k]) simp
    qed
    then obtain j where "fle (Fin (real j / 64)) (takeoff_clock ?s)" "224 \<le> j + long_ticks dts" "0 < long_ticks dts"
      using c(1) by auto
    from Cons.IH[OF ok c(2,3) this] obtain n where "n \<le> length dts"
      "controlMode (run fc_tick ?s (take n dts)) = CM_Tracking"
      "hoverThrottle (run fc_tick ?s (take n dts)) = hoverThrottle ?s" "takeoff_flown ?s (take n dts)"
      "list_all (takeoff_command (hoverThrottle ?s)) (tick_commands ?s (take n dts))" by blast
    moreover have "takeoff_flown s (dt # take n dts)"
      using takeoff_flown_Cons[OF calculation(4)] c tk(6) False by simp
    ultimately show ?thesis using c(4) tk(4) by (intro exI[of _ "Suc n"]) (simp add: fst_updateTimeStep)
  qed
qed simp

subsection \<open>Following a target\<close>

lemma axis_frames:
  "controlMode (commandYawRate v s) = controlMode s" "hoverThrottle (commandYawRate v s) = hoverThrottle s"
  "userParams (commandYawRate v s) = userParams s" "telemetryData (commandYawRate v s) = telemetryData s"
  "bf_roll (currentCommand (commandYawRate v s)) = bf_roll (currentCommand s)"
  "bf_pitch (currentCommand (commandYawRate v s)) = bf_pitch (currentCommand s)"
  "bf_throttle (currentCommand (commandYawRate v s)) = bf_throttle (currentCommand s)"
  "bf_aux1 (currentCommand (commandYawRate v s)) = bf_aux1 (currentCommand s)"
  "controlMode (commandForward v s) = controlMode s" "hoverThrottle (commandForward v s) = hoverThrottle s"
  "userParams (commandForward v s) = userParams s" "telemetryData (commandForward v s) = telemetryData s"
  "bf_roll (currentCommand (commandForward v s)) = bf_roll (currentCommand s)"
  "bf_yaw (currentCommand (commandForward v s)) = bf_yaw (currentCommand s)"
  "bf_throttle (currentCommand (commandForward v s)) = bf_throttle (currentCommand s)"
  "bf_aux1 (currentCommand (commandForward v s)) = bf_aux1 (currentCommand s)"
  "controlMode (commandAltHoldDelta v s) = controlMode s"
  "hoverThrottle (commandAltHoldDelta v s) = hoverThrottle s"
  "userParams (commandAltHoldDelta v s) = userParams s"
  "telemetryData (commandAltHoldDelta v s) = telemetryData s"
  "bf_roll (currentCommand (commandAltHoldDelta v s)) = bf_roll (currentCommand s)"
  "bf_yaw (currentCommand (commandAltHoldDelta v s)) = bf_yaw (currentCommand s)"
  "bf_pitch (currentCommand (commandAltHoldDelta v s)) = bf_pitch (currentCommand s)"
  "bf_aux1 (currentCommand (commandAltHoldDelta v s)) = bf_aux1 (currentCommand s)"
  by (simp_all add: commandYawRate_def commandForward_def commandAltHoldDelta_def Let_def fc_setters)

lemma follow_frame: "controlMode (runFollowTargetLogic s) = controlMode s"
  "hoverThrottle (runFollowTargetLogic s) = hoverThrottle s"
  by (simp_all add: runFollowTargetLogic_def Let_def fc_setters axis_frames)

lemma tracking_mode_frame:
  assumes "hoverThrottle s \<noteq> 0"
  shows "controlMode (runTrackingMode d s) = controlMode s" "hoverThrottle (runTrackingMode d s) = hoverThrottle s"
  using assms
  by (simp_all add: runTrackingMode_def runHoverSearchState_def runHoverStillState_def runFollowTargetState_def
      Let_def fc_setters axis_frames follow_frame split: tracking_state.split)

lemma tracking_tick_frame:
  assumes "controlMode s = CM_Tracking" "hoverThrottle s \<noteq> 0"
  shows "controlMode (fc_tick s dt) = CM_Tracking" "hoverThrottle (fc_tick s dt) = hoverThrottle s"
  using assms
  by (simp_all add: fc_tick_def updateTimeStep_def Let_def run_mode_def finish_step_frame begin_step_frame
      tracking_mode_frame)

lemma tracking_run_frame:
  assumes "controlMode s = CM_Tracking" "hoverThrottle s \<noteq> 0"
  shows "controlMode (run fc_tick s dts) = CM_Tracking"
  using assms by (induction dts arbitrary: s) (simp_all add: tracking_tick_frame)

lemma takeoff_settles:
  assumes ok: "fc_ok s" and "controlMode s = CM_Takeoff" "hoverThrottle s \<noteq> 0" "224 \<le> long_ticks dts"
  shows "controlMode (run fc_tick s dts) = CM_Tracking \<and>
    (\<exists>n\<le>length dts. takeoff_flown s (take n dts) \<and>
       list_all (takeoff_command (hoverThrottle s)) (tick_commands s (take n dts)))"
proof -
  have "fle (Fin (real 0 / 64)) (takeoff_clock s)" using ok by (simp add: takeoff_clock_def fc_ok_def)
  then obtain n where n: "n \<le> length dts" "controlMode (run fc_tick s (take n dts)) = CM_Tracking"
    "hoverThrottle (run fc_tick s (take n dts)) = hoverThrottle s" "takeoff_flown s (take n dts)"
    "list_all (takeoff_command (hoverThrottle s)) (tick_commands s (take n dts))"
    using takeoff_run[OF ok assms(2,3), of 0 dts] assms(4) by auto
  have "run fc_tick s dts = run fc_tick (run fc_tick s (take n dts)) (drop n dts)"
    using run_append[of fc_tick s "take n dts" "drop n dts"] by simp
  then have "controlMode (run fc_tick s dts) = CM_Tracking"
    using tracking_run_frame[OF n(2)] n(3) assms(3) by simp
  then show ?thesis using n by blast
qed

text \<open>
  C16: A takeoff follows its profile and always ends in tracking mode. From any state the flight
  controller can be in (user parameters sane), in takeoff mode with a calibrated hover throttle, and
  for any tick lengths of which 224 are at least 1/64 s, the mode ends up as tracking. Until the tick
  at which it does, the mode is takeoff, every command is armed, level, in angle mode with altitude
  hold, and its throttle is the one the profile gives for that tick's time on the takeoff clock: 1020
  while spooling up for 0.8 s, the ramp to 1250 over the next 1.6 s, then the hover throttle; and that
  tick is the first at which these phases and one second of hovering are over.
\<close>

theorem takeoff_ends_tracking:
  assumes "list_all call_ok calls" "s = run fc_step new_fc_state calls" "controlMode s = CM_Takeoff"
    and "hoverThrottle s \<noteq> 0" "224 \<le> long_ticks dts"
  shows "controlMode (run fc_tick s dts) = CM_Tracking \<and>
    (\<exists>n\<le>length dts. takeoff_flown s (take n dts) \<and>
       list_all (takeoff_command (hoverThrottle s)) (tick_commands s (take n dts)))"
  using takeoff_settles[OF _ assms(3-5)] assms(1,2) fc_ok_run[OF _ fc_ok_new] by simp

theorem takeoff_ends_tracking_witness:
  "\<exists>n\<le>224. takeoff_flown (run fc_step new_fc_state [Fc_setHoverThrottle 1400, Fc_setControlMode CM_Takeoff])
     (replicate n (Fin (1 / 32)))"
proof -
  let ?cs = "[Fc_setHoverThrottle 1400, Fc_setControlMode CM_Takeoff]"
  have m: "controlMode (run fc_step new_fc_state ?cs) = CM_Takeoff" "hoverThrottle (run fc_step new_fc_state ?cs) \<noteq> 0"
    by (simp_all add: setControlMode_frame)
      (simp add: new_fc_state_def clampCommandChannels_def fc_setters setHoverThrottle_def u16_clamp_def fc_consts)
  have l: "long_ticks (replicate 224 (Fin (1 / 32))) = 224" by (rule long_ticks_replicate) (simp add: long_tick_def)
  have "list_all call_ok ?cs" by simp
  from takeoff_ends_tracking[OF this refl m, of "replicate 224 (Fin (1 / 32))"] l
  obtain n where "n \<le> 224" "takeoff_flown (run fc_step new_fc_state ?cs) (take n (replicate 224 (Fin (1 / 32))))"
    by (auto simp del: take_replicate)
  then show ?thesis by (intro exI[of _ n]) (simp add: min_absorb1)
qed

subsection \<open>The envelope of the autonomous modes\<close>

definition level_command :: "bf_command \<Rightarrow> bool" where
  \<comment> \<open>no roll, and pitch and yaw within the stick range\<close>
  "level_command c = (bf_roll c = DRONE_MID \<and> 1200 \<le> bf_pitch c \<and> bf_pitch c \<le> 1800 \<and>
     1200 \<le> bf_yaw c \<and> bf_yaw c \<le> 1800)"

lemma level_finish:
  "level_command (currentCommand s) \<Longrightarrow> level_command (currentCommand (finish_step s))"
  unfolding finish_step_command by (simp add: level_command_def clamp_channels_def u16_clamp_def rc_consts)

lemma level_follow:
  assumes "params_ok (userParams s)"
  shows "level_command (currentCommand (runFollowTargetLogic s))"
proof (cases "isTargetValid (commandAltHoldDelta (Fin 0) s)")
  case True
  have "params_ok (userParams (commandYawRate v (set_td_confidence c (set_tracking_state TS_Tracking
      (commandAltHoldDelta (Fin 0) s)))))" for v c
    using assms by (simp add: axis_frames fc_setters)
  then show ?thesis using True commandYawRate_yaw commandForward_pitch
    by (simp add: runFollowTargetLogic_def Let_def level_command_def on_command_def axis_frames)
next
  case False
  then show ?thesis by (simp add: runFollowTargetLogic_def Let_def level_command_def fc_setters rc_consts)
qed

lemma level_tracking:
  assumes "params_ok (userParams s)" "hoverThrottle s \<noteq> 0"
  shows "level_command (currentCommand (runTrackingMode d s))"
proof -
  have "level_command (currentCommand (runHoverSearchState s))"
    using commandYawRate_yaw by (simp add: runHoverSearchState_def Let_def level_command_def axis_frames)
      (simp add: fc_setters rc_consts)
  moreover have "level_command (currentCommand (runHoverStillState ts s))" for ts
    by (simp add: runHoverStillState_def Let_def level_command_def axis_frames) (simp add: fc_setters rc_consts)
  moreover have "level_command (currentCommand (runFollowTargetState s))"
    unfolding runFollowTargetState_def using assms(1) by (intro level_follow) (simp add: fc_setters)
  ultimately show ?thesis using assms(2) by (simp add: runTrackingMode_def split: tracking_state.split)
qed

text \<open>Without a calibrated hover throttle a tick of tracking or takeoff is a tick of landing.\<close>

lemma uncalibrated_tick:
  assumes "controlMode s = CM_Tracking \<or> controlMode s = CM_Takeoff" "hoverThrottle s = 0"
  shows "fc_tick s dt = fc_tick (setControlMode CM_LandSafely s) dt"
proof -
  let ?d = "control_dt dt"
  have "setControlMode CM_LandSafely (begin_step ?d s) = begin_step ?d (setControlMode CM_LandSafely s)"
    using assms(1) by (auto simp: setControlMode_def begin_step_def fc_setters Let_def)
  moreover have "controlMode (setControlMode CM_LandSafely s) = CM_LandSafely" by (simp add: setControlMode_frame)
  ultimately show ?thesis using assms
    by (auto simp: fc_tick_def updateTimeStep_def run_mode_def begin_step_frame Let_def runTrackingMode_def
        runTakeoffMode_def)
qed

lemma level_land:
  assumes "fc_ok s" "controlMode s = CM_LandSafely" "is_armed (currentCommand (fc_tick s dt))"
  shows "level_command (currentCommand (fc_tick s dt))"
  using land_settles[OF assms(1,2), of dt] assms(3)
  by (auto simp: landed_def descending_def level_command_def rc_consts)

text \<open>
  C8: The envelope of a control tick. Whatever is called, with whatever arguments, and whatever the
  clock gives, a tick sends every channel within 1000 to 2000 microseconds and no throttle unless
  armed. If moreover every call of \<open>setUserParams\<close> (none in the program, whose default is 1 m/s) gave a finite
  and non-negative speed limit, an armed command outside manual mode never rolls and keeps pitch and yaw
  within 300 microseconds of the centre, and the state keeps its invariant, under which every cast of the code
  is of a number in range; with a limit that is not a number the pitch would not be bounded so.
\<close>

theorem tick_within_envelope:
  assumes "s = run fc_step new_fc_state calls"
  shows "let (c, s') = updateTimeStep dt s in
    channels_safe c \<and> currentCommand s' = c \<and>
    (list_all call_ok calls \<longrightarrow>
       fc_ok s' \<and> (if is_armed c \<and> controlMode s \<noteq> CM_Manual then level_command c else True))"
proof -
  have u: "updateTimeStep dt s = (currentCommand (fc_tick s dt), fc_tick s dt)"
    using fst_updateTimeStep[of dt s] by (simp add: fc_tick_def prod_eq_iff)
  have okay: "fc_ok s" if "list_all call_ok calls" using that assms fc_ok_run[OF _ fc_ok_new] by simp
  have lv: "level_command (currentCommand (fc_tick s dt))"
    if ok: "fc_ok s" and "is_armed (currentCommand (fc_tick s dt))" "controlMode s \<noteq> CM_Manual"
  proof (cases "controlMode s = CM_LandSafely")
    case True
    then show ?thesis using level_land[OF ok] that(2) by blast
  next
    case False
    show ?thesis
    proof (cases "hoverThrottle s = 0")
      case True
      have m: "controlMode s = CM_Tracking \<or> controlMode s = CM_Takeoff"
        using False that(3) by (cases "controlMode s") simp_all
      have "fc_ok (setControlMode CM_LandSafely s)" "controlMode (setControlMode CM_LandSafely s) = CM_LandSafely"
        using ok fc_ok_setControlMode by (simp_all add: setControlMode_frame)
      then show ?thesis using level_land that(2) unfolding uncalibrated_tick[OF m True] by blast
    next
      case hover: False
      show ?thesis
      proof (cases "controlMode s = CM_Takeoff")
        case True
        then show ?thesis using takeoff_tick(4)[OF ok True hover, of dt]
          by (auto simp: takeoff_command_def level_command_def rc_consts)
      next
        case no_takeoff: False
        then have "controlMode s = CM_Tracking" using False that(3) by (cases "controlMode s") simp_all
        then have "fc_tick s dt = finish_step (runTrackingMode (control_dt dt) (begin_step (control_dt dt) s))"
          by (simp add: fc_tick_def updateTimeStep_def run_mode_def begin_step_frame Let_def)
        then show ?thesis using level_finish[OF level_tracking] ok hover by (simp add: begin_step_frame fc_ok_def)
      qed
    qed
  qed
  show ?thesis using lv okay step_channels_safe[of dt s] fc_ok_tick[of s dt] unfolding u by simp
qed

theorem tick_within_envelope_witness:
  "let (c, s') = updateTimeStep PInf (run fc_step new_fc_state
     [Fc_setManualSetpoints (new_bf_command\<lparr> bf_roll := 65535, bf_throttle := 0 \<rparr>), Fc_setArm True])
   in channels_safe c \<and> fc_ok s'"
  using tick_within_envelope[OF refl, of PInf "[Fc_setManualSetpoints (new_bf_command\<lparr> bf_roll := 65535, bf_throttle := 0 \<rparr>),
      Fc_setArm True]"]
  by (simp add: split_beta Let_def)

end
