(* ===== verification/Flight_Steering.thy ===== *)
theory Flight_Steering
  imports Flight_Missions
begin

section \<open>Steering in tracking mode\<close>

text \<open>
  With the configuration the program runs with (it never calls \<open>setUserParams\<close> or
  \<open>setTrackingConfig\<close>), what a tick in tracking mode does: the yaw turns towards the target, the
  pitch keeps the size of the box, the throttle follows its height, and without a valid target
  the drone hovers, level, at the calibrated throttle.
\<close>

fun plain_call :: "fc_call \<Rightarrow> bool" where
  \<comment> \<open>the calls that leave the configuration alone\<close>
  "plain_call (Fc_setUserParams _) = False"
| "plain_call (Fc_setTrackingConfig _) = False"
| "plain_call _ = True"

fun in_range :: "real \<Rightarrow> real \<Rightarrow> pyfloat \<Rightarrow> bool" where
  "in_range l h (Fin r) = (l \<le> r \<and> r \<le> h)"
| "in_range l h _ = False"

definition message_ok :: "tracking_message \<Rightarrow> bool" where
  "message_ok m = (in_range (- 1) 1 (tm_target_x m) \<and> in_range (- 1) 1 (tm_target_y m) \<and>
     in_range 0 1 (tm_bound_w m) \<and> in_range 0 1 (tm_bound_h m) \<and> in_range 0 1 (tm_confidence m))"

definition plain_ok :: "fc_state \<Rightarrow> bool" where
  "plain_ok s = (fc_ok s \<and> trackingConfig s = new_tracking_config \<and> userParams s = new_user_params \<and>
     message_ok (lastTrackingMsg s))"

lemma in_range_clamps [simp]:
  "in_range (- 1) 1 (clamp_target_coord v)" "in_range 0 1 (clamp_unit v)"
  by (rule clamp_target_coord_range[of v], simp) (rule clamp_unit_range[of v], simp)

lemma message_ok_clamped [simp]: "message_ok (clamp_message m)"
  by (simp add: message_ok_def clamp_message_def)

definition same_setup :: "fc_state \<Rightarrow> fc_state \<Rightarrow> bool" where
  "same_setup s s' = (trackingConfig s' = trackingConfig s \<and> userParams s' = userParams s \<and>
     lastTrackingMsg s' = lastTrackingMsg s)"

lemma same_setup_trans: "same_setup a b \<Longrightarrow> same_setup b c \<Longrightarrow> same_setup a c"
  by (simp add: same_setup_def)

lemma same_setup_setters [simp]:
  "same_setup s (on_command f s)" "same_setup s (on_telemetry g s)" "same_setup s s"
  by (simp_all add: same_setup_def on_command_def on_telemetry_def)

lemma same_setup_ops [simp]:
  "same_setup s (commandYawRate v s)" "same_setup s (commandForward v s)" "same_setup s (commandAltHoldDelta v s)"
  "same_setup s (setControlMode m s)" "same_setup s (clampCommandChannels s)"
  "same_setup s (runLandSafelyMode d s)"
  by (simp_all add: same_setup_def commandYawRate_def commandForward_def commandAltHoldDelta_def
      setControlMode_def clampCommandChannels_def runLandSafelyMode_def land_start_def Let_def fc_setters)

lemma same_setup_modes [simp]:
  "same_setup s (runTakeoffMode d s)" "same_setup s (runHoverSearchState s)"
  "same_setup s (runHoverStillState ts s)" "same_setup s (runFollowTargetLogic s)"
proof -
  have f: "trackingConfig (commandYawRate v x) = trackingConfig x" "userParams (commandYawRate v x) = userParams x"
    "lastTrackingMsg (commandYawRate v x) = lastTrackingMsg x"
    "trackingConfig (commandForward v x) = trackingConfig x" "userParams (commandForward v x) = userParams x"
    "lastTrackingMsg (commandForward v x) = lastTrackingMsg x"
    "trackingConfig (commandAltHoldDelta v x) = trackingConfig x"
    "userParams (commandAltHoldDelta v x) = userParams x"
    "lastTrackingMsg (commandAltHoldDelta v x) = lastTrackingMsg x"
    "trackingConfig (setControlMode m x) = trackingConfig x" "userParams (setControlMode m x) = userParams x"
    "lastTrackingMsg (setControlMode m x) = lastTrackingMsg x"
    "trackingConfig (runLandSafelyMode w x) = trackingConfig x" "userParams (runLandSafelyMode w x) = userParams x"
    "lastTrackingMsg (runLandSafelyMode w x) = lastTrackingMsg x" for v x m w
    using same_setup_ops[of x] by (simp_all add: same_setup_def)
  show "same_setup s (runTakeoffMode d s)"
    by (simp add: same_setup_def runTakeoffMode_def takeoff_start_def Let_def f fc_setters)
  show "same_setup s (runHoverSearchState s)" "same_setup s (runHoverStillState ts s)"
    by (simp_all add: same_setup_def runHoverSearchState_def runHoverStillState_def Let_def f fc_setters)
  show "same_setup s (runFollowTargetLogic s)"
    by (simp add: same_setup_def runFollowTargetLogic_def Let_def f fc_setters)
qed

lemma same_setup_tick: "same_setup s (fc_tick s dt)"
proof -
  have tr: "same_setup x (runTrackingMode d x)" for d x
    by (auto simp: runTrackingMode_def runFollowTargetState_def setAltHold_def setAngleMode_def
        intro: same_setup_trans[OF same_setup_ops(4) same_setup_ops(6)]
          same_setup_trans[OF same_setup_trans[OF same_setup_setters(1) same_setup_setters(1)] same_setup_modes(4)]
        split: tracking_state.split)
  have "same_setup x (run_mode d x)" for d x
    by (simp add: run_mode_def runManualMode_def set_tracking_state_def tr split: control_mode.split)
  moreover have "same_setup x (finish_step x)" for x
    by (simp add: same_setup_def finish_step_def Let_def clampCommandChannels_def fc_setters)
  moreover have "same_setup s (begin_step d s)" for d by (simp add: begin_step_def)
  ultimately have "same_setup s (finish_step (run_mode d (begin_step d s)))" for d
    by (meson same_setup_trans)
  then show ?thesis by (simp add: fc_tick_def updateTimeStep_def Let_def)
qed

lemma plain_ok_step:
  assumes "plain_ok s" "plain_call c"
  shows "plain_ok (fc_step s c)"
proof -
  have "call_ok c" using assms(2) by (cases c) simp_all
  then have ok: "fc_ok (fc_step s c)" using assms(1) fc_ok_step by (simp add: plain_ok_def)
  show ?thesis
  proof (cases "\<exists>m. c = Fc_updateTracking m")
    case True
    then show ?thesis using assms(1) ok
      by (auto simp: plain_ok_def updateTracking_def Let_def on_telemetry_def)
  next
    case False
    then have "same_setup s (fc_step s c)"
      using assms(2) same_setup_tick
      by (cases c) (simp_all add: fc_tick_def setHoverThrottle_def same_setup_def[of s] setDistances_def
          setOrientationDeg_def setAltitudeMeters_def setManualSetpoints_def clampCommandChannels_def
          setArm_def setAngleMode_def setAltHold_def on_command_def on_telemetry_def
          same_setup_ops[unfolded same_setup_def])
    then show ?thesis using assms(1) ok by (simp add: plain_ok_def same_setup_def)
  qed
qed

lemma plain_ok_new: "plain_ok new_fc_state"
  using fc_ok_new
  by (simp add: plain_ok_def new_fc_state_def clampCommandChannels_def on_command_def message_ok_def
      new_tracking_message_def)

lemma plain_ok_run: "list_all plain_call cs \<Longrightarrow> plain_ok s \<Longrightarrow> plain_ok (run fc_step s cs)"
  using run_invariant_on[of plain_ok cs fc_step s] plain_ok_step by (auto simp: list_all_iff)

subsection \<open>Deflections grow with the error\<close>

definition deflect :: "pyfloat \<Rightarrow> pyfloat \<Rightarrow> int" where
  \<comment> \<open>a clamped value as a stick position\<close>
  "deflect m v = pwm_of (fadd (fc_int DRONE_MID) (fmul (fdiv_nz (fclamp v (fneg m) m) m) (Fin 300)))"

lemma commandYawRate_deflect: "isfinite v \<Longrightarrow> commandYawRate v s = on_command (\<lambda>c. c\<lparr> bf_yaw := deflect (Fin 180) v \<rparr>) s"
  by (simp add: commandYawRate_def deflect_def kMaxYawRateDps_def kYawRangeUs_def)

lemma commandForward_deflect:
  "userParams s = new_user_params \<Longrightarrow> isfinite v \<Longrightarrow>
   commandForward v s = on_command (\<lambda>c. c\<lparr> bf_pitch := deflect (Fin 1) v \<rparr>) s"
  by (simp add: commandForward_def deflect_def kPitchRangeUs_def new_user_params_def Let_def)

lemma deflect_value:
  assumes "0 < m" "\<bar>v\<bar> \<le> m"
  shows "deflect (Fin m) (Fin v) = u16_of (Fin (rnd (1500 + rnd (rnd (v / m) * 300))))"
proof -
  have v: "- m \<le> v" "v \<le> m" using assms(2) by auto
  have "- 1 \<le> v / m" "v / m \<le> 1" using v assms(1) by (simp_all add: field_simps)
  then have q: "- 1 \<le> rnd (v / m)" "rnd (v / m) \<le> 1" by (auto intro!: rnd_ge_fix rnd_le_fix)
  then have f: "f64 (v / m) = Fin (rnd (v / m))" using big_bound[of "\<bar>rnd (v / m)\<bar>"] by (intro f64_small) auto
  obtain p where p: "fadd (fc_int DRONE_MID) (fmul (Fin (rnd (v / m))) (Fin 300)) = Fin p" "1200 \<le> p" "p \<le> 1800"
    using deflection[OF q] by blast
  let ?w = "rnd (rnd (v / m) * 300)"
  have w: "- 300 \<le> ?w" "?w \<le> 300" using q by (auto intro!: rnd_ge_fix rnd_le_fix)
  then have "f64 (rnd (v / m) * 300) = Fin ?w" using big_bound[of "\<bar>?w\<bar>"] by (intro f64_small) auto
  moreover have "1200 \<le> rnd (1500 + ?w)" "rnd (1500 + ?w) \<le> 1800" using w by (auto intro!: rnd_ge_fix rnd_le_fix)
  then have "f64 (1500 + ?w) = Fin (rnd (1500 + ?w))" using big_bound[of "\<bar>rnd (1500 + ?w)\<bar>"] by (intro f64_small) auto
  ultimately have "p = rnd (1500 + ?w)" using p(1) by (simp add: fc_int_def rc_consts)
  then show ?thesis using p f v assms(1)
    by (simp add: deflect_def fdiv_nz_def pwm_of_def fc_int_def rc_consts)
qed

lemma deflect_mono:
  assumes "0 < m" "\<bar>v\<bar> \<le> m" "\<bar>w\<bar> \<le> m" "v \<le> w"
  shows "deflect (Fin m) (Fin v) \<le> deflect (Fin m) (Fin w)"
proof -
  let ?f = "\<lambda>v. rnd (1500 + rnd (rnd (v / m) * 300))"
  have "?f v \<le> ?f w" using assms(1,4) by (intro rnd_mono add_left_mono mult_right_mono divide_right_mono) simp_all
  moreover have "0 \<le> ?f v"
  proof -
    have "- 1 \<le> v / m" using assms(1,2) by (auto simp: field_simps abs_le_iff)
    then have "- 1 \<le> rnd (v / m)" by (intro rnd_ge_fix) simp_all
    then have "- 300 \<le> rnd (rnd (v / m) * 300)" by (intro rnd_ge_fix) simp_all
    then show ?thesis by (intro rnd_nonneg) simp
  qed
  ultimately show ?thesis using assms floor_mono[of "?f v" "?f w"] by (simp add: deflect_value)
qed

lemma deflect_zero [simp]: "0 < m \<Longrightarrow> deflect (Fin m) (Fin 0) = 1500"
  using deflect_value[of m 0] by simp

lemma deflect_full:
  "0 < m \<Longrightarrow> m \<le> v \<Longrightarrow> deflect (Fin m) (Fin v) = 1800"
  "0 < m \<Longrightarrow> v \<le> - m \<Longrightarrow> deflect (Fin m) (Fin v) = 1200"
proof -
  have c: "deflect (Fin m) (Fin v) = deflect (Fin m) (Fin (max (- m) (min m v)))" if "0 < m"
    using that by (simp add: deflect_def fclamp_Fin)
  show "deflect (Fin m) (Fin v) = 1800" if "0 < m" "m \<le> v"
    using that c deflect_value[of m m] by simp
  show "deflect (Fin m) (Fin v) = 1200" if "0 < m" "v \<le> - m"
    using that c deflect_value[of m "- m"] by (simp add: max_absorb1 min_absorb2)
qed

lemma deflect_clamped: "0 < m \<Longrightarrow> deflect (Fin m) (Fin v) = deflect (Fin m) (Fin (max (- m) (min m v)))"
  by (simp add: deflect_def fclamp_Fin)

lemma deflect_sign:
  assumes "0 < m"
  shows "0 \<le> v \<Longrightarrow> 1500 \<le> deflect (Fin m) (Fin v) \<and> deflect (Fin m) (Fin v) \<le> 1800"
    and "v \<le> 0 \<Longrightarrow> 1200 \<le> deflect (Fin m) (Fin v) \<and> deflect (Fin m) (Fin v) \<le> 1500"
proof -
  let ?v = "max (- m) (min m v)"
  have b: "\<bar>?v\<bar> \<le> m" "\<bar>0\<bar> \<le> m" "\<bar>m\<bar> \<le> m" "\<bar>- m\<bar> \<le> m" using assms by auto
  show "1500 \<le> deflect (Fin m) (Fin v) \<and> deflect (Fin m) (Fin v) \<le> 1800" if "0 \<le> v"
    using deflect_mono[OF assms b(2,1)] deflect_mono[OF assms b(1,3)] deflect_clamped[OF assms, of v] that assms
      deflect_full(1)[of m m] by auto
  show "1200 \<le> deflect (Fin m) (Fin v) \<and> deflect (Fin m) (Fin v) \<le> 1500" if "v \<le> 0"
    using deflect_mono[OF assms b(1,2)] deflect_mono[OF assms b(4,1)] deflect_clamped[OF assms, of v] that assms
      deflect_full(2)[of m "- m"] by auto
qed

text \<open>The search rate of 60 degrees per second is a third of the range, to the microsecond.\<close>

lemma rnd_binade:
  assumes "2 powr of_int e \<le> x" "x < 2 powr (of_int e + 1)" "- 1022 \<le> e"
  shows "rnd x = of_int (rne (x / 2 powr of_int (e - 52))) * 2 powr of_int (e - 52)"
proof -
  have x: "0 < x" using assms(1) by (auto intro: less_le_trans[of 0 "2 powr of_int e"])
  then have "\<lfloor>log 2 \<bar>x\<bar>\<rfloor> = e" using assms floor_log_eq_powr_iff[of x 2 e] by simp
  then have "fexp x = e - 52" using assms(3) by (simp add: fexp_def)
  then show ?thesis using x by (simp add: rnd_def)
qed

lemma two_powr_neg: "(2::real) powr (- real n) = 1 / 2 ^ n"
  by (simp add: powr_minus powr_realpow divide_inverse)

lemma deflect_search: "deflect (Fin 180) searchYawRate_dps = 1600"
proof -
  have p: "(2::real) powr (- 2) = 1 / 2 ^ 2" "(2::real) powr (- 1) = 1 / 2" "(2::real) powr (- 54) = 1 / 2 ^ 54"
    "(2::real) powr (- 46) = 1 / 2 ^ 46"
    using two_powr_neg[of 2] two_powr_neg[of 1] two_powr_neg[of 54] two_powr_neg[of 46] by simp_all
  have third: "rnd (1 / 3) = 6004799503160661 / 2 ^ 54"
  proof -
    have "\<lfloor>(2::real) ^ 54 / 3\<rfloor> = 6004799503160661" by (simp add: floor_eq_iff)
    then have "rne ((2::real) ^ 54 / 3) = 6004799503160661" by (simp add: rne_def Let_def)
    then show ?thesis using rnd_binade[of "- 2" "1 / 3"] p by simp
  qed
  have hundred: "rnd (6004799503160661 / 2 ^ 54 * 300) = 100"
  proof -
    let ?x = "6004799503160661 / 2 ^ 54 * 300 :: real"
    have "\<lfloor>?x * 2 ^ 46\<rfloor> = 7036874417766399" by (simp add: floor_eq_iff)
    then have r: "rne (?x * 2 ^ 46) = 7036874417766400" by (simp add: rne_def Let_def)
    have "(2::real) powr (of_int 6) = 64" "(2::real) powr (of_int 6 + 1) = 128"
      using powr_realpow[of 2 6] powr_realpow[of 2 7] by simp_all
    then show ?thesis using rnd_binade[of 6 ?x] p r by simp
  qed
  show ?thesis
    using deflect_value[of 180 60] third hundred by (simp add: searchYawRate_dps_def)
qed

subsection \<open>What the errors ask for\<close>

definition turns_towards :: "real \<Rightarrow> int \<Rightarrow> bool" where
  \<comment> \<open>the yaw for a target at the horizontal offset \<open>x\<close>\<close>
  "turns_towards x yaw =
     (if \<bar>x\<bar> \<le> 1 / 64 then yaw = 1500
      else if 0 < x then 1500 \<le> yaw \<and> yaw \<le> 1800 \<and> (if 1 / 32 \<le> x then 1500 < yaw else True) \<and>
        (if 15 / 16 \<le> x then yaw = 1800 else True)
      else 1200 \<le> yaw \<and> yaw \<le> 1500 \<and> (if x \<le> - 1 / 32 then yaw < 1500 else True) \<and>
        (if x \<le> - 15 / 16 then yaw = 1200 else True))"

definition keeps_distance :: "real \<Rightarrow> int \<Rightarrow> bool" where
  \<comment> \<open>the pitch for a box of height \<open>h\<close>: forward when it is small, backward when it is large\<close>
  "keeps_distance h pitch =
     (if 1 / 2 \<le> h then pitch = 1200 else if h \<le> 1 / 16 then pitch = 1800
      else if \<bar>1 / 4 - h\<bar> \<le> 1 / 64 then pitch = 1500
      else if h < 1 / 4 then 1500 \<le> pitch \<and> pitch \<le> 1800 else 1200 \<le> pitch \<and> pitch \<le> 1500)"

definition holds_height :: "real \<Rightarrow> int \<Rightarrow> int \<Rightarrow> bool" where
  \<comment> \<open>the throttle for a target at the vertical offset \<open>y\<close>, downwards positive\<close>
  "holds_height y hover throttle =
     (if \<bar>y\<bar> \<le> 1 / 64 then throttle = hover
      else if 0 < y then 1000 \<le> throttle \<and> throttle \<le> hover
      else hover \<le> throttle \<and> throttle \<le> 1800)"

lemma dyadic_64: "rnd (1 / 64) = 1 / 64" by (rule rnd_fraction[of 1 6]) simp_all
lemma dyadic_32: "rnd (1 / 32) = 1 / 32" by (rule rnd_fraction[of 1 5]) simp_all
lemma dyadic_15: "rnd (15 / 16) = 15 / 16" by (rule rnd_fraction[of 15 4]) simp_all
lemma dyadic_25: "rnd (25 / 4) = 25 / 4" by (rule rnd_fraction[of 25 2]) simp_all

lemma unit_float: "\<bar>x\<bar> \<le> 1 \<Longrightarrow> f64 x = Fin (rnd x) \<and> \<bar>rnd x\<bar> \<le> 1"
proof -
  assume "\<bar>x\<bar> \<le> 1"
  then have "rnd x \<le> 1" "- 1 \<le> rnd x" by (auto intro!: rnd_le_fix rnd_ge_fix)
  then show ?thesis using big_bound[of "\<bar>rnd x\<bar>"] by (auto intro: f64_small)
qed

lemma band: "f64 (1 / 50) = Fin (rnd (1 / 50))" "5 / 256 \<le> rnd (1 / 50)" "rnd (1 / 50) \<le> 6 / 256"
proof -
  have "rnd (5 / 256) = 5 / 256" by (rule rnd_fraction[of 5 8]) simp_all
  then show "5 / 256 \<le> rnd (1 / 50)" by (intro rnd_ge_fix) simp_all
  have "rnd (6 / 256) = 6 / 256" by (rule rnd_fraction[of 6 8]) simp_all
  then show "rnd (1 / 50) \<le> 6 / 256" by (intro rnd_le_fix) simp_all
  show "f64 (1 / 50) = Fin (rnd (1 / 50))" using unit_float[of "1 / 50"] by simp
qed

lemma dead_band:
  assumes "\<bar>x\<bar> \<le> 1"
  obtains e where "deadband (f64 (2 / 100)) (Fin (rnd x)) = Fin e" "\<bar>e\<bar> \<le> 1"
    "\<bar>x\<bar> \<le> 1 / 64 \<Longrightarrow> e = 0" "0 \<le> x \<Longrightarrow> 0 \<le> e" "x \<le> 0 \<Longrightarrow> e \<le> 0" "1 / 32 \<le> \<bar>x\<bar> \<Longrightarrow> e = rnd x"
proof -
  let ?e = "if \<bar>rnd x\<bar> < rnd (1 / 50) then 0 else rnd x"
  have r: "\<bar>rnd x\<bar> \<le> 1" using unit_float[OF assms] by simp
  note i = dyadic_64 dyadic_32
  have "?e = 0" if "\<bar>x\<bar> \<le> 1 / 64"
  proof -
    have "x \<le> 1 / 64" "- (1 / 64) \<le> x" using that by (auto simp: abs_le_iff)
    moreover have "rnd (- (1 / 64)) = - (1 / 64)" using i(1) by (simp only: rnd_minus)
    ultimately have "rnd x \<le> 1 / 64" "- (1 / 64) \<le> rnd x" using i(1) rnd_le_fix rnd_ge_fix by blast+
    then show ?thesis using band by auto
  qed
  moreover have "0 \<le> x \<Longrightarrow> 0 \<le> ?e" using rnd_nonneg[of x] by simp
  moreover have "x \<le> 0 \<Longrightarrow> ?e \<le> 0" using rnd_nonneg[of "- x"] by (simp add: rnd_minus)
  moreover have "?e = rnd x" if "1 / 32 \<le> \<bar>x\<bar>"
  proof -
    have "1 / 32 \<le> rnd x \<or> rnd x \<le> - (1 / 32)"
    proof (cases "0 \<le> x")
      case True
      then have "1 / 32 \<le> rnd x" using that i by (intro rnd_ge_fix) auto
      then show ?thesis by simp
    next
      case False
      then have "rnd x \<le> - (1 / 32)" using that i by (intro rnd_le_fix) (auto simp: rnd_minus)
      then show ?thesis by simp
    qed
    then show ?thesis using band by auto
  qed
  ultimately show thesis using that[of ?e] r by (auto simp: deadband_def band)
qed

lemma scaled_float: "\<bar>x\<bar> \<le> 1000 \<Longrightarrow> f64 x = Fin (rnd x)"
proof -
  assume "\<bar>x\<bar> \<le> 1000"
  then have "rnd x \<le> 1000" "- 1000 \<le> rnd x" by (auto intro!: rnd_le_fix rnd_ge_fix)
  then show ?thesis using big_bound[of "\<bar>rnd x\<bar>"] by (intro f64_small) auto
qed

lemma yaw_turns:
  assumes "\<bar>x\<bar> \<le> 1"
  shows "isfinite (fmul (Fin 200) (deadband (f64 (2 / 100)) (fsub (Fin x) (Fin 0)))) \<and>
    turns_towards x (deflect (Fin 180) (fmul (Fin 200) (deadband (f64 (2 / 100)) (fsub (Fin x) (Fin 0)))))"
proof -
  obtain e where e: "deadband (f64 (2 / 100)) (Fin (rnd x)) = Fin e" "\<bar>e\<bar> \<le> 1"
    "\<bar>x\<bar> \<le> 1 / 64 \<Longrightarrow> e = 0" "0 \<le> x \<Longrightarrow> 0 \<le> e" "x \<le> 0 \<Longrightarrow> e \<le> 0" "1 / 32 \<le> \<bar>x\<bar> \<Longrightarrow> e = rnd x"
    using dead_band[OF assms] by blast
  let ?v = "rnd (200 * e)"
  have v: "fmul (Fin 200) (deadband (f64 (2 / 100)) (fsub (Fin x) (Fin 0))) = Fin ?v"
    using e unit_float[OF assms] scaled_float[of "200 * e"] by (auto simp: fsub_def)
  note i = dyadic_32 dyadic_15 dyadic_25
  have up: "0 \<le> x \<Longrightarrow> 0 \<le> ?v" and down: "x \<le> 0 \<Longrightarrow> ?v \<le> 0"
    using e(4,5) rnd_nonneg[of "200 * e"] rnd_nonneg[of "- (200 * e)"] by (auto simp: rnd_minus)
  have lo: "1509 \<le> deflect (Fin 180) (Fin (25 / 4))" "deflect (Fin 180) (Fin (- (25 / 4))) \<le> 1491"
  proof -
    have "1 / 32 \<le> rnd (25 / 4 / 180)" using i(1) by (intro rnd_ge_fix) simp_all
    moreover have "9 \<le> rnd q" if "9 \<le> q" for q using that by (intro rnd_ge_fix) simp_all
    ultimately have "9 \<le> rnd (rnd (25 / 4 / 180) * 300)" by (simp del: divide_divide_eq_left)
    then have a: "1509 \<le> rnd (1500 + rnd (rnd (25 / 4 / 180) * 300))" "rnd (1500 - rnd (rnd (25 / 4 / 180) * 300)) \<le> 1491"
      by (auto intro!: rnd_ge_fix rnd_le_fix simp del: divide_divide_eq_left)
    have b: "0 \<le> rnd (1500 - rnd (rnd (25 / 4 / 180) * 300))"
    proof -
      have "rnd (25 / 4 / 180) \<le> 1" by (intro rnd_le_fix) simp_all
      then have "rnd (rnd (25 / 4 / 180) * 300) \<le> 300" by (intro rnd_le_fix) simp_all
      then show ?thesis by (intro rnd_nonneg) simp
    qed
    show "1509 \<le> deflect (Fin 180) (Fin (25 / 4))"
      using a(1) deflect_value[of 180 "25 / 4"] by (simp add: le_floor_iff del: divide_divide_eq_left)
    have "rnd (- (25 / 4) / 180) = - rnd (25 / 4 / 180)"
      using rnd_minus[of "25 / 4 / 180"] by (simp del: divide_divide_eq_left)
    then have "rnd (1500 + rnd (rnd (- (25 / 4) / 180) * 300)) = rnd (1500 - rnd (rnd (25 / 4 / 180) * 300))"
      by (simp add: rnd_minus del: divide_divide_eq_left)
    then show "deflect (Fin 180) (Fin (- (25 / 4))) \<le> 1491"
      using a(2) b deflect_value[of 180 "- (25 / 4)"] by (simp add: floor_le_iff del: divide_divide_eq_left)
  qed
  let ?y = "deflect (Fin 180) (Fin ?v)"
  have far: "25 / 4 \<le> ?v" if "1 / 32 \<le> x"
  proof -
    have "1 / 32 \<le> rnd x" using that i(1) by (intro rnd_ge_fix)
    then show ?thesis using that e(6) i(3) by (intro rnd_ge_fix) auto
  qed
  have farn: "?v \<le> - (25 / 4)" if "x \<le> - 1 / 32"
  proof -
    have "1 / 32 \<le> rnd (- x)" using that i(1) by (intro rnd_ge_fix) simp_all
    then show ?thesis using that e(6) i(3) by (intro rnd_le_fix) (auto simp: rnd_minus)
  qed
  have beyond: "180 \<le> ?v" if "15 / 16 \<le> x"
  proof -
    have "15 / 16 \<le> rnd x" using that i(2) by (intro rnd_ge_fix)
    then show ?thesis using that e(6) by (intro rnd_ge_fix) auto
  qed
  have beyondn: "?v \<le> - 180" if "x \<le> - 15 / 16"
  proof -
    have "15 / 16 \<le> rnd (- x)" using that i(2) by (intro rnd_ge_fix) simp_all
    then show ?thesis using that e(6) by (intro rnd_le_fix) (auto simp: rnd_minus)
  qed
  let ?c = "max (- 180) (min 180 ?v)"
  have c: "\<bar>?c\<bar> \<le> 180" "\<bar>25 / 4 :: real\<bar> \<le> 180" "\<bar>- (25 / 4) :: real\<bar> \<le> 180" by auto
  have yc: "?y = deflect (Fin 180) (Fin ?c)" by (rule deflect_clamped) simp
  have strict: "1500 < ?y" if "1 / 32 \<le> x"
  proof -
    have "25 / 4 \<le> ?c" using far[OF that] by simp
    then have "deflect (Fin 180) (Fin (25 / 4)) \<le> deflect (Fin 180) (Fin ?c)"
      by (intro deflect_mono c) simp_all
    then show ?thesis using lo(1) unfolding yc by linarith
  qed
  have strictn: "?y < 1500" if "x \<le> - 1 / 32"
  proof -
    have "?c \<le> - (25 / 4)" using farn[OF that] by simp
    then have "deflect (Fin 180) (Fin ?c) \<le> deflect (Fin 180) (Fin (- (25 / 4)))"
      by (intro deflect_mono c) simp_all
    then show ?thesis using lo(2) unfolding yc by linarith
  qed
  have "turns_towards x ?y"
    using strict strictn deflect_sign[of 180 ?v] up down e(3) deflect_full[of 180 ?v] beyond beyondn
    by (auto simp: turns_towards_def)
  then show ?thesis using v by simp
qed

lemma forward_keeps:
  assumes "0 \<le> h" "h \<le> 1"
  shows "isfinite (forward_cmd new_tracking_config (Fin 1) (Fin h)) \<and>
    keeps_distance h (deflect (Fin 1) (forward_cmd new_tracking_config (Fin 1) (Fin h)))"
proof -
  obtain e where e: "deadband (f64 (2 / 100)) (Fin (rnd (1 / 4 - h))) = Fin e" "\<bar>e\<bar> \<le> 1"
    "\<bar>1 / 4 - h\<bar> \<le> 1 / 64 \<Longrightarrow> e = 0" "0 \<le> 1 / 4 - h \<Longrightarrow> 0 \<le> e" "1 / 4 - h \<le> 0 \<Longrightarrow> e \<le> 0"
    using dead_band[of "1 / 4 - h"] assms by (auto simp: abs_le_iff)
  have fe: "f64 e = Fin (rnd e)" "\<bar>rnd e\<bar> \<le> 1" using unit_float[OF e(2)] by auto
  have size: "fmul (Fin 1) (deadband (f64 (2 / 100)) (fsub (Fin (1 / 4)) (Fin h))) = Fin (rnd e)"
    using e(1) fe unit_float[of "1 / 4 - h"] assms by (auto simp: fsub_def abs_le_iff)
  let ?hi = "rnd (9 / 20)" and ?lo = "rnd (1 / 10)"
  have hi: "f64 (9 / 20) = Fin ?hi" "7 / 16 \<le> ?hi" "?hi \<le> 1 / 2"
    and lo: "f64 (1 / 10) = Fin ?lo" "1 / 16 \<le> ?lo" "?lo \<le> 1 / 8"
  proof -
    have d: "rnd (7 / 16) = 7 / 16" by (rule rnd_fraction[of 7 4]) simp_all
    have d2: "rnd (1 / 16) = 1 / 16" by (rule rnd_fraction[of 1 4]) simp_all
    have d3: "rnd (1 / 8) = 1 / 8" by (rule rnd_fraction[of 1 3]) simp_all
    show "f64 (9 / 20) = Fin ?hi" "f64 (1 / 10) = Fin ?lo" using unit_float by simp_all
    show "7 / 16 \<le> ?hi" "1 / 16 \<le> ?lo" "?lo \<le> 1 / 8" "?hi \<le> 1 / 2"
      by (rule rnd_ge_fix[OF _ d], simp, rule rnd_ge_fix[OF _ d2], simp, rule rnd_le_fix[OF _ d3], simp,
          rule rnd_le_fix[OF _ rnd_half], simp)
  qed
  define v where "v = (if ?hi \<le> h then - 1 else if h \<le> ?lo then 1 else rnd e)"
  have v: "forward_cmd new_tracking_config (Fin 1) (Fin h) = Fin v" "\<bar>v\<bar> \<le> 1"
  proof -
    show "\<bar>v\<bar> \<le> 1" using fe(2) by (simp add: v_def)
    have "45 / 100 = (9 / 20 :: real)" by simp
    then show "forward_cmd new_tracking_config (Fin 1) (Fin h) = Fin v"
      using size hi lo fe(2) by (simp add: forward_cmd_def new_tracking_config_def v_def abs_le_iff)
  qed
  have "keeps_distance h (deflect (Fin 1) (Fin v))"
  proof -
    consider "?hi \<le> h" | "h \<le> ?lo" | "?lo < h" "h < ?hi" by linarith
    then show ?thesis
    proof cases
      case 1
      then have "v = - 1" by (simp add: v_def)
      then show ?thesis using 1 hi deflect_full(2)[of 1 "- 1"] by (simp add: keeps_distance_def abs_le_iff)
    next
      case 2
      then have "v = 1" using hi lo by (simp add: v_def)
      then show ?thesis using 2 lo deflect_full(1)[of 1 1] by (simp add: keeps_distance_def abs_le_iff)
    next
      case 3
      then have "v = rnd e" by (simp add: v_def)
      moreover have "0 \<le> e \<Longrightarrow> 0 \<le> rnd e" "e \<le> 0 \<Longrightarrow> rnd e \<le> 0"
        using rnd_nonneg[of e] rnd_nonneg[of "- e"] by (auto simp: rnd_minus)
      ultimately show ?thesis using 3 hi lo e(3-5) deflect_sign[of 1 v]
        by (auto simp: keeps_distance_def)
    qed
  qed
  then show ?thesis using v by simp
qed

lemma height_holds:
  assumes "\<bar>y\<bar> \<le> 1" "hover_ok (hoverThrottle s)" "hoverThrottle s \<noteq> 0"
  defines "d \<equiv> fclamp (fmul (fneg (Fin (1 / 2))) (deadband (f64 (2 / 100)) (fsub (Fin y) (Fin 0)))) (Fin (- 1)) (Fin 1)"
  shows "holds_height y (hoverThrottle s) (bf_throttle (currentCommand (commandAltHoldDelta d s)))"
proof -
  obtain e where e: "deadband (f64 (2 / 100)) (Fin (rnd y)) = Fin e" "\<bar>e\<bar> \<le> 1"
    "\<bar>y\<bar> \<le> 1 / 64 \<Longrightarrow> e = 0" "0 \<le> y \<Longrightarrow> 0 \<le> e" "y \<le> 0 \<Longrightarrow> e \<le> 0"
    using dead_band[OF assms(1)] by blast
  let ?v = "rnd (- (1 / 2) * e)"
  have "\<bar>- (1 / 2) * e\<bar> \<le> 1" using e(2) by (simp add: abs_mult)
  then have v: "f64 (- (1 / 2) * e) = Fin ?v" "\<bar>?v\<bar> \<le> 1" using unit_float by blast+
  have "fmul (fneg (Fin (1 / 2))) (deadband (f64 (2 / 100)) (fsub (Fin y) (Fin 0))) = Fin ?v"
    using e(1) v unit_float[OF assms(1)] by (simp add: fsub_def)
  then have d: "d = Fin ?v" using v(2) by (simp add: d_def abs_le_iff)
  have up: "0 \<le> y \<Longrightarrow> ?v \<le> 0" and down: "y \<le> 0 \<Longrightarrow> 0 \<le> ?v"
    using e(4,5) rnd_nonneg[of "1 / 2 * e"] rnd_nonneg[of "- (1 / 2) * e"] rnd_minus[of "1 / 2 * e"] by auto
  have z: "?v = 0 \<Longrightarrow> bf_throttle (currentCommand (commandAltHoldDelta d s)) = hoverThrottle s"
    using commandAltHoldDelta_0[OF assms(2,3)] d by (simp add: fc_setters)
  have h: "1000 \<le> hoverThrottle s" "hoverThrottle s \<le> 1800" using assms by (auto simp: hover_ok_def fc_consts)
  consider "\<bar>y\<bar> \<le> 1 / 64" | "1 / 64 < \<bar>y\<bar>" "0 < y" | "1 / 64 < \<bar>y\<bar>" "y < 0" by fastforce
  then show ?thesis
  proof cases
    case 1
    then show ?thesis using e(3) z by (simp add: holds_height_def)
  next
    case 2
    then show ?thesis using up z h commandAltHoldDelta_throttle[OF assms(2,3), of d] d
      by (cases "?v = 0") (auto simp: holds_height_def)
  next
    case 3
    then show ?thesis using down h commandAltHoldDelta_throttle[OF assms(2,3), of d] d
      by (auto simp: holds_height_def)
  qed
qed

subsection \<open>One tick of tracking mode\<close>

lemma search_state:
  assumes "hover_ok (hoverThrottle s)" "hoverThrottle s \<noteq> 0"
  shows "runHoverSearchState s = on_command (\<lambda>c. c\<lparr> bf_aux2 := DRONE_AUX_MAX, bf_aux3 := DRONE_AUX_MAX,
      bf_roll := DRONE_MID, bf_pitch := DRONE_MID, bf_throttle := hoverThrottle s, bf_yaw := 1600 \<rparr>)
      (set_tracking_state TS_Searching s)"
proof -
  let ?s2 = "on_command (\<lambda>c. c\<lparr> bf_roll := DRONE_MID, bf_pitch := DRONE_MID \<rparr>)
     (setAltHold True (setAngleMode True (set_tracking_state TS_Searching s)))"
  have "hoverThrottle ?s2 = hoverThrottle s" by (simp add: fc_setters)
  then have "commandAltHoldDelta (Fin 0) ?s2 = set_throttle (hoverThrottle s) ?s2"
    using commandAltHoldDelta_0[of ?s2] assms by simp
  moreover have "isfinite searchYawRate_dps" by (simp add: searchYawRate_dps_def)
  ultimately show ?thesis
    by (simp add: runHoverSearchState_def Let_def commandYawRate_deflect deflect_search) (simp add: fc_setters)
qed

lemma still_state:
  assumes "hover_ok (hoverThrottle s)" "hoverThrottle s \<noteq> 0"
  shows "runHoverStillState ts s = on_command (\<lambda>c. c\<lparr> bf_aux2 := DRONE_AUX_MAX, bf_aux3 := DRONE_AUX_MAX,
      bf_roll := DRONE_MID, bf_pitch := DRONE_MID, bf_yaw := DRONE_MID, bf_throttle := hoverThrottle s \<rparr>)
      (set_tracking_state ts s)"
proof -
  let ?s2 = "centre_sticks (setAltHold True (setAngleMode True (set_tracking_state ts s)))"
  have "hoverThrottle ?s2 = hoverThrottle s" by (simp add: fc_setters)
  then have "commandAltHoldDelta (Fin 0) ?s2 = set_throttle (hoverThrottle s) ?s2"
    using commandAltHoldDelta_0[of ?s2] assms by simp
  then show ?thesis by (simp add: runHoverStillState_def Let_def) (simp add: fc_setters)
qed

definition hovers_level :: "int \<Rightarrow> bf_command \<Rightarrow> bool" where
  \<comment> \<open>no steering: level at the hover throttle, turning at the search rate or not at all\<close>
  "hovers_level hover c = (bf_roll c = 1500 \<and> bf_pitch c = 1500 \<and> (bf_yaw c = 1500 \<or> bf_yaw c = 1600) \<and>
     bf_throttle c = (if is_armed c then hover else DRONE_MIN))"

lemma finish_hover:
  assumes "bf_roll (currentCommand s) = DRONE_MID" "bf_pitch (currentCommand s) = DRONE_MID"
    "bf_yaw (currentCommand s) = 1500 \<or> bf_yaw (currentCommand s) = 1600"
    "bf_throttle (currentCommand s) = h" "1000 \<le> h" "h \<le> 1800"
  shows "hovers_level h (currentCommand (finish_step s))"
  using assms unfolding finish_step_command hovers_level_def
  by (simp add: is_armed_def) (auto simp: clamp_channels_def u16_clamp_def rc_consts)

lemma finish_confidence:
  "td_confidence (telemetryData (finish_step s)) =
     (if td_tracking_state (telemetryData s) = TS_Tracking then td_confidence (telemetryData s) else Fin 0)"
  by (simp add: finish_step_def Let_def clampCommandChannels_def fc_setters)

lemma tracking_tick_invalid:
  assumes "fc_ok s" "controlMode s = CM_Tracking" "hoverThrottle s \<noteq> 0"
    and "\<not> isTargetValid (begin_step (control_dt dt) s)"
  shows "hovers_level (hoverThrottle s) (currentCommand (fc_tick s dt)) \<and>
    td_tracking_state (telemetryData (fc_tick s dt)) \<noteq> TS_Tracking \<and>
    td_confidence (telemetryData (fc_tick s dt)) = Fin 0"
proof -
  let ?b = "begin_step (control_dt dt) s"
  have h: "hover_ok (hoverThrottle ?b)" "hoverThrottle ?b \<noteq> 0" "hoverThrottle ?b = hoverThrottle s"
    "1000 \<le> hoverThrottle s" "hoverThrottle s \<le> 1800"
    using assms(1,3) by (auto simp: begin_step_frame fc_ok_def hover_ok_def fc_consts)
  have t: "fc_tick s dt = finish_step (runTrackingMode (control_dt dt) ?b)"
    by (simp add: fc_tick_def updateTimeStep_def run_mode_def begin_step_frame assms(2) Let_def)
  have search: "hovers_level (hoverThrottle s) (currentCommand (finish_step (runHoverSearchState ?b)))"
    "td_tracking_state (telemetryData (finish_step (runHoverSearchState ?b))) \<noteq> TS_Tracking"
    using h(4,5) by (intro finish_hover, simp_all add: search_state[OF h(1,2)] h(3) finish_step_frame, simp_all add: fc_setters)
  have still: "hovers_level (hoverThrottle s) (currentCommand (finish_step (runHoverStillState ts ?b)))"
    "td_tracking_state (telemetryData (finish_step (runHoverStillState ts ?b))) = ts" for ts
    using h(4,5) by (intro finish_hover, simp_all add: still_state[OF h(1,2)] h(3) finish_step_frame, simp_all add: fc_setters rc_consts)
  have "td_confidence (telemetryData (finish_step x)) = Fin 0" if "td_tracking_state (telemetryData (finish_step x)) \<noteq> TS_Tracking" for x
    using that by (simp add: finish_confidence finish_step_frame)
  moreover have "runTrackingMode (control_dt dt) ?b \<in>
      {runHoverSearchState ?b, runHoverStillState TS_TargetDetected ?b, runHoverStillState TS_NoTarget ?b}"
    using h(2) assms(4) by (auto simp: runTrackingMode_def split: tracking_state.split)
  ultimately show ?thesis using search still unfolding t by (elim insertE emptyE) simp_all
qed

lemma valid_kept:
  "isTargetValid (on_command f s) = isTargetValid s" "isTargetValid (commandAltHoldDelta v s) = isTargetValid s"
  by (simp_all add: isTargetValid_def tracking_stale_def low_confidence_def commandAltHoldDelta_def fc_setters Let_def)

definition follows_target :: "int \<Rightarrow> tracking_message \<Rightarrow> bf_command \<Rightarrow> bool" where
  "follows_target hover m c = (case (tm_target_x m, tm_target_y m, tm_bound_h m) of
      (Fin x, Fin y, Fin h) \<Rightarrow> bf_roll c = 1500 \<and> turns_towards x (bf_yaw c) \<and> keeps_distance h (bf_pitch c) \<and>
         (if is_armed c then holds_height y hover (bf_throttle c) else bf_throttle c = 1000)
    | _ \<Rightarrow> False)"

lemma finish_in_band:
  assumes "rc_in (bf_roll (currentCommand s))" "rc_in (bf_pitch (currentCommand s))"
    "rc_in (bf_yaw (currentCommand s))" "rc_in (bf_throttle (currentCommand s))"
  shows "bf_roll (currentCommand (finish_step s)) = bf_roll (currentCommand s)"
    "bf_pitch (currentCommand (finish_step s)) = bf_pitch (currentCommand s)"
    "bf_yaw (currentCommand (finish_step s)) = bf_yaw (currentCommand s)"
    "is_armed (currentCommand (finish_step s)) = is_armed (currentCommand s)"
    "bf_throttle (currentCommand (finish_step s)) =
       (if is_armed (currentCommand s) then bf_throttle (currentCommand s) else 1000)"
  using assms unfolding finish_step_command
  by (simp_all add: clamp_channels_armed is_armed_def clamp_channels_def u16_clamp_def rc_in_def rc_consts)

lemma turns_towards_in: "turns_towards x v \<Longrightarrow> rc_in v"
  by (auto simp: turns_towards_def rc_in_def rc_consts split: if_splits)

lemma keeps_distance_in: "keeps_distance h v \<Longrightarrow> rc_in v"
  by (auto simp: keeps_distance_def rc_in_def rc_consts split: if_splits)

lemma holds_height_in: "holds_height y h v \<Longrightarrow> 1000 \<le> h \<Longrightarrow> h \<le> 1800 \<Longrightarrow> rc_in v"
  by (auto simp: holds_height_def rc_in_def rc_consts split: if_splits)

lemma tracking_tick_valid:
  assumes "plain_ok s" "controlMode s = CM_Tracking" "hoverThrottle s \<noteq> 0"
    and "isTargetValid (begin_step (control_dt dt) s)"
  shows "follows_target (hoverThrottle s) (lastTrackingMsg s) (currentCommand (fc_tick s dt)) \<and>
    td_tracking_state (telemetryData (fc_tick s dt)) = TS_Tracking \<and>
    td_confidence (telemetryData (fc_tick s dt)) = tm_confidence (lastTrackingMsg s)"
proof -
  let ?b = "begin_step (control_dt dt) s" and ?m = "lastTrackingMsg s"
  let ?a = "setAltHold True (setAngleMode True ?b)"
  let ?s1 = "commandAltHoldDelta (Fin 0) ?a"
  have v: "isTargetValid ?s1" using assms(4) by (simp add: valid_kept setAltHold_def setAngleMode_def)
  have t: "fc_tick s dt = finish_step (runFollowTargetLogic ?a)"
    using assms by (simp add: fc_tick_def updateTimeStep_def run_mode_def begin_step_frame Let_def
        runTrackingMode_def runFollowTargetState_def isTargetValid_def)
  have c: "trackingConfig ?s1 = new_tracking_config" "userParams ?s1 = new_user_params" "lastTrackingMsg ?s1 = ?m"
    using assms(1) same_setup_ops(3)[of ?a "Fin 0"]
    by (simp_all add: plain_ok_def same_setup_def fc_setters begin_step_frame)
  have h: "hover_ok (hoverThrottle s)" "1000 \<le> hoverThrottle s" "hoverThrottle s \<le> 1800"
    using assms(1,3) by (auto simp: plain_ok_def fc_ok_def hover_ok_def fc_consts)
  obtain x y w b cf where m: "tm_target_x ?m = Fin x" "\<bar>x\<bar> \<le> 1" "tm_target_y ?m = Fin y" "\<bar>y\<bar> \<le> 1"
    "tm_bound_h ?m = Fin b" "0 \<le> b" "b \<le> 1"
    using assms(1) by (auto simp: plain_ok_def message_ok_def abs_le_iff elim!: in_range.elims(2))
  let ?xe = "fmul (Fin 200) (deadband (f64 (2 / 100)) (fsub (Fin x) (Fin 0)))"
  let ?fw = "forward_cmd new_tracking_config (Fin 1) (Fin b)"
  let ?d = "fclamp (fmul (fneg (Fin (1 / 2))) (deadband (f64 (2 / 100)) (fsub (Fin y) (Fin 0)))) (Fin (- 1)) (Fin 1)"
  let ?s2 = "set_td_confidence (tm_confidence ?m) (set_tracking_state TS_Tracking ?s1)"
  let ?s3 = "on_command (\<lambda>c. c\<lparr> bf_yaw := deflect (Fin 180) ?xe \<rparr>) ?s2"
  let ?s4 = "on_command (\<lambda>c. c\<lparr> bf_pitch := deflect (Fin 1) ?fw \<rparr>) ?s3"
  let ?s5 = "commandAltHoldDelta ?d ?s4"
  have f2: "trackingConfig ?s1 = new_tracking_config" "userParams ?s3 = new_user_params"
    "hoverThrottle ?s4 = hoverThrottle s" "up_maxSpeed_mps new_user_params = Fin 1"
    using c by (simp_all add: fc_setters axis_frames begin_step_frame new_user_params_def)
  have u: "userParams (commandYawRate ?xe ?s2) = new_user_params" using c by (simp add: axis_frames fc_setters)
  have xb: "tc_xDeadband new_tracking_config = f64 (2 / 100)" "tc_yDeadband new_tracking_config = f64 (2 / 100)"
    "tc_desiredTargetX new_tracking_config = Fin 0" "tc_desiredTargetY new_tracking_config = Fin 0"
    "tc_kYawPerUnitError new_tracking_config = Fin 200" "tc_kAltPerUnitError new_tracking_config = Fin (1 / 2)"
    by (simp_all add: new_tracking_config_def)
  have e: "runFollowTargetLogic ?a = on_command (\<lambda>cmd. cmd\<lparr> bf_roll := DRONE_MID \<rparr>) ?s5"
    using v by (simp only: runFollowTargetLogic_def Let_def c m(1,3,5) xb if_False not_True_eq_False simp_thms(8)
        u f2(2,4) commandYawRate_deflect[OF conjunct1[OF yaw_turns[OF m(2)]]]
        commandForward_deflect[OF f2(2) conjunct1[OF forward_keeps[OF m(6,7)]]])
  let ?r = "currentCommand (runFollowTargetLogic ?a)"
  have r: "bf_roll ?r = DRONE_MID" "bf_yaw ?r = deflect (Fin 180) ?xe" "bf_pitch ?r = deflect (Fin 1) ?fw"
    "bf_throttle ?r = bf_throttle (currentCommand ?s5)"
    unfolding e by (simp_all add: on_command_def axis_frames)
  have y: "turns_towards x (bf_yaw ?r)" unfolding r using yaw_turns[OF m(2)] by blast
  have p: "keeps_distance b (bf_pitch ?r)" unfolding r using forward_keeps[OF m(6,7)] by blast
  have th: "holds_height y (hoverThrottle s) (bf_throttle ?r)"
    unfolding r using height_holds[OF m(4), of ?s4] h assms(3) unfolding f2(3) by blast
  note fin = finish_in_band[of "runFollowTargetLogic ?a", unfolded r(1), OF mid_in(1)
      keeps_distance_in[OF p] turns_towards_in[OF y] holds_height_in[OF th h(2,3)]]
  have "td_tracking_state (telemetryData (runFollowTargetLogic ?a)) = TS_Tracking"
    "td_confidence (telemetryData (runFollowTargetLogic ?a)) = tm_confidence ?m"
    unfolding e by (simp_all add: on_command_def axis_frames) (simp_all add: fc_setters)
  then show ?thesis using fin y p th m unfolding t
    by (simp add: follows_target_def finish_confidence finish_step_frame rc_consts)
qed

text \<open>
  C7: Tracking mode steers only towards a valid target. With the program's own configuration,
  after any calls and in any tick in tracking mode: with a tracked target that is fresh and
  confident enough, the yaw turns towards it, the pitch holds its size, the throttle its height
  and the roll stays centred, and the telemetry reports the target's confidence; otherwise the
  drone hovers level at the calibrated throttle and reports no confidence.
\<close>

theorem tracking_steers_to_valid_target:
  assumes "list_all plain_call calls" "s = run fc_step new_fc_state calls"
    and "controlMode s = CM_Tracking" "hoverThrottle s \<noteq> 0"
  shows "let (c, s') = updateTimeStep dt s; m = lastTrackingMsg s in
    controlMode s' = CM_Tracking \<and>
    (if isTargetValid (begin_step (control_dt dt) s)
     then follows_target (hoverThrottle s) m c \<and> td_tracking_state (telemetryData s') = TS_Tracking \<and>
       td_confidence (telemetryData s') = tm_confidence m
     else hovers_level (hoverThrottle s) c \<and> td_tracking_state (telemetryData s') \<noteq> TS_Tracking \<and>
       td_confidence (telemetryData s') = Fin 0)"
proof -
  have ok: "plain_ok s" using assms(1,2) plain_ok_run[OF _ plain_ok_new] by simp
  have u: "updateTimeStep dt s = (currentCommand (fc_tick s dt), fc_tick s dt)"
    using fst_updateTimeStep[of dt s] by (simp add: fc_tick_def prod_eq_iff)
  show ?thesis
    using tracking_tick_valid[OF ok assms(3,4), of dt] tracking_tick_invalid[OF _ assms(3,4), of dt] ok
      tracking_tick_frame(1)[OF assms(3,4), of dt]
    unfolding u by (auto simp: plain_ok_def Let_def)
qed

definition sample_target :: tracking_message where
  "sample_target = \<lparr> tm_state = TS_Tracking, tm_target_x = Fin 1, tm_target_y = Fin 0, tm_bound_w = Fin (1 / 4),
     tm_bound_h = Fin (1 / 4), tm_confidence = Fin 1, tm_timestamp_s = Fin 9 \<rparr>"

definition sample_flight :: "fc_call list" where
  "sample_flight = [Fc_setHoverThrottle 1400, Fc_updateTracking sample_target, Fc_setControlMode CM_Tracking]"

lemma sample_flight_state:
  "controlMode (run fc_step new_fc_state sample_flight) = CM_Tracking"
  "hoverThrottle (run fc_step new_fc_state sample_flight) = 1400"
  "lastTrackingMsg (run fc_step new_fc_state sample_flight) = sample_target"
  "isTargetValid (begin_step (control_dt NaN) (run fc_step new_fc_state sample_flight))"
proof -
  have f: "f64 (4 / 5) \<noteq> NaN" "\<not> flt (f64 (4 / 5)) (Fin 0)"
    using f64_nonneg[of "4 / 5"] not_flt[of "f64 (4 / 5)" "Fin 0"] by simp_all
  show "controlMode (run fc_step new_fc_state sample_flight) = CM_Tracking"
    "hoverThrottle (run fc_step new_fc_state sample_flight) = 1400"
    "lastTrackingMsg (run fc_step new_fc_state sample_flight) = sample_target"
    "isTargetValid (begin_step (control_dt NaN) (run fc_step new_fc_state sample_flight))"
    using f by (simp_all add: sample_flight_def sample_target_def new_fc_state_def clampCommandChannels_def fc_setters
        setHoverThrottle_def u16_clamp_def fc_consts updateTracking_def Let_def clamp_message_def
        setControlMode_def isTargetValid_def tracking_stale_def low_confidence_def begin_step_def
        control_dt_def new_telemetry_data_def new_tracking_config_def fsub_def)
qed

theorem tracking_steers_to_valid_target_witness:
  "bf_yaw (fst (updateTimeStep NaN (run fc_step new_fc_state sample_flight))) = 1800 \<and>
   bf_pitch (fst (updateTimeStep NaN (run fc_step new_fc_state sample_flight))) = 1500"
proof -
  have p: "list_all plain_call sample_flight" by (simp add: sample_flight_def)
  have h: "hoverThrottle (run fc_step new_fc_state sample_flight) \<noteq> 0" using sample_flight_state(2) by simp
  show ?thesis
    using tracking_steers_to_valid_target[OF p refl sample_flight_state(1) h, of NaN] sample_flight_state
    by (simp add: Let_def split_beta follows_target_def sample_target_def turns_towards_def keeps_distance_def)
qed

end
