(* ===== verification/Fc_Parser.thy ===== *)
theory Fc_Parser
  imports Json_Text Py_Text
begin

section \<open>The flight controller's command parser\<close>

text \<open>
  \<open>src/src/fc/header/CommandReceiver.h\<close> and \<open>src/src/fc/implementation/CommandReceiver.cpp\<close>:
  the hand-written scanner that reads a command frame out of JSON text. The C++ functions work
  on positions \<open>i\<close> of a string up to an exclusive limit; here a position is the text from \<open>i\<close> to
  that limit, and a function that returns the next position returns the text that is left. An
  object's span is the text between its braces. A scan that fails is \<open>None\<close>.
\<close>

subsection \<open>Command frames\<close>

record command_setpoints =
  sp_roll :: "pyfloat option"      \<comment> \<open>\<open>has_roll\<close> and \<open>roll\<close>\<close>
  sp_pitch :: "pyfloat option"
  sp_yaw_rate :: "pyfloat option"
  sp_throttle :: "pyfloat option"

record command_tracking =
  ct_tracking_state :: int
  ct_loc_x :: pyfloat
  ct_loc_y :: pyfloat
  ct_bound_w :: pyfloat
  ct_bound_h :: pyfloat
  ct_confidence :: pyfloat
  ct_vis_seq :: int
  ct_vis_timestamp_s :: pyfloat

record command_frame =
  cf_seq :: int
  cf_timestamp_s :: pyfloat
  cf_desired_mode :: int
  cf_arm :: "bool option"
  cf_setpoints :: command_setpoints
  cf_tracking :: "command_tracking option"
  cf_raw_json :: string

definition no_setpoints :: command_setpoints where
  "no_setpoints = \<lparr> sp_roll = None, sp_pitch = None, sp_yaw_rate = None, sp_throttle = None \<rparr>"

subsection \<open>Scanning\<close>

definition c_isspace :: "char \<Rightarrow> bool" where
  \<comment> \<open>\<open>std::isspace\<close> in the C locale\<close>
  "c_isspace c = (let n = of_char c :: nat in n = 32 \<or> (9 \<le> n \<and> n \<le> 13))"

definition skip_ws :: "string \<Rightarrow> string" where
  "skip_ws s = dropWhile c_isspace s"

definition is_value_delim :: "char \<Rightarrow> bool" where
  "is_value_delim c = (c = CHR '','' \<or> c = CHR 0x7D \<or> c = CHR '']'' \<or> c_isspace c)"

fun scan_string :: "bool \<Rightarrow> string \<Rightarrow> (string \<times> string) option" where
  \<comment> \<open>the loop of \<open>parse_json_string_token\<close>; an escape yields the escaped character itself\<close>
  "scan_string escaped [] = None"
| "scan_string escaped (c # cs) =
     (if escaped then map_option (apfst (Cons c)) (scan_string False cs)
      else if c = CHR 0x5C then scan_string True cs
      else if c = CHR 0x22 then Some ([], cs)
      else map_option (apfst (Cons c)) (scan_string False cs))"

definition parse_json_string_token :: "string \<Rightarrow> (string \<times> string) option" where
  "parse_json_string_token s = (case s of
      c # cs \<Rightarrow> if c = CHR 0x22 then scan_string False cs else None
    | [] \<Rightarrow> None)"

fun match_close :: "char \<Rightarrow> char \<Rightarrow> nat \<Rightarrow> bool \<Rightarrow> bool \<Rightarrow> string \<Rightarrow> (string \<times> string) option" where
  \<comment> \<open>the loop of \<open>find_matching_close\<close> after the opening character: the depth, and whether the
    scan is in a string or after a backslash in one; the text before the close, and after it\<close>
  "match_close open_ch close_ch depth in_string escaped [] = None"
| "match_close open_ch close_ch depth in_string escaped (c # cs) =
     (let keep = (\<lambda>d i e. map_option (apfst (Cons c)) (match_close open_ch close_ch d i e cs)) in
      if in_string
      then (if escaped then keep depth True False
            else if c = CHR 0x5C then keep depth True True
            else if c = CHR 0x22 then keep depth False False
            else keep depth True False)
      else if c = CHR 0x22 then keep depth True False
      else if c = open_ch then keep (depth + 1) False False
      else if c = close_ch then (if depth = 1 then Some ([], cs) else keep (depth - 1) False False)
      else keep depth False False)"

definition find_matching_close :: "char \<Rightarrow> char \<Rightarrow> string \<Rightarrow> (string \<times> string) option" where
  "find_matching_close open_ch close_ch s = (case s of
      c # cs \<Rightarrow> if c = open_ch then match_close open_ch close_ch 1 False False cs else None
    | [] \<Rightarrow> None)"

definition scan_sign :: "string \<Rightarrow> string \<times> string" where
  "scan_sign s = (case s of
      c # cs \<Rightarrow> if c = CHR ''+'' \<or> c = CHR ''-'' then ([c], cs) else ([], s)
    | [] \<Rightarrow> ([], s))"

definition scan_fraction :: "string \<Rightarrow> string \<times> string" where
  "scan_fraction s = (case s of
      c # cs \<Rightarrow> if c = CHR ''.'' then (c # takeWhile is_digit cs, dropWhile is_digit cs) else ([], s)
    | [] \<Rightarrow> ([], s))"

definition scan_exponent :: "string \<Rightarrow> (string \<times> string) option" where
  \<comment> \<open>\<open>None\<close> when the exponent has no digit\<close>
  "scan_exponent s = (case s of
      c # cs \<Rightarrow>
        if c = CHR ''e'' \<or> c = CHR ''E''
        then (let (sg, r) = scan_sign cs; ds = takeWhile is_digit r
              in if ds = [] then None else Some (c # sg @ ds, dropWhile is_digit r))
        else Some ([], s)
    | [] \<Rightarrow> Some ([], s))"

definition parse_json_number_token :: "string \<Rightarrow> (string \<times> string) option" where
  "parse_json_number_token s =
     (let (sg, r1) = scan_sign s;
          ip = takeWhile is_digit r1; r2 = dropWhile is_digit r1;
          (fp, r3) = scan_fraction r2
      in if ip = [] \<and> tl fp = [] then None
         else case scan_exponent r3 of
             None \<Rightarrow> None
           | Some (ex, r4) \<Rightarrow>
               (case r4 of
                  c # _ \<Rightarrow> if is_value_delim c then Some (sg @ ip @ fp @ ex, r4) else None
                | [] \<Rightarrow> Some (sg @ ip @ fp @ ex, r4)))"

definition literal :: "string \<Rightarrow> string \<Rightarrow> string option option" where
  \<comment> \<open>whether the text starts with the word, and if so what follows when it ends there\<close>
  "literal w s =
     (if take (length w) s \<noteq> w then None
      else Some (case drop (length w) s of
          c # cs \<Rightarrow> if is_value_delim c then Some (c # cs) else None
        | [] \<Rightarrow> Some []))"

definition skip_json_value :: "string \<Rightarrow> string option" where
  "skip_json_value s = (case s of
      [] \<Rightarrow> None
    | c # _ \<Rightarrow>
        if c = CHR 0x22 then map_option snd (parse_json_string_token s)
        else if c = CHR 0x7B then map_option snd (find_matching_close (CHR 0x7B) (CHR 0x7D) s)
        else if c = CHR ''['' then map_option snd (find_matching_close (CHR ''['') (CHR '']'') s)
        else case literal ''true'' s of Some r \<Rightarrow> r
      | None \<Rightarrow> (case literal ''false'' s of Some r \<Rightarrow> r
      | None \<Rightarrow> (case literal ''null'' s of Some r \<Rightarrow> r
      | None \<Rightarrow> map_option snd (parse_json_number_token s))))"

definition find_root_object_span :: "string \<Rightarrow> string option" where
  \<comment> \<open>the text between the braces of the one object the text consists of\<close>
  "find_root_object_span json =
     (case find_matching_close (CHR 0x7B) (CHR 0x7D) (skip_ws json) of
        None \<Rightarrow> None
      | Some (inside, rest) \<Rightarrow> if skip_ws rest = [] then Some inside else None)"

subsection \<open>Every scan consumes text\<close>

lemma scan_string_shorter: "scan_string e s = Some (v, r) \<Longrightarrow> length r < length s"
  by (induction e s arbitrary: v rule: scan_string.induct) (fastforce split: if_splits)+

lemma match_close_shorter: "match_close a b d i e s = Some (v, r) \<Longrightarrow> length r < length s"
  by (induction a b d i e s arbitrary: v rule: match_close.induct)
    (fastforce simp: Let_def split: if_splits)+

lemma parse_json_string_token_shorter: "parse_json_string_token s = Some (v, r) \<Longrightarrow> length r < length s"
  by (auto simp: parse_json_string_token_def dest: scan_string_shorter split: list.splits if_splits)

lemma find_matching_close_shorter: "find_matching_close a b s = Some (v, r) \<Longrightarrow> length r < length s"
  by (auto simp: find_matching_close_def dest: match_close_shorter split: list.splits if_splits)

lemma skip_ws_shorter: "length (skip_ws s) \<le> length s"
  by (simp add: skip_ws_def length_dropWhile_le)

lemma scan_sign_split: "scan_sign s = (a, r) \<Longrightarrow> s = a @ r"
  by (auto simp: scan_sign_def split: list.splits if_splits)

lemma scan_fraction_split: "scan_fraction s = (a, r) \<Longrightarrow> s = a @ r"
  by (auto simp: scan_fraction_def split: list.splits if_splits)

lemma scan_exponent_split: "scan_exponent s = Some (a, r) \<Longrightarrow> s = a @ r"
  by (auto simp: scan_exponent_def Let_def dest: scan_sign_split split: list.splits if_splits prod.splits)

lemma parse_json_number_token_split: "parse_json_number_token s = Some (t, r) \<Longrightarrow> s = t @ r \<and> t \<noteq> []"
proof -
  assume p: "parse_json_number_token s = Some (t, r)"
  obtain sg r1 where a: "scan_sign s = (sg, r1)" by fastforce
  let ?ip = "takeWhile is_digit r1"
  obtain fp r3 where f: "scan_fraction (dropWhile is_digit r1) = (fp, r3)" by fastforce
  obtain ex r4 where e: "scan_exponent r3 = Some (ex, r4)"
    using p a f by (auto simp: parse_json_number_token_def Let_def split: if_splits option.splits)
  have "?ip \<noteq> [] \<or> fp \<noteq> []" using p a f by (auto simp: parse_json_number_token_def Let_def split: if_splits)
  moreover have "t = sg @ ?ip @ fp @ ex" "r = r4"
    using p a f e by (auto simp: parse_json_number_token_def Let_def split: if_splits list.splits)
  moreover have "s = sg @ ?ip @ fp @ ex @ r4"
    using scan_sign_split[OF a] scan_fraction_split[OF f] scan_exponent_split[OF e]
      takeWhile_dropWhile_id[of is_digit r1] by (metis append_assoc)
  ultimately show ?thesis by auto
qed

lemma literal_shorter: "literal w s = Some (Some r) \<Longrightarrow> length r \<le> length s"
  by (auto simp: literal_def split: if_splits list.splits)

lemma skip_json_value_shorter: "skip_json_value s = Some r \<Longrightarrow> length r \<le> length s"
proof -
  assume sk: "skip_json_value s = Some r"
  have n: "length r' \<le> length s" if "parse_json_number_token s = Some (t, r')" for t r'
    using parse_json_number_token_split[OF that] by auto
  show ?thesis using sk n
    by (auto simp: skip_json_value_def dest!: parse_json_string_token_shorter find_matching_close_shorter
        literal_shorter split: list.splits if_splits option.splits)
qed

subsection \<open>Finding a key\<close>

lemma find_key_step_shorter:
  assumes "skip_ws s = c # cs" "parse_json_string_token (c # cs) = Some (k, r1)" "skip_ws r1 = c1 # r2"
    and "skip_json_value (skip_ws r2) = Some r3"
  shows "length r3 < length s"
proof -
  have "length r3 \<le> length (skip_ws r2)" using skip_json_value_shorter[OF assms(4)] .
  also have "\<dots> \<le> length r2" by (rule skip_ws_shorter)
  also have "\<dots> < length (skip_ws r1)" using assms(3) by simp
  also have "\<dots> \<le> length r1" by (rule skip_ws_shorter)
  also have "\<dots> < length (c # cs)" using parse_json_string_token_shorter[OF assms(2)] .
  also have "\<dots> \<le> length s" using skip_ws_shorter[of s] assms(1) by simp
  finally show ?thesis .
qed

lemma skip_ws_head_shorter: "skip_ws s = c # cs \<Longrightarrow> length cs < length s"
  using skip_ws_shorter[of s] by simp

lemma find_key_rest_shorter:
  "skip_ws s = c # cs \<Longrightarrow> parse_json_string_token (c # cs) = Some p \<Longrightarrow> (k, r1) = p \<Longrightarrow>
   skip_ws r1 = c1 # r2 \<Longrightarrow> skip_json_value (skip_ws r2) = Some (c3 # r4) \<Longrightarrow> Suc (length r4) < length s"
  using find_key_step_shorter[of s c cs k r1 c1 r2 "c3 # r4"] by simp

function find_key_in_object :: "string \<Rightarrow> string \<Rightarrow> string option" where
  \<comment> \<open>from a position inside an object: the text from the value of the key on\<close>
  "find_key_in_object key s =
     (case skip_ws s of
        [] \<Rightarrow> None
      | c # cs \<Rightarrow>
          if c = CHR '','' then find_key_in_object key cs
          else if c \<noteq> CHR 0x22 then None
          else case parse_json_string_token (c # cs) of
              None \<Rightarrow> None
            | Some (parsed_key, r1) \<Rightarrow>
                (case skip_ws r1 of
                   [] \<Rightarrow> None
                 | c1 # r2 \<Rightarrow>
                     if c1 \<noteq> CHR '':'' then None
                     else let v = skip_ws r2 in
                          if v = [] then None
                          else if parsed_key = key then Some v
                          else case skip_json_value v of
                              None \<Rightarrow> None
                            | Some r3 \<Rightarrow> (case r3 of
                                  c3 # r4 \<Rightarrow> if c3 = CHR '','' then find_key_in_object key r4
                                           else find_key_in_object key r3
                                | [] \<Rightarrow> find_key_in_object key r3)))"
  by pat_completeness auto
termination
  apply (relation "measure (\<lambda>(_, s). length s)")
  apply simp
  using skip_ws_head_shorter find_key_rest_shorter by (fastforce simp: skip_ws_def)+

declare find_key_in_object.simps [simp del]

subsection \<open>Numbers\<close>

definition range_error :: "real \<Rightarrow> bool" where
  \<comment> \<open>when \<open>strtod\<close> sets \<open>errno\<close>: overflow, or a result below the normal range that is not exact\<close>
  "range_error v = (\<not> isfinite (f64 v) \<or> \<bar>v\<bar> < 1 / 2 ^ 1022 \<and> rnd v \<noteq> v)"

definition parse_double :: "string \<Rightarrow> pyfloat option" where
  \<comment> \<open>\<open>strtod\<close> on a number token, in the C locale that \<open>main\<close> sets\<close>
  "parse_double token =
     (let (neg, u) = split_sign token in
      case parse_decimal u of
        None \<Rightarrow> None
      | Some x \<Rightarrow> (let v = (if neg then - x else x) in if range_error v then None else Some (f64 v)))"

definition parse_int_like :: "string \<Rightarrow> int option" where
  "parse_int_like token =
     (case parse_double token of
        Some (Fin v) \<Rightarrow>
          if v < - 2147483648 \<or> 2147483647 < v then None
          else let nearest = rne v in
               if flt (f64 (1 / 10 ^ 6)) (fabs (fsub (Fin v) (Fin (of_int nearest)))) then None
               else Some nearest
      | _ \<Rightarrow> None)"

subsection \<open>Fields of an object\<close>

definition find_object_span_in_object :: "string \<Rightarrow> string \<Rightarrow> string option" where
  "find_object_span_in_object key obj =
     (case find_key_in_object key obj of
        None \<Rightarrow> None
      | Some v \<Rightarrow> map_option fst (find_matching_close (CHR 0x7B) (CHR 0x7D) v))"

definition parse_json_string_field_in_object :: "string \<Rightarrow> string \<Rightarrow> string option" where
  "parse_json_string_field_in_object key obj =
     (case find_key_in_object key obj of
        None \<Rightarrow> None | Some v \<Rightarrow> map_option fst (parse_json_string_token v))"

definition parse_json_number_token_in_object :: "string \<Rightarrow> string \<Rightarrow> string option" where
  "parse_json_number_token_in_object key obj =
     (case find_key_in_object key obj of
        None \<Rightarrow> None | Some v \<Rightarrow> map_option fst (parse_json_number_token v))"

definition parse_json_bool_field_in_object :: "string \<Rightarrow> string \<Rightarrow> bool option" where
  "parse_json_bool_field_in_object key obj =
     (case find_key_in_object key obj of
        None \<Rightarrow> None
      | Some v \<Rightarrow>
          (case literal ''true'' v of
             Some (Some _) \<Rightarrow> Some True
           | _ \<Rightarrow> (case literal ''false'' v of Some (Some _) \<Rightarrow> Some False | _ \<Rightarrow> None)))"

definition double_token_field :: "string \<Rightarrow> string \<Rightarrow> pyfloat option" where
  \<comment> \<open>a required number: its token and then \<open>parse_double\<close>\<close>
  "double_token_field key obj = Option.bind (parse_json_number_token_in_object key obj) parse_double"

definition int_token_field :: "string \<Rightarrow> string \<Rightarrow> int option" where
  "int_token_field key obj = Option.bind (parse_json_number_token_in_object key obj) parse_int_like"

definition parse_optional_number_in_object :: "string \<Rightarrow> string \<Rightarrow> pyfloat option option" where
  \<comment> \<open>\<open>None\<close> when a token is there that \<open>parse_double\<close> refuses; \<open>Some None\<close> when there is none\<close>
  "parse_optional_number_in_object key obj =
     (case parse_json_number_token_in_object key obj of
        None \<Rightarrow> Some None
      | Some token \<Rightarrow> (case parse_double token of None \<Rightarrow> None | Some v \<Rightarrow> Some (Some v)))"

definition parse_setpoints :: "string \<Rightarrow> command_setpoints option" where
  "parse_setpoints body =
     (case find_key_in_object ''setpoints'' body of
        None \<Rightarrow> Some no_setpoints
      | Some v \<Rightarrow>
          if hd v \<noteq> CHR 0x7B then None
          else Option.bind (find_object_span_in_object ''setpoints'' body) (\<lambda>obj.
               Option.bind (parse_optional_number_in_object ''roll'' obj) (\<lambda>r.
               Option.bind (parse_optional_number_in_object ''pitch'' obj) (\<lambda>p.
               Option.bind (parse_optional_number_in_object ''yaw_rate'' obj) (\<lambda>y.
               Option.bind (parse_optional_number_in_object ''throttle'' obj) (\<lambda>t.
               Some \<lparr> sp_roll = r, sp_pitch = p, sp_yaw_rate = y, sp_throttle = t \<rparr>))))))"

definition parse_tracking :: "string \<Rightarrow> command_tracking option option" where
  "parse_tracking body =
     (case find_key_in_object ''tracking'' body of
        None \<Rightarrow> Some None
      | Some v \<Rightarrow>
          if hd v \<noteq> CHR 0x7B then None
          else Option.bind (find_object_span_in_object ''tracking'' body) (\<lambda>obj.
               Option.bind (int_token_field ''tracking_state'' obj) (\<lambda>ts.
               Option.bind (double_token_field ''loc_x'' obj) (\<lambda>x.
               Option.bind (double_token_field ''loc_y'' obj) (\<lambda>y.
               Option.bind (double_token_field ''bound_w'' obj) (\<lambda>w.
               Option.bind (double_token_field ''bound_h'' obj) (\<lambda>h.
               Option.bind (double_token_field ''confidence'' obj) (\<lambda>c.
               Option.bind (int_token_field ''vis_seq'' obj) (\<lambda>q.
               Option.bind (double_token_field ''vis_timestamp_s'' obj) (\<lambda>t.
               if ts < 1 \<or> 4 < ts then None
               else Some (Some \<lparr> ct_tracking_state = ts, ct_loc_x = x, ct_loc_y = y, ct_bound_w = w,
                 ct_bound_h = h, ct_confidence = c, ct_vis_seq = q, ct_vis_timestamp_s = t \<rparr>)))))))))))"

definition parse_cmd_frame :: "string \<Rightarrow> command_frame option" where
  "parse_cmd_frame json =
     Option.bind (find_root_object_span json) (\<lambda>body.
     if parse_json_string_field_in_object ''type'' body \<noteq> Some ''CMD'' then None
     else Option.bind (int_token_field ''seq'' body) (\<lambda>q.
          Option.bind (double_token_field ''timestamp_s'' body) (\<lambda>t.
          Option.bind (int_token_field ''desired_mode'' body) (\<lambda>m.
          Option.bind (parse_setpoints body) (\<lambda>sp.
          Option.bind (parse_tracking body) (\<lambda>tr.
          Some \<lparr> cf_seq = q, cf_timestamp_s = t, cf_desired_mode = m,
            cf_arm = parse_json_bool_field_in_object ''arm'' body, cf_setpoints = sp,
            cf_tracking = tr, cf_raw_json = json \<rparr>))))))"

subsection \<open>Scanning what a JSON printer wrote\<close>

definition plain :: "string \<Rightarrow> bool" where
  \<comment> \<open>printable text that needs no escape\<close>
  "plain s = list_all (\<lambda>c. 32 \<le> (of_char c :: nat) \<and> (of_char c :: nat) \<le> 126 \<and>
     c \<noteq> CHR 0x22 \<and> c \<noteq> CHR 0x5C) s"

definition number_text :: "string \<Rightarrow> bool" where
  \<comment> \<open>the whole text is one number token\<close>
  "number_text t = (parse_json_number_token t = Some (t, []) \<and>
     list_all (\<lambda>c. is_digit c \<or> c \<in> {CHR ''+'', CHR ''-'', CHR ''.'', CHR ''e'', CHR ''E''}) t)"

definition ends_value :: "string \<Rightarrow> bool" where
  "ends_value r = (r = [] \<or> is_value_delim (hd r))"

lemma c_isspace_iff: "c_isspace c \<longleftrightarrow> c \<in> {CHR '' '', CHR 0x09, CHR 0x0A, CHR 0x0B, CHR 0x0C, CHR 0x0D}"
proof -
  have "(of_char c :: nat) = of_char d \<longleftrightarrow> c = d" for d by (rule of_char_eq_iff)
  then show ?thesis
  proof -
    have "(of_char c :: nat) = 32 \<or> 9 \<le> (of_char c :: nat) \<and> (of_char c :: nat) \<le> 13 \<longleftrightarrow>
      (of_char c :: nat) \<in> {32, 9, 10, 11, 12, 13}" by auto
    also have "\<dots> \<longleftrightarrow> c \<in> {CHR '' '', CHR 0x09, CHR 0x0A, CHR 0x0B, CHR 0x0C, CHR 0x0D}"
      using of_char_eq_iff[of c "CHR '' ''", where 'a = nat] of_char_eq_iff[of c "CHR 0x09", where 'a = nat]
        of_char_eq_iff[of c "CHR 0x0A", where 'a = nat] of_char_eq_iff[of c "CHR 0x0B", where 'a = nat]
        of_char_eq_iff[of c "CHR 0x0C", where 'a = nat] of_char_eq_iff[of c "CHR 0x0D", where 'a = nat]
      by simp
    finally show ?thesis by (simp add: c_isspace_def Let_def)
  qed
qed

lemma skip_ws_id: "s = [] \<or> \<not> c_isspace (hd s) \<Longrightarrow> skip_ws s = s"
  by (cases s) (auto simp: skip_ws_def)

lemma delim_iff: "is_value_delim c \<longleftrightarrow> c \<in> {CHR '','', CHR 0x7D, CHR '']'', CHR '' '', CHR 0x09, CHR 0x0A,
    CHR 0x0B, CHR 0x0C, CHR 0x0D}"
  by (auto simp: is_value_delim_def c_isspace_iff)

lemma delim_no_number:
  "is_value_delim c \<Longrightarrow> \<not> is_digit c \<and> c \<noteq> CHR ''+'' \<and> c \<noteq> CHR ''-'' \<and> c \<noteq> CHR ''.'' \<and> c \<noteq> CHR ''e'' \<and> c \<noteq> CHR ''E''"
  by (auto simp: delim_iff is_digit_def digit_val_def)

lemma takeWhile_ends: "ends_value r \<Longrightarrow> takeWhile is_digit (s @ r) = takeWhile is_digit s"
  and dropWhile_ends: "ends_value r \<Longrightarrow> dropWhile is_digit (s @ r) = dropWhile is_digit s @ r"
  using delim_no_number by (induction s; cases r; auto simp: ends_value_def)+

lemma scan_sign_ends: "ends_value r \<Longrightarrow> scan_sign (s @ r) = (fst (scan_sign s), snd (scan_sign s) @ r)"
  using delim_no_number by (cases s; cases r) (auto simp: scan_sign_def ends_value_def)

lemma scan_fraction_ends: "ends_value r \<Longrightarrow> scan_fraction (s @ r) = (fst (scan_fraction s), snd (scan_fraction s) @ r)"
  using delim_no_number by (cases s; cases r)
    (auto simp: scan_fraction_def ends_value_def takeWhile_ends[unfolded ends_value_def] dropWhile_ends[unfolded ends_value_def])

lemma scan_exponent_ends:
  "ends_value r \<Longrightarrow> scan_exponent s = Some (a, b) \<Longrightarrow> scan_exponent (s @ r) = Some (a, b @ r)"
proof (cases s)
  case Nil
  assume "ends_value r" "scan_exponent s = Some (a, b)"
  then show ?thesis using Nil delim_no_number by (cases r) (auto simp: scan_exponent_def ends_value_def)
next
  case (Cons c cs)
  assume "ends_value r" "scan_exponent s = Some (a, b)"
  then show ?thesis using Cons
    by (auto simp: scan_exponent_def Let_def scan_sign_ends takeWhile_ends dropWhile_ends split: if_splits prod.splits)
qed

lemma number_text_token:
  assumes "number_text t" "ends_value r"
  shows "parse_json_number_token (t @ r) = Some (t, r)"
proof -
  obtain sg r1 where a: "scan_sign t = (sg, r1)" by fastforce
  obtain fp r3 where f: "scan_fraction (dropWhile is_digit r1) = (fp, r3)" by fastforce
  have p: "parse_json_number_token t = Some (t, [])" using assms(1) by (simp add: number_text_def)
  then obtain ex r4 where e: "scan_exponent r3 = Some (ex, r4)"
    using a f by (auto simp: parse_json_number_token_def Let_def split: if_splits option.splits)
  then have r4: "r4 = []" "t = sg @ takeWhile is_digit r1 @ fp @ ex" "takeWhile is_digit r1 \<noteq> [] \<or> tl fp \<noteq> []"
    using p a f by (auto simp: parse_json_number_token_def Let_def split: if_splits list.splits)
  have "scan_sign (t @ r) = (sg, r1 @ r)" using scan_sign_ends[OF assms(2), of t] a by simp
  moreover have "scan_fraction (dropWhile is_digit (r1 @ r)) = (fp, r3 @ r)"
    using scan_fraction_ends[OF assms(2)] f dropWhile_ends[OF assms(2)] by simp
  moreover have "scan_exponent (r3 @ r) = Some (ex, r)" using scan_exponent_ends[OF assms(2) e] r4 by simp
  ultimately show ?thesis using r4 assms(2) takeWhile_ends[OF assms(2), of r1]
    by (cases r) (auto simp: parse_json_number_token_def Let_def ends_value_def)
qed

subsection \<open>Printed values are scanned whole\<close>

lemma plain_simps [simp]:
  "plain []"
  "plain (c # s) \<longleftrightarrow> 32 \<le> (of_char c :: nat) \<and> (of_char c :: nat) \<le> 126 \<and> c \<noteq> CHR 0x22 \<and> c \<noteq> CHR 0x5C \<and> plain s"
  by (simp_all add: plain_def)

lemma escape_plain:
  assumes "32 \<le> (of_char c :: nat)" "(of_char c :: nat) \<le> 126" "c \<noteq> CHR 0x22" "c \<noteq> CHR 0x5C"
  shows "escape_char c = [c]"
proof -
  have "(of_char c :: nat) \<noteq> 34" "(of_char c :: nat) \<noteq> 92"
    using of_char_eq_iff[of c "CHR 0x22", where 'a = nat] of_char_eq_iff[of c "CHR 0x5C", where 'a = nat] assms by auto
  then show ?thesis using assms(1,2) by (simp add: escape_char_def Let_def)
qed

lemma quote_plain: "plain s \<Longrightarrow> quote s = CHR 0x22 # s @ [CHR 0x22]"
proof -
  have "plain s \<Longrightarrow> concat (map escape_char s) = s" by (induction s) (simp_all add: escape_plain)
  then show "plain s \<Longrightarrow> quote s = CHR 0x22 # s @ [CHR 0x22]" by (simp add: quote_def)
qed

lemma string_token: "plain s \<Longrightarrow> parse_json_string_token (quote s @ r) = Some (s, r)"
proof -
  assume p: "plain s"
  then have "scan_string False (s @ CHR 0x22 # r) = Some (s, r)" by (induction s) simp_all
  then show ?thesis by (simp add: parse_json_string_token_def quote_plain[OF p])
qed

definition transparent :: "string \<Rightarrow> bool" where
  \<comment> \<open>text that the search for a closing brace passes over\<close>
  "transparent t = (\<forall>d r. 0 < d \<longrightarrow> match_close (CHR 0x7B) (CHR 0x7D) d False False (t @ r) =
     map_option (apfst ((@) t)) (match_close (CHR 0x7B) (CHR 0x7D) d False False r))"

lemma map_apfst_append: "map_option (apfst ((@) a)) (map_option (apfst ((@) b)) x) = map_option (apfst ((@) (a @ b))) x"
  by (cases x) (auto simp: apfst_def)

lemma map_apfst_Cons: "map_option (apfst (Cons c)) (map_option (apfst ((@) b)) x) = map_option (apfst ((@) (c # b))) x"
  by (cases x) (auto simp: apfst_def)

lemma map_apfst_Nil: "map_option (apfst ((@) [])) x = x"
  by (cases x) (auto simp: apfst_def)

lemma transparent_append: "transparent a \<Longrightarrow> transparent b \<Longrightarrow> transparent (a @ b)"
  by (simp add: transparent_def map_apfst_append)

lemma apfst_Cons: "apfst (Cons c) = apfst ((@) [c])"
  by (auto simp: apfst_def)

lemma transparent_char: "c \<notin> {CHR 0x22, CHR 0x7B, CHR 0x7D} \<Longrightarrow> transparent [c]"
proof -
  assume "c \<notin> {CHR 0x22, CHR 0x7B, CHR 0x7D}"
  then show ?thesis by (simp add: transparent_def apfst_Cons)
qed

lemma transparent_chars: "list_all (\<lambda>c. c \<notin> {CHR 0x22, CHR 0x7B, CHR 0x7D}) t \<Longrightarrow> transparent t"
proof (induction t)
  case Nil
  then show ?case by (simp add: transparent_def map_apfst_Nil)
next
  case (Cons c t)
  then show ?case using transparent_append[OF transparent_char, of c t] by simp
qed

lemma transparent_quote: "plain s \<Longrightarrow> transparent (quote s)"
proof -
  assume p: "plain s"
  have "match_close (CHR 0x7B) (CHR 0x7D) d True False (s @ CHR 0x22 # r) =
      map_option (apfst ((@) (s @ [CHR 0x22]))) (match_close (CHR 0x7B) (CHR 0x7D) d False False r)" for d r
    using p
  proof (induction s)
    case Nil
    show ?case by (simp add: apfst_Cons)
  qed (simp add: map_apfst_Cons)
  then show ?thesis by (simp add: transparent_def quote_plain[OF p] map_apfst_Cons)
qed

lemma transparent_braces: "transparent t \<Longrightarrow> transparent (CHR 0x7B # t @ [CHR 0x7D])"
proof -
  assume t: "transparent t"
  have "match_close (CHR 0x7B) (CHR 0x7D) (d + 1) False False (t @ CHR 0x7D # r) =
      map_option (apfst ((@) (t @ [CHR 0x7D]))) (match_close (CHR 0x7B) (CHR 0x7D) d False False r)"
    if "0 < d" for d r
    using t[unfolded transparent_def, rule_format, of "d + 1" "CHR 0x7D # r"] that by (simp add: apfst_Cons map_apfst_append)
  then show ?thesis by (simp add: transparent_def map_apfst_Cons)
qed

fun wire_ok :: "(real \<Rightarrow> string) \<Rightarrow> pyval \<Rightarrow> bool"
  and wire_items_ok :: "(real \<Rightarrow> string) \<Rightarrow> (string \<times> pyval) list \<Rightarrow> bool" where
  \<comment> \<open>objects of plain strings, numbers, flags and such objects; \<open>fr\<close> prints numbers\<close>
  "wire_ok fr PNone = True"
| "wire_ok fr (PBool b) = True"
| "wire_ok fr (PInt i) = True"
| "wire_ok fr (PFloat f) = (case f of Fin r \<Rightarrow> number_text (fr r) | _ \<Rightarrow> False)"
| "wire_ok fr (PStr s) = plain s"
| "wire_ok fr (PList l) = False"
| "wire_ok fr (PDict d) = wire_items_ok fr d"
| "wire_items_ok fr [] = True"
| "wire_items_ok fr ((k, v) # kvs) = (plain k \<and> wire_ok fr v \<and> wire_items_ok fr kvs)"

lemma number_text_transparent: "number_text t \<Longrightarrow> transparent t"
proof (rule transparent_chars)
  assume "number_text t"
  then show "list_all (\<lambda>c. c \<notin> {CHR 0x22, CHR 0x7B, CHR 0x7D}) t"
    by (auto simp: number_text_def list_all_iff is_digit_def digit_val_def)
qed

lemma number_text_hd: "number_text t \<Longrightarrow> t \<noteq> [] \<and>
    (is_digit (hd t) \<or> hd t \<in> {CHR ''+'', CHR ''-'', CHR ''.'', CHR ''e'', CHR ''E''})"
  using parse_json_number_token_split[of t t "[]"] by (cases t) (auto simp: number_text_def)

lemma dec_nat_is_digit: "list_all is_digit (dec_nat n)"
  using dec_nat_digits by (simp add: is_digit_def[abs_def])

lemma number_text_dec_int: "number_text (dec_int i)"
proof -
  have tw: "takeWhile is_digit (dec_nat n) = dec_nat n" "dropWhile is_digit (dec_nat n) = []" for n
    using dec_nat_is_digit[of n] by (auto simp: list_all_iff takeWhile_eq_all_conv dropWhile_eq_Nil_conv)
  have ne: "dec_nat n \<noteq> []" for n using dec_nat_Cons[of n] by auto
  have sg: "scan_sign (dec_nat n) = ([], dec_nat n)" for n
    using dec_nat_Cons[of n] digit_no_sign by (auto simp: scan_sign_def)
  have f: "scan_fraction [] = ([], [])" "scan_exponent [] = Some ([], [])"
    by (simp_all add: scan_fraction_def scan_exponent_def)
  have m: "scan_sign (CHR ''-'' # s) = (''-'', s)" for s by (simp add: scan_sign_def)
  have "parse_json_number_token (dec_nat n) = Some (dec_nat n, [])"
    "parse_json_number_token (CHR ''-'' # dec_nat n) = Some (CHR ''-'' # dec_nat n, [])" for n
    unfolding parse_json_number_token_def Let_def sg m prod.case tw f by (simp_all add: ne)
  then have "parse_json_number_token (dec_int i) = Some (dec_int i, [])" by (simp add: dec_int_def)
  then show ?thesis using dec_nat_is_digit by (auto simp: number_text_def dec_int_def list_all_iff)
qed

lemma wire_transparent:
  "wire_ok fr v \<Longrightarrow> transparent (dumps fr v)"
  "True"
  "wire_items_ok fr kvs \<Longrightarrow> transparent (dump_items fr kvs)"
proof (induction fr v and fr "[] :: pyval list" and fr kvs rule: dumps_dump_elems_dump_items.induct)
  case (4 fr f)
  then show ?case by (auto split: pyfloat.splits intro: number_text_transparent)
next
  case (5 fr s)
  then show ?case by (simp add: transparent_quote)
next
  case (7 fr d)
  then show ?case using transparent_braces by simp
next
  case (11 fr k v kvs)
  have "transparent [CHR '':'']" "transparent [CHR '','']" by (rule transparent_char, simp)+
  moreover have nil: "transparent []" by (rule transparent_chars) simp
  moreover have "transparent (quote k)" "transparent (dumps fr v)" "transparent (dump_items fr kvs)"
    using 11 transparent_quote nil by (cases "kvs = []", auto)+
  ultimately have "transparent (quote k @ [CHR '':''] @ dumps fr v @
      (if kvs = [] then [] else [CHR '',''] @ dump_items fr kvs))"
    by (cases "kvs = []") (simp_all only: transparent_append if_True if_False simp_thms)
  then show ?case by (cases "kvs = []") simp_all
qed (auto intro: number_text_transparent number_text_dec_int transparent_chars)

lemma braces_span:
  assumes "wire_items_ok fr d"
  shows "find_matching_close (CHR 0x7B) (CHR 0x7D) (dumps fr (PDict d) @ r) = Some (dump_items fr d, r)"
  using wire_transparent(3)[OF assms] by (simp add: find_matching_close_def transparent_def apfst_def)

lemma literal_other: "s \<noteq> [] \<Longrightarrow> hd s \<noteq> w \<Longrightarrow> literal (w # ws) (s @ r) = None"
  by (cases s) (auto simp: literal_def)

lemma literal_self: "ends_value r \<Longrightarrow> literal w (w @ r) = Some (Some r)"
  by (cases r) (auto simp: literal_def ends_value_def)

lemma skip_number: "number_text t \<Longrightarrow> ends_value r \<Longrightarrow> skip_json_value (t @ r) = Some r"
proof -
  assume t: "number_text t" "ends_value r"
  then have h: "t \<noteq> []" "hd t \<notin> {CHR 0x22, CHR 0x7B, CHR ''['', CHR ''t'', CHR ''f'', CHR ''n''}"
    using number_text_hd[OF t(1)] by (auto simp: is_digit_def digit_val_def)
  obtain c cs where c: "t = c # cs" using h(1) by (cases t) auto
  show ?thesis using h literal_other[OF h(1), of "CHR ''t''" "''rue''" r]
      literal_other[OF h(1), of "CHR ''f''" "''alse''" r] literal_other[OF h(1), of "CHR ''n''" "''ull''" r]
      number_text_token[OF t]
    by (simp add: skip_json_value_def c)
qed

lemma skip_printed:
  assumes "wire_ok fr v" "ends_value r"
  shows "skip_json_value (dumps fr v @ r) = Some r" and "dumps fr v \<noteq> []" and "\<not> c_isspace (hd (dumps fr v @ s))"
proof -
  have "skip_json_value (dumps fr v @ r) = Some r \<and> dumps fr v \<noteq> [] \<and> \<not> c_isspace (hd (dumps fr v @ s))"
  proof (cases v)
    case (PFloat f)
    then obtain x where x: "f = Fin x" "number_text (fr x)" using assms(1) by (auto split: pyfloat.splits)
    have "\<not> c_isspace (hd (fr x))" "fr x \<noteq> []"
      using number_text_hd[OF x(2)] by (auto simp: c_isspace_iff is_digit_def digit_val_def)
    then show ?thesis using PFloat x skip_number[OF x(2) assms(2)] by simp
  next
    case (PInt i)
    have "\<not> c_isspace (hd (dec_int i))" "dec_int i \<noteq> []"
      using number_text_hd[OF number_text_dec_int[of i]] by (auto simp: c_isspace_iff is_digit_def digit_val_def)
    then show ?thesis using PInt skip_number[OF number_text_dec_int[of i] assms(2)] by simp
  next
    case (PStr t)
    then have p: "plain t" using assms(1) by simp
    then show ?thesis using PStr string_token[OF p, of r] quote_plain[OF p]
      by (simp add: skip_json_value_def c_isspace_iff)
  next
    case (PDict d)
    then have "wire_items_ok fr d" using assms(1) by simp
    then show ?thesis using PDict braces_span[of fr d r] by (simp add: skip_json_value_def c_isspace_iff)
  next
    case (PBool b)
    then show ?thesis using literal_self[OF assms(2), of "''true''"] literal_self[OF assms(2), of "''false''"]
        literal_other[of "''false''" "CHR ''t''" "''rue''" r]
      by (cases b) (simp_all add: skip_json_value_def c_isspace_iff)
  next
    case PNone
    then show ?thesis using literal_self[OF assms(2), of "''null''"]
        literal_other[of "''null''" "CHR ''t''" "''rue''" r] literal_other[of "''null''" "CHR ''f''" "''alse''" r]
      by (simp add: skip_json_value_def c_isspace_iff)
  qed (use assms(1) in simp)
  then show "skip_json_value (dumps fr v @ r) = Some r" "dumps fr v \<noteq> []" "\<not> c_isspace (hd (dumps fr v @ s))"
    by blast+
qed

text \<open>Looking a key up in the printed object finds the text of its value in the object printed.\<close>

definition after_value :: "(real \<Rightarrow> string) \<Rightarrow> (string \<times> pyval) list \<Rightarrow> string" where
  "after_value fr kvs = (if kvs = [] then [] else CHR '','' # dump_items fr kvs)"

lemma after_value_ends: "ends_value (after_value fr kvs)"
  by (simp add: after_value_def ends_value_def is_value_delim_def)

lemma find_key_Nil: "find_key_in_object key [] = None"
  by (simp add: find_key_in_object.simps[of key "[]"] skip_ws_def)

lemma find_key_item:
  assumes "plain k" "wire_ok fr v"
  shows "find_key_in_object key (quote k @ CHR '':'' # dumps fr v @ after_value fr kvs) =
    (if k = key then Some (dumps fr v @ after_value fr kvs) else find_key_in_object key (dump_items fr kvs))"
proof -
  let ?t = "after_value fr kvs"
  let ?v = "dumps fr v @ ?t"
  note sk = skip_printed[OF assms(2) after_value_ends]
  have q: "quote k @ CHR '':'' # ?v = CHR 0x22 # (k @ [CHR 0x22]) @ CHR '':'' # ?v" by (simp add: quote_plain[OF assms(1)])
  have w1: "skip_ws (CHR 0x22 # x) = CHR 0x22 # x" "skip_ws (CHR '':'' # y) = CHR '':'' # y" for x y
    by (rule skip_ws_id, simp add: c_isspace_iff)+
  have w2: "skip_ws ?v = ?v" using sk(3) by (intro skip_ws_id) blast
  have tok: "parse_json_string_token (CHR 0x22 # (k @ [CHR 0x22]) @ CHR '':'' # ?v) = Some (k, CHR '':'' # ?v)"
    using string_token[OF assms(1), of "CHR '':'' # ?v"] unfolding q by simp
  have "find_key_in_object key (quote k @ CHR '':'' # ?v) = (if k = key then Some ?v
      else case ?t of c3 # r4 \<Rightarrow> if c3 = CHR '','' then find_key_in_object key r4 else find_key_in_object key ?t
        | [] \<Rightarrow> find_key_in_object key ?t)"
    unfolding q using sk(2) by (subst find_key_in_object.simps) (simp only: w1 tok w2 sk(1) list.case option.case
        prod.case Let_def append_is_Nil_conv simp_thms if_False if_True, simp)
  then show ?thesis by (simp add: after_value_def find_key_Nil)
qed

lemma find_key_printed:
  assumes "wire_items_ok fr kvs"
  shows "case dget kvs key of
      None \<Rightarrow> find_key_in_object key (dump_items fr kvs) = None
    | Some v \<Rightarrow> wire_ok fr v \<and> (\<exists>r. find_key_in_object key (dump_items fr kvs) = Some (dumps fr v @ r) \<and> ends_value r)"
  using assms
proof (induction kvs)
  case Nil
  then show ?case by (simp add: dget_def find_key_Nil)
next
  case (Cons kv kvs)
  obtain k v where kv: "kv = (k, v)" by fastforce
  have ok: "plain k" "wire_ok fr v" "wire_items_ok fr kvs" using Cons.prems kv by simp_all
  have e: "find_key_in_object key (dump_items fr (kv # kvs)) =
      (if k = key then Some (dumps fr v @ after_value fr kvs) else find_key_in_object key (dump_items fr kvs))"
    using find_key_item[OF ok(1,2), of key kvs] by (simp add: kv after_value_def)
  show ?case
  proof (cases "k = key")
    case True
    then show ?thesis using e ok after_value_ends by (auto simp: dget_def kv)
  next
    case False
    have "dget (kv # kvs) key = dget kvs key" using False by (simp add: dget_def kv)
    then show ?thesis using Cons.IH[OF ok(3)] e False by (cases "dget kvs key") simp_all
  qed
qed

subsection \<open>Printed numbers are read back\<close>

lemma digits_val_snoc: "digits_val (ds @ [c]) = 10 * digits_val ds + (case digit_val c of None \<Rightarrow> 0 | Some d \<Rightarrow> d)"
  by (simp add: digits_val_def)

lemma digits_val_dec: "digits_val (dec_nat n) = n"
proof (induction n rule: dec_nat.induct)
  case (1 n)
  show ?case
  proof (cases "n < 10")
    case True
    then show ?thesis by (simp add: dec_nat.simps[of n] digits_val_def digit_val_char)
  next
    case False
    then show ?thesis using 1[OF False] by (simp add: dec_nat.simps[of n] digits_val_snoc digit_val_char)
  qed
qed

lemma parse_decimal_dec: "parse_decimal (dec_nat n) = Some (real n)"
proof -
  have tw: "takeWhile is_digit (dec_nat n) = dec_nat n" "dropWhile is_digit (dec_nat n) = []"
    using dec_nat_is_digit[of n] by (auto simp: list_all_iff takeWhile_eq_all_conv dropWhile_eq_Nil_conv)
  have "dec_nat n \<noteq> []" using dec_nat_Cons[of n] by auto
  then show ?thesis
    by (simp add: tw parse_decimal_def Let_def parse_exponent_def scale10_def digits_val_dec)
qed

lemma parse_double_dec_int:
  assumes "\<bar>i\<bar> < 2 ^ 53"
  shows "parse_double (dec_int i) = Some (Fin (of_int i))"
proof -
  have r: "rnd (of_int i) = of_int i" using assms by (rule rnd_of_int)
  have "real_of_int \<bar>i\<bar> < of_int (2 ^ 53)" using assms by (simp only: of_int_less_iff)
  then have f: "f64 (of_int i) = Fin (of_int i)" using r by (intro f64_exact) simp_all
  have sg: "split_sign (dec_nat n) = (False, dec_nat n)" for n
    using dec_nat_Cons[of n] digit_no_sign by (auto simp: split_sign_def)
  show ?thesis
  proof (cases "i < 0")
    case True
    have "- real (nat (- i)) = of_int i" using True by simp
    then show ?thesis using True r f
      by (simp add: dec_int_def parse_double_def split_sign_def parse_decimal_dec range_error_def Let_def del: of_nat_nat)
  next
    case False
    have "real (nat i) = of_int i" using False by simp
    then show ?thesis using False r f
      by (simp add: dec_int_def parse_double_def sg parse_decimal_dec range_error_def Let_def del: of_nat_nat)
  qed
qed

definition int32 :: "int \<Rightarrow> bool" where
  "int32 i = (- 2147483648 \<le> i \<and> i \<le> 2147483647)"

lemma parse_int_like_dec:
  assumes "int32 i"
  shows "parse_int_like (dec_int i) = Some i"
proof -
  have "\<bar>i\<bar> < 2 ^ 53" using assms by (auto simp: int32_def)
  then have d: "parse_double (dec_int i) = Some (Fin (of_int i))" by (rule parse_double_dec_int)
  have b: "\<not> real_of_int i < - 2147483648" "\<not> 2147483647 < real_of_int i" using assms by (auto simp: int32_def)
  have "\<not> flt (f64 (1 / 10 ^ 6)) (Fin 0)"
    using f64_nonneg[of "1 / 10 ^ 6"] not_flt[of "f64 (1 / 10 ^ 6)" "Fin 0"] by simp
  then show ?thesis using b by (simp add: parse_int_like_def d fsub_self Let_def)
qed

definition reads_back :: "(real \<Rightarrow> string) \<Rightarrow> real \<Rightarrow> bool" where
  \<comment> \<open>the printed number is one number token and is read back exactly\<close>
  "reads_back fr r = (number_text (fr r) \<and> parse_double (fr r) = Some (Fin r))"

lemma number_of_printed:
  assumes "wire_items_ok fr kvs"
  shows "dget kvs key = Some (PInt i) \<Longrightarrow> parse_json_number_token_in_object key (dump_items fr kvs) = Some (dec_int i)"
    and "dget kvs key = Some (PFloat (Fin r)) \<Longrightarrow> parse_json_number_token_in_object key (dump_items fr kvs) = Some (fr r)"
    and "dget kvs key = None \<Longrightarrow> parse_json_number_token_in_object key (dump_items fr kvs) = None"
  using find_key_printed[OF assms, of key] number_text_token[OF number_text_dec_int]
    number_text_token[of "fr r"]
  by (auto simp: parse_json_number_token_in_object_def)

lemma int_token_printed:
  "wire_items_ok fr kvs \<Longrightarrow> dget kvs key = Some (PInt i) \<Longrightarrow> int32 i \<Longrightarrow> int_token_field key (dump_items fr kvs) = Some i"
  by (simp add: int_token_field_def number_of_printed parse_int_like_dec)

lemma double_token_printed:
  "wire_items_ok fr kvs \<Longrightarrow> dget kvs key = Some (PFloat (Fin r)) \<Longrightarrow> reads_back fr r \<Longrightarrow>
   double_token_field key (dump_items fr kvs) = Some (Fin r)"
  by (simp add: double_token_field_def number_of_printed reads_back_def)

lemma string_field_printed:
  assumes "wire_items_ok fr kvs" "dget kvs key = Some (PStr t)"
  shows "parse_json_string_field_in_object key (dump_items fr kvs) = Some t"
  using find_key_printed[OF assms(1), of key] assms(2) string_token[of t]
  by (auto simp: parse_json_string_field_in_object_def)

lemma bool_field_printed:
  assumes "wire_items_ok fr kvs" "dget kvs key = map_option PBool b"
  shows "parse_json_bool_field_in_object key (dump_items fr kvs) = b"
proof (cases b)
  case None
  then show ?thesis using find_key_printed[OF assms(1), of key] assms(2)
    by (simp add: parse_json_bool_field_in_object_def)
next
  case (Some x)
  then obtain r where r: "find_key_in_object key (dump_items fr kvs) = Some (dumps fr (PBool x) @ r)" "ends_value r"
    using find_key_printed[OF assms(1), of key] assms(2) by auto
  then show ?thesis using Some literal_self[OF r(2), of "''true''"] literal_self[OF r(2), of "''false''"]
      literal_other[of "''false''" "CHR ''t''" "''rue''" r]
    by (cases x) (simp_all add: parse_json_bool_field_in_object_def)
qed

lemma object_printed:
  assumes "wire_items_ok fr kvs" "dget kvs key = Some (PDict d)"
  shows "wire_items_ok fr d" "find_object_span_in_object key (dump_items fr kvs) = Some (dump_items fr d)"
    "\<exists>v. find_key_in_object key (dump_items fr kvs) = Some v \<and> hd v = CHR 0x7B"
proof -
  obtain r where r: "wire_items_ok fr d"
    "find_key_in_object key (dump_items fr kvs) = Some (dumps fr (PDict d) @ r)"
    using find_key_printed[OF assms(1), of key] assms(2) by auto
  then show "wire_items_ok fr d" "find_object_span_in_object key (dump_items fr kvs) = Some (dump_items fr d)"
    "\<exists>v. find_key_in_object key (dump_items fr kvs) = Some v \<and> hd v = CHR 0x7B"
    using braces_span[OF r(1), of r] by (simp_all add: find_object_span_in_object_def)
qed

lemma optional_printed:
  assumes "wire_items_ok fr kvs" "dget kvs key = map_option (PFloat \<circ> Fin) x" "case x of None \<Rightarrow> True | Some r \<Rightarrow> reads_back fr r"
  shows "parse_optional_number_in_object key (dump_items fr kvs) = Some (map_option Fin x)"
  using assms by (cases x) (auto simp: parse_optional_number_in_object_def number_of_printed reads_back_def)

lemma root_printed:
  assumes "wire_items_ok fr d"
  shows "find_root_object_span (dumps fr (PDict d)) = Some (dump_items fr d)"
proof -
  have "skip_ws (dumps fr (PDict d)) = dumps fr (PDict d)" by (rule skip_ws_id) (simp add: c_isspace_iff)
  then show ?thesis using braces_span[OF assms, of "[]"] by (simp add: find_root_object_span_def skip_ws_def)
qed

end
