(* ===== verification/Fc_Link.thy ===== *)
theory Fc_Link
  imports Cmd_Schema Fc_Parser
begin

section \<open>From the backend's command to the flight controller's\<close>

text \<open>
  The composition of \<open>src/src/backend/cmd_schema.py\<close>, the length-prefixed stream and
  \<open>src/src/fc/implementation/CommandReceiver.cpp\<close>: what \<open>parse_cmd_frame\<close> reads out of the text
  of a built command. The only thing asked of the number printer \<open>fr\<close>, Python's
  \<open>float.__repr__\<close>, is that the numbers of this command are read back (\<open>reads_back\<close>).
\<close>

fun fc_readable :: "(real \<Rightarrow> string) \<Rightarrow> pyval \<Rightarrow> bool"
  and fc_items_readable :: "(real \<Rightarrow> string) \<Rightarrow> (string \<times> pyval) list \<Rightarrow> bool" where
  \<comment> \<open>what the flight controller's parser can take in\<close>
  "fc_readable fr PNone = True"
| "fc_readable fr (PBool b) = True"
| "fc_readable fr (PInt i) = int32 i"
| "fc_readable fr (PFloat f) = (case f of Fin r \<Rightarrow> reads_back fr r | _ \<Rightarrow> False)"
| "fc_readable fr (PStr s) = plain s"
| "fc_readable fr (PList l) = False"
| "fc_readable fr (PDict d) = fc_items_readable fr d"
| "fc_items_readable fr [] = True"
| "fc_items_readable fr ((k, v) # kvs) = (plain k \<and> fc_readable fr v \<and> fc_items_readable fr kvs)"

lemma readable_wire:
  "fc_readable fr v \<Longrightarrow> wire_ok fr v"
  "fc_items_readable fr kvs \<Longrightarrow> wire_items_ok fr kvs"
  by (induction fr v and fr kvs rule: fc_readable_fc_items_readable.induct)
    (auto simp: reads_back_def split: pyfloat.splits)

lemma readable_dget: "fc_items_readable fr kvs \<Longrightarrow> dget kvs k = Some v \<Longrightarrow> fc_readable fr v"
  by (induction kvs) (auto simp: dget_def split: if_splits)

lemma readable_append: "fc_items_readable fr (xs @ ys) \<longleftrightarrow> fc_items_readable fr xs \<and> fc_items_readable fr ys"
  by (induction xs) auto

subsection \<open>What a command frame should hold\<close>

fun number_of :: "pyval option \<Rightarrow> pyfloat option" where
  "number_of (Some (PFloat f)) = Some f"
| "number_of (Some (PInt i)) = Some (Fin (of_int i))"
| "number_of _ = None"

fun int_of :: "pyval option \<Rightarrow> int" where
  "int_of (Some (PInt i)) = i"
| "int_of _ = 0"

fun float_of :: "pyval option \<Rightarrow> pyfloat" where
  "float_of (Some (PFloat f)) = f"
| "float_of _ = Fin 0"

definition sent_setpoints :: "pydict option \<Rightarrow> command_setpoints" where
  "sent_setpoints sp = (case sp of
      None \<Rightarrow> no_setpoints
    | Some d \<Rightarrow> \<lparr> sp_roll = number_of (dget d ''roll''), sp_pitch = number_of (dget d ''pitch''),
        sp_yaw_rate = number_of (dget d ''yaw_rate''), sp_throttle = number_of (dget d ''throttle'') \<rparr>)"

definition snapshot_target :: "pydict \<Rightarrow> command_tracking" where
  \<comment> \<open>the target of a vision snapshot\<close>
  "snapshot_target v = \<lparr> ct_tracking_state = int_of (dget v ''tracking_state''),
     ct_loc_x = float_of (dget v ''loc_x''), ct_loc_y = float_of (dget v ''loc_y''),
     ct_bound_w = float_of (dget v ''bound_w''), ct_bound_h = float_of (dget v ''bound_h''),
     ct_confidence = float_of (dget v ''confidence''), ct_vis_seq = int_of (dget v ''seq''),
     ct_vis_timestamp_s = float_of (dget v ''timestamp_s'') \<rparr>"

definition sent_target :: "pydict option \<Rightarrow> pyfloat option \<Rightarrow> pyfloat \<Rightarrow> command_tracking option" where
  "sent_target vis age fresh_s = (if is_vis_fresh vis age fresh_s then map_option snapshot_target vis else None)"

subsection \<open>Fields that are no numbers\<close>

lemma no_number_token:
  "s \<noteq> [] \<Longrightarrow> \<not> is_digit (hd s) \<Longrightarrow> hd s \<notin> {CHR ''+'', CHR ''-'', CHR ''.''} \<Longrightarrow> parse_json_number_token s = None"
  by (cases s) (auto simp: parse_json_number_token_def scan_sign_def scan_fraction_def Let_def)

lemma optional_number_printed:
  assumes "fc_items_readable fr kvs"
  shows "parse_optional_number_in_object key (dump_items fr kvs) = Some (number_of (dget kvs key))"
proof -
  have w: "wire_items_ok fr kvs" using readable_wire(2)[OF assms] .
  have other: "parse_json_number_token_in_object key (dump_items fr kvs) = None"
    if "dget kvs key = Some v" "\<And>r. parse_json_number_token (dumps fr v @ r) = None" for v
    using find_key_printed[OF w, of key] that by (auto simp: parse_json_number_token_in_object_def)
  note nn = no_number_token[of "c # cs" for c cs, simplified]
  show ?thesis
  proof (cases "dget kvs key")
    case None
    then show ?thesis using number_of_printed(3)[OF w None] by (simp add: parse_optional_number_in_object_def)
  next
    case (Some v)
    have rd: "fc_readable fr v" using readable_dget[OF assms Some] .
    show ?thesis
    proof (cases v)
      case (PFloat f)
      then obtain r where r: "f = Fin r" "reads_back fr r" using rd by (auto split: pyfloat.splits)
      then show ?thesis using PFloat Some number_of_printed(2)[OF w, of key r]
        by (simp add: parse_optional_number_in_object_def reads_back_def)
    next
      case (PInt i)
      then have "int32 i" using rd by simp
      then have "\<bar>i\<bar> < 2 ^ 53" by (auto simp: int32_def)
      then show ?thesis using PInt Some number_of_printed(1)[OF w, of key i] parse_double_dec_int
        by (simp add: parse_optional_number_in_object_def)
    next
      case (PStr t)
      then have "quote t = CHR 0x22 # t @ [CHR 0x22]" using rd quote_plain by simp
      then show ?thesis using PStr Some other[OF Some] nn
        by (simp add: parse_optional_number_in_object_def is_digit_def digit_val_def)
    next
      case (PBool b)
      then show ?thesis using Some other[OF Some] nn
        by (cases b) (simp_all add: parse_optional_number_in_object_def is_digit_def digit_val_def)
    qed (use rd Some other[OF Some] nn in \<open>simp_all add: parse_optional_number_in_object_def is_digit_def digit_val_def\<close>)
  qed
qed

lemma setpoints_printed:
  assumes "fc_items_readable fr kvs" "dget kvs ''setpoints'' = map_option PDict sp"
  shows "parse_setpoints (dump_items fr kvs) = Some (sent_setpoints sp)"
proof (cases sp)
  case None
  then show ?thesis using assms find_key_printed[OF readable_wire(2)[OF assms(1)], of "''setpoints''"]
    by (simp add: parse_setpoints_def sent_setpoints_def)
next
  case (Some d)
  have d: "dget kvs ''setpoints'' = Some (PDict d)" using assms(2) Some by simp
  have r: "fc_items_readable fr d" using readable_dget[OF assms(1) d] by simp
  obtain v where v: "find_key_in_object ''setpoints'' (dump_items fr kvs) = Some v" "hd v = CHR 0x7B"
    using object_printed(3)[OF readable_wire(2)[OF assms(1)] d] by blast
  show ?thesis
    using v object_printed(2)[OF readable_wire(2)[OF assms(1)] d] optional_number_printed[OF r]
    by (simp add: parse_setpoints_def Some sent_setpoints_def)
qed

lemma tracking_object_of_wf:
  assumes "vis_wf v" "build_tracking_object v = Inr trk"
  obtains q st x y w h c t where "v = vis_message q t st x y w h c" "1 \<le> st" "st \<le> 4"
    "trk = [(''tracking_state'', PInt st), (''loc_x'', PFloat x), (''loc_y'', PFloat y), (''bound_w'', PFloat w),
       (''bound_h'', PFloat h), (''confidence'', PFloat c), (''vis_seq'', PInt q), (''vis_timestamp_s'', PFloat t)]"
  using assms(1)
proof (cases rule: vis_wf_message)
  case (1 seq ts st x y w h c)
  then show thesis using assms(2) that[of seq ts st x y w h c]
    by (auto simp: build_tracking_object_def vis_message_def missing_fields_def TRACKING_REQUIRED_def
      int_at_def float_at_def dindex_def TRACKING_STATES_def)
qed

lemma tracking_printed:
  assumes "fc_items_readable fr kvs" "dget kvs ''tracking'' = Some (PDict trk)"
    and "trk = [(''tracking_state'', PInt st), (''loc_x'', PFloat x), (''loc_y'', PFloat y), (''bound_w'', PFloat w),
       (''bound_h'', PFloat h), (''confidence'', PFloat c), (''vis_seq'', PInt q), (''vis_timestamp_s'', PFloat t)]"
    and "1 \<le> st" "st \<le> 4"
  shows "parse_tracking (dump_items fr kvs) = Some (Some \<lparr> ct_tracking_state = st, ct_loc_x = x, ct_loc_y = y,
     ct_bound_w = w, ct_bound_h = h, ct_confidence = c, ct_vis_seq = q, ct_vis_timestamp_s = t \<rparr>)"
proof -
  have w: "wire_items_ok fr kvs" using readable_wire(2)[OF assms(1)] .
  have r: "fc_items_readable fr trk" using readable_dget[OF assms(1,2)] by simp
  then have wt: "wire_items_ok fr trk" by (rule readable_wire(2))
  obtain v where v: "find_key_in_object ''tracking'' (dump_items fr kvs) = Some v" "hd v = CHR 0x7B"
    using object_printed(3)[OF w assms(2)] by blast
  have fl: "double_token_field k (dump_items fr trk) = Some f" if d: "dget trk k = Some (PFloat f)" for k f
  proof -
    obtain z where "f = Fin z" "reads_back fr z" using readable_dget[OF r d] by (auto split: pyfloat.splits)
    then show ?thesis using double_token_printed[OF wt] d by simp
  qed
  have it: "int_token_field k (dump_items fr trk) = Some i" if "dget trk k = Some (PInt i)" for k i
    using int_token_printed[OF wt that] readable_dget[OF r that] by simp
  have g: "dget trk ''tracking_state'' = Some (PInt st)" "dget trk ''loc_x'' = Some (PFloat x)"
    "dget trk ''loc_y'' = Some (PFloat y)" "dget trk ''bound_w'' = Some (PFloat w)"
    "dget trk ''bound_h'' = Some (PFloat h)" "dget trk ''confidence'' = Some (PFloat c)"
    "dget trk ''vis_seq'' = Some (PInt q)" "dget trk ''vis_timestamp_s'' = Some (PFloat t)"
    by (simp_all add: assms(3))
  show ?thesis
    using v object_printed(2)[OF w assms(2)] it fl g assms(4,5)
    by (simp add: parse_tracking_def)
qed

lemma no_tracking_printed:
  assumes "fc_items_readable fr kvs" "dget kvs ''tracking'' = None"
  shows "parse_tracking (dump_items fr kvs) = Some None"
  using find_key_printed[OF readable_wire(2)[OF assms(1)], of "''tracking''"] assms(2)
  by (simp add: parse_tracking_def)

lemma command_parsed:
  assumes "build_cmd_payload q t it vis age fresh_s = Inr (p, b)" "read_intent it = Inr (m, a, sp)"
    and "\<forall>v. vis = Some v \<longrightarrow> vis_wf v" "fc_readable fr (PDict p)"
  shows "parse_cmd_frame (dumps fr (PDict p)) = Some \<lparr> cf_seq = q, cf_timestamp_s = t,
    cf_desired_mode = (if b = None then m else MODE_LAND_SAFELY), cf_arm = a, cf_setpoints = sent_setpoints sp,
    cf_tracking = sent_target vis age fresh_s, cf_raw_json = dumps fr (PDict p) \<rparr>"
  using assms(1)
proof (cases rule: build_cmd_payloadE)
  case (1 m' a' sp' tail)
  have same: "m' = m" "a' = a" "sp' = sp" using 1(1) assms(2) by simp_all
  let ?m = "if b = None then m else MODE_LAND_SAFELY"
  have rd: "fc_items_readable fr p" using assms(4) by simp
  note w = readable_wire(2)[OF rd]
  have mode: "dget p ''desired_mode'' = Some (PInt ?m)"
    using build_cmd_desired_mode[OF assms(1,2)] 1(6) by (auto simp: same mode_defs)
  have g: "dget p ''type'' = Some (PStr ''CMD'')" "dget p ''seq'' = Some (PInt q)"
    "dget p ''timestamp_s'' = Some (PFloat t)" unfolding 1(4) by simp_all
  have tl: "tail = [] \<or> (\<exists>x. tail = [(''tracking'', x)])" using 1(5) by (auto split: if_splits)
  then have arm: "dget p ''arm'' = map_option PBool a" and set: "dget p ''setpoints'' = map_option PDict sp"
    unfolding 1(4) same by (auto simp: dget_append split: option.splits)
  obtain z where z: "t = Fin z" "reads_back fr z" using readable_dget[OF rd g(3)] by (auto split: pyfloat.splits)
  have nums: "int_token_field ''seq'' (dump_items fr p) = Some q" "int_token_field ''desired_mode'' (dump_items fr p) = Some ?m"
    "double_token_field ''timestamp_s'' (dump_items fr p) = Some t"
    using int_token_printed[OF w g(2)] int_token_printed[OF w mode] readable_dget[OF rd g(2)] readable_dget[OF rd mode]
      double_token_printed[OF w _ z(2)] g(3) z(1) by simp_all
  have tr: "parse_tracking (dump_items fr p) = Some (sent_target vis age fresh_s)"
  proof (cases "is_vis_fresh vis age fresh_s")
    case True
    then obtain v trk where v: "vis = Some v" "build_tracking_object v = Inr trk" "dget p ''tracking'' = Some (PDict trk)"
      using build_cmd_tracking[OF assms(1)] by auto
    have wf: "vis_wf v" using assms(3) v(1) by simp
    obtain q' st x y wd h c t' where m: "v = vis_message q' t' st x y wd h c" "1 \<le> st" "st \<le> 4"
      "trk = [(''tracking_state'', PInt st), (''loc_x'', PFloat x), (''loc_y'', PFloat y), (''bound_w'', PFloat wd),
         (''bound_h'', PFloat h), (''confidence'', PFloat c), (''vis_seq'', PInt q'), (''vis_timestamp_s'', PFloat t')]"
      by (rule tracking_object_of_wf[OF wf v(2)]) (rule that)
    have "snapshot_target v = \<lparr> ct_tracking_state = st, ct_loc_x = x, ct_loc_y = y, ct_bound_w = wd, ct_bound_h = h,
        ct_confidence = c, ct_vis_seq = q', ct_vis_timestamp_s = t' \<rparr>"
      by (simp add: snapshot_target_def m(1) vis_message_def)
    then show ?thesis using tracking_printed[OF rd v(3) m(4,2,3)] True v(1) by (simp add: sent_target_def)
  next
    case False
    then have "dget p ''tracking'' = None" using build_cmd_tracking[OF assms(1)] by (simp add: dhas_dget)
    then show ?thesis using no_tracking_printed[OF rd] False by (simp add: sent_target_def)
  qed
  have bo: "parse_json_bool_field_in_object ''arm'' (dump_items fr p) = a"
    using bool_field_printed[OF w arm] .
  show ?thesis
    unfolding parse_cmd_frame_def root_printed[OF w] bind.bind_lunit string_field_printed[OF w g(1)] nums
      setpoints_printed[OF rd set] tr bo by simp
qed

text \<open>
  C6: The flight controller reads the command the backend built. For any built command whose
  numbers survive printing, its text, as one JSON object, parses to a frame with the sequence
  number, the time, the commanded mode, the arming flag and each setpoint of the intent, and the
  target of the vision snapshot exactly when the safety gate found it fresh.
\<close>

theorem command_parsed_as_sent:
  assumes "build_cmd_payload q t it vis age fresh_s = Inr (p, b)" "read_intent it = Inr (m, a, sp)"
    and "\<forall>v. vis = Some v \<longrightarrow> vis_wf v" "fc_readable fr (PDict p)"
  shows "parse_cmd_frame (dumps fr (PDict p)) = Some \<lparr> cf_seq = q, cf_timestamp_s = t,
    cf_desired_mode = (if b = None then m else MODE_LAND_SAFELY), cf_arm = a, cf_setpoints = sent_setpoints sp,
    cf_tracking = sent_target vis age fresh_s, cf_raw_json = dumps fr (PDict p) \<rparr>"
  using command_parsed[OF assms] .

text \<open>A printer that is right for the numbers of a sample command.\<close>

definition sample_fr :: "real \<Rightarrow> string" where
  "sample_fr r = (if r = 1 / 2 then ''0.5'' else if r = 1 / 4 then ''0.25'' else if r = 0 then ''0.0''
     else if r = 1 then ''1.0'' else ''9.0'')"

lemma sample_texts:
  "number_text ''0.5''" "number_text ''0.25''" "number_text ''0.0''" "number_text ''1.0''" "number_text ''9.0''"
  by (simp_all add: number_text_def parse_json_number_token_def scan_sign_def scan_fraction_def scan_exponent_def
      is_digit_def digit_val_def)

lemma parse_double_exact:
  assumes "split_sign s = (False, s)" "parse_decimal s = Some x" "rnd x = x" "\<bar>x\<bar> \<le> 2 ^ 60"
  shows "parse_double s = Some (Fin x)"
  using f64_exact[OF assms(3,4)] assms by (simp add: parse_double_def range_error_def Let_def)

lemma sample_reads_back: "list_all (reads_back sample_fr) [1 / 2, 1 / 4, 0, 1, 9]"
proof -
  note d = parse_decimal_def parse_exponent_def digits_val_def scale10_def is_digit_def digit_val_def
  have "parse_double ''0.5'' = Some (Fin (1 / 2))" "parse_double ''0.25'' = Some (Fin (1 / 4))"
    "parse_double ''0.0'' = Some (Fin 0)" "parse_double ''1.0'' = Some (Fin 1)" "parse_double ''9.0'' = Some (Fin 9)"
    by (rule parse_double_exact; simp add: d split_sign_def)+
  then show ?thesis using sample_texts by (simp add: reads_back_def sample_fr_def)
qed

lemma sample_cmd_readable:
  "fc_readable sample_fr (PDict (sample_cmd 1 @ [(''tracking'', PDict sample_tracking)]))"
  using sample_reads_back by (simp add: sample_cmd_def sample_tracking_def int32_def)

theorem command_parsed_as_sent_witness:
  "\<exists>f. parse_cmd_frame (dumps sample_fr (PDict (sample_cmd 1 @ [(''tracking'', PDict sample_tracking)]))) = Some f \<and>
    cf_seq f = 7 \<and> cf_desired_mode f = 1 \<and> cf_arm f = None \<and> cf_setpoints f = no_setpoints \<and>
    map_option ct_loc_x (cf_tracking f) = Some (Fin (1 / 2))"
proof -
  have i: "read_intent (Some [(''desired_mode'', PInt 1)]) = Inr (1, None, None)"
    by (simp add: read_intent_def int_at_def dindex_def mode_defs)
  have v: "\<forall>v. Some sample_vis = Some v \<longrightarrow> vis_wf v"
    unfolding sample_vis_def using vis_message_wf[of 3 "Fin (1/2)" "Fin 0" "Fin (1/4)" "Fin (1/4)" "Fin 1"]
    by (simp add: TRACKING_STATES_def TRACKING_STATE_TRACKING_def between_def)
  have "is_vis_fresh (Some sample_vis) (Some (Fin (1 / 8))) (Fin (1 / 4))" by (simp add: is_vis_fresh_def)
  then show ?thesis using command_parsed_as_sent[OF sample_cmd_built(1) i v sample_cmd_readable]
    by (simp add: sent_setpoints_def sent_target_def snapshot_target_def sample_vis_def vis_message_def)
qed

subsection \<open>A number the flight controller cannot hold\<close>

lemma parse_int_like_range:
  assumes "\<not> int32 i"
  shows "parse_int_like (dec_int i) = None"
proof -
  have p: "parse_double (dec_int i) = None \<or> parse_double (dec_int i) = Some (f64 (of_int i))"
  proof (cases "i < 0")
    case True
    have "- real (nat (- i)) = of_int i" using True by simp
    then show ?thesis using True
      by (simp add: dec_int_def parse_double_def split_sign_def parse_decimal_dec Let_def del: of_nat_nat)
  next
    case False
    have "split_sign (dec_nat n) = (False, dec_nat n)" for n
      using dec_nat_Cons[of n] digit_no_sign by (auto simp: split_sign_def)
    moreover have "real (nat i) = of_int i" using False by simp
    ultimately show ?thesis using False
      by (simp add: dec_int_def parse_double_def parse_decimal_dec Let_def del: of_nat_nat)
  qed
  show ?thesis
  proof (cases "f64 (of_int i)")
    case (Fin v)
    then have v: "v = rnd (of_int i)" by (cases "real_of_int i" rule: f64_cases) auto
    consider "2147483648 \<le> i" | "i \<le> - 2147483649" using assms by (fastforce simp: int32_def)
    then have "v < - 2147483648 \<or> 2147483647 < v"
    proof cases
      case 1
      then have "2147483648 \<le> real_of_int i" by linarith
      then have "2147483648 \<le> v" unfolding v by (rule rnd_ge_fix) simp
      then show ?thesis by simp
    next
      case 2
      then have "real_of_int i \<le> - 2147483649" by linarith
      then have "v \<le> - 2147483649" unfolding v by (rule rnd_le_fix) simp
      then show ?thesis by simp
    qed
    then show ?thesis using p Fin by (auto simp: parse_int_like_def)
  qed (use p in \<open>auto simp: parse_int_like_def\<close>)
qed

lemma tracking_refused:
  assumes "wire_items_ok fr kvs" "dget kvs ''tracking'' = Some (PDict trk)"
    and "dget trk ''vis_seq'' = Some (PInt i)" "\<not> int32 i"
  shows "parse_tracking (dump_items fr kvs) = None"
proof -
  note o = object_printed[OF assms(1,2)]
  have "int_token_field ''vis_seq'' (dump_items fr trk) = None"
    using number_of_printed(1)[OF o(1) assms(3)] parse_int_like_range[OF assms(4)] by (simp add: int_token_field_def)
  then show ?thesis using o(2,3) by (auto simp: parse_tracking_def bind_eq_None_conv)
qed

text \<open>
  C35: A vision sequence number beyond 32 bits silences the link to the flight controller. The
  backend accepts a vision message with any integer as its sequence number, and while it is
  fresh puts that number into every command; if it does not fit a C++ int the flight controller
  refuses each of these commands whole, whatever mode, arming or setpoints the operator asks for.
\<close>

theorem wide_vis_seq_blocks_commands:
  assumes "build_cmd_payload q t it (Some v) age fresh_s = Inr (p, b)" "is_vis_fresh (Some v) age fresh_s"
    and "dget v ''seq'' = Some (PInt i)" "\<not> int32 i" "wire_ok fr (PDict p)" "vis_wf v"
  shows "validate_vis_message (PDict v) = Inr v \<and> parse_cmd_frame (dumps fr (PDict p)) = None"
proof -
  obtain trk where trk: "build_tracking_object v = Inr trk" "dget p ''tracking'' = Some (PDict trk)"
    using build_cmd_tracking[OF assms(1)] assms(2) by auto
  have "dget trk ''vis_seq'' = Some (PInt i)" using tracking_object_vis_seq[OF trk(1)] assms(3) by auto
  moreover have "wire_items_ok fr p" using assms(5) by simp
  ultimately have "parse_tracking (dump_items fr p) = None" "find_root_object_span (dumps fr (PDict p)) = Some (dump_items fr p)"
    using tracking_refused[OF _ trk(2) _ assms(4)] root_printed by auto
  then show ?thesis using validate_vis_fixpoint[OF assms(6)] by (simp add: parse_cmd_frame_def bind_eq_None_conv)
qed

definition wide_vis :: pydict where
  "wide_vis = vis_message 2147483648 (Fin 9) 3 (Fin (1/2)) (Fin 0) (Fin (1/4)) (Fin (1/4)) (Fin 1)"

theorem wide_vis_seq_blocks_commands_witness:
  "validate_vis_message (PDict wide_vis) = Inr wide_vis \<and>
   (\<exists>p b. build_cmd_payload 7 (Fin 9) (Some [(''desired_mode'', PInt 2), (''arm'', PBool False)]) (Some wide_vis)
      (Some (Fin (1/8))) (Fin (1/4)) = Inr (p, b) \<and> parse_cmd_frame (dumps sample_fr (PDict p)) = None)"
proof -
  let ?p = "[(''type'', PStr ''CMD''), (''seq'', PInt 7), (''timestamp_s'', PFloat (Fin 9)),
      (''desired_mode'', PInt 2), (''arm'', PBool False), (''tracking'', PDict [(''tracking_state'', PInt 3),
      (''loc_x'', PFloat (Fin (1/2))), (''loc_y'', PFloat (Fin 0)), (''bound_w'', PFloat (Fin (1/4))),
      (''bound_h'', PFloat (Fin (1/4))), (''confidence'', PFloat (Fin 1)), (''vis_seq'', PInt 2147483648),
      (''vis_timestamp_s'', PFloat (Fin 9))])]"
  have wf: "vis_wf wide_vis"
    unfolding wide_vis_def using vis_message_wf[of 3 "Fin (1/2)" "Fin 0" "Fin (1/4)" "Fin (1/4)" "Fin 1"]
    by (simp add: TRACKING_STATES_def TRACKING_STATE_TRACKING_def between_def)
  have built: "build_cmd_payload 7 (Fin 9) (Some [(''desired_mode'', PInt 2), (''arm'', PBool False)]) (Some wide_vis)
      (Some (Fin (1/8))) (Fin (1/4)) = Inr (?p, None)"
    by (simp add: build_cmd_payload_def read_intent_def int_at_def float_at_def dindex_def mode_defs is_vis_fresh_def
        Let_def build_tracking_object_def wide_vis_def vis_message_def missing_fields_def TRACKING_REQUIRED_def)
  have "wire_ok sample_fr (PDict ?p)" using sample_texts by (simp add: sample_fr_def)
  moreover have "is_vis_fresh (Some wide_vis) (Some (Fin (1/8))) (Fin (1/4))" by (simp add: is_vis_fresh_def)
  moreover have "dget wide_vis ''seq'' = Some (PInt 2147483648)" by (simp add: wide_vis_def vis_message_def)
  ultimately have "validate_vis_message (PDict wide_vis) = Inr wide_vis \<and> parse_cmd_frame (dumps sample_fr (PDict ?p)) = None"
    using wide_vis_seq_blocks_commands[OF built, of 2147483648 sample_fr] wf by (simp add: int32_def)
  then show ?thesis using built by blast
qed

end
