(* ===== verification/Fc_Server.thy ===== *)
theory Fc_Server
  imports Fc_Link Protocol_Constants
begin

section \<open>The flight controller's command server\<close>

text \<open>
  \<open>src/src/fc/implementation/CommandServer.cpp\<close>: the thread that accepts one client at a time,
  reads length-prefixed frames, parses them and publishes the last good one with the time it
  came. \<open>command_server\<close> is the state behind \<open>cmd_mutex_\<close>; a client is the list of byte strings
  its socket yields, and each frame that parses is stamped with the next of the given clock
  readings. Socket set-up, the log lines and \<open>stop\<close> are left out.
\<close>

record command_server =
  has_cmd :: bool
  last_json :: string
  last_cmd :: "command_frame option"   \<comment> \<open>\<open>None\<close> is the default-constructed frame\<close>
  last_cmd_time_s :: pyfloat

definition new_command_server :: command_server where
  "new_command_server = \<lparr> has_cmd = False, last_json = [], last_cmd = None, last_cmd_time_s = Fin (- 1) \<rparr>"

definition frame_text :: "nat list \<Rightarrow> string" where
  \<comment> \<open>the \<open>std::string\<close> of the received bytes\<close>
  "frame_text bs = map char_of bs"

definition publish_frame :: "pyfloat \<Rightarrow> nat list \<Rightarrow> command_server \<Rightarrow> command_server" where
  \<comment> \<open>one turn of the inner loop, for a frame that was read; the argument is \<open>now_s()\<close>\<close>
  "publish_frame recv_time_s bs c =
     (case parse_cmd_frame (frame_text bs) of
        None \<Rightarrow> c
      | Some parsed \<Rightarrow> \<lparr> has_cmd = True, last_json = frame_text bs, last_cmd = Some parsed,
          last_cmd_time_s = recv_time_s \<rparr>)"

lemma recv_exact_bytes: "recv_exact n cs = Some (d, rest) \<Longrightarrow> length d = n \<and> concat cs = d @ concat rest"
proof (induction cs arbitrary: n d)
  case Nil
  then show ?case by (simp add: recv_exact.simps[of n] split: if_splits)
next
  case (Cons c cs)
  show ?case
  proof (cases "n = 0")
    case True
    then show ?thesis using Cons.prems by simp
  next
    case False
    then show ?thesis using Cons.prems Cons.IH
      by (auto simp: recv_exact.simps[of n] split: if_splits option.splits)
  qed
qed

lemma read_frame_shorter: "read_frame mx cs = Some (j, rest) \<Longrightarrow> length (concat rest) < length (concat cs)"
  by (auto simp: read_frame_def Let_def split: option.splits if_splits dest!: recv_exact_bytes)

function client_frames :: "nat \<Rightarrow> nat list list \<Rightarrow> nat list list" where
  \<comment> \<open>the frames read from one client until the link is lost or a length is out of range\<close>
  "client_frames max_len chunks =
     (case read_frame max_len chunks of
        None \<Rightarrow> []
      | Some (j, rest) \<Rightarrow> j # client_frames max_len rest)"
  by pat_completeness auto
termination
  by (relation "measure (\<lambda>(_, cs). length (concat cs))") (auto dest: read_frame_shorter)

declare client_frames.simps [simp del]

definition serve_client :: "pyfloat list \<Rightarrow> nat list list \<Rightarrow> command_server \<Rightarrow> command_server" where
  "serve_client clk chunks c =
     fold (\<lambda>(t, bs). publish_frame t bs) (zip clk (client_frames (nat TCP_MAX_FRAME_BYTES) chunks)) c"

definition serve_clients :: "(pyfloat list \<times> nat list list) list \<Rightarrow> command_server \<Rightarrow> command_server" where
  \<comment> \<open>\<open>run_loop\<close>: one client after another\<close>
  "serve_clients clients c = fold (\<lambda>(clk, chunks). serve_client clk chunks) clients c"

definition latest_command :: "command_server \<Rightarrow> command_frame option" where
  "latest_command c = (if has_cmd c then last_cmd c else None)"

definition latest_command_with_time :: "command_server \<Rightarrow> (command_frame \<times> pyfloat) option" where
  "latest_command_with_time c = map_option (\<lambda>f. (f, last_cmd_time_s c)) (latest_command c)"

definition seconds_since_last_cmd :: "pyfloat \<Rightarrow> command_server \<Rightarrow> pyfloat" where
  \<comment> \<open>the argument is \<open>now_s()\<close>\<close>
  "seconds_since_last_cmd now_s c =
     (if fle (last_cmd_time_s c) (Fin 0) then Fin (10 ^ 9) else fsub now_s (last_cmd_time_s c))"

subsection \<open>The published pair\<close>

definition server_ok :: "command_server \<Rightarrow> bool" where
  \<comment> \<open>the command is the parse of the text it is stored with\<close>
  "server_ok c = (has_cmd c = (last_cmd c \<noteq> None) \<and>
     (case last_cmd c of None \<Rightarrow> True | Some f \<Rightarrow> parse_cmd_frame (last_json c) = Some f))"

lemma publish_frame_ok: "server_ok c \<Longrightarrow> server_ok (publish_frame t bs c)"
  by (auto simp: publish_frame_def server_ok_def split: option.splits)

lemma serve_client_ok: "server_ok c \<Longrightarrow> server_ok (serve_client clk chunks c)"
proof -
  have "server_ok c \<Longrightarrow> server_ok (fold (\<lambda>(t, bs). publish_frame t bs) xs c)" for xs
    by (induction xs arbitrary: c) (auto simp: publish_frame_ok)
  then show "server_ok c \<Longrightarrow> server_ok (serve_client clk chunks c)" by (simp add: serve_client_def)
qed

lemma serve_clients_ok: "server_ok c \<Longrightarrow> server_ok (serve_clients clients c)"
  unfolding serve_clients_def by (induction clients arbitrary: c) (auto simp: serve_client_ok)

lemma server_ok_new: "server_ok new_command_server"
  by (simp add: server_ok_def new_command_server_def)

subsection \<open>A stream of frames is read frame by frame\<close>

lemma frame_text_json: "frame_text (json_bytes fr p) = dumps fr (PDict p)"
proof -
  have "map (\<lambda>c. char_of (of_char c :: nat)) s = s" for s :: string by (rule map_idI) simp
  then show ?thesis by (simp only: frame_text_def json_bytes_def utf8_ascii_def map_map comp_def)
qed

lemma client_frames_stream:
  assumes "list_all2 (\<lambda>p f. frame_cmd_payload fr p mx = Inr f) ps fs" "mx \<le> int max_len"
    and "[] \<notin> set chunks" "concat chunks = concat fs @ tail_bytes"
  shows "\<exists>rest. client_frames max_len chunks = map (json_bytes fr) ps @ client_frames max_len rest \<and>
    concat rest = tail_bytes \<and> [] \<notin> set rest"
  using assms
proof (induction arbitrary: chunks rule: list_all2_induct)
  case (Cons p ps f fs)
  obtain r1 where r1: "read_frame max_len chunks = Some (json_bytes fr p, r1)"
    "concat r1 = concat fs @ tail_bytes" "[] \<notin> set r1"
    using read_frame_frame[OF Cons.hyps(1) Cons.prems(1,2), of "concat fs @ tail_bytes"] Cons.prems(3) by auto
  have "client_frames max_len chunks = json_bytes fr p # client_frames max_len r1"
    using r1(1) by (simp add: client_frames.simps[of max_len chunks])
  then show ?case using Cons.IH[OF Cons.prems(1) r1(3,2)] by auto
qed auto

lemma client_frames_Nil: "client_frames max_len [] = []"
  by (simp add: client_frames.simps[of max_len "[]"] read_frame_def recv_exact.simps[of 4])

lemma client_frames_whole:
  assumes "list_all2 (\<lambda>p f. frame_cmd_payload fr p mx = Inr f) ps fs" "mx \<le> int max_len"
    and "[] \<notin> set chunks" "concat chunks = concat fs"
  shows "client_frames max_len chunks = map (json_bytes fr) ps"
proof -
  obtain rest where r: "client_frames max_len chunks = map (json_bytes fr) ps @ client_frames max_len rest"
    "concat rest = []" "[] \<notin> set rest"
    using client_frames_stream[OF assms(1-3), of "[]"] assms(4) by auto
  then have "rest = []" by (cases rest) auto
  then show ?thesis using r(1) by (simp add: client_frames_Nil)
qed

lemma client_last_command:
  assumes "list_all2 (\<lambda>p f. frame_cmd_payload fr p mx = Inr f) (ps @ [p]) fs" "mx \<le> TCP_MAX_FRAME_BYTES"
    and "[] \<notin> set chunks" "concat chunks = concat fs" "length ps < length clk"
    and "build_cmd_payload q t it vis age fresh_s = Inr (p, b)" "read_intent it = Inr (m, a, sp)"
    and "\<forall>v. vis = Some v \<longrightarrow> vis_wf v" "fc_readable fr (PDict p)"
  shows "latest_command_with_time (serve_client clk chunks c) = Some
    (\<lparr> cf_seq = q, cf_timestamp_s = t, cf_desired_mode = (if b = None then m else MODE_LAND_SAFELY), cf_arm = a,
       cf_setpoints = sent_setpoints sp, cf_tracking = sent_target vis age fresh_s,
       cf_raw_json = dumps fr (PDict p) \<rparr>, clk ! length ps)"
proof -
  have mx: "mx \<le> int (nat TCP_MAX_FRAME_BYTES)" using assms(2) by (simp add: protocol_constants)
  let ?js = "map (json_bytes fr) ps"
  have fr: "client_frames (nat TCP_MAX_FRAME_BYTES) chunks = ?js @ [json_bytes fr p]"
    using client_frames_whole[OF assms(1) mx assms(3,4)] by simp
  have "zip clk (?js @ [json_bytes fr p]) = zip (take (length ps) clk) ?js @ [(clk ! length ps, json_bytes fr p)]"
    using assms(5) by (simp add: zip_append2 hd_drop_conv_nth[symmetric]) (cases "drop (length ps) clk"; simp)
  then obtain c' where s: "serve_client clk chunks c = publish_frame (clk ! length ps) (json_bytes fr p) c'"
    unfolding serve_client_def fr by auto
  show ?thesis
    unfolding s publish_frame_def frame_text_json using command_parsed[OF assms(6-9)]
    by (simp add: latest_command_with_time_def latest_command_def)
qed

text \<open>
  C13: The last command sent is the one in force. However TCP splits the frames of a list of
  payloads, once a client's stream has been served the server holds the command the backend
  built last, field by field, with the clock reading at which its frame was complete.
\<close>

theorem last_command_in_force:
  assumes "list_all2 (\<lambda>p f. frame_cmd_payload fr p mx = Inr f) (ps @ [p]) fs" "mx \<le> TCP_MAX_FRAME_BYTES"
    and "[] \<notin> set chunks" "concat chunks = concat fs" "length ps < length clk"
    and "build_cmd_payload q t it vis age fresh_s = Inr (p, b)" "read_intent it = Inr (m, a, sp)"
    and "\<forall>v. vis = Some v \<longrightarrow> vis_wf v" "fc_readable fr (PDict p)"
  shows "latest_command_with_time (serve_client clk chunks c) = Some
    (\<lparr> cf_seq = q, cf_timestamp_s = t, cf_desired_mode = (if b = None then m else MODE_LAND_SAFELY), cf_arm = a,
       cf_setpoints = sent_setpoints sp, cf_tracking = sent_target vis age fresh_s,
       cf_raw_json = dumps fr (PDict p) \<rparr>, clk ! length ps)"
  using assms by (rule client_last_command)

lemma sample_framed: "\<exists>f. frame_cmd_payload sample_fr (sample_cmd 2) 4096 = Inr f"
proof -
  have "length (dumps sample_fr (PDict (sample_cmd 2))) = 57"
    by (simp add: sample_cmd_def quote_def escape_char_def Let_def dec_int_def dec_nat.simps sample_fr_def)
  then show ?thesis
    by (simp add: frame_cmd_payload_def json_bytes_def utf8_ascii_def pack_be32_def Let_def del: dumps.simps)
qed

theorem last_command_in_force_witness:
  "\<exists>f c. frame_cmd_payload sample_fr (sample_cmd 2) 4096 = Inr f \<and>
    latest_command_with_time (serve_client [Fin 5] [take 3 f, drop 3 f] new_command_server) = Some (c, Fin 5) \<and>
    cf_seq c = 7 \<and> cf_desired_mode c = 2 \<and> cf_tracking c = None"
proof -
  obtain f where f: "frame_cmd_payload sample_fr (sample_cmd 2) 4096 = Inr f" using sample_framed by blast
  have len: "4 < length f" using f by (cases rule: frame_cmd_payloadE) (simp add: be32_def)
  have i: "read_intent (Some [(''desired_mode'', PInt 1)]) = Inr (1, None, None)"
    by (simp add: read_intent_def int_at_def dindex_def mode_defs)
  have v: "\<forall>v. Some sample_vis = Some v \<longrightarrow> vis_wf v"
    unfolding sample_vis_def using vis_message_wf[of 3 "Fin (1/2)" "Fin 0" "Fin (1/4)" "Fin (1/4)" "Fin 1"]
    by (simp add: TRACKING_STATES_def TRACKING_STATE_TRACKING_def between_def)
  have r: "fc_readable sample_fr (PDict (sample_cmd 2))"
    using sample_reads_back by (simp add: sample_cmd_def int32_def)
  have ch: "[] \<notin> set [take 3 f, drop 3 f]" "concat [take 3 f, drop 3 f] = concat [f]" using len by auto
  have "\<not> is_vis_fresh (Some sample_vis) (Some (Fin 1)) (Fin (1 / 4))" by (simp add: is_vis_fresh_def)
  then show ?thesis
    using f last_command_in_force[OF _ _ ch _ sample_cmd_built(2) i v r, of 4096 "[]" "[Fin 5]" new_command_server]
    by (simp add: TCP_MAX_FRAME_BYTES_def sent_target_def MODE_LAND_SAFELY_def)
qed

end
