(* ===== verification/Fc_Main.thy ===== *)
theory Fc_Main
  imports Fc_Server Flight_Missions Cmd_Seq
begin

section \<open>The flight controller's main loop\<close>

text \<open>
  \<open>src/src/fc/implementation/main.cpp\<close> and \<open>TelemetryPublisher.cpp\<close>: how a received command
  is applied, the two failsafe latches, and the telemetry datagram. \<open>fc_main\<close> is the state of
  \<open>main\<close>'s loop. One turn of the loop, \<open>main_tick\<close>, is a function of what it reads: the clock,
  the command server, the age of the last command and the radio sink. The sink is reached
  through its interface \<open>IRcSink\<close> only. Log lines and pacing are left out.
\<close>

subsection \<open>Applying a command\<close>

definition to_control_mode :: "int \<Rightarrow> control_mode option" where
  "to_control_mode raw_mode =
     (if raw_mode = 0 then Some CM_Manual
      else if raw_mode = 1 then Some CM_Tracking
      else if raw_mode = 2 then Some CM_LandSafely
      else if raw_mode = 3 then Some CM_Takeoff
      else None)"

definition to_tracking_state :: "int \<Rightarrow> tracking_state option" where
  "to_tracking_state raw_state =
     (if raw_state = 1 then Some TS_NoTarget
      else if raw_state = 2 then Some TS_TargetDetected
      else if raw_state = 3 then Some TS_Tracking
      else if raw_state = 4 then Some TS_Searching
      else None)"

definition apply_setpoint_overrides :: "command_frame \<Rightarrow> fc_state \<Rightarrow> fc_state" where
  "apply_setpoint_overrides cmd s =
     (let sp = cf_setpoints cmd in
      if sp_roll sp = None \<and> sp_pitch sp = None \<and> sp_yaw_rate sp = None \<and> sp_throttle sp = None then s
      else let c = currentCommand s;
               c1 = (case sp_roll sp of None \<Rightarrow> c | Some r \<Rightarrow> c\<lparr> bf_roll := normalized_axis_to_pwm r \<rparr>);
               c2 = (case sp_pitch sp of None \<Rightarrow> c1 | Some p \<Rightarrow> c1\<lparr> bf_pitch := normalized_axis_to_pwm p \<rparr>);
               c3 = (case sp_yaw_rate sp of None \<Rightarrow> c2 | Some y \<Rightarrow> c2\<lparr> bf_yaw := yaw_rate_to_pwm y \<rparr>);
               c4 = (case sp_throttle sp of None \<Rightarrow> c3 | Some t \<Rightarrow> c3\<lparr> bf_throttle := throttle_to_pwm t \<rparr>)
           in setManualSetpoints c4 s)"

definition apply_tracking_update :: "command_frame \<Rightarrow> fc_state \<Rightarrow> fc_state" where
  "apply_tracking_update cmd s =
     (case cf_tracking cmd of
        None \<Rightarrow> s
      | Some t \<Rightarrow>
          (case to_tracking_state (ct_tracking_state t) of
             None \<Rightarrow> s
           | Some ts \<Rightarrow> updateTracking \<lparr> tm_state = ts, tm_target_x = ct_loc_x t, tm_target_y = ct_loc_y t,
               tm_bound_w = ct_bound_w t, tm_bound_h = ct_bound_h t, tm_confidence = ct_confidence t,
               tm_timestamp_s = ct_vis_timestamp_s t \<rparr> s))"

record rc_sink =
  \<comment> \<open>what the main loop asks of an \<open>IRcSink\<close> in one turn; only \<open>writeChannels\<close>, which comes after
    the commands and latches of the turn, changes the first two\<close>
  rs_ok :: bool
  rs_tuning_mismatch :: bool
  rs_tx_ratio :: pyfloat

definition needs_msp :: "control_mode \<Rightarrow> bool" where
  "needs_msp m = (m = CM_Tracking \<or> m = CM_Takeoff)"

definition apply_control_mode_safely :: "control_mode \<Rightarrow> rc_sink \<Rightarrow> fc_state \<Rightarrow> bool \<times> fc_state" where
  "apply_control_mode_safely desired sink s =
     (if needs_msp desired \<and> \<not> rs_ok sink then (False, s)
      else if needs_msp desired \<and> rs_tuning_mismatch sink then (False, s)
      else if needs_msp desired \<and> hoverThrottle s = 0 then (False, s)
      else (True, setControlMode desired s))"

subsection \<open>The telemetry datagram\<close>

definition pad6 :: "nat \<Rightarrow> string" where
  "pad6 n = replicate (6 - length (dec_nat n)) (CHR ''0'') @ dec_nat n"

definition fixed6_real :: "real \<Rightarrow> string" where
  \<comment> \<open>\<open>std::fixed << std::setprecision(6)\<close>, rounding to nearest, ties to even\<close>
  "fixed6_real r = (let n = nat (rne (\<bar>r\<bar> * 10 ^ 6)) in
     (if r < 0 then ''-'' else []) @ dec_nat (n div 10 ^ 6) @ CHR ''.'' # pad6 (n mod 10 ^ 6))"

fun fixed6 :: "pyfloat \<Rightarrow> string" where
  "fixed6 (Fin r) = fixed6_real r"
| "fixed6 PInf = ''inf''"
| "fixed6 NInf = ''-inf''"
| "fixed6 NaN = ''nan''"

definition mode_number :: "control_mode \<Rightarrow> int" where
  \<comment> \<open>\<open>static_cast<int>\<close>\<close>
  "mode_number m = (case m of CM_Manual \<Rightarrow> 0 | CM_Tracking \<Rightarrow> 1 | CM_LandSafely \<Rightarrow> 2 | CM_Takeoff \<Rightarrow> 3)"

definition state_number :: "tracking_state \<Rightarrow> int" where
  "state_number s = (case s of TS_NoTarget \<Rightarrow> 1 | TS_TargetDetected \<Rightarrow> 2 | TS_Tracking \<Rightarrow> 3 | TS_Searching \<Rightarrow> 4)"

definition tel_target :: "telemetry_data \<Rightarrow> tracking_message \<Rightarrow> pyfloat \<times> pyfloat \<times> pyfloat \<times> pyfloat \<times> pyfloat" where
  "tel_target t m =
     (if td_tracking_state t = TS_Tracking
      then (clamp_target_coord (tm_target_x m), clamp_target_coord (tm_target_y m),
            clamp_unit (tm_bound_w m), clamp_unit (tm_bound_h m), clamp_unit (tm_confidence m))
      else (Fin 0, Fin 0, Fin 0, Fin 0, Fin 0))"

definition tel_item :: "string \<Rightarrow> string \<Rightarrow> string" where
  "tel_item key value_text = CHR 0x22 # key @ CHR 0x22 # CHR '':'' # value_text"

definition build_tel_json :: "nat \<Rightarrow> telemetry_data \<Rightarrow> tracking_message \<Rightarrow> pyfloat \<Rightarrow> pyfloat \<Rightarrow> string" where
  "build_tel_json sq t m cmd_age_s msp_tx_ratio =
     (let (target_x, target_y, bound_w, bound_h, conf) = tel_target t m in
      CHR 0x7B # tel_item ''type'' (CHR 0x22 # ''TEL'' @ [CHR 0x22])
      @ CHR '','' # tel_item ''seq'' (dec_nat sq)
      @ CHR '','' # tel_item ''timestamp_s'' (fixed6 (td_timestamp_s t))
      @ CHR '','' # tel_item ''control_mode'' (dec_int (mode_number (td_control_mode t)))
      @ CHR '','' # tel_item ''cmd_age_s'' (fixed6 cmd_age_s)
      @ CHR '','' # tel_item ''msp_tx_ratio'' (fixed6 msp_tx_ratio)
      @ CHR '','' # tel_item ''tracking_state'' (dec_int (state_number (td_tracking_state t)))
      @ CHR '','' # tel_item ''distFront_m'' (fixed6 (td_distFront_m t))
      @ CHR '','' # tel_item ''distBack_m'' (fixed6 (td_distBack_m t))
      @ CHR '','' # tel_item ''distBottom_m'' (fixed6 (td_distBottom_m t))
      @ CHR '','' # tel_item ''target_x'' (fixed6 target_x)
      @ CHR '','' # tel_item ''target_y'' (fixed6 target_y)
      @ CHR '','' # tel_item ''bound_w'' (fixed6 bound_w)
      @ CHR '','' # tel_item ''bound_h'' (fixed6 bound_h)
      @ CHR '','' # tel_item ''confidence'' (fixed6 conf) @ [CHR 0x7D])"

definition send_json :: "string \<Rightarrow> string list \<Rightarrow> bool \<times> string list" where
  \<comment> \<open>\<open>TelemetryPublisher::send_json\<close> with an open socket that takes what it is given; the
    datagrams sent so far\<close>
  "send_json json tel_wire =
     (if json = [] \<or> UDP_MAX_TEL_BYTES < int (length json) then (False, tel_wire) else (True, tel_wire @ [json]))"

subsection \<open>One turn of the loop\<close>

record fc_main =
  fm_controller :: fc_state
  fm_last_cmd_seq :: "int option"
  fm_tel_seq :: "64 word"
  fm_failsafe_engaged :: bool
  fm_sink_degraded_engaged :: bool
  fm_tel_wire :: "string list"      \<comment> \<open>the telemetry datagrams sent\<close>

record tick_input =
  ti_dt :: pyfloat
  ti_cmd :: "command_frame option"  \<comment> \<open>\<open>latest_command\<close>\<close>
  ti_cmd_age_s :: pyfloat           \<comment> \<open>\<open>seconds_since_last_cmd\<close>, read later in the turn\<close>
  ti_sink :: rc_sink

definition kCmdSeqMaxFc :: int where "kCmdSeqMaxFc = 0x7FFFFFFF"

definition seq_accepted :: "int option \<Rightarrow> int \<Rightarrow> bool" where
  "seq_accepted last_seq q = (0 \<le> q \<and> q \<le> kCmdSeqMaxFc \<and>
     (case last_seq of None \<Rightarrow> True | Some p \<Rightarrow> fc_seq_advances (word_of_int p) (word_of_int q)))"

definition apply_command :: "command_frame \<Rightarrow> rc_sink \<Rightarrow> fc_state \<Rightarrow> fc_state" where
  \<comment> \<open>the body of the block for an accepted sequence number\<close>
  "apply_command cmd sink s =
     (let s1 = (case to_control_mode (cf_desired_mode cmd) of
                  Some m \<Rightarrow> snd (apply_control_mode_safely m sink s) | None \<Rightarrow> s);
          s2 = (case cf_arm cmd of Some b \<Rightarrow> setArm b s1 | None \<Rightarrow> s1)
      in apply_tracking_update cmd (apply_setpoint_overrides cmd s2))"

definition command_step :: "tick_input \<Rightarrow> fc_main \<Rightarrow> fc_main" where
  "command_step i m =
     (case ti_cmd i of
        None \<Rightarrow> m
      | Some cmd \<Rightarrow>
          if seq_accepted (fm_last_cmd_seq m) (cf_seq cmd)
          then m\<lparr> fm_last_cmd_seq := Some (cf_seq cmd),
                 fm_controller := apply_command cmd (ti_sink i) (fm_controller m) \<rparr>
          else m)"

definition failsafe_step :: "bool \<Rightarrow> fc_main \<Rightarrow> fc_main" where
  \<comment> \<open>the argument is \<open>stale_now\<close>\<close>
  "failsafe_step stale_now m =
     (if stale_now \<and> \<not> fm_failsafe_engaged m
      then m\<lparr> fm_failsafe_engaged := True, fm_controller := setControlMode CM_LandSafely (fm_controller m) \<rparr>
      else if \<not> stale_now \<and> fm_failsafe_engaged m then m\<lparr> fm_failsafe_engaged := False \<rparr>
      else m)"

definition sink_step :: "bool \<Rightarrow> fc_main \<Rightarrow> fc_main" where
  \<comment> \<open>the argument is \<open>sink_degraded_now\<close>\<close>
  "sink_step sink_degraded_now m =
     (if sink_degraded_now \<and> \<not> fm_sink_degraded_engaged m
      then m\<lparr> fm_sink_degraded_engaged := True, fm_controller := setControlMode CM_LandSafely (fm_controller m) \<rparr>
      else if \<not> sink_degraded_now \<and> fm_sink_degraded_engaged m then m\<lparr> fm_sink_degraded_engaged := False \<rparr>
      else m)"

definition cmd_stale :: "tick_input \<Rightarrow> bool" where
  "cmd_stale i = flt CMD_TIMEOUT_S (ti_cmd_age_s i)"

definition control_step :: "tick_input \<Rightarrow> fc_main \<Rightarrow> fc_main" where
  \<comment> \<open>what a turn does before \<open>updateTimeStep\<close>\<close>
  "control_step i m = sink_step (\<not> rs_ok (ti_sink i)) (failsafe_step (cmd_stale i) (command_step i m))"

definition main_tick :: "tick_input \<Rightarrow> fc_main \<Rightarrow> bf_command \<times> fc_main" where
  \<comment> \<open>the channels handed to the sink, and the state\<close>
  "main_tick i m =
     (let m1 = control_step i m;
          (rc_cmd, s) = updateTimeStep (ti_dt i) (fm_controller m1);
          tel = telemetryData s;
          tel_json = build_tel_json (unat (fm_tel_seq m1)) tel (lastTrackingMsg s) (ti_cmd_age_s i) (rs_tx_ratio (ti_sink i))
      in (rc_cmd, m1\<lparr> fm_controller := s, fm_tel_wire := snd (send_json tel_json (fm_tel_wire m1)),
            fm_tel_seq := fm_tel_seq m1 + 1 \<rparr>))"

definition main_step :: "fc_main \<Rightarrow> tick_input \<Rightarrow> fc_main" where
  "main_step m i = snd (main_tick i m)"

fun main_commands :: "fc_main \<Rightarrow> tick_input list \<Rightarrow> bf_command list" where
  "main_commands m [] = []"
| "main_commands m (i # is) = fst (main_tick i m) # main_commands (main_step m i) is"

subsection \<open>Startup\<close>

definition from_chars_int :: "string \<Rightarrow> int option" where
  \<comment> \<open>\<open>std::from_chars\<close> to \<open>int\<close>, base 10, that must take the whole text: no plus sign, no spaces\<close>
  "from_chars_int s =
     (let (neg, ds) = (case s of c # cs \<Rightarrow> if c = CHR ''-'' then (True, cs) else (False, s) | [] \<Rightarrow> (False, []))
      in if ds = [] \<or> \<not> list_all is_digit ds then None
         else let v = (if neg then - int (digits_val ds) else int (digits_val ds))
              in if v < - 2147483648 \<or> 2147483647 < v then None else Some v)"

definition set_and_nonempty :: "string option \<Rightarrow> bool" where
  "set_and_nonempty v = (v \<noteq> None \<and> v \<noteq> Some [])"

definition tel_port_from_env :: "string option \<Rightarrow> int option" where
  \<comment> \<open>\<open>None\<close>: the program refuses to start\<close>
  "tel_port_from_env fc_tel_port_env =
     (if set_and_nonempty fc_tel_port_env
      then case from_chars_int (the fc_tel_port_env) of
             None \<Rightarrow> None
           | Some p \<Rightarrow> if p \<le> 0 \<or> 65535 < p then None else Some p
      else Some UDP_TEL_PORT)"

definition controller_from_env :: "string option \<Rightarrow> fc_state option" where
  \<comment> \<open>construction, landing mode and \<open>FC_HOVER_THROTTLE\<close>\<close>
  "controller_from_env fc_hover_throttle_env =
     (let s = setControlMode CM_LandSafely new_fc_state in
      if set_and_nonempty fc_hover_throttle_env
      then case from_chars_int (the fc_hover_throttle_env) of
             None \<Rightarrow> None
           | Some hover_us \<Rightarrow>
               if hover_us \<noteq> 0 \<and> (hover_us < DRONE_MIN \<or> kAltHoldMaxThrottle < hover_us) then None
               else Some (setHoverThrottle hover_us s)
      else Some s)"

definition new_fc_main :: "fc_state \<Rightarrow> fc_main" where
  "new_fc_main s = \<lparr> fm_controller = s, fm_last_cmd_seq = None, fm_tel_seq = 0, fm_failsafe_engaged = False,
     fm_sink_degraded_engaged = False, fm_tel_wire = [] \<rparr>"

end
