(* ===== verification/Fc_Failsafe.thy ===== *)
theory Fc_Failsafe
  imports Fc_Main
begin

section \<open>What the main loop guarantees\<close>

text \<open>
  The invariant of the flight controller's main loop and what follows over many turns: the two
  failsafe latches and the landings they start, which modes need a command, a healthy sink and a
  calibrated hover throttle, that commands are applied once and in order, and two sequences of
  commands that defeat what the code is meant to do. A run is a list of what the loop reads in
  each turn, so a statement over all lists covers every timing of the network thread.
\<close>

subsection \<open>What a command changes\<close>

lemma setManualSetpoints_frame [frame_simps]:
  "controlMode (setManualSetpoints c s) = controlMode s" "hoverThrottle (setManualSetpoints c s) = hoverThrottle s"
  "telemetryData (setManualSetpoints c s) = telemetryData s"
  by (simp_all add: setManualSetpoints_def clampCommandChannels_def on_command_def)

lemma apply_setpoints_frame [frame_simps]:
  "controlMode (apply_setpoint_overrides c s) = controlMode s"
  "hoverThrottle (apply_setpoint_overrides c s) = hoverThrottle s"
  "telemetryData (apply_setpoint_overrides c s) = telemetryData s"
  by (simp_all add: apply_setpoint_overrides_def Let_def frame_simps)

lemma apply_tracking_frame [frame_simps]:
  "controlMode (apply_tracking_update c s) = controlMode s"
  "hoverThrottle (apply_tracking_update c s) = hoverThrottle s"
  "currentCommand (apply_tracking_update c s) = currentCommand s"
  "td_control_mode (telemetryData (apply_tracking_update c s)) = td_control_mode (telemetryData s)"
  by (simp_all add: apply_tracking_update_def updateTracking_def Let_def on_telemetry_def split: option.split)

lemma setArm_frame [frame_simps]:
  "controlMode (setArm b s) = controlMode s" "hoverThrottle (setArm b s) = hoverThrottle s"
  "telemetryData (setArm b s) = telemetryData s"
  by (simp_all add: setArm_def on_command_def)

lemma hover_setControlMode [simp]: "hoverThrottle (setControlMode m s) = hoverThrottle s"
  by (simp add: setControlMode_def Let_def fc_setters)

lemma mode_setControlMode [simp]: "controlMode (setControlMode m s) = m"
  by (simp add: setControlMode_def Let_def fc_setters)

lemma safely_frame: "hoverThrottle (snd (apply_control_mode_safely d sink s)) = hoverThrottle s"
  by (simp add: apply_control_mode_safely_def)

lemma apply_command_hover: "hoverThrottle (apply_command c sink s) = hoverThrottle s"
  by (simp add: apply_command_def Let_def frame_simps safely_frame split: option.split)

lemma apply_command_mode:
  "controlMode (apply_command c sink s) = (case to_control_mode (cf_desired_mode c) of
     None \<Rightarrow> controlMode s | Some d \<Rightarrow> if fst (apply_control_mode_safely d sink s) then d else controlMode s)"
  by (simp add: apply_command_def Let_def frame_simps apply_control_mode_safely_def split: option.split)

subsection \<open>The invariant of the main loop\<close>

definition mode_shown :: "fc_state \<Rightarrow> bool" where
  \<comment> \<open>the telemetry names the mode\<close>
  "mode_shown s = (td_control_mode (telemetryData s) = controlMode s)"

lemma mode_shown_set [simp]: "mode_shown (setControlMode m s)"
  by (simp add: mode_shown_def setControlMode_def Let_def fc_setters)

lemma mode_shown_apply: "mode_shown s \<Longrightarrow> mode_shown (apply_command c sink s)"
  by (simp add: mode_shown_def apply_command_def Let_def frame_simps apply_control_mode_safely_def split: option.split)
    (simp add: setControlMode_def Let_def fc_setters)

lemma land_again: "controlMode s = CM_LandSafely \<Longrightarrow> mode_shown s \<Longrightarrow> setControlMode CM_LandSafely s = s"
  by (simp add: mode_shown_def setControlMode_def on_telemetry_def)

lemma mode_shown_land: "mode_shown (runLandSafelyMode d s) = mode_shown s"
  by (simp add: mode_shown_def runLandSafelyMode_def land_start_def Let_def fc_setters)

lemma mode_shown_takeoff: "mode_shown s \<Longrightarrow> mode_shown (runTakeoffMode d s)"
  by (simp add: runTakeoffMode_def takeoff_start_def Let_def mode_shown_land)
    (simp add: mode_shown_def fc_setters)

lemma mode_shown_tracking: "mode_shown s \<Longrightarrow> mode_shown (runTrackingMode d s)"
proof -
  assume m: "mode_shown s"
  have "mode_shown (runHoverSearchState s)"
    using m by (simp add: runHoverSearchState_def Let_def mode_shown_def axis_frames) (simp add: fc_setters)
  moreover have "mode_shown (runHoverStillState ts s)" for ts
    using m by (simp add: runHoverStillState_def Let_def mode_shown_def axis_frames) (simp add: fc_setters)
  moreover have "mode_shown (runFollowTargetState s)"
    using m by (simp add: runFollowTargetState_def runFollowTargetLogic_def Let_def mode_shown_def on_command_def axis_frames)
      (simp add: fc_setters axis_frames)
  ultimately show ?thesis using m by (simp add: runTrackingMode_def mode_shown_land split: tracking_state.split)
qed

lemma mode_shown_tick: "mode_shown (fc_tick s dt)"
proof -
  have b: "mode_shown (begin_step d s)" for d by (simp add: mode_shown_def begin_step_def on_telemetry_def)
  then have "mode_shown (run_mode d (begin_step d s))" for d
    by (simp add: run_mode_def mode_shown_land mode_shown_takeoff mode_shown_tracking split: control_mode.split)
      (simp add: mode_shown_def runManualMode_def fc_setters)
  then show ?thesis
    by (simp add: fc_tick_def updateTimeStep_def Let_def mode_shown_def finish_step_def clampCommandChannels_def fc_setters)
qed

definition main_ok :: "fc_main \<Rightarrow> bool" where
  "main_ok m = (fc_ok (fm_controller m) \<and> mode_shown (fm_controller m) \<and>
     (case fm_last_cmd_seq m of None \<Rightarrow> True | Some q \<Rightarrow> seq_range q))"

lemma fc_ok_updateTracking: "fc_ok s \<Longrightarrow> fc_ok (updateTracking msg s)"
  using fc_ok_step[of s "Fc_updateTracking msg"] by simp

lemma fc_ok_setManual: "fc_ok s \<Longrightarrow> fc_ok (setManualSetpoints c s)"
  using fc_ok_step[of s "Fc_setManualSetpoints c"] by simp

lemma fc_ok_apply_command: "fc_ok s \<Longrightarrow> fc_ok (apply_command c sink s)"
  by (simp add: apply_command_def apply_tracking_update_def apply_setpoint_overrides_def apply_control_mode_safely_def
      Let_def fc_ok_updateTracking fc_ok_setManual fc_ok_setControlMode fc_ok_setters split: option.split)

lemma seq_accepted_eq:
  assumes "case last_seq of None \<Rightarrow> True | Some p \<Rightarrow> seq_range p"
  shows "seq_accepted last_seq q = (seq_range q \<and> (case last_seq of None \<Rightarrow> True | Some p \<Rightarrow> seq_advances p q))"
  using assms fc_seq_advances_word by (auto simp: seq_accepted_def seq_range_def kCmdSeqMaxFc_def seq_consts split: option.split)


lemma not_accepted_again: "\<not> seq_accepted (Some q) q"
  by (simp add: seq_accepted_def fc_seq_advances_def)

lemma command_step_cases:
  obtains (kept) "command_step i m = m"
  | (applied) c where "ti_cmd i = Some c" "seq_accepted (fm_last_cmd_seq m) (cf_seq c)"
      "command_step i m = m\<lparr> fm_last_cmd_seq := Some (cf_seq c),
         fm_controller := apply_command c (ti_sink i) (fm_controller m) \<rparr>"
proof (cases "ti_cmd i")
  case (Some c)
  show thesis
    by (cases "seq_accepted (fm_last_cmd_seq m) (cf_seq c)")
      (rule applied kept; simp add: command_step_def Some)+
qed (use kept in \<open>simp add: command_step_def\<close>)

text \<open>The same command seen again is not applied again.\<close>

lemma command_step_again:
  assumes "ti_cmd j = ti_cmd i" "fm_last_cmd_seq m' = fm_last_cmd_seq (command_step i m)"
  shows "command_step j m' = m'"
  using assms by (cases "ti_cmd i") (auto simp: command_step_def not_accepted_again split: if_splits)

lemma latches_frame [frame_simps]:
  "fm_last_cmd_seq (failsafe_step b m) = fm_last_cmd_seq m" "fm_last_cmd_seq (sink_step b m) = fm_last_cmd_seq m"
  "fm_tel_seq (failsafe_step b m) = fm_tel_seq m" "fm_tel_seq (sink_step b m) = fm_tel_seq m"
  "fm_tel_wire (failsafe_step b m) = fm_tel_wire m" "fm_tel_wire (sink_step b m) = fm_tel_wire m"
  "hoverThrottle (fm_controller (failsafe_step b m)) = hoverThrottle (fm_controller m)"
  "hoverThrottle (fm_controller (sink_step b m)) = hoverThrottle (fm_controller m)"
  by (simp_all add: failsafe_step_def sink_step_def)

lemma command_step_frame [frame_simps]:
  "fm_tel_seq (command_step i m) = fm_tel_seq m" "fm_tel_wire (command_step i m) = fm_tel_wire m"
  "fm_failsafe_engaged (command_step i m) = fm_failsafe_engaged m"
  "fm_sink_degraded_engaged (command_step i m) = fm_sink_degraded_engaged m"
  "hoverThrottle (fm_controller (command_step i m)) = hoverThrottle (fm_controller m)"
  by (simp_all add: command_step_def apply_command_hover split: option.split)

lemma main_step_parts:
  "fm_controller (main_step m i) = fc_tick (fm_controller (control_step i m)) (ti_dt i)"
  "fm_last_cmd_seq (main_step m i) = fm_last_cmd_seq (command_step i m)"
  "fm_failsafe_engaged (main_step m i) = cmd_stale i"
  "fm_sink_degraded_engaged (main_step m i) = (\<not> rs_ok (ti_sink i))"
  "fst (main_tick i m) = currentCommand (fm_controller (main_step m i))"
proof -
  have c: "fst (updateTimeStep dt s) = currentCommand (snd (updateTimeStep dt s))" for dt s
    by (simp add: updateTimeStep_def Let_def)
  show "fm_controller (main_step m i) = fc_tick (fm_controller (control_step i m)) (ti_dt i)"
    "fst (main_tick i m) = currentCommand (fm_controller (main_step m i))"
    by (simp_all add: main_step_def main_tick_def fc_tick_def Let_def split_beta c)
  show "fm_last_cmd_seq (main_step m i) = fm_last_cmd_seq (command_step i m)"
    by (simp add: main_step_def main_tick_def Let_def split_beta control_step_def frame_simps)
  show "fm_failsafe_engaged (main_step m i) = cmd_stale i"
    "fm_sink_degraded_engaged (main_step m i) = (\<not> rs_ok (ti_sink i))"
    by (auto simp: main_step_def main_tick_def Let_def split_beta control_step_def failsafe_step_def sink_step_def)
qed

lemma main_ok_control:
  assumes "main_ok m"
  shows "main_ok (control_step i m)"
proof -
  have "main_ok (command_step i m)"
  proof (cases rule: command_step_cases[of i m])
    case kept
    then show ?thesis using assms by simp
  next
    case (applied c)
    then have "seq_range (cf_seq c)" by (simp add: seq_accepted_def seq_range_def kCmdSeqMaxFc_def seq_consts)
    then show ?thesis using applied assms by (simp add: main_ok_def fc_ok_apply_command mode_shown_apply)
  qed
  moreover have "main_ok (failsafe_step b m)" if "main_ok m" for b m
    using that by (simp add: main_ok_def failsafe_step_def fc_ok_setControlMode)
  moreover have "main_ok (sink_step b m)" if "main_ok m" for b m
    using that by (simp add: main_ok_def sink_step_def fc_ok_setControlMode)
  ultimately show ?thesis by (simp add: control_step_def)
qed

lemma main_ok_step [inv_intros]: "main_ok m \<Longrightarrow> main_ok (main_step m i)"
proof -
  assume "main_ok m"
  then have c: "main_ok (control_step i m)" by (rule main_ok_control)
  have "fm_last_cmd_seq (main_step m i) = fm_last_cmd_seq (control_step i m)"
    unfolding main_step_parts by (simp add: control_step_def frame_simps)
  then show "main_ok (main_step m i)" using c
    by (simp add: main_ok_def main_step_parts(1) fc_ok_tick mode_shown_tick)
qed

lemma main_ok_run: "main_ok m \<Longrightarrow> main_ok (run main_step m is)"
  by (rule run_invariant) (auto intro: main_ok_step)

lemma controller_from_env_ok:
  assumes "controller_from_env e = Some s"
  shows "fc_ok s" "controlMode s = CM_LandSafely" "mode_shown s"
proof -
  let ?s = "setControlMode CM_LandSafely new_fc_state"
  have ok: "fc_ok ?s" by (intro fc_ok_setControlMode fc_ok_new)
  then have "fc_ok (setHoverThrottle h ?s)" for h using fc_ok_step[of ?s "Fc_setHoverThrottle h"] by simp
  then show "fc_ok s" using assms ok by (auto simp: controller_from_env_def Let_def split: option.splits if_splits)
  have m: "controlMode (setHoverThrottle h ?s) = CM_LandSafely" for h by (simp add: setHoverThrottle_def)
  show "controlMode s = CM_LandSafely" using assms m
    by (auto simp: controller_from_env_def Let_def split: option.splits if_splits)
  have "mode_shown (setHoverThrottle h ?s)" for h
    using mode_shown_set[of CM_LandSafely new_fc_state] by (simp add: mode_shown_def setHoverThrottle_def)
  then show "mode_shown s" using assms by (auto simp: controller_from_env_def Let_def split: option.splits if_splits)
qed

lemma main_ok_start: "controller_from_env e = Some s \<Longrightarrow> main_ok (new_fc_main s)"
  using controller_from_env_ok by (simp add: main_ok_def new_fc_main_def)

subsection \<open>Landing, once a failsafe has tripped\<close>

definition trips :: "fc_main \<Rightarrow> tick_input \<Rightarrow> bool" where
  \<comment> \<open>a turn that finds the link newly stale or the sink newly degraded\<close>
  "trips m i = (cmd_stale i \<and> \<not> fm_failsafe_engaged m \<or>
     \<not> rs_ok (ti_sink i) \<and> \<not> fm_sink_degraded_engaged m)"

lemma trips_lands: "trips m i \<Longrightarrow> controlMode (fm_controller (control_step i m)) = CM_LandSafely"
  by (auto simp: trips_def control_step_def sink_step_def failsafe_step_def frame_simps)

lemma latches_land:
  assumes "controlMode (fm_controller m) = CM_LandSafely" "mode_shown (fm_controller m)"
  shows "fm_controller (failsafe_step b m) = fm_controller m" "fm_controller (sink_step b m) = fm_controller m"
  using land_again[OF assms] by (simp_all add: failsafe_step_def sink_step_def)

text \<open>While no new command comes, the loop lets the landing run.\<close>

lemma landing_runs:
  assumes "main_ok m" "controlMode (fm_controller m) = CM_LandSafely"
    and "\<And>j m'. j \<in> set is \<Longrightarrow> fm_last_cmd_seq m' = fm_last_cmd_seq m \<Longrightarrow> command_step j m' = m'"
  shows "main_commands m is = tick_commands (fm_controller m) (map ti_dt is) \<and>
    controlMode (fm_controller (run main_step m is)) = CM_LandSafely"
  using assms
proof (induction "is" arbitrary: m)
  case (Cons j js)
  have k: "command_step j m = m" using Cons.prems(3) by simp
  have c: "fm_controller (control_step j m) = fm_controller m"
    using latches_land[of m] latches_land[of "failsafe_step (cmd_stale j) m"] Cons.prems(1,2)
    by (simp add: control_step_def k main_ok_def)
  have ok: "main_ok (main_step m j)" using Cons.prems(1) by (rule main_ok_step)
  have t: "fm_controller (main_step m j) = fc_tick (fm_controller m) (ti_dt j)" by (simp add: main_step_parts(1) c)
  have "controlMode (fm_controller (main_step m j)) = CM_LandSafely"
    using Cons.prems(1,2) by (simp add: t land_tick(1) main_ok_def)
  moreover have "fm_last_cmd_seq (main_step m j) = fm_last_cmd_seq m" by (simp add: main_step_parts(2) k)
  ultimately show ?case using Cons.IH[OF ok] Cons.prems(3)
    by (simp add: t main_step_parts(5) fst_updateTimeStep)
qed simp

lemma landing_commands:
  assumes "main_ok m" "controlMode (fm_controller (control_step i m)) = CM_LandSafely"
    and "list_all (\<lambda>j. ti_cmd j = ti_cmd i) later"
  shows "main_commands m (i # later) = tick_commands (fm_controller (control_step i m)) (map ti_dt (i # later)) \<and>
    controlMode (fm_controller (run main_step m (i # later))) = CM_LandSafely"
proof -
  let ?s = "fm_controller (control_step i m)"
  have s: "fc_ok ?s" "controlMode ?s = CM_LandSafely"
    using main_ok_control[OF assms(1)] assms(2) by (simp_all add: main_ok_def)
  have t: "fm_controller (main_step m i) = fc_tick ?s (ti_dt i)" by (rule main_step_parts(1))
  have "command_step j m' = m'" if "j \<in> set later" "fm_last_cmd_seq m' = fm_last_cmd_seq (main_step m i)" for j m'
    using command_step_again[of j i m' m] that assms(3) by (simp add: list_all_iff main_step_parts(2))
  then show ?thesis
    using landing_runs[OF main_ok_step[OF assms(1)], of i later] land_tick(1)[OF s]
    by (simp add: t main_step_parts(5) fst_updateTimeStep)
qed

lemma landing_turns:
  assumes "main_ok m" "controlMode (fm_controller (control_step i m)) = CM_LandSafely"
    and "list_all (\<lambda>j. ti_cmd j = ti_cmd i) later" "320 \<le> long_ticks (map ti_dt (i # later))"
  shows "lands_disarmed (main_commands m (i # later)) \<and>
    controlMode (fm_controller (run main_step m (i # later))) = CM_LandSafely"
proof -
  have "fc_ok (fm_controller (control_step i m))" using main_ok_control[OF assms(1)] by (simp add: main_ok_def)
  then show ?thesis using land_profile[OF _ assms(2,4)] landing_commands[OF assms(1-3)] by simp
qed

text \<open>
  C1: A lost link or a failing radio sink lands the drone. From any state the main loop can be
  in, if a turn finds the last command newly older than the timeout or the sink newly degraded,
  then unless another command comes the mode stays to land, and over any turns of which 320 are
  at least 1/64 s long the channels are those of a landing: the throttle never rises, the sticks
  are centred, and the last one is disarmed with the motors off.
\<close>

theorem failsafe_trip_disarms:
  assumes "controller_from_env e = Some s0" "m = run main_step (new_fc_main s0) past" "trips m i"
    and "list_all (\<lambda>j. ti_cmd j = ti_cmd i) later" "320 \<le> long_ticks (map ti_dt (i # later))"
  shows "lands_disarmed (main_commands m (i # later)) \<and>
    controlMode (fm_controller (run main_step m (i # later))) = CM_LandSafely"
proof -
  have "main_ok m" unfolding assms(2) by (rule main_ok_run[OF main_ok_start[OF assms(1)]])
  then show ?thesis using trips_lands[OF assms(3)] assms(4,5) by (rule landing_turns)
qed

definition sample_sink :: rc_sink where
  "sample_sink = \<lparr> rs_ok = True, rs_tuning_mismatch = False, rs_tx_ratio = Fin 1 \<rparr>"

definition frame_of :: "int \<Rightarrow> int \<Rightarrow> bool option \<Rightarrow> command_frame" where
  "frame_of q mode a = \<lparr> cf_seq = q, cf_timestamp_s = Fin 0, cf_desired_mode = mode, cf_arm = a,
     cf_setpoints = no_setpoints, cf_tracking = None, cf_raw_json = [] \<rparr>"

definition turn :: "command_frame option \<Rightarrow> pyfloat \<Rightarrow> tick_input" where
  "turn c age = \<lparr> ti_dt = Fin (1 / 32), ti_cmd = c, ti_cmd_age_s = age, ti_sink = sample_sink \<rparr>"

lemma sample_startup: "controller_from_env None = Some (setControlMode CM_LandSafely new_fc_state)"
  by (simp add: controller_from_env_def set_and_nonempty_def)

theorem failsafe_trip_disarms_witness:
  "lands_disarmed (main_commands (run main_step (new_fc_main (setControlMode CM_LandSafely new_fc_state))
     [turn (Some (frame_of 0 0 (Some True))) (Fin 0)]) (replicate 320 (turn (Some (frame_of 0 0 (Some True))) (Fin 1))))"
proof -
  let ?i = "turn (Some (frame_of 0 0 (Some True)))"
  let ?m = "run main_step (new_fc_main (setControlMode CM_LandSafely new_fc_state)) [?i (Fin 0)]"
  have r: "replicate 320 (?i (Fin 1)) = ?i (Fin 1) # replicate 319 (?i (Fin 1))"
    using replicate_Suc[of 319 "?i (Fin 1)"] by simp
  have "long_ticks (map ti_dt (?i (Fin 1) # replicate 319 (?i (Fin 1)))) = 320"
    using long_ticks_replicate[of "Fin (1 / 32)" 320] unfolding r[symmetric] map_replicate
    by (simp add: turn_def long_tick_def)
  moreover have "trips ?m (?i (Fin 1))"
    by (simp add: trips_def main_step_parts) (simp add: turn_def cmd_stale_def CMD_TIMEOUT_S_def)
  ultimately show ?thesis
    using failsafe_trip_disarms[OF sample_startup refl, of "[?i (Fin 0)]" "?i (Fin 1)" "replicate 319 (?i (Fin 1))"]
    unfolding r by (simp add: list_all_iff turn_def)
qed

subsection \<open>Entering tracking and takeoff\<close>

lemma to_control_mode_eq: "to_control_mode r = Some m \<longleftrightarrow> r = mode_number m"
  by (cases m) (auto simp: to_control_mode_def mode_number_def)

lemma land_tick_hover: "controlMode s = CM_LandSafely \<Longrightarrow> hoverThrottle (fc_tick s dt) = hoverThrottle s"
  by (simp add: fc_tick_def updateTimeStep_def run_mode_def begin_step_frame finish_step_frame Let_def
      runLandSafelyMode_def land_start_def fc_setters)

lemma tick_hover:
  assumes "fc_ok s"
  shows "hoverThrottle (fc_tick s dt) = hoverThrottle s"
proof (cases "needs_msp (controlMode s) \<and> hoverThrottle s = 0")
  case True
  then show ?thesis using uncalibrated_tick[of s dt] land_tick_hover[of "setControlMode CM_LandSafely s" dt]
    by (auto simp: needs_msp_def)
next
  case False
  then show ?thesis using assms land_tick_hover tracking_tick_frame(2) takeoff_tick(3)
    by (cases "controlMode s") (auto simp: needs_msp_def fc_tick_def updateTimeStep_def run_mode_def begin_step_frame
        finish_step_frame Let_def runManualMode_def fc_setters)
qed

text \<open>The modes a tick may change to by itself.\<close>

lemma tick_mode:
  assumes "fc_ok s" "needs_msp (controlMode (fc_tick s dt))"
  shows "hoverThrottle s \<noteq> 0 \<and> (controlMode (fc_tick s dt) = controlMode s \<or>
    controlMode s = CM_Takeoff \<and> controlMode (fc_tick s dt) = CM_Tracking \<and>
      takeoff_over (fadd (takeoff_clock s) (control_dt dt)))"
proof (cases "controlMode s")
  case CM_Manual
  then have "controlMode (fc_tick s dt) = CM_Manual"
    by (simp add: fc_tick_def updateTimeStep_def run_mode_def begin_step_frame finish_step_frame Let_def
        runManualMode_def fc_setters)
  then show ?thesis using assms(2) by (simp add: needs_msp_def)
next
  case CM_LandSafely
  then show ?thesis using assms land_tick(1) by (simp add: needs_msp_def)
next
  case CM_Tracking
  have "hoverThrottle s \<noteq> 0"
  proof
    assume h: "hoverThrottle s = 0"
    have "controlMode (fc_tick s dt) = CM_LandSafely"
      using uncalibrated_tick[OF _ h, of dt] CM_Tracking land_tick(1)[OF fc_ok_setControlMode[OF assms(1)]] by simp
    then show False using assms(2) by (simp add: needs_msp_def)
  qed
  then show ?thesis using tracking_tick_frame(1)[OF CM_Tracking] CM_Tracking by simp
next
  case CM_Takeoff
  have h: "hoverThrottle s \<noteq> 0"
  proof
    assume h: "hoverThrottle s = 0"
    have "controlMode (fc_tick s dt) = CM_LandSafely"
      using uncalibrated_tick[OF _ h, of dt] CM_Takeoff land_tick(1)[OF fc_ok_setControlMode[OF assms(1)]] by simp
    then show False using assms(2) by (simp add: needs_msp_def)
  qed
  then show ?thesis using takeoff_tick(1)[OF assms(1) CM_Takeoff h, of dt] CM_Takeoff by simp
qed

lemma fresh_takeoff_runs:
  shows "flt (fadd (Fin 0) (control_dt dt)) takeoffSpoolTime_s" "\<not> takeoff_over (fadd (Fin 0) (control_dt dt))"
proof -
  obtain d where d: "control_dt dt = Fin d" "0 \<le> d" "d \<le> 1 / 4" by (rule control_dt_range)
  have r: "0 \<le> rnd d" "rnd d \<le> 1 / 4" using d rnd_nonneg[of d] rnd_le_fix[of d "1 / 4"] by simp_all
  have e: "fadd (Fin 0) (control_dt dt) = Fin (rnd d)"
    using d r big_bound[of "\<bar>rnd d\<bar>"] by (auto intro: f64_small)
  have S: "1 / 2 \<le> rnd (4 / 5)" "rnd (4 / 5) \<le> 1" by (rule rnd_ge_fix, simp_all)+ (rule rnd_le_fix, simp_all)
  then have T: "takeoffSpoolTime_s = Fin (rnd (4 / 5))"
    using big_bound[of "\<bar>rnd (4 / 5)\<bar>"] by (auto simp: takeoffSpoolTime_s_def intro: f64_small)
  show "flt (fadd (Fin 0) (control_dt dt)) takeoffSpoolTime_s" unfolding e T using r S by simp
  then show "\<not> takeoff_over (fadd (Fin 0) (control_dt dt))" by (simp add: takeoff_over_def)
qed

lemma takeoff_clock_frame [frame_simps]:
  "takeoff_clock (setArm b s) = takeoff_clock s"
  "takeoff_clock (apply_setpoint_overrides c s) = takeoff_clock s"
  "takeoff_clock (apply_tracking_update c s) = takeoff_clock s"
  by (simp_all add: takeoff_clock_def setArm_def on_command_def apply_setpoint_overrides_def Let_def
      setManualSetpoints_def clampCommandChannels_def apply_tracking_update_def updateTracking_def on_telemetry_def
      split: option.split)

lemma apply_takeoff_clock:
  assumes "to_control_mode (cf_desired_mode c) = Some CM_Takeoff" "fst (apply_control_mode_safely CM_Takeoff sink s)"
    "controlMode s \<noteq> CM_Takeoff"
  shows "takeoff_clock (apply_command c sink s) = Fin 0"
proof -
  have "takeoff_clock (setControlMode CM_Takeoff s) = Fin 0"
    using assms(3) by (simp add: takeoff_clock_def setControlMode_def Let_def)
  moreover have "apply_control_mode_safely CM_Takeoff sink s = (True, setControlMode CM_Takeoff s)"
    using assms(2) by (auto simp: apply_control_mode_safely_def split: if_splits)
  ultimately show ?thesis using assms(1)
    by (simp add: apply_command_def Let_def takeoff_clock_frame split: option.split)
qed

lemma control_step_quiet:
  "\<not> trips m i \<Longrightarrow> fm_controller (control_step i m) = fm_controller (command_step i m)"
  by (auto simp: trips_def control_step_def failsafe_step_def sink_step_def frame_simps)

definition ordered_by :: "command_frame \<Rightarrow> control_mode \<Rightarrow> tick_input \<Rightarrow> fc_main \<Rightarrow> bool" where
  \<comment> \<open>a new command asks for the mode, with a sink that can fly it\<close>
  "ordered_by c d i m = (ti_cmd i = Some c \<and> seq_accepted (fm_last_cmd_seq m) (cf_seq c) \<and>
     cf_desired_mode c = mode_number d \<and> rs_ok (ti_sink i) \<and> \<not> rs_tuning_mismatch (ti_sink i))"

lemma autonomy_ordered:
  assumes "main_ok m" "needs_msp (controlMode (fm_controller (main_step m i)))"
  defines "before \<equiv> controlMode (fm_controller m)" and "after \<equiv> controlMode (fm_controller (main_step m i))"
  shows "\<not> trips m i \<and> hoverThrottle (fm_controller m) \<noteq> 0 \<and>
    (after = before \<or> before = CM_Takeoff \<and> after = CM_Tracking \<or> (\<exists>c. ordered_by c after i m))"
proof -
  let ?s = "fm_controller (control_step i m)"
  have ok: "fc_ok ?s" using main_ok_control[OF assms(1)] by (simp add: main_ok_def)
  have t: "hoverThrottle ?s \<noteq> 0" "after = controlMode ?s \<or> controlMode ?s = CM_Takeoff \<and> after = CM_Tracking \<and>
      takeoff_over (fadd (takeoff_clock ?s) (control_dt (ti_dt i)))"
    using tick_mode[OF ok] assms(2) unfolding after_def main_step_parts(1) by simp_all
  have nt: "\<not> trips m i" using trips_lands t(2) assms(2) by (auto simp: after_def needs_msp_def)
  note s = control_step_quiet[OF nt]
  show ?thesis
  proof (cases rule: command_step_cases[of i m])
    case kept
    then show ?thesis using nt s t by (auto simp: before_def)
  next
    case (applied c)
    have h: "hoverThrottle (fm_controller m) \<noteq> 0" using t(1) s applied(3) apply_command_hover by simp
    have m: "controlMode ?s = (case to_control_mode (cf_desired_mode c) of None \<Rightarrow> before
        | Some d \<Rightarrow> if fst (apply_control_mode_safely d (ti_sink i) (fm_controller m)) then d else before)"
      unfolding before_def using s applied(3) by (simp add: apply_command_mode)
    show ?thesis
    proof (cases "controlMode ?s = before")
      case True
      then show ?thesis using nt h t(2) by auto
    next
      case False
      then obtain d where d: "to_control_mode (cf_desired_mode c) = Some d" "controlMode ?s = d"
        "fst (apply_control_mode_safely d (ti_sink i) (fm_controller m))" "d \<noteq> before"
        using m by (auto split: option.splits if_splits)
      have "after = d"
      proof (rule ccontr)
        assume "after \<noteq> d"
        then have x: "d = CM_Takeoff" "takeoff_over (fadd (takeoff_clock ?s) (control_dt (ti_dt i)))"
          using t(2) d(2) by auto
        have "takeoff_clock ?s = Fin 0" using apply_takeoff_clock[of c "ti_sink i" "fm_controller m"] d x(1) s applied(3)
          by (simp add: before_def)
        then show False using x(2) fresh_takeoff_runs(2) by simp
      qed
      moreover have "rs_ok (ti_sink i) \<and> \<not> rs_tuning_mismatch (ti_sink i)"
        using d(3) assms(2) calculation by (auto simp: apply_control_mode_safely_def after_def split: if_splits)
      ultimately have "ordered_by c after i m" using d(1) applied by (simp add: ordered_by_def to_control_mode_eq)
      then show ?thesis using nt h by blast
    qed
  qed
qed

text \<open>
  C3: The drone flies by itself only when told to and fit to. In whatever state the main loop
  can be, if a turn ends in tracking or takeoff mode then the hover throttle is calibrated and
  no failsafe tripped in it, and the mode is the one of the turn before, or tracking at the end
  of a takeoff, or it was asked for by a command with a new sequence number while the radio sink
  was healthy and its rate profile confirmed.
\<close>

theorem autonomy_needs_order:
  assumes "controller_from_env e = Some s0" "m = run main_step (new_fc_main s0) past"
    and "needs_msp (controlMode (fm_controller (main_step m i)))"
  shows "\<not> trips m i \<and> hoverThrottle (fm_controller m) \<noteq> 0 \<and>
    (controlMode (fm_controller (main_step m i)) = controlMode (fm_controller m) \<or>
     controlMode (fm_controller m) = CM_Takeoff \<and> controlMode (fm_controller (main_step m i)) = CM_Tracking \<or>
     (\<exists>c. ordered_by c (controlMode (fm_controller (main_step m i))) i m))"
  using autonomy_ordered[OF _ assms(3)] main_ok_run[OF main_ok_start[OF assms(1)]] assms(2) by blast

lemma from_chars_1400: "from_chars_int ''1400'' = Some 1400"
  by (simp add: from_chars_int_def is_digit_def digit_val_def digits_val_def)

lemma calibrated_startup:
  "controller_from_env (Some ''1400'') = Some (setHoverThrottle 1400 (setControlMode CM_LandSafely new_fc_state))"
  by (simp add: controller_from_env_def set_and_nonempty_def from_chars_1400 fc_consts)


lemma ordered_takeoff:
  assumes "main_ok m" "ordered_by c CM_Takeoff i m" "hoverThrottle (fm_controller m) \<noteq> 0"
    and "controlMode (fm_controller m) \<noteq> CM_Takeoff" "\<not> trips m i"
  shows "controlMode (fm_controller (main_step m i)) = CM_Takeoff"
    and "is_armed (fst (main_tick i m))" "bf_throttle (fst (main_tick i m)) = takeoffSpoolThrottle"
proof -
  let ?s = "fm_controller (control_step i m)"
  have ok: "fc_ok ?s" using main_ok_control[OF assms(1)] by (simp add: main_ok_def)
  have d: "to_control_mode (cf_desired_mode c) = Some CM_Takeoff" "ti_cmd i = Some c"
    "seq_accepted (fm_last_cmd_seq m) (cf_seq c)" and g: "fst (apply_control_mode_safely CM_Takeoff (ti_sink i) (fm_controller m))"
    using assms(2,3) by (auto simp: ordered_by_def to_control_mode_eq apply_control_mode_safely_def)
  have s: "?s = apply_command c (ti_sink i) (fm_controller m)"
    using control_step_quiet[OF assms(5)] d(2,3) by (simp add: command_step_def)
  have t: "controlMode ?s = CM_Takeoff" "hoverThrottle ?s \<noteq> 0" "takeoff_clock ?s = Fin 0"
    using apply_takeoff_clock[OF d(1) g assms(4)] d(1) g assms(3) unfolding s
    by (simp_all add: apply_command_mode apply_command_hover)
  note tk = takeoff_tick[OF ok t(1,2), of "ti_dt i", unfolded t(3)]
  show "controlMode (fm_controller (main_step m i)) = CM_Takeoff"
    unfolding main_step_parts(1) using tk(1) fresh_takeoff_runs(2) by simp
  show "is_armed (fst (main_tick i m))" "bf_throttle (fst (main_tick i m)) = takeoffSpoolThrottle"
    unfolding main_step_parts(5) main_step_parts(1) using tk(4,5) fresh_takeoff_runs(1) by (simp_all add: takeoff_command_def)
qed

definition calibrated_main :: fc_main where
  "calibrated_main = new_fc_main (setHoverThrottle 1400 (setControlMode CM_LandSafely new_fc_state))"

lemma calibrated_main:
  "main_ok calibrated_main" "hoverThrottle (fm_controller calibrated_main) = 1400"
  "controlMode (fm_controller calibrated_main) = CM_LandSafely" "fm_last_cmd_seq calibrated_main = None"
  "\<not> trips calibrated_main (turn c (Fin 0))"
  unfolding calibrated_main_def using main_ok_start[OF calibrated_startup] controller_from_env_ok(2)[OF calibrated_startup]
  by (simp_all add: new_fc_main_def setHoverThrottle_def u16_clamp_def fc_consts trips_def turn_def cmd_stale_def
      sample_sink_def CMD_TIMEOUT_S_def)

lemma takeoff_order: "fm_last_cmd_seq m = None \<Longrightarrow> ordered_by (frame_of 0 3 a) CM_Takeoff (turn (Some (frame_of 0 3 a)) age) m"
  by (simp add: ordered_by_def turn_def frame_of_def sample_sink_def seq_accepted_def kCmdSeqMaxFc_def mode_number_def)

theorem autonomy_needs_order_witness:
  "controlMode (fm_controller (main_step calibrated_main (turn (Some (frame_of 0 3 None)) (Fin 0)))) = CM_Takeoff \<and>
   (\<exists>c. ordered_by c CM_Takeoff (turn (Some (frame_of 0 3 None)) (Fin 0)) calibrated_main)"
proof -
  let ?i = "turn (Some (frame_of 0 3 None)) (Fin 0)"
  have t: "controlMode (fm_controller (main_step calibrated_main ?i)) = CM_Takeoff"
    by (rule ordered_takeoff(1)[OF calibrated_main(1) takeoff_order]) (simp_all add: calibrated_main)
  then have "needs_msp (controlMode (fm_controller (main_step calibrated_main ?i)))" by (simp add: needs_msp_def)
  from autonomy_needs_order[OF calibrated_startup, of calibrated_main "[]" ?i, OF _ this] show ?thesis
    using t calibrated_main(3) by (simp add: calibrated_main_def)
qed

text \<open>
  C33: A takeoff command that is still being sent restarts the takeoff in the air. When a takeoff
  has ended in tracking mode, the next command with a new sequence number that still asks for
  takeoff puts the drone back into takeoff mode, armed, with the spool-up throttle of 1020
  microseconds in that very turn, whatever the hover throttle is.
\<close>

theorem repeated_takeoff_cuts_throttle:
  assumes "controller_from_env e = Some s0" "m = run main_step (new_fc_main s0) past"
    and "controlMode (fm_controller m) = CM_Tracking" "hoverThrottle (fm_controller m) \<noteq> 0"
    and "ordered_by c CM_Takeoff i m" "\<not> trips m i"
  shows "controlMode (fm_controller (main_step m i)) = CM_Takeoff \<and>
    is_armed (fst (main_tick i m)) \<and> bf_throttle (fst (main_tick i m)) = 1020"
  using ordered_takeoff[OF _ assms(5,4) _ assms(6)] main_ok_run[OF main_ok_start[OF assms(1)]] assms(2,3)
  by (simp add: fc_consts)

subsection \<open>Commands are applied once, in order\<close>

definition applied_now :: "int option \<Rightarrow> tick_input \<Rightarrow> command_frame option" where
  \<comment> \<open>specification: the command a turn applies, given the number of the last one applied: the one the
    command server holds, if its number is in range and ahead of the last by at most half the number space\<close>
  "applied_now last_seq i = (case ti_cmd i of None \<Rightarrow> None
     | Some c \<Rightarrow> if seq_range (cf_seq c) \<and> (case last_seq of None \<Rightarrow> True | Some p \<Rightarrow> seq_advances p (cf_seq c))
                 then Some c else None)"

fun applied_commands :: "int option \<Rightarrow> tick_input list \<Rightarrow> command_frame option list" where
  \<comment> \<open>specification: the command each turn of a run applies\<close>
  "applied_commands last_seq [] = []"
| "applied_commands last_seq (i # is) = applied_now last_seq i #
     applied_commands (case applied_now last_seq i of None \<Rightarrow> last_seq | Some c \<Rightarrow> Some (cf_seq c)) is"

definition applied_turn :: "fc_main \<Rightarrow> command_frame option \<times> tick_input \<Rightarrow> fc_main" where
  \<comment> \<open>specification: a turn in which the given command is applied, once, and the command server is not looked at\<close>
  "applied_turn m = (\<lambda>(co, i). main_step (case co of None \<Rightarrow> m
     | Some c \<Rightarrow> m\<lparr> fm_last_cmd_seq := Some (cf_seq c),
                   fm_controller := apply_command c (ti_sink i) (fm_controller m) \<rparr>) (i\<lparr> ti_cmd := None \<rparr>))"

definition numbers :: "command_frame option list \<Rightarrow> int list" where
  "numbers cs = concat (map (\<lambda>co. case co of None \<Rightarrow> [] | Some c \<Rightarrow> [cf_seq c]) cs)"

definition follows :: "int \<Rightarrow> int \<Rightarrow> bool" where
  \<comment> \<open>the same command again, or one at most half the number space ahead\<close>
  "follows p q = (q = p \<or> seq_advances p q)"

abbreviation number_list :: "int option \<Rightarrow> int list" where
  "number_list o1 \<equiv> (case o1 of None \<Rightarrow> [] | Some p \<Rightarrow> [p])"

lemma numbers_simps [simp]: "numbers [] = []" "numbers (None # cs) = numbers cs" "numbers (Some c # cs) = cf_seq c # numbers cs"
  by (simp_all add: numbers_def)

lemma command_step_applied:
  assumes "main_ok m"
  shows "command_step i m = (case applied_now (fm_last_cmd_seq m) i of None \<Rightarrow> m
     | Some c \<Rightarrow> m\<lparr> fm_last_cmd_seq := Some (cf_seq c), fm_controller := apply_command c (ti_sink i) (fm_controller m) \<rparr>)"
proof -
  have "case fm_last_cmd_seq m of None \<Rightarrow> True | Some p \<Rightarrow> seq_range p" using assms by (simp add: main_ok_def)
  then show ?thesis using seq_accepted_eq by (simp add: command_step_def applied_now_def split: option.split)
qed

lemma main_step_no_command: "main_step m (i\<lparr> ti_cmd := None \<rparr>) =
  snd (let m1 = sink_step (\<not> rs_ok (ti_sink i)) (failsafe_step (cmd_stale i) m);
          (rc_cmd, s) = updateTimeStep (ti_dt i) (fm_controller m1);
          tel_json = build_tel_json (unat (fm_tel_seq m1)) (telemetryData s) (lastTrackingMsg s) (ti_cmd_age_s i) (rs_tx_ratio (ti_sink i))
      in (rc_cmd, m1\<lparr> fm_controller := s, fm_tel_wire := snd (send_json tel_json (fm_tel_wire m1)),
            fm_tel_seq := fm_tel_seq m1 + 1 \<rparr>))"
  by (simp add: main_step_def main_tick_def control_step_def command_step_def cmd_stale_def Let_def)

lemma step_is_applied_turn: "main_ok m \<Longrightarrow> main_step m i = applied_turn m (applied_now (fm_last_cmd_seq m) i, i)"
  unfolding applied_turn_def prod.case main_step_no_command command_step_applied[symmetric]
  by (simp add: main_step_def main_tick_def control_step_def Let_def)

lemma applied_last:
  "main_ok m \<Longrightarrow> fm_last_cmd_seq (main_step m i) =
     (case applied_now (fm_last_cmd_seq m) i of None \<Rightarrow> fm_last_cmd_seq m | Some c \<Rightarrow> Some (cf_seq c))"
  by (simp add: main_step_parts(2) command_step_applied split: option.split)

lemma run_is_applied:
  "main_ok m \<Longrightarrow> run main_step m is = run applied_turn m (zip (applied_commands (fm_last_cmd_seq m) is) is)"
proof (induction "is" arbitrary: m)
  case (Cons i "is")
  show ?case using Cons.IH[OF main_ok_step[OF Cons.prems, of i], unfolded applied_last[OF Cons.prems]]
    by (simp add: step_is_applied_turn[OF Cons.prems, symmetric])
qed simp

lemma applied_now_Some:
  "applied_now l i = Some c \<Longrightarrow> ti_cmd i = Some c \<and> seq_range (cf_seq c) \<and>
     (case l of None \<Rightarrow> True | Some p \<Rightarrow> seq_advances p (cf_seq c))"
  by (simp add: applied_now_def split: option.splits if_splits)

lemma applied_advance: "successively seq_advances (number_list l @ numbers (applied_commands l is))"
proof (induction "is" arbitrary: l)
  case (Cons i "is")
  show ?case
  proof (cases "applied_now l i")
    case None
    then show ?thesis using Cons[of l] by simp
  next
    case (Some c)
    then show ?thesis using Cons[of "Some (cf_seq c)"] applied_now_Some[OF Some]
      by (auto simp: successively_Cons split: option.splits)
  qed
qed (simp split: option.split)

lemma applied_all:
  assumes "list_all seq_range (numbers (map ti_cmd is))" "successively follows (number_list l @ numbers (map ti_cmd is))"
  shows "number_list l @ numbers (applied_commands l is) = remdups_adj (number_list l @ numbers (map ti_cmd is))"
  using assms
proof (induction "is" arbitrary: l)
  case Nil
  then show ?case by (simp split: option.split)
next
  case (Cons i "is")
  show ?case
  proof (cases "ti_cmd i")
    case None
    then have "applied_now l i = None" by (simp add: applied_now_def)
    then show ?thesis using Cons None by simp
  next
    case (Some c)
    let ?q = "cf_seq c"
    have rq: "seq_range ?q" using Cons.prems(1) Some by simp
    have "list_all seq_range (numbers (map ti_cmd is))" "successively follows (number_list (Some ?q) @ numbers (map ti_cmd is))"
      using Cons.prems Some by (auto simp: successively_Cons split: option.splits)
    from Cons.IH[OF this] have ih: "?q # numbers (applied_commands (Some ?q) is) = remdups_adj (?q # numbers (map ti_cmd is))"
      by simp
    show ?thesis
    proof (cases "l = Some ?q")
      case True
      then have "applied_now l i = None" by (simp add: applied_now_def Some seq_advances_def seq_consts)
      then show ?thesis using True ih Some by simp
    next
      case False
      then have "case l of None \<Rightarrow> True | Some p \<Rightarrow> seq_advances p ?q"
        using Cons.prems(2) Some by (auto simp: follows_def successively_Cons split: option.splits)
      then have "applied_now l i = Some c" using rq by (simp add: applied_now_def Some)
      then show ?thesis using False ih Some by (auto split: option.split)
    qed
  qed
qed

text \<open>
  C14: Every command is applied once, in order. A run of the main loop, whatever the command server
  holds turn by turn, is the run in which each turn applies the one command the specification
  picks for it (a command whose number is ahead of the last one applied) exactly once, and does
  nothing else with commands: a turn that finds no such command leaves the controller to the
  failsafes and the tick. The numbers of the commands applied advance from each to the next; and
  if each number the server shows is the one before or ahead of it by at most half the number
  space, wrap-around included, then those applied are exactly the ones shown, each once.
\<close>

theorem commands_applied_once:
  assumes "controller_from_env e = Some s0"
  shows "run main_step (new_fc_main s0) is = run applied_turn (new_fc_main s0) (zip (applied_commands None is) is) \<and>
    successively seq_advances (numbers (applied_commands None is)) \<and>
    (if list_all seq_range (numbers (map ti_cmd is)) \<and> successively follows (numbers (map ti_cmd is))
     then numbers (applied_commands None is) = remdups_adj (numbers (map ti_cmd is)) else True)"
  using run_is_applied[OF main_ok_start[OF assms], of "is"] applied_advance[of None "is"] applied_all[of "is" None]
  by (simp add: new_fc_main_def)

theorem commands_applied_once_witness:
  "run main_step (new_fc_main (setControlMode CM_LandSafely new_fc_state))
     [turn (Some (frame_of 2147483647 0 None)) (Fin 0), turn (Some (frame_of 2147483647 0 None)) (Fin 0),
      turn (Some (frame_of 0 0 None)) (Fin 0)] =
   run applied_turn (new_fc_main (setControlMode CM_LandSafely new_fc_state))
     [(Some (frame_of 2147483647 0 None), turn (Some (frame_of 2147483647 0 None)) (Fin 0)),
      (None, turn (Some (frame_of 2147483647 0 None)) (Fin 0)),
      (Some (frame_of 0 0 None), turn (Some (frame_of 0 0 None)) (Fin 0))]"
proof -
  let ?is = "[turn (Some (frame_of 2147483647 0 None)) (Fin 0), turn (Some (frame_of 2147483647 0 None)) (Fin 0),
      turn (Some (frame_of 0 0 None)) (Fin 0)]"
  have "applied_commands None ?is = [Some (frame_of 2147483647 0 None), None, Some (frame_of 0 0 None)]"
    by (simp add: applied_now_def turn_def frame_of_def seq_range_def seq_advances_def seq_consts)
  from conjunct1[OF commands_applied_once[OF sample_startup, of ?is], unfolded this] show ?thesis
    by (simp only: zip.simps zip_Cons_Cons list.case)
qed

subsection \<open>Turns in which nothing happens\<close>

definition quiet :: "fc_main \<Rightarrow> tick_input \<Rightarrow> bool" where
  \<comment> \<open>no command is applied and no failsafe trips\<close>
  "quiet m i = (command_step i m = m \<and> \<not> trips m i)"

fun all_quiet :: "fc_main \<Rightarrow> tick_input list \<Rightarrow> bool" where
  "all_quiet m [] = True"
| "all_quiet m (i # is) = (quiet m i \<and> all_quiet (main_step m i) is)"

lemma quiet_step: "quiet m i \<Longrightarrow> fm_controller (main_step m i) = fc_tick (fm_controller m) (ti_dt i)"
  using control_step_quiet by (simp add: quiet_def main_step_parts(1))

lemma quiet_run:
  "all_quiet m is \<Longrightarrow> fm_controller (run main_step m is) = run fc_tick (fm_controller m) (map ti_dt is)"
  by (induction "is" arbitrary: m) (simp_all add: quiet_step)

lemma same_command_quiet:
  assumes "list_all (\<lambda>j. ti_cmd j = c) is"
    and "case c of None \<Rightarrow> True | Some f \<Rightarrow> fm_last_cmd_seq m = Some (cf_seq f)"
    and "list_all (\<lambda>j. cmd_stale j = fm_failsafe_engaged m \<and> rs_ok (ti_sink j)) is"
  shows "all_quiet m is"
  using assms
proof (induction "is" arbitrary: m)
  case (Cons j js)
  have k: "command_step j m = m" using Cons.prems(1,2)
    by (auto simp: command_step_def not_accepted_again split: option.splits)
  have "quiet m j" using Cons.prems(3) by (simp add: quiet_def k trips_def)
  moreover have "fm_last_cmd_seq (main_step m j) = fm_last_cmd_seq m" "fm_failsafe_engaged (main_step m j) = fm_failsafe_engaged m"
    using Cons.prems(3) by (simp_all add: main_step_parts k)
  then have "all_quiet (main_step m j) js" using Cons.IH[of "main_step m j"] Cons.prems by (simp cong: option.case_cong)
  ultimately show ?case by simp
qed simp

lemma quiet_run_seq: "all_quiet m is \<Longrightarrow> fm_last_cmd_seq (run main_step m is) = fm_last_cmd_seq m"
  by (induction "is" arbitrary: m) (simp_all add: quiet_def main_step_parts(2))

lemma main_run_hover:
  "main_ok m \<Longrightarrow> hoverThrottle (fm_controller (run main_step m is)) = hoverThrottle (fm_controller m)"
proof (induction "is" arbitrary: m)
  case (Cons i "is")
  have "fc_ok (fm_controller (control_step i m))" using main_ok_control[OF Cons.prems] by (simp add: main_ok_def)
  then have "hoverThrottle (fm_controller (main_step m i)) = hoverThrottle (fm_controller m)"
    by (simp add: main_step_parts(1) tick_hover control_step_def frame_simps)
  then show ?case using Cons.IH[OF main_ok_step[OF Cons.prems]] by simp
qed simp

definition takeoff_turn :: "int \<Rightarrow> tick_input" where
  "takeoff_turn q = turn (Some (frame_of q 3 None)) (Fin 0)"

lemma takeoff_turn_simps [simp]:
  "ti_cmd (takeoff_turn q) = Some (frame_of q 3 None)" "\<not> cmd_stale (takeoff_turn q)" "rs_ok (ti_sink (takeoff_turn q))"
  "ti_dt (takeoff_turn q) = Fin (1 / 32)" "cf_seq (frame_of q r a) = q" "\<not> trips m (takeoff_turn q)"
  by (simp_all add: takeoff_turn_def turn_def cmd_stale_def CMD_TIMEOUT_S_def sample_sink_def frame_of_def trips_def)

lemma takeoff_turn_ordered:
  "seq_accepted (fm_last_cmd_seq m) q \<Longrightarrow> ordered_by (frame_of q 3 None) CM_Takeoff (takeoff_turn q) m"
  by (simp add: ordered_by_def) (simp add: takeoff_turn_def turn_def sample_sink_def frame_of_def mode_number_def)

theorem repeated_takeoff_cuts_throttle_witness:
  "let m = run main_step calibrated_main (replicate 225 (takeoff_turn 0));
       (rc_cmd, m') = main_tick (takeoff_turn 1) m
   in controlMode (fm_controller m) = CM_Tracking \<and> controlMode (fm_controller m') = CM_Takeoff \<and>
      is_armed rc_cmd \<and> bf_throttle rc_cmd = 1020"
proof -
  let ?i = "takeoff_turn 0" and ?later = "replicate 224 (takeoff_turn 0)"
  let ?m1 = "main_step calibrated_main ?i" and ?m = "run main_step calibrated_main (replicate 225 ?i)"
  have r: "replicate 225 ?i = ?i # ?later" using replicate_Suc[of 224 ?i] by simp
  have a0: "seq_accepted (fm_last_cmd_seq calibrated_main) 0" by (simp add: seq_accepted_def calibrated_main kCmdSeqMaxFc_def)
  have t1: "controlMode (fm_controller ?m1) = CM_Takeoff"
    by (rule ordered_takeoff(1)[OF calibrated_main(1) takeoff_turn_ordered[OF a0]]) (simp_all add: calibrated_main)
  have q: "fm_last_cmd_seq ?m1 = Some 0" using a0 by (simp add: main_step_parts(2) command_step_def)
  have ok1: "fc_ok (fm_controller ?m1)" using main_ok_step[OF calibrated_main(1)] by (simp add: main_ok_def)
  have h: "hoverThrottle (fm_controller ?m1) = 1400" "hoverThrottle (fm_controller ?m) = 1400"
    using main_run_hover[OF calibrated_main(1), of "[?i]"] main_run_hover[OF calibrated_main(1)] by (simp_all add: calibrated_main(2))
  have aq: "all_quiet ?m1 ?later"
    using q by (intro same_command_quiet[of "Some (frame_of 0 3 None)"]) (simp_all add: list_all_iff main_step_parts(3))
  have m: "?m = run main_step ?m1 ?later" unfolding r by simp
  have "long_ticks (map ti_dt ?later) = 224"
    using long_ticks_replicate[of "Fin (1 / 32)" 224] unfolding map_replicate by (simp add: long_tick_def)
  then have t: "controlMode (fm_controller ?m) = CM_Tracking"
    using takeoff_settles[OF ok1 t1, of "map ti_dt ?later"] h(1) unfolding m quiet_run[OF aq] by simp
  have "fm_last_cmd_seq ?m = Some 0" using quiet_run_seq[OF aq] q unfolding m by simp
  then have "seq_accepted (fm_last_cmd_seq ?m) 1"
    using seq_accepted_eq[of "Some 0" 1] by (simp add: seq_range_def seq_advances_def seq_consts)
  from repeated_takeoff_cuts_throttle[OF calibrated_startup _ t _ takeoff_turn_ordered[OF this]] show ?thesis
    using t h(2) by (simp add: calibrated_main_def Let_def split_beta main_step_def)
qed

text \<open>
  C34: A command that is applied late outlives the failsafe. When the link is already stale, a
  command to track whose turn still finds it stale (the loop was held up for longer than the
  timeout after the command came) is obeyed, and as the failsafe acts only when the link turns
  stale, the drone stays in tracking mode for as long as no other command comes.
\<close>

theorem late_command_outlives_failsafe:
  assumes "controller_from_env e = Some s0" "m = run main_step (new_fc_main s0) past"
    and "fm_failsafe_engaged m" "ordered_by c CM_Tracking i m" "hoverThrottle (fm_controller m) \<noteq> 0"
    and "list_all (\<lambda>j. cmd_stale j \<and> ti_cmd j = Some c \<and> rs_ok (ti_sink j)) (i # later)"
  shows "controlMode (fm_controller (run main_step m (i # later))) = CM_Tracking"
proof -
  have ok: "main_ok m" unfolding assms(2) by (rule main_ok_run[OF main_ok_start[OF assms(1)]])
  have nt: "\<not> trips m i" using assms(3,6) by (simp add: trips_def)
  have a: "seq_accepted (fm_last_cmd_seq m) (cf_seq c)" "to_control_mode (cf_desired_mode c) = Some CM_Tracking"
    "fst (apply_control_mode_safely CM_Tracking (ti_sink i) (fm_controller m))"
    using assms(4,5) by (auto simp: ordered_by_def to_control_mode_eq apply_control_mode_safely_def)
  let ?m1 = "main_step m i" and ?s = "fm_controller (control_step i m)"
  have s: "controlMode ?s = CM_Tracking" "hoverThrottle ?s \<noteq> 0"
    using assms(5,6) a by (simp_all add: control_step_quiet[OF nt] command_step_def apply_command_mode apply_command_hover)
  have t1: "controlMode (fm_controller ?m1) = CM_Tracking" "hoverThrottle (fm_controller ?m1) \<noteq> 0"
    unfolding main_step_parts(1) using tracking_tick_frame[OF s] s(2) by simp_all
  have "fm_last_cmd_seq ?m1 = Some (cf_seq c)" "fm_failsafe_engaged ?m1"
    using a(1) assms(6) by (simp_all add: main_step_parts command_step_def)
  then have "all_quiet ?m1 later" using assms(6) by (intro same_command_quiet[of "Some c"]) (simp_all add: list_all_iff)
  then show ?thesis using tracking_run_frame[OF t1] by (simp add: quiet_run)
qed

theorem late_command_outlives_failsafe_witness:
  "controlMode (fm_controller (run main_step (main_step calibrated_main (turn None (Fin 1)))
     (replicate 1000 (turn (Some (frame_of 0 1 (Some True))) (Fin 1))))) = CM_Tracking"
proof -
  let ?m = "main_step calibrated_main (turn None (Fin 1))" and ?i = "turn (Some (frame_of 0 1 (Some True))) (Fin 1)"
  have r: "replicate 1000 ?i = ?i # replicate 999 ?i" using replicate_Suc[of 999 ?i] by simp
  have q: "fm_last_cmd_seq ?m = None" using calibrated_main(4) by (simp add: main_step_parts(2)) (simp add: command_step_def turn_def)
  have "fm_failsafe_engaged ?m" by (simp add: main_step_parts(3)) (simp add: cmd_stale_def turn_def CMD_TIMEOUT_S_def)
  moreover have "ordered_by (frame_of 0 1 (Some True)) CM_Tracking ?i ?m"
    by (simp add: ordered_by_def q seq_accepted_def) (simp add: turn_def frame_of_def sample_sink_def mode_number_def kCmdSeqMaxFc_def)
  moreover have "hoverThrottle (fm_controller ?m) = 1400"
    using main_run_hover[OF calibrated_main(1), of "[turn None (Fin 1)]"] by (simp add: calibrated_main(2))
  ultimately show ?thesis
    using late_command_outlives_failsafe[OF calibrated_startup, of ?m "[turn None (Fin 1)]" "frame_of 0 1 (Some True)" ?i
        "replicate 999 ?i"] unfolding r
    by (simp add: calibrated_main_def list_all_iff) (simp add: turn_def cmd_stale_def CMD_TIMEOUT_S_def sample_sink_def)
qed

end
