(* ===== verification/Fc_Chain.thy ===== *)
theory Fc_Chain
  imports Fc_Failsafe
begin

section \<open>From the backend's command to the motors\<close>

text \<open>
  The whole way of a command: built by the backend's safety gate, framed, cut up by TCP, read and
  parsed by the flight controller's network thread, applied by a turn of its main loop, and
  carried out over the turns that follow.
\<close>

text \<open>
  C2: When the backend says land, the drone lands. Let the last frame that reached the flight
  controller hold a command built from an intent to land, or from one to track whose vision data
  the safety gate found missing or stale. Once a turn of the main loop takes that command, the
  drone lands: over any turns of which 320 are at least 1/64 s long, and until another command
  comes, the throttle never rises, the sticks are centred, and the last channels are disarmed.
\<close>

theorem backend_lands_drone:
  assumes "list_all2 (\<lambda>p f. frame_cmd_payload fr p mx = Inr f) (ps @ [p]) fs" "mx \<le> TCP_MAX_FRAME_BYTES"
    and "[] \<notin> set chunks" "concat chunks = concat fs" "length ps < length clk"
    and "build_cmd_payload q t it vis age fresh_s = Inr (p, b)" "read_intent it = Inr (md, a, sp)"
    and "\<forall>v. vis = Some v \<longrightarrow> vis_wf v" "fc_readable fr (PDict p)" "b \<noteq> None \<or> md = MODE_LAND_SAFELY"
    and "controller_from_env e = Some s0" "m = run main_step (new_fc_main s0) past"
    and "ti_cmd i = latest_command (serve_client clk chunks c)" "seq_accepted (fm_last_cmd_seq m) q"
    and "list_all (\<lambda>j. ti_cmd j = ti_cmd i) later" "320 \<le> long_ticks (map ti_dt (i # later))"
  shows "lands_disarmed (main_commands m (i # later)) \<and>
    controlMode (fm_controller (run main_step m (i # later))) = CM_LandSafely"
proof -
  obtain f where f: "ti_cmd i = Some f" "cf_seq f = q" "cf_desired_mode f = MODE_LAND_SAFELY"
    using client_last_command[OF assms(1-9), of c] assms(10,13)
    by (auto simp: latest_command_with_time_def split: if_splits)
  have "to_control_mode (cf_desired_mode f) = Some CM_LandSafely"
    by (simp add: f(3) to_control_mode_def MODE_LAND_SAFELY_def)
  then have "controlMode (fm_controller (command_step i m)) = CM_LandSafely"
    using assms(14) f(1,2)
    by (simp add: command_step_def apply_command_mode apply_control_mode_safely_def needs_msp_def)
  then have "controlMode (fm_controller (control_step i m)) = CM_LandSafely"
    by (simp add: control_step_def failsafe_step_def sink_step_def)
  moreover have "main_ok m" unfolding assms(12) by (rule main_ok_run[OF main_ok_start[OF assms(11)]])
  ultimately show ?thesis using landing_turns assms(15,16) by blast
qed

theorem backend_lands_drone_witness:
  "\<exists>f i. frame_cmd_payload sample_fr (sample_cmd 2) 4096 = Inr f \<and>
    ti_cmd i = latest_command (serve_client [Fin 5] [take 3 f, drop 3 f] new_command_server) \<and>
    lands_disarmed (main_commands calibrated_main (replicate 320 i))"
proof -
  obtain f where f: "frame_cmd_payload sample_fr (sample_cmd 2) 4096 = Inr f" using sample_framed by blast
  have len: "4 < length f" using f by (cases rule: frame_cmd_payloadE) (simp add: be32_def)
  have it: "read_intent (Some [(''desired_mode'', PInt 1)]) = Inr (1, None, None)"
    by (simp add: read_intent_def int_at_def dindex_def mode_defs)
  have v: "\<forall>v. Some sample_vis = Some v \<longrightarrow> vis_wf v"
    unfolding sample_vis_def using vis_message_wf[of 3 "Fin (1/2)" "Fin 0" "Fin (1/4)" "Fin (1/4)" "Fin 1"]
    by (simp add: TRACKING_STATES_def TRACKING_STATE_TRACKING_def between_def)
  have r: "fc_readable sample_fr (PDict (sample_cmd 2))"
    using sample_reads_back by (simp add: sample_cmd_def int32_def)
  have ch: "[] \<notin> set [take 3 f, drop 3 f]" "concat [take 3 f, drop 3 f] = concat [f]" using len by auto
  let ?i = "turn (latest_command (serve_client [Fin 5] [take 3 f, drop 3 f] new_command_server)) (Fin 0)"
  have r': "replicate 320 ?i = ?i # replicate 319 ?i" using replicate_Suc[of 319 ?i] by simp
  have "long_ticks (map ti_dt (?i # replicate 319 ?i)) = 320"
    using long_ticks_replicate[of "Fin (1 / 32)" 320] unfolding r'[symmetric] map_replicate
    by (simp add: turn_def long_tick_def)
  moreover have "seq_accepted (fm_last_cmd_seq calibrated_main) 7"
    by (simp add: seq_accepted_def calibrated_main kCmdSeqMaxFc_def)
  ultimately have "lands_disarmed (main_commands calibrated_main (replicate 320 ?i))"
    using f backend_lands_drone[OF _ _ ch _ sample_cmd_built(2) it v r _ calibrated_startup, of 4096 "[]" "[Fin 5]"
        calibrated_main "[]" ?i new_command_server "replicate 319 ?i"]
    unfolding r' by (simp add: TCP_MAX_FRAME_BYTES_def calibrated_main_def turn_def list_all_iff)
  moreover have "ti_cmd ?i = latest_command (serve_client [Fin 5] [take 3 f, drop 3 f] new_command_server)"
    by (simp add: turn_def)
  ultimately show ?thesis using f by blast
qed

end
