(* ===== verification/Json_Reader.thy ===== *)
theory Json_Reader
  imports Json_Text Py_Text
begin

section \<open>What a JSON reader makes of a document\<close>

text \<open>
  The flight controller assembles its datagrams by hand, and the Python side decodes them with
  \<open>json.loads\<close>. The contract of that function is stated over documents, not over the texts of this
  program: for every JSON document of integers, decimal numbers, plain strings, arrays and objects, the
  reader turns the document's text into its value (\<open>reads_json\<close>). A client shows that the text it builds is the text
  of a document. The theory ends with a reader for such documents, so that the contract is known to hold
  of some function.
\<close>

datatype json_doc =
    JInt int
  | JDec string
  | JStr string
  | JArr "json_doc list"
  | JObj "(string \<times> json_doc) list"

fun commas :: "string list \<Rightarrow> string" where
  "commas [] = []"
| "commas (t # ts) = t @ (if ts = [] then [] else CHR '','' # commas ts)"

fun json_text :: "json_doc \<Rightarrow> string" where
  "json_text (JInt i) = dec_int i"
| "json_text (JDec s) = s"
| "json_text (JStr s) = CHR 0x22 # s @ [CHR 0x22]"
| "json_text (JArr ds) = CHR ''['' # commas (map json_text ds) @ '']''"
| "json_text (JObj ms) = CHR 0x7B # commas (map (\<lambda>(k, d). CHR 0x22 # k @ CHR 0x22 # CHR '':'' # json_text d) ms) @ [CHR 0x7D]"

definition decimal_value :: "string \<Rightarrow> pyfloat" where
  \<comment> \<open>\<open>float(text)\<close>\<close>
  "decimal_value s = (case parse_float s of Some f \<Rightarrow> f | None \<Rightarrow> NaN)"

fun json_value :: "json_doc \<Rightarrow> pyval" where
  "json_value (JInt i) = PInt i"
| "json_value (JDec s) = PFloat (decimal_value s)"
| "json_value (JStr s) = PStr s"
| "json_value (JArr ds) = PList (map json_value ds)"
| "json_value (JObj ms) = PDict (map (\<lambda>(k, d). (k, json_value d)) ms)"

definition plain_text :: "string \<Rightarrow> bool" where
  \<comment> \<open>a string that needs no escape\<close>
  "plain_text s = (printable s \<and> CHR 0x22 \<notin> set s \<and> CHR 0x5C \<notin> set s)"

definition decimal_text :: "string \<Rightarrow> bool" where
  \<comment> \<open>\<open>-?(0|[1-9][0-9]*)\.[0-9]+\<close>\<close>
  "decimal_text s = (let u = (case s of c # cs \<Rightarrow> if c = CHR ''-'' then cs else s | [] \<Rightarrow> []);
     a = takeWhile is_digit u in
     a \<noteq> [] \<and> (length a = 1 \<or> hd a \<noteq> CHR ''0'') \<and>
     (case dropWhile is_digit u of c # f \<Rightarrow> c = CHR ''.'' \<and> f \<noteq> [] \<and> list_all is_digit f | [] \<Rightarrow> False))"

fun doc_ok :: "json_doc \<Rightarrow> bool" where
  "doc_ok (JInt i) = True"
| "doc_ok (JDec s) = decimal_text s"
| "doc_ok (JStr s) = plain_text s"
| "doc_ok (JArr ds) = list_all doc_ok ds"
| "doc_ok (JObj ms) = (distinct (map fst ms) \<and> list_all (\<lambda>(k, d). plain_text k \<and> doc_ok d) ms)"

definition reads_json :: "(nat list \<Rightarrow> pyval option) \<Rightarrow> bool" where
  \<comment> \<open>what the Python documentation promises of \<open>json.loads\<close> for these documents\<close>
  "reads_json loads = (\<forall>d. doc_ok d \<longrightarrow> loads (utf8_ascii (json_text d)) = Some (json_value d))"

lemma reads_jsonD: "reads_json loads \<Longrightarrow> doc_ok d \<Longrightarrow> loads (utf8_ascii (json_text d)) = Some (json_value d)"
  by (simp add: reads_json_def)

subsection \<open>A reader\<close>

definition number_char :: "char \<Rightarrow> bool" where
  "number_char c = (is_digit c \<or> c = CHR ''-'' \<or> c = CHR ''.'')"

fun read_value :: "nat \<Rightarrow> string \<Rightarrow> (pyval \<times> string) option"
  and read_elems :: "nat \<Rightarrow> string \<Rightarrow> (pyval list \<times> string) option"
  and read_items :: "nat \<Rightarrow> string \<Rightarrow> ((string \<times> pyval) list \<times> string) option" where
  "read_value 0 s = None"
| "read_value (Suc n) s =
     (case s of [] \<Rightarrow> None
      | c # r \<Rightarrow>
        if c = CHR 0x22 then
          (case dropWhile (\<lambda>x. x \<noteq> CHR 0x22) r of [] \<Rightarrow> None
           | _ # r' \<Rightarrow> Some (PStr (takeWhile (\<lambda>x. x \<noteq> CHR 0x22) r), r'))
        else if c = CHR ''['' then map_option (apfst PList) (read_elems n r)
        else if c = CHR 0x7B then map_option (apfst PDict) (read_items n r)
        else let t = takeWhile number_char s; r' = dropWhile number_char s in
          if CHR ''.'' \<in> set t then Some (PFloat (decimal_value t), r')
          else map_option (\<lambda>i. (PInt i, r')) (parse_int t))"
| "read_elems 0 s = None"
| "read_elems (Suc n) s =
     (if take 1 s = '']'' then Some ([], drop 1 s)
      else case read_value n s of None \<Rightarrow> None
        | Some (v, r) \<Rightarrow>
          if take 1 r = '']'' then Some ([v], drop 1 r)
          else if take 1 r = '','' then map_option (apfst ((#) v)) (read_elems n (drop 1 r))
          else None)"
| "read_items 0 s = None"
| "read_items (Suc n) s =
     (if take 1 s = [CHR 0x7D] then Some ([], drop 1 s)
      else if take 1 s \<noteq> [CHR 0x22] then None
      else let k = takeWhile (\<lambda>x. x \<noteq> CHR 0x22) (drop 1 s); r = dropWhile (\<lambda>x. x \<noteq> CHR 0x22) (drop 1 s) in
        if take 2 r \<noteq> [CHR 0x22, CHR '':''] then None
        else case read_value n (drop 2 r) of None \<Rightarrow> None
          | Some (v, r') \<Rightarrow>
            if take 1 r' = [CHR 0x7D] then Some ([(k, v)], drop 1 r')
            else if take 1 r' = '','' then map_option (apfst ((#) (k, v))) (read_items n (drop 1 r'))
            else None)"

definition json_reader :: "nat list \<Rightarrow> pyval option" where
  \<comment> \<open>the bytes of one document\<close>
  "json_reader b = (let s = map char_of b in
     case read_value (2 * length s + 1) s of Some (v, []) \<Rightarrow> Some v | _ \<Rightarrow> None)"

lemma delimiters [simp]:
  "\<not> number_char (CHR '','')" "\<not> number_char (CHR '']'')" "\<not> number_char (CHR 0x7D)" "\<not> number_char (CHR 0x22)"
  "\<not> number_char (CHR ''['')" "\<not> number_char (CHR 0x7B)"
  by (simp_all add: number_char_def is_digit_def digit_val_def)

definition stops :: "string \<Rightarrow> bool" where
  "stops r = (case r of [] \<Rightarrow> True | c # _ \<Rightarrow> \<not> number_char c)"

lemma read_token:
  assumes "list_all number_char t" "stops r"
  shows "takeWhile number_char (t @ r) = t" "dropWhile number_char (t @ r) = r"
  using assms by (cases r; auto simp: stops_def list_all_iff takeWhile_append2 dropWhile_append2)+

lemma dec_nat_number_char: "list_all number_char (dec_nat n)"
  using dec_nat_digits[of n] by (auto simp: list_all_iff number_char_def is_digit_def)

lemma dec_int_token: "list_all number_char (dec_int i)" "CHR ''.'' \<notin> set (dec_int i)" "dec_int i \<noteq> []"
proof -
  have d: "\<not> is_digit (CHR ''.'')" by (simp add: is_digit_def digit_val_def)
  then have "CHR ''.'' \<notin> set (dec_nat n)" for n
    using dec_nat_digits[of n] by (auto simp: list_all_iff is_digit_def)
  then show "CHR ''.'' \<notin> set (dec_int i)" by (simp add: dec_int_def)
  show "list_all number_char (dec_int i)" using dec_nat_number_char by (simp add: dec_int_def number_char_def)
  show "dec_int i \<noteq> []" using dec_nat_Cons[of "nat i"] by (auto simp: dec_int_def)
qed

lemma decimal_token:
  assumes "decimal_text s"
  shows "list_all number_char s" "CHR ''.'' \<in> set s"
proof -
  define u where "u = (case s of c # cs \<Rightarrow> if c = CHR ''-'' then cs else s | [] \<Rightarrow> [])"
  obtain f where f: "dropWhile is_digit u = CHR ''.'' # f" "list_all is_digit f"
    using assms unfolding decimal_text_def Let_def u_def[symmetric] by (auto split: list.splits)
  have u: "u = takeWhile is_digit u @ CHR ''.'' # f" using f(1) takeWhile_dropWhile_id[of is_digit u] by simp
  moreover have "list_all number_char (takeWhile is_digit u)" "list_all number_char f"
    using f(2) by (auto simp: list_all_iff number_char_def dest: set_takeWhileD)
  ultimately have "list_all number_char u" "CHR ''.'' \<in> set u"
    by (metis (no_types) list_all_append list.pred_inject(2) number_char_def) (metis u in_set_conv_decomp)
  then show "list_all number_char s" "CHR ''.'' \<in> set s"
    unfolding u_def by (auto split: list.splits if_splits simp: number_char_def)
qed

lemma read_number:
  assumes "list_all number_char t" "t \<noteq> []" "stops r"
  shows "read_value (Suc n) (t @ r) = (if CHR ''.'' \<in> set t then Some (PFloat (decimal_value t), r)
    else map_option (\<lambda>i. (PInt i, r)) (parse_int t))"
proof -
  obtain c cs where t: "t = c # cs" using assms(2) by (cases t) auto
  then have c: "number_char c" using assms(1) by simp
  then have "c \<noteq> CHR 0x22" "c \<noteq> CHR ''[''" "c \<noteq> CHR 0x7B" by auto
  then show ?thesis using read_token[OF assms(1,3)] unfolding t by simp
qed

lemma read_plain:
  assumes "CHR 0x22 \<notin> set s"
  shows "takeWhile (\<lambda>x. x \<noteq> CHR 0x22) (s @ CHR 0x22 # r) = s" "dropWhile (\<lambda>x. x \<noteq> CHR 0x22) (s @ CHR 0x22 # r) = CHR 0x22 # r"
proof -
  have "\<And>x. x \<in> set s \<Longrightarrow> x \<noteq> CHR 0x22" using assms by auto
  then show "takeWhile (\<lambda>x. x \<noteq> CHR 0x22) (s @ CHR 0x22 # r) = s"
    "dropWhile (\<lambda>x. x \<noteq> CHR 0x22) (s @ CHR 0x22 # r) = CHR 0x22 # r"
    by (simp_all add: takeWhile_append2 dropWhile_append2)
qed

lemma json_text_head:
  assumes "doc_ok d"
  shows "\<exists>c cs. json_text d = c # cs \<and> (number_char c \<or> c \<in> {CHR 0x22, CHR ''['', CHR 0x7B})"
proof (cases d)
  case (JInt i)
  then show ?thesis using dec_int_token[of i] by (cases "dec_int i") auto
next
  case (JDec s)
  then show ?thesis using decimal_token[of s] assms by (cases s) auto
qed simp_all

text \<open>Reading a text returns the value and what follows it.\<close>

lemma read_back:
  assumes "doc_ok d" "stops r" "2 * length (json_text d @ r) < n"
  shows "read_value n (json_text d @ r) = Some (json_value d, r)"
  using assms
proof (induction d arbitrary: r n)
  case (JInt i)
  then show ?case using read_number[of "dec_int i" r] dec_int_token[of i] parse_dec_int[of i] by (cases n) simp_all
next
  case (JDec s)
  moreover have "s \<noteq> []" using decimal_token(2)[of s] JDec by auto
  ultimately show ?case using read_number[of s r] decimal_token[of s] by (cases n) simp_all
next
  case (JStr s)
  then show ?case by (cases n) (simp_all add: plain_text_def read_plain)
next
  case (JArr ds)
  have e: "read_elems n (commas (map json_text ds) @ CHR '']'' # r) = Some (map json_value ds, r)"
    if "2 * length (commas (map json_text ds) @ CHR '']'' # r) + 1 < n" for n
    using JArr.IH JArr.prems(1) that
  proof (induction ds arbitrary: n)
    case Nil
    then show ?case by (cases n) simp_all
  next
    case (Cons d ds)
    let ?r = "(if ds = [] then [] else CHR '','' # commas (map json_text ds)) @ CHR '']'' # r"
    obtain m where m: "n = Suc m" using Cons.prems(3) by (cases n) auto
    have ok: "doc_ok d" using Cons.prems(2) by simp
    have "stops ?r" by (simp add: stops_def)
    moreover have "2 * length (json_text d @ ?r) < m" using Cons.prems(3) m by simp
    ultimately have v: "read_value m (json_text d @ ?r) = Some (json_value d, ?r)"
      using Cons.prems(1)[of d] ok by simp
    obtain c cs where c: "json_text d = c # cs" "c \<noteq> CHR '']''" using json_text_head[OF ok] delimiters by fastforce
    have "read_elems m (commas (map json_text ds) @ CHR '']'' # r) = Some (map json_value ds, r)" if "ds \<noteq> []"
      using Cons.IH[of m] Cons.prems that m c(1) by simp
    then show ?case using v c by (simp add: m)
  qed
  obtain m where m: "n = Suc m" using JArr.prems(3) by (cases n) auto
  then show ?case using e[of m] JArr.prems(3) by simp
next
  case (JObj ms)
  let ?t = "\<lambda>ms. commas (map (\<lambda>(k, d). CHR 0x22 # k @ CHR 0x22 # CHR '':'' # json_text d) ms)"
  have e: "read_items n (?t ms @ CHR 0x7D # r) = Some (map (\<lambda>(k, d). (k, json_value d)) ms, r)"
    if "2 * length (?t ms @ CHR 0x7D # r) + 1 < n" "list_all (\<lambda>(k, d). plain_text k \<and> doc_ok d) ms" for n
    using JObj.IH that
  proof (induction ms arbitrary: n)
    case Nil
    then show ?case by (cases n) simp_all
  next
    case (Cons kd ms)
    obtain k d where kd: "kd = (k, d)" by fastforce
    let ?r = "(if ms = [] then [] else CHR '','' # ?t ms) @ CHR 0x7D # r"
    obtain m where m: "n = Suc m" using Cons.prems(2) by (cases n) auto
    have ok: "doc_ok d" "CHR 0x22 \<notin> set k" using Cons.prems(3) by (simp_all add: kd plain_text_def)
    have "stops ?r" by (simp add: stops_def)
    moreover have "2 * length (json_text d @ ?r) < m" using Cons.prems(2) m by (simp add: kd)
    ultimately have v: "read_value m (json_text d @ ?r) = Some (json_value d, ?r)"
      using Cons.prems(1)[of kd d] ok(1) by (simp add: kd)
    have "read_items m (?t ms @ CHR 0x7D # r) = Some (map (\<lambda>(k, d). (k, json_value d)) ms, r)" if "ms \<noteq> []"
    proof (rule Cons.IH)
      fix a b r n
      assume h: "a \<in> set ms" "b \<in> Basic_BNFs.snds a" "doc_ok b" "stops r" "2 * length (json_text b @ r) < n"
      have "a \<in> set (kd # ms)" using h(1) by simp
      from Cons.prems(1)[OF this h(2-5)] show "read_value n (json_text b @ r) = Some (json_value b, r)" .
    qed (use Cons.prems(2,3) that m in \<open>simp_all add: kd\<close>)
    then show ?case using v by (simp add: m kd read_plain[OF ok(2)])
  qed
  obtain m where m: "n = Suc m" using JObj.prems(3) by (cases n) auto
  then show ?case using e[of m] JObj.prems by simp
qed

lemma json_reader_reads: "reads_json json_reader"
proof -
  have "json_reader (utf8_ascii (json_text d)) = Some (json_value d)" if "doc_ok d" for d
    using read_back[OF that, of "[]" "2 * length (json_text d) + 1"]
    by (simp add: json_reader_def utf8_ascii_def comp_def stops_def)
  then show ?thesis by (simp add: reads_json_def)
qed

end
