(* ===== verification/Fc_Telemetry.thy ===== *)
theory Fc_Telemetry
  imports Fc_Failsafe Live_Feed Json_Reader
begin

section \<open>From the flight controller's telemetry to the backend\<close>

text \<open>
  The telemetry text of a turn of the main loop (\<open>build_tel_json\<close> of \<open>main.cpp\<close>) as the backend
  reads it: the text is that of a JSON document. The numbers are printed with six decimals; the theory proves what \<open>float\<close> makes of
  such a text, that the clock of a run stays small enough for the datagram's size limit, and that
  the backend's validator accepts the message.
\<close>

subsection \<open>Numbers with six decimals\<close>

lemma length_dec_nat: "n < 10 ^ k \<Longrightarrow> 0 < k \<Longrightarrow> length (dec_nat n) \<le> k"
proof (induction k arbitrary: n)
  case (Suc k)
  show ?case
  proof (cases "n < 10")
    case True
    then show ?thesis by (simp add: dec_nat.simps[of n])
  next
    case False
    then have "0 < k" using Suc.prems(1) by (cases k) simp_all
    moreover have "n div 10 < 10 ^ k" using Suc.prems(1) by (simp add: less_mult_imp_div_less mult.commute)
    ultimately show ?thesis using Suc.IH False by (simp add: dec_nat.simps[of n])
  qed
qed simp

lemma length_pad6: "n < 10 ^ 6 \<Longrightarrow> length (pad6 n) = 6"
  using length_dec_nat[of n 6] by (simp add: pad6_def)

lemma digits_val_append: "digits_val (xs @ ys) = digits_val xs * 10 ^ length ys + digits_val ys"
proof (induction ys rule: rev_induct)
  case (snoc c ys)
  have "digits_val (xs @ ys @ [c]) = 10 * digits_val (xs @ ys) + (case digit_val c of None \<Rightarrow> 0 | Some d \<Rightarrow> d)"
    using digits_val_snoc[of "xs @ ys" c] by simp
  then show ?case using snoc by (simp add: digits_val_snoc algebra_simps)
qed (simp add: digits_val_def)

lemma digits_val_zeros: "digits_val (replicate k (CHR ''0'')) = 0"
  by (induction k) (simp_all add: digits_val_def digit_val_def)

lemma digits_val_pad6: "digits_val (pad6 n) = n"
  by (simp add: pad6_def digits_val_append digits_val_zeros digits_val_dec)

lemma pad6_digits: "list_all is_digit (pad6 n)"
  using dec_nat_is_digit[of n] by (auto simp: pad6_def list_all_iff is_digit_def digit_val_def)

lemma parse_decimal_fixed:
  assumes "b < 10 ^ 6"
  shows "parse_decimal (dec_nat a @ CHR ''.'' # pad6 b) = Some (real (a * 10 ^ 6 + b) / 10 ^ 6)"
proof -
  have dot: "\<not> is_digit (CHR ''.'')" by (simp add: is_digit_def digit_val_def)
  have a: "list_all is_digit (dec_nat a)" using dec_nat_is_digit by simp
  have t: "takeWhile is_digit (dec_nat a @ CHR ''.'' # pad6 b) = dec_nat a"
    "dropWhile is_digit (dec_nat a @ CHR ''.'' # pad6 b) = CHR ''.'' # pad6 b"
    using a dot by (simp_all add: list_all_iff takeWhile_append2 dropWhile_append2)
  have p: "takeWhile is_digit (pad6 b) = pad6 b" "dropWhile is_digit (pad6 b) = []"
    using pad6_digits[of b] by (auto simp: list_all_iff takeWhile_eq_all_conv dropWhile_eq_Nil_conv)
  have "dec_nat a \<noteq> []" using dec_nat_Cons[of a] by auto
  then show ?thesis using length_pad6[OF assms]
    by (simp add: parse_decimal_def t p parse_exponent_def scale10_def digits_val_append digits_val_dec digits_val_pad6)
qed

definition rounded6 :: "real \<Rightarrow> real" where
  "rounded6 r = of_int (rne (r * 10 ^ 6)) / 10 ^ 6"

lemma no_underscore: "CHR ''_'' \<notin> set s \<Longrightarrow> drop_underscores b s = Some s"
  by (induction s arbitrary: b) auto

lemma digit_lower: "is_digit c \<Longrightarrow> lower_char c = c"
  by (auto simp: is_digit_def digit_val_def lower_char_def Let_def split: if_splits)

lemma parse_float_fixed: "parse_float (fixed6_real r) = Some (f64 (rounded6 r))"
proof -
  let ?n = "nat (rne (\<bar>r\<bar> * 10 ^ 6))"
  let ?u = "dec_nat (?n div 10 ^ 6) @ CHR ''.'' # pad6 (?n mod 10 ^ 6)"
  have e: "fixed6_real r = (if r < 0 then ''-'' else []) @ ?u" by (simp add: fixed6_real_def Let_def)
  have d: "list_all is_digit (dec_nat k)" "list_all is_digit (pad6 k)" for k
    using dec_nat_is_digit pad6_digits by simp_all
  have ch: "c \<in> set (fixed6_real r) \<Longrightarrow> is_digit c \<or> c = CHR ''-'' \<or> c = CHR ''.''" for c
    using d unfolding e by (auto simp: list_all_iff split: if_splits)
  have "list_all (\<lambda>c. \<not> is_space c) (fixed6_real r)"
    using ch digit_no_space by (fastforce simp: list_all_iff is_digit_def is_space_def)
  then have st: "strip (fixed6_real r) = fixed6_real r" by (rule strip_no_space)
  have "CHR ''_'' \<notin> set (fixed6_real r)" using ch by (force simp: is_digit_def digit_val_def)
  then have du: "drop_underscores False (strip (fixed6_real r)) = Some (fixed6_real r)"
    unfolding st by (rule no_underscore)
  obtain c cs where c: "?u = c # cs" "is_digit c" using dec_nat_Cons[of "?n div 10 ^ 6"] by (auto simp: is_digit_def)
  have "c \<noteq> CHR ''-''" "c \<noteq> CHR ''+''" using c(2) digit_no_sign by (auto simp: is_digit_def)
  then have sg: "split_sign (fixed6_real r) = (r < 0, ?u)" unfolding e c(1) by (simp add: split_sign_def)
  have "hd (lower ?u) = c" using c digit_lower by (simp add: lower_def)
  then have w: "lower ?u \<noteq> ''inf''" "lower ?u \<noteq> ''infinity''" "lower ?u \<noteq> ''nan''"
    using c(2) by (auto simp: is_digit_def digit_val_def)
  have pd: "parse_decimal ?u = Some (real ?n / 10 ^ 6)"
    using parse_decimal_fixed[of "?n mod 10 ^ 6" "?n div 10 ^ 6"] by simp
  have "0 \<le> rne (\<bar>r\<bar> * 10 ^ 6)" using rne_mono[of 0 "\<bar>r\<bar> * 10 ^ 6"] rne_of_int[of 0] by simp
  define N where "N = rne (\<bar>r\<bar> * 10 ^ 6)"
  have n: "real ?n = of_int N" using \<open>0 \<le> rne (\<bar>r\<bar> * 10 ^ 6)\<close> unfolding N_def by simp
  have s: "rne (r * 10 ^ 6) = (if r < 0 then - N else N)"
    using rne_minus[of "- (r * 10 ^ 6)"] unfolding N_def by (cases "r < 0") simp_all
  have "(if r < 0 then - (real ?n / 10 ^ 6) else real ?n / 10 ^ 6) = rounded6 r"
    unfolding rounded6_def n s by simp
  then show ?thesis unfolding parse_float_def du option.case sg Let_def prod.case
    using w pd by (simp del: power_numeral)
qed

lemma rounded6_range:
  assumes "of_int a \<le> r" "r \<le> of_int b"
  shows "of_int a \<le> rounded6 r" "rounded6 r \<le> of_int b"
proof -
  have "rne (of_int (a * 10 ^ 6)) \<le> rne (r * 10 ^ 6)" using assms(1) by (intro rne_mono) simp
  then have "a * 10 ^ 6 \<le> rne (r * 10 ^ 6)" by (simp only: rne_of_int)
  then have "of_int (a * 10 ^ 6) \<le> (of_int (rne (r * 10 ^ 6)) :: real)" by (simp only: of_int_le_iff)
  then show "of_int a \<le> rounded6 r" by (simp add: rounded6_def)
  have "rne (r * 10 ^ 6) \<le> rne (of_int (b * 10 ^ 6))" using assms(2) by (intro rne_mono) simp
  then have "rne (r * 10 ^ 6) \<le> b * 10 ^ 6" by (simp only: rne_of_int)
  then have "(of_int (rne (r * 10 ^ 6)) :: real) \<le> of_int (b * 10 ^ 6)" by (simp only: of_int_le_iff)
  then show "rounded6 r \<le> of_int b" by (simp add: rounded6_def)
qed

lemma fixed6_length:
  assumes "\<bar>r\<bar> \<le> 10 ^ k"
  shows "length (fixed6_real r) \<le> k + 9"
proof -
  let ?n = "nat (rne (\<bar>r\<bar> * 10 ^ 6))"
  have "rne (\<bar>r\<bar> * 10 ^ 6) \<le> rne (of_int (10 ^ k * 10 ^ 6))" using assms by (intro rne_mono) simp
  then have "rne (\<bar>r\<bar> * 10 ^ 6) \<le> 10 ^ k * 10 ^ 6" by (simp only: rne_of_int)
  then have "?n \<le> 10 ^ k * 10 ^ 6" by (simp add: nat_le_iff)
  then have "?n div 10 ^ 6 \<le> 10 ^ k" using div_le_mono[of ?n "10 ^ k * 10 ^ 6" "10 ^ 6"] by simp
  then have "?n div 10 ^ 6 < 10 ^ Suc k" by (rule le_less_trans) simp
  then have "length (dec_nat (?n div 10 ^ 6)) \<le> Suc k" by (rule length_dec_nat) simp
  moreover have "length (fixed6_real r) \<le> 1 + (length (dec_nat (?n div 10 ^ 6)) + (1 + length (pad6 (?n mod 10 ^ 6))))"
    unfolding fixed6_real_def Let_def length_append list.size by simp
  ultimately show ?thesis using length_pad6[of "?n mod 10 ^ 6"] by simp
qed

subsection \<open>The clock and the distances\<close>

definition tel_clock :: "fc_state \<Rightarrow> pyfloat \<times> pyfloat \<times> pyfloat \<times> pyfloat" where
  "tel_clock s = (td_timestamp_s (telemetryData s), td_distFront_m (telemetryData s),
     td_distBack_m (telemetryData s), td_distBottom_m (telemetryData s))"

lemma tel_clock_setters [simp]:
  "tel_clock (on_command f s) = tel_clock s" "tel_clock (setArm b s) = tel_clock s"
  "tel_clock (setAngleMode b s) = tel_clock s" "tel_clock (setAltHold b s) = tel_clock s"
  "tel_clock (set_throttle thr s) = tel_clock s" "tel_clock (centre_sticks s) = tel_clock s"
  "tel_clock (set_tracking_state ts s) = tel_clock s" "tel_clock (set_td_confidence c s) = tel_clock s"
  "tel_clock (setControlMode m s) = tel_clock s" "tel_clock (setManualSetpoints cmd s) = tel_clock s"
  "tel_clock (updateTracking msg s) = tel_clock s"
  "tel_clock (commandYawRate v s) = tel_clock s" "tel_clock (commandForward v s) = tel_clock s"
  "tel_clock (commandAltHoldDelta v s) = tel_clock s" "tel_clock (clampCommandChannels s) = tel_clock s"
  "tel_clock (finish_step s) = tel_clock s"
  by (simp_all add: tel_clock_def setControlMode_def setManualSetpoints_def clampCommandChannels_def updateTracking_def
      commandYawRate_def commandForward_def commandAltHoldDelta_def finish_step_def Let_def fc_setters)

lemma tel_clock_modes [simp]:
  "tel_clock (runLandSafelyMode d s) = tel_clock s" "tel_clock (runTakeoffMode d s) = tel_clock s"
  "tel_clock (runTrackingMode d s) = tel_clock s" "tel_clock (runManualMode s) = tel_clock s"
proof -
  have l: "tel_clock (land_start s) = tel_clock s" "tel_clock (takeoff_start s) = tel_clock s"
    "tel_clock (s\<lparr> landTimer_s := x \<rparr>) = tel_clock s" "tel_clock (s\<lparr> takeoffTimer_s := x \<rparr>) = tel_clock s" for s x
    by (simp_all add: tel_clock_def land_start_def takeoff_start_def)
  show la: "tel_clock (runLandSafelyMode d s) = tel_clock s" for s by (simp add: runLandSafelyMode_def Let_def l)
  show "tel_clock (runTakeoffMode d s) = tel_clock s" by (simp add: runTakeoffMode_def Let_def l la)
  have "tel_clock (runFollowTargetLogic s) = tel_clock s" for s by (simp add: runFollowTargetLogic_def Let_def)
  then show "tel_clock (runTrackingMode d s) = tel_clock s"
    by (simp add: runTrackingMode_def la runHoverSearchState_def runHoverStillState_def runFollowTargetState_def Let_def
        split: tracking_state.split)
  show "tel_clock (runManualMode s) = tel_clock s" by (simp add: runManualMode_def)
qed

lemma tel_clock_tick: "tel_clock (fc_tick s dt) = apfst (\<lambda>t. fadd t (control_dt dt)) (tel_clock s)"
proof -
  have "tel_clock (run_mode d s) = tel_clock s" for d s by (simp add: run_mode_def split: control_mode.split)
  moreover have "tel_clock (begin_step d s) = apfst (\<lambda>t. fadd t d) (tel_clock s)" for d
    by (simp add: tel_clock_def begin_step_def on_telemetry_def)
  ultimately show ?thesis by (simp add: fc_tick_def updateTimeStep_def Let_def)
qed

lemma tel_clock_main: "tel_clock (fm_controller (main_step m i)) = apfst (\<lambda>t. fadd t (control_dt (ti_dt i))) (tel_clock (fm_controller m))"
proof -
  have "tel_clock (apply_command c sink s) = tel_clock s" for c sink s
    by (simp add: apply_command_def apply_control_mode_safely_def apply_setpoint_overrides_def apply_tracking_update_def
        Let_def split: option.split)
  then have "tel_clock (fm_controller (command_step i m)) = tel_clock (fm_controller m)"
    by (simp add: command_step_def split: option.split)
  then have "tel_clock (fm_controller (control_step i m)) = tel_clock (fm_controller m)"
    by (simp add: control_step_def sink_step_def failsafe_step_def)
  then show ?thesis by (simp add: main_step_parts(1) tel_clock_tick)
qed

text \<open>The clock never runs ahead of a quarter of a second per turn.\<close>

lemma clock_below:
  assumes "n < 2 ^ 50" "tel_clock s = (Fin x, d)" "0 \<le> x" "x \<le> real n / 4"
  obtains y where "apfst (\<lambda>t. fadd t (control_dt dt)) (tel_clock s) = (Fin y, d)" "0 \<le> y" "y \<le> real (Suc n) / 4"
proof -
  obtain z where z: "control_dt dt = Fin z" "0 \<le> z" "z \<le> 1 / 4" by (rule control_dt_range)
  have r: "rnd (real (Suc n) / 4) = real (Suc n) / 4" using assms(1) by (intro rnd_fraction[of "int (Suc n)" 2]) simp_all
  have l: "x + z \<le> real (Suc n) / 4" using assms(4) z(3) by simp
  have y: "0 \<le> rnd (x + z)" "rnd (x + z) \<le> real (Suc n) / 4"
    using assms(3) z(2) rnd_nonneg[of "x + z"] rnd_le_fix[OF l r] by simp_all
  have "real n \<le> 2 ^ 50" using assms(1) of_nat_le_iff[of n "2 ^ 50", where 'a = real] by simp
  then have "rnd (x + z) \<le> 2 ^ 60" using y(2) by simp
  then have "f64 (x + z) = Fin (rnd (x + z))" using y(1) big_bound[of "\<bar>rnd (x + z)\<bar>"] by (intro f64_small) simp
  then show thesis using that[of "rnd (x + z)"] y z(1) assms(2) by simp
qed

lemma main_clock:
  assumes "controller_from_env e = Some s0" "length is \<le> 2 ^ 50"
  obtains x where "tel_clock (fm_controller (run main_step (new_fc_main s0) is)) = (Fin x, Fin 0, Fin 0, Fin 0)"
    "0 \<le> x" "x \<le> real (length is) / 4"
proof -
  have "tel_clock s0 = tel_clock new_fc_state"
    using assms(1) by (auto simp: controller_from_env_def Let_def setHoverThrottle_def tel_clock_def split: option.splits if_splits)
      (auto simp: setControlMode_def Let_def fc_setters)
  also have "\<dots> = (Fin 0, Fin 0, Fin 0, Fin 0)"
    unfolding new_fc_state_def tel_clock_setters by (simp add: tel_clock_def new_telemetry_data_def)
  finally have s0: "tel_clock s0 = (Fin 0, Fin 0, Fin 0, Fin 0)" .
  have "\<exists>x. tel_clock (fm_controller (run main_step (new_fc_main s0) is)) = (Fin x, Fin 0, Fin 0, Fin 0) \<and>
    0 \<le> x \<and> x \<le> real (length is) / 4" using assms(2)
  proof (induction "is" rule: rev_induct)
    case Nil
    then show ?case using s0 by (simp add: new_fc_main_def)
  next
    case (snoc i "is")
    let ?m = "run main_step (new_fc_main s0) is"
    obtain x where x: "tel_clock (fm_controller ?m) = (Fin x, Fin 0, Fin 0, Fin 0)" "0 \<le> x" "x \<le> real (length is) / 4"
      using snoc by auto
    have "length is < 2 ^ 50" using snoc.prems by simp
    from clock_below[OF this x, of "ti_dt i"] show ?case by (simp add: run_append tel_clock_main) blast
  qed
  then show thesis using that by blast
qed

subsection \<open>What the backend reads\<close>

definition seen6 :: "pyfloat \<Rightarrow> pyfloat" where
  \<comment> \<open>\<open>float(text)\<close> of the printed number\<close>
  "seen6 x = decimal_value (fixed6 x)"

definition tel_members :: "nat \<Rightarrow> telemetry_data \<Rightarrow> tracking_message \<Rightarrow> pyfloat \<Rightarrow> pyfloat \<Rightarrow> pydict" where
  \<comment> \<open>the members of the JSON object, each number as Python reads its text\<close>
  "tel_members sq t m age ratio = (let (x, y, w, h, c) = tel_target t m in
     [(''type'', PStr ''TEL''), (''seq'', PInt (int sq)), (''timestamp_s'', PFloat (seen6 (td_timestamp_s t))),
      (''control_mode'', PInt (mode_number (td_control_mode t))), (''cmd_age_s'', PFloat (seen6 age)),
      (''msp_tx_ratio'', PFloat (seen6 ratio)), (''tracking_state'', PInt (state_number (td_tracking_state t))),
      (''distFront_m'', PFloat (seen6 (td_distFront_m t))), (''distBack_m'', PFloat (seen6 (td_distBack_m t))),
      (''distBottom_m'', PFloat (seen6 (td_distBottom_m t))), (''target_x'', PFloat (seen6 x)),
      (''target_y'', PFloat (seen6 y)), (''bound_w'', PFloat (seen6 w)), (''bound_h'', PFloat (seen6 h)),
      (''confidence'', PFloat (seen6 c))])"

text \<open>The text is the text of a JSON document, and the members are the value of that document.\<close>

definition tel_doc :: "nat \<Rightarrow> telemetry_data \<Rightarrow> tracking_message \<Rightarrow> pyfloat \<Rightarrow> pyfloat \<Rightarrow> json_doc" where
  \<comment> \<open>specification: the document the message specification asks for, numbers with six decimals\<close>
  "tel_doc sq t m age ratio = (let (x, y, w, h, c) = tel_target t m in
     JObj [(''type'', JStr ''TEL''), (''seq'', JInt (int sq)), (''timestamp_s'', JDec (fixed6 (td_timestamp_s t))),
      (''control_mode'', JInt (mode_number (td_control_mode t))), (''cmd_age_s'', JDec (fixed6 age)),
      (''msp_tx_ratio'', JDec (fixed6 ratio)), (''tracking_state'', JInt (state_number (td_tracking_state t))),
      (''distFront_m'', JDec (fixed6 (td_distFront_m t))), (''distBack_m'', JDec (fixed6 (td_distBack_m t))),
      (''distBottom_m'', JDec (fixed6 (td_distBottom_m t))), (''target_x'', JDec (fixed6 x)),
      (''target_y'', JDec (fixed6 y)), (''bound_w'', JDec (fixed6 w)), (''bound_h'', JDec (fixed6 h)),
      (''confidence'', JDec (fixed6 c))])"

lemma tel_doc_text: "build_tel_json sq t m age ratio = json_text (tel_doc sq t m age ratio)"
  by (cases "tel_target t m") (simp add: build_tel_json_def tel_doc_def tel_item_def dec_int_def)

lemma tel_doc_value: "json_value (tel_doc sq t m age ratio) = PDict (tel_members sq t m age ratio)"
  by (cases "tel_target t m") (simp add: tel_members_def tel_doc_def seen6_def)

lemma dec_nat_no_zero: "0 < n \<Longrightarrow> hd (dec_nat n) \<noteq> CHR ''0''"
proof (induction n rule: dec_nat.induct)
  case (1 n)
  have d: "digit_char n \<noteq> CHR ''0''" if "0 < n" "n < 10" for n :: nat
  proof
    assume "digit_char n = CHR ''0''"
    then have "digit_val (digit_char n) = Some 0" by (simp add: digit_val_def)
    then show False using digit_val_char[OF that(2)] that(1) by simp
  qed
  show ?case
  proof (cases "n < 10")
    case True
    then show ?thesis using d 1(2) by (simp add: dec_nat.simps[of n])
  next
    case False
    moreover have "dec_nat (n div 10) \<noteq> []" using dec_nat_Cons[of "n div 10"] by auto
    ultimately show ?thesis using 1(1) by (simp add: dec_nat.simps[of n])
  qed
qed

lemma fixed6_decimal: "decimal_text (fixed6_real r)"
proof -
  let ?n = "nat (rne (\<bar>r\<bar> * 10 ^ 6))"
  let ?a = "dec_nat (?n div 10 ^ 6)" and ?b = "pad6 (?n mod 10 ^ 6)"
  have dot: "\<not> is_digit (CHR ''.'')" by (simp add: is_digit_def digit_val_def)
  have a: "list_all is_digit ?a" using dec_nat_is_digit by simp
  have t: "takeWhile is_digit (?a @ CHR ''.'' # ?b) = ?a" "dropWhile is_digit (?a @ CHR ''.'' # ?b) = CHR ''.'' # ?b"
    using a dot by (simp_all add: list_all_iff takeWhile_append2 dropWhile_append2)
  have z: "length ?a = 1 \<or> hd ?a \<noteq> CHR ''0''"
    using dec_nat_no_zero[of "?n div 10 ^ 6"] by (cases "?n div 10 ^ 6 = 0") (simp_all add: dec_nat.simps[of 0])
  obtain c cs where c: "?a = c # cs" "digit_val c \<noteq> None" using dec_nat_Cons by blast
  have m: "c \<noteq> CHR ''-''" using digit_no_sign[OF c(2)] by simp
  have e: "fixed6_real r = (if r < 0 then ''-'' else []) @ ?a @ CHR ''.'' # ?b" by (simp add: fixed6_real_def Let_def)
  have u: "(case fixed6_real r of c # cs \<Rightarrow> if c = CHR ''-'' then cs else fixed6_real r | [] \<Rightarrow> []) = ?a @ CHR ''.'' # ?b"
    unfolding e c(1) using m by simp
  have "?b \<noteq> []" using length_pad6[of "?n mod 10 ^ 6"] by fastforce
  then show ?thesis unfolding decimal_text_def u Let_def t using z c(1) pad6_digits by simp
qed

lemma doc_decimal: "isfinite x \<Longrightarrow> doc_ok (JDec (fixed6 x))"
  by (cases x) (simp_all add: fixed6_decimal)

lemma seen6_unit:
  assumes "of_int a \<le> r" "r \<le> of_int b" "\<bar>a\<bar> \<le> 1" "\<bar>b\<bar> \<le> 1"
  shows "between (Fin (of_int a)) (Fin (of_int b)) (seen6 (Fin r))"
proof -
  note q = rounded6_range[OF assms(1,2)]
  have ab: "rnd (of_int a) = of_int a" "rnd (of_int b) = of_int b" using assms(3,4) by (auto intro!: rnd_of_int)
  have l: "of_int a \<le> rnd (rounded6 r)" "rnd (rounded6 r) \<le> of_int b"
    using rnd_ge_fix[OF q(1) ab(1)] rnd_le_fix[OF q(2) ab(2)] by simp_all
  have "- 1 \<le> real_of_int a" "real_of_int b \<le> 1" using assms(3,4) by simp_all
  then have "\<bar>rnd (rounded6 r)\<bar> \<le> 2 ^ 60" using l by simp
  then have "f64 (rounded6 r) = Fin (rnd (rounded6 r))" using big_bound by (intro f64_small) blast
  then show ?thesis using l by (simp add: seen6_def decimal_value_def parse_float_fixed between_def)
qed

lemma tel_target_range:
  assumes "tel_target t m = (x, y, w, h, c)"
  shows "between (Fin (- 1)) (Fin 1) (seen6 x)" "between (Fin (- 1)) (Fin 1) (seen6 y)"
    "between (Fin 0) (Fin 1) (seen6 w)" "between (Fin 0) (Fin 1) (seen6 h)" "between (Fin 0) (Fin 1) (seen6 c)"
    and "\<exists>r. x = Fin r \<and> \<bar>r\<bar> \<le> 10 ^ 0" "\<exists>r. y = Fin r \<and> \<bar>r\<bar> \<le> 10 ^ 0" "\<exists>r. w = Fin r \<and> \<bar>r\<bar> \<le> 10 ^ 0"
    "\<exists>r. h = Fin r \<and> \<bar>r\<bar> \<le> 10 ^ 0" "\<exists>r. c = Fin r \<and> \<bar>r\<bar> \<le> 10 ^ 0"
proof -
  have co: "\<exists>r. v = Fin r \<and> - 1 \<le> r \<and> r \<le> 1" if "v = clamp_target_coord u \<or> v = Fin 0" for u v
    using that by (auto intro: clamp_target_coord_range[of u])
  have un: "\<exists>r. v = Fin r \<and> 0 \<le> r \<and> r \<le> 1" if "v = clamp_unit u \<or> v = Fin 0" for u v
    using that by (auto intro: clamp_unit_range[of u])
  have sx: "\<exists>r. x = Fin r \<and> - 1 \<le> r \<and> r \<le> 1" "\<exists>r. y = Fin r \<and> - 1 \<le> r \<and> r \<le> 1"
    using co[of x "tm_target_x m"] co[of y "tm_target_y m"] assms by (auto simp: tel_target_def split: if_splits)
  have su: "\<exists>r. w = Fin r \<and> 0 \<le> r \<and> r \<le> 1" "\<exists>r. h = Fin r \<and> 0 \<le> r \<and> r \<le> 1" "\<exists>r. c = Fin r \<and> 0 \<le> r \<and> r \<le> 1"
    using un[of w "tm_bound_w m"] un[of h "tm_bound_h m"] un[of c "tm_confidence m"] assms
    by (auto simp: tel_target_def split: if_splits)
  show "between (Fin (- 1)) (Fin 1) (seen6 x)" "between (Fin (- 1)) (Fin 1) (seen6 y)"
    using sx seen6_unit[of "- 1" _ 1] by auto
  show "between (Fin 0) (Fin 1) (seen6 w)" "between (Fin 0) (Fin 1) (seen6 h)" "between (Fin 0) (Fin 1) (seen6 c)"
    using su seen6_unit[of 0 _ 1] by auto
  show "\<exists>r. x = Fin r \<and> \<bar>r\<bar> \<le> 10 ^ 0" "\<exists>r. y = Fin r \<and> \<bar>r\<bar> \<le> 10 ^ 0" "\<exists>r. w = Fin r \<and> \<bar>r\<bar> \<le> 10 ^ 0"
    "\<exists>r. h = Fin r \<and> \<bar>r\<bar> \<le> 10 ^ 0" "\<exists>r. c = Fin r \<and> \<bar>r\<bar> \<le> 10 ^ 0"
    using sx su by force+
qed

lemma members_valid:
  "validate_tel_message (PDict (tel_members sq t m age ratio)) = Inr (case tel_target t m of (x, y, w, h, c) \<Rightarrow>
     tel_message (int sq) (seen6 (td_timestamp_s t)) (mode_number (td_control_mode t)) (state_number (td_tracking_state t))
       (seen6 (td_distFront_m t)) (seen6 (td_distBack_m t)) (seen6 (td_distBottom_m t))
       (seen6 x) (seen6 y) (seen6 w) (seen6 h) (seen6 c))"
proof -
  obtain x y w h c where g: "tel_target t m = (x, y, w, h, c)" by (cases "tel_target t m") 
  have "mode_number k \<in> set CONTROL_MODES" "state_number j \<in> set TRACKING_STATES" for k j
    by (cases k; simp add: mode_number_def CONTROL_MODES_def) (cases j; simp add: state_number_def TRACKING_STATES_def)
  then show ?thesis using tel_target_range(1-5)[OF g]
    by (simp add: tel_members_def g validate_tel_message_def validate_tel_fields_def missing_fields_Nil
        TEL_REQUIRED_FIELDS_def require_int_def require_float_def ensure_in_range_def between_def)
qed

lemma finite_length:
  assumes "x = Fin r" "\<bar>r\<bar> \<le> 10 ^ k"
  shows "length (fixed6 x) \<le> k + 9"
  using assms fixed6_length by simp

lemma tel_json_length:
  assumes "sq < 2 ^ 64" "td_timestamp_s t = Fin a" "\<bar>a\<bar> \<le> 10 ^ 15" "age = Fin b" "\<bar>b\<bar> \<le> 10 ^ 15"
    "ratio = Fin q" "\<bar>q\<bar> \<le> 10 ^ 0"
    and "td_distFront_m t = Fin 0" "td_distBack_m t = Fin 0" "td_distBottom_m t = Fin 0"
  shows "length (build_tel_json sq t m age ratio) \<le> 1024" "build_tel_json sq t m age ratio \<noteq> []"
proof -
  obtain x y w h c where g: "tel_target t m = (x, y, w, h, c)" by (cases "tel_target t m")
  have "length (dec_nat sq) \<le> 20" using assms(1) by (intro length_dec_nat) simp_all
  moreover have "length (dec_int (mode_number k)) = 1" "length (dec_int (state_number j)) = 1" for k j
    by (cases k; simp add: mode_number_def dec_int_def dec_nat.simps) (cases j; simp add: state_number_def dec_int_def dec_nat.simps)
  moreover have "length (fixed6 (Fin 0)) \<le> 9" using fixed6_length[of 0 0] by simp
  moreover have "length (fixed6 (td_timestamp_s t)) \<le> 24" "length (fixed6 age) \<le> 24" "length (fixed6 ratio) \<le> 9"
    using finite_length[OF assms(2,3)] finite_length[OF assms(4,5)] finite_length[OF assms(6,7)] by simp_all
  moreover have "length (fixed6 x) \<le> 9" "length (fixed6 y) \<le> 9" "length (fixed6 w) \<le> 9" "length (fixed6 h) \<le> 9"
    "length (fixed6 c) \<le> 9" using tel_target_range(6-10)[OF g] finite_length[where k = 0] by auto
  ultimately show "length (build_tel_json sq t m age ratio) \<le> 1024"
    unfolding build_tel_json_def g assms(8-10) Let_def prod.case tel_item_def by simp
  show "build_tel_json sq t m age ratio \<noteq> []" by (simp add: build_tel_json_def g)
qed

definition turn_json :: "fc_main \<Rightarrow> tick_input \<Rightarrow> string" where
  \<comment> \<open>the telemetry text of a turn\<close>
  "turn_json m i = (let s = fm_controller (main_step m i) in
     build_tel_json (unat (fm_tel_seq m)) (telemetryData s) (lastTrackingMsg s) (ti_cmd_age_s i) (rs_tx_ratio (ti_sink i)))"

definition turn_doc :: "fc_main \<Rightarrow> tick_input \<Rightarrow> json_doc" where
  \<comment> \<open>specification: the telemetry document of a turn\<close>
  "turn_doc m i = (let s = fm_controller (main_step m i) in
     tel_doc (unat (fm_tel_seq m)) (telemetryData s) (lastTrackingMsg s) (ti_cmd_age_s i) (rs_tx_ratio (ti_sink i)))"

definition turn_members :: "fc_main \<Rightarrow> tick_input \<Rightarrow> pydict" where
  "turn_members m i = (let s = fm_controller (main_step m i) in
     tel_members (unat (fm_tel_seq m)) (telemetryData s) (lastTrackingMsg s) (ti_cmd_age_s i) (rs_tx_ratio (ti_sink i)))"

lemma turn_doc_text: "turn_json m i = json_text (turn_doc m i)" "json_value (turn_doc m i) = PDict (turn_members m i)"
  by (simp_all add: turn_json_def turn_doc_def turn_members_def Let_def tel_doc_text tel_doc_value)

lemma main_step_wire: "fm_tel_wire (main_step m i) = snd (send_json (turn_json m i) (fm_tel_wire m))"
  by (simp add: turn_json_def main_step_def main_tick_def Let_def split_beta control_step_def frame_simps)

lemma turn_json_sent:
  assumes "controller_from_env e = Some s0" "m = run main_step (new_fc_main s0) past" "length past < 2 ^ 50"
    and "between (Fin 0) (Fin (10 ^ 15)) (ti_cmd_age_s i)" "between (Fin 0) (Fin 1) (rs_tx_ratio (ti_sink i))"
  shows "fm_tel_wire (main_step m i) = fm_tel_wire m @ [turn_json m i]" "length (turn_json m i) \<le> 1024"
    "doc_ok (turn_doc m i)"
proof -
  let ?s = "fm_controller (main_step m i)"
  obtain x where x: "tel_clock (fm_controller (run main_step (new_fc_main s0) (past @ [i]))) = (Fin x, Fin 0, Fin 0, Fin 0)"
    "0 \<le> x" "x \<le> real (length (past @ [i])) / 4" using main_clock[OF assms(1), of "past @ [i]"] assms(3) by auto
  have "length (past @ [i]) \<le> 2 ^ 50" using assms(3) by simp
  then have "real (length (past @ [i])) \<le> 2 ^ 50" using of_nat_le_iff[of "length (past @ [i])" "2 ^ 50", where 'a = real] by simp
  then have b: "\<bar>x\<bar> \<le> 10 ^ 15" using x(2,3) by simp
  have t: "td_timestamp_s (telemetryData ?s) = Fin x" "td_distFront_m (telemetryData ?s) = Fin 0"
    "td_distBack_m (telemetryData ?s) = Fin 0" "td_distBottom_m (telemetryData ?s) = Fin 0"
    using x(1) by (simp_all add: run_append assms(2) tel_clock_def)
  obtain a where a: "ti_cmd_age_s i = Fin a" "\<bar>a\<bar> \<le> 10 ^ 15"
    using assms(4) by (cases "ti_cmd_age_s i") (simp_all add: between_def)
  obtain q where q: "rs_tx_ratio (ti_sink i) = Fin q" "\<bar>q\<bar> \<le> 10 ^ 0"
    using assms(5) by (cases "rs_tx_ratio (ti_sink i)") (simp_all add: between_def)
  have "unat (fm_tel_seq m) < 2 ^ 64" using unsigned_less[of "fm_tel_seq m"] by simp
  note l = tel_json_length[OF this t(1) b a q t(2-4), of "lastTrackingMsg ?s"]
  show le: "length (turn_json m i) \<le> 1024" using l(1) by (simp add: turn_json_def Let_def)
  then have "int (length (turn_json m i)) \<le> 1024" by simp
  then show "fm_tel_wire (main_step m i) = fm_tel_wire m @ [turn_json m i]"
    using l(2) unfolding main_step_wire by (simp add: send_json_def UDP_MAX_TEL_BYTES_def turn_json_def Let_def)
  obtain x' y w h c where g: "tel_target (telemetryData ?s) (lastTrackingMsg ?s) = (x', y, w, h, c)"
    by (cases "tel_target (telemetryData ?s) (lastTrackingMsg ?s)")
  have "isfinite x'" "isfinite y" "isfinite w" "isfinite h" "isfinite c" using tel_target_range(6-10)[OF g] by auto
  then show "doc_ok (turn_doc m i)" using t a(1) q(1)
    by (simp add: turn_doc_def tel_doc_def g plain_text_def doc_decimal Let_def del: fixed6.simps doc_ok.simps(2))
qed

lemma tel_message_fields:
  "map fst (tel_message q t cm st df db dn tx ty bw bh c) = TEL_REQUIRED_FIELDS"
  by (simp add: tel_message_def TEL_REQUIRED_FIELDS_def)

text \<open>The accepted message has exactly the required members of the document, unchanged.\<close>

lemma members_valid_fields:
  assumes "validate_tel_message (PDict (tel_members sq t m age ratio)) = Inr msg"
  shows "map fst msg = TEL_REQUIRED_FIELDS"
    "k \<in> set TEL_REQUIRED_FIELDS \<Longrightarrow> dget msg k = dget (tel_members sq t m age ratio) k"
proof -
  obtain x y w h c where g: "tel_target t m = (x, y, w, h, c)" by (cases "tel_target t m")
  have e: "msg = tel_message (int sq) (seen6 (td_timestamp_s t)) (mode_number (td_control_mode t))
     (state_number (td_tracking_state t)) (seen6 (td_distFront_m t)) (seen6 (td_distBack_m t)) (seen6 (td_distBottom_m t))
     (seen6 x) (seen6 y) (seen6 w) (seen6 h) (seen6 c)"
    using assms unfolding members_valid g by simp
  show "map fst msg = TEL_REQUIRED_FIELDS" unfolding e by (rule tel_message_fields)
  show "k \<in> set TEL_REQUIRED_FIELDS \<Longrightarrow> dget msg k = dget (tel_members sq t m age ratio) k"
    unfolding e TEL_REQUIRED_FIELDS_def by (auto simp: tel_message_def tel_members_def g)
qed

text \<open>
  C19: The backend accepts every telemetry message of the flight controller. After any run of up
  to \<open>2^50\<close> turns, if the command age is between 0 and \<open>10^15\<close> s and the transmit ratio is in
  \<open>[0, 1]\<close>, the text that the turn assembles by hand is sent, fits the size limit of both sides and
  is the text of a JSON document; and with any reader that turns the text of a JSON document into
  its value, the backend stores a message whose required members are those of the document, among
  them the turn's sequence number, control mode and tracking state.
\<close>

theorem fc_telemetry_stored:
  assumes "controller_from_env e = Some s0" "m = run main_step (new_fc_main s0) past" "length past < 2 ^ 50"
    and "between (Fin 0) (Fin (10 ^ 15)) (ti_cmd_age_s i)" "between (Fin 0) (Fin 1) (rs_tx_ratio (ti_sink i))"
    and "reads_json loads"
  shows "fm_tel_wire (main_step m i) = fm_tel_wire m @ [turn_json m i] \<and>
    (\<exists>st' msg. tel_process_datagram loads UDP_MAX_TEL_BYTES li clk (utf8_ascii (turn_json m i)) rx st = (Inr True, st') \<and>
       latest_tel (ist st') = Some msg \<and> map fst msg = TEL_REQUIRED_FIELDS \<and>
       list_all (\<lambda>k. dget msg k = dget (turn_members m i) k) TEL_REQUIRED_FIELDS \<and>
       dget msg ''seq'' = Some (PInt (uint (fm_tel_seq m))) \<and>
       dget msg ''control_mode'' = Some (PInt (mode_number (controlMode (fm_controller (main_step m i))))) \<and>
       dget msg ''tracking_state'' =
         Some (PInt (state_number (td_tracking_state (telemetryData (fm_controller (main_step m i)))))))"
proof -
  let ?s = "fm_controller (main_step m i)"
  let ?t = "telemetryData ?s"
  note js = turn_json_sent[OF assms(1-5)]
  have rd: "loads (utf8_ascii (turn_json m i)) = Some (PDict (turn_members m i))"
    using reads_jsonD[OF assms(6) js(3)] by (simp add: turn_doc_text)
  have "main_ok (main_step m i)" unfolding assms(2) by (intro main_ok_step main_ok_run main_ok_start[OF assms(1)])
  then have shown: "td_control_mode ?t = controlMode ?s" by (simp add: main_ok_def mode_shown_def)
  have len: "int (length (utf8_ascii (turn_json m i))) \<le> UDP_MAX_TEL_BYTES"
    using js(2) by (simp add: utf8_ascii_def UDP_MAX_TEL_BYTES_def)
  obtain msg where v: "validate_tel_message (PDict (turn_members m i)) = Inr msg"
    unfolding turn_members_def Let_def members_valid by blast
  note f = members_valid_fields[OF v[unfolded turn_members_def Let_def], folded turn_members_def[unfolded Let_def]]
  have k: "list_all (\<lambda>k. dget msg k = dget (turn_members m i) k) TEL_REQUIRED_FIELDS"
    using f(2) by (simp add: list_all_iff)
  have "dget (turn_members m i) ''seq'' = Some (PInt (uint (fm_tel_seq m)))"
    "dget (turn_members m i) ''control_mode'' = Some (PInt (mode_number (controlMode ?s)))"
    "dget (turn_members m i) ''tracking_state'' = Some (PInt (state_number (td_tracking_state ?t)))"
    by (simp_all add: turn_members_def tel_members_def shown Let_def split_beta)
  moreover have "{''seq'', ''control_mode'', ''tracking_state''} \<subseteq> set TEL_REQUIRED_FIELDS"
    by (simp add: TEL_REQUIRED_FIELDS_def)
  ultimately have "dget msg ''seq'' = Some (PInt (uint (fm_tel_seq m)))"
    "dget msg ''control_mode'' = Some (PInt (mode_number (controlMode ?s)))"
    "dget msg ''tracking_state'' = Some (PInt (state_number (td_tracking_state ?t)))"
    using f(2) by auto
  then show ?thesis using js(1) tel_stored[of _ _ loads, OF len rd v, of li clk rx st] f(1) k by blast
qed

theorem fc_telemetry_stored_witness:
  "\<exists>st' msg. tel_process_datagram json_reader 1024 (Fin 5) (Fin 1)
      (utf8_ascii (turn_json calibrated_main (takeoff_turn 0))) (Fin 2) (with_state Map.empty (fresh_state 0)) = (Inr True, st') \<and>
    latest_tel (ist st') = Some msg \<and> dget msg ''seq'' = Some (PInt 0) \<and> dget msg ''control_mode'' = Some (PInt 3)"
proof -
  let ?i = "takeoff_turn 0"
  have a0: "seq_accepted (fm_last_cmd_seq calibrated_main) 0" by (simp add: seq_accepted_def calibrated_main kCmdSeqMaxFc_def)
  have "controlMode (fm_controller (main_step calibrated_main ?i)) = CM_Takeoff"
    by (rule ordered_takeoff(1)[OF calibrated_main(1) takeoff_turn_ordered[OF a0]]) (simp_all add: calibrated_main)
  moreover have "between (Fin 0) (Fin (10 ^ 15)) (ti_cmd_age_s ?i)" "between (Fin 0) (Fin 1) (rs_tx_ratio (ti_sink ?i))"
    by (simp_all add: takeoff_turn_def turn_def sample_sink_def between_def)
  moreover have "fm_tel_seq calibrated_main = 0" by (simp add: calibrated_main_def new_fc_main_def)
  ultimately show ?thesis
    using fc_telemetry_stored[OF calibrated_startup, of calibrated_main "[]" ?i json_reader
        "Fin 5" "Fin 1" "Fin 2" "with_state Map.empty (fresh_state 0)"] json_reader_reads
    by (auto simp: calibrated_main_def UDP_MAX_TEL_BYTES_def mode_number_def)
qed

end
