(* ===== verification/Rc_Loop.thy ===== *)
theory Rc_Loop
  imports Fc_Failsafe
begin

section \<open>The main loop on a radio sink\<close>

text \<open>
  \<open>main.cpp\<close> holds its sink as an \<open>IRcSink\<close> (\<open>src/src/fc/header/RcSink.h\<close>): it asks for its health
  and rate profile before the control tick, hands it the channels, and asks for the transmit ratio
  after that. \<open>loop_on\<close> is a turn of the loop over any sink, given by what it shows (\<open>view\<close>) and
  its \<open>writeChannels\<close>. The locale \<open>radio_sink\<close> states what the loop relies on, that a sink once
  unhealthy stays so, and proves what follows for the drone.
\<close>

record 'a loop_input =
  li_dt :: pyfloat
  li_cmd :: "command_frame option"
  li_cmd_age_s :: pyfloat
  li_env :: 'a                       \<comment> \<open>what the operating system answers to the sink in the turn\<close>

definition turn_input :: "'a loop_input \<Rightarrow> rc_sink \<Rightarrow> tick_input" where
  "turn_input j v = \<lparr> ti_dt = li_dt j, ti_cmd = li_cmd j, ti_cmd_age_s = li_cmd_age_s j, ti_sink = v \<rparr>"

definition loop_on ::
  "('k \<Rightarrow> rc_sink) \<Rightarrow> ('a \<Rightarrow> pyfloat \<Rightarrow> bf_command \<Rightarrow> 'k \<Rightarrow> 'k) \<Rightarrow> fc_main \<times> 'k \<Rightarrow> 'a loop_input \<Rightarrow> fc_main \<times> 'k" where
  \<comment> \<open>the channels and the clock do not depend on the ratio, which is that after the write\<close>
  "loop_on view put = (\<lambda>(m, k) j.
     let (cmd, m1) = main_tick (turn_input j (view k)) m;
         k' = put (li_env j) (td_timestamp_s (telemetryData (fm_controller m1))) cmd k
     in (main_step m (turn_input j ((view k)\<lparr> rs_tx_ratio := rs_tx_ratio (view k') \<rparr>)), k'))"

lemma turn_ratio:
  "fm_controller (main_step m (turn_input j (v\<lparr> rs_tx_ratio := r \<rparr>))) = fm_controller (main_step m (turn_input j v))"
proof -
  have "apply_command cmd (v\<lparr> rs_tx_ratio := r \<rparr>) s = apply_command cmd v s" for cmd s
    by (cases "to_control_mode (cf_desired_mode cmd)")
      (simp_all add: apply_command_def apply_control_mode_safely_def)
  then show ?thesis
    by (cases "li_cmd j") (simp_all add: main_step_parts(1) control_step_def command_step_def cmd_stale_def turn_input_def)
qed

lemma loop_on_parts:
  assumes "loop_on view put (m, k) j = (m', k')"
  shows "m' = main_step m (turn_input j ((view k)\<lparr> rs_tx_ratio := rs_tx_ratio (view k') \<rparr>))"
    "k' = put (li_env j) (td_timestamp_s (telemetryData (fm_controller m'))) (currentCommand (fm_controller m')) k"
proof -
  show m: "m' = main_step m (turn_input j ((view k)\<lparr> rs_tx_ratio := rs_tx_ratio (view k') \<rparr>))"
    using assms by (auto simp: loop_on_def Let_def split_beta)
  have "k' = put (li_env j) (td_timestamp_s (telemetryData (fm_controller (main_step m (turn_input j (view k))))))
      (currentCommand (fm_controller (main_step m (turn_input j (view k))))) k"
    using assms main_step_parts(5)[of "turn_input j (view k)" m]
    by (auto simp: loop_on_def Let_def split_beta main_step_def)
  then show "k' = put (li_env j) (td_timestamp_s (telemetryData (fm_controller m'))) (currentCommand (fm_controller m')) k"
    unfolding m turn_ratio .
qed

lemma loop_channels_safe: "loop_on view put (m, k) j = (m', k') \<Longrightarrow> channels_safe (currentCommand (fm_controller m'))"
  using step_channels_safe loop_on_parts(1)[of view put m k j m' k']
  by (simp add: main_step_parts(1) fc_tick_def updateTimeStep_def Let_def)

subsection \<open>A sink that has failed\<close>

locale radio_sink =
  fixes view :: "'k \<Rightarrow> rc_sink" and put :: "'a \<Rightarrow> pyfloat \<Rightarrow> bf_command \<Rightarrow> 'k \<Rightarrow> 'k"
  assumes never_recovers: "\<not> rs_ok (view k) \<Longrightarrow> \<not> rs_ok (view (put a t c k))"
begin

definition grounded :: "fc_main \<times> 'k \<Rightarrow> bool" where
  \<comment> \<open>on a failed sink: noticed in the next turn, or no longer flying by itself\<close>
  "grounded = (\<lambda>(m, k). main_ok m \<and>
     (\<not> rs_ok (view k) \<longrightarrow> \<not> fm_sink_degraded_engaged m \<or> \<not> needs_msp (controlMode (fm_controller m))))"

lemma dead_turn:
  assumes "grounded (m, k)" "\<not> rs_ok (view k)" "loop_on view put (m, k) j = (m', k')"
  shows "\<not> needs_msp (controlMode (fm_controller m'))" "\<not> rs_ok (view k')"
proof -
  note p = loop_on_parts[OF assms(3)]
  show "\<not> rs_ok (view k')" unfolding p(2) using assms(2) by (rule never_recovers)
  let ?i = "turn_input j ((view k)\<lparr> rs_tx_ratio := rs_tx_ratio (view k') \<rparr>)"
  have s: "\<not> rs_ok (ti_sink ?i)" using assms(2) by (simp add: turn_input_def)
  show "\<not> needs_msp (controlMode (fm_controller m'))"
  proof
    assume n: "needs_msp (controlMode (fm_controller m'))"
    have ok: "main_ok m" using assms(1) by (simp add: grounded_def)
    note a = autonomy_ordered[OF ok n[unfolded p(1)]]
    have "fm_sink_degraded_engaged m" using a s by (simp add: trips_def)
    then have "\<not> needs_msp (controlMode (fm_controller m))" using assms(1,2) by (simp add: grounded_def)
    moreover have "\<not> ordered_by c d ?i m" for c d using s by (simp add: ordered_by_def)
    ultimately show False using a n[unfolded p(1)] by (auto simp: needs_msp_def)
  qed
qed

lemma grounded_step: "grounded q \<Longrightarrow> grounded (loop_on view put q j)"
proof -
  assume q: "grounded q"
  obtain m k m' k' where e: "q = (m, k)" "loop_on view put (m, k) j = (m', k')" by (metis surj_pair)
  note p = loop_on_parts[OF e(2)]
  have "main_ok m'" using q unfolding p(1) e(1) by (auto simp: grounded_def intro: main_ok_step)
  moreover have "\<not> rs_ok (view k) \<Longrightarrow> \<not> needs_msp (controlMode (fm_controller m'))"
    using dead_turn(1)[of m k j] q e by simp
  moreover have "fm_sink_degraded_engaged m' = (\<not> rs_ok (view k))"
    unfolding p(1) main_step_parts(4) by (simp add: turn_input_def)
  ultimately show "grounded (loop_on view put q j)" using e by (auto simp: grounded_def)
qed

lemma dead_run:
  assumes "grounded (m, k)" "\<not> rs_ok (view k)" "run (loop_on view put) (m, k) js = (m', k')" "js \<noteq> []"
  shows "\<not> needs_msp (controlMode (fm_controller m')) \<and> \<not> rs_ok (view k')"
  using assms
proof (induction js arbitrary: m k)
  case (Cons j js)
  obtain m1 k1 where s: "loop_on view put (m, k) j = (m1, k1)" by fastforce
  note d = dead_turn[OF Cons.prems(1,2) s]
  show ?case
  proof (cases js)
    case Nil
    then show ?thesis using d s Cons.prems(3) by simp
  next
    case (Cons j' js')
    then show ?thesis using Cons.IH[of m1 k1] d(2) s grounded_step[OF Cons.prems(1), of j] Cons.prems(3) by simp
  qed
qed simp

text \<open>From a start, whatever the sink was before: once it has failed the drone is grounded.\<close>

lemma failed_grounds:
  assumes "controller_from_env e = Some s0" "run (loop_on view put) (new_fc_main s0, k0) past = (m, k)"
    and "\<not> rs_ok (view k)" "run (loop_on view put) (m, k) later = (m', k')" "later \<noteq> []"
  shows "\<not> needs_msp (controlMode (fm_controller m')) \<and> \<not> rs_ok (view k')"
proof -
  have "grounded (new_fc_main s0, k0)"
    using main_ok_start[OF assms(1)] by (simp add: grounded_def new_fc_main_def)
  then have "grounded (m, k)"
    using run_invariant[of grounded "loop_on view put" _ past] grounded_step assms(2) by metis
  then show ?thesis by (rule dead_run[OF _ assms(3-5)])
qed

end

end
