(* ===== verification/Msp_Framing.thy ===== *)
theory Msp_Framing
  imports Flight_Modes "HOL-Library.Word"
begin

unbundle bit_operations_syntax

section \<open>MSP frames\<close>

text \<open>
  \<open>src/src/fc/header/MspFraming.h\<close> and \<open>src/src/fc/implementation/MspFraming.cpp\<close>: the
  request frames the flight program writes to the Betaflight board and the parser of its
  responses, on bytes as 8-bit words. \<open>parse_drain\<close> and \<open>drain_into\<close> are the loops of
  \<open>MspRcSink.cpp\<close> that fill the receive buffer and take every complete frame out of it. The theory
  proves that the channels written are read back in the board's order, and which frames are found
  in a stream, however its bytes arrive.
\<close>

type_synonym byte = "8 word"

definition MSP_API_VERSION :: byte where "MSP_API_VERSION = 1"
definition MSP_RC :: byte where "MSP_RC = 105"
definition MSP_RC_TUNING :: byte where "MSP_RC_TUNING = 111"
definition MSP_SET_RAW_RC :: byte where "MSP_SET_RAW_RC = 200"
definition MSP_RC_CHANNEL_MIN_US :: int where "MSP_RC_CHANNEL_MIN_US = 1000"
definition MSP_RC_CHANNEL_MAX_US :: int where "MSP_RC_CHANNEL_MAX_US = 2000"

definition xor_checksum :: "byte list \<Rightarrow> byte" where
  "xor_checksum buf = foldl (XOR) 0 buf"

definition encode_request :: "byte \<Rightarrow> byte list \<Rightarrow> byte list" where
  \<comment> \<open>the number of bytes \<open>n\<close> is the length of the payload\<close>
  "encode_request cmd payload =
     (let size = (if 255 < length payload then 255 else word_of_nat (length payload)) :: byte;
          body = take (unat size) payload
      in [0x24, 0x4D, 0x3C, size, cmd] @ body @ [foldl (XOR) (size XOR cmd) body])"

definition le16 :: "int \<Rightarrow> byte list" where
  \<comment> \<open>a \<open>uint16_t\<close>, low byte first\<close>
  "le16 v = [word_of_int (v AND 0xFF), word_of_int (drop_bit 8 v AND 0xFF)]"

definition encode_set_raw_rc :: "int list \<Rightarrow> byte list" where
  "encode_set_raw_rc channels = encode_request MSP_SET_RAW_RC
     (concat (map (\<lambda>v. le16 (u16_clamp v MSP_RC_CHANNEL_MIN_US MSP_RC_CHANNEL_MAX_US)) channels))"

record parsed_frame =
  pf_cmd :: byte
  pf_payload :: "byte list"

record parse_result =
  pr_frame :: "parsed_frame option"
  pr_bytes_consumed :: nat
  pr_checksum_error :: bool

definition marker :: "byte list \<Rightarrow> bool" where
  \<comment> \<open>\<open>$M>\<close> at the start of the buffer\<close>
  "marker buf = (take 3 buf = [0x24, 0x4D, 0x3E])"

fun find_header :: "byte list \<Rightarrow> nat \<times> bool" where
  \<comment> \<open>the position the scan for the marker stops at, and whether the marker is there\<close>
  "find_header buf =
     (if length buf < 3 then (0, False)
      else if marker buf then (0, True)
      else case buf of [] \<Rightarrow> (0, False) | _ # rest \<Rightarrow> apfst Suc (find_header rest))"

declare find_header.simps [simp del]

definition parse_response :: "byte list \<Rightarrow> parse_result" where
  "parse_response buf =
     (let none = (\<lambda>k. \<lparr> pr_frame = None, pr_bytes_consumed = k, pr_checksum_error = False \<rparr>) in
      if length buf < 3 then none 0
      else let (i, found_header) = find_header buf in
        if \<not> found_header then none i
        else if length buf < i + 5 then none i
        else let size = buf ! (i + 3); cmd = buf ! (i + 4); frame_total = 3 + 1 + 1 + unat size + 1 in
          if length buf < i + frame_total then none i
          else let body = take (unat size) (drop (i + 5) buf);
                   cksum = foldl (XOR) (size XOR cmd) body;
                   expected = buf ! (i + 5 + unat size); stop_at = i + frame_total in
            if cksum \<noteq> expected then \<lparr> pr_frame = None, pr_bytes_consumed = stop_at, pr_checksum_error = True \<rparr>
            else \<lparr> pr_frame = Some \<lparr> pf_cmd = cmd, pf_payload = body \<rparr>, pr_bytes_consumed = stop_at,
                   pr_checksum_error = False \<rparr>)"

subsection \<open>The receive buffer\<close>

fun drain_into :: "byte list list \<Rightarrow> byte list \<Rightarrow> byte list" where
  \<comment> \<open>the first argument is what successive calls of \<open>read\<close> return, at most 256 bytes each; it is
    asked again only when the buffer was filled, and nothing stands for an error or no data\<close>
  "drain_into [] acc = acc"
| "drain_into (r # rs) acc = (if length r = 256 then drain_into rs (acc @ r) else acc @ r)"

function parse_drain :: "(parsed_frame \<Rightarrow> bool) \<Rightarrow> byte list \<Rightarrow> parsed_frame list \<times> nat \<times> byte list" where
  \<comment> \<open>the frames handed to \<open>on_frame\<close>, the checksum errors and the bytes left; the first argument
    is what \<open>on_frame\<close> answers\<close>
  "parse_drain on_frame acc =
     (if acc = [] then ([], 0, [])
      else let pr = parse_response acc; rest = drop (pr_bytes_consumed pr) acc;
               errs = (if pr_checksum_error pr then 1 else 0)
        in case pr_frame pr of
             Some f \<Rightarrow>
               if on_frame f \<or> pr_bytes_consumed pr = 0 then ([f], errs, rest)
               else (case parse_drain on_frame rest of (fs, n, left) \<Rightarrow> (f # fs, errs + n, left))
           | None \<Rightarrow>
               if pr_bytes_consumed pr = 0 then ([], errs, rest)
               else (case parse_drain on_frame rest of (fs, n, left) \<Rightarrow> (fs, errs + n, left)))"
  by pat_completeness auto
termination
  by (relation "measure (\<lambda>(_, acc). length acc)") simp_all

declare parse_drain.simps [simp del]

subsection \<open>A frame at the front, and bytes before it\<close>

definition frame_size :: "byte list \<Rightarrow> nat" where
  "frame_size buf = 6 + unat (buf ! 3)"

definition body_of :: "byte list \<Rightarrow> byte list" where
  "body_of buf = take (unat (buf ! 3)) (drop 5 buf)"

definition sum_ok :: "byte list \<Rightarrow> bool" where
  "sum_ok buf = (foldl (XOR) (buf ! 3 XOR buf ! 4) (body_of buf) = buf ! (5 + unat (buf ! 3)))"

lemma marker_response:
  assumes "marker buf" "3 \<le> length buf"
  shows "parse_response buf = (if length buf < frame_size buf
    then \<lparr> pr_frame = None, pr_bytes_consumed = 0, pr_checksum_error = False \<rparr>
    else if sum_ok buf
    then \<lparr> pr_frame = Some \<lparr> pf_cmd = buf ! 4, pf_payload = body_of buf \<rparr>, pr_bytes_consumed = frame_size buf,
           pr_checksum_error = False \<rparr>
    else \<lparr> pr_frame = None, pr_bytes_consumed = frame_size buf, pr_checksum_error = True \<rparr>)"
proof -
  have "find_header buf = (0, True)" using assms by (subst find_header.simps) simp
  then show ?thesis using assms(2)
    by (simp add: parse_response_def Let_def frame_size_def sum_ok_def body_of_def)
qed

lemma no_marker_response:
  assumes "\<not> marker (x # buf)" "3 \<le> length buf"
  shows "parse_response (x # buf) = (parse_response buf)\<lparr> pr_bytes_consumed := Suc (pr_bytes_consumed (parse_response buf)) \<rparr>"
proof -
  obtain i h where f: "find_header buf = (i, h)" by fastforce
  have "find_header (x # buf) = (Suc i, h)" using assms f by (subst find_header.simps) simp
  moreover have "drop (i + 6) (x # buf) = drop (i + 5) buf" by (simp add: drop_Cons' add.commute)
  ultimately show ?thesis using assms(2) f by (simp add: parse_response_def Let_def add_ac)
qed

lemma parse_response_none:
  "pr_bytes_consumed (parse_response buf) = 0 \<Longrightarrow>
   pr_frame (parse_response buf) = None \<and> \<not> pr_checksum_error (parse_response buf)"
  by (cases "find_header buf") (simp add: parse_response_def Let_def split: if_splits)

lemma drain_short: "length buf < 3 \<Longrightarrow> parse_drain st buf = ([], 0, buf)"
  by (subst parse_drain.simps) (simp add: parse_response_def)

lemma drain_skip:
  assumes "\<not> marker (x # buf)" "2 \<le> length buf"
  shows "parse_drain st (x # buf) = parse_drain st buf"
proof (cases "length buf = 2")
  case True
  then have "find_header (x # buf) = (1, False)" "find_header buf = (0, False)"
    using assms(1) by (simp_all add: find_header.simps[of "x # buf"] find_header.simps[of buf])
  then have "parse_response (x # buf) = \<lparr> pr_frame = None, pr_bytes_consumed = 1, pr_checksum_error = False \<rparr>"
    using True by (simp add: parse_response_def)
  then show ?thesis by (subst parse_drain.simps) (simp add: split_beta)
next
  case False
  then have l: "3 \<le> length buf" using assms(2) by simp
  note r = no_marker_response[OF assms(1) l]
  have ne: "buf \<noteq> []" using l by auto
  show ?thesis
  proof (cases "pr_bytes_consumed (parse_response buf) = 0")
    case True
    then show ?thesis using parse_response_none[OF True]
      by (simp add: parse_drain.simps[of st "x # buf"] r split_beta)
  next
    case False
    obtain f k e where p: "parse_response buf =
        \<lparr> pr_frame = f, pr_bytes_consumed = k, pr_checksum_error = e \<rparr>"
      by (cases "parse_response buf")
    then show ?thesis using ne False r
      by (cases f) (simp_all add: parse_drain.simps[of st "x # buf"] parse_drain.simps[of st buf] Let_def)
  qed
qed

lemma drain_wait:
  "marker buf \<Longrightarrow> length buf < frame_size buf \<Longrightarrow> parse_drain st buf = ([], 0, buf)"
proof (cases "length buf < 3")
  case False
  assume "marker buf" "length buf < frame_size buf"
  then have "parse_response buf = \<lparr> pr_frame = None, pr_bytes_consumed = 0, pr_checksum_error = False \<rparr>"
    using marker_response False by simp
  then show ?thesis by (subst parse_drain.simps) simp
qed (simp add: drain_short)

lemma drain_frame:
  assumes "marker buf" "frame_size buf \<le> length buf"
  shows "parse_drain st buf =
    (let f = \<lparr> pf_cmd = buf ! 4, pf_payload = body_of buf \<rparr>; (fs, n, left) = parse_drain st (drop (frame_size buf) buf)
     in if sum_ok buf then if st f then ([f], 0, drop (frame_size buf) buf) else (f # fs, n, left)
        else (fs, Suc n, left))"
proof -
  have "3 \<le> length buf" "buf \<noteq> []" "0 < frame_size buf" using assms(2) by (auto simp: frame_size_def)
  then show ?thesis using assms
    by (subst parse_drain.simps) (simp add: marker_response Let_def split_beta)
qed

subsection \<open>Bytes arriving in pieces\<close>

lemma marker_append: "3 \<le> length a \<Longrightarrow> marker (a @ b) = marker a"
  by (simp add: marker_def)

lemma frame_append:
  assumes "frame_size a \<le> length a"
  shows "frame_size (a @ b) = frame_size a" "body_of (a @ b) = body_of a" "sum_ok (a @ b) = sum_ok a"
    "(a @ b) ! 4 = a ! 4" "drop (frame_size a) (a @ b) = drop (frame_size a) a @ b"
proof -
  have l: "6 + unat (a ! 3) \<le> length a" using assms by (simp add: frame_size_def)
  show "frame_size (a @ b) = frame_size a" using l by (simp add: frame_size_def nth_append)
  show bo: "body_of (a @ b) = body_of a" using l by (simp add: body_of_def nth_append)
  show "sum_ok (a @ b) = sum_ok a" unfolding sum_ok_def bo using l by (simp add: nth_append)
  show "(a @ b) ! 4 = a ! 4" "drop (frame_size a) (a @ b) = drop (frame_size a) a @ b"
    using l assms by (simp_all add: nth_append)
qed

abbreviation drain :: "byte list \<Rightarrow> parsed_frame list \<times> nat \<times> byte list" where
  "drain acc \<equiv> parse_drain (\<lambda>_. False) acc"   \<comment> \<open>as the poll calls it\<close>

lemma drain_cases:
  obtains (short) "length a < 3"
    | (skip) x a' where "a = x # a'" "2 \<le> length a'" "\<not> marker a"
    | (wait) "3 \<le> length a" "marker a" "length a < frame_size a"
    | (frame) "3 \<le> length a" "marker a" "frame_size a \<le> length a" "length (drop (frame_size a) a) < length a"
proof (cases "length a < 3")
  case len: False
  show thesis
  proof (cases "marker a")
    case True
    show thesis
    proof (cases "frame_size a \<le> length a")
      case fs: True
      have "length (drop (frame_size a) a) < length a" using fs by (simp add: frame_size_def)
      then show thesis using frame len True fs by simp
    qed (use wait len True in simp)
  next
    case False
    obtain x a' where "a = x # a'" using len by (cases a) auto
    then show thesis using skip[of x a'] len False by simp
  qed
qed (use short in simp)

lemma drain_append:
  "drain (a @ b) = (let (fs, n, r) = drain a; (fs', n', r') = drain (r @ b) in (fs @ fs', n + n', r'))"
proof (induction a rule: length_induct)
  case (1 a)
  show ?case
  proof (cases a rule: drain_cases)
    case short
    then show ?thesis by (simp add: drain_short split_beta Let_def)
  next
    case (skip x a')
    have "\<not> marker (x # (a' @ b))" using skip marker_append[of a b] by simp
    then have e: "drain (a @ b) = drain (a' @ b)" "drain a = drain a'"
      using skip drain_skip[of x "a' @ b"] drain_skip[of x a'] by simp_all
    have "length a' < length a" using skip by simp
    then show ?thesis unfolding e by (rule 1[rule_format])
  next
    case wait
    then show ?thesis by (simp add: drain_wait split_beta Let_def)
  next
    case frame
    let ?r = "drop (frame_size a) a"
    have ih: "drain (?r @ b) = (let (fs, n, r) = drain ?r; (fs', n', r') = drain (r @ b) in (fs @ fs', n + n', r'))"
      using 1 frame(4) by blast
    have m: "marker (a @ b)" using frame marker_append by simp
    show ?thesis
      using ih frame(3) drain_frame[OF frame(2,3)] drain_frame[OF m, of "\<lambda>_. False"] frame_append[OF frame(3), of b]
      by (simp add: Let_def split_beta)
  qed
qed

lemma drain_rest: "drain a = (fs, n, r) \<Longrightarrow> drain r = ([], 0, r)"
proof (induction a arbitrary: fs n rule: length_induct)
  case (1 a)
  show ?case
  proof (cases a rule: drain_cases)
    case short
    then show ?thesis using 1(2) by (simp add: drain_short)
  next
    case (skip x a')
    then have "drain a' = (fs, n, r)" "length a' < length a" using 1(2) drain_skip[of x a'] by simp_all
    then show ?thesis using 1(1) by blast
  next
    case wait
    then show ?thesis using 1(2) by (simp add: drain_wait)
  next
    case frame
    obtain gs k q where d: "drain (drop (frame_size a) a) = (gs, k, q)"
      by (cases "drain (drop (frame_size a) a)")
    have "q = r" using 1(2) drain_frame[OF frame(2,3), of "\<lambda>_. False"] d
      by (simp add: Let_def split: if_splits)
    with d have "drain (drop (frame_size a) a) = (gs, k, r)" by simp
    then show ?thesis using 1(1) frame(4) by blast
  qed
qed

fun drain_chunks :: "byte list \<Rightarrow> byte list list \<Rightarrow> parsed_frame list \<times> nat \<times> byte list" where
  \<comment> \<open>a drain after each arrival, what is left staying in \<open>rx_buffer_\<close>\<close>
  "drain_chunks acc [] = ([], 0, acc)"
| "drain_chunks acc (c # cs) =
     (let (fs, n, r) = drain (acc @ c); (fs', n', r') = drain_chunks r cs in (fs @ fs', n + n', r'))"

lemma drain_chunks_concat:
  assumes "drain acc = ([], 0, acc)"
  shows "drain_chunks acc cs = drain (acc @ concat cs)"
  using assms
proof (induction cs arbitrary: acc)
  case (Cons c cs)
  obtain fs n r where d: "drain (acc @ c) = (fs, n, r)" by (cases "drain (acc @ c)")
  have "drain_chunks r cs = drain (r @ concat cs)" using Cons.IH drain_rest[OF d] .
  then show ?case using drain_append[of "acc @ c" "concat cs"] by (simp add: d)
qed simp

subsection \<open>A stream of responses\<close>

definition msp_response :: "byte \<Rightarrow> byte list \<Rightarrow> byte \<Rightarrow> byte list" where
  \<comment> \<open>a response on the wire with the given checksum byte\<close>
  "msp_response cmd body k = [0x24, 0x4D, 0x3E, word_of_nat (length body), cmd] @ body @ [k]"

record wire_item =
  wi_noise :: "byte list"     \<comment> \<open>bytes before the frame\<close>
  wi_cmd :: byte
  wi_body :: "byte list"
  wi_sum :: byte

definition item_bytes :: "wire_item \<Rightarrow> byte list" where
  "item_bytes w = wi_noise w @ msp_response (wi_cmd w) (wi_body w) (wi_sum w)"

definition item_ok :: "wire_item \<Rightarrow> bool" where
  "item_ok w = (0x24 \<notin> set (wi_noise w) \<and> length (wi_body w) \<le> 255)"

definition item_intact :: "wire_item \<Rightarrow> bool" where
  "item_intact w = (wi_sum w = xor_checksum (word_of_nat (length (wi_body w)) # wi_cmd w # wi_body w))"

definition item_frame :: "wire_item \<Rightarrow> parsed_frame" where
  "item_frame w = \<lparr> pf_cmd = wi_cmd w, pf_payload = wi_body w \<rparr>"

lemma unat_length_byte: "length b \<le> 255 \<Longrightarrow> unat (word_of_nat (length b) :: byte) = length b"
  by (simp add: unat_of_nat)

lemma response_front:
  fixes c k :: byte and rest :: "byte list"
  assumes "length b \<le> 255"
  defines "m \<equiv> msp_response c b k @ rest"
  shows "marker m" "frame_size m \<le> length m" "m ! 4 = c" "body_of m = b" "drop (frame_size m) m = rest"
    "sum_ok m = (k = xor_checksum (word_of_nat (length b) # c # b))"
proof -
  have u: "unat (m ! 3) = length b" using unat_length_byte[OF assms(1)] by (simp add: m_def msp_response_def)
  have sz: "frame_size m = length (msp_response c b k)"
    using u by (simp add: frame_size_def msp_response_def)
  show "marker m" "m ! 4 = c" by (simp_all add: marker_def m_def msp_response_def)
  show "frame_size m \<le> length m" "drop (frame_size m) m = rest" unfolding sz by (simp_all add: m_def)
  show bo: "body_of m = b" unfolding body_of_def u by (simp add: m_def msp_response_def)
  have "m ! (5 + length b) = k" by (simp add: m_def msp_response_def nth_append)
  moreover have "m ! 3 = word_of_nat (length b)" "m ! 4 = c" by (simp_all add: m_def msp_response_def)
  ultimately show "sum_ok m = (k = xor_checksum (word_of_nat (length b) # c # b))"
    unfolding sum_ok_def bo u by (auto simp: xor_checksum_def)
qed

lemma drain_noise: "0x24 \<notin> set j \<Longrightarrow> 2 \<le> length rest \<Longrightarrow> parse_drain st (j @ rest) = parse_drain st rest"
  by (induction j) (auto simp: drain_skip marker_def)

lemma drain_item:
  assumes "item_ok w"
  shows "drain (item_bytes w @ rest) = (let (fs, n, r) = drain rest in
    if item_intact w then (item_frame w # fs, n, r) else (fs, Suc n, r))"
proof -
  let ?m = "msp_response (wi_cmd w) (wi_body w) (wi_sum w) @ rest"
  have b: "length (wi_body w) \<le> 255" and j: "0x24 \<notin> set (wi_noise w)" using assms by (auto simp: item_ok_def)
  have "drain (item_bytes w @ rest) = drain ?m"
    using drain_noise[OF j, of ?m] by (simp add: item_bytes_def msp_response_def)
  also have "\<dots> = (let (fs, n, r) = drain rest in
    if item_intact w then (item_frame w # fs, n, r) else (fs, Suc n, r))"
    unfolding drain_frame[OF response_front(1,2)[OF b], of "\<lambda>_. False"] response_front(3-)[OF b]
    by (simp add: item_intact_def item_frame_def Let_def split_beta)
  finally show ?thesis .
qed

lemma drain_items:
  assumes "list_all item_ok ws"
  shows "drain (concat (map item_bytes ws)) =
    (map item_frame (filter item_intact ws), length (filter (\<lambda>w. \<not> item_intact w) ws), [])"
  using assms
proof (induction ws)
  case Nil
  show ?case by (simp add: parse_drain.simps)
qed (simp add: drain_item)

text \<open>
  C20: The frames of a stream are found however its bytes arrive. For any responses of the board,
  with noise before each that holds no dollar sign and with any checksum bytes, and for any cutting
  of the stream into arrivals, draining the buffer after each arrival hands over exactly the
  responses with a right checksum, in order, counts each of the others as one error, and leaves
  the buffer empty.
\<close>

theorem msp_stream_read:
  assumes "list_all item_ok ws" "concat chunks = concat (map item_bytes ws)"
  shows "drain_chunks [] chunks =
    (map item_frame (filter item_intact ws), length (filter (\<lambda>w. \<not> item_intact w) ws), [])"
  using drain_chunks_concat[of "[]" chunks] drain_items[OF assms(1)] assms(2) by (simp add: drain_short)

theorem msp_stream_read_witness:
  "drain_chunks [] [[7, 0x24], [0x4D, 0x3E, 2, 105, 0xDC, 5], [0xB2, 0x24, 0x4D, 0x3E, 0, 1], [9]] =
    ([\<lparr> pf_cmd = 105, pf_payload = [0xDC, 5] \<rparr>], 1, [])"
proof -
  let ?ws = "[\<lparr> wi_noise = [7], wi_cmd = 105, wi_body = [0xDC, 5], wi_sum = 0xB2 \<rparr>,
    \<lparr> wi_noise = [], wi_cmd = 1, wi_body = [], wi_sum = 9 \<rparr>]"
  have "list_all item_ok ?ws" by (simp add: item_ok_def)
  moreover have "concat [[7, 0x24], [0x4D, 0x3E, 2, 105, 0xDC, 5], [0xB2, 0x24, 0x4D, 0x3E, 0, 1], [9]] =
    concat (map item_bytes ?ws)" by (simp add: item_bytes_def msp_response_def)
  ultimately have "drain_chunks [] [[7, 0x24], [0x4D, 0x3E, 2, 105, 0xDC, 5], [0xB2, 0x24, 0x4D, 0x3E, 0, 1], [9]] =
    (map item_frame (filter item_intact ?ws), length (filter (\<lambda>w. \<not> item_intact w) ?ws), [])"
    by (rule msp_stream_read)
  also have "\<dots> = ([\<lparr> pf_cmd = 105, pf_payload = [0xDC, 5] \<rparr>], 1, [])"
    by (simp add: item_intact_def xor_checksum_def item_frame_def)
  finally show ?thesis .
qed

subsection \<open>What the board reads in a request\<close>

definition request_frame :: "byte list \<Rightarrow> (byte \<times> byte list) option" where
  \<comment> \<open>a request of the protocol: marker, size, command, payload and checksum\<close>
  "request_frame buf =
     (if take 3 buf \<noteq> [0x24, 0x4D, 0x3C] \<or> length buf < 6 then None
      else let n = unat (buf ! 3); body = take n (drop 5 buf) in
        if length buf \<noteq> 6 + n \<or> last buf \<noteq> xor_checksum (buf ! 3 # buf ! 4 # body) then None
        else Some (buf ! 4, body))"

fun rc_values :: "byte list \<Rightarrow> int list" where
  \<comment> \<open>16-bit values, low byte first\<close>
  "rc_values (lo # hi # bs) = (uint lo + 256 * uint hi) # rc_values bs"
| "rc_values _ = []"

lemma request_read: "length body \<le> 255 \<Longrightarrow> request_frame (encode_request cmd body) = Some (cmd, body)"
  using unat_length_byte[of body]
  by (simp add: request_frame_def encode_request_def Let_def xor_checksum_def)

lemma le16_read:
  assumes "0 \<le> v" "v < 65536"
  shows "rc_values (le16 v @ bs) = v # rc_values bs"
proof -
  have m: "(255 :: int) = mask 8" by (simp add: mask_eq_exp_minus_1)
  have lo: "uint (word_of_int (v AND 0xFF) :: byte) = v mod 256"
    unfolding m by (simp add: uint_word_of_int take_bit_eq_mod flip: take_bit_eq_mask)
  have "drop_bit 8 v = v div 256" by (simp add: drop_bit_eq_div)
  then have hi: "uint (word_of_int (drop_bit 8 v AND 0xFF) :: byte) = v div 256"
    unfolding m using assms by (simp add: uint_word_of_int take_bit_eq_mod flip: take_bit_eq_mask)
  show ?thesis unfolding le16_def using lo hi by simp
qed

lemma raw_rc_read:
  assumes "list_all (\<lambda>v. 1000 \<le> v \<and> v \<le> 2000) cs" "length cs \<le> 127"
  shows "map_option (\<lambda>(c, b). (c, rc_values b)) (request_frame (encode_set_raw_rc cs)) = Some (MSP_SET_RAW_RC, cs)"
proof -
  let ?p = "\<lambda>cs. concat (map (\<lambda>v. le16 (u16_clamp v MSP_RC_CHANNEL_MIN_US MSP_RC_CHANNEL_MAX_US)) cs)"
  have l: "length (?p cs) = 2 * length cs" for cs by (induction cs) (simp_all add: le16_def)
  have "rc_values (?p cs) = cs" using assms(1)
    by (induction cs) (auto simp: le16_read u16_clamp_def MSP_RC_CHANNEL_MIN_US_def MSP_RC_CHANNEL_MAX_US_def)
  then show ?thesis using request_read[of "?p cs" MSP_SET_RAW_RC] l[of cs] assms(2)
    by (simp add: encode_set_raw_rc_def)
qed

end
