(* ===== verification/Msp_Sink.thy ===== *)
theory Msp_Sink
  imports Rc_Loop Flight_Steering Msp_Framing "HOL-Library.Signed_Division"
begin

section \<open>The serial radio sink\<close>

text \<open>
  \<open>src/src/fc/header/MspRcSink.h\<close> and \<open>src/src/fc/implementation/MspRcSink.cpp\<close>: the sink that
  drives a Betaflight board over a serial line, its probes at startup, the write of the channels in
  every turn and the poll of the arm switch in every tenth. What the operating system answers
  (\<open>write\<close>, \<open>read\<close>, \<open>select\<close>, the clock) is given as data. The theory proves that the board gets the
  channels of the turn, what the sink keeps, and that the drone never flies by itself again
  once the line has failed. Log lines and the termios settings are left out.
\<close>

subsection \<open>State\<close>

record msp_sink =
  ms_open :: bool                    \<comment> \<open>\<open>fd_ >= 0\<close>\<close>
  ms_boot_probe_failed :: bool
  ms_tuning_mismatch :: bool
  ms_tx_ratio :: pyfloat
  ms_arm_switch :: bool
  ms_tick_counter :: "64 word"
  ms_writes_attempted :: "64 word"
  ms_writes_succeeded :: "64 word"
  ms_parse_errors :: "64 word"
  ms_last_reply_ns :: "int option"   \<comment> \<open>\<open>last_msp_rc_reply_time_\<close>\<close>
  ms_rx_buffer :: "byte list"
  ms_line :: "byte list"             \<comment> \<open>the bytes written to the device so far\<close>

definition new_msp_sink :: msp_sink where
  "new_msp_sink = \<lparr> ms_open = True, ms_boot_probe_failed = False, ms_tuning_mismatch = False,
     ms_tx_ratio = Fin 1, ms_arm_switch = False, ms_tick_counter = 0, ms_writes_attempted = 0,
     ms_writes_succeeded = 0, ms_parse_errors = 0, ms_last_reply_ns = None, ms_rx_buffer = [], ms_line = [] \<rparr>"

definition msp_ok :: "msp_sink \<Rightarrow> bool" where
  "msp_ok s = (ms_open s \<and> \<not> ms_boot_probe_failed s)"

definition kTxRatioAlpha :: pyfloat where "kTxRatioAlpha = f64 (1 / 20)"
definition kMspRcAux1Offset :: nat where "kMspRcAux1Offset = 8"
definition kArmSwitchThresholdUs :: int where "kArmSwitchThresholdUs = 1700"
definition kArmSwitchStaleMs :: int where "kArmSwitchStaleMs = 1000"
definition kProbeTimeoutMs :: nat where "kProbeTimeoutMs = 500"
definition kProbePollMs :: nat where "kProbePollMs = 50"
definition kMspRcPollEvery :: "64 word" where "kMspRcPollEvery = 10"

subsection \<open>Writing a frame\<close>

datatype write_result =
    Wrote nat      \<comment> \<open>\<open>write\<close> took that many bytes\<close>
  | Would_block    \<comment> \<open>-1 with \<open>EAGAIN\<close>, \<open>EWOULDBLOCK\<close> or \<open>EINTR\<close>\<close>
  | Hard_error     \<comment> \<open>-1 with any other error\<close>

definition kMaxNoProgress :: nat where "kMaxNoProgress = 2"
definition kMaxTotal :: nat where "kMaxTotal = 32"

function write_loop :: "(nat \<Rightarrow> write_result) \<Rightarrow> nat \<Rightarrow> nat \<Rightarrow> byte list \<Rightarrow> bool \<times> byte list" where
  \<comment> \<open>the answers of \<open>write\<close> by attempt, the attempts made, those without progress since the last
    one with, and the bytes still to be written; whether all were written, and the bytes that were\<close>
  "write_loop w total_attempts no_progress buf =
     (if buf = [] then (True, [])
      else if kMaxTotal \<le> total_attempts then (False, [])
      else case w total_attempts of
             Wrote k \<Rightarrow>
               if k = 0 then (False, [])
               else apsnd ((@) (take k buf)) (write_loop w (Suc total_attempts) 0 (drop k buf))
           | Would_block \<Rightarrow>
               if kMaxNoProgress \<le> Suc no_progress then (False, [])
               else write_loop w (Suc total_attempts) (Suc no_progress) buf
           | Hard_error \<Rightarrow> (False, []))"
  by pat_completeness auto
termination
  by (relation "measure (\<lambda>(_, n, _, _). kMaxTotal - n)") auto

declare write_loop.simps [simp del]

definition write_frame :: "(nat \<Rightarrow> write_result) \<Rightarrow> byte list \<Rightarrow> msp_sink \<Rightarrow> bool \<times> msp_sink" where
  "write_frame w buf s =
     (if \<not> ms_open s then (False, s)
      else let (whole, out) = write_loop w 0 0 buf; s1 = s\<lparr> ms_line := ms_line s @ out \<rparr>
           in if whole then (True, s1) else (False, s1\<lparr> ms_open := False \<rparr>))"

subsection \<open>Startup\<close>

definition baud_to_speed :: "int \<Rightarrow> bool" where
  \<comment> \<open>whether the rate is supported, on a platform with the two highest\<close>
  "baud_to_speed baud = (baud \<in> set [9600, 19200, 38400, 57600, 115200, 230400, 460800, 921600])"

function probe_loop :: "byte \<Rightarrow> (nat \<Rightarrow> byte list list option) \<Rightarrow> nat \<Rightarrow> msp_sink \<Rightarrow> bool \<times> msp_sink" where
  \<comment> \<open>waiting for a reply to a command: what \<open>select\<close> and then \<open>read\<close> answer by elapsed
    milliseconds, \<open>None\<close> when nothing was ready\<close>
  "probe_loop cmd polls elapsed s =
     (if kProbeTimeoutMs \<le> elapsed \<or> \<not> ms_open s then (False, s)
      else case polls elapsed of
             None \<Rightarrow> probe_loop cmd polls (elapsed + kProbePollMs) s
           | Some reads \<Rightarrow>
               (let (fs, errs, rest) = parse_drain (\<lambda>f. pf_cmd f = cmd) (drain_into reads (ms_rx_buffer s));
                    s1 = s\<lparr> ms_rx_buffer := rest, ms_parse_errors := ms_parse_errors s + of_nat errs \<rparr>
                in if list_ex (\<lambda>f. pf_cmd f = cmd) fs then (True, s1)
                   else probe_loop cmd polls (elapsed + kProbePollMs) s1))"
  by pat_completeness auto
termination
  by (relation "measure (\<lambda>(_, _, n, _). kProbeTimeoutMs - n)") (auto simp: kProbePollMs_def)

declare probe_loop.simps [simp del]

definition run_boot_probe ::
  "(nat \<Rightarrow> write_result) \<Rightarrow> (nat \<Rightarrow> byte list list option) \<Rightarrow> msp_sink \<Rightarrow> bool \<times> msp_sink" where
  "run_boot_probe w polls s =
     (let (written, s1) = write_frame w (encode_request MSP_API_VERSION []) s in
      if \<not> written then (False, s1\<lparr> ms_boot_probe_failed := True \<rparr>)
      else let (found, s2) = probe_loop MSP_API_VERSION polls 0 s1 in
           if found then (True, s2) else (False, s2\<lparr> ms_boot_probe_failed := True \<rparr>))"

definition run_tuning_probe ::
  "(nat \<Rightarrow> write_result) \<Rightarrow> (nat \<Rightarrow> byte list list option) \<Rightarrow> msp_sink \<Rightarrow> msp_sink" where
  "run_tuning_probe w polls s =
     (let (written, s1) = write_frame w (encode_request MSP_RC_TUNING []) s in
      if \<not> written then s1
      else let (found, s2) = probe_loop MSP_RC_TUNING polls 0 s1 in
           if found then s2 else s2\<lparr> ms_tuning_mismatch := True \<rparr>)"

record probe_answers =
  pa_write :: "nat \<Rightarrow> write_result"
  pa_polls :: "nat \<Rightarrow> byte list list option"

definition from_device :: "int \<Rightarrow> bool \<Rightarrow> probe_answers \<Rightarrow> probe_answers \<Rightarrow> msp_sink option" where
  \<comment> \<open>whether the device could be opened and set up, and the answers to the two probes\<close>
  "from_device baud opens boot tuning =
     (if \<not> baud_to_speed baud \<or> \<not> opens then None
      else let (found, s) = run_boot_probe (pa_write boot) (pa_polls boot) new_msp_sink
           in Some (if found then run_tuning_probe (pa_write tuning) (pa_polls tuning) s else s))"

subsection \<open>One turn\<close>

definition le16_at :: "byte list \<Rightarrow> nat \<Rightarrow> int" where
  "le16_at p i = uint (p ! i) + 256 * uint (p ! (i + 1))"

definition note_rc :: "int \<Rightarrow> parsed_frame \<Rightarrow> msp_sink \<Rightarrow> msp_sink" where
  \<comment> \<open>what the poll does with a frame; the first argument is the clock\<close>
  "note_rc now_ns f s =
     (if pf_cmd f = MSP_RC \<and> kMspRcAux1Offset + 2 \<le> length (pf_payload f)
      then s\<lparr> ms_arm_switch := kArmSwitchThresholdUs \<le> le16_at (pf_payload f) kMspRcAux1Offset,
             ms_last_reply_ns := Some now_ns \<rparr>
      else s)"

definition expire_arm_switch :: "int \<Rightarrow> msp_sink \<Rightarrow> msp_sink" where
  "expire_arm_switch now_ns s =
     (case ms_last_reply_ns s of
        Some t \<Rightarrow>
          if ms_arm_switch s \<and> kArmSwitchStaleMs < (now_ns - t) sdiv 1000000 then s\<lparr> ms_arm_switch := False \<rparr> else s
      | None \<Rightarrow> s)"

definition poll_msp_rc :: "(nat \<Rightarrow> write_result) \<Rightarrow> byte list list \<Rightarrow> (nat \<Rightarrow> int) \<Rightarrow> int \<Rightarrow> msp_sink \<Rightarrow> msp_sink" where
  \<comment> \<open>the answers of \<open>write\<close> and \<open>read\<close>, the clock at each frame, and the clock after them\<close>
  "poll_msp_rc w reads clk now_ns s =
     (if \<not> ms_open s then s
      else let (fs, errs, rest) = parse_drain (\<lambda>_. False) (drain_into reads (ms_rx_buffer s));
               s1 = s\<lparr> ms_rx_buffer := rest, ms_parse_errors := ms_parse_errors s + of_nat errs \<rparr>;
               s2 = fold (\<lambda>(i, f). note_rc (clk i) f) (enumerate 0 fs) s1
           in snd (write_frame w (encode_request MSP_RC []) (expire_arm_switch now_ns s2)))"

record line_answers =
  la_write :: "nat \<Rightarrow> write_result"    \<comment> \<open>to the channels\<close>
  la_query :: "nat \<Rightarrow> write_result"    \<comment> \<open>to the query of a poll\<close>
  la_reads :: "byte list list"
  la_clock :: "nat \<Rightarrow> int"              \<comment> \<open>at the frames of a poll\<close>
  la_now :: int

definition writeChannels :: "bf_command \<Rightarrow> line_answers \<Rightarrow> msp_sink \<Rightarrow> msp_sink" where
  "writeChannels cmd a s =
     (if \<not> ms_open s then s
      else let channels = [bf_roll cmd, bf_pitch cmd, bf_throttle cmd, bf_yaw cmd,
                           bf_aux1 cmd, bf_aux2 cmd, bf_aux3 cmd, bf_aux4 cmd];
               s1 = s\<lparr> ms_writes_attempted := ms_writes_attempted s + 1 \<rparr>;
               (success, s2) = write_frame (la_write a) (encode_set_raw_rc channels) s1;
               s3 = (if success then s2\<lparr> ms_writes_succeeded := ms_writes_succeeded s2 + 1 \<rparr> else s2);
               s4 = s3\<lparr> ms_tx_ratio := fadd (fmul (fsub (Fin 1) kTxRatioAlpha) (ms_tx_ratio s3))
                          (fmul kTxRatioAlpha (Fin (if success then 1 else 0))) \<rparr>;
               s5 = (if ms_tick_counter s4 mod kMspRcPollEvery = 0
                     then poll_msp_rc (la_query a) (la_reads a) (la_clock a) (la_now a) s4 else s4)
           in s5\<lparr> ms_tick_counter := ms_tick_counter s5 + 1 \<rparr>)"

subsection \<open>The main loop on this sink\<close>

type_synonym serial_input = "line_answers loop_input"

definition msp_view :: "msp_sink \<Rightarrow> rc_sink" where
  "msp_view s = \<lparr> rs_ok = msp_ok s, rs_tuning_mismatch = ms_tuning_mismatch s, rs_tx_ratio = ms_tx_ratio s \<rparr>"

definition msp_put :: "line_answers \<Rightarrow> pyfloat \<Rightarrow> bf_command \<Rightarrow> msp_sink \<Rightarrow> msp_sink" where
  \<comment> \<open>the virtual \<open>writeChannels\<close>, whose time stamp is not used\<close>
  "msp_put a timestamp_s cmd s = writeChannels cmd a s"

definition serial_step :: "fc_main \<times> msp_sink \<Rightarrow> serial_input \<Rightarrow> fc_main \<times> msp_sink" where
  "serial_step = loop_on msp_view msp_put"

subsection \<open>What a write leaves on the line\<close>

lemma write_loop_bytes:
  "write_loop w n k buf = (whole, out) \<Longrightarrow>
   if whole then out = buf else \<exists>i<length buf. out = take i buf"
proof (induction w n k buf arbitrary: whole out rule: write_loop.induct)
  case (1 w n k buf)
  show ?case
  proof (cases "buf = [] \<or> kMaxTotal \<le> n")
    case True
    then show ?thesis using "1.prems" by (subst (asm) write_loop.simps) (auto split: if_splits intro: exI[of _ 0])
  next
    case False
    show ?thesis
    proof (cases "w n")
      case (Wrote j)
      show ?thesis
      proof (cases "j = 0")
        case True
        then show ?thesis using "1.prems" Wrote False by (subst (asm) write_loop.simps) (auto intro: exI[of _ 0])
      next
        case j: False
        obtain b o' where r: "write_loop w (Suc n) 0 (drop j buf) = (b, o')" by fastforce
        have e: "whole = b" "out = take j buf @ o'"
          using "1.prems" Wrote False j r by (subst (asm) write_loop.simps; simp)+
        have ih: "if b then o' = drop j buf else \<exists>i<length (drop j buf). o' = take i (drop j buf)"
          using "1.IH"(1)[OF _ _ Wrote j r] False by simp
        show ?thesis
        proof (cases b)
          case False
          then obtain i where i: "i < length (drop j buf)" "o' = take i (drop j buf)" using ih by auto
          then have "out = take (j + i) buf" "j + i < length buf" unfolding e by (auto simp: take_add)
          then show ?thesis using e False by auto
        qed (use e ih in simp)
      qed
    next
      case Would_block
      show ?thesis
      proof (cases "kMaxNoProgress \<le> Suc k")
        case True
        then show ?thesis using "1.prems" Would_block False by (subst (asm) write_loop.simps) (auto intro: exI[of _ 0])
      next
        case np: False
        have "write_loop w (Suc n) (Suc k) buf = (whole, out)"
          using "1.prems" Would_block False np by (subst (asm) write_loop.simps) simp
        then show ?thesis using "1.IH"(2)[OF _ _ Would_block np] False by simp
      qed
    next
      case Hard_error
      then show ?thesis using "1.prems" False by (subst (asm) write_loop.simps) (auto intro: exI[of _ 0])
    qed
  qed
qed

lemma write_frame_open:
  assumes "ms_open s"
  obtains (whole) "write_frame w buf s = (True, s\<lparr> ms_line := ms_line s @ buf \<rparr>)"
    | (broken) i where "i < length buf"
      "write_frame w buf s = (False, s\<lparr> ms_line := ms_line s @ take i buf, ms_open := False \<rparr>)"
proof -
  obtain b out where r: "write_loop w 0 0 buf = (b, out)" by fastforce
  show thesis
  proof (cases b)
    case True
    then show thesis using whole assms r write_loop_bytes[OF r] by (simp add: write_frame_def)
  next
    case False
    then obtain i where "i < length buf" "out = take i buf" using write_loop_bytes[OF r] by auto
    then show thesis using broken[of i] assms r False by (simp add: write_frame_def)
  qed
qed

lemma note_rc_frame:
  "ms_open (note_rc t f s) = ms_open s" "ms_line (note_rc t f s) = ms_line s"
  "ms_tx_ratio (note_rc t f s) = ms_tx_ratio s" "ms_writes_succeeded (note_rc t f s) = ms_writes_succeeded s"
  "ms_boot_probe_failed (note_rc t f s) = ms_boot_probe_failed s" "ms_rx_buffer (note_rc t f s) = ms_rx_buffer s"
  "ms_tick_counter (note_rc t f s) = ms_tick_counter s"
  by (simp_all add: note_rc_def)

lemma notes_frame:
  defines "g \<equiv> \<lambda>clk. fold (\<lambda>(i, f). note_rc (clk i) f)"
  shows "ms_open (g clk fs s) = ms_open s" "ms_line (g clk fs s) = ms_line s"
  "ms_tx_ratio (g clk fs s) = ms_tx_ratio s" "ms_writes_succeeded (g clk fs s) = ms_writes_succeeded s"
  "ms_boot_probe_failed (g clk fs s) = ms_boot_probe_failed s" "ms_rx_buffer (g clk fs s) = ms_rx_buffer s"
  "ms_tick_counter (g clk fs s) = ms_tick_counter s"
  by (induction fs arbitrary: s) (auto simp: g_def note_rc_frame)

lemma expire_frame:
  "ms_open (expire_arm_switch t s) = ms_open s" "ms_line (expire_arm_switch t s) = ms_line s"
  "ms_tx_ratio (expire_arm_switch t s) = ms_tx_ratio s" "ms_writes_succeeded (expire_arm_switch t s) = ms_writes_succeeded s"
  "ms_boot_probe_failed (expire_arm_switch t s) = ms_boot_probe_failed s" "ms_rx_buffer (expire_arm_switch t s) = ms_rx_buffer s"
  "ms_tick_counter (expire_arm_switch t s) = ms_tick_counter s"
  by (simp_all add: expire_arm_switch_def split: option.splits)

lemmas poll_frame = note_rc_frame notes_frame expire_frame

lemma drain_left: "length (snd (snd (drain a))) \<le> 260"
proof (induction a rule: length_induct)
  case (1 a)
  show ?case
  proof (cases a rule: drain_cases)
    case short
    then show ?thesis by (simp add: drain_short)
  next
    case (skip x a')
    then show ?thesis using 1 drain_skip[of x a'] by simp
  next
    case wait
    have "unat (a ! 3) < 256" using unsigned_less[of "a ! 3", where ?'a = nat] by simp
    then show ?thesis using wait by (simp add: drain_wait frame_size_def)
  next
    case frame
    then show ?thesis using 1 drain_frame[OF frame(2,3), of "\<lambda>_. False"] by (simp add: Let_def split_beta)
  qed
qed

lemma poll_shape:
  fixes reads :: "byte list list" and clk :: "nat \<Rightarrow> int" and now_ns :: int and w :: "nat \<Rightarrow> write_result"
  assumes "ms_open s"
  defines "q \<equiv> poll_msp_rc w reads clk now_ns s"
  shows "\<exists>n. ms_line q = ms_line s @ take n (encode_request MSP_RC [])"
    "ms_tx_ratio q = ms_tx_ratio s" "ms_writes_succeeded q = ms_writes_succeeded s"
    "ms_boot_probe_failed q = ms_boot_probe_failed s" "ms_tick_counter q = ms_tick_counter s"
    "length (ms_rx_buffer q) \<le> 260"
proof -
  obtain fs errs rest where d: "drain (drain_into reads (ms_rx_buffer s)) = (fs, errs, rest)"
    by (cases "drain (drain_into reads (ms_rx_buffer s))")
  define e where "e = expire_arm_switch now_ns (fold (\<lambda>(i, f). note_rc (clk i) f) (enumerate 0 fs)
    (s\<lparr> ms_rx_buffer := rest, ms_parse_errors := ms_parse_errors s + of_nat errs \<rparr>))"
  have e: "ms_open e" "ms_line e = ms_line s" "ms_tx_ratio e = ms_tx_ratio s" "ms_writes_succeeded e = ms_writes_succeeded s"
    "ms_boot_probe_failed e = ms_boot_probe_failed s" "ms_tick_counter e = ms_tick_counter s" "ms_rx_buffer e = rest"
    using assms(1) by (simp_all add: e_def poll_frame)
  have q: "q = snd (write_frame w (encode_request MSP_RC []) e)"
    using assms(1) d by (simp add: q_def poll_msp_rc_def e_def)
  have l: "length rest \<le> 260" using drain_left[of "drain_into reads (ms_rx_buffer s)"] d by simp
  show "\<exists>n. ms_line q = ms_line s @ take n (encode_request MSP_RC [])"
    "ms_tx_ratio q = ms_tx_ratio s" "ms_writes_succeeded q = ms_writes_succeeded s"
    "ms_boot_probe_failed q = ms_boot_probe_failed s" "ms_tick_counter q = ms_tick_counter s"
    "length (ms_rx_buffer q) \<le> 260"
    by (rule_tac [!] write_frame_open[OF e(1), of w "encode_request MSP_RC []"])
      (auto simp: q e l intro: exI[of _ "length (encode_request MSP_RC [])"])
qed

definition channel_frame :: "bf_command \<Rightarrow> byte list" where
  "channel_frame c = encode_set_raw_rc [bf_roll c, bf_pitch c, bf_throttle c, bf_yaw c,
     bf_aux1 c, bf_aux2 c, bf_aux3 c, bf_aux4 c]"

definition ratio_step :: "bool \<Rightarrow> pyfloat \<Rightarrow> pyfloat" where
  "ratio_step success r = fadd (fmul (fsub (Fin 1) kTxRatioAlpha) r) (fmul kTxRatioAlpha (Fin (if success then 1 else 0)))"

lemma poll_closed: "\<not> ms_open s \<Longrightarrow> poll_msp_rc w reads clk now_ns s = s"
  by (simp add: poll_msp_rc_def)

lemma write_shape:
  fixes c :: bf_command and a :: line_answers
  assumes "ms_open s"
  defines "s' \<equiv> writeChannels c a s"
  obtains (sent_all) n where "ms_writes_succeeded s' = ms_writes_succeeded s + 1"
      "ms_line s' = ms_line s @ channel_frame c @ take n (encode_request MSP_RC [])"
      "ms_tx_ratio s' = ratio_step True (ms_tx_ratio s)" "ms_boot_probe_failed s' = ms_boot_probe_failed s"
      "ms_tick_counter s' = ms_tick_counter s + 1"
      "if ms_tick_counter s mod kMspRcPollEvery = 0 then length (ms_rx_buffer s') \<le> 260
       else ms_rx_buffer s' = ms_rx_buffer s"
    | (broke_off) i where "ms_writes_succeeded s' = ms_writes_succeeded s" "\<not> ms_open s'"
      "i < length (channel_frame c)" "ms_line s' = ms_line s @ take i (channel_frame c)"
      "ms_tx_ratio s' = ratio_step False (ms_tx_ratio s)" "ms_boot_probe_failed s' = ms_boot_probe_failed s"
      "ms_tick_counter s' = ms_tick_counter s + 1"
proof -
  let ?s1 = "s\<lparr> ms_writes_attempted := ms_writes_attempted s + 1 \<rparr>"
  have o: "ms_open ?s1" using assms(1) by simp
  show thesis
  proof (cases rule: write_frame_open[OF o, of "la_write a" "channel_frame c"])
    case 1
    let ?s4 = "?s1\<lparr> ms_line := ms_line s @ channel_frame c, ms_writes_succeeded := ms_writes_succeeded s + 1,
      ms_tx_ratio := ratio_step True (ms_tx_ratio s) \<rparr>"
    let ?q = "poll_msp_rc (la_query a) (la_reads a) (la_clock a) (la_now a) ?s4"
    have e: "s' = (if ms_tick_counter s mod kMspRcPollEvery = 0
        then ?q\<lparr> ms_tick_counter := ms_tick_counter ?q + 1 \<rparr> else ?s4\<lparr> ms_tick_counter := ms_tick_counter s + 1 \<rparr>)"
      using assms(1) 1 by (simp add: s'_def writeChannels_def Let_def channel_frame_def ratio_step_def)
    have o4: "ms_open ?s4" using assms(1) by simp
    note q = poll_shape[OF o4, of "la_query a" "la_reads a" "la_clock a" "la_now a"]
    obtain n where n: "ms_line ?q = ms_line ?s4 @ take n (encode_request MSP_RC [])" using q(1) by blast
    show thesis
    proof (cases "ms_tick_counter s mod kMspRcPollEvery = 0")
      case True
      then show thesis using e n q(2-) by (intro sent_all[of n]) simp_all
    next
      case False
      then show thesis using e by (intro sent_all[of 0]) simp_all
    qed
  next
    case (2 i)
    let ?s4 = "?s1\<lparr> ms_line := ms_line s @ take i (channel_frame c), ms_open := False,
      ms_tx_ratio := ratio_step False (ms_tx_ratio s) \<rparr>"
    have "s' = ?s4\<lparr> ms_tick_counter := ms_tick_counter s + 1 \<rparr>"
      using assms(1) 2 poll_closed[of ?s4] by (simp add: s'_def writeChannels_def Let_def channel_frame_def ratio_step_def)
    then show thesis using 2 by (intro broke_off[of i]) simp_all
  qed
qed

lemma write_closed: "\<not> ms_open s \<Longrightarrow> writeChannels c a s = s"
  by (simp add: writeChannels_def)

subsection \<open>The transmit ratio\<close>

lemma alpha_value: "kTxRatioAlpha = Fin (3602879701896397 / 2 ^ 56)"
proof -
  have p: "(2::real) powr (- 5) = 1 / 2 ^ 5" "(2::real) powr (- 4) = 1 / 2 ^ 4" "(2::real) powr (- 57) = 1 / 2 ^ 57"
    using two_powr_neg[of 5] two_powr_neg[of 4] two_powr_neg[of 57] by simp_all
  have "\<lfloor>(2::real) ^ 57 / 20\<rfloor> = 7205759403792793" by (simp add: floor_eq_iff)
  then have "rne ((2::real) ^ 57 / 20) = 7205759403792794" by (simp add: rne_def Let_def)
  then have "rnd (1 / 20) = 3602879701896397 / 2 ^ 56" using rnd_binade[of "- 5" "1 / 20"] p by simp
  then show ?thesis unfolding kTxRatioAlpha_def
    using big_bound[of "\<bar>3602879701896397 / 2 ^ 56\<bar>"] by (subst f64_small) simp_all
qed

lemma beta_value: "fsub (Fin 1) kTxRatioAlpha = Fin (8556839292003942 / 2 ^ 53)"
proof -
  let ?x = "68454714336031539 / 2 ^ 56 :: real"
  have p: "(2::real) powr (- 1) = 1 / 2" "(2::real) powr (- 53) = 1 / 2 ^ 53" using two_powr_neg[of 1] two_powr_neg[of 53] by simp_all
  have "\<lfloor>?x * 2 ^ 53\<rfloor> = 8556839292003942" by (simp add: floor_eq_iff)
  then have "rne (?x * 2 ^ 53) = 8556839292003942" by (simp add: rne_def Let_def)
  then have "rnd ?x = 8556839292003942 / 2 ^ 53" using rnd_binade[of "- 1" ?x] p by simp
  then have "f64 ?x = Fin (8556839292003942 / 2 ^ 53)"
    using big_bound[of "\<bar>8556839292003942 / 2 ^ 53\<bar>"] by (subst f64_small) simp_all
  then show ?thesis unfolding alpha_value by (simp add: fsub_def)
qed

lemma ratio_weights:
  obtains a b where "kTxRatioAlpha = Fin a" "fsub (Fin 1) kTxRatioAlpha = Fin b" "rnd a = a" "rnd b = b"
    "0 \<le> a" "0 \<le> b" "a + b \<le> 1"
proof
  show "rnd (3602879701896397 / 2 ^ 56) = 3602879701896397 / 2 ^ 56"
    by (rule rnd_fraction[of 3602879701896397 56]) simp_all
  show "rnd (8556839292003942 / 2 ^ 53) = 8556839292003942 / 2 ^ 53"
    by (rule rnd_fraction[of 8556839292003942 53]) simp_all
qed (use alpha_value beta_value in simp_all)

lemma ratio_in_unit:
  assumes "0 \<le> x" "x \<le> 1"
  shows "\<exists>y. ratio_step ok (Fin x) = Fin y \<and> 0 \<le> y \<and> y \<le> 1"
proof -
  obtain a b where w: "kTxRatioAlpha = Fin a" "fsub (Fin 1) kTxRatioAlpha = Fin b" "rnd a = a" "rnd b = b"
    "0 \<le> a" "0 \<le> b" "a + b \<le> 1" by (rule ratio_weights)
  have bx: "0 \<le> b * x" "b * x \<le> b" using assms w(6) by (simp_all add: mult_left_le)
  have y: "0 \<le> rnd (b * x)" "rnd (b * x) \<le> b" using bx rnd_ge_fix[of 0 "b * x"] rnd_le_fix[OF bx(2) w(4)] by simp_all
  have f1: "f64 (b * x) = Fin (rnd (b * x))"
    using y w(5,7) big_bound[of "\<bar>rnd (b * x)\<bar>"] by (intro f64_small) simp
  have f2: "f64 a = Fin a" using w(3,5-7) by (intro f64_exact) simp_all
  define z where "z = rnd (b * x) + (if ok then a else 0)"
  have "0 \<le> z" "z \<le> 1" using y w(5-7) by (auto simp: z_def)
  then have u: "0 \<le> rnd z" "rnd z \<le> 1" using rnd_in_unit by simp_all
  have "f64 z = Fin (rnd z)" using u big_bound[of "\<bar>rnd z\<bar>"] by (intro f64_small) simp
  then have "ratio_step ok (Fin x) = Fin (rnd z)"
    using f1 f2 by (cases ok) (simp_all add: ratio_step_def w(1) w(2)[unfolded w(1)] z_def)
  with u show ?thesis by blast
qed

subsection \<open>Runs of the loop\<close>

lemma serial_step_writes:
  "serial_step (m, k) j = (m', k') \<Longrightarrow> k' = writeChannels (currentCommand (fm_controller m')) (li_env j) k"
  using loop_on_parts(2)[of msp_view msp_put m k j m' k'] by (simp add: serial_step_def msp_put_def)

text \<open>
  C9: The board gets the channels of the turn. In every turn of the main loop on an open line,
  however the writes are cut short, blocked or interrupted: either the write is counted as a
  success and the line carries the whole frame, which the board reads as the raw channels in the
  order roll, pitch, throttle, yaw and the four auxiliary ones, with the values of the command,
  and after it at most the poll's query; or the line is closed, with a part of the frame on it.
\<close>

theorem board_gets_channels:
  assumes "ms_open k" "serial_step (m, k) j = (m', k')"
  shows "let c = currentCommand (fm_controller m') in
    if ms_writes_succeeded k' = ms_writes_succeeded k + 1
    then \<exists>frame n. ms_line k' = ms_line k @ frame @ take n (encode_request MSP_RC []) \<and>
      map_option (\<lambda>(cmd, b). (cmd, rc_values b)) (request_frame frame) = Some (MSP_SET_RAW_RC,
        [bf_roll c, bf_pitch c, bf_throttle c, bf_yaw c, bf_aux1 c, bf_aux2 c, bf_aux3 c, bf_aux4 c])
    else \<not> ms_open k' \<and> (\<exists>i<length (channel_frame c). ms_line k' = ms_line k @ take i (channel_frame c))"
proof -
  define c where "c = currentCommand (fm_controller m')"
  have k: "k' = writeChannels c (li_env j) k" using serial_step_writes[OF assms(2)] by (simp add: c_def)
  have "channels_safe c"
    using loop_channels_safe[of msp_view msp_put m k j m' k'] assms(2) by (simp add: serial_step_def c_def)
  then have "map_option (\<lambda>(cmd, b). (cmd, rc_values b)) (request_frame (channel_frame c)) = Some (MSP_SET_RAW_RC,
      [bf_roll c, bf_pitch c, bf_throttle c, bf_yaw c, bf_aux1 c, bf_aux2 c, bf_aux3 c, bf_aux4 c])"
    unfolding channel_frame_def
    by (intro raw_rc_read) (simp_all add: channels_safe_def sticks_ok_def rc_in_def rc_consts)
  then show ?thesis unfolding c_def[symmetric] Let_def
    by (cases rule: write_shape[OF assms(1), of c "li_env j", folded k]) (simp, blast, simp, blast)
qed

subsection \<open>What the sink keeps\<close>

definition ratio_ok :: "msp_sink \<Rightarrow> bool" where
  "ratio_ok k = (fle (Fin 0) (ms_tx_ratio k) \<and> fle (ms_tx_ratio k) (Fin 1))"

definition arm_fresh :: "int \<Rightarrow> msp_sink \<Rightarrow> bool" where
  \<comment> \<open>an arm switch that is on was reported on, and not longer than the threshold ago\<close>
  "arm_fresh now_ns k = (ms_arm_switch k \<longrightarrow>
     (\<exists>t. ms_last_reply_ns k = Some t \<and> (now_ns - t) sdiv 1000000 \<le> kArmSwitchStaleMs))"

definition arm_reported :: "msp_sink \<Rightarrow> bool" where
  "arm_reported k = (ms_arm_switch k \<longrightarrow> ms_last_reply_ns k \<noteq> None)"

definition sink_inv :: "msp_sink \<Rightarrow> bool" where
  "sink_inv k = (ratio_ok k \<and> arm_reported k \<and>
     (ms_open k \<and> ms_tick_counter k \<noteq> 0 \<longrightarrow> length (ms_rx_buffer k) \<le> 260))"

lemma write_frame_keeps:
  "ms_arm_switch (snd (write_frame w buf s)) = ms_arm_switch s"
  "ms_last_reply_ns (snd (write_frame w buf s)) = ms_last_reply_ns s"
  "ms_tx_ratio (snd (write_frame w buf s)) = ms_tx_ratio s"
  "ms_tick_counter (snd (write_frame w buf s)) = ms_tick_counter s"
  by (simp_all add: write_frame_def Let_def split_beta)

lemma notes_reported: "arm_reported s \<Longrightarrow> arm_reported (fold (\<lambda>(i, f). note_rc (clk i) f) fs s)"
  by (induction fs arbitrary: s) (auto simp: arm_reported_def note_rc_def)

lemma expired_fresh: "arm_reported s \<Longrightarrow> arm_fresh now_ns (expire_arm_switch now_ns s)"
  by (auto simp: arm_reported_def arm_fresh_def expire_arm_switch_def not_less split: option.splits)

lemma fresh_reported: "arm_fresh now_ns s \<Longrightarrow> arm_reported s"
  by (auto simp: arm_fresh_def arm_reported_def)

lemma poll_fresh:
  assumes "ms_open s" "arm_reported s"
  shows "arm_fresh now_ns (poll_msp_rc w reads clk now_ns s)"
proof -
  obtain fs errs rest where d: "drain (drain_into reads (ms_rx_buffer s)) = (fs, errs, rest)"
    by (cases "drain (drain_into reads (ms_rx_buffer s))")
  let ?s1 = "s\<lparr> ms_rx_buffer := rest, ms_parse_errors := ms_parse_errors s + of_nat errs \<rparr>"
  have "arm_reported ?s1" using assms(2) by (simp add: arm_reported_def)
  then have "arm_fresh now_ns (expire_arm_switch now_ns (fold (\<lambda>(i, f). note_rc (clk i) f) (enumerate 0 fs) ?s1))"
    by (intro expired_fresh notes_reported)
  then show ?thesis using assms(1) d by (simp add: poll_msp_rc_def arm_fresh_def write_frame_keeps)
qed

lemma poll_reported: "arm_reported s \<Longrightarrow> arm_reported (poll_msp_rc w reads clk now_ns s)"
  using poll_fresh fresh_reported poll_closed by metis

lemma write_arm:
  assumes "arm_reported k"
  shows "arm_reported (writeChannels c a k)"
    "ms_open (writeChannels c a k) \<Longrightarrow> ms_tick_counter k mod kMspRcPollEvery = 0 \<Longrightarrow> arm_fresh (la_now a) (writeChannels c a k)"
proof -
  let ?w = "write_frame (la_write a) (channel_frame c) (k\<lparr> ms_writes_attempted := ms_writes_attempted k + 1 \<rparr>)"
  let ?s3 = "if fst ?w then (snd ?w)\<lparr> ms_writes_succeeded := ms_writes_succeeded (snd ?w) + 1 \<rparr> else snd ?w"
  let ?s4 = "?s3\<lparr> ms_tx_ratio := ratio_step (fst ?w) (ms_tx_ratio ?s3) \<rparr>"
  let ?q = "poll_msp_rc (la_query a) (la_reads a) (la_clock a) (la_now a) ?s4"
  have r: "arm_reported ?s4" using assms by (simp add: arm_reported_def write_frame_keeps)
  have t: "ms_tick_counter ?s4 = ms_tick_counter k" by (simp add: write_frame_keeps)
  have e: "writeChannels c a k = (if \<not> ms_open k then k else let s5 = (if ms_tick_counter ?s4 mod kMspRcPollEvery = 0 then ?q else ?s4)
      in s5\<lparr> ms_tick_counter := ms_tick_counter s5 + 1 \<rparr>)"
    by (simp add: writeChannels_def Let_def split_beta channel_frame_def ratio_step_def)
  show "arm_reported (writeChannels c a k)"
    using assms r poll_reported[OF r] unfolding e Let_def by (auto simp: arm_reported_def)
  assume o: "ms_open (writeChannels c a k)" and p: "ms_tick_counter k mod kMspRcPollEvery = 0"
  have ok: "ms_open k" using o by (auto simp: writeChannels_def split: if_splits)
  have "ms_open ?q" using o ok p unfolding e t by (simp add: Let_def)
  then have "ms_open ?s4" using poll_closed by metis
  then show "arm_fresh (la_now a) (writeChannels c a k)"
    using poll_fresh[OF _ r] ok p unfolding e t by (simp add: Let_def arm_fresh_def)
qed

lemma ratio_ok_step:
  assumes "ratio_ok k" "ms_tx_ratio k' = ratio_step b (ms_tx_ratio k)"
  shows "ratio_ok k'"
proof -
  obtain x where "ms_tx_ratio k = Fin x" "0 \<le> x" "x \<le> 1"
    using assms(1) by (auto simp: ratio_ok_def elim: fle_between_Fin)
  then show ?thesis using ratio_in_unit[of x b] assms(2) by (auto simp: ratio_ok_def)
qed

lemma write_bounded:
  assumes "sink_inv k" "ms_open (writeChannels c a k)"
  shows "length (ms_rx_buffer (writeChannels c a k)) \<le> 260"
proof -
  have o: "ms_open k" using assms(2) by (auto simp: writeChannels_def split: if_splits)
  show ?thesis
  proof (cases rule: write_shape[OF o, of c a])
    case (1 n)
    then show ?thesis using assms(1) o by (cases "ms_tick_counter k = 0") (auto simp: sink_inv_def split: if_splits)
  qed (use assms(2) in simp)
qed

lemma sink_inv_step: "sink_inv k \<Longrightarrow> sink_inv (writeChannels c a k)"
proof -
  assume k: "sink_inv k"
  show "sink_inv (writeChannels c a k)"
  proof (cases "ms_open k")
    case True
    have "ratio_ok (writeChannels c a k)"
      by (cases rule: write_shape[OF True, of c a]) (use k in \<open>auto simp: sink_inv_def intro: ratio_ok_step\<close>)
    then show ?thesis using k write_arm(1) write_bounded[OF k] by (simp add: sink_inv_def)
  qed (use k in \<open>simp add: write_closed\<close>)
qed

lemma probe_loop_keeps:
  "ms_tx_ratio (snd (probe_loop cmd polls n s)) = ms_tx_ratio s \<and>
   ms_arm_switch (snd (probe_loop cmd polls n s)) = ms_arm_switch s \<and>
   ms_tick_counter (snd (probe_loop cmd polls n s)) = ms_tick_counter s"
proof (induction cmd polls n s rule: probe_loop.induct)
  case (1 cmd polls n s)
  show ?case
  proof (cases "kProbeTimeoutMs \<le> n \<or> \<not> ms_open s")
    case False
    show ?thesis
    proof (cases "polls n")
      case None
      then show ?thesis using 1(1)[OF False None] False by (subst (1 2 3) probe_loop.simps) simp
    next
      case (Some reads)
      obtain fs errs rest where d: "parse_drain (\<lambda>f. pf_cmd f = cmd) (drain_into reads (ms_rx_buffer s)) = (fs, errs, rest)"
        by (cases "parse_drain (\<lambda>f. pf_cmd f = cmd) (drain_into reads (ms_rx_buffer s))")
      show ?thesis
        using 1(2)[OF False Some d[symmetric] refl refl] False Some d
        by (subst (1 2 3) probe_loop.simps) (simp add: Let_def)
    qed
  qed (subst (1 2 3) probe_loop.simps; simp)+
qed

lemma started_sink: "from_device baud opens boot tuning = Some k \<Longrightarrow> sink_inv k"
proof -
  assume k: "from_device baud opens boot tuning = Some k"
  have n: "ms_tx_ratio new_msp_sink = Fin 1" "\<not> ms_arm_switch new_msp_sink" "ms_tick_counter new_msp_sink = 0"
    by (simp_all add: new_msp_sink_def)
  have "ms_tx_ratio k = Fin 1 \<and> \<not> ms_arm_switch k \<and> ms_tick_counter k = 0"
    using k n by (auto simp: from_device_def run_boot_probe_def run_tuning_probe_def Let_def split_beta
        write_frame_keeps probe_loop_keeps split: if_splits)
  then show "sink_inv k" by (simp add: sink_inv_def ratio_ok_def arm_reported_def)
qed

lemma sink_inv_run: "sink_inv (snd p) \<Longrightarrow> sink_inv (snd (run serial_step p js))"
proof (rule run_invariant[of "\<lambda>p. sink_inv (snd p)"])
  fix q :: "fc_main \<times> msp_sink" and j
  assume "sink_inv (snd q)"
  then show "sink_inv (snd (serial_step q j))"
    using serial_step_writes[of "fst q" "snd q" j] sink_inv_step by (metis prod.collapse)
qed

text \<open>
  C22: The serial sink stays sound. From any start of the device and in every turn of a run: the
  transmit ratio that the telemetry reports is between 0 and 1; while the line is open the
  receive buffer, drained in the first turn and every tenth, holds at most 260 bytes; and after a
  turn with a poll an arm switch that reads as on was reported on by the board within the last
  second.
\<close>

theorem serial_sink_sound:
  assumes "from_device baud opens boot tuning = Some k0" "run serial_step (m0, k0) past = (m, k)"
    and "serial_step (m, k) j = (m', k')"
  shows "fle (Fin 0) (ms_tx_ratio k') \<and> fle (ms_tx_ratio k') (Fin 1) \<and>
    (if ms_open k' then length (ms_rx_buffer k') \<le> 260 \<and>
       (if ms_tick_counter k mod kMspRcPollEvery = 0 then arm_fresh (la_now (li_env j)) k' else True) else True)"
proof -
  have k: "sink_inv k" using sink_inv_run[of "(m0, k0)" past] started_sink[OF assms(1)] assms(2) by simp
  note k' = serial_step_writes[OF assms(3)]
  have "ratio_ok k'" using sink_inv_step[OF k] unfolding k' sink_inv_def by blast
  then show ?thesis
    using write_bounded[OF k] write_arm(2)[of k] k unfolding k' by (auto simp: ratio_ok_def sink_inv_def)
qed

subsection \<open>A failed line\<close>

lemma write_never_recovers: "\<not> msp_ok k \<Longrightarrow> \<not> msp_ok (writeChannels c a k)"
proof -
  assume k: "\<not> msp_ok k"
  show "\<not> msp_ok (writeChannels c a k)"
  proof (cases "ms_open k")
    case True
    then have "ms_boot_probe_failed k" using k by (simp add: msp_ok_def)
    then show ?thesis by (cases rule: write_shape[OF True, of c a]) (simp_all add: msp_ok_def)
  qed (use k in \<open>simp add: write_closed\<close>)
qed

interpretation msp: radio_sink msp_view msp_put
proof
  fix k a t c
  assume "\<not> rs_ok (msp_view k)"
  then show "\<not> rs_ok (msp_view (msp_put a t c k))"
    using write_never_recovers[of k c a] by (simp add: msp_view_def msp_put_def)
qed

subsection \<open>A sample run\<close>

definition sample_boot :: probe_answers where
  "sample_boot = \<lparr> pa_write = (\<lambda>_. Wrote 256), pa_polls = (\<lambda>_. Some [[0x24, 0x4D, 0x3E, 0, 1, 1]]) \<rparr>"

definition sample_tuning :: probe_answers where
  "sample_tuning = \<lparr> pa_write = (\<lambda>_. Wrote 256), pa_polls = (\<lambda>_. Some [[0x24, 0x4D, 0x3E, 0, 111, 111]]) \<rparr>"

definition line_turn :: "(nat \<Rightarrow> write_result) \<Rightarrow> serial_input" where
  "line_turn w = \<lparr> li_dt = Fin (1 / 4), li_cmd = None, li_cmd_age_s = Fin 0,
     li_env = \<lparr> la_write = w, la_query = (\<lambda>_. Wrote 256), la_reads = [], la_clock = (\<lambda>_. 0), la_now = 0 \<rparr> \<rparr>"

lemma write_whole: "w 0 = Wrote n \<Longrightarrow> n \<noteq> 0 \<Longrightarrow> length buf \<le> n \<Longrightarrow> buf \<noteq> [] \<Longrightarrow> write_loop w 0 0 buf = (True, buf)"
  by (subst write_loop.simps) (simp add: kMaxTotal_def, simp add: write_loop.simps)

lemma write_hard: "w 0 = Hard_error \<Longrightarrow> buf \<noteq> [] \<Longrightarrow> write_loop w 0 0 buf = (False, [])"
  by (subst write_loop.simps) (simp add: kMaxTotal_def)

lemma probe_answered:
  assumes "ms_open s" "ms_rx_buffer s = []" "polls 0 = Some [[0x24, 0x4D, 0x3E, 0, cmd, cmd]]"
  shows "probe_loop cmd polls 0 s = (True, s)"
proof -
  let ?b = "[0x24, 0x4D, 0x3E, 0, cmd, cmd] :: byte list"
  have m: "marker ?b" "frame_size ?b \<le> length ?b" by (simp_all add: marker_def frame_size_def)
  have "parse_drain (\<lambda>f. pf_cmd f = cmd) ?b = ([\<lparr> pf_cmd = cmd, pf_payload = [] \<rparr>], 0, [])"
    using drain_frame[OF m, of "\<lambda>f. pf_cmd f = cmd"]
    by (simp add: body_of_def sum_ok_def frame_size_def Let_def split_beta)
  then show ?thesis using assms by (subst probe_loop.simps) (simp add: kProbeTimeoutMs_def Let_def)
qed

lemma sample_device:
  obtains k where "from_device 115200 True sample_boot sample_tuning = Some k" "msp_ok k" "ms_tick_counter k = 0"
    "\<not> ms_tuning_mismatch k" "ms_writes_succeeded k = 0"
proof -
  let ?k1 = "new_msp_sink\<lparr> ms_line := encode_request MSP_API_VERSION [] \<rparr>"
  let ?k2 = "?k1\<lparr> ms_line := encode_request MSP_API_VERSION [] @ encode_request MSP_RC_TUNING [] \<rparr>"
  have b: "run_boot_probe (pa_write sample_boot) (pa_polls sample_boot) new_msp_sink = (True, ?k1)"
    using probe_answered[of ?k1 "pa_polls sample_boot" MSP_API_VERSION]
    by (simp add: run_boot_probe_def write_frame_def new_msp_sink_def sample_boot_def Let_def
        write_whole[of _ 256] encode_request_def MSP_API_VERSION_def)
  have "run_tuning_probe (pa_write sample_tuning) (pa_polls sample_tuning) ?k1 = ?k2"
    using probe_answered[of ?k2 "pa_polls sample_tuning" MSP_RC_TUNING]
    by (simp add: run_tuning_probe_def write_frame_def new_msp_sink_def sample_tuning_def Let_def
        write_whole[of _ 256] encode_request_def MSP_RC_TUNING_def)
  then have "from_device 115200 True sample_boot sample_tuning = Some ?k2"
    using b by (simp add: from_device_def baud_to_speed_def)
  then show thesis by (rule that) (simp_all add: msp_ok_def new_msp_sink_def)
qed

lemma broken_write:
  assumes "ms_open k" "la_write a 0 = Hard_error"
  shows "\<not> msp_ok (writeChannels c a k)"
proof -
  have "channel_frame c \<noteq> []" by (simp add: channel_frame_def encode_set_raw_rc_def encode_request_def Let_def)
  then show ?thesis using assms write_hard[of "la_write a" "channel_frame c"]
    by (simp add: writeChannels_def write_frame_def Let_def poll_closed msp_ok_def flip: channel_frame_def)
qed

theorem board_gets_channels_witness:
  "\<exists>k m' k' c. from_device 115200 True sample_boot sample_tuning = Some k \<and>
     serial_step (new_fc_main new_fc_state, k) (line_turn (\<lambda>_. Wrote 256)) = (m', k') \<and> c = currentCommand (fm_controller m') \<and>
     (if ms_writes_succeeded k' = ms_writes_succeeded k + 1
      then \<exists>frame n. ms_line k' = ms_line k @ frame @ take n (encode_request MSP_RC []) \<and>
        map_option (\<lambda>(cmd, b). (cmd, rc_values b)) (request_frame frame) = Some (MSP_SET_RAW_RC,
          [bf_roll c, bf_pitch c, bf_throttle c, bf_yaw c, bf_aux1 c, bf_aux2 c, bf_aux3 c, bf_aux4 c])
      else \<not> ms_open k' \<and> (\<exists>i<length (channel_frame c). ms_line k' = ms_line k @ take i (channel_frame c)))"
proof -
  obtain k where k: "from_device 115200 True sample_boot sample_tuning = Some k" "msp_ok k" by (rule sample_device)
  obtain m' k' where s: "serial_step (new_fc_main new_fc_state, k) (line_turn (\<lambda>_. Wrote 256)) = (m', k')" by fastforce
  have "ms_open k" using k(2) by (simp add: msp_ok_def)
  from board_gets_channels[OF this s, unfolded Let_def] k(1) s show ?thesis by blast
qed

theorem serial_sink_sound_witness:
  "\<exists>k m' k'. from_device 115200 True sample_boot sample_tuning = Some k \<and>
     serial_step (new_fc_main new_fc_state, k) (line_turn (\<lambda>_. Wrote 256)) = (m', k') \<and>
     fle (Fin 0) (ms_tx_ratio k') \<and> fle (ms_tx_ratio k') (Fin 1) \<and>
     (ms_open k' \<longrightarrow> length (ms_rx_buffer k') \<le> 260 \<and> arm_fresh 0 k')"
proof -
  obtain k where k: "from_device 115200 True sample_boot sample_tuning = Some k" "ms_tick_counter k = 0" by (rule sample_device)
  obtain m' k' where s: "serial_step (new_fc_main new_fc_state, k) (line_turn (\<lambda>_. Wrote 256)) = (m', k')" by fastforce
  have "la_now (li_env (line_turn (\<lambda>_. Wrote 256))) = 0" by (simp add: line_turn_def)
  then show ?thesis
    using serial_sink_sound[OF k(1) _ s, where past = "[]"] k s by (auto split: if_splits)
qed

end
