(* ===== verification/Rc_Sinks.thy ===== *)
theory Rc_Sinks
  imports Fc_Telemetry Rc_Listener Msp_Sink
begin

section \<open>The other radio sinks\<close>

text \<open>
  \<open>src/src/fc/implementation/RcSink.cpp\<close>: the sink that only counts, the CSV recorder, and the sink
  that sends each command as a JSON datagram to the listener of the bench harness; and
  \<open>make_rc_sink_from_env\<close> of \<open>main.cpp\<close>, which chooses among them and the serial sink. What the
  operating system answers is given as data. The theory proves that on any sink the program may
  choose the drone never flies by itself once the sink has failed, and that the listener takes
  every datagram of a run of the main loop. Log lines and the making of directories are left out.
\<close>

subsection \<open>Counting and recording\<close>

record null_sink =
  nk_calls :: "64 word"
  nk_first_logged :: bool

definition null_write :: "null_sink \<Rightarrow> null_sink" where
  "null_write s = s\<lparr> nk_calls := nk_calls s + 1, nk_first_logged := True \<rparr>"

record recording_sink =
  rk_open :: bool                \<comment> \<open>\<open>file_ != nullptr\<close>\<close>
  rk_lines :: "string list"      \<comment> \<open>the lines of the file\<close>
  rk_rows_written :: "64 word"
  rk_rows_lost :: "64 word"

definition csv_header :: string where
  "csv_header = ''timestamp_s,roll,pitch,yaw,throttle,aux1,aux2,aux3,aux4''"

definition channel_list :: "bf_command \<Rightarrow> int list" where
  "channel_list c = [bf_roll c, bf_pitch c, bf_yaw c, bf_throttle c, bf_aux1 c, bf_aux2 c, bf_aux3 c, bf_aux4 c]"

definition new_recording_sink :: "bool \<Rightarrow> recording_sink" where
  \<comment> \<open>whether the directory and the file could be made\<close>
  "new_recording_sink opens = \<lparr> rk_open = opens, rk_lines = (if opens then [csv_header] else []),
     rk_rows_written = 0, rk_rows_lost = 0 \<rparr>"

definition csv_row :: "pyfloat \<Rightarrow> bf_command \<Rightarrow> string" where
  "csv_row t c = concat (fixed6 t # map (\<lambda>v. CHR '','' # dec_int v) (channel_list c))"

definition recording_write :: "bool \<Rightarrow> pyfloat \<Rightarrow> bf_command \<Rightarrow> recording_sink \<Rightarrow> recording_sink" where
  \<comment> \<open>the first argument is whether printing and flushing succeed; a row that fails may be cut short
    in the file and is not kept here\<close>
  "recording_write succeeds t c s =
     (if \<not> rk_open s then s
      else if \<not> succeeds then s\<lparr> rk_rows_lost := rk_rows_lost s + 1, rk_open := False \<rparr>
      else s\<lparr> rk_lines := rk_lines s @ [csv_row t c], rk_rows_written := rk_rows_written s + 1 \<rparr>)"

subsection \<open>Datagrams to the bench harness\<close>

datatype sendto_result =
    Sendto_ok
  | Sendto_soft    \<comment> \<open>\<open>EAGAIN\<close>, \<open>EWOULDBLOCK\<close>, \<open>ENOBUFS\<close> or \<open>EINTR\<close>\<close>
  | Sendto_hard

record fake_sink =
  fk_open :: bool                \<comment> \<open>\<open>socket_fd_ >= 0\<close>\<close>
  fk_seq :: "64 word"
  fk_frames_sent :: "64 word"
  fk_frames_dropped :: "64 word"
  fk_wire :: "string list"       \<comment> \<open>the datagrams sent\<close>

definition new_fake_sink :: "bool \<Rightarrow> bool \<Rightarrow> int \<Rightarrow> fake_sink" where
  \<comment> \<open>whether the host is an IPv4 literal and a socket can be made, and the port\<close>
  "new_fake_sink host_ok socket_ok port =
     \<lparr> fk_open = (\<not> (port \<le> 0 \<or> 65535 < port) \<and> host_ok \<and> socket_ok), fk_seq = 0, fk_frames_sent = 0,
       fk_frames_dropped = 0, fk_wire = [] \<rparr>"

definition rc_text :: "nat \<Rightarrow> pyfloat \<Rightarrow> bf_command \<Rightarrow> string" where
  "rc_text sq t c =
     CHR 0x7B # tel_item ''type'' (CHR 0x22 # ''RC'' @ [CHR 0x22])
     @ CHR '','' # tel_item ''seq'' (dec_nat sq)
     @ CHR '','' # tel_item ''timestamp_s'' (fixed6 t)
     @ CHR '','' # tel_item ''channels''
         (CHR ''['' # dec_int (bf_roll c) @ concat (map (\<lambda>v. CHR '','' # dec_int v) (tl (channel_list c))) @ '']'')
     @ [CHR 0x7D]"

definition fake_write :: "sendto_result \<Rightarrow> pyfloat \<Rightarrow> bf_command \<Rightarrow> fake_sink \<Rightarrow> fake_sink" where
  "fake_write r t c s =
     (if \<not> fk_open s then s
      else let buf = rc_text (unat (fk_seq s)) t c in
        if 256 \<le> length buf then s\<lparr> fk_frames_dropped := fk_frames_dropped s + 1 \<rparr>
        else case r of
               Sendto_soft \<Rightarrow> s\<lparr> fk_frames_dropped := fk_frames_dropped s + 1 \<rparr>
             | Sendto_hard \<Rightarrow> s\<lparr> fk_frames_dropped := fk_frames_dropped s + 1, fk_open := False \<rparr>
             | Sendto_ok \<Rightarrow> s\<lparr> fk_frames_sent := fk_frames_sent s + 1, fk_seq := fk_seq s + 1,
                 fk_wire := fk_wire s @ [buf] \<rparr>)"

subsection \<open>The choice\<close>

datatype any_sink = Null_sink null_sink | Recording_sink recording_sink | Fake_sink fake_sink | Msp_sink msp_sink

fun sink_ok :: "any_sink \<Rightarrow> bool" where
  "sink_ok (Null_sink s) = True"
| "sink_ok (Recording_sink s) = rk_open s"
| "sink_ok (Fake_sink s) = fk_open s"
| "sink_ok (Msp_sink s) = msp_ok s"

record host_answers =
  ho_opens :: "string \<Rightarrow> bool"          \<comment> \<open>whether a log file can be made in a directory\<close>
  ho_ipv4 :: "string \<Rightarrow> bool"
  ho_socket :: bool
  ho_char_device :: "string \<Rightarrow> bool"
  ho_serial :: "string \<Rightarrow> bool"         \<comment> \<open>whether a device can be opened and set up\<close>
  ho_boot :: probe_answers
  ho_tuning :: probe_answers

definition text_or :: "string \<Rightarrow> string option \<Rightarrow> string" where
  "text_or d v = (if set_and_nonempty v then the v else d)"

definition int_or :: "int \<Rightarrow> (int \<Rightarrow> bool) \<Rightarrow> string option \<Rightarrow> int option" where
  \<comment> \<open>a number that must parse whole and lie in a range, or the default when unset\<close>
  "int_or d ok v = (if set_and_nonempty v
     then case from_chars_int (the v) of None \<Rightarrow> None | Some n \<Rightarrow> if ok n then Some n else None
     else Some d)"

definition require_ok :: "any_sink \<Rightarrow> any_sink option" where
  "require_ok s = (if sink_ok s then Some s else None)"

definition make_rc_sink_from_env :: "host_answers \<Rightarrow> (string \<Rightarrow> string option) \<Rightarrow> any_sink option" where
  \<comment> \<open>\<open>None\<close>: the program refuses to start\<close>
  "make_rc_sink_from_env h env =
     (let sink_kind = text_or ''null'' (env ''FC_RC_SINK'') in
      if sink_kind = ''null'' then Some (Null_sink \<lparr> nk_calls = 0, nk_first_logged = False \<rparr>)
      else if sink_kind = ''recording''
      then require_ok (Recording_sink (new_recording_sink (ho_opens h (text_or ''logs/hil'' (env ''FC_RC_LOG_DIR'')))))
      else if sink_kind = ''fake''
      then (case int_or 9101 (\<lambda>p. 0 < p \<and> p \<le> 65535) (env ''FC_RC_FAKE_PORT'') of
              None \<Rightarrow> None
            | Some port \<Rightarrow> require_ok (Fake_sink (new_fake_sink
                (ho_ipv4 h (text_or ''127.0.0.1'' (env ''FC_RC_FAKE_HOST''))) (ho_socket h) port)))
      else if sink_kind = ''msp''
      then (if \<not> set_and_nonempty (env ''FC_RC_DEVICE'') then None
            else let dev = the (env ''FC_RC_DEVICE'') in
              if \<not> ho_char_device h dev then None
              else case int_or 115200 (\<lambda>b. 0 < b) (env ''FC_RC_BAUD'') of
                     None \<Rightarrow> None
                   | Some baud \<Rightarrow>
                       (case from_device baud (ho_serial h dev) (ho_boot h) (ho_tuning h) of
                          None \<Rightarrow> None | Some s \<Rightarrow> require_ok (Msp_sink s)))
      else None)"

lemma made_sink_ok: "make_rc_sink_from_env h env = Some s \<Longrightarrow> sink_ok s"
  by (auto simp: make_rc_sink_from_env_def require_ok_def Let_def split: if_splits option.splits)

subsection \<open>The main loop on the sink chosen\<close>

record sink_answers =
  sa_prints :: bool                  \<comment> \<open>to the recorder\<close>
  sa_sendto :: sendto_result
  sa_line :: line_answers

fun any_view :: "any_sink \<Rightarrow> rc_sink" where
  \<comment> \<open>only the serial sink overrides the rate profile and the ratio\<close>
  "any_view (Msp_sink s) = msp_view s"
| "any_view s = \<lparr> rs_ok = sink_ok s, rs_tuning_mismatch = False, rs_tx_ratio = Fin 1 \<rparr>"

fun any_put :: "sink_answers \<Rightarrow> pyfloat \<Rightarrow> bf_command \<Rightarrow> any_sink \<Rightarrow> any_sink" where
  "any_put a t c (Null_sink s) = Null_sink (null_write s)"
| "any_put a t c (Recording_sink s) = Recording_sink (recording_write (sa_prints a) t c s)"
| "any_put a t c (Fake_sink s) = Fake_sink (fake_write (sa_sendto a) t c s)"
| "any_put a t c (Msp_sink s) = Msp_sink (msp_put (sa_line a) t c s)"

definition any_step :: "fc_main \<times> any_sink \<Rightarrow> sink_answers loop_input \<Rightarrow> fc_main \<times> any_sink" where
  "any_step = loop_on any_view any_put"

lemma any_view_ok: "rs_ok (any_view s) = sink_ok s"
  by (cases s) (simp_all add: msp_view_def)

interpretation any: radio_sink any_view any_put
proof
  fix k a t c
  assume "\<not> rs_ok (any_view k)"
  then show "\<not> rs_ok (any_view (any_put a t c k))" unfolding any_view_ok
    by (cases k) (simp_all add: recording_write_def fake_write_def msp_put_def write_never_recovers)
qed

text \<open>
  C4: On a failed sink the drone never flies by itself again. Whichever sink the environment asks
  for, whenever in a run it has failed, from the next turn on the mode is neither tracking nor
  takeoff, whatever commands come and whatever the operating system answers, and the sink stays
  failed.
\<close>

theorem failed_sink_grounds:
  assumes "controller_from_env e = Some s0" "make_rc_sink_from_env h env = Some k0"
    and "run any_step (new_fc_main s0, k0) past = (m, k)" "\<not> sink_ok k"
    and "run any_step (m, k) later = (m', k')" "later \<noteq> []"
  shows "\<not> needs_msp (controlMode (fm_controller m')) \<and> \<not> sink_ok k'"
  using any.failed_grounds[OF assms(1) assms(3)[unfolded any_step_def] _ assms(5)[unfolded any_step_def] assms(6)]
    assms(4) by (simp add: any_view_ok)

definition sample_host :: host_answers where
  "sample_host = \<lparr> ho_opens = (\<lambda>_. False), ho_ipv4 = (\<lambda>_. False), ho_socket = False, ho_char_device = (\<lambda>_. True),
     ho_serial = (\<lambda>_. True), ho_boot = sample_boot, ho_tuning = sample_tuning \<rparr>"

definition unplugged_turn :: "sink_answers loop_input" where
  "unplugged_turn = \<lparr> li_dt = Fin (1 / 4), li_cmd = Some (frame_of 0 3 None), li_cmd_age_s = Fin 0,
     li_env = \<lparr> sa_prints = False, sa_sendto = Sendto_hard, sa_line = li_env (line_turn (\<lambda>_. Hard_error)) \<rparr> \<rparr>"

theorem failed_sink_grounds_witness:
  "\<exists>s0 k0 m k m' k'. controller_from_env (Some ''1400'') = Some s0 \<and>
     make_rc_sink_from_env sample_host [''FC_RC_SINK'' \<mapsto> ''msp'', ''FC_RC_DEVICE'' \<mapsto> ''/dev/ttyACM0''] = Some k0 \<and>
     sink_ok k0 \<and> run any_step (new_fc_main s0, k0) [unplugged_turn] = (m, k) \<and> \<not> sink_ok k \<and>
     run any_step (m, k) [unplugged_turn] = (m', k') \<and> \<not> needs_msp (controlMode (fm_controller m')) \<and> \<not> sink_ok k'"
proof -
  let ?env = "[''FC_RC_SINK'' \<mapsto> ''msp'', ''FC_RC_DEVICE'' \<mapsto> ''/dev/ttyACM0'']"
  obtain s0 where s0: "controller_from_env (Some ''1400'') = Some s0" using calibrated_startup by blast
  obtain d where d: "from_device 115200 True sample_boot sample_tuning = Some d" "msp_ok d" by (rule sample_device)
  have k0: "make_rc_sink_from_env sample_host ?env = Some (Msp_sink d)"
    using d by (simp add: make_rc_sink_from_env_def sample_host_def text_or_def int_or_def set_and_nonempty_def require_ok_def Let_def)
  obtain m k where r: "run any_step (new_fc_main s0, Msp_sink d) [unplugged_turn] = (m, k)" by fastforce
  obtain m' k' where r': "run any_step (m, k) [unplugged_turn] = (m', k')" by fastforce
  have "loop_on any_view any_put (new_fc_main s0, Msp_sink d) unplugged_turn = (m, k)" using r by (simp add: any_step_def)
  then have k: "k = Msp_sink (writeChannels (currentCommand (fm_controller m)) (sa_line (li_env unplugged_turn)) d)"
    using loop_on_parts(2)[of any_view any_put "new_fc_main s0" "Msp_sink d" unplugged_turn m k] by (simp add: msp_put_def)
  have "\<not> sink_ok k" unfolding k sink_ok.simps
    by (rule broken_write) (use d(2) in \<open>simp_all add: msp_ok_def unplugged_turn_def line_turn_def\<close>)
  from failed_sink_grounds[OF s0 k0 r this r'] this s0 k0 r r' d(2) show ?thesis by (metis list.distinct(1) sink_ok.simps(4))
qed

subsection \<open>What the bench harness hears\<close>

type_synonym rc_item = "nat \<times> pyfloat \<times> bf_command"

definition rc_members :: "nat \<Rightarrow> pyfloat \<Rightarrow> bf_command \<Rightarrow> pydict" where
  \<comment> \<open>the members of a datagram, each number as Python reads its text\<close>
  "rc_members q t c = [(''type'', PStr ''RC''), (''seq'', PInt (int q)), (''timestamp_s'', PFloat (seen6 t)),
     (''channels'', PList (map PInt (channel_list c)))]"

definition rc_doc :: "nat \<Rightarrow> pyfloat \<Rightarrow> bf_command \<Rightarrow> json_doc" where
  \<comment> \<open>specification: the document of a datagram\<close>
  "rc_doc q t c = JObj [(''type'', JStr ''RC''), (''seq'', JInt (int q)), (''timestamp_s'', JDec (fixed6 t)),
     (''channels'', JArr (map JInt (channel_list c)))]"

lemma rc_doc_text: "rc_text q t c = json_text (rc_doc q t c)"
  by (simp add: rc_text_def rc_doc_def tel_item_def dec_int_def channel_list_def)

lemma rc_doc_value: "json_value (rc_doc q t c) = PDict (rc_members q t c)"
  by (simp add: rc_members_def rc_doc_def seen6_def comp_def)

lemma rc_doc_ok: "isfinite t \<Longrightarrow> doc_ok (rc_doc q t c)"
  by (simp add: rc_doc_def plain_text_def doc_decimal list_all_iff del: doc_ok.simps(2))

lemma rc_text_read: "reads_json loads \<Longrightarrow> isfinite t \<Longrightarrow> loads (utf8_ascii (rc_text q t c)) = Some (PDict (rc_members q t c))"
  using reads_jsonD[OF _ rc_doc_ok] by (simp add: rc_doc_text rc_doc_value)

type_synonym fake_input = "tick_input \<times> sendto_result"

definition fake_step :: "fc_main \<times> fake_sink \<Rightarrow> fake_input \<Rightarrow> fc_main \<times> fake_sink" where
  \<comment> \<open>one turn of the main loop on this sink\<close>
  "fake_step = (\<lambda>(m, k) (i, r). let (cmd, m') = main_tick i m
     in (m', fake_write r (td_timestamp_s (telemetryData (fm_controller m'))) cmd k))"

definition turn_item :: "fc_main \<Rightarrow> fake_sink \<Rightarrow> fake_input \<Rightarrow> rc_item list" where
  \<comment> \<open>what a turn sends, if anything\<close>
  "turn_item m k j = (let (c, m') = main_tick (fst j) m; t = td_timestamp_s (telemetryData (fm_controller m'));
       q = unat (fk_seq k)
     in if fk_open k \<and> length (rc_text q t c) < 256 \<and> snd j = Sendto_ok then [(q, t, c)] else [])"

fun rc_stream :: "fc_main \<Rightarrow> fake_sink \<Rightarrow> fake_input list \<Rightarrow> rc_item list" where
  "rc_stream m k [] = []"
| "rc_stream m k (j # js) = (let (m', k') = fake_step (m, k) j in turn_item m k j @ rc_stream m' k' js)"

lemma fake_step_parts:
  assumes "fake_step (m, k) j = (m', k')"
  shows "m' = main_step m (fst j)" "fk_wire k' = fk_wire k @ map (\<lambda>(q, t, c). rc_text q t c) (turn_item m k j)"
    "fk_seq k' = fk_seq k + of_nat (length (turn_item m k j))" "length (turn_item m k j) \<le> 1"
    "list_all (\<lambda>(q, t, c). q = unat (fk_seq k) \<and> channels_safe c \<and>
       t = td_timestamp_s (telemetryData (fm_controller (main_step m (fst j))))) (turn_item m k j)"
proof -
  have c: "channels_safe (fst (main_tick (fst j) m))"
    using step_channels_safe by (simp add: main_tick_def Let_def split_beta)
  show "m' = main_step m (fst j)" "fk_wire k' = fk_wire k @ map (\<lambda>(q, t, c). rc_text q t c) (turn_item m k j)"
    "fk_seq k' = fk_seq k + of_nat (length (turn_item m k j))"
    using assms by (auto simp: fake_step_def turn_item_def main_step_def fake_write_def Let_def split_beta
        split: sendto_result.splits)
  show "length (turn_item m k j) \<le> 1" by (simp add: turn_item_def Let_def split_beta)
  show "list_all (\<lambda>(q, t, c). q = unat (fk_seq k) \<and> channels_safe c \<and>
       t = td_timestamp_s (telemetryData (fm_controller (main_step m (fst j))))) (turn_item m k j)"
    using c by (simp add: turn_item_def main_step_def Let_def split_beta)
qed

lemma rc_stream_wire:
  "fk_wire (snd (run fake_step (m, k) js)) = fk_wire k @ map (\<lambda>(q, t, c). rc_text q t c) (rc_stream m k js)"
proof (induction js arbitrary: m k)
  case (Cons j js)
  obtain m' k' where s: "fake_step (m, k) j = (m', k')" by fastforce
  show ?case using Cons[of m' k'] fake_step_parts(2)[OF s] s by simp
qed simp

lemma upt_first: "[q ..< Suc (q + n)] = q # [Suc q ..< Suc (q + n)]"
  by (simp add: upt_conv_Cons del: upt_Suc)

lemma rc_stream_numbers:
  assumes "unat (fk_seq k) + length js < 2 ^ 64"
  shows "map fst (rc_stream m k js) = [unat (fk_seq k) ..< unat (fk_seq k) + length (rc_stream m k js)] \<and>
    length (rc_stream m k js) \<le> length js"
  using assms
proof (induction js arbitrary: m k)
  case (Cons j js)
  obtain m' k' where s: "fake_step (m, k) j = (m', k')" by fastforce
  note p = fake_step_parts[OF s]
  show ?case
  proof (cases "turn_item m k j")
    case Nil
    then have "fk_seq k' = fk_seq k" using p(3) by simp
    then show ?thesis using Cons.IH[of k' m'] Cons.prems s Nil by auto
  next
    case (Cons x xs)
    then have x: "turn_item m k j = [x]" "fst x = unat (fk_seq k)" using p(4,5) by (cases x; simp)+
    then have "fk_seq k' = fk_seq k + 1" using p(3) by simp
    moreover have "Suc (unat (fk_seq k)) < 2 ^ 64" using Cons.prems by simp
    ultimately have q: "unat (fk_seq k') = Suc (unat (fk_seq k))"
      by (simp add: unat_word_ariths)
    then have "map fst (rc_stream m' k' js) = [Suc (unat (fk_seq k)) ..< Suc (unat (fk_seq k)) + length (rc_stream m' k' js)]"
      "length (rc_stream m' k' js) \<le> length js"
      using Cons.IH[of k' m'] Cons.prems unfolding q by simp_all
    moreover have st: "rc_stream m k (j # js) = x # rc_stream m' k' js" using s x(1) by simp
    ultimately show ?thesis using x(2) unfolding st by (simp add: upt_first del: upt_Suc)
  qed
qed simp

lemma rc_stream_safe: "list_all (\<lambda>(q, t, c). channels_safe c) (rc_stream m k js)"
proof (induction js arbitrary: m k)
  case (Cons j js)
  obtain m' k' where s: "fake_step (m, k) j = (m', k')" by fastforce
  show ?case using Cons[of m' k'] fake_step_parts(5)[OF s] s by (auto simp: list_all_iff)
qed simp

definition clock_ok :: "pyfloat \<Rightarrow> bool" where
  "clock_ok t = (fle (Fin 0) t \<and> fle t (Fin (10 ^ 15)))"

lemma clock_ok_finite: "clock_ok t \<Longrightarrow> isfinite t"
  by (cases t) (simp_all add: clock_ok_def)

definition clock_runs :: "fc_main \<Rightarrow> nat \<Rightarrow> bool" where
  \<comment> \<open>the clock stays in range for that many turns\<close>
  "clock_runs m n = (\<forall>is. length is \<le> n \<longrightarrow> clock_ok (td_timestamp_s (telemetryData (fm_controller (run main_step m is)))))"

lemma clock_runs_step:
  assumes "clock_runs m (Suc n)"
  shows "clock_runs (main_step m i) n" "clock_ok (td_timestamp_s (telemetryData (fm_controller (main_step m i))))"
proof -
  show "clock_runs (main_step m i) n"
    using assms[unfolded clock_runs_def, rule_format, of "i # is" for "is"] by (simp add: clock_runs_def)
  show "clock_ok (td_timestamp_s (telemetryData (fm_controller (main_step m i))))"
    using assms[unfolded clock_runs_def, rule_format, of "[i]"] by simp
qed

lemma started_clock_runs:
  assumes "controller_from_env e = Some s0" "n \<le> 2 ^ 50"
  shows "clock_runs (new_fc_main s0) n" unfolding clock_runs_def
proof (intro allI impI)
  fix "is" :: "tick_input list"
  assume n: "length is \<le> n"
  then obtain x where x: "tel_clock (fm_controller (run main_step (new_fc_main s0) is)) = (Fin x, Fin 0, Fin 0, Fin 0)"
    "0 \<le> x" "x \<le> real (length is) / 4" using main_clock[OF assms(1), of "is"] assms(2) by auto
  have "real (length is) \<le> 2 ^ 50" using n assms(2) of_nat_le_iff[of "length is" "2 ^ 50", where 'a = real] by simp
  then have "x \<le> 10 ^ 15" using x(3) by simp
  then show "clock_ok (td_timestamp_s (telemetryData (fm_controller (run main_step (new_fc_main s0) is))))"
    using x by (simp add: tel_clock_def clock_ok_def)
qed

lemma rc_stream_clock: "clock_runs m (length js) \<Longrightarrow> list_all (\<lambda>(q, t, c). isfinite t) (rc_stream m k js)"
proof (induction js arbitrary: m k)
  case (Cons j js)
  obtain m' k' where s: "fake_step (m, k) j = (m', k')" by fastforce
  note p = fake_step_parts[OF s]
  have c: "clock_runs m (Suc (length js))" using Cons.prems by simp
  have "list_all (\<lambda>(q, t, c). isfinite t) (rc_stream m' k' js)"
    using clock_runs_step(1)[OF c] Cons.IH by (simp add: p(1))
  moreover have "list_all (\<lambda>(q, t, c). isfinite t) (turn_item m k j)"
    using p(5) clock_ok_finite[OF clock_runs_step(2)[OF c, of "fst j"]] by (auto simp: list_all_iff)
  ultimately show ?case using s by simp
qed simp

text \<open>A datagram always fits the buffer of 256 bytes.\<close>

lemma rc_text_fits:
  assumes "q < 2 ^ 64" "clock_ok t" "channels_safe c"
  shows "length (rc_text q t c) < 256"
proof -
  obtain x where x: "t = Fin x" "0 \<le> x" "x \<le> 10 ^ 15" using assms(2) by (auto simp: clock_ok_def elim: fle_between_Fin)
  have "length (fixed6 t) \<le> 24" using fixed6_length[of x 15] x by simp
  moreover have "length (dec_nat q) \<le> 20" using assms(1) by (intro length_dec_nat) simp_all
  moreover have d: "length (dec_int v) \<le> 4" if "rc_in v" for v
  proof -
    have "0 \<le> v" "nat v < 10 ^ 4" using that by (auto simp: rc_in_def rc_consts)
    then show ?thesis using length_dec_nat[of "nat v" 4] by (simp add: dec_int_def)
  qed
  have "length (dec_int (bf_roll c)) \<le> 4" "length (dec_int (bf_pitch c)) \<le> 4" "length (dec_int (bf_yaw c)) \<le> 4"
    "length (dec_int (bf_throttle c)) \<le> 4" "length (dec_int (bf_aux1 c)) \<le> 4" "length (dec_int (bf_aux2 c)) \<le> 4"
    "length (dec_int (bf_aux3 c)) \<le> 4" "length (dec_int (bf_aux4 c)) \<le> 4"
    using assms(3) by (auto simp: channels_safe_def sticks_ok_def intro!: d)
  ultimately show ?thesis unfolding rc_text_def channel_list_def tel_item_def by simp
qed

definition accepted_sends :: "fake_input list \<Rightarrow> nat" where
  \<comment> \<open>the sends that succeed before the socket fails\<close>
  "accepted_sends js = length (filter (\<lambda>j. snd j = Sendto_ok) (takeWhile (\<lambda>j. snd j \<noteq> Sendto_hard) js))"

lemma rc_stream_closed: "\<not> fk_open k \<Longrightarrow> rc_stream m k js = []"
proof (induction js arbitrary: m k)
  case (Cons j js)
  obtain m' k' where s: "fake_step (m, k) j = (m', k')" by fastforce
  have "k' = k" using s Cons.prems by (auto simp: fake_step_def fake_write_def split_beta)
  then show ?case using Cons s by (simp add: turn_item_def Let_def split_beta)
qed simp

lemma rc_stream_length:
  assumes "fk_open k" "clock_runs m (length js)"
  shows "length (rc_stream m k js) = accepted_sends js"
  using assms
proof (induction js arbitrary: m k)
  case (Cons j js)
  obtain m' k' where s: "fake_step (m, k) j = (m', k')" by fastforce
  obtain i r where j: "j = (i, r)" by fastforce
  let ?c = "fst (main_tick i m)" and ?t = "td_timestamp_s (telemetryData (fm_controller (main_step m i)))"
  have c: "clock_runs m (Suc (length js))" using Cons.prems by simp
  have "channels_safe ?c" using step_channels_safe by (simp add: main_tick_def Let_def split_beta)
  then have l: "length (rc_text (unat (fk_seq k)) ?t ?c) < 256"
    using clock_runs_step(2)[OF c] unsigned_less[of "fk_seq k", where ?'a = nat] by (intro rc_text_fits) simp_all
  have t: "turn_item m k j = (if r = Sendto_ok then [(unat (fk_seq k), ?t, ?c)] else [])"
    using l Cons.prems(1) j by (simp add: turn_item_def main_step_def Let_def split_beta)
  have o: "fk_open k' = (r \<noteq> Sendto_hard)"
    using s l Cons.prems(1) j by (auto simp: fake_step_def fake_write_def main_step_def Let_def split_beta split: sendto_result.splits)
  have n: "clock_runs m' (length js)" using clock_runs_step(1)[OF c, of i] fake_step_parts(1)[OF s] j by simp
  show ?case
  proof (cases "r = Sendto_hard")
    case True
    then show ?thesis using s t o j by (simp add: rc_stream_closed accepted_sends_def)
  next
    case False
    then show ?thesis using Cons.IH[of k' m'] s t o j n by (simp add: accepted_sends_def)
  qed
qed (simp add: accepted_sends_def)

lemma rc_decoded: "decode_frame (Some (PDict (rc_members q t c))) = Some \<lparr> rc_seq = int q, rc_channels = channel_list c \<rparr>"
  by (simp add: decode_frame_def rc_members_def EXPECTED_FIELDS_def dhas_def dget_def int_val_def channel_list_def
      List.map_filter_simps)

definition datagrams :: "rc_event list \<Rightarrow> nat list list" where
  "datagrams es = List.map_filter (\<lambda>(_, ev). map_option snd ev) es"

definition after_frames :: "int \<Rightarrow> run_stats \<Rightarrow> bool" where
  \<comment> \<open>all is well, and the last number seen is the one before\<close>
  "after_frames q st = (decode_errors st = 0 \<and> out_of_band st = 0 \<and> seq_gaps st = 0 \<and> received st = q \<and>
     (if q = 0 then seq_first st = None else seq_first st = Some 0 \<and> seq_last st = Some (q - 1)))"

lemma take_decoded:
  assumes "after_frames (int q) st" "loads d = Some (PDict (rc_members q t c))" "channels_safe c"
  shows "\<exists>st'. take_datagram loads a now_s d st = Inr st' \<and> after_frames (int (Suc q)) st'"
proof -
  have "list_all is_in_band (channel_list c)"
    using assms(3) by (simp add: channel_list_def is_in_band_def RC_MIN_US_def RC_MAX_US_def channels_safe_def sticks_ok_def
        rc_in_def rc_consts)
  then show ?thesis using assms(1)
    by (cases "q = 0") (simp_all add: take_datagram_def assms(2) rc_decoded note_arrival_def note_seq_def after_frames_def Let_def)
qed

lemma loop_decoded:
  assumes "datagrams es = map (\<lambda>(q, t, c). utf8_ascii (rc_text q t c)) its"
    and "map fst its = [q0 ..< q0 + length its]" "list_all (\<lambda>(q, t, c). channels_safe c) its"
    and "list_all (\<lambda>(q, t, c). loads (utf8_ascii (rc_text q t c)) = Some (PDict (rc_members q t c))) its"
    and "list_all (\<lambda>(t, _). flt t deadline) es" "after_frames (int q0) st"
  shows "\<exists>st'. rc_loop loads a deadline es st = Inr st' \<and> after_frames (int (q0 + length its)) st'"
  using assms
proof (induction es arbitrary: its q0 st)
  case Nil
  then show ?case by (simp add: datagrams_def List.map_filter_simps)
next
  case (Cons e es)
  obtain t ev where e: "e = (t, ev)" by fastforce
  show ?case
  proof (cases ev)
    case None
    then show ?thesis using Cons e by (simp add: datagrams_def List.map_filter_simps)
  next
    case (Some x)
    obtain now_s d where x: "x = (now_s, d)" by fastforce
    obtain q tm c its' where its: "its = (q, tm, c) # its'" "d = utf8_ascii (rc_text q tm c)"
      "datagrams es = map (\<lambda>(q, t, c). utf8_ascii (rc_text q t c)) its'"
      using Cons.prems(1) e Some x by (cases its) (auto simp: datagrams_def List.map_filter_simps)
    have q: "q = q0" "map fst its' = [Suc q0 ..< Suc q0 + length its']"
      using Cons.prems(2) unfolding its(1) by (simp_all add: upt_first del: upt_Suc)
    obtain st1 where s1: "take_datagram loads a now_s d st = Inr st1" "after_frames (int (Suc q0)) st1"
      using take_decoded[of q0 st loads d tm c a now_s] Cons.prems(3,4,6) its q(1) by auto
    have "\<exists>st'. rc_loop loads a deadline es st1 = Inr st' \<and> after_frames (int (Suc q0 + length its')) st'"
      by (rule Cons.IH[OF its(3) q(2) _ _ _ s1(2)]) (use Cons.prems(3-5) its(1) in simp_all)
    then show ?thesis using Cons.prems(5) e Some x s1(1) its(1) by simp
  qed
qed

text \<open>
  C21: The bench harness accepts what the flight controller sends. For any run of the main loop of
  up to \<open>2^50\<close> turns on the datagram sink, however sends are refused or the socket fails, a datagram
  goes out for each send that succeeds before a failure; and a listener that gets them, in order
  and within its window, with any reader that turns the text of a JSON document into its value, goes
  through them all without stopping, with no decoding error, no gap in the numbers and no channel out
  of band.
\<close>

theorem harness_accepts_stream:
  assumes "controller_from_env e = Some s0" "run fake_step (new_fc_main s0, new_fake_sink True True 9101) js = (m, k)"
    and "length js \<le> 2 ^ 50" "reads_json loads"
    and "datagrams es = map utf8_ascii (fk_wire k)" "list_all (\<lambda>(t, _). flt t deadline) es"
  shows "length (fk_wire k) = accepted_sends js \<and>
    (\<exists>st. rc_loop loads a deadline es new_stats = Inr st \<and> received st = int (accepted_sends js) \<and>
       decode_errors st = 0 \<and> seq_gaps st = 0 \<and> out_of_band st = 0)"
proof -
  let ?k = "new_fake_sink True True 9101" and ?its = "rc_stream (new_fc_main s0) (new_fake_sink True True 9101) js"
  have r: "clock_runs (new_fc_main s0) (length js)" by (rule started_clock_runs[OF assms(1,3)])
  have f: "list_all (\<lambda>(q, t, c). isfinite t) ?its" by (rule rc_stream_clock[OF r])
  have l: "length ?its = accepted_sends js" by (rule rc_stream_length[OF _ r]) (simp add: new_fake_sink_def)
  have w: "fk_wire k = map (\<lambda>(q, t, c). rc_text q t c) ?its"
    using rc_stream_wire[of "new_fc_main s0" ?k js] assms(2) by (simp add: new_fake_sink_def)
  have n: "map fst ?its = [0 ..< 0 + length ?its]"
    using rc_stream_numbers[of ?k js "new_fc_main s0"] assms(3) by (simp add: new_fake_sink_def)
  have "\<exists>st. rc_loop loads a deadline es new_stats = Inr st \<and> after_frames (int (0 + length ?its)) st"
    by (rule loop_decoded[OF _ n rc_stream_safe _ assms(6)])
      (use assms(5) f w rc_text_read[OF assms(4)] in
        \<open>auto simp: list_all_iff comp_def split_beta after_frames_def new_stats_def\<close>)
  then show ?thesis using w l by (auto simp: after_frames_def)
qed

theorem harness_accepts_stream_witness:
  "\<exists>m k st. run fake_step (new_fc_main (setControlMode CM_LandSafely new_fc_state), new_fake_sink True True 9101)
       [(turn None (Fin 0), Sendto_ok), (turn None (Fin 0), Sendto_soft)] = (m, k) \<and>
     rc_loop json_reader sample_rc_args (Fin 4) (map (\<lambda>d. (Fin 1, Some (Fin 1, utf8_ascii d))) (fk_wire k)) new_stats = Inr st \<and>
     length (fk_wire k) = 1 \<and> received st = 1 \<and> decode_errors st = 0"
proof -
  let ?m0 = "new_fc_main (setControlMode CM_LandSafely new_fc_state)" and ?k0 = "new_fake_sink True True 9101"
  let ?js = "[(turn None (Fin 0), Sendto_ok), (turn None (Fin 0), Sendto_soft)]"
  obtain m k where r: "run fake_step (?m0, ?k0) ?js = (m, k)" by fastforce
  have "datagrams (map (\<lambda>d. (Fin 1, Some (Fin 1, utf8_ascii d))) (fk_wire k)) = map utf8_ascii (fk_wire k)"
    by (simp add: datagrams_def List.map_filter_def comp_def)
  moreover have "accepted_sends ?js = 1" by (simp add: accepted_sends_def)
  ultimately show ?thesis
    using harness_accepts_stream[OF sample_startup r, where loads = json_reader and deadline = "Fin 4"
        and a = sample_rc_args and es = "map (\<lambda>d. (Fin 1, Some (Fin 1, utf8_ascii d))) (fk_wire k)"] r json_reader_reads
    by (force simp: list_all_iff)
qed

end
