(* ===== verification/Spec2Isabelle.thy ===== *)
theory Spec2Isabelle
  imports Cmd_Bridge Broadcast Rate_Limit Video_Hub Vision_Pipeline Opencv_Tracker Simple_Tracker
    Patterns Senders Camera App_Ws Synthetic_Video Backend_Run Live_Feed
    Mission_Log Dev_Tools Flight_Steering Fc_Chain Rc_Sinks
begin

text \<open>
  AOT_DRONE: an operator's backend, a vision process and a flight controller for a drone. This
  development models the Python code of the repository, which is the backend
  (\<open>src/src/backend\<close>), the vision process (\<open>src/src/vision\<close>) and the developers' tools
  (\<open>src/scripts/dev\<close>), and the C++ flight controller (\<open>src/src/fc\<close>) that obeys the backend's
  commands.

  \<^bold>\<open>The parts and how they interact.\<close> The flight controller sends telemetry (TEL) and the vision
  process sends target messages (VIS) as UDP datagrams of JSON; the backend validates them and
  keeps the latest of each in one \<open>SharedState\<close>. Operators post intents over HTTP. A bridge thread
  ticks at a fixed rate, reads the intent and the vision message, and sends a command (CMD) as a
  length-prefixed frame over TCP to the flight controller. There a server thread keeps the last
  command; the main loop, 50 times a second, applies it if its number is new, lands when the link
  is stale or the radio sink degraded, runs the control tick of the current mode, hands the
  channels to the sink and sends the telemetry. A broadcaster pushes updates and warnings
  to WebSocket clients. The vision process also posts JPEG frames, which the backend serves as a
  video stream.

  \<^bold>\<open>Theories.\<close>
  \<^item> Foundations. \<open>Drone_Prelude\<close>: results of code that may raise (\<open>error + 'a\<close>), stateful steps
    (\<open>eff\<close>), runs over lists, named theorem collections. \<open>Py_Float\<close>: binary64 as reals, infinities
    and NaN, with rounding. \<open>Py_Value\<close>: JSON values, dictionaries and exceptions. \<open>Py_Text\<close>: numbers
    read from text. \<open>Json_Text\<close>: \<open>json.dumps\<close>. \<open>Json_Reader\<close>: the contract of \<open>json.loads\<close> on the text
    of JSON documents, with a reader that meets it.
  \<^item> Backend state (\<open>state.py\<close>). \<open>Cmd_Seq\<close>: 31-bit sequence numbers, and the comparator of the
    flight controller (\<open>CmdSeq.h\<close>) on 32-bit words. \<open>Shared_State\<close>: every mutating method over a
    record with every field. \<open>State_Views\<close>: the readers.
  \<^item> Input. \<open>Tel_Schema\<close>, \<open>Vis_Schema\<close>: validation. \<open>Reason_Log\<close>: throttled logging. \<open>Ingest\<close>: the
    datagram handlers and the receive loop. \<open>App_Api\<close>: token, rate limits (\<open>Rate_Limit\<close>) and the
    intent route of \<open>app.py\<close>.
  \<^item> Output. \<open>Cmd_Schema\<close>: the command message, its frame, and the flight controller's reader
    (\<open>FrameCodec.cpp\<close>). \<open>Cmd_Bridge\<close>: the bridge thread. \<open>Ws_Manager\<close>, \<open>Broadcast\<close>, \<open>App_Ws\<close>: the
    WebSocket side. \<open>Video_Hub\<close>, \<open>App_Video\<close>, \<open>Synthetic_Video\<close>: frames in, stream
    out.
  \<^item> Process. \<open>Protocol_Constants\<close>, \<open>App_Startup\<close>: settings from the environment, construction of the
    components, status routes. \<open>Whole_System\<close>, \<open>Backend_Run\<close>: handlers and bridge on one state.
    \<open>Live_Feed\<close>: the callbacks from the ingestors and the bridge to the broadcaster.
  \<^item> Vision. \<open>Vis_Types\<close>, \<open>Yolo_Detector\<close>, \<open>Simple_Tracker\<close>, \<open>Opencv_Tracker\<close>, \<open>Vision_Pipeline\<close>,
    \<open>Patterns\<close>, \<open>Camera\<close>, \<open>Publishers\<close>, \<open>Senders\<close>, \<open>Overlay\<close>: one theory per module.
    \<open>Vision_Args\<close>, \<open>Vision_Setup\<close>, \<open>Vision_Main\<close>: options, construction and main loop of \<open>main.py\<close>.
  \<^item> Flight controller. \<open>Rc_Math\<close>: channel arithmetic (\<open>RcMath.h\<close>, \<open>Clamp.h\<close>). \<open>Flight_Control\<close>:
    \<open>FlightController.cpp\<close>, every operation; \<open>Flight_Modes\<close>: its invariant \<open>fc_ok\<close>;
    \<open>Flight_Missions\<close>: landing and takeoff over many ticks; \<open>Flight_Steering\<close>: tracking mode.
    \<open>Fc_Parser\<close>: the JSON scanner of \<open>CommandReceiver.cpp\<close>; \<open>Fc_Link\<close>: that it reads what the
    backend writes. \<open>Fc_Server\<close>: \<open>CommandServer.cpp\<close>. \<open>Fc_Main\<close>: one turn of \<open>main.cpp\<close>, its settings
    and its telemetry text; \<open>Fc_Failsafe\<close>: the invariant of the loop, its latches and the commands it
    obeys; \<open>Fc_Telemetry\<close>: that the backend accepts its telemetry; \<open>Fc_Chain\<close>: from the backend's
    command to the channels. \<open>Rc_Loop\<close>: the loop on any radio sink (\<open>IRcSink\<close>). \<open>Msp_Framing\<close>, \<open>Msp_Sink\<close>: the serial protocol of the Betaflight board and
    the sink that speaks it (\<open>MspFraming.cpp\<close>, \<open>MspRcSink.cpp\<close>); \<open>Rc_Sinks\<close>:
    the other sinks of \<open>RcSink.cpp\<close>, the choice among them, and that the bench listener accepts
    what the datagram sink sends.
  \<^item> Tools. \<open>Rc_Listener\<close>, \<open>Vis_Replay\<close>, \<open>Hover_Cal\<close>, \<open>Smoke_Test\<close>, \<open>Mission_Log\<close>, and \<open>Tool_Args\<close>,
    \<open>Dev_Tools\<close>: their command lines and main functions.

  \<^bold>\<open>How code becomes definitions.\<close> An object is a record and a method a function from the record to
  the record and a result; an exception is a value of \<open>pyexc\<close>. A method that holds a lock is one
  atomic step. What other threads do between two accesses of the shared state is a list of steps
  given as data (\<open>before_vis\<close>, \<open>before_age\<close>, \<open>others\<close>), so a statement over all such lists covers
  every interleaving. A loop runs over the list of what it observes in each iteration (clock
  readings, datagrams, socket outcomes, frames); the list is finite because the observation is, and
  a statement for all lists holds at every moment of a run. No fuel is used in the model (the bounds of the flight
  controller's retry and probe loops are the code's own); the loops that end on
  their own (\<open>stream_parts\<close>, \<open>loop_frames\<close>) have theorems that what follows in the list is not
  looked at; the recursion of the sample reader in \<open>Json_Reader\<close> alone is bounded, by twice the length of
  the text, which is proved to be enough. Whoever calls the flight controller's methods is a list of calls (\<open>fc_call\<close>), and the
  main loop runs over a list of turns (\<open>tick_input\<close>: the step length, the server's command and its
  age, the sink's health). The length of a landing or a takeoff is counted in ticks of at least
  1/64 s (\<open>long_ticks\<close>), which the 20 ms of the loop are: 320 of them make the 5 s of the landing
  timer, and 224 make 3.5 s, more than the 3.4 s of spool-up, ramp and hold with their
  rounding.

  \<^bold>\<open>What the lemmas show.\<close> Each component has lemmas for every branch of its operations and an
  invariant that its operations keep. Interfaces are locales: \<open>seq_source\<close> (numbers that advance
  under interleaving), \<open>ingest_channel\<close> (counting of datagrams), \<open>throttled_log\<close>, \<open>keyed_objects\<close>
  (independence of keys), \<open>drop_oldest_queue\<close>, \<open>emission_gate\<close>, \<open>tracker_contract\<close>,
  \<open>radio_sink\<close> (a failed sink stays so, and grounds the drone); each is interpreted on the code's
  own definitions, some on two of them. The properties below and in the
  component theories carry their number in the text before them.

  \<^bold>\<open>Parameters.\<close> \<open>json.loads\<close> (from bytes to a value or an error), of which the theorems that need it
  use that it undoes the encoder or, for texts the flight controller assembles itself, that it reads the text of any JSON
  document as its value (\<open>reads_json\<close>), the shortest representation of a
  float (\<open>fr\<close>), sine and square root, OpenCV, YOLO, sockets and the HTTP client are arguments. Of
  \<open>fr\<close> the theorems on the command link use that what it prints is a number the scanner reads back
  (\<open>fc_readable\<close>).

  \<^bold>\<open>Conventions.\<close> Strings are lists of code points below 256. The sign of zero is not modelled.
  \<open>int(text)\<close> has no limit on the number of digits. The flight controller's channel values are
  integers with the invariant that they fit \<open>uint16_t\<close>; its \<open>double\<close>s are those of \<open>Py_Float\<close>, and
  its lock-protected readers and writers are atomic. FastAPI's routing, pydantic's parsing of a
  request body and argparse's splitting of a command line happen before the modelled functions.

  \<^bold>\<open>Not modelled.\<close> Creation and joining of threads (their loops are), what OpenCV and Pillow draw,
  the flight controller's socket and serial-line settings, its signals and the pacing of its loop,
  all log lines, the web application, and the tests.
\<close>

section \<open>Properties that span components\<close>

text \<open>
  C17: The handlers refine the shared state's steps. Whatever datagrams and requests arrive, in
  any order, what the handlers leave in the shared state is what the specified operations leave: a
  datagram is counted as received once, and then counted as dropped, as too long, as no JSON or for
  the reason its check gives, or counted as good and stored as the message the check returns with
  its time; an intent is stored with its time if and only if its caller has the token, the rate
  limit lets it pass and its mode is one of the four, and anything else leaves the state as it was.
  Each of these operations is one that another thread of the backend may see: a counter, a
  validated message or a checked intent.
\<close>

theorem handlers_refine:
  "sy_state (run (system_step c loads) y evs) = run state_step (sy_state y) (ops_of c loads y evs) \<and>
   list_all feed_op (ops_of c loads y evs)"
  by (rule system_run_ops)



text \<open>
  C18: The types of what the backend holds. Whatever comes in from the network, at every moment
  of a run the stored telemetry and vision message have exactly the required fields, each with its
  type; control mode and tracking state are in their enumerations, target coordinates in
  \<open>[-1, 1]\<close>, box sides and confidence in \<open>[0, 1]\<close> (so no NaN among them), and outside the Tracking
  state the vision target is exactly zero; the stored intent has a mode of the four and its setpoints are absent or
  an object; and the next sequence number is in range. What the code does not check is not
  claimed: timestamps, distances and setpoints may be any float, NaN and infinities included, and
  the sequence numbers of messages any integer.
\<close>

theorem stored_data_typed:
  assumes "startup env clk s0 = Inr be" "be_bridge be = Some (cfg, b0)" "config_ok cfg"
    and "backend_run c loads cfg fr per actions (y, bridge_set_fc_connected False b0) = (x, y', b)"
  shows "(case latest_tel (bst b) of None \<Rightarrow> True | Some t \<Rightarrow> tel_wf t) \<and>
    (case latest_vis (bst b) of None \<Rightarrow> True | Some v \<Rightarrow> vis_wf v) \<and>
    (case latest_intent (bst b) of None \<Rightarrow> True | Some i \<Rightarrow> intent_wf i) \<and> seq_range (cmd_next_seq (bst b))"
proof -
  have "stored_wf (bst b)"
    using backend_run_inv[OF assms(3) started_backend_inv[OF assms(1-3)], of c loads fr per actions y] assms(4)
    by (auto simp: backend_inv_def)
  then show ?thesis by (auto simp: stored_wf_def feed_wf_def split: option.splits)
qed

definition seen_box :: norm_bbox where
  "seen_box = \<lparr> cx = Fin (1 / 2), cy = Fin (1 / 2), nw = Fin (1 / 4), nh = Fin (1 / 4) \<rparr>"

definition seen_payload :: pydict where
  "seen_payload = build_vis_payload 3 (Fin 1) TRACKING seen_box (Fin 1)"

definition track_intent :: intent_request where
  "track_intent = \<lparr> desired_mode = 1, arm = Some True, setpoints = None \<rparr>"

theorem stored_data_typed_witness:
  "\<exists>be cfg b0 y' b. startup (\<lambda>_. None) (Fin 12) (fresh_state 7) = Inr be \<and> be_bridge be = Some (cfg, b0) \<and>
     backend_run \<lparr> sc_tel = the (be_tel be), sc_vis = (the (be_vis be))\<lparr> max_bytes := 4096 \<rparr>, sc_token = None, sc_limiter = None \<rparr>
       (\<lambda>_. Some (PDict seen_payload)) cfg (\<lambda>_. ''0.5'') (Fin (1 / 50))
       [Handle (VisDatagram [0] (Fin 1) (Fin 1)),
        Handle (IntentPost \<lparr> client_host = None, headers = [] \<rparr> track_intent (Fin 1, Fin 1) (Fin 2))]
       (\<lparr> sy_state = be_state be, sy_tel_log = Map.empty, sy_vis_log = Map.empty, sy_buckets = Map.empty \<rparr>,
        bridge_set_fc_connected False b0) = (Inr (), y', b) \<and>
     latest_vis (bst b) = Some seen_payload \<and> vis_wf seen_payload \<and>
     latest_intent (bst b) = Some (intent_payload track_intent) \<and> intent_wf (intent_payload track_intent)"
proof -
  obtain be cfg b0 where b: "startup (\<lambda>_. None) (Fin 12) (fresh_state 7) = Inr be" "be_bridge be = Some (cfg, b0)"
    "config_ok cfg" using default_startup by blast
  let ?c = "\<lparr> sc_tel = the (be_tel be), sc_vis = (the (be_vis be))\<lparr> max_bytes := 4096 \<rparr>, sc_token = None, sc_limiter = None \<rparr>"
    and ?loads = "\<lambda>_::nat list. Some (PDict seen_payload)" and ?b = "bridge_set_fc_connected False b0"
  let ?y = "\<lparr> sy_state = be_state be, sy_tel_log = Map.empty, sy_vis_log = Map.empty, sy_buckets = Map.empty \<rparr>"
    and ?vis = "VisDatagram [0] (Fin 1) (Fin 1)"
    and ?post = "IntentPost \<lparr> client_host = None, headers = [] \<rparr> track_intent (Fin 1, Fin 1) (Fin 2)"
  obtain x y' b' where r: "backend_run ?c ?loads cfg (\<lambda>_. ''0.5'') (Fin (1 / 50)) [Handle ?vis, Handle ?post] (?y, ?b) = (x, y', b')"
    by (metis surj_pair)
  have v: "validate_vis_message (PDict seen_payload) = Inr seen_payload"
    unfolding seen_payload_def by (rule validate_vis_fixpoint[OF build_vis_payload_wf])
  have ops: "handler_ops ?c ?loads bk ?vis = [OpVisTotal, OpVisOk seen_payload (Fin 1)]"
    "handler_ops ?c ?loads bk ?post = [OpIntent (intent_payload track_intent) (Fin 2)]" for bk
    using v by (simp_all add: datagram_ops_def require_api_token_def rate_limit_intent_def rate_limited_def track_intent_def)
  have x: "x = Inr ()" "bst b' = update_intent (intent_payload track_intent) (Fin 2)
      (run state_step (bst ?b) [OpVisTotal, OpVisOk seen_payload (Fin 1)])"
    using r by (auto simp: Let_def system_step_ops ops ebind_def simp del: system_step.simps handler_ops.simps)
  obtain q t where "dget seen_payload ''seq'' = Some (PInt q)" "dget seen_payload ''timestamp_s'' = Some (PFloat t)"
    using vis_wf_seq_ts[OF build_vis_payload_wf] unfolding seen_payload_def by metis
  note stored = record_vis_ok_eq[OF this]
  have s: "latest_vis (bst b') = Some seen_payload" "latest_intent (bst b') = Some (intent_payload track_intent)"
    unfolding x(2) by (simp_all add: stored update_intent_def)
  from stored_data_typed[OF b r] s have "vis_wf seen_payload" "intent_wf (intent_payload track_intent)" by simp_all
  then show ?thesis using b(1,2) r x(1) s by blast
qed

text \<open>
  C12: A target seen by the vision process reaches the flight controller as it was seen. The
  datagram that the vision sender puts on the wire for a tracked target, decoded by the
  backend, becomes the stored vision message; if the operator asks for tracking and the
  message is fresh when a connected bridge ticks, the tick returns and what it has put on the wire is
  exactly the command to track with the sequence number that was due, the time of the tick, the
  operator's arming and setpoints, and the target: the box centre on \<open>[-1, 1]\<close> axes, the clamped size and
  confidence, and the vision message's sequence number and time. Only a command above the size
  limit is not sent, and counted as failed.
\<close>

theorem vision_reaches_command:
  assumes "loads (json_bytes fr (build_vis_payload n ts TRACKING box conf)) = Some (PDict (build_vis_payload n ts TRACKING box conf))"
    and "vs_wire (vis_send fr accepted clk (build_vis_payload n ts TRACKING box conf) vs) = vs_wire vs @ [data]"
    and "vs_max_bytes vs \<le> mx"
    and "bst b = ist (snd (vis_process_datagram loads mx li dclk data rx s))" "feed_wf (ist s)"
    and "read_intent (get_latest_intent (ist s)) = Inr (MODE_TRACKING, ar, sp)"
    and "fle (fmax (Fin 0) (fsub t rx)) (bridge_config.vis_fresh_s cfg)" "config_ok cfg"
    and "sock_open b" "before_vis env = []" "before_age env = []" "\<not> stopped env" "sends env"
  shows "fst (send_tick cfg fr env t b) = Inr () \<and>
    sent_as cfg fr (posted_command (cmd_next_seq (ist s)) t MODE_TRACKING ar sp @ [(''tracking'', PDict (target_dict n ts box conf))])
      b (snd (send_tick cfg fr env t b))"
proof -
  let ?d = "build_vis_payload n ts TRACKING box conf"
  have data: "data = json_bytes fr ?d" "int (length data) \<le> mx"
    using assms(2,3) by (auto simp: vis_send_def Let_def split: if_splits)
  have same: "tick_state env b = bst b" "tick_vis env b = get_latest_vis (bst b)"
    using assms(10,11) by (simp_all add: tick_state_def tick_vis_def)
  note st = payload_stored[of loads data, OF assms(1)[folded data(1)] data(2), where li = li and clk = dclk and rx = rx and s = s, folded assms(4)]
  have v: "get_latest_vis (bst b) = Some ?d" "get_vis_age_s t (bst b) = Some (fmax (Fin 0) (fsub t rx))"
    using st(2,3) by (simp_all add: get_latest_vis_def get_vis_age_s_def age_since_def)
  have i: "read_intent (get_latest_intent (bst b)) = Inr (MODE_TRACKING, ar, sp)"
    using st(4) assms(6) by (simp add: get_latest_intent_def)
  have "list_all feed_op [OpVisTotal, OpVisOk ?d rx]" by (simp add: build_vis_payload_wf)
  from feed_run[OF this assms(5)] have "cmd_part (bst b) = cmd_part (ist s)" "feed_wf (bst b)" unfolding st(1) by simp_all
  then have q: "cmd_next_seq (bst b) = cmd_next_seq (ist s)" "0 \<le> cmd_next_seq (bst b)"
    by (simp_all add: cmd_part_def feed_wf_def seq_range_def)
  have "\<not> flt (bridge_config.vis_fresh_s cfg) (Fin 0)"
    using assms(8) by (simp add: config_ok_def check_bridge_config_Inr)
  note c = command_of_payload[OF i q(2) assms(7) this, of t n ts box conf]
  have "tick_built cfg env t b =
      Inr (posted_command (cmd_next_seq (ist s)) t MODE_TRACKING ar sp @ [(''tracking'', PDict (target_dict n ts box conf))], None)"
    unfolding tick_built_def same v c by (simp add: q(1) MODE_TRACKING_def)
  moreover have "env_ok env" using assms(10,11) by (simp add: env_ok_def)
  ultimately show ?thesis using tick_sends[OF _ assms(8)] st(5)[OF assms(5)] assms(9,12,13) by blast
qed

definition asked_to_track :: ingestor where
  "asked_to_track = with_state Map.empty ((fresh_state 7)\<lparr> latest_intent := Some [(''desired_mode'', PInt 1)] \<rparr>)"

definition seen_bridge :: cmd_bridge where
  "seen_bridge = (sample_bridge (ist (snd (vis_process_datagram (\<lambda>_. Some (PDict seen_payload)) 4096 (Fin 5) (Fin 1)
     (json_bytes (\<lambda>_. ''0.5'') seen_payload) (Fin 10) asked_to_track))))\<lparr> sock_open := True \<rparr>"

definition seen_command :: pydict where
  "seen_command = posted_command 7 (Fin 10) 1 None None @ [(''tracking'', PDict (target_dict 3 (Fin 1) seen_box (Fin 1)))]"

theorem vision_reaches_command_witness:
  "wire (snd (send_tick sample_config (\<lambda>_. ''0.5'') quiet_env (Fin 10) seen_bridge)) =
     [be32 (length (json_bytes (\<lambda>_. ''0.5'') seen_command)) @ json_bytes (\<lambda>_. ''0.5'') seen_command]"
proof -
  let ?fr = "\<lambda>_. ''0.5''" and ?vs = "new_vis_sender 512 (Fin 60)" and ?loads = "\<lambda>_::nat list. Some (PDict seen_payload)"
  have "int (length (json_bytes ?fr seen_payload)) \<le> 512"
    by (simp add: json_bytes_def seen_payload_def build_vis_payload_def seen_box_def quote_def escape_char_def clamp01_def
        clamp_signed_def fmin_def fmax_def fsub_def dec_int_def dec_nat.simps digit_char_def utf8_ascii_def)
  then have wire: "vs_wire (vis_send ?fr True (Fin 1) seen_payload ?vs) = vs_wire ?vs @ [json_bytes ?fr seen_payload]"
    by (simp add: vis_send_def new_vis_sender_def Let_def)
  have s: "feed_wf (ist asked_to_track)" "read_intent (get_latest_intent (ist asked_to_track)) = Inr (MODE_TRACKING, None, None)"
    by (simp_all add: asked_to_track_def feed_wf_def fresh_state_def seq_range_def seq_consts with_state_def
        get_latest_intent_def read_intent_def int_at_def dindex_def mode_defs intent_wf_def)
  have t: "fle (fmax (Fin 0) (fsub (Fin 10) (Fin 10))) (bridge_config.vis_fresh_s sample_config)"
    by (simp add: fsub_def fmax_def sample_config_def)
  have l: "int (length (json_bytes ?fr seen_command)) \<le> max_payload_bytes sample_config"
    by (simp add: json_bytes_def seen_command_def posted_command_def target_dict_def seen_box_def quote_def escape_char_def
        clamp01_def clamp_signed_def fmin_def fmax_def fsub_def dec_int_def dec_nat.simps digit_char_def utf8_ascii_def sample_config_def)
  have "vs_max_bytes ?vs \<le> 4096" "sock_open seen_bridge" "before_vis quiet_env = []" "before_age quiet_env = []"
    "\<not> stopped quiet_env" "sends quiet_env" "wire seen_bridge = []"
    "bst seen_bridge = ist (snd (vis_process_datagram ?loads 4096 (Fin 5) (Fin 1) (json_bytes ?fr seen_payload) (Fin 10) asked_to_track))"
    "cmd_next_seq (ist asked_to_track) = 7"
    by (simp_all add: new_vis_sender_def seen_bridge_def sample_bridge_def quiet_env_def asked_to_track_def with_state_def fresh_state_def)
  with vision_reaches_command[where loads = ?loads and n = 3 and ts = "Fin 1" and box = seen_box and conf = "Fin 1",
      folded seen_payload_def, OF refl wire _ _ s t sample_config_ok, of 4096 seen_bridge "Fin 5" "Fin 1" quiet_env] l
  show ?thesis by (simp add: sent_as_def seen_command_def MODE_TRACKING_def Let_def)
qed

text \<open>
  C27: Nothing the vision process sends is refused. Take any run of the vision loop, and let the
  network lose, repeat and reorder the datagrams it put on the wire, with timeouts and socket
  errors in between: if the backend's size limit is not below the sender's, the receive loop
  never ends early, every datagram that arrives is counted as good, the bad counter does not
  move, and the broadcaster is handed exactly the messages that arrived, unchanged.
\<close>

theorem vision_stream_ingested:
  assumes "end_state = snd (run_loop fr L (new_vis_sender limit li) pushing p es)"
    and "max 1 limit \<le> mx" "list_all (arrives (wire_of end_state)) rs"
    and "list_all (\<lambda>d. loads (json_bytes fr d) = Some (PDict d)) (payloads end_state)"
  shows "\<exists>s'. vis_serve_forever True loads mx dli dclk rs s = (Inr (), s') \<and>
    vis_rx_ok (ist s') = vis_rx_ok (ist s) + length (concat (map (arrived loads) rs)) \<and>
    vis_rx_bad (ist s') = vis_rx_bad (ist s) \<and>
    ievents s' = ievents s @ map (\<lambda>(d, t). ValidMsg d t) (concat (map (arrived loads) rs))"
proof (rule serve_forever_accepts[OF assms(3)])
  have w: "list_all (\<lambda>data. int (length data) \<le> max 1 limit \<and>
     (\<exists>d \<in> set (payloads end_state). vis_wf d \<and> data = json_bytes fr d)) (wire_of end_state)"
    using run_loop_wire[of "new_vis_sender limit li" fr L pushing p es] by (simp add: assms(1) new_vis_sender_def)
  then show "list_all (\<lambda>data. int (length data) \<le> mx) (wire_of end_state)"
    using assms(2) by (auto simp: list_all_iff)
  show "0 \<le> mx" using assms(2) by simp
  show "list_all (\<lambda>data. \<exists>d. vis_wf d \<and> loads data = Some (PDict d)) (wire_of end_state)"
    using w assms(4) by (fastforce simp: list_all_iff)
qed

definition lost_target :: "(nat, unit) loop_setup" where
  "lost_target = sample_setup\<lparr> lp_process := (\<lambda>_ _ p. (Inr (zero_result SEARCHING), p)) \<rparr>"

definition lost_payload :: pydict where
  "lost_payload = build_vis_payload 1 (Fin 1) SEARCHING zero_bbox (Fin 0)"

theorem vision_stream_ingested_witness:
  "\<exists>s'. vis_serve_forever True (\<lambda>_. Some (PDict lost_payload)) 4096 (Fin 5) (Fin 1)
     [Datagram (json_bytes (\<lambda>_. ''0.5'') lost_payload) (Fin 3), RecvTimeout,
      Datagram (json_bytes (\<lambda>_. ''0.5'') lost_payload) (Fin 4)] asked_to_track = (Inr (), s') \<and>
     vis_rx_ok (ist s') = 2 \<and> ievents s' = [ValidMsg lost_payload (Fin 3), ValidMsg lost_payload (Fin 4)]"
proof -
  let ?fr = "\<lambda>_. ''0.5''" and ?pushing = "new_frame_pusher '''' '''' 1 1 (Fin 60) None"
  let ?last = "snd (run_loop ?fr lost_target (new_vis_sender 512 (Fin 60)) ?pushing () [sample_read (Some 1)])"
  have "int (length (json_bytes ?fr lost_payload)) \<le> 512"
    by (simp add: json_bytes_def lost_payload_def build_vis_payload_def quote_def escape_char_def
        dec_int_def dec_nat.simps digit_char_def utf8_ascii_def)
  then have e: "payloads ?last = [lost_payload]" "wire_of ?last = [json_bytes ?fr lost_payload]"
    by (simp_all add: run_loop_def ebind_def loop_iteration_def sample_read_def lost_target_def sample_setup_def
        sample_args_def plain_args_def loop_start_def check_black_def low_variance_def push_step_def emit_step_def
        push_due_def interval_of_def send_step_def vis_send_def new_vis_sender_def wire_of_def lost_payload_def
        zero_result_def publish_def ereturn_def Let_def)
  have "vis_rx_ok (ist asked_to_track) = 0" "ievents asked_to_track = []"
    by (simp_all add: asked_to_track_def with_state_def fresh_state_def)
  then show ?thesis
    using vision_stream_ingested[OF refl, of 512 4096 ?fr lost_target "Fin 60" ?pushing "()" "[sample_read (Some 1)]"
        "[Datagram (json_bytes ?fr lost_payload) (Fin 3), RecvTimeout, Datagram (json_bytes ?fr lost_payload) (Fin 4)]"
        "\<lambda>_. Some (PDict lost_payload)" "Fin 5" "Fin 1" asked_to_track] e by auto
qed

text \<open>
  C15: What the operator asks for is what is commanded. After an intent was accepted, with only
  telemetry and vision arriving since, the next tick of a connected bridge returns, and what it has put
  on the wire is exactly the command with the sequence number that was due, the time of the tick, the
  arming and the setpoints that were posted, and the mode that was posted; only if that mode is to track
  and the tick finds no vision message within the freshness limit, the mode is to land. With such a
  message the command carries its target, each member as the message has it, and without one no target. Only a
  command above the size limit is not sent, and counted as failed.
\<close>

theorem intent_reaches_command:
  assumes "intent_route token limiter r clks q now_s (buckets, s) = (Inr answer, (buckets', s'))" "feed_wf s"
    and "list_all keeps_intent ops" "bst b = run state_step s' ops"
    and "config_ok cfg" "env_ok env" "sock_open b" "\<not> stopped env" "sends env"
  shows "fst (send_tick cfg fr env t b) = Inr () \<and>
    (let fresh = (case (tick_vis env b, get_vis_age_s t (tick_state env b)) of
           (Some v, Some age) \<Rightarrow> fle age (bridge_config.vis_fresh_s cfg) | _ \<Rightarrow> False);
         m = (if desired_mode q = MODE_TRACKING \<and> \<not> fresh then MODE_LAND_SAFELY else desired_mode q)
     in \<exists>target. (if fresh then \<exists>v trk. tick_vis env b = Some v \<and> target = [(''tracking'', PDict trk)] \<and> tracks_snapshot v trk
                  else target = []) \<and>
       sent_as cfg fr (posted_command (cmd_next_seq (bst b)) t m (arm q) (map_option (map (apsnd PFloat)) (setpoints q)) @ target)
         b (snd (send_tick cfg fr env t b)))"
proof -
  have route: "desired_mode q \<in> set CMD_CONTROL_MODES" "s' = update_intent (intent_payload q) now_s s"
    using assms(1) by (auto simp: intent_route_def post_intent_def split: sum.splits prod.splits if_splits)
  then have "feed_wf s'" using assms(2) intent_payload_wf by (simp add: feed_wf_def update_intent_def)
  then have wf: "feed_wf (bst b)" using feed_run[OF keeps_intent_feed[OF assms(3)]] assms(4) by simp
  have "get_latest_intent (bst b) = Some (intent_payload q)"
    using run_keeps_intent[OF assms(3)] assms(4) route(2) by (simp add: get_latest_intent_def update_intent_def)
  then have it: "read_intent (get_latest_intent (bst b)) =
      Inr (desired_mode q, arm q, map_option (map (apsnd PFloat)) (setpoints q))"
    using read_posted[OF route(1)] by simp
  obtain p bl where built: "tick_built cfg env t b = Inr (p, bl)" using tick_built_returns[OF assms(5,6) wf] by metis
  have seq: "cmd_next_seq (tick_state env b) = cmd_next_seq (bst b)"
    using tick_state_ok(2)[OF assms(6) wf] by (simp add: cmd_part_def)
  let ?fresh = "is_vis_fresh (tick_vis env b) (get_vis_age_s t (tick_state env b)) (bridge_config.vis_fresh_s cfg)"
  have f: "(case (tick_vis env b, get_vis_age_s t (tick_state env b)) of
      (Some v, Some age) \<Rightarrow> fle age (bridge_config.vis_fresh_s cfg) | _ \<Rightarrow> False) = ?fresh"
    by (simp add: is_vis_fresh_def split: option.split)
  obtain target where p: "p = posted_command (cmd_next_seq (bst b)) t
        (if desired_mode q = MODE_TRACKING \<and> \<not> ?fresh then MODE_LAND_SAFELY else desired_mode q) (arm q)
        (map_option (map (apsnd PFloat)) (setpoints q)) @ target"
    "if ?fresh then \<exists>v trk. tick_vis env b = Some v \<and> target = [(''tracking'', PDict trk)] \<and> tracks_snapshot v trk
     else target = []"
    using command_of_intent[OF built[unfolded tick_built_def seq] it] by blast
  show ?thesis using tick_sends[OF built assms(5,6) wf assms(7-9), of fr] p unfolding f Let_def by blast
qed

definition throttle_intent :: intent_request where
  "throttle_intent = \<lparr> desired_mode = 0, arm = None, setpoints = Some [(''throttle'', Fin 1200)] \<rparr>"

definition throttle_bridge :: cmd_bridge where
  "throttle_bridge = (sample_bridge (update_intent (intent_payload throttle_intent) (Fin 1) (fresh_state 0)))\<lparr> sock_open := True \<rparr>"

definition throttle_command :: pydict where
  "throttle_command = posted_command 0 (Fin 2) 0 None (Some [(''throttle'', PFloat (Fin 1200))])"

theorem intent_reaches_command_witness:
  "wire (snd (send_tick sample_config (\<lambda>_. ''0.5'') quiet_env (Fin 2) throttle_bridge)) =
     [be32 (length (json_bytes (\<lambda>_. ''0.5'') throttle_command)) @ json_bytes (\<lambda>_. ''0.5'') throttle_command]"
proof -
  let ?r = "\<lparr> client_host = None, headers = [] \<rparr>" and ?s = "fresh_state 0" and ?fr = "\<lambda>_. ''0.5''"
  have route: "intent_route None None ?r (Fin 1, Fin 1) throttle_intent (Fin 1) (Map.empty, ?s) =
      (Inr [(''ok'', PBool True), (''intent'', PDict (intent_payload throttle_intent))],
       (Map.empty, update_intent (intent_payload throttle_intent) (Fin 1) ?s))"
    by (simp add: intent_route_def require_api_token_def rate_limit_intent_def rate_limited_def post_intent_def
        throttle_intent_def CMD_CONTROL_MODES_def)
  have f: "tick_vis quiet_env throttle_bridge = None" "cmd_next_seq (bst throttle_bridge) = 0"
    by (simp_all add: tick_vis_def quiet_env_def throttle_bridge_def sample_bridge_def get_latest_vis_def update_intent_def fresh_state_def)
  have l: "int (length (json_bytes ?fr throttle_command)) \<le> max_payload_bytes sample_config"
    by (simp add: json_bytes_def throttle_command_def posted_command_def quote_def escape_char_def dec_int_def dec_nat.simps
        digit_char_def utf8_ascii_def sample_config_def)
  have "bst throttle_bridge = run state_step (update_intent (intent_payload throttle_intent) (Fin 1) ?s) []"
    "env_ok quiet_env" "sock_open throttle_bridge" "\<not> stopped quiet_env" "sends quiet_env" "wire throttle_bridge = []"
    by (simp_all add: throttle_bridge_def sample_bridge_def env_ok_def quiet_env_def)
  with intent_reaches_command[OF route fresh_feed_wf(1) _ this(1) sample_config_ok this(2-5), of ?fr "Fin 2"] f l
  show ?thesis by (simp add: throttle_intent_def MODE_TRACKING_def sent_as_def throttle_command_def Let_def)
qed

text \<open>
  C38: What the vision process pushes the backend takes. If both read the same token variable,
  a JPEG that the pusher posts, with a size limit not above the backend's, passes the token
  check and every check of the frame route, and becomes the newest frame of the video hub,
  unless the client has no rate token left.
\<close>

theorem pushed_frame_accepted:
  fixes host
  assumes "read_runtime benv = Inr rt" "enabled rt" "benv ''BACKEND_API_TOKEN'' = venv ''BACKEND_API_TOKEN''"
    and "p = new_frame_pusher url endpoint limit step lg (venv ''BACKEND_API_TOKEN'')" "limit \<le> max_jpeg_bytes rt"
    and "fp_posts (snd (push status clk body p)) = fp_posts p @ [(body, push_headers p)]"
    and "looks_like_jpeg body" "validate_decode rt \<longrightarrow> can_decode_jpeg verify body" "concat chunks = body"
  defines "r \<equiv> deliver host p body"
  shows "case frame_route rt (api_token rt) (frame_limiter rt) verify r clks chunks now_s (buckets, Some h) of
      (x, buckets', hub') \<Rightarrow>
        if fst (rate_limit_frame (frame_limiter rt) r clks buckets) = Inr ()
        then x = Inr [(''ok'', PBool True), (''size_bytes'', PInt (int (length body)))] \<and>
          hub' = Some (set_jpeg body now_s h)
        else x = Inl (HTTPException 429 ''frame rate limit exceeded'') \<and> hub' = Some h"
proof -
  have tok: "read_env_token benv ''BACKEND_API_TOKEN'' = Inr (api_token rt)" and m: "1 \<le> max_jpeg_bytes rt"
    using assms(1) read_runtime_ok[OF assms(1)]
    by (auto simp: read_runtime_def rbind_Inr_iff runtime_ok_def)
  have "read_env_token venv ''BACKEND_API_TOKEN'' = Inr (api_token rt)"
    using tok assms(3) by (simp add: read_env_token_def)
  from delivered_authorised[OF this] assms(4) have a: "require_api_token (api_token rt) r = Inr ()"
    unfolding r_def by blast
  have "int (length body) \<le> max 1 limit"
    using assms(4,6) by (auto simp: push_def new_frame_pusher_def fp_logged_def Let_def split: if_splits)
  then have "frame_acceptable rt verify r chunks"
    unfolding r_def using assms(5,7,8,9) m by (intro delivered_acceptable) auto
  then have c: "check_frame rt verify r chunks = Inr body" using check_frame_Inr assms(9) by metis
  obtain y bs where l: "rate_limit_frame (frame_limiter rt) r clks buckets = (y, bs)" by fastforce
  have "y = Inr () \<or> y = Inl (HTTPException 429 ''frame rate limit exceeded'')"
    using l by (auto simp: rate_limit_frame_def rate_limited_def guard_raise_def split: option.splits prod.splits if_splits)
  then show ?thesis using a c l assms(2) by (auto simp: frame_route_def post_frame_def)
qed

theorem pushed_frame_accepted_witness:
  "case frame_route default_runtime None (Some \<lparr> lim_capacity = Fin 30, lim_refill = Fin 30 \<rparr>) None
      (deliver None (new_frame_pusher ''http://h'' ''/api/frame'' 200000 20 (Fin 60) None) [0xFF, 0xD8, 0xFF, 0xD9])
      (Fin 1, Fin 1) [[0xFF, 0xD8], [0xFF, 0xD9]] (Fin 2) (Map.empty, Some new_video_hub) of
     (x, _, hub') \<Rightarrow> hub' = Some (set_jpeg [0xFF, 0xD8, 0xFF, 0xD9] (Fin 2) new_video_hub) \<or> hub' = Some new_video_hub"
  using pushed_frame_accepted[where benv = "\<lambda>_. None" and venv = "\<lambda>_. None" and rt = default_runtime
      and limit = 200000 and body = "[0xFF, 0xD8, 0xFF, 0xD9]" and chunks = "[[0xFF, 0xD8], [0xFF, 0xD9]]"
      and status = None and host = None and verify = None and clks = "(Fin 1, Fin 1)" and now_s = "Fin 2"
      and buckets = Map.empty and h = new_video_hub, OF default_runtime_read _ refl refl,
      of clk "''http://h''" "''/api/frame''" 20 "Fin 60"]
  by (simp add: default_runtime_def push_def new_frame_pusher_def fp_logged_def looks_like_jpeg_def split: prod.splits if_splits)

end
